(* ===== verification/DS_Prelude.thy ===== *)
theory DS_Prelude imports Complex_Main "HOL-Library.AList" "HOL-Library.Char_ord"
  "HOL-Library.List_Lexorder" "HOL-Library.Product_Lexorder" "HOL-Library.Multiset" begin

text \<open>
  The prelude of the development: what the models of all components share.

  \<^item> Effects. A service method of the code may raise and may emit effects (metrics, events,
    log lines, sleeps). Such a method is a value of type \<open>('e, 'o, 'a) eff\<close>: the result
    (\<open>Inl\<close> the exception, \<open>Inr\<close> the value) together with the effects in the order in
    which they happened. \<open>eret\<close>, \<open>eraise\<close>, \<open>etell\<close>, \<open>ebind\<close> and
    \<open>ecatch\<close> are return, raise, one effect, sequencing and try/except.
  \<^item> Python dictionaries are association lists updated with \<^term>\<open>AList.update\<close>, which, as
    Python does, overwrites in place and appends a new key at the end; \<open>dget\<close> is \<open>d.get\<close>.
  \<^item> Numbers. Python integers are \<open>int\<close> (or \<open>nat\<close> where the code can only count),
    Python floats are \<open>rat\<close>: exact, without rounding, infinities or NaN.
  \<^item> Slices and stable sorting, with the generic lemmas the component theories use.
\<close>

named_theorems eff_simps "equations of the effect operations"
named_theorems dict_simps "equations of the dictionary operations"

section \<open>Results with effects\<close>

type_synonym ('e, 'o, 'a) eff = "('e + 'a) \<times> 'o list"

definition eret :: "'a \<Rightarrow> ('e, 'o, 'a) eff" where
  "eret x = (Inr x, [])"

definition eraise :: "'e \<Rightarrow> ('e, 'o, 'a) eff" where
  "eraise e = (Inl e, [])"

definition etell :: "'o \<Rightarrow> ('e, 'o, unit) eff" where
  "etell t = (Inr (), [t])"

definition ebind :: "('e, 'o, 'a) eff \<Rightarrow> ('a \<Rightarrow> ('e, 'o, 'b) eff) \<Rightarrow> ('e, 'o, 'b) eff" where
  "ebind m f = (case m of
      (Inl e, out) \<Rightarrow> (Inl e, out)
    | (Inr x, out) \<Rightarrow> (case f x of (r, out') \<Rightarrow> (r, out @ out')))"

definition ecatch :: "('e, 'o, 'a) eff \<Rightarrow> ('e \<Rightarrow> ('e, 'o, 'a) eff) \<Rightarrow> ('e, 'o, 'a) eff" where
  "ecatch m h = (case m of
      (Inl e, out) \<Rightarrow> (case h e of (r, out') \<Rightarrow> (r, out @ out'))
    | (Inr x, out) \<Rightarrow> (Inr x, out))"

definition lift_res :: "'e + 'a \<Rightarrow> ('e, 'o, 'a) eff" where
  "lift_res r = (r, [])"

lemma ebind_eret [eff_simps]: "ebind (eret x) f = f x"
  by (cases "f x") (simp add: ebind_def eret_def)

lemma ebind_eraise [eff_simps]: "ebind (eraise e) f = eraise e"
  by (simp add: ebind_def eraise_def)

lemma ebind_Inl [eff_simps]: "ebind (Inl e, out) f = (Inl e, out)"
  by (simp add: ebind_def)

lemma ebind_Inr [eff_simps]:
  "ebind (Inr x, out) f = (fst (f x), out @ snd (f x))"
  by (simp add: ebind_def split: prod.split)

lemma ebind_etell [eff_simps]: "ebind (etell t) f = (fst (f ()), t # snd (f ()))"
  by (simp add: etell_def ebind_Inr)

lemma ecatch_Inl [eff_simps]:
  "ecatch (Inl e, out) h = (fst (h e), out @ snd (h e))"
  by (simp add: ecatch_def split: prod.split)

lemma ecatch_Inr [eff_simps]: "ecatch (Inr x, out) h = (Inr x, out)"
  by (simp add: ecatch_def)

lemma fst_eret [eff_simps]: "fst (eret x) = Inr x"
  by (simp add: eret_def)

lemma snd_eret [eff_simps]: "snd (eret x) = []"
  by (simp add: eret_def)

lemma fst_eraise [eff_simps]: "fst (eraise e) = Inl e"
  by (simp add: eraise_def)

lemma snd_eraise [eff_simps]: "snd (eraise e) = []"
  by (simp add: eraise_def)

lemma fst_etell [eff_simps]: "fst (etell t) = Inr ()"
  by (simp add: etell_def)

lemma snd_etell [eff_simps]: "snd (etell t) = [t]"
  by (simp add: etell_def)

lemma fst_lift_res [eff_simps]: "fst (lift_res r) = r"
  by (simp add: lift_res_def)

lemma snd_lift_res [eff_simps]: "snd (lift_res r) = []"
  by (simp add: lift_res_def)

lemma fst_ebind [eff_simps]:
  "fst (ebind m f) = (case fst m of Inl e \<Rightarrow> Inl e | Inr x \<Rightarrow> fst (f x))"
  by (cases m) (auto simp: ebind_def split: sum.splits prod.splits)

lemma snd_ebind [eff_simps]:
  "snd (ebind m f) = snd m @ (case fst m of Inl e \<Rightarrow> [] | Inr x \<Rightarrow> snd (f x))"
  by (cases m) (auto simp: ebind_def split: sum.splits prod.splits)

lemma fst_ecatch [eff_simps]:
  "fst (ecatch m h) = (case fst m of Inl e \<Rightarrow> fst (h e) | Inr x \<Rightarrow> Inr x)"
  by (cases m) (auto simp: ecatch_def split: sum.splits prod.splits)

lemma snd_ecatch [eff_simps]:
  "snd (ecatch m h) = snd m @ (case fst m of Inl e \<Rightarrow> snd (h e) | Inr x \<Rightarrow> [])"
  by (cases m) (auto simp: ecatch_def split: sum.splits prod.splits)

lemma ebind_assoc:
  "ebind (ebind m f) g = ebind m (\<lambda>x. ebind (f x) g)"
  by (rule prod_eqI) (simp_all add: eff_simps split: sum.split)

section \<open>Dictionaries\<close>

type_synonym ('k, 'v) dict = "('k \<times> 'v) list"

definition dget :: "('k, 'v) dict \<Rightarrow> 'k \<Rightarrow> 'v option" where
  "dget d k = map_of d k"

definition dset :: "'k \<Rightarrow> 'v \<Rightarrow> ('k, 'v) dict \<Rightarrow> ('k, 'v) dict" where
  "dset k v d = AList.update k v d"

definition dkeys :: "('k, 'v) dict \<Rightarrow> 'k list" where
  "dkeys d = map fst d"

definition ddel :: "'k \<Rightarrow> ('k, 'v) dict \<Rightarrow> ('k, 'v) dict" where
  "ddel k d = AList.delete k d"

text \<open>A well-formed dictionary has one entry per key.\<close>

definition dict_ok :: "('k, 'v) dict \<Rightarrow> bool" where
  "dict_ok d \<longleftrightarrow> distinct (map fst d)"

lemma dget_Nil [dict_simps]: "dget [] k = None"
  by (simp add: dget_def)

lemma dget_Cons [dict_simps]: "dget ((k, v) # d) k' = (if k' = k then Some v else dget d k')"
  by (simp add: dget_def)

lemma dget_dset [dict_simps]: "dget (dset k v d) k' = (if k' = k then Some v else dget d k')"
  by (simp add: dget_def dset_def update_conv)

lemma dget_ddel [dict_simps]: "dget (ddel k d) k' = (if k' = k then None else dget d k')"
  by (simp add: dget_def ddel_def delete_conv)

lemma set_dkeys_dset [dict_simps]: "set (dkeys (dset k v d)) = insert k (set (dkeys d))"
  by (simp add: dkeys_def dset_def dom_update)

lemma dict_ok_Nil [dict_simps]: "dict_ok []"
  by (simp add: dict_ok_def)

lemma dict_ok_dset [dict_simps]: "dict_ok d \<Longrightarrow> dict_ok (dset k v d)"
  by (simp add: dict_ok_def dset_def distinct_update)

lemma dict_ok_ddel [dict_simps]: "dict_ok d \<Longrightarrow> dict_ok (ddel k d)"
  by (simp add: dict_ok_def ddel_def distinct_delete)

lemma dkeys_ddel [dict_simps]: "dkeys (ddel k d) = removeAll k (dkeys d)"
  by (simp add: dkeys_def ddel_def delete_keys)

lemma dget_None_iff: "dget d k = None \<longleftrightarrow> k \<notin> set (dkeys d)"
  by (simp add: dget_def dkeys_def map_of_eq_None_iff)

lemma dget_Some_in: "dget d k = Some v \<Longrightarrow> k \<in> set (dkeys d)"
  by (metis dget_None_iff option.distinct(1))

lemma dget_mem: "dict_ok d \<Longrightarrow> (k, v) \<in> set d \<longleftrightarrow> dget d k = Some v"
  by (simp add: dict_ok_def dget_def)

lemma length_dset:
  "length (dset k v d) = (if k \<in> set (dkeys d) then length d else Suc (length d))"
  by (induction d) (auto simp: dset_def dkeys_def)

section \<open>Slices\<close>

text \<open>Python's \<open>xs[:n]\<close>: a negative bound counts from the end.\<close>

definition py_prefix :: "int \<Rightarrow> 'a list \<Rightarrow> 'a list" where
  "py_prefix n xs = (if 0 \<le> n then take (nat n) xs else take (nat (int (length xs) + n)) xs)"

lemma set_py_prefix: "set (py_prefix n xs) \<subseteq> set xs"
  by (auto simp: py_prefix_def dest: in_set_takeD)

lemma py_prefix_take: "\<exists>k. py_prefix n xs = take k xs"
  by (auto simp: py_prefix_def)

lemma length_py_prefix: "0 \<le> n \<Longrightarrow> length (py_prefix n xs) = min (length xs) (nat n)"
  by (simp add: py_prefix_def)

section \<open>Sorting\<close>

text \<open>Python's \<open>sorted(xs, key=f)\<close> is stable, as \<^const>\<open>sort_key\<close> is.\<close>

lemma sorted_wrt_sort_key: "sorted_wrt (\<lambda>x y. f x \<le> f y) (sort_key f xs)"
  using sorted_sort_key [of f xs] by (simp add: sorted_map)

lemma sorted_wrt_distinct_key:
  "sorted_wrt P xs \<Longrightarrow> distinct (map f xs) \<Longrightarrow> sorted_wrt (\<lambda>x y. P x y \<and> f x \<noteq> f y) xs"
  by (induction xs) (auto simp: image_iff)

lemma sort_key_sorted: "sorted (map f xs) \<Longrightarrow> sort_key f xs = xs"
  by (simp add: sorted_sort_id sort_key_id_if_sorted)

end
