(* ===== verification/Py_Text.thy ===== *)
theory Py_Text imports DS_Prelude begin

text \<open>
  The part of Python's \<open>str\<close> the sources use. A text is a \<^typ>\<open>string\<close>, a list of the
  code points below 256 (\<^typ>\<open>char\<close>), on which \<open>isspace\<close>, \<open>lower\<close>, \<open>strip\<close>,
  \<open>split\<close>, \<open>startswith\<close>, \<open>removeprefix\<close>, \<open>isdigit\<close> and the regular expression
  \<open>\s+\<close> are computed here. Code points from 256 on (Korean text, typographic spaces) are
  outside the model; a function that needs a Unicode table takes it as a parameter.
\<close>

section \<open>Character classes\<close>

definition py_isspace :: "char \<Rightarrow> bool" where
  "py_isspace c = (let n = (of_char c :: nat) in
     (9 \<le> n \<and> n \<le> 13) \<or> (28 \<le> n \<and> n \<le> 32) \<or> n = 133 \<or> n = 160)"

definition py_isdigit :: "char \<Rightarrow> bool" where
  "py_isdigit c = (let n = (of_char c :: nat) in 48 \<le> n \<and> n \<le> 57)"

definition py_lower_char :: "char \<Rightarrow> char" where
  "py_lower_char c = (let n = (of_char c :: nat) in
     if (65 \<le> n \<and> n \<le> 90) \<or> (192 \<le> n \<and> n \<le> 222 \<and> n \<noteq> 215) then char_of (n + 32) else c)"

definition py_lower :: "string \<Rightarrow> string" where
  "py_lower s = map py_lower_char s"

definition py_upper_char :: "char \<Rightarrow> char" where
  "py_upper_char c = (let n = (of_char c :: nat) in
     if (97 \<le> n \<and> n \<le> 122) then char_of (n - 32) else c)"

definition py_upper :: "string \<Rightarrow> string" where
  "py_upper s = map py_upper_char s"

lemma of_char_less: "(of_char c :: nat) < 256"
  by simp

lemma py_lower_char_idem [simp]: "py_lower_char (py_lower_char c) = py_lower_char c"
proof -
  let ?n = "of_char c :: nat"
  have "(of_char (char_of (?n + 32) :: char) :: nat) = ?n + 32" if "?n \<le> 222"
    using that by (simp add: of_char_of)
  then show ?thesis by (auto simp: py_lower_char_def Let_def)
qed

lemma py_lower_idem [simp]: "py_lower (py_lower s) = py_lower s"
  by (simp add: py_lower_def)

lemma py_lower_append [simp]: "py_lower (s @ t) = py_lower s @ py_lower t"
  by (simp add: py_lower_def)

section \<open>Prefixes and stripping\<close>

definition starts_with :: "string \<Rightarrow> string \<Rightarrow> bool" where
  "starts_with p s = (take (length p) s = p)"

definition ends_with :: "string \<Rightarrow> string \<Rightarrow> bool" where
  "ends_with p s = starts_with (rev p) (rev s)"

definition remove_prefix :: "string \<Rightarrow> string \<Rightarrow> string" where
  "remove_prefix p s = (if starts_with p s then drop (length p) s else s)"

definition lstrip_by :: "(char \<Rightarrow> bool) \<Rightarrow> string \<Rightarrow> string" where
  "lstrip_by P s = dropWhile P s"

definition rstrip_by :: "(char \<Rightarrow> bool) \<Rightarrow> string \<Rightarrow> string" where
  "rstrip_by P s = rev (dropWhile P (rev s))"

definition py_strip :: "string \<Rightarrow> string" where
  "py_strip s = rstrip_by py_isspace (lstrip_by py_isspace s)"

fun contains_str :: "string \<Rightarrow> string \<Rightarrow> bool" where
  "contains_str p [] = (p = [])"
| "contains_str p (c # s) = (starts_with p (c # s) \<or> contains_str p s)"

lemma starts_with_append [simp]: "starts_with p (p @ s)"
  by (simp add: starts_with_def)

lemma starts_with_iff: "starts_with p s \<longleftrightarrow> (\<exists>t. s = p @ t)"
  by (metis append_eq_conv_conj starts_with_def)

lemma starts_with_Nil [simp]: "starts_with [] s"
  by (simp add: starts_with_def)

lemma contains_str_iff: "contains_str p s \<longleftrightarrow> (\<exists>a b. s = a @ p @ b)"
proof (induction s)
  case (Cons c s)
  have "(\<exists>a b. c # s = a @ p @ b) \<longleftrightarrow> (\<exists>b. c # s = p @ b) \<or> (\<exists>a b. s = a @ p @ b)"
    by (metis append_Cons append_Nil list.inject neq_Nil_conv)
  with Cons show ?case by (simp add: starts_with_iff)
qed simp

lemma rstrip_by_last: "rstrip_by P s \<noteq> [] \<Longrightarrow> \<not> P (last (rstrip_by P s))"
  by (metis hd_dropWhile last_rev rev_is_Nil_conv rstrip_by_def)

lemma lstrip_by_hd: "lstrip_by P s \<noteq> [] \<Longrightarrow> \<not> P (hd (lstrip_by P s))"
  by (simp add: hd_dropWhile lstrip_by_def)

lemma rstrip_by_prefix: "\<exists>t. s = rstrip_by P s @ t"
proof -
  have "rev s = takeWhile P (rev s) @ dropWhile P (rev s)" by simp
  then have "s = rev (dropWhile P (rev s)) @ rev (takeWhile P (rev s))"
    by (metis rev_append rev_rev_ident)
  then show ?thesis unfolding rstrip_by_def by blast
qed

lemma rstrip_by_hd: "rstrip_by P s \<noteq> [] \<Longrightarrow> hd (rstrip_by P s) = hd s"
  by (metis hd_append2 rstrip_by_prefix)

lemma py_strip_hd: "py_strip s \<noteq> [] \<Longrightarrow> \<not> py_isspace (hd (py_strip s))"
  by (metis lstrip_by_hd py_strip_def rev.simps(1) rstrip_by_def rstrip_by_hd dropWhile.simps(1))

lemma py_strip_last: "py_strip s \<noteq> [] \<Longrightarrow> \<not> py_isspace (last (py_strip s))"
  by (simp add: py_strip_def rstrip_by_last)

lemma set_py_strip: "set (py_strip s) \<subseteq> set s"
  unfolding py_strip_def rstrip_by_def lstrip_by_def
  by (metis set_dropWhileD set_rev subsetI)

lemma py_strip_id:
  assumes "s = [] \<or> \<not> py_isspace (hd s) \<and> \<not> py_isspace (last s)"
  shows "py_strip s = s"
proof (cases "s = []")
  case True
  then show ?thesis by (simp add: py_strip_def rstrip_by_def lstrip_by_def)
next
  case False
  with assms have "dropWhile py_isspace s = s" by (simp add: dropWhile_eq_self_iff)
  moreover have "dropWhile py_isspace (rev s) = rev s"
    using assms False by (simp add: dropWhile_eq_self_iff hd_rev)
  ultimately show ?thesis by (simp add: py_strip_def rstrip_by_def lstrip_by_def)
qed

section \<open>White space\<close>

text \<open>\<open>re.sub(r"\s+", " ", s)\<close>: each maximal run of white space becomes one space.\<close>

declare length_dropWhile_le [termination_simp] less_Suc_eq_le [termination_simp]

fun collapse_ws :: "string \<Rightarrow> string" where
  "collapse_ws [] = []"
| "collapse_ws (c # s) =
     (if py_isspace c then CHR '' '' # collapse_ws (dropWhile py_isspace s)
      else c # collapse_ws s)"

text \<open>\<open>s.split()\<close>: the maximal runs without white space.\<close>

function py_split :: "string \<Rightarrow> string list" where
  "py_split s =
     (let t = dropWhile py_isspace s in
      if t = [] then []
      else takeWhile (\<lambda>c. \<not> py_isspace c) t # py_split (dropWhile (\<lambda>c. \<not> py_isspace c) t))"
  by pat_completeness auto
termination
proof (relation "measure length", simp, goal_cases)
  case (1 s t)
  then have "t \<noteq> []" "\<not> py_isspace (hd t)" by (simp_all add: hd_dropWhile)
  then have "length (dropWhile (\<lambda>c. \<not> py_isspace c) t) < length t"
    by (cases t) (auto simp: le_imp_less_Suc length_dropWhile_le)
  also have "length t \<le> length s" using 1 by (simp add: length_dropWhile_le)
  finally show ?case by simp
qed

declare py_split.simps [simp del]

text \<open>Text whose white space is single spaces between other characters.\<close>

definition ws_normal :: "string \<Rightarrow> bool" where
  "ws_normal s \<longleftrightarrow>
     (s = [] \<or> \<not> py_isspace (hd s) \<and> \<not> py_isspace (last s)) \<and>
     (\<forall>c \<in> set s. py_isspace c \<longrightarrow> c = CHR '' '') \<and>
     successively (\<lambda>x y. \<not> (py_isspace x \<and> py_isspace y)) s"

lemma space_isspace [simp]: "py_isspace (CHR '' '')"
  by (simp add: py_isspace_def)

lemma collapse_only_spaces: "c \<in> set (collapse_ws s) \<Longrightarrow> py_isspace c \<Longrightarrow> c = CHR '' ''"
  by (induction s rule: collapse_ws.induct) (auto split: if_splits)

lemma hd_collapse: "\<not> py_isspace (hd s) \<Longrightarrow> s \<noteq> [] \<Longrightarrow> hd (collapse_ws s) = hd s"
  by (cases s) auto

lemma collapse_Nil_iff: "collapse_ws s = [] \<longleftrightarrow> s = []"
  by (cases s) auto

lemma successively_collapse:
  "successively (\<lambda>x y. \<not> (py_isspace x \<and> py_isspace y)) (collapse_ws s)"
proof (induction s rule: collapse_ws.induct)
  case (2 c s)
  show ?case
  proof (cases "py_isspace c")
    case True
    let ?t = "dropWhile py_isspace s"
    have "collapse_ws ?t = [] \<or> \<not> py_isspace (hd (collapse_ws ?t))"
      by (metis collapse_Nil_iff hd_collapse hd_dropWhile)
    with 2(1) [OF True] True show ?thesis by (auto simp: successively_Cons)
  next
    case False
    with 2(2) [OF False] show ?thesis by (simp add: successively_Cons)
  qed
qed simp

lemma successively_sublist: "successively P (a @ b @ c) \<Longrightarrow> successively P b"
  by (simp add: successively_append_iff)

lemma py_strip_infix: "\<exists>a c. s = a @ py_strip s @ c"
proof -
  obtain c where "dropWhile py_isspace s = py_strip s @ c"
    using rstrip_by_prefix unfolding py_strip_def lstrip_by_def by blast
  then have "s = takeWhile py_isspace s @ py_strip s @ c" by (metis takeWhile_dropWhile_id)
  then show ?thesis by blast
qed

lemma ws_normal_strip_collapse: "ws_normal (py_strip (collapse_ws s))"
proof -
  obtain a c where d: "collapse_ws s = a @ py_strip (collapse_ws s) @ c"
    using py_strip_infix by blast
  have "successively (\<lambda>x y. \<not> (py_isspace x \<and> py_isspace y)) (py_strip (collapse_ws s))"
    using successively_collapse [of s] d successively_sublist by metis
  moreover have "\<forall>c \<in> set (py_strip (collapse_ws s)). py_isspace c \<longrightarrow> c = CHR '' ''"
    using collapse_only_spaces set_py_strip by blast
  ultimately show ?thesis using py_strip_hd py_strip_last unfolding ws_normal_def by blast
qed

lemma collapse_id:
  assumes "\<forall>c \<in> set s. py_isspace c \<longrightarrow> c = CHR '' ''"
    and "successively (\<lambda>x y. \<not> (py_isspace x \<and> py_isspace y)) s"
  shows "collapse_ws s = s"
  using assms
proof (induction s)
  case (Cons c s)
  have "collapse_ws s = s" using Cons by (auto simp: successively_Cons)
  moreover have "py_isspace c \<Longrightarrow> dropWhile py_isspace s = s"
    using Cons.prems(2) by (cases s) (auto simp: successively_Cons)
  ultimately show ?case using Cons.prems(1) by auto
qed simp

lemma ws_normal_fixed: "ws_normal s \<Longrightarrow> py_strip (collapse_ws s) = s"
  by (simp add: ws_normal_def collapse_id py_strip_id)

lemma py_split_no_space: "t \<in> set (py_split s) \<Longrightarrow> t \<noteq> [] \<and> (\<forall>c \<in> set t. \<not> py_isspace c)"
proof (induction s rule: py_split.induct)
  case (1 s)
  let ?t = "dropWhile py_isspace s"
  show ?case
  proof (cases "?t = []")
    case True
    with 1(2) show ?thesis by (simp add: py_split.simps [of s])
  next
    case False
    have h: "takeWhile (\<lambda>c. \<not> py_isspace c) ?t \<noteq> []"
      using hd_dropWhile [OF False] False by (cases ?t) auto
    have "py_split s = takeWhile (\<lambda>c. \<not> py_isspace c) ?t #
        py_split (dropWhile (\<lambda>c. \<not> py_isspace c) ?t)"
      using False by (subst py_split.simps) (simp only: Let_def if_False)
    with 1(2) have "t = takeWhile (\<lambda>c. \<not> py_isspace c) ?t \<or>
        t \<in> set (py_split (dropWhile (\<lambda>c. \<not> py_isspace c) ?t))" by simp
    then show ?thesis
    proof
      assume t: "t = takeWhile (\<lambda>c. \<not> py_isspace c) ?t"
      then have "\<forall>c \<in> set t. \<not> py_isspace c" by (metis set_takeWhileD)
      moreover from h have "t \<noteq> []" unfolding t .
      ultimately show ?thesis by blast
    next
      assume "t \<in> set (py_split (dropWhile (\<lambda>c. \<not> py_isspace c) ?t))"
      then show ?thesis by (rule 1(1) [OF refl False])
    qed
  qed
qed

section \<open>Decimal numerals\<close>

text \<open>\<open>str(n)\<close> of an integer, and \<open>int(digits)\<close> of a run of digits.\<close>

definition digit_char :: "nat \<Rightarrow> char" where
  "digit_char d = char_of (48 + d)"

definition digit_value :: "char \<Rightarrow> nat" where
  "digit_value c = of_char c - 48"

fun py_nat_str :: "nat \<Rightarrow> string" where
  "py_nat_str n = (if n < 10 then [digit_char n] else py_nat_str (n div 10) @ [digit_char (n mod 10)])"

declare py_nat_str.simps [simp del]

definition py_int_str :: "int \<Rightarrow> string" where
  "py_int_str i = (if i < 0 then CHR ''-'' # py_nat_str (nat (- i)) else py_nat_str (nat i))"

definition digits_value :: "string \<Rightarrow> nat" where
  "digits_value s = foldl (\<lambda>a c. 10 * a + digit_value c) 0 s"

lemma digit_value_char: "d < 10 \<Longrightarrow> digit_value (digit_char d) = d"
  by (simp add: digit_value_def digit_char_def of_char_of)

lemma isdigit_digit_char: "d < 10 \<Longrightarrow> py_isdigit (digit_char d)"
  by (simp add: py_isdigit_def digit_char_def of_char_of Let_def)

lemma digit_char_0 [simp]: "digit_char 0 = CHR ''0''"
  by code_simp

lemma py_nat_str_digits: "list_all py_isdigit (py_nat_str n)"
proof (induction n rule: py_nat_str.induct)
  case (1 n)
  then show ?case by (subst py_nat_str.simps) (auto simp: isdigit_digit_char)
qed

lemma py_nat_str_Nil [simp]: "py_nat_str n \<noteq> []"
  by (subst py_nat_str.simps) simp

lemma digits_value_str: "digits_value (py_nat_str n) = n"
proof (induction n rule: py_nat_str.induct)
  case (1 n)
  show ?case
  proof (cases "n < 10")
    case True
    then show ?thesis
      by (subst py_nat_str.simps) (simp add: digits_value_def digit_value_char)
  next
    case False
    with 1 show ?thesis
      by (subst py_nat_str.simps) (simp add: digits_value_def digit_value_char)
  qed
qed

lemma hd_py_nat_str: "0 < n \<Longrightarrow> hd (py_nat_str n) \<noteq> CHR ''0''"
proof (induction n rule: py_nat_str.induct)
  case (1 n)
  show ?case
  proof (cases "n < 10")
    case True
    have "digit_char n \<noteq> digit_char 0"
      using True 1(2) digit_value_char [of n] digit_value_char [of 0] by auto
    with True show ?thesis by (subst py_nat_str.simps) simp
  next
    case False
    with 1 have "hd (py_nat_str (n div 10)) \<noteq> CHR ''0''" by simp
    with False show ?thesis by (subst py_nat_str.simps) simp
  qed
qed

lemma py_nat_str_inj: "py_nat_str m = py_nat_str n \<longleftrightarrow> m = n"
  by (metis digits_value_str)

end
