(* ===== verification/Search_Models.thy ===== *)
theory Search_Models imports Py_Text begin

text \<open>
  The data of the discovery module (U2): the shared index record, the intermediate shapes of
  \<open>backend/modules/discovery/src/discovery/domain/models.py\<close> and the response contract
  \<open>SearchResponse\<close> of \<open>docsuri_shared\<close>. Field names are the code's, prefixed where two
  classes share one. Pydantic's length and type checks on construction are not modelled.
\<close>

section \<open>The index record\<close>

record source_provenance =
  sp_sourceName :: string
  sp_sourceId :: string
  sp_sourceTier :: string
  sp_sourceUrl :: string
  sp_doi :: string
  sp_arxivId :: string

record doc_model_block_ref =
  br_paperId :: string
  br_version :: int
  br_sectionId :: string
  br_blockId :: string
  br_blockType :: string

record index_record =
  chunkId :: string
  paperId :: string
  ir_version :: int
  ir_vector :: "rat list"
  ir_section :: string
  lexicalTerms :: string
  blockRefs :: "doc_model_block_ref list option"
  ir_title :: string
  ir_authors :: "string list"
  ir_year :: int
  ir_arxivId :: string
  ir_abstract :: string
  ir_abstractSnippet :: string
  ir_arxivUrl :: string
  categories :: "string list"
  ir_doi :: "string option"
  sourceArxivId :: "string option"
  sourceProvenance :: "source_provenance option"

section \<open>Pipeline shapes\<close>

datatype degrade_mode = NORMAL | RERANK_OFF | LEXICAL_ONLY

datatype retrieval_mode = HYBRID | LEXICAL_RETRIEVAL

datatype search_scope = LITE | FULL

record auth_session =
  session_user_id :: string

record request_context =
  ctx_auth_session :: auth_session
  ctx_request_id :: string

record validation_result =
  vr_ok :: bool
  vr_reason :: "string option"
  vr_field :: "string option"

record degradation_signal =
  llm_enabled :: bool
  rerank_enabled :: bool

record year_range =
  yr_start :: "int option"
  yr_end :: "int option"

definition year_bounded :: "year_range \<Rightarrow> bool" where
  "year_bounded y \<longleftrightarrow> yr_start y \<noteq> None \<or> yr_end y \<noteq> None"

record query_plan =
  lexical_terms :: "string list"
  plan_mode :: retrieval_mode
  embedding_vector :: "rat list option"
  plan_scope :: search_scope
  plan_years :: "year_range option"

text \<open>
  \<open>ranking_score\<close> is seeded from \<open>retrieval_score\<close> when a candidate is built without one
  (\<open>__post_init__\<close>), so it is always a number afterwards.
\<close>

record candidate =
  cand_record :: index_record
  retrieval_score :: rat
  ranking_score :: rat

definition mk_candidate :: "index_record \<Rightarrow> rat \<Rightarrow> rat option \<Rightarrow> candidate" where
  "mk_candidate r score ranking =
     \<lparr>cand_record = r, retrieval_score = score,
      ranking_score = (case ranking of None \<Rightarrow> score | Some s \<Rightarrow> s)\<rparr>"

definition with_ranking_score :: "rat \<Rightarrow> candidate \<Rightarrow> candidate" where
  "with_ranking_score s c = c\<lparr>ranking_score := s\<rparr>"

abbreviation cand_pid :: "candidate \<Rightarrow> string" where
  "cand_pid c \<equiv> paperId (cand_record c)"

record candidate_set =
  cs_candidates :: "candidate list"
  cs_retrieval_mode :: retrieval_mode
  best_knn_score :: "rat option"

record ranked_results =
  ranked :: "candidate list"
  ranking_mode :: string
  personalized :: bool

datatype search_result =
    GroundedResults "candidate list"
  | AbstainResult string
  | NoMatchResult

record grounding_input =
  candidate_response :: ranked_results
  retrieved_records :: "index_record list"

section \<open>The response contract\<close>

record search_request =
  sr_query :: string
  sr_scope :: "search_scope option"

record result_card =
  rc_title :: string
  rc_authors :: "string list"
  rc_year :: int
  rc_arxivId :: string
  rc_abstractSnippet :: string
  rc_relevance :: nat
  rc_arxivUrl :: string
  rc_sourceName :: string
  rc_sourceUrl :: string

record result_meta =
  resultCount :: nat
  rm_degraded :: bool
  degradationMode :: "degrade_mode option"
  rm_personalized :: "bool option"

datatype search_response =
    SearchResultPage "result_card list" result_meta
  | Abstain string
  | DegradedResult "result_card list" result_meta degrade_mode
  | ValidationError "string option" string

fun response_cards :: "search_response \<Rightarrow> result_card list" where
  "response_cards (SearchResultPage cards _) = cards"
| "response_cards (Abstain _) = []"
| "response_cards (DegradedResult cards _ _) = cards"
| "response_cards (ValidationError _ _) = []"

lemma mk_candidate_simps [simp]:
  "cand_record (mk_candidate r s q) = r"
  "retrieval_score (mk_candidate r s q) = s"
  "ranking_score (mk_candidate r s None) = s"
  "ranking_score (mk_candidate r s (Some t)) = t"
  by (simp_all add: mk_candidate_def)

lemma with_ranking_score_simps [simp]:
  "cand_record (with_ranking_score s c) = cand_record c"
  "retrieval_score (with_ranking_score s c) = retrieval_score c"
  "ranking_score (with_ranking_score s c) = s"
  by (simp_all add: with_ranking_score_def)

text \<open>A sample record and candidate for the witnesses.\<close>

definition sample_record :: "string \<Rightarrow> index_record" where
  "sample_record pid =
     \<lparr>chunkId = pid @ ''#0'', paperId = pid, ir_version = 1, ir_vector = [], ir_section = ''abstract'',
      lexicalTerms = [], blockRefs = None, ir_title = ''T '' @ pid, ir_authors = [''A''], ir_year = 2024,
      ir_arxivId = pid, ir_abstract = ''abs'', ir_abstractSnippet = ''ab'',
      ir_arxivUrl = ''https://arxiv.org/abs/'' @ pid, categories = [''cs.LG''], ir_doi = None,
      sourceArxivId = None, sourceProvenance = None\<rparr>"

lemma sample_record_simps [simp]:
  "paperId (sample_record p) = p" "ir_arxivId (sample_record p) = p"
  "ir_arxivUrl (sample_record p) = ''https://arxiv.org/abs/'' @ p"
  "categories (sample_record p) = [''cs.LG'']" "sourceProvenance (sample_record p) = None"
  "ir_title (sample_record p) = ''T '' @ p" "ir_abstract (sample_record p) = ''abs''"
  by (simp_all add: sample_record_def)

end
