(* ===== verification/Search_Query.thy ===== *)
theory Search_Query imports Search_Models begin

text \<open>
  The query layer of discovery: \<open>QueryValidator\<close> (\<open>domain/validator.py\<close>),
  \<open>QueryUnderstandingExpander\<close> (\<open>domain/expander.py\<close>) and the source projection
  (\<open>domain/source_ref.py\<close>). Unicode NFC is the parameter \<open>nfc\<close>; what the idempotence of
  \<open>normalize\<close> needs of it is stated there.
\<close>

section \<open>Validation\<close>

definition MAX_QUERY_LEN :: nat where "MAX_QUERY_LEN = 500"

definition control_char :: "char \<Rightarrow> bool" where
  "control_char c = (let n = (of_char c :: nat) in
     n \<le> 8 \<or> (14 \<le> n \<and> n \<le> 31) \<or> (127 \<le> n \<and> n \<le> 132) \<or> (134 \<le> n \<and> n \<le> 159))"

definition normalize_query :: "(string \<Rightarrow> string) \<Rightarrow> string \<Rightarrow> string" where
  "normalize_query nfc raw = py_strip (collapse_ws (nfc raw))"

definition validate_query :: "(string \<Rightarrow> string) \<Rightarrow> string \<Rightarrow> validation_result" where
  "validate_query nfc raw =
     (if \<exists>c \<in> set raw. control_char c
      then \<lparr>vr_ok = False, vr_reason = Some ''control_chars'', vr_field = Some ''query''\<rparr>
      else let normalized = normalize_query nfc raw in
        if normalized = []
        then \<lparr>vr_ok = False, vr_reason = Some ''empty'', vr_field = Some ''query''\<rparr>
        else if length normalized > MAX_QUERY_LEN
        then \<lparr>vr_ok = False, vr_reason = Some ''too_long'', vr_field = Some ''query''\<rparr>
        else \<lparr>vr_ok = True, vr_reason = None, vr_field = None\<rparr>)"

lemma normalize_ws_normal: "ws_normal (normalize_query nfc raw)"
  by (simp add: normalize_query_def ws_normal_strip_collapse)

text \<open>
  Normalization is idempotent, for any NFC that leaves an already normalized query alone, and
  its result is clean: no white space at either end, no two adjacent, every one a plain space.
\<close>

theorem normalize_query_idempotent:
  assumes "nfc (normalize_query nfc raw) = normalize_query nfc raw"
  shows "normalize_query nfc (normalize_query nfc raw) = normalize_query nfc raw \<and>
         ws_normal (normalize_query nfc raw)"
  using assms normalize_ws_normal [of nfc raw] ws_normal_fixed
  by (simp add: normalize_query_def)

theorem normalize_query_idempotent_witness:
  "normalize_query id (normalize_query id '' a  b '') = ''a b''"
proof -
  have n: "normalize_query id '' a  b '' = ''a b''"
    by (simp add: normalize_query_def py_isspace_def py_strip_def rstrip_by_def lstrip_by_def)
  show ?thesis using normalize_query_idempotent [of id "'' a  b ''"] n by simp
qed

text \<open>
  The validator accepts exactly the queries without control characters whose normal form is
  non-empty and at most 500 characters long; a refusal always names the field and a reason.
\<close>

theorem validate_query_correct:
  "(vr_ok (validate_query nfc raw) \<longleftrightarrow>
      (\<nexists>c. c \<in> set raw \<and> control_char c) \<and>
      0 < length (normalize_query nfc raw) \<and> length (normalize_query nfc raw) \<le> 500) \<and>
   (vr_reason (validate_query nfc raw) = None \<longleftrightarrow> vr_ok (validate_query nfc raw)) \<and>
   (vr_field (validate_query nfc raw) =
      (if vr_ok (validate_query nfc raw) then None else Some ''query''))"
  by (auto simp: validate_query_def MAX_QUERY_LEN_def Let_def)

section \<open>Expansion\<close>

datatype search_exn =
    EmbeddingUnavailable
  | IndexUnavailable
  | SearchUnavailable
  | InvalidQuery string
  | RerankUnavailable
  | RerankThrottled
  | ValueError string
  | OtherError string

definition tokenize_query :: "string \<Rightarrow> string list" where
  "tokenize_query text = filter (\<lambda>t. t \<noteq> []) (py_split (py_lower text))"

definition expand_query ::
  "(string \<Rightarrow> search_exn + rat list) \<Rightarrow> string \<Rightarrow> degradation_signal \<Rightarrow> search_scope
     \<Rightarrow> search_exn + query_plan" where
  "expand_query emb text degradation scope =
     (let terms = tokenize_query text in
      if \<not> llm_enabled degradation
      then Inr \<lparr>lexical_terms = terms, plan_mode = LEXICAL_RETRIEVAL, embedding_vector = None,
                plan_scope = scope, plan_years = None\<rparr>
      else case emb text of
             Inl e \<Rightarrow> Inl e
           | Inr vec \<Rightarrow> Inr \<lparr>lexical_terms = terms, plan_mode = HYBRID, embedding_vector = Some vec,
                              plan_scope = scope, plan_years = None\<rparr>)"

lemma expand_query_lexical:
  "\<not> llm_enabled d \<Longrightarrow> \<exists>plan. expand_query emb text d scope = Inr plan \<and>
     plan_mode plan = LEXICAL_RETRIEVAL \<and> embedding_vector plan = None \<and> plan_scope plan = scope"
  by (simp add: expand_query_def Let_def)

lemma expand_query_mode:
  "expand_query emb text d scope = Inr plan \<Longrightarrow>
   (plan_mode plan = HYBRID \<longleftrightarrow> embedding_vector plan \<noteq> None) \<and> plan_scope plan = scope \<and>
   (plan_mode plan = HYBRID \<longleftrightarrow> llm_enabled d)"
  by (auto simp: expand_query_def Let_def split: if_splits sum.splits)

section \<open>Source projection\<close>

definition source_ref :: "index_record \<Rightarrow> string \<times> string" where
  "source_ref r =
     (case sourceProvenance r of
        None \<Rightarrow> (''arXiv'', ir_arxivUrl r)
      | Some prov \<Rightarrow>
          if sp_sourceName prov = [] then (''arXiv'', ir_arxivUrl r)
          else if py_lower (sp_sourceName prov) = ''arxiv'' then (sp_sourceName prov, ir_arxivUrl r)
          else (sp_sourceName prov,
                if sp_sourceUrl prov \<noteq> [] then sp_sourceUrl prov
                else if sp_doi prov \<noteq> [] then ''https://doi.org/'' @ sp_doi prov
                else ir_arxivUrl r))"

definition is_resolvable :: "string \<Rightarrow> bool" where
  "is_resolvable url \<longleftrightarrow>
     starts_with ''http://'' (py_lower url) \<or> starts_with ''https://'' (py_lower url)"

definition safe_url :: "string \<Rightarrow> string" where
  "safe_url url = (if is_resolvable url then url else [])"

definition record_has_link :: "index_record \<Rightarrow> bool" where
  "record_has_link r = is_resolvable (snd (source_ref r))"

lemma safe_url_resolvable: "safe_url u = [] \<or> is_resolvable (safe_url u)"
  by (simp add: safe_url_def)

lemma safe_url_source: "record_has_link r \<Longrightarrow> safe_url (snd (source_ref r)) = snd (source_ref r)"
  by (simp add: record_has_link_def safe_url_def)

end
