(* ===== verification/Circuit_Breaker.thy ===== *)
theory Circuit_Breaker imports DS_Prelude begin

text \<open>
  The shared circuit breaker, \<open>shared/python/src/docsuri_shared/resilience.py\<close>: the state of
  \<open>CircuitBreaker\<close>, the permits \<open>acquire\<close> hands out and the one-shot completion of a
  permit. The clock is injected in the code; here every operation takes the instant \<open>now\<close> it
  reads. Each operation of the code runs under the breaker's lock, so an execution is a sequence
  of the steps of \<open>breaker_step\<close>, interleaved in any order over any number of callers.

  Shown: the breaker invariant and its preservation, the HALF-OPEN state admits one live probe,
  an OPEN circuit rejects until the recovery window has passed, only the current probe's success
  closes the circuit, and a run of failures opens it exactly at the threshold. The interface
  \<open>admission_gate\<close> is what the guarded clients rely on.
\<close>

section \<open>State\<close>

datatype circuit_state = CLOSED | OPEN | HALF_OPEN

datatype outcome = Success | Failure | Neutral

record circuit_permit =
  is_probe :: bool
  permit_token :: nat
  permit_done :: bool

record circuit_breaker =
  cb_name :: string
  failure_threshold :: int
  recovery_seconds :: rat
  cb_state :: circuit_state
  failure_count :: int
  last_state_change :: rat
  probe_in_flight :: bool
  probe_started :: rat
  probe_token :: nat

definition DEFAULT_FAILURE_THRESHOLD :: int where "DEFAULT_FAILURE_THRESHOLD = 5"

definition DEFAULT_RECOVERY_SECONDS :: rat where "DEFAULT_RECOVERY_SECONDS = 30"

definition init_breaker :: "string \<Rightarrow> int \<Rightarrow> rat \<Rightarrow> rat \<Rightarrow> circuit_breaker" where
  "init_breaker name threshold recovery now =
     \<lparr>cb_name = name, failure_threshold = threshold, recovery_seconds = recovery,
      cb_state = CLOSED, failure_count = 0, last_state_change = now,
      probe_in_flight = False, probe_started = 0, probe_token = 0\<rparr>"

section \<open>Operations\<close>

definition check_recovery :: "rat \<Rightarrow> circuit_breaker \<Rightarrow> circuit_breaker" where
  "check_recovery now b =
     (if cb_state b = OPEN \<and> now - last_state_change b > recovery_seconds b
      then b\<lparr>cb_state := HALF_OPEN, probe_in_flight := False, last_state_change := now\<rparr>
      else b)"

definition acquire :: "rat \<Rightarrow> circuit_breaker \<Rightarrow> circuit_permit option \<times> circuit_breaker" where
  "acquire now b0 =
     (let b = check_recovery now b0 in
      if cb_state b = OPEN then (None, b)
      else if cb_state b = HALF_OPEN then
        (if probe_in_flight b \<and> now - probe_started b < recovery_seconds b then (None, b)
         else let b' = b\<lparr>probe_in_flight := True, probe_started := now,
                          probe_token := probe_token b + 1\<rparr>
              in (Some \<lparr>is_probe = True, permit_token = probe_token b', permit_done = False\<rparr>, b'))
      else (Some \<lparr>is_probe = False, permit_token = 0, permit_done = False\<rparr>, b))"

definition complete_permit ::
  "bool \<Rightarrow> outcome \<Rightarrow> nat \<Rightarrow> rat \<Rightarrow> circuit_breaker \<Rightarrow> circuit_breaker" where
  "complete_permit probe out token now b =
     (if probe then
        (if token \<noteq> probe_token b then b
         else let b = b\<lparr>probe_in_flight := False\<rparr> in
              if out = Neutral then b
              else if out = Success
                then b\<lparr>cb_state := CLOSED, failure_count := 0, last_state_change := now\<rparr>
                else b\<lparr>cb_state := OPEN, last_state_change := now\<rparr>)
      else if out = Neutral then b
      else if out = Success then
        (if cb_state b = CLOSED then b\<lparr>failure_count := 0\<rparr> else b)
      else let b = b\<lparr>failure_count := failure_count b + 1\<rparr> in
           if cb_state b = CLOSED \<and> failure_count b \<ge> failure_threshold b
           then b\<lparr>cb_state := OPEN, last_state_change := now\<rparr> else b)"

text \<open>\<open>CircuitPermit._resolve\<close>: a permit completes once, later outcomes are no-ops.\<close>

definition resolve_permit ::
  "outcome \<Rightarrow> rat \<Rightarrow> circuit_permit \<Rightarrow> circuit_breaker \<Rightarrow> circuit_permit \<times> circuit_breaker" where
  "resolve_permit out now p b =
     (if permit_done p then (p, b)
      else (p\<lparr>permit_done := True\<rparr>, complete_permit (is_probe p) out (permit_token p) now b))"

text \<open>
  Leaving the \<open>guard\<close> block: the \<open>finally\<close> clause reports a failure, a no-op on a permit the
  block has already completed.
\<close>

definition guard_exit :: "rat \<Rightarrow> circuit_permit option \<Rightarrow> circuit_breaker \<Rightarrow> circuit_breaker" where
  "guard_exit now p b =
     (case p of None \<Rightarrow> b | Some p' \<Rightarrow> snd (resolve_permit Failure now p' b))"

text \<open>
  A guarded call: acquire at \<open>t0\<close>; the block declares at most one outcome at \<open>t1\<close>; the
  block is left at \<open>t2\<close>.
\<close>

definition guard_call ::
  "rat \<Rightarrow> rat \<Rightarrow> rat \<Rightarrow> outcome option \<Rightarrow> circuit_breaker \<Rightarrow> bool \<times> circuit_breaker" where
  "guard_call t0 t1 t2 declared b =
     (case acquire t0 b of
        (None, b') \<Rightarrow> (False, guard_exit t2 None b')
      | (Some p, b') \<Rightarrow>
          (case declared of
             None \<Rightarrow> (True, guard_exit t2 (Some p) b')
           | Some out \<Rightarrow> (case resolve_permit out t1 p b' of
                            (p', b'') \<Rightarrow> (True, guard_exit t2 (Some p') b''))))"

section \<open>The invariant\<close>

text \<open>
  A closed circuit has counted fewer failures than its threshold, and a probe slot is only held
  while the circuit is HALF-OPEN.
\<close>

definition breaker_ok :: "circuit_breaker \<Rightarrow> bool" where
  "breaker_ok b \<longleftrightarrow>
     (cb_state b = CLOSED \<longrightarrow> 0 \<le> failure_count b \<and> failure_count b < failure_threshold b) \<and>
     (probe_in_flight b \<longrightarrow> cb_state b = HALF_OPEN)"

lemma breaker_ok_init: "0 < n \<Longrightarrow> breaker_ok (init_breaker name n r now)"
  by (simp add: breaker_ok_def init_breaker_def)

lemma breaker_ok_check_recovery: "breaker_ok b \<Longrightarrow> breaker_ok (check_recovery now b)"
  by (auto simp: breaker_ok_def check_recovery_def)

lemma breaker_ok_acquire: "breaker_ok b \<Longrightarrow> breaker_ok (snd (acquire now b))"
  using breaker_ok_check_recovery [of b now]
  by (auto simp: acquire_def Let_def breaker_ok_def)

text \<open>
  A probe's permit that is still current implies the circuit is HALF-OPEN with the slot held; the
  completion of any permit then keeps the invariant.
\<close>

lemma breaker_ok_complete:
  assumes "breaker_ok b" and "0 < failure_threshold b"
  shows "breaker_ok (complete_permit probe out token now b)"
  using assms by (auto simp: breaker_ok_def complete_permit_def Let_def)

lemma threshold_check_recovery [simp]:
  "failure_threshold (check_recovery now b) = failure_threshold b"
  "recovery_seconds (check_recovery now b) = recovery_seconds b"
  "probe_token (check_recovery now b) = probe_token b"
  "failure_count (check_recovery now b) = failure_count b"
  by (simp_all add: check_recovery_def)

lemma threshold_acquire [simp]:
  "failure_threshold (snd (acquire now b)) = failure_threshold b"
  "recovery_seconds (snd (acquire now b)) = recovery_seconds b"
  by (simp_all add: acquire_def Let_def)

lemma threshold_complete [simp]:
  "failure_threshold (complete_permit probe out token now b) = failure_threshold b"
  "recovery_seconds (complete_permit probe out token now b) = recovery_seconds b"
  "probe_token (complete_permit probe out token now b) = probe_token b"
  by (simp_all add: complete_permit_def Let_def)


section \<open>The admission interface\<close>

text \<open>
  What a guarded client (the embedder of discovery, the dependency calls of ingestion) uses of the
  breaker: entering may be refused, leaving reports an outcome, a permit reports once, and both
  keep an invariant. The client facts are proved once from these laws: the outcome declared inside
  the block decides, since leaving the block afterwards changes nothing, and a whole guarded call
  keeps the invariant on every path.
\<close>

locale admission_gate =
  fixes enter :: "rat \<Rightarrow> 'b \<Rightarrow> 'p option \<times> 'b"
    and report :: "outcome \<Rightarrow> rat \<Rightarrow> 'p \<Rightarrow> 'b \<Rightarrow> 'p \<times> 'b"
    and gate_inv :: "'b \<Rightarrow> bool"
  assumes enter_inv: "gate_inv b \<Longrightarrow> gate_inv (snd (enter now b))"
    and report_inv: "gate_inv b \<Longrightarrow> gate_inv (snd (report out now p b))"
    and report_once: "report out' now' (fst (report out now p b)) b' = (fst (report out now p b), b')"
begin

lemma declared_outcome_decides:
  "snd (report Failure t2 (fst (report out t1 p b)) (snd (report out t1 p b))) =
   snd (report out t1 p b)"
  by (simp add: report_once)

lemma bracket_inv:
  assumes "gate_inv b"
  shows "gate_inv (snd (report Failure t2 (fst (report out t1 p (snd (enter t0 b))))
                                          (snd (report out t1 p (snd (enter t0 b))))))"
  using assms by (simp add: report_once enter_inv report_inv)

lemma undeclared_inv:
  "gate_inv b \<Longrightarrow> gate_inv (snd (report Failure t2 p (snd (enter t0 b))))"
  by (simp add: enter_inv report_inv)

end

definition gate_ok :: "circuit_breaker \<Rightarrow> bool" where
  "gate_ok b \<longleftrightarrow> breaker_ok b \<and> 0 < failure_threshold b"

interpretation cb: admission_gate acquire resolve_permit gate_ok
proof (standard, goal_cases)
  case (1 b now)
  then show ?case by (simp add: gate_ok_def breaker_ok_acquire)
next
  case (2 b out now p)
  then show ?case by (simp add: gate_ok_def resolve_permit_def breaker_ok_complete)
next
  case (3 out' now' out now p b b')
  then show ?case by (simp add: resolve_permit_def)
qed

lemma guard_call_outcome:
  assumes "acquire t0 b = (Some p, b')"
  shows "guard_call t0 t1 t2 (Some out) b = (True, snd (resolve_permit out t1 p b'))"
  using assms cb.declared_outcome_decides [of t2 out t1 p b']
  by (auto simp: guard_call_def guard_exit_def split: prod.split)

lemma gate_ok_guard_call: "gate_ok b \<Longrightarrow> gate_ok (snd (guard_call t0 t1 t2 declared b))"
proof (cases "acquire t0 b")
  case (Pair q b')
  assume ok: "gate_ok b"
  then have ok': "gate_ok b'" using cb.enter_inv [of b t0] Pair by simp
  show ?thesis
  proof (cases q)
    case None
    with Pair ok' show ?thesis by (simp add: guard_call_def guard_exit_def)
  next
    case (Some p)
    with Pair have acq: "acquire t0 b = (Some p, b')" by simp
    show ?thesis
    proof (cases declared)
      case None
      with acq ok' show ?thesis
        by (simp add: guard_call_def guard_exit_def cb.report_inv)
    next
      case (Some out)
      with acq ok' show ?thesis
        using guard_call_outcome [OF acq, of t1 t2 out] by (simp add: cb.report_inv)
    qed
  qed
qed

section \<open>Many callers: the step relation\<close>

record breaker_sys =
  brk :: circuit_breaker
  permits :: "circuit_permit list"
  brk_clock :: rat

inductive breaker_step :: "breaker_sys \<Rightarrow> breaker_sys \<Rightarrow> bool" where
  tick: "brk_clock s \<le> t \<Longrightarrow> breaker_step s (s\<lparr>brk_clock := t\<rparr>)"
| granted: "acquire (brk_clock s) (brk s) = (Some p, b) \<Longrightarrow>
     breaker_step s (s\<lparr>brk := b, permits := permits s @ [p]\<rparr>)"
| refused: "acquire (brk_clock s) (brk s) = (None, b) \<Longrightarrow> breaker_step s (s\<lparr>brk := b\<rparr>)"
| resolved: "i < length (permits s) \<Longrightarrow>
     resolve_permit out (brk_clock s) (permits s ! i) (brk s) = (p, b) \<Longrightarrow>
     breaker_step s (s\<lparr>brk := b, permits := (permits s)[i := p]\<rparr>)"

inductive breaker_reachable :: "breaker_sys \<Rightarrow> bool" where
  start: "0 < n \<Longrightarrow> breaker_reachable
     \<lparr>brk = init_breaker name n r t, permits = [], brk_clock = t\<rparr>"
| step: "breaker_reachable s \<Longrightarrow> breaker_step s s' \<Longrightarrow> breaker_reachable s'"

text \<open>A live probe: not completed, and its token is the breaker's current one.\<close>

definition live_probe :: "circuit_breaker \<Rightarrow> circuit_permit \<Rightarrow> bool" where
  "live_probe b p \<longleftrightarrow> is_probe p \<and> \<not> permit_done p \<and> permit_token p = probe_token b"

definition sys_ok :: "breaker_sys \<Rightarrow> bool" where
  "sys_ok s \<longleftrightarrow> gate_ok (brk s) \<and>
     (\<forall>i < length (permits s). is_probe (permits s ! i) \<longrightarrow>
        permit_token (permits s ! i) \<le> probe_token (brk s)) \<and>
     (\<forall>i j. i < length (permits s) \<longrightarrow> j < length (permits s) \<longrightarrow>
        is_probe (permits s ! i) \<longrightarrow> is_probe (permits s ! j) \<longrightarrow>
        permit_token (permits s ! i) = permit_token (permits s ! j) \<longrightarrow> i = j) \<and>
     (probe_in_flight (brk s) \<longleftrightarrow>
        (\<exists>i < length (permits s). live_probe (brk s) (permits s ! i)))"


lemma acquire_Some_cases:
  assumes "acquire now b = (Some p, b')"
  obtains (probe) "p = \<lparr>is_probe = True, permit_token = probe_token b + 1, permit_done = False\<rparr>"
      and "cb_state (check_recovery now b) = HALF_OPEN"
      and "b' = (check_recovery now b)\<lparr>probe_in_flight := True, probe_started := now,
                                         probe_token := probe_token b + 1\<rparr>"
  | (plain) "p = \<lparr>is_probe = False, permit_token = 0, permit_done = False\<rparr>"
      and "cb_state b = CLOSED" and "b' = b"
proof (cases "cb_state (check_recovery now b)")
  case CLOSED
  then have "check_recovery now b = b" by (auto simp: check_recovery_def split: if_splits)
  with CLOSED assms show ?thesis by (intro plain) (auto simp: acquire_def)
next
  case OPEN
  with assms show ?thesis by (simp add: acquire_def)
next
  case HALF_OPEN
  with assms show ?thesis by (intro probe) (auto simp: acquire_def Let_def split: if_splits)
qed

lemma acquire_None_state: "acquire now b = (None, b') \<Longrightarrow> b' = check_recovery now b"
  by (auto simp: acquire_def Let_def split: if_splits)

lemma check_recovery_flight:
  "breaker_ok b \<Longrightarrow> probe_in_flight (check_recovery now b) = probe_in_flight b"
  by (auto simp: breaker_ok_def check_recovery_def)

lemma live_probe_check_recovery [simp]: "live_probe (check_recovery now b) = live_probe b"
  by (simp add: live_probe_def fun_eq_iff)

lemma sys_ok_granted_probe:
  assumes ok: "sys_ok s" and acq: "acquire (brk_clock s) (brk s) = (Some p, b)"
    and probe: "is_probe p"
  shows "sys_ok (s\<lparr>brk := b, permits := permits s @ [p]\<rparr>)"
proof -
  have g: "gate_ok b" using ok cb.enter_inv [of "brk s" "brk_clock s"] acq by (simp add: sys_ok_def)
  have tok: "permit_token p = Suc (probe_token (brk s))" "\<not> permit_done p"
    "probe_token b = Suc (probe_token (brk s))" "probe_in_flight b"
    using acq probe by (auto elim!: acquire_Some_cases)
  have old: "\<And>i. i < length (permits s) \<Longrightarrow> is_probe (permits s ! i) \<Longrightarrow>
               permit_token (permits s ! i) \<le> probe_token (brk s)"
    using ok by (simp add: sys_ok_def)
  have uniq: "\<And>i j. i < length (permits s) \<Longrightarrow> j < length (permits s) \<Longrightarrow>
        is_probe (permits s ! i) \<Longrightarrow> is_probe (permits s ! j) \<Longrightarrow>
        permit_token (permits s ! i) = permit_token (permits s ! j) \<Longrightarrow> i = j"
    using ok by (simp add: sys_ok_def)
  have live: "\<exists>i < Suc (length (permits s)). live_probe b ((permits s @ [p]) ! i)"
    using tok probe by (intro exI [of _ "length (permits s)"]) (simp add: live_probe_def)
  have le: "\<forall>i < Suc (length (permits s)). is_probe ((permits s @ [p]) ! i) \<longrightarrow>
        permit_token ((permits s @ [p]) ! i) \<le> probe_token b"
    using old tok by (auto simp: nth_append less_Suc_eq le_SucI)
  have un: "\<forall>i j. i < Suc (length (permits s)) \<longrightarrow> j < Suc (length (permits s)) \<longrightarrow>
        is_probe ((permits s @ [p]) ! i) \<longrightarrow> is_probe ((permits s @ [p]) ! j) \<longrightarrow>
        permit_token ((permits s @ [p]) ! i) = permit_token ((permits s @ [p]) ! j) \<longrightarrow> i = j"
    using uniq old tok by (auto simp: nth_append less_Suc_eq dest!: old)
  from g le un live tok(4) show ?thesis by (simp add: sys_ok_def)
qed

lemma sys_ok_granted_plain:
  assumes ok: "sys_ok s" and acq: "acquire (brk_clock s) (brk s) = (Some p, b)"
    and plain: "\<not> is_probe p"
  shows "sys_ok (s\<lparr>brk := b, permits := permits s @ [p]\<rparr>)"
proof -
  have b: "b = brk s" using acq plain by (auto elim!: acquire_Some_cases)
  have "(\<exists>i < Suc (length (permits s)). live_probe (brk s) ((permits s @ [p]) ! i)) \<longleftrightarrow>
        (\<exists>i < length (permits s). live_probe (brk s) (permits s ! i))"
    using plain by (auto simp: less_Suc_eq nth_append live_probe_def)
  with ok b plain show ?thesis by (auto simp: sys_ok_def nth_append less_Suc_eq)
qed

lemma sys_ok_refused:
  assumes "sys_ok s" and "acquire (brk_clock s) (brk s) = (None, b)"
  shows "sys_ok (s\<lparr>brk := b\<rparr>)"
proof -
  from assms(2) have b: "b = check_recovery (brk_clock s) (brk s)" by (rule acquire_None_state)
  have "gate_ok b" using assms cb.enter_inv [of "brk s" "brk_clock s"] by (simp add: sys_ok_def)
  with assms(1) b show ?thesis
    by (auto simp: sys_ok_def gate_ok_def check_recovery_flight)
qed


lemma resolve_frame:
  assumes "resolve_permit out now q b = (p, b')"
  shows "is_probe p = is_probe q" "permit_token p = permit_token q" "probe_token b' = probe_token b"
  using assms by (auto simp: resolve_permit_def split: if_splits)

lemma complete_not_current:
  assumes "\<not> live_probe b q" and "\<not> permit_done q"
  shows "probe_in_flight (complete_permit (is_probe q) out (permit_token q) now b) = probe_in_flight b"
  using assms by (auto simp: live_probe_def complete_permit_def Let_def)

lemma complete_current:
  assumes "live_probe b q"
  shows "\<not> probe_in_flight (complete_permit (is_probe q) out (permit_token q) now b)"
  using assms by (auto simp: live_probe_def complete_permit_def Let_def)

lemma live_after_update:
  assumes "i < length ps" and "permit_done p" and "\<not> live_probe b (ps ! i)"
  shows "(\<exists>j < length ps. live_probe b (ps[i := p] ! j)) \<longleftrightarrow> (\<exists>j < length ps. live_probe b (ps ! j))"
  using assms by (metis live_probe_def nth_list_update_eq nth_list_update_neq)

lemma sys_ok_resolved:
  assumes ok: "sys_ok s" and i: "i < length (permits s)"
    and res: "resolve_permit out (brk_clock s) (permits s ! i) (brk s) = (p, b)"
  shows "sys_ok (s\<lparr>brk := b, permits := (permits s)[i := p]\<rparr>)"
proof (cases "permit_done (permits s ! i)")
  case True
  with res have "p = permits s ! i" "b = brk s" by (simp_all add: resolve_permit_def)
  with ok show ?thesis by (simp add: sys_ok_def)
next
  case False
  let ?q = "permits s ! i"
  have g: "gate_ok b"
    using ok cb.report_inv [of "brk s" out "brk_clock s" ?q] res by (simp add: sys_ok_def)
  have fr: "is_probe p = is_probe ?q" "permit_token p = permit_token ?q"
    "probe_token b = probe_token (brk s)" using resolve_frame [OF res] by simp_all
  have pdone: "permit_done p" and b: "b = complete_permit (is_probe ?q) out (permit_token ?q) (brk_clock s) (brk s)"
    using res False by (auto simp: resolve_permit_def)
  have lp: "live_probe b = live_probe (brk s)" using fr(3) by (simp add: live_probe_def fun_eq_iff)
  have same: "\<And>j. j < length (permits s) \<Longrightarrow> is_probe ((permits s)[i := p] ! j) = is_probe (permits s ! j) \<and>
      permit_token ((permits s)[i := p] ! j) = permit_token (permits s ! j)"
    using fr i by (metis nth_list_update_eq nth_list_update_neq)
  have flight: "probe_in_flight b \<longleftrightarrow>
      (\<exists>j < length (permits s). live_probe b ((permits s)[i := p] ! j))"
  proof (cases "live_probe (brk s) ?q")
    case True
    have "\<not> live_probe b ((permits s)[i := p] ! j)" if j: "j < length (permits s)" for j
    proof (cases "j = i")
      case True
      with pdone i show ?thesis by (simp add: live_probe_def)
    next
      case False
      with ok i j True fr(3) show ?thesis by (auto simp: sys_ok_def live_probe_def)
    qed
    with complete_current [OF True, of out "brk_clock s"] b show ?thesis by auto
  next
    case notlive: False
    have "probe_in_flight b = probe_in_flight (brk s)"
      unfolding b by (rule complete_not_current [OF notlive False])
    with ok lp live_after_update [where b = "brk s", OF i pdone notlive] show ?thesis
      by (simp add: sys_ok_def)
  qed
  from ok g same fr(3) flight show ?thesis by (simp add: sys_ok_def)
qed

lemma sys_ok_step: "breaker_step s s' \<Longrightarrow> sys_ok s \<Longrightarrow> sys_ok s'"
proof (induction rule: breaker_step.induct)
  case (tick s t)
  then show ?case by (simp add: sys_ok_def)
next
  case (granted s p b)
  then show ?case by (cases "is_probe p") (auto intro: sys_ok_granted_probe sys_ok_granted_plain)
next
  case (refused s b)
  then show ?case by (blast intro: sys_ok_refused)
next
  case (resolved i s out p b)
  then show ?case by (blast intro: sys_ok_resolved)
qed

lemma sys_ok_reachable: "breaker_reachable s \<Longrightarrow> sys_ok s"
proof (induction rule: breaker_reachable.induct)
  case (start n name r t)
  then show ?case
    by (simp add: sys_ok_def gate_ok_def breaker_ok_init) (simp add: init_breaker_def)
next
  case (step s s')
  then show ?case by (blast intro: sys_ok_step)
qed

section \<open>The properties\<close>

text \<open>
  C8. Single probe: in every reachable state of a breaker shared by any number of callers, the
  circuit is HALF-OPEN whenever a probe is live, at most one outstanding permit is a live probe,
  and while its slot has not expired every further \<open>acquire\<close> is refused.
\<close>

theorem single_live_probe:
  assumes "breaker_reachable s" and "i < length (permits s)" and "live_probe (brk s) (permits s ! i)"
  shows "cb_state (brk s) = HALF_OPEN \<and>
         (\<forall>j < length (permits s). live_probe (brk s) (permits s ! j) \<longrightarrow> j = i) \<and>
         (\<forall>now. now - probe_started (brk s) < recovery_seconds (brk s) \<longrightarrow>
            fst (acquire now (brk s)) = None)"
proof -
  have ok: "sys_ok s" by (rule sys_ok_reachable [OF assms(1)])
  have fl: "probe_in_flight (brk s)" using ok assms(2,3) by (auto simp: sys_ok_def)
  have half: "cb_state (brk s) = HALF_OPEN" using ok fl by (simp add: sys_ok_def gate_ok_def breaker_ok_def)
  have uniq: "\<forall>j < length (permits s). live_probe (brk s) (permits s ! j) \<longrightarrow> j = i"
    using ok assms(2,3) by (auto simp: sys_ok_def live_probe_def)
  have "check_recovery now (brk s) = brk s" for now using half by (simp add: check_recovery_def)
  with half fl uniq show ?thesis by (simp add: acquire_def)
qed

text \<open>
  Only the current probe's success closes the circuit: a step, from any state, that
  turns a circuit which is not CLOSED into a CLOSED one completes exactly the live probe (a stale
  success, or the late completion of an expired probe, never does).
\<close>

theorem only_live_probe_closes:
  assumes "breaker_step s s'" and "cb_state (brk s) \<noteq> CLOSED" and "cb_state (brk s') = CLOSED"
  shows "\<exists>i < length (permits s). live_probe (brk s) (permits s ! i) \<and>
           permit_done (permits s' ! i) \<and> brk s' = complete_permit True Success
             (permit_token (permits s ! i)) (brk_clock s) (brk s)"
  using assms
proof (cases rule: breaker_step.cases)
  case (resolved i out p b)
  let ?q = "permits s ! i"
  have nd: "\<not> permit_done ?q" using resolved assms(2,3) by (auto simp: resolve_permit_def)
  have b: "b = complete_permit (is_probe ?q) out (permit_token ?q) (brk_clock s) (brk s)"
    using resolved nd by (auto simp: resolve_permit_def)
  have "is_probe ?q \<and> permit_token ?q = probe_token (brk s) \<and> out = Success"
    using assms(2,3) resolved(1) b by (auto simp: complete_permit_def Let_def split: if_splits)
  with nd b resolved show ?thesis
    by (intro exI [of _ i]) (auto simp: live_probe_def resolve_permit_def)
qed (auto simp: acquire_def check_recovery_def Let_def split: if_splits)


text \<open>
  A concrete run for the witnesses: threshold 1 and recovery 30; a call fails, the circuit opens,
  31 seconds pass, the next caller becomes the probe.
\<close>

definition demo_failed :: circuit_breaker where
  "demo_failed = complete_permit False Failure 0 0 (init_breaker ''embed'' 1 30 0)"

definition demo_half_open :: breaker_sys where
  "demo_half_open =
     \<lparr>brk = snd (acquire 31 demo_failed),
      permits = [\<lparr>is_probe = False, permit_token = 0, permit_done = True\<rparr>,
                 \<lparr>is_probe = True, permit_token = 1, permit_done = False\<rparr>],
      brk_clock = 31\<rparr>"

lemma demo_half_open_reachable: "breaker_reachable demo_half_open"
proof -
  let ?b0 = "init_breaker ''embed'' 1 30 0"
  let ?q = "\<lparr>is_probe = False, permit_token = 0, permit_done = False\<rparr>"
  let ?q' = "\<lparr>is_probe = False, permit_token = 0, permit_done = True\<rparr>"
  let ?p = "\<lparr>is_probe = True, permit_token = 1, permit_done = False\<rparr>"
  have r0: "breaker_reachable \<lparr>brk = ?b0, permits = [], brk_clock = 0\<rparr>"
    by (rule breaker_reachable.start) simp
  have s1: "breaker_step \<lparr>brk = ?b0, permits = [], brk_clock = 0\<rparr>
              \<lparr>brk = ?b0, permits = [?q], brk_clock = 0\<rparr>"
    using breaker_step.granted [of "\<lparr>brk = ?b0, permits = [], brk_clock = 0\<rparr>" ?q ?b0]
    by (simp add: acquire_def check_recovery_def init_breaker_def)
  have s2: "breaker_step \<lparr>brk = ?b0, permits = [?q], brk_clock = 0\<rparr>
              \<lparr>brk = demo_failed, permits = [?q'], brk_clock = 0\<rparr>"
    using breaker_step.resolved [of 0 "\<lparr>brk = ?b0, permits = [?q], brk_clock = 0\<rparr>" Failure ?q' demo_failed]
    by (simp add: resolve_permit_def demo_failed_def)
  have s3: "breaker_step \<lparr>brk = demo_failed, permits = [?q'], brk_clock = 0\<rparr>
              \<lparr>brk = demo_failed, permits = [?q'], brk_clock = 31\<rparr>"
    using breaker_step.tick [of "\<lparr>brk = demo_failed, permits = [?q'], brk_clock = 0\<rparr>" 31] by simp
  have a4: "acquire 31 demo_failed = (Some ?p, snd (acquire 31 demo_failed))"
    by (simp add: acquire_def check_recovery_def demo_failed_def complete_permit_def init_breaker_def Let_def)
  have s4: "breaker_step \<lparr>brk = demo_failed, permits = [?q'], brk_clock = 31\<rparr> demo_half_open"
    using breaker_step.granted [of "\<lparr>brk = demo_failed, permits = [?q'], brk_clock = 31\<rparr>" ?p] a4
    by (simp add: demo_half_open_def)
  from r0 s1 s2 s3 s4 show ?thesis by (meson breaker_reachable.step)
qed

lemma demo_half_open_live: "live_probe (brk demo_half_open) (permits demo_half_open ! 1)"
  by (simp add: live_probe_def demo_half_open_def acquire_def check_recovery_def demo_failed_def
      complete_permit_def init_breaker_def Let_def)

theorem single_live_probe_witness:
  "breaker_reachable demo_half_open \<and> fst (acquire 40 (brk demo_half_open)) = None"
proof -
  have "1 < length (permits demo_half_open)" by (simp add: demo_half_open_def)
  moreover have "40 - probe_started (brk demo_half_open) < recovery_seconds (brk demo_half_open)"
    by (simp add: demo_half_open_def acquire_def check_recovery_def demo_failed_def
        complete_permit_def init_breaker_def Let_def)
  ultimately show ?thesis
    using single_live_probe [OF demo_half_open_reachable _ demo_half_open_live] demo_half_open_reachable
    by simp
qed

theorem only_live_probe_closes_witness:
  "\<exists>s'. breaker_step demo_half_open s' \<and> cb_state (brk s') = CLOSED \<and>
     (\<exists>i < length (permits demo_half_open). permit_done (permits s' ! i))"
proof -
  let ?q = "permits demo_half_open ! 1"
  let ?s' = "demo_half_open\<lparr>brk := snd (resolve_permit Success 31 ?q (brk demo_half_open)),
     permits := (permits demo_half_open)[1 := fst (resolve_permit Success 31 ?q (brk demo_half_open))]\<rparr>"
  have st: "breaker_step demo_half_open ?s'"
    by (rule breaker_step.resolved [where out = Success]) (simp_all add: demo_half_open_def)
  have half: "cb_state (brk demo_half_open) \<noteq> CLOSED"
    by (simp add: demo_half_open_def acquire_def check_recovery_def demo_failed_def
        complete_permit_def init_breaker_def Let_def)
  have closed: "cb_state (brk ?s') = CLOSED"
    by (simp add: resolve_permit_def demo_half_open_def acquire_def check_recovery_def demo_failed_def
        complete_permit_def init_breaker_def Let_def)
  from only_live_probe_closes [OF st half closed] st closed show ?thesis by blast
qed

subsection \<open>Tripping and recovering\<close>

text \<open>The consecutive failures after a list of outcomes: a neutral outcome neither counts nor resets.\<close>

fun streak :: "int \<Rightarrow> outcome list \<Rightarrow> int" where
  "streak c [] = c"
| "streak c (Success # os) = streak 0 os"
| "streak c (Failure # os) = streak (c + 1) os"
| "streak c (Neutral # os) = streak c os"

text \<open>The calls of a closed circuit completing one after the other.\<close>

definition plain_run :: "rat \<Rightarrow> outcome list \<Rightarrow> circuit_breaker \<Rightarrow> circuit_breaker" where
  "plain_run now os b = fold (\<lambda>out b. complete_permit False out 0 now b) os b"

lemma plain_run_open: "cb_state b = OPEN \<Longrightarrow> cb_state (plain_run now os b) = OPEN"
proof (induction os arbitrary: b)
  case (Cons out os)
  have "cb_state (complete_permit False out 0 now b) = OPEN"
    using Cons.prems by (cases out) (auto simp: complete_permit_def Let_def)
  with Cons.IH show ?case by (simp add: plain_run_def)
qed (simp add: plain_run_def)

lemma ex_take_Cons:
  "(\<exists>k \<le> length (x # xs). P (take k (x # xs))) \<longleftrightarrow> P [] \<or> (\<exists>k \<le> length xs. P (x # take k xs))"
  by (metis (no_types, lifting) Suc_le_mono length_Cons not0_implies_Suc take_Suc_Cons take0 zero_le take_0)

lemma closed_step:
  assumes "cb_state b = CLOSED" and "failure_count b < failure_threshold b"
    and "\<not> (out = Failure \<and> failure_count b + 1 \<ge> failure_threshold b)"
    and "0 < failure_threshold b"
  shows "cb_state (complete_permit False out 0 now b) = CLOSED"
    and "failure_count (complete_permit False out 0 now b) = streak (failure_count b) [out]"
    and "streak (failure_count b) [out] < failure_threshold b"
proof -
  show "cb_state (complete_permit False out 0 now b) = CLOSED"
    using assms by (cases out) (simp_all add: complete_permit_def Let_def)
  show "failure_count (complete_permit False out 0 now b) = streak (failure_count b) [out]"
    using assms by (cases out) (simp_all add: complete_permit_def Let_def)
  show "streak (failure_count b) [out] < failure_threshold b"
    using assms by (cases out) simp_all
qed

lemma plain_run_trips:
  assumes "cb_state b = CLOSED" and "failure_count b < failure_threshold b" and "0 < failure_threshold b"
  shows "cb_state (plain_run now os b) = OPEN \<longleftrightarrow>
         (\<exists>k \<le> length os. failure_threshold b \<le> streak (failure_count b) (take k os))"
  using assms
proof (induction os arbitrary: b)
  case Nil
  then show ?case by (simp add: plain_run_def)
next
  case (Cons out os)
  let ?b = "complete_permit False out 0 now b"
  have run: "plain_run now (out # os) b = plain_run now os ?b" by (simp add: plain_run_def)
  show ?case
  proof (cases "out = Failure \<and> failure_count b + 1 \<ge> failure_threshold b")
    case True
    with Cons.prems have "cb_state ?b = OPEN" by (simp add: complete_permit_def Let_def)
    then have "cb_state (plain_run now (out # os) b) = OPEN" by (simp add: run plain_run_open)
    moreover have "failure_threshold b \<le> streak (failure_count b) (take 1 (out # os))"
      using True by simp
    ultimately show ?thesis by (metis One_nat_def Suc_le_mono length_Cons zero_le)
  next
    case False
    define c where "c = streak (failure_count b) [out]"
    have st: "cb_state ?b = CLOSED" "failure_count ?b = c" "c < failure_threshold b"
      using closed_step [OF Cons.prems(1,2) False Cons.prems(3)] by (simp_all add: c_def)
    have un: "streak (failure_count b) (out # l) = streak c l" for l
      unfolding c_def by (cases out) simp_all
    have "(\<exists>k \<le> length (out # os). failure_threshold b \<le> streak (failure_count b) (take k (out # os)))
        \<longleftrightarrow> (\<exists>k \<le> length os. failure_threshold b \<le> streak c (take k os))"
      unfolding ex_take_Cons [where P = "\<lambda>l. failure_threshold b \<le> streak (failure_count b) l"] un
      using Cons.prems(2) by auto
    moreover have "cb_state (plain_run now os ?b) = OPEN \<longleftrightarrow>
        (\<exists>k \<le> length os. failure_threshold b \<le> streak c (take k os))"
      using Cons.IH [of ?b, OF st(1)] st(3) Cons.prems(3) by (simp only: st(2) threshold_complete)
    ultimately show ?thesis by (simp only: run)
  qed
qed


text \<open>
  The circuit trips exactly on a run of consecutive failures: after any sequence of completed
  calls of a fresh breaker the circuit is OPEN iff some prefix ends in \<open>failure_threshold\<close>
  failures with no success among them, and neutral outcomes neither count nor reset.
\<close>

theorem trips_exactly_at_threshold:
  assumes "0 < n"
  shows "cb_state (plain_run now os (init_breaker name n r t)) = OPEN \<longleftrightarrow>
         (\<exists>k \<le> length os. n \<le> streak 0 (take k os))"
  using plain_run_trips [of "init_breaker name n r t" now os] assms by (simp add: init_breaker_def)

theorem trips_exactly_at_threshold_witness:
  "cb_state (plain_run 1 [Failure, Neutral, Failure] (init_breaker ''x'' 2 30 0)) = OPEN \<and>
   cb_state (plain_run 1 [Failure, Success, Failure] (init_breaker ''x'' 2 30 0)) \<noteq> OPEN"
proof -
  have le2: "k \<le> 3 \<longleftrightarrow> k = 0 \<or> k = 1 \<or> k = 2 \<or> k = 3" for k :: nat by auto
  have take: "take 0 l = []" "take 1 (x # l) = [x]" "take 2 [x, y, z] = [x, y]" "take 3 [x, y, z] = [x, y, z]"
    for l and x y z :: outcome by simp_all
  have len: "length [x, y, z] = 3" for x y z :: outcome by simp
  show ?thesis
    unfolding trips_exactly_at_threshold [where n = 2, simplified] len le2
    by (simp add: take conj_disj_distribR ex_disj_distrib)
qed

text \<open>
  Recovery: an OPEN circuit refuses every caller, unchanged, until more than the recovery
  window has passed since it opened; then the next caller is admitted as the probe, whose success
  closes the circuit with the count reset and whose failure opens it again for a whole window.
\<close>

theorem open_then_probe:
  assumes "cb_state b = OPEN"
  shows "(now - last_state_change b \<le> recovery_seconds b \<longrightarrow> acquire now b = (None, b)) \<and>
         (recovery_seconds b < now - last_state_change b \<longrightarrow>
            (\<exists>p b'. acquire now b = (Some p, b') \<and> live_probe b' p \<and> cb_state b' = HALF_OPEN \<and>
               (let c = snd (resolve_permit Success t p b')
                in cb_state c = CLOSED \<and> failure_count c = 0) \<and>
               (let d = snd (resolve_permit Failure t p b')
                in cb_state d = OPEN \<and> last_state_change d = t)))"
  using assms
  by (auto simp: acquire_def check_recovery_def Let_def live_probe_def resolve_permit_def complete_permit_def)

theorem open_then_probe_witness:
  "acquire 30 demo_failed = (None, demo_failed) \<and> fst (acquire 31 demo_failed) \<noteq> None"
proof -
  have "cb_state demo_failed = OPEN" "last_state_change demo_failed = 0" "recovery_seconds demo_failed = 30"
    by (simp_all add: demo_failed_def complete_permit_def init_breaker_def Let_def)
  then show ?thesis
    using open_then_probe [of demo_failed 30 0] open_then_probe [of demo_failed 31 0] by auto
qed

end
