(* ===== verification/Search_Embedding.thy ===== *)
theory Search_Embedding imports Search_Query Circuit_Breaker begin

text \<open>
  The embedding path of discovery: the read-through \<open>EmbeddingCache\<close>
  (\<open>cache/embedding_cache.py\<close>), the \<open>CircuitGuardedEmbedder\<close>
  (\<open>adapters/resilience.py\<close>) below it, and the embedding-space guard of the wiring
  (\<open>adapters/space_guard.py\<close>). All of them implement the port \<open>EmbeddingAdapter\<close>; its
  contract is the locale \<open>query_embedder\<close>: an adapter keeps its invariant and answers a text
  with the vector of the model's space or raises. The wrappers are shown to turn one such adapter
  into another, so the composed stack is one.
\<close>

section \<open>The adapter interface\<close>

text \<open>The clock readings of one call through the stack, outermost first.\<close>

record instants =
  at_lookup :: rat
  at_acquire :: rat
  at_call :: rat
  at_complete :: rat

type_synonym 's embedder = "instants \<Rightarrow> string \<Rightarrow> 's \<Rightarrow> (search_exn + rat list) \<times> 's"

locale query_embedder =
  fixes emb :: "instants \<Rightarrow> string \<Rightarrow> 's \<Rightarrow> (search_exn + rat list) \<times> 's"
    and emb_inv :: "'s \<Rightarrow> bool"
    and space :: "string \<Rightarrow> rat list"
  assumes keeps: "emb_inv s \<Longrightarrow> emb_inv (snd (emb ts text s))"
    and sound: "emb_inv s \<Longrightarrow> fst (emb ts text s) = Inr v \<Longrightarrow> v = space text"

text \<open>
  The provider's endpoint is not code of the repository: it is a function of the instant and the
  text. The state of the raw adapter is that function with the log of the texts sent to it.
\<close>

record backend =
  endpoint :: "rat \<Rightarrow> string \<Rightarrow> search_exn + rat list"
  sent :: "string list"

definition raw_embed :: "backend embedder" where
  "raw_embed ts text be = (endpoint be (at_call ts) text, be\<lparr>sent := sent be @ [text]\<rparr>)"

definition backend_agrees :: "(string \<Rightarrow> rat list) \<Rightarrow> backend \<Rightarrow> bool" where
  "backend_agrees space be \<longleftrightarrow> (\<forall>t text v. endpoint be t text = Inr v \<longrightarrow> v = space text)"

interpretation raw: query_embedder raw_embed "backend_agrees space" space for space
  by standard (simp_all add: raw_embed_def backend_agrees_def)

section \<open>The circuit guard\<close>

definition guarded_embed :: "'s embedder \<Rightarrow> (circuit_breaker \<times> 's) embedder" where
  "guarded_embed adapter ts text st =
     (case st of (b, s) \<Rightarrow>
        (case acquire (at_acquire ts) b of
           (None, b') \<Rightarrow> (Inl EmbeddingUnavailable, (guard_exit (at_complete ts) None b', s))
         | (Some permit, b') \<Rightarrow>
             (case adapter ts text s of
                (Inr vector, s') \<Rightarrow>
                  (let (permit', b'') = resolve_permit Success (at_complete ts) permit b'
                   in (Inr vector, (guard_exit (at_complete ts) (Some permit') b'', s')))
              | (Inl EmbeddingUnavailable, s') \<Rightarrow>
                  (Inl EmbeddingUnavailable, (guard_exit (at_complete ts) (Some permit) b', s'))
              | (Inl e, s') \<Rightarrow>
                  (let (permit', b'') = resolve_permit Neutral (at_complete ts) permit b'
                   in (Inl e, (guard_exit (at_complete ts) (Some permit') b'', s'))))))"

definition embed_outcome :: "search_exn + rat list \<Rightarrow> outcome" where
  "embed_outcome r = (case r of Inr _ \<Rightarrow> Success | Inl e \<Rightarrow> if e = EmbeddingUnavailable then Failure else Neutral)"

lemma guarded_refused:
  "acquire (at_acquire ts) b = (None, b') \<Longrightarrow>
   guarded_embed adapter ts text (b, s) = (Inl EmbeddingUnavailable, (b', s))"
  by (simp add: guarded_embed_def guard_exit_def)

lemma guarded_admitted:
  assumes "acquire (at_acquire ts) b = (Some p, b')"
  shows "guarded_embed adapter ts text (b, s) =
    (fst (adapter ts text s),
     (snd (resolve_permit (embed_outcome (fst (adapter ts text s))) (at_complete ts) p b'),
      snd (adapter ts text s)))"
proof -
  note once = cb.report_once
  obtain r s' where a: "adapter ts text s = (r, s')" by (cases "adapter ts text s")
  show ?thesis
  proof (cases r)
    case (Inl e)
    then show ?thesis using assms a
      by (cases e) (simp_all add: guarded_embed_def guard_exit_def embed_outcome_def once case_prod_beta)
  next
    case (Inr v)
    then show ?thesis using assms a
      by (simp add: guarded_embed_def guard_exit_def embed_outcome_def once case_prod_beta)
  qed
qed

definition guarded_inv :: "('s \<Rightarrow> bool) \<Rightarrow> circuit_breaker \<times> 's \<Rightarrow> bool" where
  "guarded_inv P st \<longleftrightarrow> gate_ok (fst st) \<and> P (snd st)"

lemma guarded_cases:
  assumes "guarded_embed adapter ts text (b, s) = (r, (b', s'))"
  obtains (refused) "r = Inl EmbeddingUnavailable" "s' = s" "b' = snd (acquire (at_acquire ts) b)"
  | (admitted) p where "r = fst (adapter ts text s)" "s' = snd (adapter ts text s)"
      "b' = snd (resolve_permit (embed_outcome r) (at_complete ts) p (snd (acquire (at_acquire ts) b)))"
proof (cases "acquire (at_acquire ts) b")
  case (Pair q b'')
  show ?thesis
  proof (cases q)
    case None
    then show ?thesis using assms Pair guarded_refused [of ts b b'' adapter "text" s] by (intro refused) auto
  next
    case (Some p)
    then show ?thesis using assms Pair guarded_admitted [of ts b p b'' adapter "text" s] by (intro admitted) auto
  qed
qed

context query_embedder begin

lemma guarded_contract: "query_embedder (guarded_embed emb) (guarded_inv emb_inv) space"
proof
  fix st ts qry
  assume inv: "guarded_inv emb_inv st"
  obtain b s where st: "st = (b, s)" by (cases st)
  obtain r b' s' where g: "guarded_embed emb ts qry (b, s) = (r, (b', s'))" by (metis prod.collapse)
  have ok: "gate_ok (snd (acquire (at_acquire ts) b))" "emb_inv s"
    using inv st cb.enter_inv by (auto simp: guarded_inv_def)
  show "guarded_inv emb_inv (snd (guarded_embed emb ts qry st))"
    using g ok by (cases rule: guarded_cases [OF g]) (auto simp: st g guarded_inv_def keeps cb.report_inv)
  fix v assume "fst (guarded_embed emb ts qry st) = Inr v"
  then show "v = space qry"
    using ok sound by (cases rule: guarded_cases [OF g]) (auto simp: st g)
qed

end

section \<open>The cache\<close>

record 's embedding_cache =
  ec_inner :: 's
  ec_ttl :: rat
  ec_max_entries :: int
  ec_store :: "(string, rat \<times> rat list) dict"

definition init_cache :: "'s \<Rightarrow> rat \<Rightarrow> int \<Rightarrow> search_exn + 's embedding_cache" where
  "init_cache adapter ttl max_entries =
     (if ttl \<le> 0 then Inl (ValueError ''ttl_seconds must be > 0 (no never-expiring cache keys)'')
      else Inr \<lparr>ec_inner = adapter, ec_ttl = ttl, ec_max_entries = max_entries, ec_store = []\<rparr>)"

text \<open>\<open>next(iter(store))\<close> of an empty store raises.\<close>

definition evict_if_full ::
  "int \<Rightarrow> (string, rat \<times> rat list) dict \<Rightarrow> search_exn + (string, rat \<times> rat list) dict" where
  "evict_if_full max_entries store =
     (if int (length store) \<ge> max_entries
      then (case store of [] \<Rightarrow> Inl (OtherError ''StopIteration'') | (oldest, _) # _ \<Rightarrow> Inr (ddel oldest store))
      else Inr store)"

definition cached_embed :: "'s embedder \<Rightarrow> 's embedding_cache embedder" where
  "cached_embed adapter ts text c =
     (let now = at_lookup ts;
          miss = (\<lambda>_::unit.
            case adapter ts text (ec_inner c) of
              (Inl e, s') \<Rightarrow> (Inl e, c\<lparr>ec_inner := s'\<rparr>)
            | (Inr value, s') \<Rightarrow>
                (case evict_if_full (ec_max_entries c) (ec_store c) of
                   Inl e \<Rightarrow> (Inl e, c\<lparr>ec_inner := s'\<rparr>)
                 | Inr store \<Rightarrow> (Inr value, c\<lparr>ec_inner := s', ec_store := dset text (now, value) store\<rparr>)))
      in case dget (ec_store c) text of
           Some (stamp, value) \<Rightarrow> if now - stamp < ec_ttl c then (Inr value, c) else miss ()
         | None \<Rightarrow> miss ())"

definition fresh :: "rat \<Rightarrow> string \<Rightarrow> 's embedding_cache \<Rightarrow> rat list option" where
  "fresh now text c = (case dget (ec_store c) text of
      Some (stamp, value) \<Rightarrow> if now - stamp < ec_ttl c then Some value else None
    | None \<Rightarrow> None)"

definition cache_inv ::
  "('s \<Rightarrow> bool) \<Rightarrow> (string \<Rightarrow> rat list) \<Rightarrow> 's embedding_cache \<Rightarrow> bool" where
  "cache_inv P space c \<longleftrightarrow>
     P (ec_inner c) \<and> 1 \<le> ec_max_entries c \<and> dict_ok (ec_store c) \<and>
     int (length (ec_store c)) \<le> ec_max_entries c \<and>
     (\<forall>text stamp v. dget (ec_store c) text = Some (stamp, v) \<longrightarrow> v = space text)"

lemma cached_hit: "fresh (at_lookup ts) text c = Some v \<Longrightarrow> cached_embed adapter ts text c = (Inr v, c)"
  by (auto simp: fresh_def cached_embed_def Let_def split: option.splits if_splits)

lemma cached_miss:
  "fresh (at_lookup ts) text c = None \<Longrightarrow> cached_embed adapter ts text c =
    (case adapter ts text (ec_inner c) of
       (Inl e, s') \<Rightarrow> (Inl e, c\<lparr>ec_inner := s'\<rparr>)
     | (Inr value, s') \<Rightarrow>
         (case evict_if_full (ec_max_entries c) (ec_store c) of
            Inl e \<Rightarrow> (Inl e, c\<lparr>ec_inner := s'\<rparr>)
          | Inr store \<Rightarrow>
              (Inr value, c\<lparr>ec_inner := s', ec_store := dset text (at_lookup ts, value) store\<rparr>)))"
  by (auto simp: fresh_def cached_embed_def Let_def split: option.splits if_splits)

lemma evict_room:
  assumes "dict_ok store" and "1 \<le> n" and "int (length store) \<le> n"
  obtains store' where "evict_if_full n store = Inr store'" "dict_ok store'" "int (length store') < n"
    "\<And>k x. dget store' k = Some x \<Longrightarrow> dget store k = Some x"
proof (cases "int (length store) \<ge> n")
  case False
  then show ?thesis using that [of store] assms by (simp add: evict_if_full_def)
next
  case True
  with assms obtain k x rest where s: "store = (k, x) # rest" by (cases store) auto
  have "length (ddel k store) \<le> length rest"
    using length_delete_le [of k rest] by (simp add: s ddel_def)
  then have "int (length (ddel k store)) < n" using assms(3) s by simp
  note room = this
  show ?thesis
  proof (rule that)
    show "evict_if_full n store = Inr (ddel k store)" using True s by (simp add: evict_if_full_def)
    show "dict_ok (ddel k store)" by (rule dict_ok_ddel [OF assms(1)])
    show "int (length (ddel k store)) < n" by (rule room)
    show "dget (ddel k store) k' = Some y \<Longrightarrow> dget store k' = Some y" for k' y
      by (simp add: dict_simps split: if_splits)
  qed
qed

context query_embedder begin

lemma cached_contract: "query_embedder (cached_embed emb) (cache_inv emb_inv space) space"
proof
  fix c ts qry
  assume inv: "cache_inv emb_inv space c"
  note I = inv [unfolded cache_inv_def]
  obtain store where st: "evict_if_full (ec_max_entries c) (ec_store c) = Inr store" "dict_ok store"
    "int (length store) < ec_max_entries c"
    "\<And>k x. dget store k = Some x \<Longrightarrow> dget (ec_store c) k = Some x"
    using I evict_room [of "ec_store c" "ec_max_entries c"] by metis
  have keep: "emb_inv (snd (emb ts qry (ec_inner c)))" using I keeps by blast
  have snd: "fst (emb ts qry (ec_inner c)) = Inr v \<Longrightarrow> v = space qry" for v using I sound by blast
  show "cache_inv emb_inv space (snd (cached_embed emb ts qry c))"
  proof (cases "fresh (at_lookup ts) qry c")
    case None
    show ?thesis
    proof (cases "emb ts qry (ec_inner c)")
      case (Pair r s')
      then show ?thesis using I keep snd st None
        by (cases r) (auto simp: cached_miss cache_inv_def dict_simps length_dset split: if_splits)
    qed
  qed (simp add: cached_hit inv)
  fix v assume v: "fst (cached_embed emb ts qry c) = Inr v"
  show "v = space qry"
  proof (cases "fresh (at_lookup ts) qry c")
    case None
    then show ?thesis using v snd st
      by (cases "emb ts qry (ec_inner c)"; cases "fst (emb ts qry (ec_inner c))") (auto simp: cached_miss)
  next
    case (Some w)
    then have "w = space qry" using I by (auto simp: fresh_def split: option.splits if_splits)
    then show ?thesis using v Some by (simp add: cached_hit)
  qed
qed

end

section \<open>The stack of the wiring: cache, circuit, adapter\<close>

type_synonym embedding_stack = "(circuit_breaker \<times> backend) embedding_cache"

definition embed_stack :: "embedding_stack embedder" where
  "embed_stack = cached_embed (guarded_embed raw_embed)"

definition stack_inv :: "(string \<Rightarrow> rat list) \<Rightarrow> embedding_stack \<Rightarrow> bool" where
  "stack_inv space = cache_inv (guarded_inv (backend_agrees space)) space"

interpretation guarded: query_embedder "guarded_embed raw_embed" "guarded_inv (backend_agrees space)" space for space
  by (rule raw.guarded_contract)

interpretation stack: query_embedder embed_stack "stack_inv space" space for space
  unfolding embed_stack_def stack_inv_def by (rule guarded.cached_contract)

text \<open>A sequence of calls, one after the other.\<close>

fun embed_run ::
  "'s embedder \<Rightarrow> (instants \<times> string) list \<Rightarrow> 's \<Rightarrow> (search_exn + rat list) list \<times> 's" where
  "embed_run adapter [] s = ([], s)"
| "embed_run adapter ((ts, q) # calls) s =
     (let (r, s') = adapter ts q s; (rs, s'') = embed_run adapter calls s' in (r # rs, s''))"

definition answers_in_space ::
  "(string \<Rightarrow> rat list) \<Rightarrow> (instants \<times> string) list \<Rightarrow> (search_exn + rat list) list \<Rightarrow> bool" where
  "answers_in_space space calls rs \<longleftrightarrow>
     list_all2 (\<lambda>call r. case r of Inl _ \<Rightarrow> True | Inr v \<Rightarrow> v = space (snd call)) calls rs"

context query_embedder begin

lemma run_sound:
  "emb_inv s \<Longrightarrow> emb_inv (snd (embed_run emb calls s)) \<and>
     answers_in_space space calls (fst (embed_run emb calls s))"
proof (induction calls arbitrary: s)
  case (Cons call calls)
  obtain ts q where c: "call = (ts, q)" by (cases call)
  have "emb_inv (snd (emb ts q s))" using Cons.prems keeps by blast
  note rest = Cons.IH [OF this]
  have "case fst (emb ts q s) of Inl _ \<Rightarrow> True | Inr v \<Rightarrow> v = space q"
    using Cons.prems sound by (auto split: sum.split)
  with rest show ?case by (auto simp: c case_prod_beta Let_def answers_in_space_def)
qed (simp add: answers_in_space_def)

end

definition fresh_stack :: "backend \<Rightarrow> rat \<Rightarrow> int \<Rightarrow> rat \<Rightarrow> embedding_stack" where
  "fresh_stack be ttl max_entries now =
     \<lparr>ec_inner = (init_breaker ''embedding'' DEFAULT_FAILURE_THRESHOLD DEFAULT_RECOVERY_SECONDS now, be),
      ec_ttl = ttl, ec_max_entries = max_entries, ec_store = []\<rparr>"

lemma fresh_stack_inv: "backend_agrees space be \<Longrightarrow> 1 \<le> n \<Longrightarrow> stack_inv space (fresh_stack be ttl n now)"
  by (auto simp: stack_inv_def fresh_stack_def cache_inv_def guarded_inv_def gate_ok_def
      breaker_ok_def init_breaker_def DEFAULT_FAILURE_THRESHOLD_def dict_simps)

text \<open>
  Query embeddings never leave the model's space: whatever calls are made at whatever times
  through the cache, the circuit and a provider that answers with the model's vectors or fails,
  every answer is the vector of its own text or an exception, and the cache never holds more
  entries than its bound.
\<close>

theorem embedding_stack_sound:
  assumes "backend_agrees space be" and "1 \<le> max_entries"
  shows "answers_in_space space calls
           (fst (embed_run embed_stack calls (fresh_stack be ttl max_entries now))) \<and>
         int (length (ec_store (snd (embed_run embed_stack calls (fresh_stack be ttl max_entries now))))) \<le>
           ec_max_entries (snd (embed_run embed_stack calls (fresh_stack be ttl max_entries now)))"
  using stack.run_sound [OF fresh_stack_inv [OF assms], of calls ttl now]
  by (simp_all add: stack_inv_def cache_inv_def)

definition demo_endpoint :: "rat \<Rightarrow> string \<Rightarrow> search_exn + rat list" where
  "demo_endpoint t q = (if t < 10 then Inl EmbeddingUnavailable else Inr [of_nat (length q)])"

definition demo_backend :: backend where
  "demo_backend = \<lparr>endpoint = demo_endpoint, sent = []\<rparr>"

definition at_instant :: "rat \<Rightarrow> instants" where
  "at_instant t = \<lparr>at_lookup = t, at_acquire = t, at_call = t, at_complete = t\<rparr>"

theorem embedding_stack_sound_witness:
  "answers_in_space (\<lambda>q. [of_nat (length q)]) [(at_instant 1, ''ab''), (at_instant 11, ''ab'')]
     (fst (embed_run embed_stack [(at_instant 1, ''ab''), (at_instant 11, ''ab'')]
        (fresh_stack demo_backend 60 8 0)))"
  by (rule embedding_stack_sound [THEN conjunct1])
     (auto simp: backend_agrees_def demo_backend_def demo_endpoint_def split: if_splits)

section \<open>A sustained outage\<close>

definition outage :: "backend \<Rightarrow> bool" where
  "outage be \<longleftrightarrow> (\<forall>t q. endpoint be t q = Inl EmbeddingUnavailable)"

definition calls_within :: "rat \<Rightarrow> rat \<Rightarrow> (instants \<times> string) list \<Rightarrow> bool" where
  "calls_within lo hi calls \<longleftrightarrow>
     (\<forall>c \<in> set calls. lo \<le> at_acquire (fst c) \<and> at_acquire (fst c) \<le> hi \<and>
                       lo \<le> at_complete (fst c) \<and> at_complete (fst c) \<le> hi)"

lemma outage_refused:
  assumes "cb_state b = OPEN" and "t0 \<le> last_state_change b" and "calls_within t0 (t0 + recovery_seconds b) calls"
  shows "embed_run (guarded_embed raw_embed) calls (b, be) =
         (replicate (length calls) (Inl EmbeddingUnavailable), (b, be))"
  using assms(3)
proof (induction calls)
  case (Cons call calls)
  obtain ts q where c: "call = (ts, q)" by (cases call)
  have "at_acquire ts - last_state_change b \<le> recovery_seconds b"
    using Cons.prems assms(2) by (simp add: c calls_within_def)
  then have "acquire (at_acquire ts) b = (None, b)"
    using assms(1) by (simp add: acquire_def check_recovery_def)
  moreover have "calls_within t0 (t0 + recovery_seconds b) calls"
    using Cons.prems by (simp add: calls_within_def)
  ultimately show ?case using Cons.IH by (simp add: c guarded_refused)
qed simp

lemma outage_run:
  assumes "outage be" and "cb_state b = CLOSED" and "0 \<le> failure_count b"
    and "failure_count b < failure_threshold b"
    and "calls_within t0 (t0 + recovery_seconds b) calls"
  shows "fst (embed_run (guarded_embed raw_embed) calls (b, be)) =
           replicate (length calls) (Inl EmbeddingUnavailable) \<and>
         sent (snd (snd (embed_run (guarded_embed raw_embed) calls (b, be)))) =
           sent be @ map snd (take (nat (failure_threshold b - failure_count b)) calls)"
  using assms
proof (induction calls arbitrary: b be)
  case (Cons call calls)
  obtain ts q where c: "call = (ts, q)" by (cases call)
  define be' where "be' = be\<lparr>sent := sent be @ [q]\<rparr>"
  define b' where "b' = complete_permit False Failure 0 (at_complete ts) b"
  have raw: "raw_embed ts q be = (Inl EmbeddingUnavailable, be')"
    using Cons.prems(1) by (simp add: raw_embed_def outage_def be'_def)
  have acq: "acquire (at_acquire ts) b = (Some \<lparr>is_probe = False, permit_token = 0, permit_done = False\<rparr>, b)"
    using Cons.prems(2) by (simp add: acquire_def check_recovery_def)
  have step: "guarded_embed raw_embed ts q (b, be) = (Inl EmbeddingUnavailable, (b', be'))"
    using guarded_admitted [OF acq, of raw_embed q be]
    by (simp add: raw embed_outcome_def resolve_permit_def b'_def)
  have out': "outage be'" using Cons.prems(1) by (simp add: outage_def be'_def)
  have within: "calls_within t0 (t0 + recovery_seconds b') calls" "t0 \<le> at_complete ts"
    using Cons.prems(5) by (auto simp: c b'_def calls_within_def)
  have n: "nat (failure_threshold b - failure_count b) = Suc (nat (failure_threshold b' - (failure_count b + 1)))"
    using Cons.prems(4) by (simp add: b'_def)
  show ?case
  proof (cases "failure_count b + 1 < failure_threshold b")
    case True
    then have "cb_state b' = CLOSED" "failure_count b' = failure_count b + 1" "failure_threshold b' = failure_threshold b"
      using Cons.prems(2) by (simp_all add: b'_def complete_permit_def Let_def)
    then show ?thesis using Cons.IH [OF out', of b'] True Cons.prems(3) within n
      by (simp add: c step case_prod_beta Let_def be'_def)
  next
    case False
    then have "cb_state b' = OPEN" "last_state_change b' = at_complete ts"
      using Cons.prems(2) by (simp_all add: b'_def complete_permit_def Let_def)
    then have "embed_run (guarded_embed raw_embed) calls (b', be') =
        (replicate (length calls) (Inl EmbeddingUnavailable), (b', be'))"
      using within by (intro outage_refused) auto
    then show ?thesis using n False Cons.prems(4) by (simp add: c step be'_def b'_def)
  qed
qed simp

text \<open>
  During an outage the provider is spared: of any number of calls made within one recovery
  window, only the first \<open>failure_threshold\<close> reach the provider, and every call, admitted or
  refused, gets the \<open>EmbeddingUnavailable\<close> that selects the lexical fallback.
\<close>

theorem outage_spares_provider:
  assumes "outage be" and "sent be = []" and "0 < n" and "calls_within now (now + r) calls"
  shows "fst (embed_run (guarded_embed raw_embed) calls (init_breaker name n r now, be)) =
           replicate (length calls) (Inl EmbeddingUnavailable) \<and>
         sent (snd (snd (embed_run (guarded_embed raw_embed) calls (init_breaker name n r now, be)))) =
           map snd (take (nat n) calls)"
  using outage_run [of be "init_breaker name n r now" now calls] assms by (simp add: init_breaker_def)

theorem outage_spares_provider_witness:
  "sent (snd (snd (embed_run (guarded_embed raw_embed)
     [(at_instant 1, ''a''), (at_instant 2, ''b''), (at_instant 3, ''c'')]
     (init_breaker ''embedding'' 2 30 0, \<lparr>endpoint = \<lambda>t q. Inl EmbeddingUnavailable, sent = []\<rparr>)))) =
   [''a'', ''b'']"
  using outage_spares_provider [of "\<lparr>endpoint = \<lambda>t q. Inl EmbeddingUnavailable, sent = []\<rparr>" 2 0 30
      "[(at_instant 1, ''a''), (at_instant 2, ''b''), (at_instant 3, ''c'')]" "''embedding''"]
  by (simp add: outage_def calls_within_def at_instant_def eval_nat_numeral)

end
