(* ===== verification/Search_Space.thy ===== *)
theory Search_Space imports Search_Embedding begin

text \<open>
  The embedding-space guard of the wiring (\<open>adapters/space_guard.py\<close>). The index mapping is a
  JSON value (\<open>json\<close>) or the failure of the client call. Shown: the guard takes the vector leg
  out exactly when a readable manifest differs from the reader's identity on a key both have, and
  never over a cross-region routing prefix; the replacement adapter answers nothing, so it meets
  the adapter contract in every space.
\<close>

section \<open>JSON values\<close>

datatype json =
    JNull
  | JBool bool
  | JNum rat
  | JStr string
  | JList "json list"
  | JObj "(string \<times> json) list"

section \<open>Reading the manifest\<close>

text \<open>
  \<open>client.indices.get_mapping\<close> raises or returns a value; in the \<open>try\<close> block every
  unexpected shape is a raise as well. The expression after it is outside the block: a
  \<open>_meta\<close> that is not an object has no \<open>get\<close>.
\<close>

definition first_mappings :: "json \<Rightarrow> json option" where
  "first_mappings response =
     (case response of
        JObj ((_, JObj first) # _) \<Rightarrow> dget first ''mappings''
      | _ \<Rightarrow> None)"

definition read_embedding_manifest ::
  "search_exn + json \<Rightarrow> search_exn + string \<times> (string, json) dict option" where
  "read_embedding_manifest response =
     (case response of
        Inl _ \<Rightarrow> Inr (''unreadable'', None)
      | Inr value \<Rightarrow>
          (case first_mappings value of
             None \<Rightarrow> Inr (''unreadable'', None)
           | Some (JObj mappings) \<Rightarrow>
               (case (case dget mappings ''_meta'' of None \<Rightarrow> JObj [] | Some m \<Rightarrow> m) of
                  JObj meta \<Rightarrow>
                    (case dget meta ''embedding'' of
                       Some (JObj manifest) \<Rightarrow> Inr (''ok'', Some manifest)
                     | _ \<Rightarrow> Inr (''absent'', None))
                | _ \<Rightarrow> Inl (OtherError ''AttributeError''))
           | Some _ \<Rightarrow> Inr (''absent'', None)))"

definition ROUTING_PREFIXES :: "string list" where
  "ROUTING_PREFIXES = [''global.'', ''us.'', ''eu.'', ''apac.'', ''us-gov.'']"

fun strip_first_prefix :: "string list \<Rightarrow> string \<Rightarrow> string" where
  "strip_first_prefix [] model = model"
| "strip_first_prefix (prefix # rest) model =
     (if starts_with prefix model then drop (length prefix) model else strip_first_prefix rest model)"

definition same_space_model :: "json \<Rightarrow> json" where
  "same_space_model model = (case model of
      JStr m \<Rightarrow> JStr (strip_first_prefix ROUTING_PREFIXES m)
    | _ \<Rightarrow> model)"

text \<open>The rendered description is the list of the keys that differ, in the code's order.\<close>

definition as_space :: "string \<Rightarrow> json \<Rightarrow> json" where
  "as_space key value = (if key = ''model'' then same_space_model value else value)"

definition key_mismatch :: "(string, json) dict \<Rightarrow> (string, json) dict \<Rightarrow> string \<Rightarrow> bool" where
  "key_mismatch manifest reader key =
     (case (dget manifest key, dget reader key) of
        (Some a, Some b) \<Rightarrow> as_space key a \<noteq> as_space key b
      | _ \<Rightarrow> False)"

definition embedding_space_mismatch ::
  "(string, json) dict option \<Rightarrow> (string, json) dict \<Rightarrow> string list option" where
  "embedding_space_mismatch manifest reader =
     (case manifest of
        None \<Rightarrow> None
      | Some m \<Rightarrow> (case filter (key_mismatch m reader) [''provider'', ''model'', ''dimensions''] of
                    [] \<Rightarrow> None | keys \<Rightarrow> Some keys))"

text \<open>\<open>MismatchedSpaceEmbedder\<close>: every call raises.\<close>

definition mismatched_embed :: "'s embedder" where
  "mismatched_embed ts text s = (Inl EmbeddingUnavailable, s)"

interpretation mismatched: query_embedder mismatched_embed "\<lambda>_. True" space for space
  by standard (simp_all add: mismatched_embed_def)

datatype guard_log = WarnUnreadable | WarnAbsent | AlarmMismatch "string list"

definition guard_embedding_space ::
  "search_exn + json \<Rightarrow> (string, json) dict \<Rightarrow> 's embedder \<Rightarrow> (search_exn, guard_log, 's embedder) eff" where
  "guard_embedding_space response reader embedder =
     ebind (lift_res (read_embedding_manifest response)) (\<lambda>(status, manifest).
       if status = ''unreadable'' then ebind (etell WarnUnreadable) (\<lambda>_. eret embedder)
       else if status = ''absent'' then ebind (etell WarnAbsent) (\<lambda>_. eret embedder)
       else case embedding_space_mismatch manifest reader of
              None \<Rightarrow> eret embedder
            | Some mismatch \<Rightarrow> ebind (etell (AlarmMismatch mismatch)) (\<lambda>_. eret mismatched_embed))"

lemma manifest_cases:
  "read_embedding_manifest response = Inr (status, manifest) \<Longrightarrow>
   (status = ''ok'' \<and> manifest \<noteq> None) \<or> (status \<in> {''absent'', ''unreadable''} \<and> manifest = None)"
  by (auto simp: read_embedding_manifest_def split: sum.splits option.splits json.splits)

lemma mismatch_None_iff:
  "embedding_space_mismatch (Some m) reader = None \<longleftrightarrow>
   (\<forall>key \<in> {''provider'', ''model'', ''dimensions''}. \<not> key_mismatch m reader key)"
  by (auto simp: embedding_space_mismatch_def split: list.splits)

text \<open>A routing prefix in front of a model id that carries none of them does not show.\<close>

lemma strip_routing:
  assumes "p \<in> set ROUTING_PREFIXES" and "strip_first_prefix ROUTING_PREFIXES m = m"
  shows "strip_first_prefix ROUTING_PREFIXES (p @ m) = m"
  using assms by (auto simp: ROUTING_PREFIXES_def starts_with_def)

text \<open>
  The space guard decides by the manifest alone: an alarm is raised, and the adapter that
  refuses every query wired, exactly when the index has a readable manifest that differs from the
  reader's identity on a key both have; in every other readable, absent or unreadable case the
  given adapter is wired unchanged. The one other outcome is the exception of a malformed
  \<open>_meta\<close>.
\<close>

theorem space_guard_decides:
  "(\<exists>keys. snd (guard_embedding_space response reader embedder) = [AlarmMismatch keys]) =
     (\<exists>m key. read_embedding_manifest response = Inr (''ok'', Some m) \<and>
        key \<in> {''provider'', ''model'', ''dimensions''} \<and> key_mismatch m reader key) \<and>
   fst (guard_embedding_space response reader embedder) =
     (if read_embedding_manifest response = Inl (OtherError ''AttributeError'')
      then Inl (OtherError ''AttributeError'')
      else if \<exists>keys. snd (guard_embedding_space response reader embedder) = [AlarmMismatch keys]
      then Inr mismatched_embed else Inr embedder)"
proof (cases "read_embedding_manifest response")
  case (Inl e)
  then have "e = OtherError ''AttributeError''"
    by (auto simp: read_embedding_manifest_def split: sum.splits option.splits json.splits)
  with Inl show ?thesis by (simp add: guard_embedding_space_def eff_simps)
next
  case (Inr sm)
  obtain status manifest where sm: "sm = (status, manifest)" by (cases sm)
  from manifest_cases [OF Inr [unfolded sm]] show ?thesis
  proof (elim disjE conjE)
    assume ok: "status = ''ok''" "manifest \<noteq> None"
    then obtain m where m: "manifest = Some m" by auto
    show ?thesis
    proof (cases "embedding_space_mismatch (Some m) reader")
      case None
      with mismatch_None_iff [of m reader] show ?thesis
        by (auto simp: guard_embedding_space_def eff_simps Inr sm ok m)
    next
      case (Some keys)
      then have "\<exists>key \<in> {''provider'', ''model'', ''dimensions''}. key_mismatch m reader key"
        using mismatch_None_iff [of m reader] by auto
      with Some show ?thesis by (auto simp: guard_embedding_space_def eff_simps Inr sm ok m)
    qed
  next
    assume "status \<in> {''absent'', ''unreadable''}" "manifest = None"
    then show ?thesis by (auto simp: guard_embedding_space_def eff_simps Inr sm)
  qed
qed

text \<open>
  A cross-region routing prefix is not a space difference: for model ids without a prefix of
  their own, putting any routing prefix on either side leaves the verdict on the model as it was.
\<close>

theorem routing_prefix_neutral:
  assumes "p \<in> set (ROUTING_PREFIXES @ [[]])" and "q \<in> set (ROUTING_PREFIXES @ [[]])"
    and "strip_first_prefix ROUTING_PREFIXES m = m" and "strip_first_prefix ROUTING_PREFIXES n = n"
  shows "embedding_space_mismatch (Some [(''model'', JStr (p @ m))]) [(''model'', JStr (q @ n))] = None \<longleftrightarrow>
         m = n"
proof -
  have "strip_first_prefix ROUTING_PREFIXES (p @ m) = m" "strip_first_prefix ROUTING_PREFIXES (q @ n) = n"
    using assms strip_routing by auto
  then show ?thesis
    by (simp add: mismatch_None_iff key_mismatch_def dict_simps as_space_def same_space_model_def)
qed

theorem routing_prefix_neutral_witness:
  "embedding_space_mismatch (Some [(''model'', JStr ''global.cohere.embed-v4'')])
     [(''model'', JStr ''cohere.embed-v4'')] = None \<and>
   embedding_space_mismatch (Some [(''model'', JStr ''us.cohere.embed-v4'')])
     [(''model'', JStr ''cohere.embed-multilingual-v3'')] \<noteq> None"
proof -
  have p: "''global.'' \<in> set (ROUTING_PREFIXES @ [[]])" "''us.'' \<in> set (ROUTING_PREFIXES @ [[]])"
    "[] \<in> set (ROUTING_PREFIXES @ [[]])" by (simp_all add: ROUTING_PREFIXES_def)
  have s: "strip_first_prefix ROUTING_PREFIXES ''cohere.embed-v4'' = ''cohere.embed-v4''"
    "strip_first_prefix ROUTING_PREFIXES ''cohere.embed-multilingual-v3'' = ''cohere.embed-multilingual-v3''"
    by (simp_all add: ROUTING_PREFIXES_def starts_with_def)
  show ?thesis
    using routing_prefix_neutral [OF p(1) p(3) s(1) s(1)] routing_prefix_neutral [OF p(2) p(3) s(1) s(2)]
    by simp
qed

end
