(* ===== verification/Search_Retrieval.thy ===== *)
theory Search_Retrieval imports Search_Query begin

text \<open>
  \<open>HybridRetriever\<close> (\<open>domain/retriever.py\<close>): the two search legs and the reciprocal rank
  fusion of their results. The two stores are parameters that may raise. The fusion keeps the
  code's three dictionaries; its abstract specification is \<open>rrf_score\<close>, the sum over the lists
  of the contribution of a paper's first rank, and the lemmas show that the fused candidates are
  exactly the papers of the lists, each once, with that score, in the deterministic order.
\<close>

type_synonym scored_record = "index_record \<times> rat"

definition RETRIEVAL_TOP_K :: nat where "RETRIEVAL_TOP_K = 150"

definition RRF_K :: nat where "RRF_K = 60"

definition lite_fields :: "string list" where "lite_fields = [''title'', ''abstract'']"

definition full_fields :: "string list" where
  "full_fields = [''title'', ''abstract'', ''lexicalTerms'']"

definition contribution :: "nat \<Rightarrow> rat" where
  "contribution rank = 1 / of_nat (RRF_K + rank + 1)"

text \<open>The two dictionaries of best contributions are updated the same way.\<close>

definition better :: "rat \<Rightarrow> string \<Rightarrow> (string, rat) dict \<Rightarrow> bool" where
  "better c pid d = (case dget d pid of None \<Rightarrow> True | Some b \<Rightarrow> c > b)"

fun rrf_scan ::
  "nat \<Rightarrow> scored_record list \<Rightarrow> (string, rat) dict \<times> (string, rat) dict \<times> (string, index_record) dict
     \<Rightarrow> (string, rat) dict \<times> (string, rat) dict \<times> (string, index_record) dict" where
  "rrf_scan rank [] acc = acc"
| "rrf_scan rank ((rec, store_score) # rest) (per_list_best, best_contribution, best_record) =
     (let pid = paperId rec; c = contribution rank;
          plb = (if better c pid per_list_best then dset pid c per_list_best else per_list_best);
          bc = (if better c pid best_contribution then dset pid c best_contribution
                else best_contribution);
          br = (if better c pid best_contribution then dset pid rec best_record else best_record)
      in rrf_scan (rank + 1) rest (plb, bc, br))"

definition add_scores :: "(string, rat) dict \<Rightarrow> (string, rat) dict \<Rightarrow> (string, rat) dict" where
  "add_scores plb scores =
     fold (\<lambda>(pid, c) s. dset pid ((case dget s pid of None \<Rightarrow> 0 | Some x \<Rightarrow> x) + c) s) plb scores"

fun rrf_loop ::
  "scored_record list list \<Rightarrow> (string, rat) dict \<times> (string, rat) dict \<times> (string, index_record) dict
     \<Rightarrow> (string, rat) dict \<times> (string, rat) dict \<times> (string, index_record) dict" where
  "rrf_loop [] acc = acc"
| "rrf_loop (results # rest) (scores, best_contribution, best_record) =
     (case rrf_scan 0 results ([], best_contribution, best_record) of
        (plb, bc, br) \<Rightarrow> rrf_loop rest (add_scores plb scores, bc, br))"

definition rrf_key :: "string \<times> rat \<Rightarrow> rat \<times> string" where
  "rrf_key kv = (- snd kv, fst kv)"

definition reciprocal_rank_fusion :: "scored_record list list \<Rightarrow> candidate list" where
  "reciprocal_rank_fusion result_lists =
     (case rrf_loop result_lists ([], [], []) of
        (scores, _, best_record) \<Rightarrow>
          map (\<lambda>(pid, score). mk_candidate (the (dget best_record pid)) score None)
            (sort_key rrf_key scores))"

text \<open>\<open>max(..., default=None)\<close>\<close>

definition best_score :: "scored_record list \<Rightarrow> rat option" where
  "best_score rs = (case rs of [] \<Rightarrow> None | r # rs' \<Rightarrow> Some (fold max (map snd rs') (snd r)))"

definition retrieve ::
  "(rat list \<Rightarrow> nat \<Rightarrow> bool \<Rightarrow> year_range option \<Rightarrow> search_exn + scored_record list)
     \<Rightarrow> (string list \<Rightarrow> nat \<Rightarrow> string list \<Rightarrow> year_range option \<Rightarrow> search_exn + scored_record list)
     \<Rightarrow> query_plan \<Rightarrow> search_exn + candidate_set" where
  "retrieve knn_search bm25_search plan =
     (let full = (plan_scope plan = FULL);
          fields = (if full then full_fields else lite_fields);
          bm25 = (\<lambda>_::unit. bm25_search (lexical_terms plan) RETRIEVAL_TOP_K fields (plan_years plan))
      in if plan_mode plan = HYBRID \<and> embedding_vector plan \<noteq> None
         then (case knn_search (the (embedding_vector plan)) RETRIEVAL_TOP_K (\<not> full) (plan_years plan) of
                 Inl e \<Rightarrow> Inl e
               | Inr knn_results \<Rightarrow>
                   (case bm25 () of
                      Inl e \<Rightarrow> Inl e
                    | Inr lexical \<Rightarrow> Inr \<lparr>cs_candidates = reciprocal_rank_fusion [knn_results, lexical],
                                     cs_retrieval_mode = HYBRID,
                                     best_knn_score = best_score knn_results\<rparr>))
         else (case bm25 () of
                 Inl e \<Rightarrow> Inl e
               | Inr lexical \<Rightarrow> Inr \<lparr>cs_candidates = reciprocal_rank_fusion [lexical],
                                cs_retrieval_mode = LEXICAL_RETRIEVAL,
                                best_knn_score = None\<rparr>))"

section \<open>The abstract specification of the fusion\<close>

fun first_rank :: "string \<Rightarrow> scored_record list \<Rightarrow> nat option" where
  "first_rank pid [] = None"
| "first_rank pid ((rec, _) # rest) =
     (if paperId rec = pid then Some 0 else map_option Suc (first_rank pid rest))"

definition list_score :: "string \<Rightarrow> scored_record list \<Rightarrow> rat" where
  "list_score pid l = (case first_rank pid l of None \<Rightarrow> 0 | Some r \<Rightarrow> contribution r)"

definition rrf_score :: "scored_record list list \<Rightarrow> string \<Rightarrow> rat" where
  "rrf_score lss pid = sum_list (map (list_score pid) lss)"

definition list_pids :: "scored_record list \<Rightarrow> string set" where
  "list_pids l = (paperId \<circ> fst) ` set l"

lemma contribution_pos: "0 < contribution r"
  by (simp add: contribution_def)

lemma contribution_antimono: "r < q \<Longrightarrow> contribution q < contribution r"
  by (simp add: contribution_def frac_less2)

lemma contribution_mono_le: "r \<le> q \<Longrightarrow> contribution q \<le> contribution r"
  using contribution_antimono by (cases "r = q") (simp_all add: less_imp_le)

lemma contribution_le_iff: "contribution q \<le> contribution r \<longleftrightarrow> r \<le> q"
  by (metis contribution_antimono contribution_mono_le leD linorder_not_le)

lemma first_rank_None: "first_rank pid l = None \<longleftrightarrow> pid \<notin> list_pids l"
  by (induction pid l rule: first_rank.induct) (auto simp: list_pids_def)

lemma first_rank_Some:
  "first_rank pid l = Some r \<Longrightarrow> r < length l \<and> paperId (fst (l ! r)) = pid \<and>
     (\<forall>k < r. paperId (fst (l ! k)) \<noteq> pid)"
proof (induction pid l arbitrary: r rule: first_rank.induct)
  case (2 pid rec sc rest)
  show ?case
  proof (cases "paperId rec = pid")
    case True
    with 2(2) show ?thesis by simp
  next
    case False
    with 2(2) obtain q where q: "first_rank pid rest = Some q" "r = Suc q" by auto
    from 2(1) [OF False q(1)] q False show ?thesis by (auto simp: less_Suc_eq_0_disj)
  qed
qed simp

section \<open>One list\<close>

text \<open>A paper's first hit in a list is its best, so the per-list dictionary never overwrites.\<close>

lemma scan_per_list_best:
  assumes "\<And>p v. dget plb p = Some v \<Longrightarrow> contribution rank \<le> v"
  shows "dget (fst (rrf_scan rank l (plb, bc, br))) pid =
    (case dget plb pid of Some v \<Rightarrow> Some v
     | None \<Rightarrow> map_option (\<lambda>r. contribution (rank + r)) (first_rank pid l))"
  using assms
proof (induction l arbitrary: rank plb bc br)
  case Nil
  then show ?case by (simp split: option.split)
next
  case (Cons x l)
  obtain rec sc where x: "x = (rec, sc)" by (cases x)
  let ?c = "contribution rank"
  let ?plb = "if better ?c (paperId rec) plb then dset (paperId rec) ?c plb else plb"
  have b: "better ?c (paperId rec) plb \<longleftrightarrow> dget plb (paperId rec) = None"
    using Cons.prems [of "paperId rec"] by (auto simp: better_def leD split: option.split)
  have inv: "\<And>p v. dget ?plb p = Some v \<Longrightarrow> contribution (rank + 1) \<le> v"
    using Cons.prems contribution_antimono [of rank "rank + 1"]
    by (auto simp: dict_simps split: if_splits) (meson less_le_not_le nle_le order_trans)+
  show ?case
    using Cons.IH [of ?plb "rank + 1", OF inv] b
    by (cases "paperId rec = pid")
       (auto simp: x Let_def dict_simps option.map_comp comp_def split: option.split)
qed

lemma scan_keys:
  "set (dkeys (fst (rrf_scan rank l (plb, bc, br)))) = set (dkeys plb) \<union> list_pids l"
proof (induction l arbitrary: rank plb bc br)
  case Nil
  then show ?case by (simp add: list_pids_def)
next
  case (Cons x l)
  obtain rec sc where x: "x = (rec, sc)" by (cases x)
  have "\<not> better c p d \<Longrightarrow> p \<in> set (dkeys d)" for c p d
    by (auto simp: better_def dget_Some_in split: option.splits)
  with Cons.IH show ?case by (auto simp: x Let_def dict_simps list_pids_def)
qed

lemma scan_dict_ok: "dict_ok plb \<Longrightarrow> dict_ok (fst (rrf_scan rank l (plb, bc, br)))"
proof (induction l arbitrary: rank plb bc br)
  case (Cons x l)
  then show ?case by (cases x) (simp add: Let_def dict_simps)
qed simp

section \<open>Adding the lists up\<close>

lemma add_scores_get:
  assumes "dict_ok plb"
  shows "dget (add_scores plb scores) pid =
    (case dget plb pid of None \<Rightarrow> dget scores pid
     | Some c \<Rightarrow> Some ((case dget scores pid of None \<Rightarrow> 0 | Some x \<Rightarrow> x) + c))"
  using assms
proof (induction plb arbitrary: scores)
  case Nil
  then show ?case by (simp add: add_scores_def dget_def)
next
  case (Cons p plb)
  obtain q c where p: "p = (q, c)" by (cases p)
  let ?s = "dset q ((case dget scores q of None \<Rightarrow> 0 | Some x \<Rightarrow> x) + c) scores"
  have ok: "dict_ok plb" and q: "dget plb q = None"
    using Cons.prems by (simp_all add: p dict_ok_def dget_def map_of_eq_None_iff)
  have "add_scores (p # plb) scores = add_scores plb ?s" by (simp add: add_scores_def p)
  with Cons.IH [OF ok, of ?s] q show ?case
    by (cases "q = pid") (auto simp: p dget_def [of "(q, c) # plb"] dict_simps
        dget_def [symmetric] split: option.split)
qed

lemma add_scores_ok: "dict_ok scores \<Longrightarrow> dict_ok (add_scores plb scores)"
  unfolding add_scores_def
  by (induction plb arbitrary: scores) (auto simp: dict_simps split: prod.splits)

lemma rrf_loop_scores:
  assumes "dict_ok scores"
  shows "dict_ok (fst (rrf_loop lss (scores, bc, br))) \<and>
    dget (fst (rrf_loop lss (scores, bc, br))) pid =
      (if dget scores pid = None \<and> (\<forall>l \<in> set lss. pid \<notin> list_pids l) then None
       else Some ((case dget scores pid of None \<Rightarrow> 0 | Some x \<Rightarrow> x) + rrf_score lss pid))"
  using assms
proof (induction lss arbitrary: scores bc br)
  case Nil
  then show ?case by (auto simp: rrf_score_def split: option.split)
next
  case (Cons l lss)
  obtain plb bc' br' where scan: "rrf_scan 0 l ([], bc, br) = (plb, bc', br')"
    by (metis surj_pair)
  have ok: "dict_ok plb" using scan_dict_ok [of "[]" 0 l bc br] scan by (simp add: dict_simps)
  have get: "dget plb pid = map_option contribution (first_rank pid l)"
    using scan_per_list_best [of "[]" 0 l bc br pid] scan by (simp add: dict_simps)
  have sc: "list_score pid l = (case dget plb pid of None \<Rightarrow> 0 | Some c \<Rightarrow> c)"
    by (simp add: list_score_def get split: option.split)
  have none: "dget plb pid = None \<longleftrightarrow> pid \<notin> list_pids l" by (simp add: get first_rank_None)
  note IH = Cons.IH [OF add_scores_ok [OF Cons.prems], of plb bc' br']
  have score: "rrf_score (l # lss) pid = list_score pid l + rrf_score lss pid"
    by (simp add: rrf_score_def)
  show ?case
    using IH sc none unfolding score
    by (auto simp: scan add_scores_get [OF ok] split: option.splits)
qed


section \<open>The record that is kept\<close>

text \<open>\<open>hit LS pid k r\<close>: some list of \<open>LS\<close> has record \<open>r\<close> of paper \<open>pid\<close> at rank \<open>k\<close>.\<close>

definition hit :: "scored_record list set \<Rightarrow> string \<Rightarrow> nat \<Rightarrow> index_record \<Rightarrow> bool" where
  "hit LS pid k r \<longleftrightarrow> (\<exists>l \<in> LS. k < length l \<and> fst (l ! k) = r \<and> paperId r = pid)"

definition best_inv ::
  "scored_record list set \<Rightarrow> (string, rat) dict \<Rightarrow> (string, index_record) dict \<Rightarrow> string \<Rightarrow> bool" where
  "best_inv LS bc br pid \<longleftrightarrow> (case dget bc pid of
       None \<Rightarrow> dget br pid = None \<and> (\<forall>k r. \<not> hit LS pid k r)
     | Some c \<Rightarrow> (\<exists>r k. dget br pid = Some r \<and> c = contribution k \<and> hit LS pid k r \<and>
                       (\<forall>k' r'. hit LS pid k' r' \<longrightarrow> k \<le> k')))"

lemma hit_snoc:
  "hit (insert (p @ [x]) LS) pid k r \<longleftrightarrow>
   hit (insert p LS) pid k r \<or> (k = length p \<and> r = fst x \<and> paperId r = pid)"
  by (auto simp: hit_def nth_append less_Suc_eq)

lemma hit_empty: "hit (insert [] LS) = hit LS"
  by (auto simp: hit_def fun_eq_iff)

lemma best_inv_step:
  fixes x :: scored_record
  assumes inv: "best_inv (insert p LS) bc br pid"
  defines "c \<equiv> contribution (length p)" and "q \<equiv> paperId (fst x)"
  shows "best_inv (insert (p @ [x]) LS)
           (if better c q bc then dset q c bc else bc)
           (if better c q bc then dset q (fst x) br else br) pid"
proof (cases "q = pid")
  case False
  with inv show ?thesis by (auto simp: best_inv_def hit_snoc dict_simps q_def split: option.splits)
next
  case True
  show ?thesis
  proof (cases "dget bc pid")
    case None
    with inv True show ?thesis
      by (auto simp: best_inv_def better_def dict_simps hit_snoc q_def c_def split: option.splits)
  next
    case (Some b)
    with inv obtain r k where k: "dget br pid = Some r" "b = contribution k"
      "hit (insert p LS) pid k r" "\<forall>k' r'. hit (insert p LS) pid k' r' \<longrightarrow> k \<le> k'"
      by (auto simp: best_inv_def)
    have bt: "better c q bc \<longleftrightarrow> length p < k"
      using Some True k(2) by (simp add: better_def c_def not_le [symmetric] contribution_le_iff)
    show ?thesis
    proof (cases "length p < k")
      case False
      then have "\<forall>k' r'. hit (insert (p @ [x]) LS) pid k' r' \<longrightarrow> k \<le> k'"
        and "hit (insert (p @ [x]) LS) pid k r" using k(3,4) by (auto simp: hit_snoc)
      with bt Some k(1,2) False show ?thesis
        by (simp add: best_inv_def) (rule exI [of _ k], simp)
    next
      case lt: True
      have "hit (insert (p @ [x]) LS) pid (length p) (fst x)" using True by (simp add: hit_snoc q_def)
      moreover have "\<forall>k' r'. hit (insert (p @ [x]) LS) pid k' r' \<longrightarrow> length p \<le> k'"
        using k(4) lt by (auto simp: hit_snoc)
      ultimately show ?thesis using bt lt True by (auto simp: best_inv_def dict_simps c_def)
    qed
  qed
qed

lemma best_inv_scan:
  assumes "best_inv (insert p LS) bc br pid"
  shows "best_inv (insert (p @ l) LS) (fst (snd (rrf_scan (length p) l (plb, bc, br))))
           (snd (snd (rrf_scan (length p) l (plb, bc, br)))) pid"
  using assms
proof (induction l arbitrary: p plb bc br)
  case (Cons x l)
  obtain rec sc where x: "x = (rec, sc)" by (cases x)
  from best_inv_step [OF Cons.prems, of "(rec, sc)"] Cons.IH [of "p @ [(rec, sc)]"] show ?case
    by (auto simp: x Let_def split: if_splits)
qed simp

lemma best_inv_loop:
  assumes "best_inv LS bc br pid"
  shows "best_inv (LS \<union> set lss) (fst (snd (rrf_loop lss (scores, bc, br))))
           (snd (snd (rrf_loop lss (scores, bc, br)))) pid"
  using assms
proof (induction lss arbitrary: LS scores bc br)
  case (Cons l lss)
  obtain plb bc' br' where scan: "rrf_scan 0 l ([], bc, br) = (plb, bc', br')"
    by (metis surj_pair)
  have "best_inv (insert [] LS) bc br pid" using Cons.prems unfolding best_inv_def hit_empty .
  from best_inv_scan [OF this, of l "[]"] scan have "best_inv (insert l LS) bc' br' pid" by simp
  from Cons.IH [OF this] scan show ?case by simp
qed simp

section \<open>Correctness of the fusion\<close>

lemma list_pids_nth: "pid \<in> list_pids l \<longleftrightarrow> (\<exists>k < length l. paperId (fst (l ! k)) = pid)"
  unfolding list_pids_def image_iff comp_apply Bex_def in_set_conv_nth by metis

lemma hit_pids: "(\<exists>k r. hit (set lss) pid k r) \<longleftrightarrow> (\<exists>l \<in> set lss. pid \<in> list_pids l)"
  by (auto simp: hit_def list_pids_nth)

lemma rrf_score_pos: "\<exists>l \<in> set lss. pid \<in> list_pids l \<Longrightarrow> 0 < rrf_score lss pid"
proof (induction lss)
  case (Cons l lss)
  have nn: "0 \<le> list_score pid l'" for l'
    by (auto simp: list_score_def less_imp_le contribution_pos split: option.split)
  have "0 \<le> rrf_score lss pid" unfolding rrf_score_def by (rule sum_list_nonneg) (auto simp: nn)
  moreover have "pid \<in> list_pids l \<Longrightarrow> 0 < list_score pid l"
    by (cases "first_rank pid l") (simp_all add: first_rank_None list_score_def contribution_pos)
  moreover have "rrf_score (l # lss) pid = list_score pid l + rrf_score lss pid"
    by (simp add: rrf_score_def)
  ultimately show ?case using Cons nn [of l]
    by (metis add_nonneg_pos add_pos_nonneg list.set_intros(2) set_ConsD)
qed simp

lemma fusion_unfold:
  obtains scores bc br where "rrf_loop lss ([], [], []) = (scores, bc, br)"
    and "dict_ok scores" and "set (dkeys scores) = (\<Union>l \<in> set lss. list_pids l)"
    and "\<And>pid s. (pid, s) \<in> set scores \<Longrightarrow> s = rrf_score lss pid"
    and "\<And>pid. best_inv (set lss) bc br pid"
proof -
  obtain scores bc br where l: "rrf_loop lss ([], [], []) = (scores, bc, br)" by (metis surj_pair)
  have ok: "dict_ok scores" using rrf_loop_scores [of "[]" lss "[]" "[]"] l by (simp add: dict_simps)
  have get: "dget scores pid = (if \<forall>l \<in> set lss. pid \<notin> list_pids l then None
        else Some (rrf_score lss pid))" for pid
    using rrf_loop_scores [of "[]" lss "[]" "[]" pid] l by (simp add: dict_simps)
  have keys: "set (dkeys scores) = (\<Union>l \<in> set lss. list_pids l)"
  proof (rule set_eqI)
    fix x
    show "x \<in> set (dkeys scores) \<longleftrightarrow> x \<in> (\<Union>l \<in> set lss. list_pids l)"
      using get [of x] dget_None_iff [of scores x] by (simp split: if_splits)
  qed
  have vals: "s = rrf_score lss pid" if "(pid, s) \<in> set scores" for pid s
    using that ok get [of pid] by (simp add: dget_mem split: if_splits)
  have best: "best_inv (set lss) bc br pid" for pid
    using best_inv_loop [of "{}" "[]" "[]" pid lss "[]"] l
    by (simp add: best_inv_def hit_def dict_simps)
  show ?thesis by (rule that [OF l ok keys vals best])
qed

lemma fusion_candidate:
  assumes "c \<in> set (reciprocal_rank_fusion lss)"
  shows "\<exists>k. hit (set lss) (cand_pid c) k (cand_record c) \<and>
           (\<forall>k' r. hit (set lss) (cand_pid c) k' r \<longrightarrow> k \<le> k') \<and>
           retrieval_score c = rrf_score lss (cand_pid c) \<and> ranking_score c = retrieval_score c"
proof (rule fusion_unfold [of lss])
  fix scores bc br
  assume l: "rrf_loop lss ([], [], []) = (scores, bc, br)" and ok: "dict_ok scores"
    and keys: "set (dkeys scores) = (\<Union>l \<in> set lss. list_pids l)"
    and vals: "\<And>pid s. (pid, s) \<in> set scores \<Longrightarrow> s = rrf_score lss pid"
    and best: "\<And>pid. best_inv (set lss) bc br pid"
  from assms l obtain pid s where ps: "(pid, s) \<in> set scores"
    and c: "c = mk_candidate (the (dget br pid)) s None"
    by (auto simp: reciprocal_rank_fusion_def)
  have "pid \<in> set (dkeys scores)" using ps by (force simp: dkeys_def)
  then have "\<exists>k r. hit (set lss) pid k r" using keys by (simp add: hit_pids)
  then obtain b where "dget bc pid = Some b" using best [of pid] by (auto simp: best_inv_def split: option.splits)
  with best [of pid] obtain r k where "dget br pid = Some r" "hit (set lss) pid k r"
    "\<forall>k' r'. hit (set lss) pid k' r' \<longrightarrow> k \<le> k'" by (auto simp: best_inv_def)
  with c vals [OF ps] show ?thesis by (auto simp: hit_def)
qed

lemma fusion_ids:
  "map (\<lambda>c. (cand_pid c, retrieval_score c)) (reciprocal_rank_fusion lss) =
   sort_key rrf_key (fst (rrf_loop lss ([], [], [])))"
proof (rule fusion_unfold [of lss])
  fix scores bc br
  assume l: "rrf_loop lss ([], [], []) = (scores, bc, br)" and ok: "dict_ok scores"
    and keys: "set (dkeys scores) = (\<Union>l \<in> set lss. list_pids l)"
    and best: "\<And>pid. best_inv (set lss) bc br pid"
  have "paperId (the (dget br pid)) = pid" if "(pid, s) \<in> set scores" for pid s
  proof -
    have "pid \<in> set (dkeys scores)" using that by (force simp: dkeys_def)
    then have "\<exists>k r. hit (set lss) pid k r" using keys by (simp add: hit_pids)
    with best [of pid] show ?thesis by (auto simp: best_inv_def hit_def split: option.splits)
  qed
  with l show ?thesis
    by (auto simp: reciprocal_rank_fusion_def comp_def intro!: map_idI)
qed


definition rrf_before :: "candidate \<Rightarrow> candidate \<Rightarrow> bool" where
  "rrf_before a b \<longleftrightarrow> retrieval_score b < retrieval_score a \<or>
     (retrieval_score a = retrieval_score b \<and> cand_pid a < cand_pid b)"

lemma fusion_distinct: "distinct (map cand_pid (reciprocal_rank_fusion lss))"
proof (rule fusion_unfold [of lss])
  fix scores bc br
  assume l: "rrf_loop lss ([], [], []) = (scores, bc, br)" and ok: "dict_ok scores"
  have "map cand_pid (reciprocal_rank_fusion lss) = map fst (sort_key rrf_key scores)"
    using arg_cong [OF fusion_ids [of lss], of "map fst"] l by (simp add: comp_def)
  moreover have "distinct (map fst (sort_key rrf_key scores))"
    using ok by (simp add: dict_ok_def distinct_map inj_on_def)
  ultimately show ?thesis by simp
qed

lemma fusion_pids:
  "set (map cand_pid (reciprocal_rank_fusion lss)) = (\<Union>l \<in> set lss. list_pids l)"
proof (rule fusion_unfold [of lss])
  fix scores bc br
  assume l: "rrf_loop lss ([], [], []) = (scores, bc, br)"
    and keys: "set (dkeys scores) = (\<Union>l \<in> set lss. list_pids l)"
  have "map cand_pid (reciprocal_rank_fusion lss) = map fst (sort_key rrf_key scores)"
    using arg_cong [OF fusion_ids [of lss], of "map fst"] l by (simp add: comp_def)
  then show ?thesis by (simp add: keys [symmetric] dkeys_def)
qed

lemma fusion_sorted: "sorted_wrt rrf_before (reciprocal_rank_fusion lss)"
proof -
  let ?f = "\<lambda>c. (cand_pid c, retrieval_score c)"
  have "sorted (map rrf_key (map ?f (reciprocal_rank_fusion lss)))"
    unfolding fusion_ids by (rule sorted_sort_key)
  then have "sorted_wrt (\<lambda>a b. rrf_key (?f a) \<le> rrf_key (?f b)) (reciprocal_rank_fusion lss)"
    by (simp add: sorted_map comp_def)
  then have "sorted_wrt (\<lambda>a b. rrf_key (?f a) \<le> rrf_key (?f b) \<and> cand_pid a \<noteq> cand_pid b)
      (reciprocal_rank_fusion lss)" using fusion_distinct by (rule sorted_wrt_distinct_key)
  then show ?thesis
    by (rule sorted_wrt_mono_rel [rotated])
       (auto simp: rrf_key_def rrf_before_def less_eq_prod_def)
qed

text \<open>
  C14. Reciprocal rank fusion meets its specification on any result lists: the fused candidates are
  exactly the papers that occur in some list, each exactly once, each scored with the sum over the
  lists of 1/(61 + its first rank), in descending score order with ties broken by paper id.
\<close>

theorem rrf_correct:
  "distinct (map cand_pid (reciprocal_rank_fusion lss)) \<and>
   set (map cand_pid (reciprocal_rank_fusion lss)) = (\<Union>l \<in> set lss. list_pids l) \<and>
   map retrieval_score (reciprocal_rank_fusion lss) =
     map (rrf_score lss) (map cand_pid (reciprocal_rank_fusion lss)) \<and>
   map ranking_score (reciprocal_rank_fusion lss) = map retrieval_score (reciprocal_rank_fusion lss) \<and>
   sorted_wrt rrf_before (reciprocal_rank_fusion lss)"
proof -
  have "retrieval_score c = rrf_score lss (cand_pid c) \<and> ranking_score c = retrieval_score c"
    if "c \<in> set (reciprocal_rank_fusion lss)" for c
    using fusion_candidate [OF that] by blast
  then have "map retrieval_score (reciprocal_rank_fusion lss) =
      map (rrf_score lss) (map cand_pid (reciprocal_rank_fusion lss))"
    and "map ranking_score (reciprocal_rank_fusion lss) =
      map retrieval_score (reciprocal_rank_fusion lss)" by simp_all
  with fusion_distinct fusion_pids fusion_sorted show ?thesis by blast
qed

text \<open>
  The record shown for a paper is real: it is one of the records the stores returned for that
  paper, at a rank no other record of the paper beats in any list.
\<close>

theorem rrf_keeps_best_record:
  assumes "c \<in> set (reciprocal_rank_fusion lss)"
  shows "\<exists>l \<in> set lss. \<exists>k < length l. fst (l ! k) = cand_record c \<and>
     (\<forall>l' \<in> set lss. \<forall>j < length l'. paperId (fst (l' ! j)) = cand_pid c \<longrightarrow> k \<le> j)"
proof -
  obtain k where k: "hit (set lss) (cand_pid c) k (cand_record c)"
    "\<forall>k' r. hit (set lss) (cand_pid c) k' r \<longrightarrow> k \<le> k'"
    using fusion_candidate [OF assms] by blast
  have "k \<le> j" if "l' \<in> set lss" "j < length l'" "paperId (fst (l' ! j)) = cand_pid c" for l' j
    using k(2) that by (auto simp: hit_def)
  with k(1) show ?thesis unfolding hit_def by blast
qed

theorem rrf_keeps_best_record_witness:
  "\<exists>c. c \<in> set (reciprocal_rank_fusion [[(sample_record ''p'', 1)], [(sample_record ''q'', 1)]]) \<and>
     cand_pid c = ''p'' \<and> cand_record c = sample_record ''p''"
proof -
  let ?l = "[[(sample_record ''p'', 1)], [(sample_record ''q'', 1)]] :: scored_record list list"
  have "''p'' \<in> set (map cand_pid (reciprocal_rank_fusion ?l))"
    by (subst fusion_pids) (simp add: list_pids_def)
  then obtain c where c: "c \<in> set (reciprocal_rank_fusion ?l)" "cand_pid c = ''p''" by auto
  have "paperId (sample_record ''q'') \<noteq> cand_pid c" using c(2) by simp
  then have "sample_record ''q'' \<noteq> cand_record c" by metis
  with rrf_keeps_best_record [OF c(1)] c(2) have "cand_record c = sample_record ''p''" by auto
  with c show ?thesis by blast
qed

section \<open>Retrieval\<close>

lemma best_score_max:
  "best_score rs = (if rs = [] then None else Some (Max (snd ` set rs)))"
  by (cases rs) (auto simp: best_score_def Max.set_eq_fold [symmetric])

lemma retrieve_cases:
  assumes "retrieve knn bm25 plan = Inr cs"
  obtains (hybrid) vec kr lr where "plan_mode plan = HYBRID" "embedding_vector plan = Some vec"
      "knn vec RETRIEVAL_TOP_K (plan_scope plan \<noteq> FULL) (plan_years plan) = Inr kr"
      "bm25 (lexical_terms plan) RETRIEVAL_TOP_K
         (if plan_scope plan = FULL then full_fields else lite_fields) (plan_years plan) = Inr lr"
      "cs_candidates cs = reciprocal_rank_fusion [kr, lr]" "best_knn_score cs = best_score kr"
      "cs_retrieval_mode cs = HYBRID"
  | (lexical) lr where "\<not> (plan_mode plan = HYBRID \<and> embedding_vector plan \<noteq> None)"
      "bm25 (lexical_terms plan) RETRIEVAL_TOP_K
         (if plan_scope plan = FULL then full_fields else lite_fields) (plan_years plan) = Inr lr"
      "cs_candidates cs = reciprocal_rank_fusion [lr]" "best_knn_score cs = None"
      "cs_retrieval_mode cs = LEXICAL_RETRIEVAL"
  using assms that
  by (auto simp: retrieve_def Let_def split: if_splits sum.splits)

lemma retrieve_rrf: "retrieve knn bm25 plan = Inr cs \<Longrightarrow> \<exists>lss. cs_candidates cs = reciprocal_rank_fusion lss"
  by (erule retrieve_cases) blast+

end
