(* ===== verification/Search_Ranking.thy ===== *)
theory Search_Ranking imports Search_Retrieval begin

text \<open>
  The ranking stages of discovery: the pure half of cross-encoder reranking
  (\<open>domain/reranker.py\<close>) and \<open>RelevanceRanker\<close> with the bounded personalization boosts
  (\<open>domain/ranker.py\<close>). Shown: reranking keeps the candidates and their order of records, puts
  the un-reranked tail strictly below the reranked head in its fused order; ranking returns the
  sorted prefix; boosts move only the top band, by at most a tenth of a score.
\<close>

section \<open>Reranking\<close>

definition RERANK_TOP_M_LITE :: nat where "RERANK_TOP_M_LITE = 80"

definition RERANK_TOP_M_FULL :: nat where "RERANK_TOP_M_FULL = 100"

definition TAIL_BAND :: rat where "TAIL_BAND = 1 / 1000"

definition rerank_width :: "search_scope \<Rightarrow> nat" where
  "rerank_width scope = (if scope = FULL then RERANK_TOP_M_FULL else RERANK_TOP_M_LITE)"

definition rerank_text :: "index_record \<Rightarrow> string" where
  "rerank_text r = py_strip (py_strip (ir_title r) @ [CHR 0x0A, CHR 0x0A] @ py_strip (ir_abstract r))"

definition py_min :: "rat list \<Rightarrow> rat" where
  "py_min xs = fold min (tl xs) (hd xs)"

definition demote_tail :: "rat \<Rightarrow> rat \<Rightarrow> candidate list \<Rightarrow> candidate list" where
  "demote_tail lo step tail =
     map (\<lambda>(i, c). with_ranking_score (lo - step * (of_nat i + 1)) c) (enumerate 0 tail)"

definition apply_rerank ::
  "candidate list \<Rightarrow> rat list \<Rightarrow> nat \<Rightarrow> search_exn + candidate list" where
  "apply_rerank candidates scores width =
     (let head = take width candidates in
      if length scores \<noteq> length head
      then Inl (ValueError ''rerank score/candidate length mismatch'')
      else if head = [] then Inr candidates
      else let reranked = map2 (\<lambda>c s. with_ranking_score s c) head scores;
               tail = drop width candidates in
           if tail = [] then Inr reranked
           else Inr (reranked @ demote_tail (py_min scores) (TAIL_BAND / of_nat (length tail)) tail))"

lemma py_min_Min: "xs \<noteq> [] \<Longrightarrow> py_min xs = Min (set xs)"
  by (cases xs) (auto simp: py_min_def Min.set_eq_fold [symmetric])

lemma records_map2: "length cs = length ss \<Longrightarrow>
    map cand_record (map2 (\<lambda>c s. with_ranking_score s c) cs ss) = map cand_record cs"
  by (induction cs ss rule: list_induct2) auto

lemma scores_map2: "length cs = length ss \<Longrightarrow>
    map ranking_score (map2 (\<lambda>c s. with_ranking_score s c) cs ss) = ss"
  by (induction cs ss rule: list_induct2) auto

lemma records_demote: "map cand_record (demote_tail f st tail) = map cand_record tail"
  by (rule nth_equalityI) (auto simp: demote_tail_def nth_enumerate_eq)

lemma length_demote [simp]: "length (demote_tail f st tail) = length tail"
  by (simp add: demote_tail_def)

lemma demote_nth: "i < length tail \<Longrightarrow>
    ranking_score (demote_tail f st tail ! i) = f - st * (of_nat i + 1)"
  by (simp add: demote_tail_def nth_enumerate_eq)

lemma apply_rerank_Inr:
  assumes "apply_rerank cs scores w = Inr out"
  shows "length scores = length (take w cs)"
    and "out = (if take w cs = [] then cs
           else map2 (\<lambda>c s. with_ranking_score s c) (take w cs) scores @
                demote_tail (py_min scores) (TAIL_BAND / of_nat (length (drop w cs))) (drop w cs))"
  using assms by (auto simp: apply_rerank_def Let_def demote_tail_def split: if_splits)

lemma apply_rerank_records:
  assumes "apply_rerank cs scores w = Inr out"
  shows "map cand_record out = map cand_record cs"
proof (cases "take w cs = []")
  case True
  with apply_rerank_Inr(2) [OF assms] show ?thesis by simp
next
  case False
  with apply_rerank_Inr [OF assms]
  have "map cand_record out = map cand_record (take w cs) @ map cand_record (drop w cs)"
    by (simp only: if_False map_append records_map2 records_demote)
  then show ?thesis by (simp flip: map_append)
qed

text \<open>
  Folding rerank scores in: it fails exactly when the scores do not align with the reranked
  slice; otherwise no candidate is lost, added or moved, the scored head carries the scores, and the
  tail keeps its fused order in a band strictly below every reranked score and no wider than 1/1000.
\<close>

theorem apply_rerank_correct:
  "(apply_rerank cs scores w = Inl (ValueError ''rerank score/candidate length mismatch'') \<longleftrightarrow>
      length scores \<noteq> min (length cs) w) \<and>
   (\<forall>out. apply_rerank cs scores w = Inr out \<longrightarrow>
      map cand_record out = map cand_record cs \<and>
      map ranking_score (take w out) = scores \<and>
      (\<forall>i j. i < length scores \<and> length scores \<le> j \<and> j < length out \<longrightarrow>
         ranking_score (out ! j) < ranking_score (out ! i)) \<and>
      (\<forall>j k. 0 < w \<and> w \<le> j \<and> j < k \<and> k < length out \<longrightarrow>
         ranking_score (out ! k) < ranking_score (out ! j)) \<and>
      (\<forall>j. 0 < w \<and> w \<le> j \<and> j < length out \<longrightarrow>
         Min (set scores) - TAIL_BAND \<le> ranking_score (out ! j)))"
proof (intro conjI allI impI)
  show "apply_rerank cs scores w = Inl (ValueError ''rerank score/candidate length mismatch'') \<longleftrightarrow>
      length scores \<noteq> min (length cs) w"
    by (auto simp: apply_rerank_def Let_def)
next
  fix out assume o: "apply_rerank cs scores w = Inr out"
  show "map cand_record out = map cand_record cs" by (rule apply_rerank_records [OF o])
  let ?head = "take w cs" and ?tail = "drop w cs"
  let ?re = "map2 (\<lambda>c s. with_ranking_score s c) ?head scores"
  let ?st = "TAIL_BAND / of_nat (length ?tail)"
  have len: "length scores = length ?head" by (rule apply_rerank_Inr(1) [OF o])
  then have lr: "length ?re = length scores" by simp
  have sc: "map ranking_score ?re = scores" using len by (intro scores_map2) simp
  have out: "out = (if ?head = [] then cs else ?re @ demote_tail (py_min scores) ?st ?tail)"
    by (rule apply_rerank_Inr(2) [OF o])
  have w: "length out > length scores \<Longrightarrow> ?head \<noteq> [] \<Longrightarrow> length scores = w"
    using len out by (auto simp: min_def split: if_splits)
  show "map ranking_score (take w out) = scores"
  proof (cases "?head = []")
    case True
    with len out show ?thesis by (auto simp: take_eq_Nil)
  next
    case False
    then show ?thesis using out sc len by (cases "length cs \<le> w") (auto simp: demote_tail_def)
  qed
  have head: "ranking_score (out ! i) = scores ! i" if "i < length scores" for i
  proof -
    have "?head \<noteq> []" using that len by auto
    then have "out ! i = ?re ! i" using that lr out by (simp add: nth_append)
    then show ?thesis using sc that lr by (metis nth_map)
  qed
  have tail: "ranking_score (out ! j) = py_min scores - ?st * (of_nat (j - length scores) + 1)"
    if "length scores \<le> j" "j < length out" "?head \<noteq> []" for j
  proof -
    have "out ! j = demote_tail (py_min scores) ?st ?tail ! (j - length scores)"
      using that lr out by (simp add: nth_append)
    then show ?thesis using that out lr by (subst demote_nth [symmetric]) auto
  qed
  have stpos: "0 < ?st" if "length scores < length out" "?head \<noteq> []"
    using that out lr by (auto simp: TAIL_BAND_def min_def split: if_splits)
  have pm: "py_min scores = Min (set scores)" if "?head \<noteq> []"
    using that len by (metis length_0_conv py_min_Min)
  {
    fix i j assume ij: "i < length scores \<and> length scores \<le> j \<and> j < length out"
    then have ne: "?head \<noteq> []" using len by auto
    have "Min (set scores) \<le> scores ! i" using ij by (intro Min_le) auto
    moreover have "0 < ?st * (of_nat (j - length scores) + 1)"
      using stpos ij ne by (intro mult_pos_pos) auto
    moreover note head [of i] tail [of j, OF _ _ ne] pm [OF ne]
    ultimately show "ranking_score (out ! j) < ranking_score (out ! i)"
      using ij by (metis add_diff_cancel_right' diff_less_eq less_add_same_cancel1 order_less_le_trans)
  next
    fix j k assume jk: "0 < w \<and> w \<le> j \<and> j < k \<and> k < length out"
    then have lc: "length cs = length out" using apply_rerank_records [OF o] by (metis length_map)
    then have "cs \<noteq> []" using jk by auto
    then have ne: "?head \<noteq> []" using jk by (simp add: take_eq_Nil)
    have lw: "length scores = w" using jk len lc by simp
    have "?st * (of_nat (j - length scores) + 1) < ?st * (of_nat (k - length scores) + 1)"
      using stpos jk ne lw by (intro mult_strict_left_mono) auto
    then show "ranking_score (out ! k) < ranking_score (out ! j)" using jk ne lw tail by simp
  next
    fix j assume j: "0 < w \<and> w \<le> j \<and> j < length out"
    then have lc: "length cs = length out" using apply_rerank_records [OF o] by (metis length_map)
    then have "cs \<noteq> []" using j by auto
    then have ne: "?head \<noteq> []" using j by (simp add: take_eq_Nil)
    have lw: "length scores = w" using j len lc by simp
    have "of_nat (j - length scores) + 1 \<le> (of_nat (length ?tail) :: rat)"
      using j lw lc by (simp flip: of_nat_Suc)
    then have "?st * (of_nat (j - length scores) + 1) \<le> ?st * of_nat (length ?tail)"
      using stpos j ne lw by (intro mult_left_mono) auto
    also have "\<dots> = TAIL_BAND" using j lw lc by simp
    finally show "Min (set scores) - TAIL_BAND \<le> ranking_score (out ! j)"
      using j ne lw tail pm by simp
  }
qed

text \<open>The statement has implications, so it comes with a concrete instance.\<close>

definition sample_candidates :: "candidate list" where
  "sample_candidates =
     [mk_candidate (sample_record ''a'') (3/10) None, mk_candidate (sample_record ''b'') (2/10) None,
      mk_candidate (sample_record ''c'') (1/10) None]"

theorem apply_rerank_correct_witness:
  "\<exists>out. apply_rerank sample_candidates [1/4, 1/2] 2 = Inr out \<and>
     ranking_score (out ! 2) < ranking_score (out ! 0) \<and> map cand_pid out = [''a'', ''b'', ''c'']"
proof -
  obtain out where out: "apply_rerank sample_candidates [1/4, 1/2] 2 = Inr out"
    by (auto simp: apply_rerank_def sample_candidates_def)
  have rec: "map cand_record out = map cand_record sample_candidates"
    using apply_rerank_correct [of sample_candidates "[1/4, 1/2]" 2] out by blast
  from arg_cong [OF rec, of length] have len: "length out = 3" by (simp add: sample_candidates_def)
  have "\<forall>i j. i < length [1/4, 1/2 :: rat] \<and> length [1/4, 1/2 :: rat] \<le> j \<and> j < length out \<longrightarrow>
      ranking_score (out ! j) < ranking_score (out ! i)"
    using apply_rerank_correct [of sample_candidates "[1/4, 1/2]" 2] out by blast
  from this [rule_format, of 0 2] len have "ranking_score (out ! 2) < ranking_score (out ! 0)" by simp
  moreover have "map cand_pid out = map paperId (map cand_record out)" by simp
  then have "map cand_pid out = [''a'', ''b'', ''c'']" unfolding rec by (simp add: sample_candidates_def)
  ultimately show ?thesis using out by (intro exI [of _ out]) simp
qed

section \<open>Ranking and personalization boosts\<close>

definition TOP_N :: int where "TOP_N = 20"

text \<open>The sort key \<open>(-ranking_score, paperId)\<close>.\<close>

definition rank_key :: "candidate \<Rightarrow> rat \<times> string" where
  "rank_key c = (- ranking_score c, cand_pid c)"

definition rank_candidates :: "candidate_set \<Rightarrow> int \<Rightarrow> ranked_results" where
  "rank_candidates cs top_n =
     \<lparr>ranked = py_prefix top_n (sort_key rank_key (cs_candidates cs)),
      ranking_mode = ''baseline'', personalized = False\<rparr>"

definition BR_P8_BOOST_CEILING :: rat where "BR_P8_BOOST_CEILING = 1 / 10"

definition BOOST_TOP_FRACTION :: rat where "BOOST_TOP_FRACTION = 3 / 10"

record shadow_diff =
  positions_changed :: nat
  max_shift :: nat
  boosted_count :: nat

type_synonym boosts = "(string, rat) dict"

fun first_category :: "boosts \<Rightarrow> string list \<Rightarrow> rat option" where
  "first_category bs [] = None"
| "first_category bs (cat # cats) =
     (case dget bs cat of Some b \<Rightarrow> Some b | None \<Rightarrow> first_category bs cats)"

definition record_boost :: "index_record \<Rightarrow> boosts \<Rightarrow> rat" where
  "record_boost r bs = (case first_category bs (categories r) of
      Some b \<Rightarrow> max (- BR_P8_BOOST_CEILING) (min BR_P8_BOOST_CEILING b)
    | None \<Rightarrow> 0)"

definition boosted :: "boosts \<Rightarrow> candidate \<Rightarrow> rat" where
  "boosted bs c = ranking_score c + abs (ranking_score c) * record_boost (cand_record c) bs"

definition boost_key :: "boosts \<Rightarrow> candidate \<Rightarrow> rat \<times> string" where
  "boost_key bs c = (- boosted bs c, cand_pid c)"

text \<open>The dictionary comprehension \<open>new_pos\<close>: a repeated id keeps its last position.\<close>

definition new_pos :: "candidate list \<Rightarrow> (string, nat) dict" where
  "new_pos reordered = fold (\<lambda>(i, c) d. dset (cand_pid c) i d) (enumerate 0 reordered) []"

definition nat_dist :: "nat \<Rightarrow> nat \<Rightarrow> nat" where
  "nat_dist a b = nat \<bar>int a - int b\<bar>"

definition shifts :: "candidate list \<Rightarrow> candidate list \<Rightarrow> nat list" where
  "shifts head reordered =
     (let pos = new_pos reordered
      in map (\<lambda>(i, c). nat_dist (the (dget pos (cand_pid c))) i) (enumerate 0 head))"

definition boost_band :: "nat \<Rightarrow> rat \<Rightarrow> nat" where
  "boost_band n top_fraction = nat (min (int n) (max 2 (ceiling (of_nat n * top_fraction))))"

definition apply_boosts ::
  "ranked_results \<Rightarrow> boosts \<Rightarrow> rat \<Rightarrow> ranked_results \<times> shadow_diff" where
  "apply_boosts rr bs top_fraction =
     (let items = ranked rr;
          n = length items;
          none = \<lparr>positions_changed = 0, max_shift = 0, boosted_count = 0\<rparr>
      in if n < 2 \<or> bs = [] then (rr, none)
         else let band = boost_band n top_fraction;
                  head = take band items;
                  cnt = length (filter (\<lambda>c. record_boost (cand_record c) bs \<noteq> 0) head)
              in if cnt = 0 then (rr, none)
                 else let reordered = sort_key (boost_key bs) head;
                          sh = shifts head reordered
                      in (\<lparr>ranked = reordered @ drop band items, ranking_mode = ranking_mode rr,
                           personalized = False\<rparr>,
                          \<lparr>positions_changed = length (filter (\<lambda>d. d \<noteq> 0) sh),
                           max_shift = Max (set (0 # sh)), boosted_count = cnt\<rparr>))"

definition shadow_rerank_diff :: "ranked_results \<Rightarrow> boosts \<Rightarrow> rat \<Rightarrow> shadow_diff" where
  "shadow_rerank_diff rr bs top_fraction = snd (apply_boosts rr bs top_fraction)"

lemma record_boost_bound: "\<bar>record_boost r bs\<bar> \<le> BR_P8_BOOST_CEILING"
  by (auto simp: record_boost_def BR_P8_BOOST_CEILING_def split: option.split)

lemma boosted_bound: "\<bar>boosted bs c - ranking_score c\<bar> \<le> \<bar>ranking_score c\<bar> * BR_P8_BOOST_CEILING"
proof -
  have "\<bar>boosted bs c - ranking_score c\<bar> = \<bar>ranking_score c\<bar> * \<bar>record_boost (cand_record c) bs\<bar>"
    by (simp add: boosted_def abs_mult)
  then show ?thesis using record_boost_bound by (simp add: mult_left_mono)
qed

lemma boosted_direction:
  "0 < record_boost (cand_record c) bs \<Longrightarrow> ranking_score c \<le> boosted bs c"
  "record_boost (cand_record c) bs < 0 \<Longrightarrow> boosted bs c \<le> ranking_score c"
  by (auto simp: boosted_def mult_nonneg_nonpos)

lemma apply_boosts_ranked:
  "ranked (fst (apply_boosts rr bs f)) = ranked rr \<or>
   ranked (fst (apply_boosts rr bs f)) =
     sort_key (boost_key bs) (take (boost_band (length (ranked rr)) f) (ranked rr)) @
     drop (boost_band (length (ranked rr)) f) (ranked rr)"
  by (simp add: apply_boosts_def Let_def)

lemma boost_band_default: "boost_band 20 BOOST_TOP_FRACTION = 6" "boost_band 3 BOOST_TOP_FRACTION = 2"
  by (simp_all add: boost_band_def BOOST_TOP_FRACTION_def ceiling_divide_eq_div_numeral)

text \<open>
  The ranker returns the best \<open>n\<close> candidates: its output, extended by what it cut off,
  is a permutation of the candidate set, in order of descending ranking score with ties by paper
  id, and it has all \<open>n\<close> of them when there are that many.
\<close>

theorem rank_correct:
  "\<exists>rest. mset (ranked (rank_candidates cs (int n)) @ rest) = mset (cs_candidates cs) \<and>
     sorted (map rank_key (ranked (rank_candidates cs (int n)) @ rest)) \<and>
     length (ranked (rank_candidates cs (int n))) = min n (length (cs_candidates cs)) \<and>
     \<not> personalized (rank_candidates cs (int n))"
proof -
  let ?s = "sort_key rank_key (cs_candidates cs)"
  have r: "ranked (rank_candidates cs (int n)) = take n ?s" by (simp add: rank_candidates_def py_prefix_def)
  show ?thesis
    by (rule exI [of _ "drop n ?s"])
       (simp only: r append_take_drop_id mset_sort sorted_sort_key length_take length_sort,
        simp add: rank_candidates_def min.commute)
qed

lemma boosts_tail:
  "drop (boost_band (length (ranked rr)) f) (ranked (fst (apply_boosts rr bs f))) =
   drop (boost_band (length (ranked rr)) f) (ranked rr)"
proof -
  have "boost_band (length (ranked rr)) f \<le> length (ranked rr)" by (simp add: boost_band_def)
  then show ?thesis using apply_boosts_ranked [of rr bs f] by auto
qed

lemma boosts_mset: "mset (ranked (fst (apply_boosts rr bs f))) = mset (ranked rr)"
  using apply_boosts_ranked [of rr bs f]
  by (metis append_take_drop_id mset_append mset_sort)

lemma new_pos_nth:
  "distinct (map cand_pid xs) \<Longrightarrow> i < length xs \<Longrightarrow> dget (new_pos xs) (cand_pid (xs ! i)) = Some i"
proof (induction xs rule: rev_induct)
  case (snoc x xs)
  have "new_pos (xs @ [x]) = dset (cand_pid x) (length xs) (new_pos xs)"
    by (simp add: new_pos_def enumerate_append_eq)
  moreover have "cand_pid x \<notin> cand_pid ` set xs" using snoc.prems(1) by simp
  then have "i < length xs \<Longrightarrow> cand_pid (xs ! i) \<noteq> cand_pid x" by (metis imageI nth_mem)
  ultimately show ?case using snoc by (auto simp: dict_simps nth_append less_Suc_eq)
qed simp

lemma shifts_zero_iff:
  assumes "distinct (map cand_pid head)" and "mset reordered = mset head"
  shows "(\<forall>d \<in> set (shifts head reordered). d = 0) \<longleftrightarrow> reordered = head"
proof
  have len: "length reordered = length head" using assms(2) by (metis size_mset)
  have dr: "distinct (map cand_pid reordered)"
    using assms by (metis mset_eq_imp_distinct_iff mset_map)
  have at: "\<exists>j. j < length head \<and> reordered ! j = head ! i \<and>
      dget (new_pos reordered) (cand_pid (head ! i)) = Some j" if "i < length head" for i
  proof -
    have "head ! i \<in> set reordered" using that assms(2) by (metis nth_mem mset_eq_setD)
    then obtain j where "j < length head" "reordered ! j = head ! i" using len by (metis in_set_conv_nth)
    then show ?thesis using new_pos_nth [OF dr, of j] len by auto
  qed
  {
    assume z: "\<forall>d \<in> set (shifts head reordered). d = 0"
    show "reordered = head"
    proof (rule nth_equalityI [OF len])
      fix i assume "i < length reordered"
      then have i: "i < length head" using len by simp
      then have "nat_dist (the (dget (new_pos reordered) (cand_pid (head ! i)))) i \<in> set (shifts head reordered)"
        by (auto simp: shifts_def in_set_enumerate_eq image_iff intro!: bexI [of _ "(i, head ! i)"])
      with z have "nat_dist (the (dget (new_pos reordered) (cand_pid (head ! i)))) i = 0" by blast
      then show "reordered ! i = head ! i" using at [OF i] by (auto simp: nat_dist_def)
    qed
  }
  {
    assume "reordered = head"
    then show "\<forall>d \<in> set (shifts head reordered). d = 0"
      using new_pos_nth [OF assms(1)] by (auto simp: shifts_def in_set_enumerate_eq nat_dist_def)
  }
qed

text \<open>
  Personalization only nudges: boosting permutes the page, leaves everything below the top band
  untouched, and moves a score by at most a tenth of its own magnitude, always towards the sign of
  the boost, for negative scores too.
\<close>

theorem apply_boosts_bounded:
  "mset (ranked (fst (apply_boosts rr bs f))) = mset (ranked rr) \<and>
   drop (boost_band (length (ranked rr)) f) (ranked (fst (apply_boosts rr bs f))) =
     drop (boost_band (length (ranked rr)) f) (ranked rr) \<and>
   \<bar>boosted bs c - ranking_score c\<bar> \<le> \<bar>ranking_score c\<bar> * (1 / 10) \<and>
   0 \<le> (boosted bs c - ranking_score c) * record_boost (cand_record c) bs"
proof (intro conjI)
  show "\<bar>boosted bs c - ranking_score c\<bar> \<le> \<bar>ranking_score c\<bar> * (1 / 10)"
    using boosted_bound [of bs c] by (simp add: BR_P8_BOOST_CEILING_def)
  show "0 \<le> (boosted bs c - ranking_score c) * record_boost (cand_record c) bs"
    by (simp add: boosted_def mult.assoc zero_le_mult_iff zero_le_square linorder_linear)
qed (rule boosts_mset boosts_tail)+

text \<open>
  The movement metric is honest: on a page without repeated paper ids the diff reports no moved
  position exactly when the returned order is the baseline order, and then no shift either.
\<close>

theorem shadow_diff_zero_iff:
  assumes "distinct (map cand_pid (ranked rr))"
  shows "(positions_changed (shadow_rerank_diff rr bs f) = 0 \<longleftrightarrow>
      ranked (fst (apply_boosts rr bs f)) = ranked rr) \<and>
    (max_shift (shadow_rerank_diff rr bs f) = 0 \<longleftrightarrow>
      positions_changed (shadow_rerank_diff rr bs f) = 0)"
proof -
  let ?b = "boost_band (length (ranked rr)) f"
  let ?head = "take ?b (ranked rr)" and ?re = "sort_key (boost_key bs) (take ?b (ranked rr))"
  have d: "distinct (map cand_pid ?head)" using assms by (simp add: take_map [symmetric])
  have z: "(\<forall>d \<in> set (shifts ?head ?re). d = 0) \<longleftrightarrow> ?re = ?head" by (rule shifts_zero_iff [OF d]) simp
  have eq: "?re @ drop ?b (ranked rr) = ranked rr \<longleftrightarrow> ?re = ?head"
    by (metis append_take_drop_id same_append_eq append_same_eq)
  have m: "Max (set (0 # ns)) = 0 \<longleftrightarrow> (\<forall>d \<in> set ns. d = 0)" for ns :: "nat list"
    by (subst Max_eq_iff) auto
  show ?thesis
    unfolding shadow_rerank_diff_def apply_boosts_def Let_def
    by (simp add: z eq m filter_empty_conv del: list.set(2))
qed

definition sample_ranked :: ranked_results where
  "sample_ranked =
     \<lparr>ranked = sample_candidates, ranking_mode = ''baseline'', personalized = False\<rparr>"

lemma sample_boosts:
  "boosted [(''cs.LG'', 1/2)] (mk_candidate (sample_record p) s None) = s + \<bar>s\<bar> * (1 / 10)"
  by (simp add: boosted_def record_boost_def dget_Cons BR_P8_BOOST_CEILING_def)

theorem shadow_diff_zero_iff_witness:
  "positions_changed (shadow_rerank_diff sample_ranked [(''cs.LG'', 1/2)] BOOST_TOP_FRACTION) = 0"
proof -
  have "sorted (map (boost_key [(''cs.LG'', 1/2)]) (take 2 sample_candidates))"
    by (simp add: sample_candidates_def boost_key_def sample_boosts less_eq_prod_def)
  note sorted_head = sort_key_sorted [OF this]
  have band: "boost_band (length (ranked sample_ranked)) BOOST_TOP_FRACTION = 2"
    using boost_band_default(2) by (simp add: sample_ranked_def sample_candidates_def eval_nat_numeral)
  have items: "ranked sample_ranked = sample_candidates" by (simp add: sample_ranked_def)
  have "ranked (fst (apply_boosts sample_ranked [(''cs.LG'', 1/2)] BOOST_TOP_FRACTION)) = ranked sample_ranked"
    using apply_boosts_ranked [of sample_ranked "[(''cs.LG'', 1/2)]" BOOST_TOP_FRACTION, unfolded items]
    by (simp add: items band [unfolded items] sorted_head)
  moreover have "distinct (map cand_pid (ranked sample_ranked))"
    by (simp add: sample_ranked_def sample_candidates_def)
  ultimately show ?thesis using shadow_diff_zero_iff by blast
qed

end
