(* ===== verification/Search_Assembly.thy ===== *)
theory Search_Assembly imports Search_Ranking begin

text \<open>
  The end of the search pipeline: \<open>GroundingAdapter\<close> (\<open>domain/grounding_adapter.py\<close>) shapes
  the input of the grounding gate and maps its verdict; \<open>ResultAssembler\<close>
  (\<open>domain/assembler.py\<close>) projects the candidates to cards. Shown: every card of a response
  shows a candidate of the grounded result under a resolvable link, the cards are numbered from 1
  in order, and a refusal never carries a card.
\<close>

section \<open>The grounding adapter\<close>

definition ABSTAIN_GROUNDING :: string where "ABSTAIN_GROUNDING = ''no_grounded_results''"

definition to_grounding_input :: "ranked_results \<Rightarrow> grounding_input" where
  "to_grounding_input rr = \<lparr>candidate_response = rr, retrieved_records = map cand_record (ranked rr)\<rparr>"

definition map_decision :: "string \<Rightarrow> ranked_results \<Rightarrow> search_result" where
  "map_decision verd rr =
     (if verd = ''pass'' then GroundedResults (ranked rr) else AbstainResult ABSTAIN_GROUNDING)"

section \<open>The assembler\<close>

definition make_card :: "candidate \<Rightarrow> nat \<Rightarrow> result_card" where
  "make_card c pos =
     (let r = cand_record c; (source_name, source_url) = source_ref r in
      \<lparr>rc_title = ir_title r, rc_authors = ir_authors r, rc_year = ir_year r, rc_arxivId = ir_arxivId r,
       rc_abstractSnippet = ir_abstractSnippet r, rc_relevance = pos, rc_arxivUrl = safe_url (ir_arxivUrl r),
       rc_sourceName = source_name, rc_sourceUrl = safe_url source_url\<rparr>)"

definition empty_page :: search_response where
  "empty_page = SearchResultPage []
     \<lparr>resultCount = 0, rm_degraded = False, degradationMode = None, rm_personalized = None\<rparr>"

definition assemble :: "search_result \<Rightarrow> degrade_mode \<Rightarrow> bool \<Rightarrow> search_response" where
  "assemble result mode pers =
     (case result of
        AbstainResult reason \<Rightarrow> Abstain reason
      | NoMatchResult \<Rightarrow> empty_page
      | GroundedResults items \<Rightarrow>
          (let grounded = filter (\<lambda>c. record_has_link (cand_record c)) items in
           if grounded = [] then empty_page
           else let cards = map (\<lambda>(i, c). make_card c (i + 1)) (enumerate 0 grounded);
                    flag = (if pers then Some True else None)
                in if mode = NORMAL
                   then SearchResultPage cards
                     \<lparr>resultCount = length cards, rm_degraded = False, degradationMode = None,
                      rm_personalized = flag\<rparr>
                   else DegradedResult cards
                     \<lparr>resultCount = length cards, rm_degraded = True, degradationMode = Some mode,
                      rm_personalized = flag\<rparr> mode))"

fun response_meta :: "search_response \<Rightarrow> result_meta option" where
  "response_meta (SearchResultPage _ m) = Some m"
| "response_meta (DegradedResult _ m _) = Some m"
| "response_meta _ = None"

definition result_items :: "search_result \<Rightarrow> candidate list" where
  "result_items r = (case r of GroundedResults items \<Rightarrow> items | _ \<Rightarrow> [])"

lemma enumerate_cards:
  "map (\<lambda>(i, c). f c (Suc i)) (enumerate 0 xs) = map (\<lambda>i. f (xs ! i) (Suc i)) [0..<length xs]"
  by (rule nth_equalityI) (simp_all add: nth_enumerate_eq)

lemma assemble_cards:
  "response_cards (assemble result mode pers) =
     (let grounded = filter (\<lambda>c. record_has_link (cand_record c)) (result_items result)
      in map (\<lambda>i. make_card (grounded ! i) (i + 1)) [0..<length grounded])"
  by (cases result)
     (auto simp: assemble_def result_items_def empty_page_def Let_def enumerate_cards filter_empty_conv)

lemma assemble_meta:
  "(case response_meta (assemble result mode pers) of
      None \<Rightarrow> response_cards (assemble result mode pers) = []
    | Some m \<Rightarrow> resultCount m = length (response_cards (assemble result mode pers)))"
  by (cases result) (auto simp: assemble_def empty_page_def Let_def)

lemma card_fields:
  "rc_relevance (make_card c n) = n" "rc_arxivId (make_card c n) = ir_arxivId (cand_record c)"
  "rc_title (make_card c n) = ir_title (cand_record c)"
  "rc_sourceUrl (make_card c n) = safe_url (snd (source_ref (cand_record c)))"
  "rc_arxivUrl (make_card c n) = safe_url (ir_arxivUrl (cand_record c))"
  by (simp_all add: make_card_def Let_def case_prod_beta)

text \<open>
  The structural guard of the assembler: the cards are the linked candidates of the grounded
  result, in order and numbered from 1; each shows a resolvable source link and no link of another
  scheme; the count in the meta data is the number of cards.
\<close>

theorem assemble_correct:
  "map rc_relevance (response_cards (assemble result mode pers)) =
     [1..<Suc (length (response_cards (assemble result mode pers)))] \<and>
   map rc_arxivId (response_cards (assemble result mode pers)) =
     map (\<lambda>c. ir_arxivId (cand_record c))
       (filter (\<lambda>c. record_has_link (cand_record c)) (result_items result)) \<and>
   list_all (\<lambda>k. is_resolvable (rc_sourceUrl k) \<and> (is_resolvable (rc_arxivUrl k) \<or> rc_arxivUrl k = []))
     (response_cards (assemble result mode pers)) \<and>
   (case response_meta (assemble result mode pers) of
      None \<Rightarrow> response_cards (assemble result mode pers) = []
    | Some m \<Rightarrow> resultCount m = length (response_cards (assemble result mode pers)))"
proof (intro conjI)
  let ?g = "filter (\<lambda>c. record_has_link (cand_record c)) (result_items result)"
  have cards: "response_cards (assemble result mode pers) = map (\<lambda>i. make_card (?g ! i) (i + 1)) [0..<length ?g]"
    by (simp add: assemble_cards Let_def)
  show "map rc_relevance (response_cards (assemble result mode pers)) =
      [1..<Suc (length (response_cards (assemble result mode pers)))]"
    unfolding cards by (rule nth_equalityI) (simp_all add: card_fields del: upt_Suc)
  show "map rc_arxivId (response_cards (assemble result mode pers)) = map (\<lambda>c. ir_arxivId (cand_record c)) ?g"
    unfolding cards by (rule nth_equalityI) (simp_all add: card_fields)
  have "record_has_link (cand_record (?g ! i))" if "i < length ?g" for i
    using nth_mem [OF that] by simp
  then show "list_all (\<lambda>k. is_resolvable (rc_sourceUrl k) \<and> (is_resolvable (rc_arxivUrl k) \<or> rc_arxivUrl k = []))
     (response_cards (assemble result mode pers))"
    unfolding cards using safe_url_resolvable
    by (auto simp: list_all_iff card_fields safe_url_source record_has_link_def [symmetric])
qed (rule assemble_meta)

text \<open>
  A refusal shows nothing: unless the verdict is a pass, the response is the abstention with
  the generic reason, and it has no cards.
\<close>

theorem refusal_has_no_cards:
  assumes "verd \<noteq> ''pass''"
  shows "assemble (map_decision verd rr) mode pers = Abstain ABSTAIN_GROUNDING \<and>
         response_cards (assemble (map_decision verd rr) mode pers) = []"
  using assms by (simp add: map_decision_def assemble_def)

theorem refusal_has_no_cards_witness:
  "assemble (map_decision ''block'' sample_ranked) NORMAL False = Abstain ABSTAIN_GROUNDING"
  using refusal_has_no_cards [of "''block''" sample_ranked NORMAL False] by simp

end
