(* ===== verification/Py_Value.thy ===== *)
theory Py_Value imports Py_Text begin

text \<open>
  Untyped Python values, for the duck-typed operations components (grounding gate, telemetry
  payloads, health probes): dictionaries with text keys, objects with attributes, sequences,
  numbers, texts and instants (an aware \<open>datetime\<close>, in seconds), with truth testing, \<open>get\<close> and iteration. A boolean is not an integer
  here: the sources never compare the two.
\<close>

section \<open>Values\<close>

datatype pyval =
    PNone
  | PBool bool
  | PInt int
  | PFloat rat
  | PStr string
  | PTime rat
  | PSeq "pyval list"
  | PDict "(string \<times> pyval) list"
  | PObj "(string \<times> pyval) list"

fun py_truthy :: "pyval \<Rightarrow> bool" where
  "py_truthy PNone = False"
| "py_truthy (PBool b) = b"
| "py_truthy (PInt n) = (n \<noteq> 0)"
| "py_truthy (PFloat x) = (x \<noteq> 0)"
| "py_truthy (PStr s) = (s \<noteq> [])"
| "py_truthy (PTime t) = True"
| "py_truthy (PSeq xs) = (xs \<noteq> [])"
| "py_truthy (PDict d) = (d \<noteq> [])"
| "py_truthy (PObj _) = True"

text \<open>\<open>str(value)\<close>; the rendering of a value that is not a text is left open by the source.\<close>

definition py_str :: "(pyval \<Rightarrow> string) \<Rightarrow> pyval \<Rightarrow> string" where
  "py_str other v = (case v of PStr s \<Rightarrow> s | _ \<Rightarrow> other v)"

text \<open>\<open>d.get(key)\<close> of a dictionary of values.\<close>

definition pget :: "(string \<times> pyval) list \<Rightarrow> string \<Rightarrow> pyval" where
  "pget d key = (case dget d key of None \<Rightarrow> PNone | Some v \<Rightarrow> v)"

text \<open>\<open>a or b\<close>\<close>

definition py_or :: "pyval \<Rightarrow> pyval \<Rightarrow> pyval" where
  "py_or a b = (if py_truthy a then a else b)"

text \<open>\<open>_get\<close>: a key of a dictionary or an attribute of an object, else \<open>None\<close>.\<close>

definition get_field :: "pyval \<Rightarrow> string \<Rightarrow> pyval" where
  "get_field value fld = (case value of
      PDict d \<Rightarrow> pget d fld
    | PObj d \<Rightarrow> pget d fld
    | _ \<Rightarrow> PNone)"

text \<open>
  \<open>tuple(value)\<close>: iterating a text yields its characters, a dictionary its keys, and a value
  that cannot be iterated raises (\<open>None\<close>).
\<close>

fun py_tuple :: "pyval \<Rightarrow> pyval list option" where
  "py_tuple (PSeq xs) = Some xs"
| "py_tuple (PStr s) = Some (map (\<lambda>c. PStr [c]) s)"
| "py_tuple (PDict d) = Some (map (\<lambda>kv. PStr (fst kv)) d)"
| "py_tuple _ = None"

end
