(* ===== verification/Ops_Cost.thy ===== *)
theory Ops_Cost imports Py_Value begin

text \<open>
  The cost guard of the platform (\<open>ops/src/docsuri_ops/cost_guard.py\<close>) and the bounded
  membership set it and every other consumer of at-least-once events deduplicates with
  (\<open>_dedup.py\<close>). The interface \<open>seen_set\<close> states what those consumers rely on; the client
  fact proved from it is that consuming the same key twice is consuming it once. Shown for the
  guard: each event is counted once, the degrade mode never relaxes, and the tiers, the circuit
  and the two gate predicates agree on the thresholds.
\<close>

section \<open>BoundedSeen\<close>

record bounded_seen =
  seen_keys :: "string list"
  seen_max :: nat

definition new_seen :: "nat \<Rightarrow> bounded_seen" where
  "new_seen n = \<lparr>seen_keys = [], seen_max = n\<rparr>"

definition DEFAULT_SEEN_MAX :: nat where "DEFAULT_SEEN_MAX = 100000"

definition seen_contains :: "bounded_seen \<Rightarrow> string \<Rightarrow> bool" where
  "seen_contains s key = (key \<in> set (seen_keys s))"

definition seen_add :: "string \<Rightarrow> bounded_seen \<Rightarrow> bounded_seen" where
  "seen_add key s =
     (if seen_contains s key then s
      else let keys = seen_keys s @ [key] in
           s\<lparr>seen_keys := (if length keys > seen_max s then tl keys else keys)\<rparr>)"

definition seen_clear :: "bounded_seen \<Rightarrow> bounded_seen" where
  "seen_clear s = s\<lparr>seen_keys := []\<rparr>"

definition seen_len :: "bounded_seen \<Rightarrow> nat" where
  "seen_len s = length (seen_keys s)"

definition seen_ok :: "bounded_seen \<Rightarrow> bool" where
  "seen_ok s \<longleftrightarrow> distinct (seen_keys s) \<and> length (seen_keys s) \<le> seen_max s \<and> 1 \<le> seen_max s"

section \<open>The interface of the deduplicating consumers\<close>

definition consume_once ::
  "('s \<Rightarrow> string \<Rightarrow> bool) \<Rightarrow> (string \<Rightarrow> 's \<Rightarrow> 's) \<Rightarrow> string \<Rightarrow> ('t \<Rightarrow> 't) \<Rightarrow> 's \<times> 't \<Rightarrow> 's \<times> 't" where
  "consume_once has add key f st =
     (if has (fst st) key then st else (add key (fst st), f (snd st)))"

locale seen_set =
  fixes has :: "'s \<Rightarrow> string \<Rightarrow> bool"
    and add :: "string \<Rightarrow> 's \<Rightarrow> 's"
    and ok :: "'s \<Rightarrow> bool"
  assumes add_ok: "ok s \<Longrightarrow> ok (add k s)"
    and add_has: "ok s \<Longrightarrow> has (add k s) k"
    and add_known: "has s k \<Longrightarrow> add k s = s"
    and add_only: "has (add k s) j \<Longrightarrow> j = k \<or> has s j"
begin

lemma consume_ok: "ok (fst st) \<Longrightarrow> ok (fst (consume_once has add k f st))"
  by (simp add: consume_once_def add_ok)

lemma consume_marks: "ok (fst st) \<Longrightarrow> has (fst (consume_once has add k f st)) k"
  by (simp add: consume_once_def add_has)

lemma consume_twice:
  "ok (fst st) \<Longrightarrow> consume_once has add k g (consume_once has add k f st) = consume_once has add k f st"
  by (simp add: consume_once_def add_has)

lemma consume_new: "\<not> has (fst st) k \<Longrightarrow> consume_once has add k f st = (add k (fst st), f (snd st))"
  by (simp add: consume_once_def)

end

interpretation bs: seen_set seen_contains seen_add seen_ok
proof (standard, goal_cases)
  case (1 s k)
  then show ?case
    by (auto simp: seen_ok_def seen_add_def seen_contains_def Let_def distinct_tl)
next
  case (2 s k)
  then show ?case
    by (cases "seen_keys s") (auto simp: seen_ok_def seen_add_def seen_contains_def Let_def)
next
  case (3 s k)
  then show ?case by (simp add: seen_add_def)
next
  case (4 k s j)
  then show ?case
    by (cases "seen_keys s") (auto simp: seen_add_def seen_contains_def Let_def split: if_splits)
qed

lemma seen_ok_new: "1 \<le> n \<Longrightarrow> seen_ok (new_seen n)"
  by (simp add: seen_ok_def new_seen_def)

lemma seen_max_add [simp]: "seen_max (seen_add k s) = seen_max s"
  by (simp add: seen_add_def Let_def)

lemma seen_add_room:
  "length (seen_keys s) < seen_max s \<Longrightarrow>
   seen_keys (seen_add k s) = (if seen_contains s k then seen_keys s else seen_keys s @ [k])"
  by (simp add: seen_add_def Let_def)

section \<open>Rounding\<close>

text \<open>\<open>round(x, 6)\<close>: to six decimals, ties to even.\<close>

definition round6 :: "rat \<Rightarrow> rat" where
  "round6 x =
     (let y = x * 1000000; f = floor y; d = y - of_int f;
          r = (if d < 1 / 2 then f else if d > 1 / 2 then f + 1 else if even f then f else f + 1)
      in of_int r / 1000000)"

section \<open>The cost guard\<close>

datatype ops_circuit = CircuitClosed | CircuitHalfOpen | CircuitOpen

datatype ops_degrade = OpsNormal | OpsRerankOff | OpsLexicalOnly

fun circuit_value :: "ops_circuit \<Rightarrow> string" where
  "circuit_value CircuitClosed = ''closed''"
| "circuit_value CircuitHalfOpen = ''half_open''"
| "circuit_value CircuitOpen = ''open''"

fun degrade_value :: "ops_degrade \<Rightarrow> string" where
  "degrade_value OpsNormal = ''NORMAL''"
| "degrade_value OpsRerankOff = ''RERANK_OFF''"
| "degrade_value OpsLexicalOnly = ''LEXICAL_ONLY''"

record usage_event =
  ue_event_id :: string
  amount_usd :: rat
  ue_source :: string
  ue_timestamp :: rat
  ue_request_id :: "string option"

record budget_state =
  tier :: string
  bs_degrade_mode :: ops_degrade
  bs_circuit_state :: ops_circuit
  bs_spend_usd :: rat
  bs_cap_usd :: rat
  threshold_ratio :: rat

record cost_guard =
  cap_usd :: rat
  warning_ratio :: rat
  hard_degrade_ratio :: rat
  spend_usd :: rat
  seen_event_ids :: bounded_seen

definition default_guard :: cost_guard where
  "default_guard = \<lparr>cap_usd = 1600, warning_ratio = 80 / 100, hard_degrade_ratio = 95 / 100,
     spend_usd = 0, seen_event_ids = new_seen DEFAULT_SEEN_MAX\<rparr>"

definition guard_ratio :: "cost_guard \<Rightarrow> rat" where
  "guard_ratio g = (if cap_usd g \<le> 0 then 1 else spend_usd g / cap_usd g)"

definition guard_degrade_mode :: "cost_guard \<Rightarrow> rat \<Rightarrow> ops_degrade" where
  "guard_degrade_mode g ratio =
     (if ratio \<ge> hard_degrade_ratio g then OpsLexicalOnly
      else if ratio \<ge> warning_ratio g then OpsRerankOff else OpsNormal)"

definition guard_tier :: "cost_guard \<Rightarrow> rat \<Rightarrow> string" where
  "guard_tier g ratio =
     (if ratio \<ge> 1 then ''hard_cap'' else if ratio \<ge> hard_degrade_ratio g then ''critical''
      else if ratio \<ge> warning_ratio g then ''warning'' else ''normal'')"

definition evaluate_circuit :: "cost_guard \<Rightarrow> ops_circuit" where
  "evaluate_circuit g =
     (let ratio = guard_ratio g in
      if ratio \<ge> 1 then CircuitOpen else if ratio \<ge> warning_ratio g then CircuitHalfOpen else CircuitClosed)"

definition get_budget_state :: "cost_guard \<Rightarrow> budget_state" where
  "get_budget_state g =
     (let ratio = guard_ratio g in
      \<lparr>tier = guard_tier g ratio, bs_degrade_mode = guard_degrade_mode g ratio,
       bs_circuit_state = evaluate_circuit g, bs_spend_usd = round6 (spend_usd g),
       bs_cap_usd = cap_usd g, threshold_ratio = round6 ratio\<rparr>)"

definition record_spend :: "usage_event \<Rightarrow> cost_guard \<Rightarrow> (string + budget_state) \<times> cost_guard" where
  "record_spend e g =
     (if amount_usd e < 0 then (Inl ''usage amount must be non-negative'', g)
      else let g' = (if seen_contains (seen_event_ids g) (ue_event_id e) then g
                     else g\<lparr>seen_event_ids := seen_add (ue_event_id e) (seen_event_ids g),
                            spend_usd := spend_usd g + amount_usd e\<rparr>)
           in (Inr (get_budget_state g'), g'))"

section \<open>The gate predicates\<close>

text \<open>A budget is any object with these attributes; this is the view of a \<open>BudgetState\<close>.\<close>

definition budget_value :: "budget_state \<Rightarrow> pyval" where
  "budget_value b =
     PObj [(''tier'', PStr (tier b)), (''degrade_mode'', PStr (degrade_value (bs_degrade_mode b))),
           (''circuit_state'', PStr (circuit_value (bs_circuit_state b)))]"

definition underscore_to_dash :: "string \<Rightarrow> string" where
  "underscore_to_dash s = map (\<lambda>c. if c = CHR ''_'' then CHR ''-'' else c) s"

text \<open>\<open>str(getattr(budget, name, default) or default).lower()\<close>\<close>

definition text_attr :: "(pyval \<Rightarrow> string) \<Rightarrow> pyval \<Rightarrow> string \<Rightarrow> string \<Rightarrow> string" where
  "text_attr other budget name dflt =
     py_lower (py_str other (py_or (get_field budget name) (PStr dflt)))"

definition is_cost_degraded :: "(pyval \<Rightarrow> string) \<Rightarrow> pyval \<Rightarrow> bool" where
  "is_cost_degraded other budget =
     (let mode = underscore_to_dash (text_attr other budget ''degrade_mode'' ''normal'');
          circuit = text_attr other budget ''circuit_state'' ''closed''
      in (mode \<noteq> ''normal'' \<and> mode \<noteq> ''none'') \<or> circuit = ''open'')"

definition is_cost_critical :: "(pyval \<Rightarrow> string) \<Rightarrow> pyval \<Rightarrow> bool" where
  "is_cost_critical other budget =
     (let tr = underscore_to_dash (text_attr other budget ''tier'' ''normal'');
          mode = underscore_to_dash (text_attr other budget ''degrade_mode'' ''normal'');
          circuit = text_attr other budget ''circuit_state'' ''closed''
      in tr = ''critical'' \<or> tr = ''hard-cap'' \<or> mode = ''lexical-only'' \<or> circuit = ''open'')"

text \<open>\<open>float(os.getenv(name) or default)\<close>; parsing a text is left to the parameter.\<close>

definition env_rate :: "(string \<Rightarrow> string + rat) \<Rightarrow> string option \<Rightarrow> rat \<Rightarrow> string + rat" where
  "env_rate parse value dflt =
     (case value of None \<Rightarrow> Inr dflt | Some s \<Rightarrow> if s = [] then Inr dflt else parse s)"

definition estimate_bedrock_usd ::
  "(string \<Rightarrow> string + rat) \<Rightarrow> string option \<Rightarrow> string option \<Rightarrow> int \<Rightarrow> int \<Rightarrow> string + rat" where
  "estimate_bedrock_usd parse env_in env_out input_tokens output_tokens =
     (case env_rate parse env_in 3 of
        Inl e \<Rightarrow> Inl e
      | Inr input_rate \<Rightarrow>
          (case env_rate parse env_out 15 of
             Inl e \<Rightarrow> Inl e
           | Inr output_rate \<Rightarrow>
               Inr (of_int (max input_tokens 0) / 1000000 * input_rate +
                    of_int (max output_tokens 0) / 1000000 * output_rate)))"

section \<open>Each event counts once\<close>

definition spend_all :: "usage_event list \<Rightarrow> cost_guard \<Rightarrow> cost_guard" where
  "spend_all es g = fold (\<lambda>e g. snd (record_spend e g)) es g"

fun first_events :: "usage_event list \<Rightarrow> usage_event list" where
  "first_events [] = []"
| "first_events (e # es) = e # filter (\<lambda>x. ue_event_id x \<noteq> ue_event_id e) (first_events es)"

definition total_usd :: "usage_event list \<Rightarrow> rat" where
  "total_usd es = sum_list (map amount_usd es)"

text \<open>The spend step is the generic consumer over the seen set.\<close>

lemma record_spend_consume:
  assumes "0 \<le> amount_usd e"
  shows "(seen_event_ids (snd (record_spend e g)), spend_usd (snd (record_spend e g))) =
    consume_once seen_contains seen_add (ue_event_id e) (\<lambda>x. x + amount_usd e) (seen_event_ids g, spend_usd g)"
  using assms by (simp add: record_spend_def consume_once_def Let_def)

lemma record_spend_frame [simp]:
  "cap_usd (snd (record_spend e g)) = cap_usd g"
  "warning_ratio (snd (record_spend e g)) = warning_ratio g"
  "hard_degrade_ratio (snd (record_spend e g)) = hard_degrade_ratio g"
  by (simp_all add: record_spend_def Let_def)

lemma spend_all_total:
  assumes "\<forall>e \<in> set es. 0 \<le> amount_usd e" and "seen_ok (seen_event_ids g)"
    and "card (set (seen_keys (seen_event_ids g)) \<union> ue_event_id ` set es) \<le> seen_max (seen_event_ids g)"
  shows "spend_usd (spend_all es g) = spend_usd g +
    total_usd (filter (\<lambda>e. \<not> seen_contains (seen_event_ids g) (ue_event_id e)) (first_events es))"
  using assms
proof (induction es arbitrary: g)
  case (Cons e es)
  let ?s = "seen_event_ids g" and ?g = "snd (record_spend e g)"
  have run: "spend_all (e # es) g = spend_all es ?g" by (simp add: spend_all_def)
  show ?case
  proof (cases "seen_contains ?s (ue_event_id e)")
    case True
    then have g: "?g = g" using Cons.prems(1) by (simp add: record_spend_def)
    have "set (seen_keys ?s) \<union> ue_event_id ` set (e # es) = set (seen_keys ?s) \<union> ue_event_id ` set es"
      using True by (auto simp: seen_contains_def)
    then have "spend_usd (spend_all es g) = spend_usd g +
        total_usd (filter (\<lambda>e. \<not> seen_contains ?s (ue_event_id e)) (first_events es))"
      using Cons.IH [of g] Cons.prems by auto
    moreover have "filter (\<lambda>x. \<not> seen_contains ?s (ue_event_id x)) (first_events (e # es)) =
        filter (\<lambda>x. \<not> seen_contains ?s (ue_event_id x)) (first_events es)"
      using True by (auto intro: filter_cong)
    ultimately show ?thesis by (simp only: run g)
  next
    case False
    then have new: "ue_event_id e \<notin> set (seen_keys ?s)" by (simp add: seen_contains_def)
    have "card (insert (ue_event_id e) (set (seen_keys ?s))) \<le>
        card (set (seen_keys ?s) \<union> ue_event_id ` set (e # es))" by (intro card_mono) auto
    then have room: "length (seen_keys ?s) < seen_max ?s"
      using Cons.prems(2,3) new by (simp add: seen_ok_def distinct_card)
    have amt: "0 \<le> amount_usd e" using Cons.prems(1) by simp
    have g: "seen_event_ids ?g = seen_add (ue_event_id e) ?s" "spend_usd ?g = spend_usd g + amount_usd e"
      using record_spend_consume [OF amt, of g] False by (simp_all add: consume_once_def)
    have keys: "seen_keys (seen_event_ids ?g) = seen_keys ?s @ [ue_event_id e]"
      using False by (simp add: g seen_add_room [OF room])
    have "set (seen_keys (seen_event_ids ?g)) \<union> ue_event_id ` set es =
        set (seen_keys ?s) \<union> ue_event_id ` set (e # es)" by (auto simp: keys)
    then have IH: "spend_usd (spend_all es ?g) = spend_usd ?g +
        total_usd (filter (\<lambda>x. \<not> seen_contains (seen_event_ids ?g) (ue_event_id x)) (first_events es))"
      using Cons.prems bs.add_ok [of ?s "ue_event_id e"] by (intro Cons.IH) (simp_all add: g)
    have "filter (\<lambda>x. \<not> seen_contains (seen_event_ids ?g) (ue_event_id x)) (first_events es) =
        filter (\<lambda>x. \<not> seen_contains ?s (ue_event_id x))
          (filter (\<lambda>x. ue_event_id x \<noteq> ue_event_id e) (first_events es))"
      by (auto simp: seen_contains_def keys intro: filter_cong)
    then show ?thesis using False by (simp add: run IH g total_usd_def)
  qed
qed (simp add: spend_all_def total_usd_def)

text \<open>
  Spend is counted once per event: for any stream of usage events with redeliveries in any
  order, as long as the distinct ids fit the dedup window, the recorded spend is the sum of the
  first delivery of each event.
\<close>

theorem spend_counts_each_event_once:
  assumes "\<forall>e \<in> set es. 0 \<le> amount_usd e" and "card (ue_event_id ` set es) \<le> seen_max (seen_event_ids g)"
    and "seen_keys (seen_event_ids g) = []" and "1 \<le> seen_max (seen_event_ids g)"
  shows "spend_usd (spend_all es g) = spend_usd g + total_usd (first_events es)"
  using spend_all_total [of es g] assms by (simp add: seen_ok_def seen_contains_def)

definition usage :: "string \<Rightarrow> rat \<Rightarrow> usage_event" where
  "usage i x = \<lparr>ue_event_id = i, amount_usd = x, ue_source = ''bedrock'', ue_timestamp = 0, ue_request_id = None\<rparr>"

theorem spend_counts_each_event_once_witness:
  "spend_usd (spend_all [usage ''a'' 3, usage ''b'' 4, usage ''a'' 3] default_guard) = 7"
proof -
  have "card (ue_event_id ` set [usage ''a'' 3, usage ''b'' 4, usage ''a'' 3]) \<le> 100000"
    by (rule order_trans [OF card_mono [of "{''a'', ''b''}"]]) (auto simp: usage_def)
  then show ?thesis
    using spend_counts_each_event_once [of "[usage ''a'' 3, usage ''b'' 4, usage ''a'' 3]" default_guard]
    by (simp add: usage_def default_guard_def new_seen_def DEFAULT_SEEN_MAX_def total_usd_def)
qed

section \<open>The degrade ladder\<close>

fun degrade_rank :: "ops_degrade \<Rightarrow> nat" where
  "degrade_rank OpsNormal = 0"
| "degrade_rank OpsRerankOff = 1"
| "degrade_rank OpsLexicalOnly = 2"

lemma degrade_mono: "r \<le> q \<Longrightarrow> degrade_rank (guard_degrade_mode g r) \<le> degrade_rank (guard_degrade_mode g q)"
  by (simp add: guard_degrade_mode_def)

lemma spend_grows: "spend_usd g \<le> spend_usd (snd (record_spend e g))"
  by (simp add: record_spend_def Let_def)

lemma ratio_grows: "guard_ratio g \<le> guard_ratio (snd (record_spend e g))"
  using spend_grows [of g e] by (simp add: guard_ratio_def divide_right_mono)

lemma degrade_grows:
  "degrade_rank (bs_degrade_mode (get_budget_state g)) \<le>
   degrade_rank (bs_degrade_mode (get_budget_state (snd (record_spend e g))))"
proof -
  have "guard_degrade_mode (snd (record_spend e g)) = guard_degrade_mode g"
    by (rule ext) (simp add: guard_degrade_mode_def)
  then show ?thesis using degrade_mono [OF ratio_grows] by (simp add: get_budget_state_def Let_def)
qed

text \<open>
  Degradation only escalates: whatever events are recorded, the spend never falls and the
  degrade mode never relaxes along the ladder NORMAL, RERANK_OFF, LEXICAL_ONLY.
\<close>

theorem degrade_never_relaxes:
  "spend_usd g \<le> spend_usd (spend_all es g) \<and>
   degrade_rank (bs_degrade_mode (get_budget_state g)) \<le>
   degrade_rank (bs_degrade_mode (get_budget_state (spend_all es g)))"
proof (induction es arbitrary: g)
  case (Cons e es)
  from Cons.IH [of "snd (record_spend e g)"] spend_grows [of g e] degrade_grows [of g e]
  show ?case by (auto simp: spend_all_def)
qed (simp add: spend_all_def)

lemma budget_text:
  "text_attr other (budget_value b) ''tier'' d = py_lower (if tier b = [] then d else tier b)"
  "text_attr other (budget_value b) ''degrade_mode'' d = py_lower (degrade_value (bs_degrade_mode b))"
  "text_attr other (budget_value b) ''circuit_state'' d = py_lower (circuit_value (bs_circuit_state b))"
  by (cases "bs_degrade_mode b"; cases "bs_circuit_state b";
      simp add: text_attr_def budget_value_def get_field_def pget_def py_or_def py_str_def dict_simps)+

text \<open>The three mode texts as the predicates see them.\<close>

lemma lower_degrade:
  "underscore_to_dash (py_lower (degrade_value OpsNormal)) = ''normal''"
  "underscore_to_dash (py_lower (degrade_value OpsRerankOff)) = ''rerank-off''"
  "underscore_to_dash (py_lower (degrade_value OpsLexicalOnly)) = ''lexical-only''"
  by code_simp+

lemma lower_circuit: "py_lower (circuit_value c) = circuit_value c"
  by (cases c) (simp_all add: py_lower_def py_lower_char_def)

lemma lower_tier:
  "underscore_to_dash (py_lower (guard_tier g r)) =
     (if r \<ge> 1 then ''hard-cap'' else if r \<ge> hard_degrade_ratio g then ''critical''
      else if r \<ge> warning_ratio g then ''warning'' else ''normal'')"
proof -
  have "underscore_to_dash (py_lower ''hard_cap'') = ''hard-cap''"
    "underscore_to_dash (py_lower ''critical'') = ''critical''"
    "underscore_to_dash (py_lower ''warning'') = ''warning''"
    "underscore_to_dash (py_lower ''normal'') = ''normal''" by code_simp+
  then show ?thesis by (simp add: guard_tier_def)
qed

text \<open>
  The thresholds agree everywhere: with thresholds in order, the soft predicate holds of the
  guard's state exactly from the warning ratio on, the hard predicate exactly from the hard ratio
  on, the circuit is open exactly from the cap on, and the lexical-only mode is the hard predicate.
\<close>

theorem cost_gates_agree:
  assumes "warning_ratio g \<le> hard_degrade_ratio g" and "hard_degrade_ratio g \<le> 1"
  defines "b \<equiv> get_budget_state g"
  shows "(is_cost_degraded other (budget_value b) \<longleftrightarrow> warning_ratio g \<le> guard_ratio g) \<and>
    (is_cost_critical other (budget_value b) \<longleftrightarrow> hard_degrade_ratio g \<le> guard_ratio g) \<and>
    (bs_circuit_state b = CircuitOpen \<longleftrightarrow> 1 \<le> guard_ratio g) \<and>
    (bs_degrade_mode b = OpsLexicalOnly \<longleftrightarrow> is_cost_critical other (budget_value b))"
proof -
  have t: "tier b = guard_tier g (guard_ratio g)" "tier b \<noteq> []"
    and m: "bs_degrade_mode b = guard_degrade_mode g (guard_ratio g)"
    and c: "bs_circuit_state b = evaluate_circuit g"
    by (simp_all add: b_def get_budget_state_def Let_def guard_tier_def)
  note ld = lower_degrade [unfolded degrade_value.simps]
  show ?thesis
    using assms(1,2)
    unfolding is_cost_degraded_def is_cost_critical_def Let_def budget_text lower_circuit
    by (auto simp: t(2) t(1) [symmetric] m c lower_tier [of g "guard_ratio g", folded t(1)]
        guard_degrade_mode_def evaluate_circuit_def Let_def ld)
qed

theorem cost_gates_agree_witness:
  "\<not> is_cost_critical (\<lambda>_. []) (budget_value (get_budget_state default_guard)) \<and>
   is_cost_critical (\<lambda>_. []) (budget_value (get_budget_state (default_guard\<lparr>spend_usd := 1550\<rparr>)))"
  using cost_gates_agree [of default_guard "\<lambda>_. []"]
    cost_gates_agree [of "default_guard\<lparr>spend_usd := 1550\<rparr>" "\<lambda>_. []"]
  by (simp add: default_guard_def guard_ratio_def)

end
