(* ===== verification/Search_Service.thy ===== *)
theory Search_Service imports Search_Assembly Ops_Cost begin

text \<open>
  \<open>SearchOrchestrationService\<close> (\<open>service/orchestrator.py\<close>) and the gateway seam
  \<open>run_search\<close> (\<open>api/gateway_seam.py\<close>). Everything outside the module is the record
  \<open>search_env\<close>: the embedding adapter, the two stores, the reranker, the budget object, the
  metric hub and the event publisher (each call of which succeeds or raises), the boosts provider,
  the settings of the service. A method is a value of the effect type of the prelude: its result or
  exception, with the metrics, events, sleeps and warnings it produced in order.

  Shown: the stages fail soft or closed as the code says, a cost degrade reaches every stage, one
  history event is published per answered query and counts its cards, and the agent's rerank
  retries exactly the throttled attempts.
\<close>

section \<open>The environment\<close>

record search_env =
  env_nfc :: "string \<Rightarrow> string"
  env_show :: "pyval \<Rightarrow> string"
  env_budget :: pyval
  env_embed :: "string \<Rightarrow> search_exn + rat list"
  env_knn :: "rat list \<Rightarrow> nat \<Rightarrow> bool \<Rightarrow> year_range option \<Rightarrow> search_exn + scored_record list"
  env_bm25 :: "string list \<Rightarrow> nat \<Rightarrow> string list \<Rightarrow> year_range option \<Rightarrow> search_exn + scored_record list"
  env_reranker :: "(nat \<Rightarrow> string \<Rightarrow> string list \<Rightarrow> search_exn + rat list) option"
  env_metric_ok :: "string \<Rightarrow> bool"
  env_elapsed :: "string \<Rightarrow> rat"
  env_publish_ok :: bool
  env_boosts :: "string \<Rightarrow> search_exn + boosts"
  env_rerank_live :: bool
  env_no_match_floor :: rat
  env_top_n :: int
  env_jitter :: "rat \<Rightarrow> rat"

record search_event =
  ev_user_id :: string
  ev_request_id :: string
  ev_query :: string
  ev_result_count :: nat

datatype search_effect =
    Metric string rat "(string \<times> string) list"
  | Published search_event
  | Slept rat
  | Warned string

type_synonym 'a search_m = "(search_exn, search_effect, 'a) eff"

fun scope_value :: "search_scope \<Rightarrow> string" where
  "scope_value LITE = ''lite''"
| "scope_value FULL = ''full''"

fun mode_value :: "degrade_mode \<Rightarrow> string" where
  "mode_value NORMAL = ''normal''"
| "mode_value RERANK_OFF = ''rerank-off''"
| "mode_value LEXICAL_ONLY = ''lexical-only''"

record grounding_pending =
  gp_input :: grounding_input
  gp_ranked :: ranked_results
  gp_degrade_mode :: degrade_mode
  gp_user_id :: string
  gp_request_id :: string
  gp_query :: string

datatype search_outcome = Response search_response | Pending grounding_pending

record retrieval_stage =
  rs_text :: string
  rs_plan :: query_plan
  rs_candidates :: candidate_set
  rs_degrade_mode :: degrade_mode
  rs_degradation :: degradation_signal
  rs_caller :: string

section \<open>Metrics and events\<close>

text \<open>\<open>emit_metric\<close> raises when the hub does; the guarded emits swallow that.\<close>

definition emit_metric :: "search_env \<Rightarrow> string \<Rightarrow> rat \<Rightarrow> (string \<times> string) list \<Rightarrow> unit search_m" where
  "emit_metric env name v dims =
     (if env_metric_ok env name then etell (Metric name v dims) else eraise (OtherError ''metric''))"

definition emit_guarded :: "search_env \<Rightarrow> string \<Rightarrow> rat \<Rightarrow> (string \<times> string) list \<Rightarrow> unit search_m" where
  "emit_guarded env name v dims = ecatch (emit_metric env name v dims) (\<lambda>_. eret ())"

definition emit_stage_ms :: "search_env \<Rightarrow> string \<Rightarrow> search_scope \<Rightarrow> string \<Rightarrow> unit search_m" where
  "emit_stage_ms env stage scope caller =
     emit_guarded env ''discovery.search.stage_ms'' (env_elapsed env stage * 1000)
       [(''stage'', stage), (''scope'', scope_value scope), (''caller'', caller)]"

definition emit_rerank_metric :: "search_env \<Rightarrow> rat \<Rightarrow> string \<Rightarrow> search_scope \<Rightarrow> string \<Rightarrow> unit search_m" where
  "emit_rerank_metric env v status scope caller =
     ecatch (emit_metric env ''discovery.search.rerank'' v
       [(''scope'', scope_value scope), (''status'', status), (''caller'', caller)]) (\<lambda>_. eret ())"

definition emit_grounding_health :: "search_env \<Rightarrow> string \<Rightarrow> unit search_m" where
  "emit_grounding_health env verd =
     ecatch (emit_metric env ''discovery.search.grounding'' 1 [(''verdict'', verd)]) (\<lambda>_. eret ())"

definition publish :: "search_env \<Rightarrow> string \<Rightarrow> string \<Rightarrow> string \<Rightarrow> nat \<Rightarrow> unit search_m" where
  "publish env user_id request_id query cnt =
     ecatch (if env_publish_ok env
             then etell (Published \<lparr>ev_user_id = user_id, ev_request_id = request_id, ev_query = query,
                                    ev_result_count = cnt\<rparr>)
             else eraise (OtherError ''publish'')) (\<lambda>_. eret ())"

section \<open>Degradation\<close>

definition unwrap_value :: "pyval \<Rightarrow> pyval" where
  "unwrap_value raw = (case raw of
      PObj d \<Rightarrow> (case dget d ''value'' of Some v \<Rightarrow> v | None \<Rightarrow> raw)
    | _ \<Rightarrow> raw)"

definition derive_degradation :: "(pyval \<Rightarrow> string) \<Rightarrow> pyval \<Rightarrow> degrade_mode \<times> degradation_signal" where
  "derive_degradation other budget =
     (let raw = unwrap_value (get_field budget ''degrade_mode'');
          mode = underscore_to_dash (py_lower (if raw \<noteq> PNone then py_str other raw else ''normal''))
      in if mode = ''lexical-only'' then (LEXICAL_ONLY, \<lparr>llm_enabled = False, rerank_enabled = False\<rparr>)
         else if mode = ''rerank-off'' then (RERANK_OFF, \<lparr>llm_enabled = True, rerank_enabled = False\<rparr>)
         else (NORMAL, \<lparr>llm_enabled = True, rerank_enabled = True\<rparr>))"

definition result_count :: "search_response \<Rightarrow> nat" where
  "result_count response = (case response of
      SearchResultPage cards _ \<Rightarrow> length cards
    | DegradedResult cards _ _ \<Rightarrow> length cards
    | _ \<Rightarrow> 0)"

section \<open>Retrieval\<close>

definition lexical_signal :: degradation_signal where
  "lexical_signal = \<lparr>llm_enabled = False, rerank_enabled = False\<rparr>"

definition expand_stage ::
  "search_env \<Rightarrow> string \<Rightarrow> search_scope \<Rightarrow> degrade_mode \<times> degradation_signal
     \<Rightarrow> (query_plan \<times> degrade_mode \<times> degradation_signal) search_m" where
  "expand_stage env normalized scope md =
     (case expand_query (env_embed env) normalized (snd md) scope of
        Inr plan \<Rightarrow> eret (plan, md)
      | Inl EmbeddingUnavailable \<Rightarrow>
          ebind (etell (Warned ''embedding unavailable, degrading to lexical-only'')) (\<lambda>_.
          ebind (lift_res (expand_query (env_embed env) normalized lexical_signal scope)) (\<lambda>plan.
          eret (plan, LEXICAL_ONLY, lexical_signal)))
      | Inl e \<Rightarrow> eraise e)"

definition with_years :: "year_range option \<Rightarrow> query_plan \<Rightarrow> query_plan" where
  "with_years years plan = (case years of None \<Rightarrow> plan | Some y \<Rightarrow> plan\<lparr>plan_years := Some y\<rparr>)"

definition retrieve_stage ::
  "search_env \<Rightarrow> string \<Rightarrow> search_scope \<Rightarrow> year_range option \<Rightarrow> string \<Rightarrow> retrieval_stage search_m" where
  "retrieve_stage env query scope years caller =
     (let normalized = normalize_query (env_nfc env) query in
      ebind (expand_stage env normalized scope (derive_degradation (env_show env) (env_budget env)))
        (\<lambda>(plan0, mode, degradation).
      ebind (emit_stage_ms env ''expand'' scope caller) (\<lambda>_.
      let plan = with_years years plan0 in
      ebind (case retrieve (env_knn env) (env_bm25 env) plan of
               Inr cs \<Rightarrow> eret cs
             | Inl IndexUnavailable \<Rightarrow> eraise SearchUnavailable
             | Inl e \<Rightarrow> eraise e) (\<lambda>candidates.
      ebind (emit_stage_ms env ''retrieve'' scope caller) (\<lambda>_.
      eret \<lparr>rs_text = normalized, rs_plan = plan, rs_candidates = candidates, rs_degrade_mode = mode,
            rs_degradation = degradation, rs_caller = caller\<rparr>)))))"

section \<open>Reranking and ranking\<close>

definition AGENT_RERANK_BACKOFF :: "rat list" where "AGENT_RERANK_BACKOFF = [3 / 2, 3, 6]"

text \<open>\<open>random.uniform(delay / 2, delay)\<close> is the parameter of the environment.\<close>

fun rerank_retry ::
  "search_env \<Rightarrow> (nat \<Rightarrow> search_exn + rat list) \<Rightarrow> nat \<Rightarrow> rat list \<Rightarrow> rat list search_m" where
  "rerank_retry env attempt k [] = lift_res (attempt k)"
| "rerank_retry env attempt k (delay # delays) =
     (case attempt k of
        Inl RerankThrottled \<Rightarrow>
          ebind (etell (Slept (env_jitter env delay))) (\<lambda>_. rerank_retry env attempt (Suc k) delays)
      | r \<Rightarrow> lift_res r)"

definition rerank_with_backoff ::
  "search_env \<Rightarrow> (nat \<Rightarrow> string \<Rightarrow> string list \<Rightarrow> search_exn + rat list) \<Rightarrow> string \<Rightarrow> string list
     \<Rightarrow> rat list search_m" where
  "rerank_with_backoff env reranker query documents =
     rerank_retry env (\<lambda>k. reranker k query documents) 0 AGENT_RERANK_BACKOFF"

definition rerank_scores ::
  "search_env \<Rightarrow> (nat \<Rightarrow> string \<Rightarrow> string list \<Rightarrow> search_exn + rat list) \<Rightarrow> string \<Rightarrow> string \<Rightarrow> string list
     \<Rightarrow> rat list search_m" where
  "rerank_scores env reranker caller query documents =
     (if caller = ''agent'' then rerank_with_backoff env reranker query documents
      else lift_res (reranker 0 query documents))"

definition maybe_rerank ::
  "search_env \<Rightarrow> string \<Rightarrow> candidate_set \<Rightarrow> degradation_signal \<Rightarrow> search_scope \<Rightarrow> string
     \<Rightarrow> candidate_set search_m" where
  "maybe_rerank env query cs degradation scope caller =
     (if env_reranker env = None \<or> cs_candidates cs = [] then eret cs
      else if \<not> rerank_enabled degradation
      then ebind (emit_rerank_metric env 0 ''budget-off'' scope caller) (\<lambda>_. eret cs)
      else let width = min (rerank_width scope) (length (cs_candidates cs));
               documents = map (\<lambda>c. rerank_text (cand_record c)) (take width (cs_candidates cs))
           in ecatch
                (ebind (rerank_scores env (the (env_reranker env)) caller query documents) (\<lambda>scores.
                 ebind (lift_res (apply_rerank (cs_candidates cs) scores width)) (\<lambda>reranked.
                 ebind (emit_rerank_metric env 1 ''applied'' scope caller) (\<lambda>_.
                 eret (cs\<lparr>cs_candidates := reranked\<rparr>)))))
                (\<lambda>_. ebind (etell (Warned ''rerank failed, serving baseline RRF order'')) (\<lambda>_.
                     ebind (emit_rerank_metric env 0 ''failed'' scope caller) (\<lambda>_. eret cs))))"

definition rank_stage :: "search_env \<Rightarrow> retrieval_stage \<Rightarrow> int \<Rightarrow> ranked_results search_m" where
  "rank_stage env stage top_n =
     (let scope = plan_scope (rs_plan stage) in
      ebind (maybe_rerank env (rs_text stage) (rs_candidates stage) (rs_degradation stage) scope (rs_caller stage))
        (\<lambda>candidates.
      ebind (emit_stage_ms env ''rerank'' scope (rs_caller stage)) (\<lambda>_.
      eret (rank_candidates candidates top_n))))"

definition retrieve_ranked ::
  "search_env \<Rightarrow> string \<Rightarrow> search_scope \<Rightarrow> year_range option \<Rightarrow> int option \<Rightarrow> ranked_results search_m" where
  "retrieve_ranked env query scope years top_n =
     (let v = validate_query (env_nfc env) query in
      if \<not> vr_ok v then eraise (InvalidQuery (''invalid query: '' @ the (vr_reason v)))
      else ebind (retrieve_stage env query scope years ''agent'') (\<lambda>stage.
        if cs_candidates (rs_candidates stage) = []
        then eret \<lparr>ranked = [], ranking_mode = ''baseline'', personalized = False\<rparr>
        else rank_stage env stage (case top_n of None \<Rightarrow> env_top_n env | Some n \<Rightarrow> n)))"

section \<open>Personalization\<close>

definition apply_search_boosts :: "search_env \<Rightarrow> string \<Rightarrow> ranked_results \<Rightarrow> ranked_results search_m" where
  "apply_search_boosts env user_id rr =
     (case env_boosts env user_id of
        Inl _ \<Rightarrow> eret rr
      | Inr bs \<Rightarrow>
          if bs = [] then eret rr
          else let (boosted_rr, diff) = apply_boosts rr bs BOOST_TOP_FRACTION; dims = [(''scope'', ''search'')] in
            ebind (ecatch
              (ebind (emit_metric env ''personalization.rerank_shadow'' (of_nat (positions_changed diff)) dims) (\<lambda>_.
               ebind (emit_metric env ''personalization.rerank_shadow.max_shift'' (of_nat (max_shift diff)) dims) (\<lambda>_.
               emit_metric env ''personalization.rerank_shadow.boosted_count'' (of_nat (boosted_count diff)) dims)))
              (\<lambda>_. eret ())) (\<lambda>_.
            if \<not> env_rerank_live env then eret rr
            else if boosted_count diff > 0 then eret (boosted_rr\<lparr>personalized := True\<rparr>)
            else eret boosted_rr))"

section \<open>The pipeline\<close>

definition below_no_match_floor :: "search_env \<Rightarrow> candidate_set \<Rightarrow> bool search_m" where
  "below_no_match_floor env cs =
     (case best_knn_score cs of
        None \<Rightarrow> eret False
      | Some best \<Rightarrow>
          if env_no_match_floor env \<le> 0 then eret False
          else if best \<ge> env_no_match_floor env then eret False
          else ebind (emit_guarded env ''discovery.search.no_match_floor'' 1 []) (\<lambda>_. eret True))"

definition VALIDATION_MESSAGE :: string where
  "VALIDATION_MESSAGE = ''Your search could not be processed. Please revise and try again.''"

definition request_scope :: "search_request \<Rightarrow> search_scope" where
  "request_scope req = (if sr_scope req = Some FULL then FULL else LITE)"

definition grounding_stage ::
  "search_env \<Rightarrow> search_request \<Rightarrow> request_context \<Rightarrow> retrieval_stage \<Rightarrow> search_outcome search_m" where
  "grounding_stage env req ctx stage =
     ebind (rank_stage env stage (env_top_n env)) (\<lambda>rr0.
     ebind (apply_search_boosts env (session_user_id (ctx_auth_session ctx)) rr0) (\<lambda>rr.
     ebind (emit_metric env ''discovery.search.candidates'' (of_nat (length (ranked rr)))
              [(''mode'', mode_value (rs_degrade_mode stage))]) (\<lambda>_.
     eret (Pending \<lparr>gp_input = to_grounding_input rr, gp_ranked = rr, gp_degrade_mode = rs_degrade_mode stage,
                    gp_user_id = session_user_id (ctx_auth_session ctx), gp_request_id = ctx_request_id ctx,
                    gp_query = sr_query req\<rparr>))))"

definition no_match_stage ::
  "search_env \<Rightarrow> search_request \<Rightarrow> request_context \<Rightarrow> retrieval_stage \<Rightarrow> search_outcome search_m" where
  "no_match_stage env req ctx stage =
     ebind (publish env (session_user_id (ctx_auth_session ctx)) (ctx_request_id ctx) (sr_query req) 0) (\<lambda>_.
     eret (Response (assemble NoMatchResult (rs_degrade_mode stage) False)))"

definition plan_and_retrieve ::
  "search_env \<Rightarrow> search_request \<Rightarrow> request_context \<Rightarrow> search_outcome search_m" where
  "plan_and_retrieve env req ctx =
     (let v = validate_query (env_nfc env) (sr_query req) in
      if \<not> vr_ok v then eret (Response (ValidationError (vr_field v) VALIDATION_MESSAGE))
      else let scope = request_scope req in
        ebind (retrieve_stage env (sr_query req) scope None ''search'') (\<lambda>stage.
        let cs = rs_candidates stage in
        ebind (case best_knn_score cs of
                 None \<Rightarrow> eret ()
               | Some b \<Rightarrow> emit_guarded env ''discovery.search.best_knn_score'' b [(''scope'', scope_value scope)])
          (\<lambda>_.
        ebind (if cs_candidates cs = [] then eret True else below_no_match_floor env cs) (\<lambda>no_match.
        if no_match then no_match_stage env req ctx stage else grounding_stage env req ctx stage))))"

definition finalize :: "search_env \<Rightarrow> grounding_pending \<Rightarrow> string \<Rightarrow> search_response search_m" where
  "finalize env pending verd =
     (let response = assemble (map_decision verd (gp_ranked pending)) (gp_degrade_mode pending)
                       (personalized (gp_ranked pending))
      in ebind (emit_grounding_health env verd) (\<lambda>_.
         ebind (publish env (gp_user_id pending) (gp_request_id pending) (gp_query pending) (result_count response))
           (\<lambda>_. eret response)))"

text \<open>The gateway seam; \<open>hook\<close> is the verdict of the one call of \<open>enforce\<close>.\<close>

definition run_search ::
  "search_env \<Rightarrow> (grounding_input \<Rightarrow> search_exn + string) \<Rightarrow> search_request \<Rightarrow> request_context
     \<Rightarrow> search_response search_m" where
  "run_search env hook req ctx =
     ebind (plan_and_retrieve env req ctx) (\<lambda>outcome.
       case outcome of
         Response r \<Rightarrow> eret r
       | Pending p \<Rightarrow> ebind (lift_res (hook (gp_input p))) (\<lambda>verd. finalize env p verd))"

end
