(* ===== verification/Search_Contract.thy ===== *)
theory Search_Contract imports Search_Service begin

text \<open>
  The contract of the search pipeline, proved over \<open>Search_Service\<close>: which failures escape,
  what a degraded search does, the agent's retries, and the history events. \<open>quiet\<close> computations
  publish nothing; the collection \<open>quiet_intros\<close> builds them up.
\<close>

named_theorems quiet_intros "computations that publish no history event"

section \<open>Guarded emits\<close>

lemma fst_emit_guarded [eff_simps]: "fst (emit_guarded env name v dims) = Inr ()"
  by (simp add: emit_guarded_def emit_metric_def eff_simps)

lemma fst_emit_stage_ms [eff_simps]: "fst (emit_stage_ms env stage scope caller) = Inr ()"
  by (simp add: emit_stage_ms_def eff_simps)

lemma fst_emit_rerank_metric [eff_simps]: "fst (emit_rerank_metric env v status scope caller) = Inr ()"
  by (simp add: emit_rerank_metric_def emit_metric_def eff_simps)

lemma fst_emit_grounding_health [eff_simps]: "fst (emit_grounding_health env verd) = Inr ()"
  by (simp add: emit_grounding_health_def emit_metric_def eff_simps)

lemma fst_publish [eff_simps]: "fst (publish env u r q n) = Inr ()"
  by (simp add: publish_def eff_simps)

section \<open>History\<close>

definition history :: "search_effect list \<Rightarrow> search_event list" where
  "history effects = List.map_filter (\<lambda>t. case t of Published ev \<Rightarrow> Some ev | _ \<Rightarrow> None) effects"

definition quiet :: "'a search_m \<Rightarrow> bool" where
  "quiet m \<longleftrightarrow> history (snd m) = []"

lemma history_simps [simp]:
  "history [] = []" "history (Published ev # es) = ev # history es" "history (Metric n v d # es) = history es"
  "history (Slept x # es) = history es" "history (Warned s # es) = history es"
  by (simp_all add: history_def List.map_filter_simps)

lemma history_append [simp]: "history (a @ b) = history a @ history b"
  by (simp add: history_def List.map_filter_def)

lemma quiet_bind [quiet_intros]: "quiet m \<Longrightarrow> (\<And>x. quiet (f x)) \<Longrightarrow> quiet (ebind m f)"
  by (simp add: quiet_def eff_simps split: sum.split)

lemma quiet_catch [quiet_intros]: "quiet m \<Longrightarrow> (\<And>e. quiet (h e)) \<Longrightarrow> quiet (ecatch m h)"
  by (simp add: quiet_def eff_simps split: sum.split)

lemma quiet_basic [quiet_intros]:
  "quiet (eret x)" "quiet (eraise e)" "quiet (lift_res r)"
  "quiet (etell (Metric n v d))" "quiet (etell (Slept y))" "quiet (etell (Warned s))"
  by (simp_all add: quiet_def eff_simps)

lemma quiet_metric [quiet_intros]: "quiet (emit_metric env name v dims)"
  by (simp add: emit_metric_def quiet_intros)

lemma quiet_emits [quiet_intros]:
  "quiet (emit_guarded env name v dims)" "quiet (emit_stage_ms env stage scope caller)"
  "quiet (emit_rerank_metric env v status scope caller)" "quiet (emit_grounding_health env verd)"
  by (simp_all add: emit_guarded_def emit_stage_ms_def emit_rerank_metric_def emit_grounding_health_def quiet_intros)

lemma quiet_expand [quiet_intros]: "quiet (expand_stage env q scope md)"
  by (auto simp: expand_stage_def intro!: quiet_intros split: sum.split search_exn.split)

lemma quiet_retrieve [quiet_intros]: "quiet (retrieve_stage env q scope years caller)"
  by (auto simp: retrieve_stage_def Let_def intro!: quiet_intros split: sum.split search_exn.split)

lemma quiet_retry [quiet_intros]: "quiet (rerank_retry env attempt k ds)"
  by (induction ds arbitrary: k) (auto intro!: quiet_intros split: sum.split search_exn.split)

lemma quiet_maybe_rerank [quiet_intros]: "quiet (maybe_rerank env q cs d scope caller)"
  by (auto simp: maybe_rerank_def rerank_scores_def rerank_with_backoff_def Let_def intro!: quiet_intros)

lemma quiet_rank [quiet_intros]: "quiet (rank_stage env stage n)"
  by (auto simp: rank_stage_def Let_def intro!: quiet_intros)

lemma quiet_boosts [quiet_intros]: "quiet (apply_search_boosts env u rr)"
  by (auto simp: apply_search_boosts_def Let_def case_prod_beta intro!: quiet_intros split: sum.split)

lemma quiet_grounding [quiet_intros]: "quiet (grounding_stage env req ctx stage)"
  by (auto simp: grounding_stage_def intro!: quiet_intros)

lemma quiet_floor [quiet_intros]: "quiet (below_no_match_floor env cs)"
  by (auto simp: below_no_match_floor_def intro!: quiet_intros split: option.split)

lemma history_publish:
  "env_publish_ok env \<Longrightarrow> history (snd (publish env u r q n)) =
     [\<lparr>ev_user_id = u, ev_request_id = r, ev_query = q, ev_result_count = n\<rparr>]"
  by (simp add: publish_def eff_simps)

lemma history_bind: "fst m = Inr x \<Longrightarrow> history (snd (ebind m f)) = history (snd m) @ history (snd (f x))"
  by (simp add: eff_simps)

lemma bind_Inr: "fst (ebind m f) = Inr y \<longleftrightarrow> (\<exists>x. fst m = Inr x \<and> fst (f x) = Inr y)"
  by (simp add: eff_simps split: sum.split)

lemma history_quiet_bind:
  assumes "quiet m" and "fst m = Inr x"
  shows "history (snd (ebind m f)) = history (snd (f x))"
  using assms by (simp add: history_bind quiet_def)

lemma result_count_cards: "result_count r = length (response_cards r)"
  by (cases r) (simp_all add: result_count_def)

section \<open>Stages that cannot fail\<close>

lemma maybe_rerank_total:
  "\<exists>cs'. fst (maybe_rerank env q cs d scope caller) = Inr cs' \<and>
     map cand_record (cs_candidates cs') = map cand_record (cs_candidates cs)"
proof (cases "env_reranker env = None \<or> cs_candidates cs = [] \<or> \<not> rerank_enabled d")
  case True
  then show ?thesis by (auto simp: maybe_rerank_def eff_simps)
next
  case False
  let ?w = "min (rerank_width scope) (length (cs_candidates cs))"
  let ?docs = "map (\<lambda>c. rerank_text (cand_record c)) (take ?w (cs_candidates cs))"
  let ?r = "fst (rerank_scores env (the (env_reranker env)) caller q ?docs)"
  show ?thesis
  proof (cases ?r)
    case (Inl e)
    with False show ?thesis by (simp add: maybe_rerank_def Let_def eff_simps)
  next
    case (Inr scores)
    show ?thesis
    proof (cases "apply_rerank (cs_candidates cs) scores ?w")
      case (Inl e)
      with False Inr show ?thesis by (simp add: maybe_rerank_def Let_def eff_simps)
    next
      case ar: (Inr out)
      with False Inr show ?thesis
        by (simp add: maybe_rerank_def Let_def eff_simps apply_rerank_records [OF ar])
    qed
  qed
qed

definition ranked_from :: "candidate list \<Rightarrow> ranked_results \<Rightarrow> bool" where
  "ranked_from cs rr \<longleftrightarrow> cand_record ` set (ranked rr) \<subseteq> cand_record ` set cs"

lemma ranked_from_rank:
  "map cand_record (cs_candidates cs') = map cand_record cs \<Longrightarrow> ranked_from cs (rank_candidates cs' n)"
proof -
  assume "map cand_record (cs_candidates cs') = map cand_record cs"
  then have "cand_record ` set (cs_candidates cs') = cand_record ` set cs" by (metis list.set_map)
  moreover have "set (ranked (rank_candidates cs' n)) \<subseteq> set (cs_candidates cs')"
    using set_py_prefix [of n "sort_key rank_key (cs_candidates cs')"] by (simp add: rank_candidates_def)
  ultimately show ?thesis unfolding ranked_from_def by (metis image_mono)
qed

lemma rank_stage_total:
  "\<exists>rr. fst (rank_stage env stage n) = Inr rr \<and> ranked_from (cs_candidates (rs_candidates stage)) rr"
proof -
  obtain cs' where cs': "fst (maybe_rerank env (rs_text stage) (rs_candidates stage) (rs_degradation stage)
      (plan_scope (rs_plan stage)) (rs_caller stage)) = Inr cs'"
    "map cand_record (cs_candidates cs') = map cand_record (cs_candidates (rs_candidates stage))"
    using maybe_rerank_total by blast
  then show ?thesis using ranked_from_rank by (simp add: rank_stage_def Let_def eff_simps)
qed

lemma boosts_total:
  "\<exists>rr'. fst (apply_search_boosts env u rr) = Inr rr' \<and> mset (ranked rr') = mset (ranked rr)"
  using boosts_mset
  by (auto simp: apply_search_boosts_def Let_def case_prod_beta eff_simps split: sum.split)

lemma grounding_stage_result:
  assumes "env_metric_ok env ''discovery.search.candidates''"
  shows "\<exists>p. fst (grounding_stage env req ctx stage) = Inr (Pending p) \<and>
    ranked_from (cs_candidates (rs_candidates stage)) (gp_ranked p) \<and>
    gp_input p = to_grounding_input (gp_ranked p) \<and> gp_degrade_mode p = rs_degrade_mode stage \<and>
    gp_user_id p = session_user_id (ctx_auth_session ctx) \<and> gp_request_id p = ctx_request_id ctx \<and>
    gp_query p = sr_query req"
proof -
  obtain rr0 where rr0: "fst (rank_stage env stage (env_top_n env)) = Inr rr0"
    "ranked_from (cs_candidates (rs_candidates stage)) rr0" using rank_stage_total by blast
  obtain rr where rr: "fst (apply_search_boosts env (session_user_id (ctx_auth_session ctx)) rr0) = Inr rr"
    "mset (ranked rr) = mset (ranked rr0)" using boosts_total by blast
  have "ranked_from (cs_candidates (rs_candidates stage)) rr"
    using rr0(2) rr(2) by (metis mset_eq_setD ranked_from_def)
  then show ?thesis using rr0 rr assms by (simp add: grounding_stage_def eff_simps emit_metric_def)
qed

lemma grounding_stage_Inr:
  assumes "fst (grounding_stage env req ctx stage) = Inr out"
  shows "\<exists>p. out = Pending p \<and> ranked_from (cs_candidates (rs_candidates stage)) (gp_ranked p) \<and>
    gp_input p = to_grounding_input (gp_ranked p) \<and> gp_degrade_mode p = rs_degrade_mode stage \<and>
    gp_user_id p = session_user_id (ctx_auth_session ctx) \<and> gp_request_id p = ctx_request_id ctx \<and>
    gp_query p = sr_query req"
proof -
  have "env_metric_ok env ''discovery.search.candidates''"
    using assms rank_stage_total [of env stage "env_top_n env"]
    by (auto simp: grounding_stage_def emit_metric_def eff_simps split: if_splits sum.splits)
  from grounding_stage_result [OF this] assms show ?thesis by (metis sum.inject(2))
qed

lemma no_match_result:
  "fst (no_match_stage env req ctx stage) = Inr (Response empty_page)"
  by (simp add: no_match_stage_def eff_simps assemble_def)

lemma floor_total: "\<exists>b. fst (below_no_match_floor env cs) = Inr b"
  by (auto simp: below_no_match_floor_def eff_simps split: option.split)

section \<open>One history event per answered query\<close>

lemma plan_cases:
  assumes "vr_ok (validate_query (env_nfc env) (sr_query req))"
    and "fst (plan_and_retrieve env req ctx) = Inr out"
  obtains stage where
    "fst (retrieve_stage env (sr_query req) (request_scope req) None ''search'') = Inr stage"
    "(out = Response empty_page \<and>
      history (snd (plan_and_retrieve env req ctx)) = history (snd (no_match_stage env req ctx stage))) \<or>
     (fst (grounding_stage env req ctx stage) = Inr out \<and> history (snd (plan_and_retrieve env req ctx)) = [])"
proof -
  let ?ret = "retrieve_stage env (sr_query req) (request_scope req) None ''search''"
  let ?emit = "\<lambda>stage. case best_knn_score (rs_candidates stage) of None \<Rightarrow> eret ()
      | Some b \<Rightarrow> emit_guarded env ''discovery.search.best_knn_score'' b [(''scope'', scope_value (request_scope req))]"
  let ?cond = "\<lambda>stage. if cs_candidates (rs_candidates stage) = [] then eret True
      else below_no_match_floor env (rs_candidates stage)"
  let ?next = "\<lambda>stage nm. if nm then no_match_stage env req ctx stage else grounding_stage env req ctx stage"
  have plan: "plan_and_retrieve env req ctx =
      ebind ?ret (\<lambda>stage. ebind (?emit stage) (\<lambda>_. ebind (?cond stage) (?next stage)))"
    using assms(1) by (simp add: plan_and_retrieve_def Let_def)
  obtain stage where stage: "fst ?ret = Inr stage" using assms(2) unfolding plan bind_Inr by blast
  have emit: "fst (?emit stage) = Inr ()" by (simp add: eff_simps split: option.split)
  obtain nm where nm: "fst (?cond stage) = Inr nm"
    using floor_total [of env "rs_candidates stage"]
    by (cases "cs_candidates (rs_candidates stage) = []") (auto simp: fst_eret)
  have q: "quiet (?emit stage)" "quiet (?cond stage)"
    by (auto intro: quiet_intros split: option.split)
  have fst: "fst (?next stage nm) = Inr out"
    using assms(2) stage emit nm unfolding plan by (simp add: eff_simps)
  have hist: "history (snd (plan_and_retrieve env req ctx)) = history (snd (?next stage nm))"
    unfolding plan by (simp add: history_quiet_bind [OF quiet_retrieve stage] history_quiet_bind [OF q(1) emit]
        history_quiet_bind [OF q(2) nm])
  show ?thesis
  proof (cases nm)
    case True
    then show ?thesis using that [OF stage] fst hist by (simp add: no_match_result)
  next
    case False
    then show ?thesis using that [OF stage] fst hist quiet_grounding by (simp add: quiet_def)
  qed
qed

definition search_history ::
  "search_env \<Rightarrow> (grounding_input \<Rightarrow> search_exn + string) \<Rightarrow> search_request \<Rightarrow> request_context \<Rightarrow> search_event list" where
  "search_history env hook req ctx = history (snd (run_search env hook req ctx))"

text \<open>
  One history entry per answered query: when the publisher is up and the search returns, an
  invalid query publishes nothing, and a valid one exactly one event, for this user, request and
  query, whose count is the number of cards in the response (zero for no-match and refusals).
\<close>

theorem one_history_event:
  assumes "fst (run_search env hook req ctx) = Inr response" and "env_publish_ok env"
  shows "search_history env hook req ctx =
    (if vr_ok (validate_query (env_nfc env) (sr_query req))
     then [\<lparr>ev_user_id = session_user_id (ctx_auth_session ctx), ev_request_id = ctx_request_id ctx,
            ev_query = sr_query req, ev_result_count = length (response_cards response)\<rparr>]
     else [])"
proof (cases "vr_ok (validate_query (env_nfc env) (sr_query req))")
  case False
  then show ?thesis by (simp add: search_history_def run_search_def plan_and_retrieve_def Let_def eff_simps)
next
  case True
  obtain out where out: "fst (plan_and_retrieve env req ctx) = Inr out"
    using assms(1) by (auto simp: run_search_def bind_Inr)
  have next_hist: "search_history env hook req ctx = history (snd (plan_and_retrieve env req ctx)) @
      history (snd (case out of Response r \<Rightarrow> eret r
        | Pending p \<Rightarrow> ebind (lift_res (hook (gp_input p))) (finalize env p)))"
    by (simp add: search_history_def run_search_def history_bind [OF out])
  have res: "fst (case out of Response r \<Rightarrow> eret r
        | Pending p \<Rightarrow> ebind (lift_res (hook (gp_input p))) (finalize env p)) = Inr response"
    using assms(1) out by (simp add: run_search_def eff_simps)
  from plan_cases [OF True out] obtain stage where
    "(out = Response empty_page \<and>
      history (snd (plan_and_retrieve env req ctx)) = history (snd (no_match_stage env req ctx stage))) \<or>
     (fst (grounding_stage env req ctx stage) = Inr out \<and> history (snd (plan_and_retrieve env req ctx)) = [])"
    by blast
  then show ?thesis
  proof (elim disjE conjE)
    assume o: "out = Response empty_page"
      and h: "history (snd (plan_and_retrieve env req ctx)) = history (snd (no_match_stage env req ctx stage))"
    have "response = empty_page" using res by (simp add: o eff_simps)
    then show ?thesis
      using True by (simp add: next_hist h o no_match_stage_def history_bind [OF fst_publish]
          history_publish [OF assms(2)] eff_simps empty_page_def)
  next
    assume g: "fst (grounding_stage env req ctx stage) = Inr out"
      and h: "history (snd (plan_and_retrieve env req ctx)) = []"
    from grounding_stage_Inr [OF g] obtain p where p: "out = Pending p"
      "gp_user_id p = session_user_id (ctx_auth_session ctx)" "gp_request_id p = ctx_request_id ctx"
      "gp_query p = sr_query req" by blast
    obtain verd where v: "hook (gp_input p) = Inr verd" using res by (auto simp: p(1) eff_simps split: sum.splits)
    have fin: "fst (finalize env p verd) = Inr response" using res by (simp add: p(1) v eff_simps)
    let ?r = "assemble (map_decision verd (gp_ranked p)) (gp_degrade_mode p) (personalized (gp_ranked p))"
    have r: "response = ?r" using fin by (simp add: finalize_def Let_def eff_simps)
    have "history (snd (finalize env p verd)) =
        [\<lparr>ev_user_id = gp_user_id p, ev_request_id = gp_request_id p, ev_query = gp_query p,
          ev_result_count = result_count ?r\<rparr>]"
      unfolding finalize_def Let_def
      unfolding history_quiet_bind [OF quiet_emits(4) fst_emit_grounding_health]
      by (simp add: history_bind [OF fst_publish] history_publish [OF assms(2)] eff_simps)
    then show ?thesis using True by (simp add: next_hist h p v eff_simps r result_count_cards)
  qed
qed

text \<open>A small environment for the instances: one paper, no reranker, everything up.\<close>

definition demo_env :: search_env where
  "demo_env = \<lparr>env_nfc = id, env_show = (\<lambda>_. []), env_budget = PNone, env_embed = (\<lambda>_. Inr [1]),
     env_knn = (\<lambda>_ _ _ _. Inr [(sample_record ''p1'', 9/10)]),
     env_bm25 = (\<lambda>_ _ _ _. Inr [(sample_record ''p1'', 5)]),
     env_reranker = None, env_metric_ok = (\<lambda>_. True), env_elapsed = (\<lambda>_. 0), env_publish_ok = True,
     env_boosts = (\<lambda>_. Inr []), env_rerank_live = False, env_no_match_floor = 0, env_top_n = TOP_N,
     env_jitter = (\<lambda>d. d)\<rparr>"

definition demo_request :: "string \<Rightarrow> search_request" where
  "demo_request q = \<lparr>sr_query = q, sr_scope = None\<rparr>"

definition demo_ctx :: request_context where
  "demo_ctx = \<lparr>ctx_auth_session = \<lparr>session_user_id = ''u1''\<rparr>, ctx_request_id = ''r1''\<rparr>"

lemma demo_invalid: "validate_query id [] = \<lparr>vr_ok = False, vr_reason = Some ''empty'', vr_field = Some ''query''\<rparr>"
  by (simp add: validate_query_def normalize_query_def py_strip_def rstrip_by_def lstrip_by_def)

lemma demo_valid: "normalize_query id ''ab'' = ''ab''" "vr_ok (validate_query id ''ab'')"
  by (simp_all add: validate_query_def normalize_query_def py_strip_def rstrip_by_def lstrip_by_def
      py_isspace_def control_char_def MAX_QUERY_LEN_def Let_def)

theorem one_history_event_witness:
  "\<exists>response. search_history demo_env (\<lambda>_. Inr ''abstain'') (demo_request ''ab'') demo_ctx =
     [\<lparr>ev_user_id = ''u1'', ev_request_id = ''r1'', ev_query = ''ab'',
       ev_result_count = length (response_cards response)\<rparr>]"
proof -
  have v: "vr_ok (validate_query (env_nfc demo_env) (sr_query (demo_request ''ab'')))"
    using demo_valid by (simp add: demo_env_def demo_request_def)
  obtain stage where "fst (retrieve_stage demo_env ''ab'' LITE None ''search'') = Inr stage"
    by (simp add: retrieve_stage_def Let_def expand_stage_def derive_degradation_def expand_query_def retrieve_def
        demo_env_def get_field_def unwrap_value_def py_lower_def underscore_to_dash_def py_lower_char_def
        with_years_def eff_simps split: prod.split)
  moreover have "\<exists>out. fst (plan_and_retrieve demo_env (demo_request ''ab'') demo_ctx) = Inr out"
  proof -
    have m: "env_metric_ok demo_env ''discovery.search.candidates''" by (simp add: demo_env_def)
    show ?thesis
      using calculation v grounding_stage_result [OF m, of "demo_request ''ab''" demo_ctx stage]
        no_match_result [of demo_env "demo_request ''ab''" demo_ctx stage]
        floor_total [of demo_env "rs_candidates stage"]
      by (auto simp: plan_and_retrieve_def request_scope_def demo_request_def Let_def eff_simps split: option.split)
  qed
  then obtain out where "fst (plan_and_retrieve demo_env (demo_request ''ab'') demo_ctx) = Inr out" by blast
  then have "\<exists>response. fst (run_search demo_env (\<lambda>_. Inr ''abstain'') (demo_request ''ab'') demo_ctx) = Inr response"
    by (cases out) (simp_all add: run_search_def finalize_def Let_def eff_simps)
  then obtain response where
    "fst (run_search demo_env (\<lambda>_. Inr ''abstain'') (demo_request ''ab'') demo_ctx) = Inr response" by blast
  from one_history_event [OF this] v show ?thesis
    by (auto simp: demo_env_def demo_ctx_def demo_request_def)
qed

section \<open>What escapes\<close>

text \<open>The documented exceptions of the ports.\<close>

definition ports_contract :: "search_env \<Rightarrow> bool" where
  "ports_contract env \<longleftrightarrow>
     (\<forall>q e. env_embed env q = Inl e \<longrightarrow> e = EmbeddingUnavailable) \<and>
     (\<forall>v k a y e. env_knn env v k a y = Inl e \<longrightarrow> e = IndexUnavailable) \<and>
     (\<forall>t k f y e. env_bm25 env t k f y = Inl e \<longrightarrow> e = IndexUnavailable)"

lemma expand_stage_total:
  assumes "ports_contract env"
  shows "\<exists>plan mode d. fst (expand_stage env q scope md) = Inr (plan, mode, d) \<and>
    expand_query (env_embed env) q d scope = Inr plan \<and>
    ((mode, d) = md \<or> (mode, d) = (LEXICAL_ONLY, lexical_signal)) "
proof (cases "expand_query (env_embed env) q (snd md) scope")
  case (Inr plan)
  then show ?thesis by (intro exI [of _ plan] exI [of _ "fst md"] exI [of _ "snd md"]) (simp add: expand_stage_def eff_simps)
next
  case (Inl e)
  then have "e = EmbeddingUnavailable"
    using assms by (auto simp: expand_query_def ports_contract_def Let_def split: if_splits sum.splits)
  moreover obtain plan where "expand_query (env_embed env) q lexical_signal scope = Inr plan"
    using expand_query_lexical [of lexical_signal "env_embed env" q scope] by (auto simp: lexical_signal_def)
  ultimately show ?thesis using Inl by (simp add: expand_stage_def eff_simps)
qed

lemma retrieve_errors:
  assumes "ports_contract env" and "retrieve (env_knn env) (env_bm25 env) plan = Inl e"
  shows "e = IndexUnavailable"
  using assms by (auto simp: retrieve_def ports_contract_def Let_def split: if_splits sum.splits)

lemma retrieve_stage_errors:
  assumes "ports_contract env" and "fst (retrieve_stage env q scope years caller) = Inl e"
  shows "e = SearchUnavailable \<and> (\<exists>plan. retrieve (env_knn env) (env_bm25 env) plan = Inl IndexUnavailable)"
proof -
  obtain plan mode d where ex: "fst (expand_stage env (normalize_query (env_nfc env) q) scope
      (derive_degradation (env_show env) (env_budget env))) = Inr (plan, mode, d)"
    using expand_stage_total [OF assms(1)] by blast
  show ?thesis
  proof (cases "retrieve (env_knn env) (env_bm25 env) (with_years years plan)")
    case (Inl e')
    then have "e' = IndexUnavailable" by (rule retrieve_errors [OF assms(1)])
    then show ?thesis using assms(2) ex Inl by (auto simp: retrieve_stage_def Let_def eff_simps)
  next
    case (Inr cs)
    then show ?thesis using assms(2) ex by (simp add: retrieve_stage_def Let_def eff_simps)
  qed
qed

text \<open>
  C32. Search fails closed and only for the index: when the ports raise only what they document
  and the candidates metric gets through, the one exception of the pipeline is
  \<open>SearchUnavailable\<close>, and it is raised only when an index leg is down; a failing embedding
  adapter, reranker, boosts provider, publisher or any other metric never fails a search.
\<close>

theorem only_index_failure_escapes:
  assumes "ports_contract env" and "env_metric_ok env ''discovery.search.candidates''"
    and "fst (plan_and_retrieve env req ctx) = Inl e"
  shows "e = SearchUnavailable \<and> vr_ok (validate_query (env_nfc env) (sr_query req)) \<and>
         (\<exists>plan. retrieve (env_knn env) (env_bm25 env) plan = Inl IndexUnavailable)"
proof -
  have valid: "vr_ok (validate_query (env_nfc env) (sr_query req))"
    using assms(3) by (rule contrapos_pp) (simp add: plan_and_retrieve_def Let_def eff_simps)
  let ?ret = "retrieve_stage env (sr_query req) (request_scope req) None ''search''"
  have "\<exists>e'. fst ?ret = Inl e' \<and> e' = e"
  proof (cases "fst ?ret")
    case (Inl e')
    then show ?thesis using assms(3) valid by (simp add: plan_and_retrieve_def Let_def eff_simps)
  next
    case (Inr stage)
    then show ?thesis
      using assms(3) valid grounding_stage_result [OF assms(2), of req ctx stage]
        no_match_result [of env req ctx stage] floor_total [of env "rs_candidates stage"]
      by (auto simp: plan_and_retrieve_def Let_def eff_simps split: option.splits if_splits)
  qed
  then show ?thesis using retrieve_stage_errors [OF assms(1)] valid by blast
qed

definition index_down_env :: search_env where
  "index_down_env = demo_env\<lparr>env_bm25 := (\<lambda>_ _ _ _. Inl IndexUnavailable), env_knn := (\<lambda>_ _ _ _. Inl IndexUnavailable)\<rparr>"

theorem only_index_failure_escapes_witness:
  "fst (plan_and_retrieve index_down_env (demo_request ''ab'') demo_ctx) = Inl SearchUnavailable"
proof -
  have c: "ports_contract index_down_env" by (simp add: ports_contract_def index_down_env_def demo_env_def)
  have m: "env_metric_ok index_down_env ''discovery.search.candidates''"
    by (simp add: index_down_env_def demo_env_def)
  have v: "vr_ok (validate_query (env_nfc index_down_env) (sr_query (demo_request ''ab'')))"
    using demo_valid by (simp add: index_down_env_def demo_env_def demo_request_def)
  have r: "retrieve (env_knn index_down_env) (env_bm25 index_down_env) plan = Inl IndexUnavailable" for plan
    by (simp add: retrieve_def index_down_env_def Let_def)
  obtain plan mode d where ex: "fst (expand_stage index_down_env (normalize_query (env_nfc index_down_env) ''ab'') LITE
      (derive_degradation (env_show index_down_env) (env_budget index_down_env))) = Inr (plan, mode, d)"
    using expand_stage_total [OF c] by blast
  have "\<exists>e. fst (plan_and_retrieve index_down_env (demo_request ''ab'') demo_ctx) = Inl e"
    using v ex by (simp add: plan_and_retrieve_def retrieve_stage_def request_scope_def demo_request_def r Let_def eff_simps)
  then obtain e where e: "fst (plan_and_retrieve index_down_env (demo_request ''ab'') demo_ctx) = Inl e" by blast
  from only_index_failure_escapes [OF c m e] show ?thesis using e by simp
qed

text \<open>
  One metric is not guarded: if emitting \<open>discovery.search.candidates\<close> raises, every
  search that has something to show fails with that exception, although the pending result is
  complete; the module says that observability must not raise into the search path.
\<close>

theorem candidates_metric_sinks_search:
  assumes "\<not> env_metric_ok env ''discovery.search.candidates''"
  shows "fst (grounding_stage env req ctx stage) = Inl (OtherError ''metric'') \<and>
    (\<exists>p. fst (grounding_stage (env\<lparr>env_metric_ok := \<lambda>_. True\<rparr>) req ctx stage) = Inr (Pending p))"
proof
  obtain rr0 where rr0: "fst (rank_stage env stage (env_top_n env)) = Inr rr0" using rank_stage_total by blast
  obtain rr where rr: "fst (apply_search_boosts env (session_user_id (ctx_auth_session ctx)) rr0) = Inr rr"
    using boosts_total by blast
  show "fst (grounding_stage env req ctx stage) = Inl (OtherError ''metric'')"
    using rr0 rr assms by (simp add: grounding_stage_def emit_metric_def eff_simps)
  show "\<exists>p. fst (grounding_stage (env\<lparr>env_metric_ok := \<lambda>_. True\<rparr>) req ctx stage) = Inr (Pending p)"
    using grounding_stage_result [of "env\<lparr>env_metric_ok := \<lambda>_. True\<rparr>" req ctx stage] by auto
qed

theorem candidates_metric_sinks_search_witness:
  "\<exists>stage. fst (grounding_stage (demo_env\<lparr>env_metric_ok := \<lambda>name. name \<noteq> ''discovery.search.candidates''\<rparr>)
     (demo_request ''ab'') demo_ctx stage) = Inl (OtherError ''metric'')"
  using candidates_metric_sinks_search
    [of "demo_env\<lparr>env_metric_ok := \<lambda>name. name \<noteq> ''discovery.search.candidates''\<rparr>" "demo_request ''ab''" demo_ctx]
  by simp

section \<open>Degradation\<close>

definition lexical_stage :: "search_env \<Rightarrow> retrieval_stage \<Rightarrow> bool" where
  "lexical_stage env stage \<longleftrightarrow>
     rs_degradation stage = lexical_signal \<and> plan_mode (rs_plan stage) = LEXICAL_RETRIEVAL \<and>
     embedding_vector (rs_plan stage) = None \<and> best_knn_score (rs_candidates stage) = None \<and>
     (\<exists>lexical. env_bm25 env (lexical_terms (rs_plan stage)) RETRIEVAL_TOP_K
          (if plan_scope (rs_plan stage) = FULL then full_fields else lite_fields) (plan_years (rs_plan stage)) =
          Inr lexical \<and> cs_candidates (rs_candidates stage) = reciprocal_rank_fusion [lexical])"

lemma with_years_frame [simp]:
  "plan_mode (with_years y p) = plan_mode p" "embedding_vector (with_years y p) = embedding_vector p"
  "plan_scope (with_years y p) = plan_scope p" "lexical_terms (with_years y p) = lexical_terms p"
  by (simp_all add: with_years_def split: option.split)

lemma expand_stage_lexical:
  assumes "fst (expand_stage env q scope md) = Inr (plan, LEXICAL_ONLY, d)"
    and "fst md = LEXICAL_ONLY \<longrightarrow> snd md = lexical_signal"
  shows "d = lexical_signal \<and> plan_mode plan = LEXICAL_RETRIEVAL \<and> embedding_vector plan = None"
proof -
  have "d = lexical_signal \<and> expand_query (env_embed env) q d scope = Inr plan"
  proof (cases "expand_query (env_embed env) q (snd md) scope")
    case (Inr p)
    then show ?thesis using assms by (auto simp: expand_stage_def eff_simps)
  next
    case (Inl e)
    then show ?thesis using assms(1) by (cases e) (auto simp: expand_stage_def eff_simps split: sum.splits)
  qed
  then show ?thesis by (auto simp: expand_query_def lexical_signal_def Let_def)
qed

lemma derive_lexical:
  "fst (derive_degradation other b) = LEXICAL_ONLY \<Longrightarrow> snd (derive_degradation other b) = lexical_signal"
  by (auto simp: derive_degradation_def lexical_signal_def Let_def split: if_splits)

text \<open>
  Lexical-only means lexical only: whenever a search ends up in that mode, by the budget or
  because the embedding adapter is down, the k-NN leg contributes nothing, the candidates are the
  fusion of the BM25 list alone, no k-NN score can gate the page, and the ranked page is that of
  the same search without a reranker.
\<close>

theorem lexical_only_end_to_end:
  assumes "fst (retrieve_stage env q scope years caller) = Inr stage"
    and "rs_degrade_mode stage = LEXICAL_ONLY"
  shows "lexical_stage env stage \<and>
    fst (rank_stage env stage n) = Inr (rank_candidates (rs_candidates stage) n)"
proof -
  obtain plan d cs where ex: "fst (expand_stage env (normalize_query (env_nfc env) q) scope
        (derive_degradation (env_show env) (env_budget env))) = Inr (plan, LEXICAL_ONLY, d)"
    and re: "retrieve (env_knn env) (env_bm25 env) (with_years years plan) = Inr cs"
    and st: "rs_plan stage = with_years years plan" "rs_candidates stage = cs" "rs_degradation stage = d"
    using assms
    by (auto simp: retrieve_stage_def Let_def eff_simps split: sum.splits search_exn.splits prod.splits)
  have lex: "d = lexical_signal" "plan_mode plan = LEXICAL_RETRIEVAL" "embedding_vector plan = None"
    using expand_stage_lexical [OF ex] derive_lexical by auto
  have "best_knn_score cs = None \<and> (\<exists>lexical. env_bm25 env (lexical_terms plan) RETRIEVAL_TOP_K
      (if plan_scope plan = FULL then full_fields else lite_fields) (plan_years (with_years years plan)) =
      Inr lexical \<and> cs_candidates cs = reciprocal_rank_fusion [lexical])"
    using re lex by (auto simp: retrieve_def Let_def split: sum.splits)
  moreover have "fst (rank_stage env stage n) = Inr (rank_candidates (rs_candidates stage) n)"
    by (simp add: rank_stage_def maybe_rerank_def st lex(1) lexical_signal_def Let_def eff_simps)
  ultimately show ?thesis by (simp add: lexical_stage_def st lex)
qed

definition embedding_down_env :: search_env where
  "embedding_down_env = demo_env\<lparr>env_embed := (\<lambda>_. Inl EmbeddingUnavailable)\<rparr>"

theorem lexical_only_end_to_end_witness:
  "\<exists>stage. lexical_stage embedding_down_env stage"
proof -
  have d: "derive_degradation (\<lambda>_. []) PNone = (NORMAL, \<lparr>llm_enabled = True, rerank_enabled = True\<rparr>)"
    by (simp add: derive_degradation_def get_field_def unwrap_value_def py_lower_def py_lower_char_def underscore_to_dash_def)
  have "\<exists>stage. fst (retrieve_stage embedding_down_env ''ab'' LITE None ''search'') = Inr stage \<and>
      rs_degrade_mode stage = LEXICAL_ONLY"
    by (simp add: retrieve_stage_def Let_def expand_stage_def d expand_query_def retrieve_def
        embedding_down_env_def demo_env_def with_years_def lexical_signal_def eff_simps)
  then show ?thesis using lexical_only_end_to_end by blast
qed

section \<open>Reranking fails soft\<close>

text \<open>
  A failing reranker is invisible in the result: if every attempt raises, or the scores do not
  fit the documents, the ranked page is the one without a reranker.
\<close>

theorem reranker_failure_is_soft:
  assumes "\<And>k q docs scores. reranker k q docs = Inr scores \<Longrightarrow> length scores \<noteq> length docs"
  shows "fst (rank_stage (env\<lparr>env_reranker := Some reranker\<rparr>) stage n) =
         fst (rank_stage (env\<lparr>env_reranker := None\<rparr>) stage n)"
proof -
  let ?e = "env\<lparr>env_reranker := Some reranker\<rparr>"
  have retry: "fst (rerank_retry ?e (\<lambda>k. reranker k q docs) k ds) = Inr scores \<Longrightarrow>
      \<exists>k. reranker k q docs = Inr scores" for q docs k ds scores
    by (induction ds arbitrary: k) (auto simp: eff_simps split: sum.splits search_exn.splits)
  have bad: "length scores \<noteq> length docs" if "fst (rerank_scores ?e reranker caller q docs) = Inr scores"
    for caller q docs scores
    using that assms retry
    by (auto simp: rerank_scores_def rerank_with_backoff_def eff_simps split: if_splits) blast
  have soft: "fst (maybe_rerank ?e q cs d scope caller) = Inr cs" for q cs d scope caller
  proof (cases "cs_candidates cs = [] \<or> \<not> rerank_enabled d")
    case True
    then show ?thesis by (auto simp: maybe_rerank_def eff_simps)
  next
    case False
    let ?w = "min (rerank_width scope) (length (cs_candidates cs))"
    let ?docs = "map (\<lambda>c. rerank_text (cand_record c)) (take ?w (cs_candidates cs))"
    have "\<exists>e. apply_rerank (cs_candidates cs) scores ?w = Inl e"
      if "fst (rerank_scores ?e reranker caller q ?docs) = Inr scores" for scores
      using bad [OF that] by (simp add: apply_rerank_def Let_def)
    then show ?thesis using False
      by (auto simp: maybe_rerank_def Let_def eff_simps split: sum.split)
  qed
  have none: "fst (maybe_rerank (env\<lparr>env_reranker := None\<rparr>) q cs d scope caller) = Inr cs" for q cs d scope caller
    by (simp add: maybe_rerank_def eff_simps)
  show ?thesis by (simp add: rank_stage_def Let_def eff_simps soft none)
qed

theorem reranker_failure_is_soft_witness:
  "\<forall>stage. fst (rank_stage (demo_env\<lparr>env_reranker := Some (\<lambda>_ _ _. Inl RerankThrottled)\<rparr>) stage 20) =
     fst (rank_stage (demo_env\<lparr>env_reranker := None\<rparr>) stage 20)"
  using reranker_failure_is_soft [of "\<lambda>_ _ _. Inl RerankThrottled" demo_env _ 20] by blast

definition attempt_throttled :: "search_exn + rat list \<Rightarrow> bool" where
  "attempt_throttled r = (r = Inl RerankThrottled)"

lemma retry_stops:
  assumes "\<forall>i < m. attempt_throttled (attempt (k + i))" and "m \<le> length ds"
    and "m = length ds \<or> \<not> attempt_throttled (attempt (k + m))"
  shows "rerank_retry env attempt k ds =
    (attempt (k + m), map (\<lambda>d. Slept (env_jitter env d)) (take m ds))"
  using assms
proof (induction ds arbitrary: k m)
  case Nil
  then show ?case by (simp add: lift_res_def)
next
  case (Cons d ds)
  show ?case
  proof (cases m)
    case 0
    then have "\<not> attempt_throttled (attempt k)" using Cons.prems(3) by simp
    then show ?thesis using 0
      by (auto simp: attempt_throttled_def lift_res_def split: sum.split search_exn.split)
  next
    case (Suc m')
    have t: "attempt k = Inl RerankThrottled" using Cons.prems(1) Suc by (auto simp: attempt_throttled_def)
    have "rerank_retry env attempt (Suc k) ds =
        (attempt (Suc k + m'), map (\<lambda>d. Slept (env_jitter env d)) (take m' ds))"
      using Cons.prems Suc by (intro Cons.IH) (auto simp: add.commute add.left_commute)
    then show ?thesis by (simp add: t Suc eff_simps)
  qed
qed

text \<open>
  The agent's rerank retries exactly the throttled attempts: with the first \<open>m\<close> of at
  most four attempts throttled and the next one not (or the schedule spent), the result is that of
  attempt number \<open>m\<close>, after exactly \<open>m\<close> sleeps of the first \<open>m\<close> delays.
\<close>

theorem backoff_retries_throttles:
  assumes "m \<le> 3" and "\<forall>i < m. attempt_throttled (reranker i q docs)"
    and "m = 3 \<or> \<not> attempt_throttled (reranker m q docs)"
  shows "rerank_with_backoff env reranker q docs =
    (reranker m q docs, map (\<lambda>d. Slept (env_jitter env d)) (take m [3 / 2, 3, 6]))"
proof -
  have "length AGENT_RERANK_BACKOFF = 3" by (simp add: AGENT_RERANK_BACKOFF_def)
  then have "rerank_retry env (\<lambda>k. reranker k q docs) 0 AGENT_RERANK_BACKOFF =
      (reranker m q docs, map (\<lambda>d. Slept (env_jitter env d)) (take m AGENT_RERANK_BACKOFF))"
    using retry_stops [of m "\<lambda>k. reranker k q docs" 0 AGENT_RERANK_BACKOFF env] assms by simp
  then show ?thesis by (simp only: rerank_with_backoff_def AGENT_RERANK_BACKOFF_def)
qed

theorem backoff_retries_throttles_witness:
  "rerank_with_backoff demo_env (\<lambda>k _ _. if k < 2 then Inl RerankThrottled else Inr [1]) ''q'' [''d''] =
     (Inr [1], [Slept (3 / 2), Slept 3])"
  using backoff_retries_throttles
    [of 2 "\<lambda>k _ _. if k < 2 then Inl RerankThrottled else Inr [1]" "''q''" "[''d'']" demo_env]
  by (simp add: attempt_throttled_def demo_env_def eval_nat_numeral)

end
