(* ===== verification/Ops_Grounding.thy ===== *)
theory Ops_Grounding imports Py_Value begin

text \<open>
  The single grounding gate of the platform (U6): \<open>GroundingEnforcementHook\<close> of
  \<open>ops/src/docsuri_ops/grounding.py\<close>. The gate is duck-typed: it reads candidates and
  records given as objects, dictionaries or sequences, so its inputs are the values \<open>pyval\<close>.
  Shown: the exact meaning of each verdict, and that identifiers are compared up to version suffix,
  letter case and arXiv URL form.
\<close>

section \<open>Identifiers\<close>

definition is_az :: "char \<Rightarrow> bool" where
  "is_az c = (let n = (of_char c :: nat) in 97 \<le> n \<and> n \<le> 122)"

text \<open>The pattern \<open>\d{4}\.\d{4,5}|[a-z][a-z.-]*/\d{7}\<close>, matched against a whole text.\<close>

definition new_style :: "string \<Rightarrow> bool" where
  "new_style s =
     (length (takeWhile py_isdigit s) = 4 \<and>
      (case dropWhile py_isdigit s of
         [] \<Rightarrow> False
       | c # rest \<Rightarrow> c = CHR ''.'' \<and> length rest \<in> {4, 5} \<and> list_all py_isdigit rest))"

definition old_style :: "string \<Rightarrow> bool" where
  "old_style s =
     (let archive = takeWhile (\<lambda>c. c \<noteq> CHR ''/'') s; rest = dropWhile (\<lambda>c. c \<noteq> CHR ''/'') s in
      archive \<noteq> [] \<and> is_az (hd archive) \<and>
      list_all (\<lambda>c. is_az c \<or> c = CHR ''.'' \<or> c = CHR ''-'') (tl archive) \<and>
      rest \<noteq> [] \<and> length (tl rest) = 7 \<and> list_all py_isdigit (tl rest))"

definition is_arxiv_base :: "string \<Rightarrow> bool" where
  "is_arxiv_base s = (new_style s \<or> old_style s)"

text \<open>The optional group \<open>(?:v\d+)?\<close> at the end.\<close>

definition drop_version :: "string \<Rightarrow> string" where
  "drop_version s =
     (let digits = takeWhile py_isdigit (rev s); rest = dropWhile py_isdigit (rev s) in
      case rest of
        [] \<Rightarrow> s
      | c # b \<Rightarrow> if digits \<noteq> [] \<and> c = CHR ''v'' then rev b else s)"

definition arxiv_fullmatch :: "string \<Rightarrow> string option" where
  "arxiv_fullmatch s =
     (if is_arxiv_base s then Some s
      else if is_arxiv_base (drop_version s) then Some (drop_version s) else None)"

text \<open>The pattern \<open>^(?:https?://)?(?:www\.)?arxiv\.org/(?:abs|pdf)/\<close>, substituted by nothing.\<close>

definition strip_scheme :: "string \<Rightarrow> string" where
  "strip_scheme s = (if starts_with ''https://'' s then drop 8 s
                     else if starts_with ''http://'' s then drop 7 s else s)"

definition sub_arxiv_url :: "string \<Rightarrow> string" where
  "sub_arxiv_url s =
     (let r = remove_prefix ''www.'' (strip_scheme s) in
      if starts_with ''arxiv.org/abs/'' r \<or> starts_with ''arxiv.org/pdf/'' r then drop 14 r else s)"

definition normalize_identifier :: "string \<Rightarrow> string" where
  "normalize_identifier value =
     (let normalized = rstrip_by (\<lambda>c. c = CHR ''/'')
            (remove_prefix ''arxiv:'' (sub_arxiv_url (py_lower (py_strip value))))
      in case arxiv_fullmatch normalized of Some b \<Rightarrow> b | None \<Rightarrow> normalized)"

section \<open>References\<close>

definition id_attrs :: "string list" where
  "id_attrs = [''arxivId'', ''paperId'', ''arxivUrl'']"

text \<open>\<open>str(url).rstrip("/").split("/")[-1]\<close>\<close>

definition last_segment :: "string \<Rightarrow> string" where
  "last_segment url =
     rev (takeWhile (\<lambda>c. c \<noteq> CHR ''/'') (rev (rstrip_by (\<lambda>c. c = CHR ''/'') url)))"

definition ids_of_record :: "(pyval \<Rightarrow> string) \<Rightarrow> pyval \<Rightarrow> string list" where
  "ids_of_record other r =
     map (\<lambda>a. normalize_identifier (py_str other (get_field r a)))
       (filter (\<lambda>a. py_truthy (get_field r a)) id_attrs) @
     (if py_truthy (get_field r ''arxivUrl'')
      then [normalize_identifier (last_segment (py_str other (get_field r ''arxivUrl'')))] else [])"

definition record_ids :: "(pyval \<Rightarrow> string) \<Rightarrow> pyval list \<Rightarrow> string list" where
  "record_ids other records = concat (map (ids_of_record other) records)"

definition candidate_reference :: "(pyval \<Rightarrow> string) \<Rightarrow> pyval \<Rightarrow> string option" where
  "candidate_reference other item =
     (let record = get_field item ''record'';
          source = (if record \<noteq> PNone then record else item)
      in case filter (\<lambda>a. py_truthy (get_field source a)) id_attrs of
           [] \<Rightarrow> None
         | a # _ \<Rightarrow> Some (py_str other (get_field source a)))"

definition item_attrs :: "string list" where
  "item_attrs = [''cards'', ''results'', ''items'', ''ranked'', ''candidates'']"

definition candidate_items :: "pyval \<Rightarrow> pyval list option" where
  "candidate_items candidate =
     (case candidate of
        PNone \<Rightarrow> Some []
      | PSeq xs \<Rightarrow> Some xs
      | _ \<Rightarrow> (case filter (\<lambda>a. get_field candidate a \<noteq> PNone) item_attrs of
                [] \<Rightarrow> Some []
              | a # _ \<Rightarrow> py_tuple (get_field candidate a)))"

section \<open>The gate\<close>

record grounding_violation =
  gv_code :: string
  gv_arxiv_id :: "string option"

record grounding_decision =
  verdict :: string
  violations :: "grounding_violation list"

definition bad_reference :: "string option \<Rightarrow> bool" where
  "bad_reference ref = (case ref of None \<Rightarrow> True | Some r \<Rightarrow> r = [])"

definition check_reference :: "string list \<Rightarrow> string option \<Rightarrow> grounding_violation option" where
  "check_reference ids ref =
     (case ref of
        None \<Rightarrow> Some \<lparr>gv_code = ''missing_reference'', gv_arxiv_id = None\<rparr>
      | Some r \<Rightarrow>
          if r = [] then Some \<lparr>gv_code = ''missing_reference'', gv_arxiv_id = None\<rparr>
          else if normalize_identifier r \<notin> set ids
          then Some \<lparr>gv_code = ''fabricated_reference'', gv_arxiv_id = Some r\<rparr>
          else None)"

definition decide :: "string list \<Rightarrow> string option list \<Rightarrow> grounding_decision" where
  "decide ids refs =
     (if ids = []
      then \<lparr>verdict = ''abstain'',
            violations = [\<lparr>gv_code = ''no_retrieved_records'', gv_arxiv_id = None\<rparr>]\<rparr>
      else if \<not> list_ex (\<lambda>r. \<not> bad_reference r) refs
      then \<lparr>verdict = ''abstain'',
            violations = [\<lparr>gv_code = ''no_candidate_references'', gv_arxiv_id = None\<rparr>]\<rparr>
      else case List.map_filter (check_reference ids) refs of
             [] \<Rightarrow> \<lparr>verdict = ''pass'', violations = []\<rparr>
           | vs \<Rightarrow> \<lparr>verdict = ''block'', violations = vs\<rparr>)"

definition enforce ::
  "(pyval \<Rightarrow> string) \<Rightarrow> pyval \<Rightarrow> pyval list \<Rightarrow> string + grounding_decision" where
  "enforce other candidate retrieved =
     (case candidate_items candidate of
        None \<Rightarrow> Inl ''TypeError''
      | Some items \<Rightarrow> Inr (decide (record_ids other retrieved) (map (candidate_reference other) items)))"

section \<open>The evaluation set\<close>

record eval_result =
  er_name :: pyval
  er_expected :: pyval
  er_actual :: string
  er_passed :: bool
  er_violation_count :: nat

record eval_report =
  case_count :: nat
  passed_count :: nat
  fabrication_count :: nat
  abstain_count :: nat
  eval_results :: "eval_result list"

definition eval_case :: "(pyval \<Rightarrow> string) \<Rightarrow> (string \<times> pyval) list \<Rightarrow> string + eval_result" where
  "eval_case other c =
     (case py_tuple (case dget c ''retrieved'' of None \<Rightarrow> PSeq [] | Some v \<Rightarrow> v) of
        None \<Rightarrow> Inl ''TypeError''
      | Some retrieved \<Rightarrow>
          (case enforce other (pget c ''candidate'') retrieved of
             Inl err \<Rightarrow> Inl err
           | Inr d \<Rightarrow>
               (let expected = pget c ''expected'' in
                Inr \<lparr>er_name = (case dget c ''name'' of None \<Rightarrow> PStr ''case'' | Some v \<Rightarrow> v),
                     er_expected = expected, er_actual = verdict d,
                     er_passed = (expected = PNone \<or> expected = PStr (verdict d)),
                     er_violation_count = length (violations d)\<rparr>)))"

fun eval_cases ::
  "(pyval \<Rightarrow> string) \<Rightarrow> (string \<times> pyval) list list \<Rightarrow> string + eval_result list" where
  "eval_cases other [] = Inr []"
| "eval_cases other (c # cs) =
     (case eval_case other c of
        Inl err \<Rightarrow> Inl err
      | Inr r \<Rightarrow> (case eval_cases other cs of Inl err \<Rightarrow> Inl err | Inr rs \<Rightarrow> Inr (r # rs)))"

definition run_eval_set ::
  "(pyval \<Rightarrow> string) \<Rightarrow> (string \<times> pyval) list list \<Rightarrow> string + eval_report" where
  "run_eval_set other cases =
     (case eval_cases other cases of
        Inl err \<Rightarrow> Inl err
      | Inr rs \<Rightarrow> Inr \<lparr>case_count = length rs, passed_count = length (filter er_passed rs),
                       fabrication_count = length (filter (\<lambda>r. er_actual r = ''block'') rs),
                       abstain_count = length (filter (\<lambda>r. er_actual r = ''abstain'') rs),
                       eval_results = rs\<rparr>)"

section \<open>What the verdicts mean\<close>

definition grounded_ref :: "string list \<Rightarrow> string option \<Rightarrow> bool" where
  "grounded_ref ids ref \<longleftrightarrow> (\<exists>r. ref = Some r \<and> r \<noteq> [] \<and> normalize_identifier r \<in> set ids)"

lemma check_reference_None: "check_reference ids ref = None \<longleftrightarrow> grounded_ref ids ref"
  by (auto simp: check_reference_def grounded_ref_def split: option.splits)

lemma map_filter_Nil: "List.map_filter f xs = [] \<longleftrightarrow> (\<forall>x \<in> set xs. f x = None)"
  by (induction xs) (auto simp: List.map_filter_simps split: option.splits)

lemma bad_not_grounded: "bad_reference r \<Longrightarrow> \<not> grounded_ref ids r"
  by (auto simp: bad_reference_def grounded_ref_def split: option.splits)

lemma verdict_pass:
  "verdict (decide ids refs) = ''pass'' \<longleftrightarrow> refs \<noteq> [] \<and> (\<forall>r \<in> set refs. grounded_ref ids r)"
proof (cases refs)
  case (Cons r rs)
  then show ?thesis
    using map_filter_Nil [of "check_reference ids" refs] bad_not_grounded
    by (auto simp: decide_def check_reference_None list_ex_iff grounded_ref_def split: list.splits)
qed (simp add: decide_def)

lemma verdict_abstain:
  "verdict (decide ids refs) = ''abstain'' \<longleftrightarrow> ids = [] \<or> (\<forall>r \<in> set refs. bad_reference r)"
  by (auto simp: decide_def list_ex_iff split: list.splits)

lemma verdict_range: "verdict (decide ids refs) \<in> {''pass'', ''block'', ''abstain''}"
  by (auto simp: decide_def split: list.splits)

lemma block_violations:
  "verdict (decide ids refs) = ''block'' \<Longrightarrow> violations (decide ids refs) = List.map_filter (check_reference ids) refs"
  by (auto simp: decide_def split: if_splits list.splits)

lemmas verdict_facts = verdict_pass verdict_abstain verdict_range block_violations

text \<open>
  C16. The gate lets a response through exactly when it shows something and every item it shows
  carries a reference found among the retrieved records; it abstains exactly when nothing was
  retrieved or no item carries a reference; otherwise it blocks, listing one violation per item
  that is not grounded.
\<close>

theorem enforce_verdicts:
  assumes "candidate_items candidate = Some items"
  shows "\<exists>d. enforce other candidate retrieved = Inr d \<and>
    (let ids = record_ids other retrieved; refs = map (candidate_reference other) items in
     (verdict d = ''pass'' \<longleftrightarrow> items \<noteq> [] \<and> (\<forall>r \<in> set refs. grounded_ref ids r)) \<and>
     (verdict d = ''abstain'' \<longleftrightarrow> ids = [] \<or> (\<forall>r \<in> set refs. bad_reference r)) \<and>
     (verdict d = ''block'' \<longrightarrow>
        length (violations d) = length (filter (\<lambda>r. \<not> grounded_ref ids r) refs)) \<and>
     verdict d \<in> {''pass'', ''block'', ''abstain''})"
proof -
  have len: "length (List.map_filter (check_reference ids) refs) =
      length (filter (\<lambda>r. \<not> grounded_ref ids r) refs)" for ids refs
    by (induction refs)
       (auto simp: List.map_filter_simps simp flip: check_reference_None split: option.splits)
  let ?ids = "record_ids other retrieved" and ?refs = "map (candidate_reference other) items"
  let ?d = "decide ?ids ?refs"
  have "enforce other candidate retrieved = Inr ?d" using assms by (simp add: enforce_def)
  moreover have "verdict ?d = ''pass'' \<longleftrightarrow> items \<noteq> [] \<and> (\<forall>r \<in> set ?refs. grounded_ref ?ids r)"
    using verdict_pass [of ?ids ?refs] by simp
  moreover have "verdict ?d = ''block'' \<longrightarrow>
      length (violations ?d) = length (filter (\<lambda>r. \<not> grounded_ref ?ids r) ?refs)"
    by (metis block_violations len)
  ultimately show ?thesis
    unfolding Let_def using verdict_abstain [of ?ids ?refs] verdict_range [of ?ids ?refs] by blast
qed

definition demo_record :: "string \<Rightarrow> pyval" where
  "demo_record pid = PObj [(''arxivId'', PStr pid), (''paperId'', PStr pid)]"

theorem enforce_verdicts_witness:
  "\<exists>d. enforce (\<lambda>_. []) (PDict [(''cards'', PSeq [demo_record ''2401.00001v2''])])
         [demo_record ''2401.00001''] = Inr d \<and> verdict d = ''pass''"
proof -
  have items: "candidate_items (PDict [(''cards'', PSeq [demo_record ''2401.00001v2''])]) =
      Some [demo_record ''2401.00001v2'']"
    by (simp add: candidate_items_def item_attrs_def get_field_def pget_def dict_simps)
  have norm: "normalize_identifier ''2401.00001v2'' = ''2401.00001''"
      "normalize_identifier ''2401.00001'' = ''2401.00001''"
    by (simp_all add: normalize_identifier_def py_strip_def rstrip_by_def lstrip_by_def py_isspace_def
        py_lower_def py_lower_char_def sub_arxiv_url_def strip_scheme_def remove_prefix_def starts_with_def
        arxiv_fullmatch_def is_arxiv_base_def new_style_def old_style_def drop_version_def py_isdigit_def
        is_az_def Let_def)
  have ids: "''2401.00001'' \<in> set (record_ids (\<lambda>_. []) [demo_record ''2401.00001''])"
    by (simp add: record_ids_def ids_of_record_def id_attrs_def demo_record_def get_field_def pget_def py_str_def
        dict_simps norm)
  have ref: "candidate_reference (\<lambda>_. []) (demo_record ''2401.00001v2'') = Some ''2401.00001v2''"
    by (simp add: candidate_reference_def demo_record_def get_field_def pget_def id_attrs_def py_str_def dict_simps)
  show ?thesis
    using enforce_verdicts [OF items, of "\<lambda>_. []" "[demo_record ''2401.00001'']"] ids norm ref
    by (auto simp: Let_def grounded_ref_def)
qed

section \<open>Identifiers are compared up to form\<close>

definition base_char :: "char \<Rightarrow> bool" where
  "base_char c = (is_az c \<or> py_isdigit c \<or> c \<in> {CHR ''.'', CHR ''-'', CHR ''/''})"

lemma base_char_plain: "base_char c \<Longrightarrow> \<not> py_isspace c \<and> py_lower_char c = c \<and> c \<noteq> CHR '':''"
  by (auto simp: base_char_def is_az_def py_isdigit_def py_isspace_def py_lower_char_def Let_def)

lemma az_not_digit: "is_az c \<Longrightarrow> \<not> py_isdigit c"
  by (simp add: is_az_def py_isdigit_def Let_def)

lemma digit_not_slash: "py_isdigit c \<Longrightarrow> c \<noteq> CHR ''/'' \<and> c \<noteq> CHR ''v'' \<and> c \<noteq> CHR ''.''"
  by (auto simp: py_isdigit_def)

lemma digits_no_slash: "list_all py_isdigit ds \<Longrightarrow> CHR ''/'' \<notin> set ds"
  by (metis digit_not_slash list_all_iff)

lemma remove_prefix_cases: "s = remove_prefix p s \<or> s = p @ remove_prefix p s"
  by (metis append_take_drop_id remove_prefix_def starts_with_def)

text \<open>The two shapes, taken apart.\<close>

lemma new_style_parts:
  assumes "new_style b"
  obtains ys ns where "b = ys @ CHR ''.'' # ns" "list_all py_isdigit ys" "list_all py_isdigit ns"
    "length ys = 4" "length ns \<in> {4, 5}"
proof -
  obtain ns where d: "dropWhile py_isdigit b = CHR ''.'' # ns" "length ns \<in> {4, 5}" "list_all py_isdigit ns"
    using assms by (auto simp: new_style_def split: list.splits)
  moreover have "b = takeWhile py_isdigit b @ dropWhile py_isdigit b" by simp
  moreover have "list_all py_isdigit (takeWhile py_isdigit b)" by (auto simp: list_all_iff dest: set_takeWhileD)
  ultimately show ?thesis using that assms by (metis new_style_def)
qed

lemma old_style_parts:
  assumes "old_style b"
  obtains a as ns where "b = (a # as) @ CHR ''/'' # ns" "is_az a" "list_all py_isdigit ns" "length ns = 7"
    "list_all (\<lambda>c. is_az c \<or> c = CHR ''.'' \<or> c = CHR ''-'') as" "CHR ''/'' \<notin> set (a # as)"
proof -
  let ?pre = "takeWhile (\<lambda>c. c \<noteq> CHR ''/'') b" and ?suf = "dropWhile (\<lambda>c. c \<noteq> CHR ''/'') b"
  obtain a as where pre: "?pre = a # as" using assms by (cases ?pre) (auto simp: old_style_def Let_def)
  obtain x ns where suf: "?suf = x # ns" using assms by (cases ?suf) (auto simp: old_style_def Let_def)
  then have x: "x = CHR ''/''" using hd_dropWhile [of "\<lambda>c. c \<noteq> CHR ''/''" b] by auto
  have "b = ?pre @ ?suf" by simp
  then have "b = (a # as) @ CHR ''/'' # ns" by (simp only: pre suf x)
  moreover have "CHR ''/'' \<notin> set (a # as)" using set_takeWhileD [of _ "\<lambda>c. c \<noteq> CHR ''/''" b] pre by metis
  ultimately show ?thesis using that assms pre suf by (simp add: old_style_def Let_def)
qed

definition version_suffix :: "string \<Rightarrow> bool" where
  "version_suffix v = (v = [] \<or> (\<exists>ds. v = CHR ''v'' # ds \<and> ds \<noteq> [] \<and> list_all py_isdigit ds))"

lemma takeWhile_split: "\<forall>x \<in> set xs. P x \<Longrightarrow> \<not> P y \<Longrightarrow>
    takeWhile P (xs @ y # ys) = xs \<and> dropWhile P (xs @ y # ys) = y # ys"
  by (simp add: takeWhile_append2 dropWhile_append2)

lemma drop_version_suffix: "ds \<noteq> [] \<Longrightarrow> list_all py_isdigit ds \<Longrightarrow> drop_version (b @ CHR ''v'' # ds) = b"
proof -
  assume d: "ds \<noteq> []" "list_all py_isdigit ds"
  have nv: "\<not> py_isdigit (CHR ''v'')" by (simp add: py_isdigit_def)
  have "takeWhile py_isdigit (rev ds @ CHR ''v'' # rev b) = rev ds"
    "dropWhile py_isdigit (rev ds @ CHR ''v'' # rev b) = CHR ''v'' # rev b"
    using takeWhile_split [of "rev ds" py_isdigit "CHR ''v''" "rev b"] d nv by (simp_all add: list_all_iff)
  then show ?thesis using d by (simp add: drop_version_def)
qed

lemma versioned_not_base:
  assumes "is_arxiv_base b" and "ds \<noteq> []"
  shows "\<not> is_arxiv_base (b @ CHR ''v'' # ds)"
proof -
  have nv: "\<not> py_isdigit (CHR ''v'')" "\<not> py_isdigit (CHR ''.'')" by (simp_all add: py_isdigit_def)
  show ?thesis
  proof (cases "new_style b")
    case True
    then obtain ys ns where p: "b = ys @ CHR ''.'' # ns" "list_all py_isdigit ys" "list_all py_isdigit ns"
      by (rule new_style_parts)
    let ?t = "ys @ CHR ''.'' # (ns @ CHR ''v'' # ds)"
    have "dropWhile py_isdigit ?t = CHR ''.'' # (ns @ CHR ''v'' # ds)"
      using takeWhile_split [of ys py_isdigit "CHR ''.''"] p nv by (auto simp: list_all_iff)
    then have "\<not> new_style ?t" using nv by (simp add: new_style_def)
    moreover have "\<not> old_style ?t"
    proof
      assume "old_style ?t"
      then obtain a as where "ys @ CHR ''.'' # (ns @ CHR ''v'' # ds) = a # as" "is_az a"
        by (rule old_style_parts) auto
      then show False using p az_not_digit by (cases ys) (auto simp: is_az_def)
    qed
    ultimately show ?thesis by (simp add: is_arxiv_base_def p)
  next
    case False
    then have "old_style b" using assms by (simp add: is_arxiv_base_def)
    then obtain a as ns where p: "b = (a # as) @ CHR ''/'' # ns" "is_az a" "length ns = 7"
      "CHR ''/'' \<notin> set (a # as)" by (rule old_style_parts) auto
    let ?t = "(a # as) @ CHR ''/'' # (ns @ CHR ''v'' # ds)"
    have "\<not> new_style ?t" using p az_not_digit by (simp add: new_style_def)
    moreover have "dropWhile (\<lambda>c. c \<noteq> CHR ''/'') ?t = CHR ''/'' # (ns @ CHR ''v'' # ds)"
      using p(4) by (intro takeWhile_split [THEN conjunct2]) auto
    then have "\<not> old_style ?t" using p by (simp add: old_style_def Let_def)
    ultimately show ?thesis by (simp add: is_arxiv_base_def p)
  qed
qed

lemma fullmatch_versioned:
  assumes "is_arxiv_base b" and "version_suffix v"
  shows "arxiv_fullmatch (b @ v) = Some b"
  using assms versioned_not_base [OF assms(1)] drop_version_suffix
  by (auto simp: version_suffix_def arxiv_fullmatch_def)

lemma base_chars:
  assumes "is_arxiv_base b"
  shows "list_all base_char b" and "b \<noteq> []" and "\<not> py_isspace (hd b)"
    and "py_isdigit (last b)"
proof -
  have "list_all base_char b \<and> b \<noteq> [] \<and> py_isdigit (last b)"
  proof (cases "new_style b")
    case True
    then obtain ys ns where "b = ys @ CHR ''.'' # ns" "list_all py_isdigit ys" "list_all py_isdigit ns"
      "length ns \<in> {4, 5}" by (rule new_style_parts)
    then show ?thesis by (cases ns rule: rev_cases) (auto simp: list_all_iff base_char_def)
  next
    case False
    then have "old_style b" using assms by (simp add: is_arxiv_base_def)
    then obtain a as ns where "b = (a # as) @ CHR ''/'' # ns" "is_az a" "list_all py_isdigit ns" "length ns = 7"
      "list_all (\<lambda>c. is_az c \<or> c = CHR ''.'' \<or> c = CHR ''-'') as" by (rule old_style_parts)
    then show ?thesis by (cases ns rule: rev_cases) (auto simp: list_all_iff base_char_def)
  qed
  then show "list_all base_char b" "b \<noteq> []" "py_isdigit (last b)" by auto
  then show "\<not> py_isspace (hd b)" using base_char_plain by (cases b) auto
qed

lemma versioned_chars:
  assumes "is_arxiv_base b" and "version_suffix v"
  shows "list_all base_char (b @ v)" and "py_isdigit (last (b @ v))"
  using base_chars [OF assms(1)] assms(2)
  by (auto simp: version_suffix_def list_all_iff base_char_def is_az_def)

text \<open>After the first slash of a base identifier comes a digit, so it is no arXiv path.\<close>

lemma no_arxiv_path:
  assumes "is_arxiv_base b" and "version_suffix v" and c: "is_az c" "CHR ''/'' \<notin> set p"
  shows "\<not> starts_with (p @ ''arxiv.org/'' @ [c]) (b @ v)"
proof
  assume "starts_with (p @ ''arxiv.org/'' @ [c]) (b @ v)"
  then obtain t where t: "b @ v = (p @ ''arxiv.org'') @ CHR ''/'' # c # t" by (auto simp: starts_with_iff)
  let ?S = "\<lambda>s. dropWhile (\<lambda>c. c \<noteq> CHR ''/'') s"
  have S: "?S (b @ v) = CHR ''/'' # c # t"
    unfolding t using c by (intro takeWhile_split [THEN conjunct2]) auto
  have vs: "CHR ''/'' \<notin> set v" using assms(2) digits_no_slash by (auto simp: version_suffix_def)
  show False
  proof (cases "new_style b")
    case True
    then obtain ys ns where "b = ys @ CHR ''.'' # ns" "list_all py_isdigit ys" "list_all py_isdigit ns"
      by (rule new_style_parts)
    then have "CHR ''/'' \<notin> set (b @ v)" using vs digits_no_slash by auto
    then show False using t by simp
  next
    case False
    then have "old_style b" using assms by (simp add: is_arxiv_base_def)
    then obtain a as ns where p: "b = (a # as) @ CHR ''/'' # ns" "list_all py_isdigit ns" "length ns = 7"
      "CHR ''/'' \<notin> set (a # as)" by (rule old_style_parts) auto
    have "?S ((a # as) @ CHR ''/'' # (ns @ v)) = CHR ''/'' # (ns @ v)"
      using p(4) by (intro takeWhile_split [THEN conjunct2]) auto
    then have "CHR ''/'' # (ns @ v) = CHR ''/'' # c # t" using S p(1) by simp
    then have "hd ns = c" using p(3) by (cases ns) auto
    then show False using p(2,3) c(1) az_not_digit by (cases ns) auto
  qed
qed

lemma starts_with_mem: "starts_with p s \<Longrightarrow> c \<in> set p \<Longrightarrow> c \<in> set s"
  by (auto simp: starts_with_iff)

lemma sub_url_plain:
  assumes "is_arxiv_base b" and "version_suffix v"
  shows "sub_arxiv_url (b @ v) = b @ v" and "remove_prefix ''arxiv:'' (b @ v) = b @ v"
proof -
  let ?t = "b @ v"
  have colon: "CHR '':'' \<notin> set ?t" using versioned_chars(1) [OF assms] base_char_plain by (auto simp: list_all_iff)
  have "\<not> starts_with ''https://'' ?t" "\<not> starts_with ''http://'' ?t" "\<not> starts_with ''arxiv:'' ?t"
    using colon starts_with_mem by force+
  note ns = this
  have "\<not> starts_with ''arxiv.org/abs/'' r \<and> \<not> starts_with ''arxiv.org/pdf/'' r"
    if "r = remove_prefix ''www.'' ?t" for r
  proof -
    have p: "?t = r \<or> ?t = ''www.'' @ r"
      unfolding that by (rule remove_prefix_cases)
    have "starts_with ''arxiv.org/abs/'' r \<Longrightarrow> starts_with (''arxiv.org/'' @ ''a'') r"
      "starts_with ''arxiv.org/pdf/'' r \<Longrightarrow> starts_with (''arxiv.org/'' @ ''p'') r"
      by (auto simp: starts_with_iff)
    moreover have "starts_with (''arxiv.org/'' @ [c]) r \<Longrightarrow>
        starts_with ([] @ ''arxiv.org/'' @ [c]) ?t \<or> starts_with (''www.'' @ ''arxiv.org/'' @ [c]) ?t" for c
      using p by (auto simp: starts_with_iff)
    moreover have "is_az (CHR ''a'')" "is_az (CHR ''p'')" by (simp_all add: is_az_def)
    ultimately show ?thesis
      using no_arxiv_path [OF assms, of _ "[]"] no_arxiv_path [OF assms, of _ "''www.''"] by auto
  qed
  then show "sub_arxiv_url ?t = ?t" using ns by (simp add: sub_arxiv_url_def strip_scheme_def Let_def)
  show "remove_prefix ''arxiv:'' ?t = ?t" using ns by (simp add: remove_prefix_def)
qed

text \<open>What an identifier may be wrapped in: nothing, the scheme prefix, or an arXiv URL.\<close>

definition arxiv_wrappers :: "string list" where
  "arxiv_wrappers =
     [[], ''arXiv:'', ''https://arxiv.org/abs/'', ''http://www.arxiv.org/pdf/'', ''arxiv.org/abs/'']"

lemma rstrip_by_id: "\<not> P (last s) \<Longrightarrow> rstrip_by P s = s"
  by (cases s rule: rev_cases) (simp_all add: rstrip_by_def)

lemma sub_url_wrapped:
  "sub_arxiv_url (''https://arxiv.org/abs/'' @ t) = t"
  "sub_arxiv_url (''http://www.arxiv.org/pdf/'' @ t) = t"
  "sub_arxiv_url (''arxiv:'' @ t) = ''arxiv:'' @ t"
  "remove_prefix ''arxiv:'' (''arxiv:'' @ t) = t"
  by (simp_all add: sub_arxiv_url_def strip_scheme_def remove_prefix_def starts_with_def Let_def)

lemma sub_url_bare: "sub_arxiv_url (''arxiv.org/abs/'' @ t) = t"
  by (simp add: sub_arxiv_url_def strip_scheme_def remove_prefix_def starts_with_def Let_def)

lemma lower_wrappers:
  "map py_lower arxiv_wrappers =
     [[], ''arxiv:'', ''https://arxiv.org/abs/'', ''http://www.arxiv.org/pdf/'', ''arxiv.org/abs/'']"
  by (simp add: arxiv_wrappers_def py_lower_def py_lower_char_def char_of_def bit_0)

lemma normalize_wrapped:
  assumes "is_arxiv_base b" and "version_suffix v" and "w \<in> set arxiv_wrappers"
  shows "normalize_identifier (w @ b @ v) = b"
proof -
  let ?t = "b @ v"
  have ne: "?t \<noteq> []" using base_chars(2) [OF assms(1)] by simp
  have chars: "\<not> py_isspace c \<and> py_lower_char c = c" if "c \<in> set ?t" for c
    using that versioned_chars(1) [OF assms(1,2)] base_char_plain by (metis list_all_iff)
  have low: "py_lower ?t = ?t" using chars by (simp add: py_lower_def map_idI)
  have "\<not> py_isspace (last ?t)" "\<not> py_isspace (hd ?t)" using chars ne by (metis last_in_set, metis hd_in_set)
  then have "py_strip (w @ ?t) = w @ ?t"
    using assms(3) ne by (intro py_strip_id) (auto simp: arxiv_wrappers_def py_isspace_def)
  moreover have "remove_prefix ''arxiv:'' (sub_arxiv_url (py_lower w @ ?t)) = ?t"
  proof -
    have "py_lower w \<in> set (map py_lower arxiv_wrappers)" using assms(3) by simp
    then consider "py_lower w = []" | "py_lower w = ''arxiv:''" | "py_lower w = ''https://arxiv.org/abs/''"
      | "py_lower w = ''http://www.arxiv.org/pdf/''" | "py_lower w = ''arxiv.org/abs/''"
      unfolding lower_wrappers by auto
    then show ?thesis
      using sub_url_plain [OF assms(1,2)]
      by cases (simp_all only: sub_url_wrapped sub_url_bare append_Nil)
  qed
  moreover have "last ?t \<noteq> CHR ''/''"
    using versioned_chars(2) [OF assms(1,2)] digit_not_slash by blast
  then have "rstrip_by (\<lambda>c. c = CHR ''/'') ?t = ?t" by (intro rstrip_by_id)
  ultimately show ?thesis
    using fullmatch_versioned [OF assms(1,2)] py_lower_append [of w ?t]
    by (simp only: normalize_identifier_def Let_def low option.case)
qed

text \<open>
  A reference is recognised in every form: the identifier of an arXiv paper (new style or old
  style with its archive) normalizes to itself whether it comes with a version suffix, with the
  \<open>arXiv:\<close> prefix, as an abs or pdf URL, or bare; so no form of a retrieved paper's id is
  taken for a fabricated one.
\<close>

theorem identifier_forms_agree:
  assumes "is_arxiv_base b" and "version_suffix v" and "version_suffix v'"
    and "w \<in> set arxiv_wrappers" and "w' \<in> set arxiv_wrappers"
  shows "normalize_identifier (w @ b @ v) = b \<and>
         normalize_identifier (w @ b @ v) = normalize_identifier (w' @ b @ v')"
  using normalize_wrapped assms by simp

theorem identifier_forms_agree_witness:
  "normalize_identifier ''https://arxiv.org/abs/hep-th/0601001v3'' = ''hep-th/0601001''"
  using identifier_forms_agree [of "''hep-th/0601001''" "''v3''" "[]" "''https://arxiv.org/abs/''" "[]"]
  by (simp add: arxiv_wrappers_def version_suffix_def is_arxiv_base_def old_style_def py_isdigit_def
      is_az_def Let_def)

end
