(* ===== verification/Ops_Detectors.thy ===== *)
theory Ops_Detectors imports Ops_Cost begin

text \<open>
  The incident detectors of operations: \<open>ops/src/docsuri_ops/detectors.py\<close> and
  \<open>AiIncidentDetectorSuite\<close> of \<open>incidents.py\<close>. A detector keeps a bounded set of the
  keys it has reported. Calls that convert untyped payload values may raise; the name of the
  exception is the error value. Shown: which events are incidents and of what severity, and that
  one signal is reported once.
\<close>

section \<open>Data\<close>

datatype incident_class = COST_EXPLOSION | HALLUCINATION | PARTIAL_RESULT

fun class_value :: "incident_class \<Rightarrow> string" where
  "class_value COST_EXPLOSION = ''a''"
| "class_value HALLUCINATION = ''b''"
| "class_value PARTIAL_RESULT = ''c''"

datatype severity = INFO | WARNING | CRITICAL

fun severity_value :: "severity \<Rightarrow> string" where
  "severity_value INFO = ''info''"
| "severity_value WARNING = ''warning''"
| "severity_value CRITICAL = ''critical''"

datatype signal_kind =
    SK_METRIC | SK_LOG | SK_AUDIT | SK_USAGE | SK_GROUNDING | SK_PARTIAL_RESULT
  | SK_INGESTION_FAILURE | SK_ACCOUNT_ABUSE | SK_AUTH_FAILURE | SK_HEALTH

record telemetry_event =
  te_event_id :: string
  te_kind :: signal_kind
  te_timestamp :: rat
  te_request_id :: "string option"
  te_name :: "string option"
  te_value :: "rat option"
  te_tags :: "(string, string) dict"
  te_payload :: "(string \<times> pyval) list"

record incident_candidate =
  ic_class :: incident_class
  ic_severity :: severity
  ic_request_id :: string
  ic_reason :: string
  ic_signal_id :: string
  ic_timestamp :: rat

text \<open>\<open>request_id or event_id\<close>\<close>

definition or_else :: "string option \<Rightarrow> string \<Rightarrow> string" where
  "or_else r d = (case r of Some s \<Rightarrow> if s = [] then d else s | None \<Rightarrow> d)"

text \<open>\<open>str(n)\<close> of an integer.\<close>

fun nat_str :: "nat \<Rightarrow> string" where
  "nat_str n = (if n < 10 then [char_of (48 + n)] else nat_str (n div 10) @ [char_of (48 + n mod 10)])"

declare nat_str.simps [simp del]

definition int_str :: "int \<Rightarrow> string" where
  "int_str i = (if i < 0 then CHR ''-'' # nat_str (nat (- i)) else nat_str (nat i))"

section \<open>Cost explosion\<close>

record cost_detector =
  budget_cap :: rat
  single_event_spike :: rat
  rate_limit_spike :: int
  cd_seen :: bounded_seen

definition default_cost_detector :: cost_detector where
  "default_cost_detector = \<lparr>budget_cap = 1600, single_event_spike = 50, rate_limit_spike = 100,
     cd_seen = new_seen DEFAULT_SEEN_MAX\<rparr>"

definition cost_severity ::
  "cost_detector \<Rightarrow> usage_event \<Rightarrow> budget_state option \<Rightarrow> int \<Rightarrow> string + severity option" where
  "cost_severity d e budget usage_count =
     (case (case budget of
              Some b \<Rightarrow> Inr (threshold_ratio b)
            | None \<Rightarrow> if budget_cap d = 0 then Inl ''ZeroDivisionError'' else Inr (amount_usd e / budget_cap d)) of
        Inl err \<Rightarrow> Inl err
      | Inr ratio \<Rightarrow> Inr (
          if (budget \<noteq> None \<and> bs_circuit_state (the budget) = CircuitOpen) \<or> ratio \<ge> 1 \<or>
             amount_usd e \<ge> budget_cap d * (20 / 100)
          then Some CRITICAL
          else if ratio \<ge> 80 / 100 \<or> amount_usd e \<ge> single_event_spike d then Some WARNING
          else if usage_count \<ge> rate_limit_spike d then Some WARNING
          else None))"

definition cost_reason ::
  "cost_detector \<Rightarrow> severity \<Rightarrow> budget_state option \<Rightarrow> int \<Rightarrow> string" where
  "cost_reason d sev budget usage_count =
     (if sev = CRITICAL then ''cost hard-cap exceeded or anomalous spend velocity''
      else if budget \<noteq> None \<and> threshold_ratio (the budget) \<ge> 80 / 100
      then ''monthly cost threshold exceeded''
      else if usage_count \<ge> rate_limit_spike d then ''rate-limit spike can amplify spend''
      else ''single request spend spike'')"

definition cost_key :: "string \<Rightarrow> usage_event \<Rightarrow> string" where
  "cost_key window e = ''cost:'' @ window @ '':'' @ ue_event_id e"

definition evaluate_usage ::
  "usage_event \<Rightarrow> budget_state option \<Rightarrow> string \<Rightarrow> int \<Rightarrow> cost_detector
     \<Rightarrow> (string + incident_candidate option) \<times> cost_detector" where
  "evaluate_usage e budget window usage_count d =
     (let key = cost_key window e in
      if seen_contains (cd_seen d) key then (Inr None, d)
      else case cost_severity d e budget usage_count of
             Inl err \<Rightarrow> (Inl err, d)
           | Inr None \<Rightarrow> (Inr None, d)
           | Inr (Some sev) \<Rightarrow>
               (Inr (Some \<lparr>ic_class = COST_EXPLOSION, ic_severity = sev,
                           ic_request_id = or_else (ue_request_id e) (ue_event_id e),
                           ic_reason = cost_reason d sev budget usage_count,
                           ic_signal_id = ue_event_id e, ic_timestamp = ue_timestamp e\<rparr>),
                d\<lparr>cd_seen := seen_add key (cd_seen d)\<rparr>))"

definition evaluate_rate_limit_spike ::
  "rat \<Rightarrow> string \<Rightarrow> string \<Rightarrow> int \<Rightarrow> cost_detector \<Rightarrow> incident_candidate option \<times> cost_detector" where
  "evaluate_rate_limit_spike now request_id signal_id cnt d =
     (let key = ''rate:'' @ signal_id @ '':'' @ int_str cnt in
      if seen_contains (cd_seen d) key \<or> cnt < rate_limit_spike d then (None, d)
      else (Some \<lparr>ic_class = COST_EXPLOSION, ic_severity = WARNING, ic_request_id = request_id,
                  ic_reason = ''rate-limit spike can amplify spend'', ic_signal_id = signal_id,
                  ic_timestamp = now\<rparr>,
            d\<lparr>cd_seen := seen_add key (cd_seen d)\<rparr>))"

section \<open>Hallucination\<close>

definition hallucination_reason :: "string \<Rightarrow> string" where
  "hallucination_reason verdict =
     (if verdict = ''block'' then ''grounding violation blocked fabricated reference''
      else ''grounding gate abstained due to missing provenance'')"

definition evaluate_grounding ::
  "rat \<Rightarrow> string \<Rightarrow> string \<Rightarrow> string \<Rightarrow> bounded_seen \<Rightarrow> incident_candidate option \<times> bounded_seen" where
  "evaluate_grounding now request_id verdict signal_id seen =
     (if verdict = ''pass'' then (None, seen)
      else let key = ''hallucination:'' @ signal_id @ '':'' @ verdict in
        if seen_contains seen key then (None, seen)
        else (Some \<lparr>ic_class = HALLUCINATION,
                    ic_severity = (if verdict = ''block'' then CRITICAL else WARNING),
                    ic_request_id = request_id, ic_reason = hallucination_reason verdict,
                    ic_signal_id = signal_id, ic_timestamp = now\<rparr>,
              seen_add key seen))"

definition evaluate_eval_failure ::
  "rat \<Rightarrow> string \<Rightarrow> string \<Rightarrow> int \<Rightarrow> bounded_seen \<Rightarrow> incident_candidate option \<times> bounded_seen" where
  "evaluate_eval_failure now request_id signal_id fabricated seen =
     (if fabricated \<le> 0 then (None, seen)
      else let key = ''eval:'' @ signal_id @ '':'' @ int_str fabricated in
        if seen_contains seen key then (None, seen)
        else (Some \<lparr>ic_class = HALLUCINATION, ic_severity = CRITICAL, ic_request_id = request_id,
                    ic_reason = ''grounding eval detected fabricated references'',
                    ic_signal_id = signal_id, ic_timestamp = now\<rparr>,
              seen_add key seen))"

section \<open>Partial results\<close>

text \<open>How a payload value becomes a text, a number of a text, an integer of a text.\<close>

record conversions =
  show_value :: "pyval \<Rightarrow> string"
  parse_float :: "string \<Rightarrow> rat option"
  parse_int :: "string \<Rightarrow> int option"

definition py_float :: "conversions \<Rightarrow> pyval \<Rightarrow> string + rat" where
  "py_float cv v = (case v of
      PFloat x \<Rightarrow> Inr x
    | PInt n \<Rightarrow> Inr (of_int n)
    | PBool b \<Rightarrow> Inr (if b then 1 else 0)
    | PStr s \<Rightarrow> (case parse_float cv s of Some x \<Rightarrow> Inr x | None \<Rightarrow> Inl ''ValueError'')
    | _ \<Rightarrow> Inl ''TypeError'')"

definition py_int :: "conversions \<Rightarrow> pyval \<Rightarrow> string + int" where
  "py_int cv v = (case v of
      PInt n \<Rightarrow> Inr n
    | PFloat x \<Rightarrow> Inr (if x < 0 then ceiling x else floor x)
    | PBool b \<Rightarrow> Inr (if b then 1 else 0)
    | PStr s \<Rightarrow> (case parse_int cv s of Some n \<Rightarrow> Inr n | None \<Rightarrow> Inl ''ValueError'')
    | _ \<Rightarrow> Inl ''TypeError'')"

definition is_zero :: "pyval \<Rightarrow> bool" where
  "is_zero v = (v = PInt 0 \<or> v = PFloat 0 \<or> v = PBool False)"

fun payload_items_of :: "(string \<times> pyval) list \<Rightarrow> string list \<Rightarrow> string + pyval list" where
  "payload_items_of payload [] = Inr []"
| "payload_items_of payload (key # keys) =
     (if pget payload key \<noteq> PNone
      then (case py_tuple (pget payload key) of None \<Rightarrow> Inl ''TypeError'' | Some xs \<Rightarrow> Inr xs)
      else payload_items_of payload keys)"

definition payload_items :: "(string \<times> pyval) list \<Rightarrow> string + pyval list" where
  "payload_items payload = payload_items_of payload [''cards'', ''results'', ''items'']"

definition payload_status :: "conversions \<Rightarrow> (string \<times> pyval) list \<Rightarrow> string" where
  "payload_status cv payload =
     (case dget payload ''status'' of None \<Rightarrow> ''success'' | Some v \<Rightarrow> py_str (show_value cv) v)"

definition partial_reason ::
  "conversions \<Rightarrow> (string \<times> pyval) list \<Rightarrow> string + string option" where
  "partial_reason cv payload =
     (let status = payload_status cv payload in
      if status \<in> {''abstain'', ''fail_closed'', ''failed'', ''error''} then Inr None
      else if status = ''degraded'' \<and> pget payload ''degraded'' = PBool True then Inr None
      else if status = ''success'' \<and>
              (py_truthy (pget payload ''retrievalFailure'') \<or> py_truthy (pget payload ''dependencyFailure''))
      then Inr (Some ''retrieval failure was reported as success'')
      else case payload_items payload of
             Inl err \<Rightarrow> Inl err
           | Inr items \<Rightarrow>
               (let result_count = pget payload ''resultCount'' in
                if status = ''success'' \<and> is_zero result_count
                then Inr (Some ''empty result was reported as success'')
                else case (if result_count = PNone then Inr False
                           else case py_int cv result_count of
                                  Inl err \<Rightarrow> Inl err
                                | Inr n \<Rightarrow> Inr (int (length items) \<noteq> n)) of
                       Inl err \<Rightarrow> Inl err
                     | Inr mismatch \<Rightarrow>
                         if mismatch then Inr (Some ''result count does not match returned cards'')
                         else if status = ''success'' \<and>
                            py_truthy (py_or (pget payload ''degradeMode'') (pget payload ''fallbackMode'')) \<and>
                            pget payload ''degraded'' \<noteq> PBool True
                         then Inr (Some ''degraded execution was reported as success'')
                         else Inr None))"

definition evaluate_response ::
  "conversions \<Rightarrow> rat \<Rightarrow> string \<Rightarrow> (string \<times> pyval) list \<Rightarrow> string \<Rightarrow> bounded_seen
     \<Rightarrow> (string + incident_candidate option) \<times> bounded_seen" where
  "evaluate_response cv now request_id payload signal_id seen =
     (case partial_reason cv payload of
        Inl err \<Rightarrow> (Inl err, seen)
      | Inr None \<Rightarrow> (Inr None, seen)
      | Inr (Some reason) \<Rightarrow>
          (let key = ''partial:'' @ signal_id @ '':'' @ reason in
           if seen_contains seen key then (Inr None, seen)
           else (Inr (Some \<lparr>ic_class = PARTIAL_RESULT,
                            ic_severity = (if contains_str ''failure'' reason then CRITICAL else WARNING),
                            ic_request_id = request_id, ic_reason = reason, ic_signal_id = signal_id,
                            ic_timestamp = now\<rparr>),
                 seen_add key seen)))"

definition evaluate_telemetry ::
  "conversions \<Rightarrow> rat \<Rightarrow> telemetry_event \<Rightarrow> bounded_seen
     \<Rightarrow> (string + incident_candidate option) \<times> bounded_seen" where
  "evaluate_telemetry cv now e seen =
     evaluate_response cv now (or_else (te_request_id e) (te_event_id e)) (te_payload e) (te_event_id e) seen"

section \<open>The suite\<close>

record detector_suite =
  ds_cost :: cost_detector
  ds_hallucination :: bounded_seen
  ds_partial :: bounded_seen

definition default_suite :: detector_suite where
  "default_suite = \<lparr>ds_cost = default_cost_detector, ds_hallucination = new_seen DEFAULT_SEEN_MAX,
     ds_partial = new_seen DEFAULT_SEEN_MAX\<rparr>"

text \<open>Only the verdict of the decision built from the payload is read.\<close>

definition verdict_from_payload :: "conversions \<Rightarrow> (string \<times> pyval) list \<Rightarrow> string + string" where
  "verdict_from_payload cv payload =
     (let verdict = py_str (show_value cv) (py_or (pget payload ''verdict'') (PStr ''abstain'')) in
      case py_tuple (case dget payload ''violations'' of None \<Rightarrow> PSeq [] | Some v \<Rightarrow> v) of
        None \<Rightarrow> Inl ''TypeError''
      | Some _ \<Rightarrow> Inr verdict)"

definition usage_of_event :: "conversions \<Rightarrow> telemetry_event \<Rightarrow> string + usage_event" where
  "usage_of_event cv e =
     (case (case te_value e of
              Some x \<Rightarrow> Inr x
            | None \<Rightarrow> py_float cv (case dget (te_payload e) ''amountUsd'' of None \<Rightarrow> PFloat 0 | Some v \<Rightarrow> v)) of
        Inl err \<Rightarrow> Inl err
      | Inr amount \<Rightarrow>
          Inr \<lparr>ue_event_id = te_event_id e, amount_usd = amount,
               ue_source = py_str (show_value cv)
                 (case dget (te_payload e) ''source'' of None \<Rightarrow> PStr ''unknown'' | Some v \<Rightarrow> v),
               ue_timestamp = te_timestamp e, ue_request_id = te_request_id e\<rparr>)"

definition suite_evaluate ::
  "conversions \<Rightarrow> rat \<Rightarrow> telemetry_event \<Rightarrow> budget_state option \<Rightarrow> detector_suite
     \<Rightarrow> (string + incident_candidate option) \<times> detector_suite" where
  "suite_evaluate cv now e budget s =
     (if te_kind e = SK_USAGE then
        (case usage_of_event cv e of
           Inl err \<Rightarrow> (Inl err, s)
         | Inr u \<Rightarrow> (let (r, d) = evaluate_usage u budget ''current'' 1 (ds_cost s) in (r, s\<lparr>ds_cost := d\<rparr>)))
      else if te_kind e = SK_GROUNDING then
        (case verdict_from_payload cv (te_payload e) of
           Inl err \<Rightarrow> (Inl err, s)
         | Inr v \<Rightarrow>
             (let (c, seen) = evaluate_grounding now (or_else (te_request_id e) (te_event_id e)) v
                                (te_event_id e) (ds_hallucination s)
              in (Inr c, s\<lparr>ds_hallucination := seen\<rparr>)))
      else if te_kind e = SK_PARTIAL_RESULT then
        (let (r, seen) = evaluate_telemetry cv now e (ds_partial s) in (r, s\<lparr>ds_partial := seen\<rparr>))
      else (Inr None, s))"

section \<open>One signal is reported once\<close>

definition suite_ok :: "detector_suite \<Rightarrow> bool" where
  "suite_ok s \<longleftrightarrow> seen_ok (cd_seen (ds_cost s)) \<and> seen_ok (ds_hallucination s) \<and> seen_ok (ds_partial s)"

lemma suite_ok_default: "suite_ok default_suite"
  by (simp add: suite_ok_def default_suite_def default_cost_detector_def seen_ok_new DEFAULT_SEEN_MAX_def)

lemma usage_ok: "seen_ok (cd_seen d) \<Longrightarrow> seen_ok (cd_seen (snd (evaluate_usage e b w n d)))"
  by (auto simp: evaluate_usage_def Let_def bs.add_ok split: sum.split option.split)

lemma grounding_ok: "seen_ok s \<Longrightarrow> seen_ok (snd (evaluate_grounding t r v i s))"
  by (simp add: evaluate_grounding_def Let_def bs.add_ok)

lemma response_ok: "seen_ok s \<Longrightarrow> seen_ok (snd (evaluate_response cv t r p i s))"
  by (auto simp: evaluate_response_def Let_def bs.add_ok split: sum.split option.split)

lemma suite_ok_evaluate: "suite_ok s \<Longrightarrow> suite_ok (snd (suite_evaluate cv now e b s))"
  using usage_ok grounding_ok response_ok
  by (auto simp: suite_evaluate_def suite_ok_def evaluate_telemetry_def case_prod_beta Let_def split: sum.split)

lemma usage_once:
  assumes "seen_ok (cd_seen d)" and "fst (evaluate_usage e b w n d) = Inr (Some c)"
  shows "evaluate_usage e b' w n' (snd (evaluate_usage e b w n d)) =
         (Inr None, snd (evaluate_usage e b w n d))"
  using assms
  by (auto simp: evaluate_usage_def Let_def bs.add_has split: if_splits sum.splits option.splits)

lemma grounding_once:
  assumes "seen_ok s" and "fst (evaluate_grounding t r v i s) = Some c"
  shows "evaluate_grounding t' r v i (snd (evaluate_grounding t r v i s)) = (None, snd (evaluate_grounding t r v i s))"
  using assms by (auto simp: evaluate_grounding_def Let_def bs.add_has split: if_splits)

lemma response_once:
  assumes "seen_ok s" and "fst (evaluate_response cv t r p i s) = Inr (Some c)"
  shows "evaluate_response cv t' r p i (snd (evaluate_response cv t r p i s)) =
         (Inr None, snd (evaluate_response cv t r p i s))"
  using assms
  by (auto simp: evaluate_response_def Let_def bs.add_has split: if_splits sum.splits option.splits)

lemma suite_once:
  assumes "suite_ok s" and "fst (suite_evaluate cv t e b s) = Inr (Some c)"
  shows "suite_evaluate cv t' e b' (snd (suite_evaluate cv t e b s)) =
         (Inr None, snd (suite_evaluate cv t e b s))"
proof -
  have ok: "seen_ok (cd_seen (ds_cost s))" "seen_ok (ds_hallucination s)" "seen_ok (ds_partial s)"
    using assms(1) by (simp_all add: suite_ok_def)
  consider (u) "te_kind e = SK_USAGE" | (g) "te_kind e = SK_GROUNDING" | (p) "te_kind e = SK_PARTIAL_RESULT"
    | (o) "te_kind e \<notin> {SK_USAGE, SK_GROUNDING, SK_PARTIAL_RESULT}" by blast
  then show ?thesis
  proof cases
    case u
    then show ?thesis using assms(2) usage_once [OF ok(1)]
      by (auto simp: suite_evaluate_def case_prod_beta Let_def split: sum.splits)
  next
    case g
    then show ?thesis using assms(2) grounding_once [OF ok(2)]
      by (auto simp: suite_evaluate_def case_prod_beta Let_def split: sum.splits)
  next
    case p
    then show ?thesis using assms(2) response_once [OF ok(3)]
      by (auto simp: suite_evaluate_def evaluate_telemetry_def case_prod_beta Let_def split: sum.splits)
  next
    case o
    then show ?thesis using assms(2) by (simp add: suite_evaluate_def)
  qed
qed

section \<open>What counts as an incident\<close>

text \<open>
  The cost detector's severity is exact: critical when the circuit is open, the budget (or the
  event alone, without a budget) reaches the cap, or one event spends a fifth of the cap; warning
  from 80 percent of the budget, from the single-event threshold or from the call-count spike on;
  nothing otherwise. More spend on the same budget never lowers it.
\<close>

theorem cost_severity_correct:
  fixes e :: usage_event
  assumes "budget = None \<longrightarrow> 0 < budget_cap d"
  defines "ratio \<equiv> (case budget of Some b \<Rightarrow> threshold_ratio b | None \<Rightarrow> amount_usd e / budget_cap d)"
  shows "\<exists>sev. cost_severity d e budget n = Inr sev \<and>
    (sev = Some CRITICAL \<longleftrightarrow> (\<exists>b. budget = Some b \<and> bs_circuit_state b = CircuitOpen) \<or> 1 \<le> ratio \<or>
       budget_cap d / 5 \<le> amount_usd e) \<and>
    (sev = None \<longleftrightarrow> \<not> (\<exists>b. budget = Some b \<and> bs_circuit_state b = CircuitOpen) \<and> ratio < 4 / 5 \<and>
       amount_usd e < budget_cap d / 5 \<and> amount_usd e < single_event_spike d \<and> n < rate_limit_spike d) \<and>
    sev \<noteq> Some INFO"
  using assms(1)
  by (cases budget) (auto simp: cost_severity_def ratio_def)

theorem cost_severity_correct_witness:
  "cost_severity default_cost_detector (usage ''e'' 60) None 1 = Inr (Some WARNING)"
  using cost_severity_correct [of None default_cost_detector "usage ''e'' 60" 1]
  by (auto simp: cost_severity_def default_cost_detector_def usage_def)

text \<open>
  A response is taken for an honest one exactly when it is: for payloads whose result count is
  a number and whose cards are a list, a success is flagged if and only if a failure is reported
  with it, it is empty, its count differs from its cards, or it ran degraded without saying so;
  and refusals are never flagged.
\<close>

theorem partial_reason_correct:
  assumes "pget payload ''resultCount'' = PInt n" and "pget payload ''cards'' = PSeq cards"
  shows "\<exists>r. partial_reason cv payload = Inr r \<and>
    (payload_status cv payload = ''success'' \<longrightarrow>
       (r = None \<longleftrightarrow>
          \<not> py_truthy (pget payload ''retrievalFailure'') \<and> \<not> py_truthy (pget payload ''dependencyFailure'') \<and>
          0 < n \<and> n = int (length cards) \<and>
          (py_truthy (py_or (pget payload ''degradeMode'') (pget payload ''fallbackMode'')) \<longrightarrow>
             pget payload ''degraded'' = PBool True))) \<and>
    (payload_status cv payload \<in> {''abstain'', ''fail_closed'', ''failed'', ''error''} \<longrightarrow> r = None)"
proof -
  have items: "payload_items payload = Inr cards" by (simp add: payload_items_def assms(2))
  have count: "is_zero (PInt n) \<longleftrightarrow> n = 0" "py_int cv (PInt n) = Inr n" by (simp_all add: is_zero_def py_int_def)
  show ?thesis
    unfolding partial_reason_def Let_def items assms(1) by (auto simp: count)
qed

definition demo_conversions :: conversions where
  "demo_conversions = \<lparr>show_value = (\<lambda>_. ''?''), parse_float = (\<lambda>_. None), parse_int = (\<lambda>_. None)\<rparr>"

theorem partial_reason_correct_witness:
  "partial_reason demo_conversions [(''resultCount'', PInt 1), (''cards'', PSeq [PInt 7])] = Inr None"
  using partial_reason_correct
    [of "[(''resultCount'', PInt 1), (''cards'', PSeq [PInt 7])]" 1 "[PInt 7]" demo_conversions]
  by (auto simp: pget_def dict_simps payload_status_def py_or_def)

end
