(* ===== verification/Ops_Incidents.thy ===== *)
theory Ops_Incidents imports Ops_Detectors begin

text \<open>
  Publishing incidents: the stores and the transport of \<open>ops/src/docsuri_ops/adapters/local.py\<close>,
  \<open>IncidentEventPublisher\<close> (\<open>incidents.py\<close>) and the worker loops (\<open>worker.py\<close>). The
  transport's \<open>fail\<close> flag models an outage of the external channel. Shown: an incident is
  recorded exactly when it has been emitted, and emitted at most once; a failed publication is
  never acknowledged; and, since the detectors mark a signal before its publication succeeds, the
  redelivery of such an event is acknowledged without the incident ever being emitted.
\<close>

section \<open>Records and stores\<close>

record incident_record =
  ir_class :: incident_class
  ir_severity :: severity
  ir_request_id :: string
  ir_reason :: string
  ir_timestamp :: rat

definition incident_key :: "incident_record \<Rightarrow> string" where
  "incident_key r = class_value (ir_class r) @ '':'' @ ir_request_id r @ '':'' @ ir_reason r"

record alert_record =
  ar_severity :: severity
  ar_request_id :: "string option"
  ar_reason :: string
  ar_timestamp :: rat

definition alert_key :: "alert_record \<Rightarrow> string" where
  "alert_key a = severity_value (ar_severity a) @ '':'' @ or_else (ar_request_id a) ''global'' @ '':'' @ ar_reason a"

record incident_store =
  st_incidents :: "incident_record list"
  st_alerts :: "alert_record list"
  incident_seen :: bounded_seen
  alert_seen :: bounded_seen

definition new_store :: incident_store where
  "new_store = \<lparr>st_incidents = [], st_alerts = [], incident_seen = new_seen DEFAULT_SEEN_MAX,
     alert_seen = new_seen DEFAULT_SEEN_MAX\<rparr>"

definition has_incident :: "incident_record \<Rightarrow> incident_store \<Rightarrow> bool" where
  "has_incident r s = seen_contains (incident_seen s) (incident_key r)"

definition append_incident :: "incident_record \<Rightarrow> incident_store \<Rightarrow> bool \<times> incident_store" where
  "append_incident r s =
     (if seen_contains (incident_seen s) (incident_key r) then (False, s)
      else (True, s\<lparr>incident_seen := seen_add (incident_key r) (incident_seen s),
                    st_incidents := st_incidents s @ [r]\<rparr>))"

definition append_alert :: "alert_record \<Rightarrow> incident_store \<Rightarrow> bool \<times> incident_store" where
  "append_alert a s =
     (if seen_contains (alert_seen s) (alert_key a) then (False, s)
      else (True, s\<lparr>alert_seen := seen_add (alert_key a) (alert_seen s), st_alerts := st_alerts s @ [a]\<rparr>))"

text \<open>The wire events carry no reason: class, severity and request id.\<close>

type_synonym incident_wire = "incident_class \<times> severity \<times> string"

type_synonym alert_wire = "severity \<times> string option"

record transport =
  tp_incidents :: "incident_wire list"
  tp_alerts :: "alert_wire list"
  tp_fail :: bool

definition emit_incident :: "incident_wire \<Rightarrow> transport \<Rightarrow> bool \<times> transport" where
  "emit_incident w t = (if tp_fail t then (False, t) else (True, t\<lparr>tp_incidents := tp_incidents t @ [w]\<rparr>))"

definition emit_alert :: "alert_wire \<Rightarrow> transport \<Rightarrow> bool \<times> transport" where
  "emit_alert w t = (if tp_fail t then (False, t) else (True, t\<lparr>tp_alerts := tp_alerts t @ [w]\<rparr>))"

section \<open>The publisher\<close>

datatype publish_outcome = PUBLISHED | DUPLICATE | FAILED

record audit_entry =
  ae_event_id :: string
  ae_request_id :: "string option"
  ae_class :: "incident_class option"
  ae_severity :: severity

record publisher =
  p_store :: incident_store
  p_transport :: transport
  p_audit :: "audit_entry list option"
  published_alerts :: bounded_seen

definition new_publisher :: publisher where
  "new_publisher = \<lparr>p_store = new_store,
     p_transport = \<lparr>tp_incidents = [], tp_alerts = [], tp_fail = False\<rparr>, p_audit = None,
     published_alerts = new_seen DEFAULT_SEEN_MAX\<rparr>"

definition audit :: "audit_entry \<Rightarrow> publisher \<Rightarrow> publisher" where
  "audit entry p = p\<lparr>p_audit := map_option (\<lambda>l. l @ [entry]) (p_audit p)\<rparr>"

definition publish_incident :: "incident_record \<Rightarrow> publisher \<Rightarrow> publish_outcome \<times> publisher" where
  "publish_incident r p =
     (if has_incident r (p_store p) then (DUPLICATE, p)
      else case emit_incident (ir_class r, ir_severity r, ir_request_id r) (p_transport p) of
             (False, t) \<Rightarrow> (FAILED, p\<lparr>p_transport := t\<rparr>)
           | (True, t) \<Rightarrow>
               (PUBLISHED,
                audit \<lparr>ae_event_id = ''incident:'' @ class_value (ir_class r) @ '':'' @ ir_request_id r,
                       ae_request_id = Some (ir_request_id r), ae_class = Some (ir_class r),
                       ae_severity = ir_severity r\<rparr>
                  (p\<lparr>p_transport := t, p_store := snd (append_incident r (p_store p))\<rparr>)))"

definition publish_alert :: "alert_record \<Rightarrow> publisher \<Rightarrow> bool \<times> publisher" where
  "publish_alert a p =
     (if seen_contains (published_alerts p) (alert_key a) then (False, p)
      else case append_alert a (p_store p) of
             (False, s) \<Rightarrow> (False, p\<lparr>p_store := s\<rparr>)
           | (True, s) \<Rightarrow>
               (case emit_alert (ar_severity a, ar_request_id a) (p_transport p) of
                  (ok, t) \<Rightarrow>
                    (ok,
                     audit \<lparr>ae_event_id = ''alert:'' @ severity_value (ar_severity a) @ '':'' @
                              or_else (ar_request_id a) ''global'',
                            ae_request_id = ar_request_id a, ae_class = None, ae_severity = ar_severity a\<rparr>
                       (p\<lparr>p_store := s, published_alerts := seen_add (alert_key a) (published_alerts p),
                          p_transport := t\<rparr>))))"

definition candidate_record :: "incident_candidate \<Rightarrow> incident_record" where
  "candidate_record c =
     \<lparr>ir_class = ic_class c, ir_severity = ic_severity c, ir_request_id = ic_request_id c,
      ir_reason = ic_reason c, ir_timestamp = ic_timestamp c\<rparr>"

definition candidate_alert :: "incident_candidate \<Rightarrow> alert_record" where
  "candidate_alert c =
     \<lparr>ar_severity = ic_severity c, ar_request_id = Some (ic_request_id c), ar_reason = ic_reason c,
      ar_timestamp = ic_timestamp c\<rparr>"

definition publish_candidate :: "incident_candidate \<Rightarrow> publisher \<Rightarrow> publish_outcome \<times> publisher" where
  "publish_candidate c p =
     (let (outcome, p') = publish_incident (candidate_record c) p
      in (outcome, snd (publish_alert (candidate_alert c) p')))"

section \<open>Recorded means emitted\<close>

definition wire_of :: "incident_record \<Rightarrow> incident_wire" where
  "wire_of r = (ir_class r, ir_severity r, ir_request_id r)"

definition publisher_ok :: "publisher \<Rightarrow> bool" where
  "publisher_ok p \<longleftrightarrow>
     seen_ok (incident_seen (p_store p)) \<and> seen_ok (alert_seen (p_store p)) \<and>
     seen_ok (published_alerts p) \<and>
     tp_incidents (p_transport p) = map wire_of (st_incidents (p_store p))"

lemma audit_frame [simp]:
  "p_store (audit x p) = p_store p" "p_transport (audit x p) = p_transport p"
  "published_alerts (audit x p) = published_alerts p"
  by (simp_all add: audit_def)

lemma publisher_ok_new: "publisher_ok new_publisher"
  by (simp add: publisher_ok_def new_publisher_def new_store_def seen_ok_new DEFAULT_SEEN_MAX_def)

lemma publisher_ok_incident: "publisher_ok p \<Longrightarrow> publisher_ok (snd (publish_incident r p))"
  by (auto simp: publisher_ok_def publish_incident_def has_incident_def emit_incident_def append_incident_def
      wire_of_def bs.add_ok)

lemma publisher_ok_alert: "publisher_ok p \<Longrightarrow> publisher_ok (snd (publish_alert a p))"
  by (auto simp: publisher_ok_def publish_alert_def emit_alert_def append_alert_def bs.add_ok)

lemma publisher_ok_candidate: "publisher_ok p \<Longrightarrow> publisher_ok (snd (publish_candidate c p))"
  by (simp add: publish_candidate_def case_prod_beta publisher_ok_incident publisher_ok_alert)

lemma publish_incident_cases:
  assumes "publisher_ok p"
  obtains (dup) "publish_incident r p = (DUPLICATE, p)" "has_incident r (p_store p)"
  | (fail) p' where "publish_incident r p = (FAILED, p')" "tp_fail (p_transport p)" "p_store p' = p_store p"
      "\<not> has_incident r (p_store p)" "p' = p"
  | (pub) p' where "publish_incident r p = (PUBLISHED, p')" "\<not> tp_fail (p_transport p)"
      "\<not> has_incident r (p_store p)" "has_incident r (p_store p')"
      "st_incidents (p_store p') = st_incidents (p_store p) @ [r]"
proof (cases "has_incident r (p_store p)")
  case True
  then show ?thesis using dup by (simp add: publish_incident_def)
next
  case False
  have add: "seen_contains (seen_add k (incident_seen (p_store p))) k" for k
    using assms bs.add_has by (simp add: publisher_ok_def)
  show ?thesis
  proof (cases "tp_fail (p_transport p)")
    case True
    with False show ?thesis by (intro fail) (simp_all add: publish_incident_def emit_incident_def)
  next
    case nf: False
    show ?thesis
      by (rule pub) (use nf False add in
        \<open>auto simp: publish_incident_def emit_incident_def append_incident_def has_incident_def\<close>)
  qed
qed

text \<open>The keys of the recorded incidents stay in the window as long as they fit in it.\<close>

lemma window_add: "length (seen_keys s) < seen_max s \<Longrightarrow> seen_contains s j \<Longrightarrow> seen_contains (seen_add k s) j"
  by (auto simp: seen_contains_def seen_add_room)

definition keys_tracked :: "publisher \<Rightarrow> bool" where
  "keys_tracked p \<longleftrightarrow> seen_keys (incident_seen (p_store p)) = map incident_key (st_incidents (p_store p))"

lemma tracked_incident:
  assumes "keys_tracked p" and "length (st_incidents (p_store p)) < seen_max (incident_seen (p_store p))"
  shows "keys_tracked (snd (publish_incident r p)) \<and>
    length (st_incidents (p_store (snd (publish_incident r p)))) \<le> Suc (length (st_incidents (p_store p)))"
proof -
  have room: "length (seen_keys (incident_seen (p_store p))) < seen_max (incident_seen (p_store p))"
    using assms by (simp add: keys_tracked_def)
  show ?thesis
    using assms(1)
    by (simp add: publish_incident_def emit_incident_def append_incident_def has_incident_def keys_tracked_def
        seen_add_room [OF room])
qed

lemma tracked_alert [simp]: "keys_tracked (snd (publish_alert a p)) = keys_tracked p"
  by (simp add: publish_alert_def append_alert_def keys_tracked_def split: prod.split)

text \<open>
  The transport going down and coming back, candidates arriving: the publisher's runs.
\<close>

datatype pub_event = Candidate incident_candidate | Outage | Recover

fun pub_step :: "pub_event \<Rightarrow> publisher \<Rightarrow> publisher" where
  "pub_step (Candidate c) p = snd (publish_candidate c p)"
| "pub_step Outage p = p\<lparr>p_transport := (p_transport p)\<lparr>tp_fail := True\<rparr>\<rparr>"
| "pub_step Recover p = p\<lparr>p_transport := (p_transport p)\<lparr>tp_fail := False\<rparr>\<rparr>"

definition pub_run :: "pub_event list \<Rightarrow> publisher \<Rightarrow> publisher" where
  "pub_run es p = fold pub_step es p"

lemma publisher_ok_step: "publisher_ok p \<Longrightarrow> publisher_ok (pub_step e p)"
  by (cases e) (simp_all add: publisher_ok_candidate, auto simp: publisher_ok_def)

lemma publisher_ok_run: "publisher_ok p \<Longrightarrow> publisher_ok (pub_run es p)"
  unfolding pub_run_def by (induction es arbitrary: p) (simp_all add: publisher_ok_step)

lemma alert_frame [simp]:
  "st_incidents (p_store (snd (publish_alert a p))) = st_incidents (p_store p)"
  "incident_seen (p_store (snd (publish_alert a p))) = incident_seen (p_store p)"
  by (simp_all add: publish_alert_def append_alert_def split: prod.split)

lemma incident_max [simp]:
  "seen_max (incident_seen (p_store (snd (publish_incident r p)))) = seen_max (incident_seen (p_store p))"
  by (simp add: publish_incident_def emit_incident_def append_incident_def)

lemma tracked_run:
  assumes "keys_tracked p" and "length (st_incidents (p_store p)) + length es \<le> seen_max (incident_seen (p_store p))"
  shows "keys_tracked (pub_run es p)"
  using assms
proof (induction es arbitrary: p)
  case (Cons e es)
  have step: "keys_tracked (pub_step e p) \<and>
      length (st_incidents (p_store (pub_step e p))) \<le> Suc (length (st_incidents (p_store p))) \<and>
      seen_max (incident_seen (p_store (pub_step e p))) = seen_max (incident_seen (p_store p))"
    using Cons.prems tracked_incident [of p]
    by (cases e) (auto simp: publish_candidate_def case_prod_beta keys_tracked_def)
  have "keys_tracked (pub_run es (pub_step e p))" using step Cons.prems by (intro Cons.IH) auto
  then show ?case by (simp add: pub_run_def)
qed (simp add: pub_run_def)

text \<open>
  C35. Publish before commit works: through any sequence of candidates and transport outages, what
  has been emitted is exactly what has been recorded, in the same order, and, while the incidents
  fit the dedup window, no incident key is emitted twice.
\<close>

theorem incidents_emitted_once:
  assumes "length es \<le> DEFAULT_SEEN_MAX"
  shows "tp_incidents (p_transport (pub_run es new_publisher)) =
           map wire_of (st_incidents (p_store (pub_run es new_publisher))) \<and>
         distinct (map incident_key (st_incidents (p_store (pub_run es new_publisher))))"
proof -
  have ok: "publisher_ok (pub_run es new_publisher)" by (rule publisher_ok_run [OF publisher_ok_new])
  have "keys_tracked (pub_run es new_publisher)"
    using assms by (intro tracked_run) (simp_all add: keys_tracked_def new_publisher_def new_store_def new_seen_def)
  then show ?thesis using ok by (simp add: publisher_ok_def keys_tracked_def seen_ok_def)
qed

definition demo_candidate :: incident_candidate where
  "demo_candidate = \<lparr>ic_class = HALLUCINATION, ic_severity = CRITICAL, ic_request_id = ''r1'',
     ic_reason = ''x'', ic_signal_id = ''s1'', ic_timestamp = 0\<rparr>"

theorem incidents_emitted_once_witness:
  "distinct (map incident_key (st_incidents (p_store
     (pub_run [Outage, Candidate demo_candidate, Recover, Candidate demo_candidate, Candidate demo_candidate]
        new_publisher))))"
  by (rule incidents_emitted_once [THEN conjunct2]) (simp add: DEFAULT_SEEN_MAX_def)

section \<open>The worker\<close>

record telemetry_source =
  ts_queued :: "telemetry_event list"
  ts_acked :: "string list"

definition receive :: "nat \<Rightarrow> telemetry_source \<Rightarrow> telemetry_event list \<times> telemetry_source" where
  "receive max_messages s = (take max_messages (ts_queued s), s\<lparr>ts_queued := drop max_messages (ts_queued s)\<rparr>)"

definition ack :: "telemetry_event \<Rightarrow> telemetry_source \<Rightarrow> telemetry_source" where
  "ack e s = s\<lparr>ts_acked := ts_acked s @ [te_event_id e]\<rparr>"

record worker_state =
  w_source :: telemetry_source
  w_suite :: detector_suite
  w_publisher :: publisher

text \<open>The body of the loop for one event; \<open>Inr True\<close> counts it as published.\<close>

definition process_event ::
  "conversions \<Rightarrow> rat \<Rightarrow> telemetry_event \<Rightarrow> worker_state \<Rightarrow> (string + bool) \<times> worker_state" where
  "process_event cv now e w =
     (case suite_evaluate cv now e None (w_suite w) of
        (Inl err, s) \<Rightarrow> (Inl err, w\<lparr>w_suite := s\<rparr>)
      | (Inr None, s) \<Rightarrow> (Inr False, w\<lparr>w_suite := s, w_source := ack e (w_source w)\<rparr>)
      | (Inr (Some c), s) \<Rightarrow>
          (case publish_candidate c (w_publisher w) of
             (PUBLISHED, p) \<Rightarrow> (Inr True, w\<lparr>w_suite := s, w_publisher := p, w_source := ack e (w_source w)\<rparr>)
           | (DUPLICATE, p) \<Rightarrow> (Inr False, w\<lparr>w_suite := s, w_publisher := p, w_source := ack e (w_source w)\<rparr>)
           | (FAILED, p) \<Rightarrow> (Inr False, w\<lparr>w_suite := s, w_publisher := p\<rparr>)))"

fun process_batch ::
  "conversions \<Rightarrow> rat \<Rightarrow> telemetry_event list \<Rightarrow> nat \<times> nat \<Rightarrow> worker_state
     \<Rightarrow> (string + nat \<times> nat) \<times> worker_state" where
  "process_batch cv now [] (processed, published) w = (Inr (processed, published), w)"
| "process_batch cv now (e # es) (processed, published) w =
     (case process_event cv now e w of
        (Inl err, w') \<Rightarrow> (Inl err, w')
      | (Inr b, w') \<Rightarrow> process_batch cv now es (processed + 1, if b then published + 1 else published) w')"

text \<open>
  The polling loop with \<open>stop_after = Some n\<close>; with \<open>None\<close> it does not return. \<open>clock\<close>
  gives the time of each iteration.
\<close>

fun polling_loop ::
  "conversions \<Rightarrow> (nat \<Rightarrow> rat) \<Rightarrow> nat \<Rightarrow> nat \<Rightarrow> nat \<times> nat \<Rightarrow> worker_state
     \<Rightarrow> (string + nat \<times> nat) \<times> worker_state" where
  "polling_loop cv clock max_messages 0 counts w = (Inr counts, w)"
| "polling_loop cv clock max_messages (Suc n) (processed, published) w =
     (let (events, src) = receive max_messages (w_source w) in
      case process_batch cv (clock n) events (0, 0) (w\<lparr>w_source := src\<rparr>) of
        (Inl err, w') \<Rightarrow> (Inl err, w')
      | (Inr (k, m), w') \<Rightarrow> polling_loop cv clock max_messages n (processed + k, published + m) w')"

text \<open>\<open>run_once\<close>: no source to acknowledge to.\<close>

fun run_once ::
  "conversions \<Rightarrow> rat \<Rightarrow> telemetry_event list \<Rightarrow> budget_state option \<Rightarrow> nat \<times> nat
     \<Rightarrow> detector_suite \<times> publisher \<Rightarrow> (string + nat \<times> nat) \<times> detector_suite \<times> publisher" where
  "run_once cv now [] budget counts sp = (Inr counts, sp)"
| "run_once cv now (e # es) budget (processed, published) (s, p) =
     (case suite_evaluate cv now e budget s of
        (Inl err, s') \<Rightarrow> (Inl err, s', p)
      | (Inr None, s') \<Rightarrow> run_once cv now es budget (processed + 1, published) (s', p)
      | (Inr (Some c), s') \<Rightarrow>
          (case publish_candidate c p of
             (outcome, p') \<Rightarrow> run_once cv now es budget
               (processed + 1, if outcome = PUBLISHED then published + 1 else published) (s', p')))"

definition worker_ok :: "worker_state \<Rightarrow> bool" where
  "worker_ok w \<longleftrightarrow> suite_ok (w_suite w) \<and> publisher_ok (w_publisher w)"

lemma publish_candidate_fst: "fst (publish_candidate c p) = fst (publish_incident (candidate_record c) p)"
  by (simp add: publish_candidate_def case_prod_beta)

lemma process_event_cases:
  obtains (error) err s where "suite_evaluate cv now e None (w_suite w) = (Inl err, s)"
      "process_event cv now e w = (Inl err, w\<lparr>w_suite := s\<rparr>)"
  | (none) s where "suite_evaluate cv now e None (w_suite w) = (Inr None, s)"
      "process_event cv now e w = (Inr False, w\<lparr>w_suite := s, w_source := ack e (w_source w)\<rparr>)"
  | (failed) c s p where "suite_evaluate cv now e None (w_suite w) = (Inr (Some c), s)"
      "publish_candidate c (w_publisher w) = (FAILED, p)"
      "process_event cv now e w = (Inr False, w\<lparr>w_suite := s, w_publisher := p\<rparr>)"
  | (recorded) c s out p where "suite_evaluate cv now e None (w_suite w) = (Inr (Some c), s)"
      "publish_candidate c (w_publisher w) = (out, p)" "out \<noteq> FAILED"
      "process_event cv now e w =
         (Inr (out = PUBLISHED), w\<lparr>w_suite := s, w_publisher := p, w_source := ack e (w_source w)\<rparr>)"
proof (cases "suite_evaluate cv now e None (w_suite w)")
  case (Pair r s)
  show ?thesis
  proof (cases r)
    case (Inl err)
    then show ?thesis using Pair by (intro error) (simp_all add: process_event_def)
  next
    case (Inr q)
    show ?thesis
    proof (cases q)
      case None
      then show ?thesis using Pair Inr by (intro none) (simp_all add: process_event_def)
    next
      case (Some c)
      obtain out p where pc: "publish_candidate c (w_publisher w) = (out, p)" by fastforce
      show ?thesis
      proof (cases "out = FAILED")
        case True
        then show ?thesis using Pair Inr Some pc by (intro failed) (simp_all add: process_event_def)
      next
        case False
        then have "process_event cv now e w =
            (Inr (out = PUBLISHED), w\<lparr>w_suite := s, w_publisher := p, w_source := ack e (w_source w)\<rparr>)"
          using Pair Inr Some pc by (cases out) (simp_all add: process_event_def)
        then show ?thesis using Pair Inr Some pc False by (intro recorded) simp_all
      qed
    qed
  qed
qed

lemma worker_ok_event: "worker_ok w \<Longrightarrow> worker_ok (snd (process_event cv now e w))"
proof -
  assume ok: "worker_ok w"
  have s: "suite_ok (snd (suite_evaluate cv now e None (w_suite w)))"
    using ok suite_ok_evaluate by (simp add: worker_ok_def)
  have p: "publisher_ok (snd (publish_candidate c (w_publisher w)))" for c
    using ok publisher_ok_candidate by (simp add: worker_ok_def)
  show ?thesis
    using ok s p by (cases rule: process_event_cases [of cv now e w]) (auto simp: worker_ok_def; metis snd_conv)+
qed

text \<open>
  C39. No silent loss within a delivery: when the worker acknowledges an event, the event was either
  no incident, or its incident is recorded; an event whose publication failed stays
  unacknowledged, with nothing recorded.
\<close>

theorem ack_means_handled:
  fixes cv :: conversions and now :: rat and e :: telemetry_event
  assumes "worker_ok w"
  defines "w' \<equiv> snd (process_event cv now e w)"
    and "verdict \<equiv> fst (suite_evaluate cv now e None (w_suite w))"
  shows "(w_source w' = w_source w \<or> w_source w' = ack e (w_source w)) \<and>
    (w_source w' = ack e (w_source w) \<longrightarrow>
       verdict = Inr None \<or>
       (\<exists>c. verdict = Inr (Some c) \<and> has_incident (candidate_record c) (p_store (w_publisher w')))) \<and>
    (\<forall>c. verdict = Inr (Some c) \<and> \<not> has_incident (candidate_record c) (p_store (w_publisher w)) \<and>
         tp_fail (p_transport (w_publisher w)) \<longrightarrow>
       w_source w' = w_source w \<and> st_incidents (p_store (w_publisher w')) = st_incidents (p_store (w_publisher w)))"
proof -
  have ok: "publisher_ok (w_publisher w)" using assms(1) by (simp add: worker_ok_def)
  have na: "ack e s \<noteq> s" for s by (cases s) (simp add: ack_def)
  have alert: "has_incident r (p_store (snd (publish_alert a p))) = has_incident r (p_store p)" for r a p
    by (simp add: has_incident_def)
  show ?thesis
  proof (cases rule: process_event_cases [of cv now e w])
    case (error err s)
    then show ?thesis using na [of "w_source w"] by (auto simp: w'_def verdict_def)
  next
    case (none s)
    then show ?thesis by (simp add: w'_def verdict_def)
  next
    case (failed c s p)
    have fst: "fst (publish_incident (candidate_record c) (w_publisher w)) = FAILED"
      using publish_candidate_fst [of c "w_publisher w"] failed(2) by simp
    have "st_incidents (p_store p) = st_incidents (p_store (w_publisher w))"
      using failed(2) fst
      by (cases rule: publish_incident_cases [OF ok, of "candidate_record c"])
         (auto simp: publish_candidate_def)
    then show ?thesis using failed na [of "w_source w"] by (auto simp: w'_def verdict_def)
  next
    case (recorded c s out p)
    have fst: "fst (publish_incident (candidate_record c) (w_publisher w)) \<noteq> FAILED"
      using publish_candidate_fst [of c "w_publisher w"] recorded(2,3) by simp
    have p: "p = snd (publish_alert (candidate_alert c) (snd (publish_incident (candidate_record c) (w_publisher w))))"
      using recorded(2) by (auto simp: publish_candidate_def case_prod_beta)
    have "has_incident (candidate_record c) (p_store p) \<and>
        (has_incident (candidate_record c) (p_store (w_publisher w)) \<or> \<not> tp_fail (p_transport (w_publisher w)))"
      using fst unfolding p alert
      by (cases rule: publish_incident_cases [OF ok, of "candidate_record c"]) simp_all
    then show ?thesis using recorded by (auto simp: w'_def verdict_def)
  qed
qed

definition blocked_event :: telemetry_event where
  "blocked_event = \<lparr>te_event_id = ''e1'', te_kind = SK_GROUNDING, te_timestamp = 0, te_request_id = Some ''r1'',
     te_name = None, te_value = None, te_tags = [], te_payload = [(''verdict'', PStr ''block'')]\<rparr>"

definition new_worker :: worker_state where
  "new_worker = \<lparr>w_source = \<lparr>ts_queued = [], ts_acked = []\<rparr>, w_suite = default_suite,
     w_publisher = new_publisher\<rparr>"

lemma worker_ok_new: "worker_ok new_worker"
  by (simp add: worker_ok_def new_worker_def suite_ok_default publisher_ok_new)

theorem ack_means_handled_witness:
  "w_source (snd (process_event demo_conversions 0 blocked_event new_worker)) = w_source new_worker \<or>
   w_source (snd (process_event demo_conversions 0 blocked_event new_worker)) =
     ack blocked_event (w_source new_worker)"
  using ack_means_handled [OF worker_ok_new, of demo_conversions 0 blocked_event] by blast

section \<open>Redelivery after a failed publication\<close>

text \<open>
  C27. A redelivered incident is lost: the detector marks a signal as reported before it is
  published, so when the publication of an incident fails and the source redelivers the event to
  the same worker, the worker finds no incident in it, acknowledges it and emits nothing, even
  when the transport has recovered. The comment at the acknowledgement says that redelivery
  re-attempts the publication.
\<close>

theorem redelivery_loses_incident:
  assumes "worker_ok w" and "fst (suite_evaluate cv now e None (w_suite w)) = Inr (Some c)"
    and "process_event cv now e w = (Inr False, w')" and "w_source w' = w_source w"
  defines "w1 \<equiv> w'\<lparr>w_publisher := pub_step Recover (w_publisher w')\<rparr>"
  shows "\<exists>w2. process_event cv later e w1 = (Inr False, w2) \<and> w_source w2 = ack e (w_source w) \<and>
    w_publisher w2 = w_publisher w1 \<and>
    tp_incidents (p_transport (w_publisher w2)) = map wire_of (st_incidents (p_store (w_publisher w)))"
proof -
  have na: "ack e s \<noteq> s" for s by (cases s) (simp add: ack_def)
  have suite: "suite_ok (w_suite w)" and ok: "publisher_ok (w_publisher w)"
    using assms(1) by (simp_all add: worker_ok_def)
  obtain s p where s: "suite_evaluate cv now e None (w_suite w) = (Inr (Some c), s)"
    and f: "publish_candidate c (w_publisher w) = (FAILED, p)" and w': "w' = w\<lparr>w_suite := s, w_publisher := p\<rparr>"
    using assms(2,3,4) na [of "w_source w"] by (cases rule: process_event_cases [of cv now e w]) auto
  have again: "suite_evaluate cv later e None s = (Inr None, s)"
    using suite_once [OF suite, of cv now e None c later None] s by simp
  have "st_incidents (p_store p) = st_incidents (p_store (w_publisher w))"
    using f publish_candidate_fst [of c "w_publisher w"]
    by (cases rule: publish_incident_cases [OF ok, of "candidate_record c"]) (auto simp: publish_candidate_def)
  moreover have "publisher_ok (pub_step Recover p)"
    using publisher_ok_candidate [OF ok, of c] f by (metis publisher_ok_step snd_conv)
  ultimately have "tp_incidents (p_transport (pub_step Recover p)) = map wire_of (st_incidents (p_store (w_publisher w)))"
    by (simp add: publisher_ok_def)
  then show ?thesis by (simp add: process_event_def w1_def w' again)
qed

theorem redelivery_loses_incident_witness:
  "\<exists>w1 w2. w1 = snd (process_event demo_conversions 0 blocked_event
                   (new_worker\<lparr>w_publisher := pub_step Outage new_publisher\<rparr>)) \<and>
     process_event demo_conversions 1 blocked_event
       (w1\<lparr>w_publisher := pub_step Recover (w_publisher w1)\<rparr>) = (Inr False, w2) \<and>
     ts_acked (w_source w2) = [''e1''] \<and> tp_incidents (p_transport (w_publisher w2)) = []"
proof -
  let ?w = "new_worker\<lparr>w_publisher := pub_step Outage new_publisher\<rparr>"
  have ok: "worker_ok ?w"
    using worker_ok_new publisher_ok_step [OF publisher_ok_new, of Outage] by (simp add: worker_ok_def)
  obtain c where c: "fst (suite_evaluate demo_conversions 0 blocked_event None (w_suite ?w)) = Inr (Some c)"
    by (simp add: suite_evaluate_def blocked_event_def verdict_from_payload_def pget_def dict_simps py_or_def
        py_str_def evaluate_grounding_def new_worker_def default_suite_def new_seen_def seen_contains_def Let_def)
  have p: "fst (publish_candidate c (w_publisher ?w)) = FAILED" for c
    by (simp add: publish_candidate_fst publish_incident_def has_incident_def new_publisher_def new_store_def
        new_seen_def seen_contains_def emit_incident_def)
  obtain s where s: "suite_evaluate demo_conversions 0 blocked_event None (w_suite ?w) = (Inr (Some c), s)"
    using c by (metis prod.collapse)
  obtain q where q: "publish_candidate c (w_publisher ?w) = (FAILED, q)" using p by (metis prod.collapse)
  let ?w' = "?w\<lparr>w_suite := s, w_publisher := q\<rparr>"
  have step: "process_event demo_conversions 0 blocked_event ?w = (Inr False, ?w')" "w_source ?w' = w_source ?w"
    using s q by (simp_all add: process_event_def)
  from redelivery_loses_incident [OF ok c step, of 1] obtain w2 where
    "process_event demo_conversions 1 blocked_event
       (?w'\<lparr>w_publisher := pub_step Recover (w_publisher ?w')\<rparr>) = (Inr False, w2)"
    "w_source w2 = ack blocked_event (w_source ?w)"
    "tp_incidents (p_transport (w_publisher w2)) = map wire_of (st_incidents (p_store (w_publisher ?w)))"
    by blast
  then show ?thesis
    using step(1) by (intro exI [of _ ?w'] exI [of _ w2])
      (simp add: new_worker_def new_publisher_def new_store_def ack_def blocked_event_def)
qed

end
