(* ===== verification/Ops_Health.thy ===== *)
theory Ops_Health imports Ops_Incidents begin

text \<open>
  What operations report: \<open>HealthCheckService\<close> (\<open>ops/src/docsuri_ops/health.py\<close>),
  \<open>OpsDashboardService\<close> (\<open>dashboard.py\<close>) and \<open>ReliabilityEvalProbe\<close>
  (\<open>reliability_eval.py\<close>). Shown: when the deep check says healthy, degraded or unhealthy,
  that the class summary accounts for every incident of the window, and the range of the error
  rate; and that a document-count mismatch degrades the index entry but not the overall status.
\<close>

section \<open>Health\<close>

text \<open>
  A stats provider: the results of its reader methods, by name, and the provider itself, which is
  taken for the stats when it has no reader.
\<close>

record stats_provider =
  sp_readers :: "(string, string + pyval) dict"
  sp_self :: pyval

fun first_reader :: "(string, string + pyval) dict \<Rightarrow> string list \<Rightarrow> (string + pyval) option" where
  "first_reader readers [] = None"
| "first_reader readers (name # names) =
     (case dget readers name of Some r \<Rightarrow> Some r | None \<Rightarrow> first_reader readers names)"

definition read_index_stats :: "stats_provider \<Rightarrow> string + pyval" where
  "read_index_stats p =
     (case first_reader (sp_readers p) [''get_index_stats'', ''index_stats'', ''stats''] of
        Some r \<Rightarrow> r | None \<Rightarrow> Inr (sp_self p))"

text \<open>\<open>_get\<close>, with the optional projection method of an object.\<close>

definition stats_field :: "pyval \<Rightarrow> string \<Rightarrow> pyval" where
  "stats_field value fld = (case value of
      PDict d \<Rightarrow> pget d fld
    | PObj d \<Rightarrow> (case pget d ''to_public_internal_dict'' of
                  PDict public \<Rightarrow> pget public fld
                | _ \<Rightarrow> pget d fld)
    | _ \<Rightarrow> PNone)"

definition parse_datetime :: "(string \<Rightarrow> rat option) \<Rightarrow> pyval \<Rightarrow> string + rat option" where
  "parse_datetime fromiso v = (case v of
      PTime t \<Rightarrow> Inr (Some t)
    | PStr s \<Rightarrow> (case fromiso s of Some t \<Rightarrow> Inr (Some t) | None \<Rightarrow> Inl ''ValueError'')
    | _ \<Rightarrow> Inr None)"

record index_details =
  id_reason :: "string option"
  id_last_write :: "rat option"
  id_count :: pyval
  id_expected :: pyval
  id_mismatch :: bool

record index_health =
  ih_status :: string
  ih_stale :: bool
  ih_details :: index_details

definition count_mismatch :: "conversions \<Rightarrow> pyval \<Rightarrow> pyval \<Rightarrow> string + bool" where
  "count_mismatch cv index_count expected =
     (if index_count = PNone \<or> expected = PNone then Inr False
      else case py_int cv index_count of
             Inl err \<Rightarrow> Inl err
           | Inr a \<Rightarrow> (case py_int cv expected of Inl err \<Rightarrow> Inl err | Inr b \<Rightarrow> Inr (a \<noteq> b)))"

definition check_index_stats ::
  "conversions \<Rightarrow> (string \<Rightarrow> rat option) \<Rightarrow> rat \<Rightarrow> rat \<Rightarrow> stats_provider \<Rightarrow> string + index_health" where
  "check_index_stats cv fromiso now max_age provider =
     (case read_index_stats provider of
        Inl _ \<Rightarrow> Inr \<lparr>ih_status = ''unhealthy'', ih_stale = True,
                    ih_details = \<lparr>id_reason = Some ''provider_error'', id_last_write = None, id_count = PNone,
                                 id_expected = PNone, id_mismatch = False\<rparr>\<rparr>
      | Inr stats \<Rightarrow>
          (case parse_datetime fromiso (stats_field stats ''last_write_timestamp'') of
             Inl err \<Rightarrow> Inl err
           | Inr last_write \<Rightarrow>
               (let cnt = stats_field stats ''index_count''; expected = stats_field stats ''expected_index_count'';
                    details = \<lparr>id_reason = None, id_last_write = last_write, id_count = cnt,
                               id_expected = expected, id_mismatch = False\<rparr>
                in case last_write of
                     None \<Rightarrow> Inr \<lparr>ih_status = ''unhealthy'', ih_stale = True, ih_details = details\<rparr>
                   | Some t \<Rightarrow>
                       (case count_mismatch cv cnt expected of
                          Inl err \<Rightarrow> Inl err
                        | Inr mismatch \<Rightarrow>
                            (let stale = now - t > max_age in
                             Inr \<lparr>ih_status = (if stale \<or> mismatch then ''degraded'' else ''healthy''),
                                  ih_stale = stale,
                                  ih_details = details\<lparr>id_mismatch := mismatch\<rparr>\<rparr>)))))"

record health_status =
  hs_status :: string
  hs_dependencies :: "(string, string) dict"
  hs_stale :: bool
  hs_details :: "(string, index_details) dict"

definition shallow_check :: health_status where
  "shallow_check = \<lparr>hs_status = ''healthy'', hs_dependencies = [], hs_stale = False, hs_details = []\<rparr>"

text \<open>A dependency probe returns a value or raises.\<close>

definition probe_ok :: "string + pyval \<Rightarrow> bool" where
  "probe_ok r = (case r of Inl _ \<Rightarrow> False | Inr v \<Rightarrow> py_truthy v)"

definition probe_all :: "(string, string + pyval) dict \<Rightarrow> (string, string) dict" where
  "probe_all deps =
     fold (\<lambda>(name, r) d. dset name (if probe_ok r then ''healthy'' else ''unhealthy'') d) deps []"

definition deep_check ::
  "conversions \<Rightarrow> (string \<Rightarrow> rat option) \<Rightarrow> rat \<Rightarrow> rat \<Rightarrow> (string, string + pyval) dict
     \<Rightarrow> stats_provider option \<Rightarrow> string + health_status" where
  "deep_check cv fromiso now max_age deps provider =
     (let probes = probe_all deps; down = list_ex (\<lambda>(_, r). \<not> probe_ok r) deps in
      case (case provider of
              None \<Rightarrow> Inr None
            | Some p \<Rightarrow> (case check_index_stats cv fromiso now max_age p of
                           Inl err \<Rightarrow> Inl err | Inr h \<Rightarrow> Inr (Some h))) of
        Inl err \<Rightarrow> Inl err
      | Inr None \<Rightarrow>
          Inr \<lparr>hs_status = (if down then ''unhealthy'' else ''healthy''), hs_dependencies = probes,
               hs_stale = False, hs_details = []\<rparr>
      | Inr (Some h) \<Rightarrow>
          (let unhealthy = down \<or> ih_status h = ''unhealthy'' in
           Inr \<lparr>hs_status = (if unhealthy then ''unhealthy'' else if ih_stale h then ''degraded'' else ''healthy''),
                hs_dependencies = dset ''indexStats'' (ih_status h) probes, hs_stale = ih_stale h,
                hs_details = [(''indexStats'', ih_details h)]\<rparr>))"

definition good_stats :: "stats_provider \<Rightarrow> pyval \<Rightarrow> rat \<Rightarrow> bool" where
  "good_stats p stats t \<longleftrightarrow>
     read_index_stats p = Inr stats \<and> stats_field stats ''last_write_timestamp'' = PTime t"

lemma check_good:
  assumes "good_stats p stats t"
    and "count_mismatch cv (stats_field stats ''index_count'') (stats_field stats ''expected_index_count'') = Inr m"
  shows "\<exists>h. check_index_stats cv fromiso now age p = Inr h \<and> ih_stale h = (now - t > age) \<and>
    ih_status h = (if now - t > age \<or> m then ''degraded'' else ''healthy'')"
  using assms by (simp add: check_index_stats_def good_stats_def parse_datetime_def Let_def)

text \<open>
  The deep check, with readable index statistics: unhealthy exactly when a dependency probe
  fails or raises, degraded exactly when none does and the last write is older than the bound, and
  healthy otherwise. In particular a mismatch between the indexed and the expected number of
  documents marks the index entry degraded and leaves the overall status healthy.
\<close>

theorem deep_check_status:
  assumes "good_stats p stats t"
    and "count_mismatch cv (stats_field stats ''index_count'') (stats_field stats ''expected_index_count'') = Inr m"
  shows "\<exists>h. deep_check cv fromiso now age deps (Some p) = Inr h \<and>
    (hs_status h = ''unhealthy'' \<longleftrightarrow> (\<exists>name r. (name, r) \<in> set deps \<and> \<not> probe_ok r)) \<and>
    (hs_status h = ''degraded'' \<longleftrightarrow>
       (\<forall>(name, r) \<in> set deps. probe_ok r) \<and> age < now - t) \<and>
    (m \<and> now - t \<le> age \<and> (\<forall>(name, r) \<in> set deps. probe_ok r) \<longrightarrow>
       hs_status h = ''healthy'' \<and> dget (hs_dependencies h) ''indexStats'' = Some ''degraded'')"
proof -
  obtain h where h: "check_index_stats cv fromiso now age p = Inr h" "ih_stale h = (now - t > age)"
    "ih_status h = (if now - t > age \<or> m then ''degraded'' else ''healthy'')"
    using check_good [OF assms] by blast
  show ?thesis
    by (auto simp: deep_check_def h(1) h(2) h(3) Let_def list_ex_iff dict_simps)
qed

definition demo_provider :: stats_provider where
  "demo_provider = \<lparr>sp_readers = [(''stats'', Inr (PDict [(''last_write_timestamp'', PTime 90),
      (''index_count'', PInt 3), (''expected_index_count'', PInt 5)]))], sp_self = PNone\<rparr>"

theorem deep_check_status_witness:
  "\<exists>h. deep_check demo_conversions (\<lambda>_. None) 100 60 [(''db'', Inr (PBool True))] (Some demo_provider) = Inr h \<and>
     hs_status h = ''healthy'' \<and> dget (hs_dependencies h) ''indexStats'' = Some ''degraded''"
proof -
  let ?stats = "PDict [(''last_write_timestamp'', PTime 90), (''index_count'', PInt 3),
      (''expected_index_count'', PInt 5)]"
  have g: "good_stats demo_provider ?stats 90"
    by (simp add: good_stats_def demo_provider_def read_index_stats_def dict_simps stats_field_def pget_def)
  have m: "count_mismatch demo_conversions (stats_field ?stats ''index_count'')
      (stats_field ?stats ''expected_index_count'') = Inr True"
    by (simp add: count_mismatch_def stats_field_def pget_def dict_simps py_int_def)
  show ?thesis
    using deep_check_status [OF g m, of "\<lambda>_. None" 100 60 "[(''db'', Inr (PBool True))]"]
    by (auto simp: probe_ok_def)
qed

section \<open>The dashboard\<close>

record dashboard_window =
  win_start :: rat
  win_end :: rat

definition win_contains :: "dashboard_window \<Rightarrow> rat \<Rightarrow> bool" where
  "win_contains w t = (win_start w \<le> t \<and> t \<le> win_end w)"

definition list_incidents_in ::
  "dashboard_window option \<Rightarrow> incident_class option \<Rightarrow> incident_store \<Rightarrow> incident_record list" where
  "list_incidents_in window cls s =
     (let xs = st_incidents s;
          xs = (case window of None \<Rightarrow> xs | Some w \<Rightarrow> filter (\<lambda>r. win_contains w (ir_timestamp r)) xs)
      in case cls of None \<Rightarrow> xs | Some c \<Rightarrow> filter (\<lambda>r. ir_class r = c) xs)"

definition incident_classes :: "incident_class list" where
  "incident_classes = [COST_EXPLOSION, HALLUCINATION, PARTIAL_RESULT]"

definition bump :: "string \<Rightarrow> (string, nat) dict \<Rightarrow> (string, nat) dict" where
  "bump k d = dset k ((case dget d k of None \<Rightarrow> 0 | Some n \<Rightarrow> n) + 1) d"

definition summarize_by_class :: "dashboard_window \<Rightarrow> incident_store \<Rightarrow> (string, nat) dict" where
  "summarize_by_class w s =
     fold (\<lambda>r d. bump (class_value (ir_class r)) d) (list_incidents_in (Some w) None s)
       (map (\<lambda>c. (class_value c, 0)) incident_classes)"

definition is_metric :: "string \<Rightarrow> telemetry_event \<Rightarrow> bool" where
  "is_metric name e = (te_kind e = SK_METRIC \<and> te_name e = Some name)"

definition latencies :: "telemetry_event list \<Rightarrow> rat list" where
  "latencies es = List.map_filter te_value (filter (is_metric ''gateway.request.latency'') es)"

definition latency_p95 :: "telemetry_event list \<Rightarrow> rat option" where
  "latency_p95 es =
     (let l = sort (latencies es); idx = nat (floor (of_nat (length l) * (95 / 100 :: rat))) in
      if l = [] then None else Some (round6 (l ! min idx (length l - 1))))"

definition throughput :: "telemetry_event list \<Rightarrow> nat" where
  "throughput es = length (filter (is_metric ''gateway.request.throughput'') es)"

definition error_events :: "telemetry_event list \<Rightarrow> telemetry_event list" where
  "error_events es = filter (\<lambda>e. is_metric ''gateway.request.latency'' e \<and>
     starts_with ''5'' (case dget (te_tags e) ''status'' of None \<Rightarrow> [] | Some s \<Rightarrow> s)) es"

definition error_rate :: "telemetry_event list \<Rightarrow> rat" where
  "error_rate es =
     (if throughput es > 0 then round6 (of_nat (length (error_events es)) / of_nat (throughput es))
      else if error_events es \<noteq> [] then 1 else 0)"

definition grounding_health :: "telemetry_event list \<Rightarrow> (string, nat) dict" where
  "grounding_health es =
     fold (\<lambda>e d. bump (case dget (te_tags e) ''verdict'' of None \<Rightarrow> ''unknown'' | Some v \<Rightarrow> v) d)
       (filter (is_metric ''discovery.search.grounding'') es)
       [(''pass'', 0), (''block'', 0), (''abstain'', 0)]"

record dashboard_view =
  dv_incident_count :: nat
  dv_alert_count :: nat
  dv_cost_state :: "budget_state option"
  dv_health :: "health_status option"
  dv_latency_p95 :: "rat option"
  dv_error_rate :: "rat option"
  dv_throughput :: "nat option"
  dv_grounding_health :: "(string, nat) dict option"

text \<open>
  \<open>event_store\<close>: the events of a store that supports reading back, or \<open>None\<close>.
\<close>

definition get_dashboard ::
  "dashboard_window \<Rightarrow> incident_store \<Rightarrow> cost_guard option \<Rightarrow> (string + health_status) option
     \<Rightarrow> telemetry_event list option \<Rightarrow> string + dashboard_view" where
  "get_dashboard w s guard health event_store =
     (case (case health of None \<Rightarrow> Inr None
            | Some r \<Rightarrow> (case r of Inl err \<Rightarrow> Inl err | Inr h \<Rightarrow> Inr (Some h))) of
        Inl err \<Rightarrow> Inl err
      | Inr h \<Rightarrow>
          (let view = \<lparr>dv_incident_count = length (list_incidents_in (Some w) None s),
                       dv_alert_count = length (filter (\<lambda>a. win_contains w (ar_timestamp a)) (st_alerts s)),
                       dv_cost_state = map_option get_budget_state guard, dv_health = h,
                       dv_latency_p95 = None, dv_error_rate = None, dv_throughput = None,
                       dv_grounding_health = None\<rparr>
           in case event_store of
                None \<Rightarrow> Inr view
              | Some all_events \<Rightarrow>
                  (let es = filter (\<lambda>e. win_contains w (te_timestamp e)) all_events in
                   Inr (view\<lparr>dv_latency_p95 := latency_p95 es, dv_error_rate := Some (error_rate es),
                             dv_throughput := Some (throughput es),
                             dv_grounding_health := Some (grounding_health es)\<rparr>))))"

definition dict_total :: "(string, nat) dict \<Rightarrow> nat" where
  "dict_total d = sum_list (map snd d)"

lemma dict_total_bump: "dict_ok d \<Longrightarrow> dict_total (bump k d) = Suc (dict_total d) \<and> dict_ok (bump k d)"
proof (induction d)
  case Nil
  then show ?case by (simp add: bump_def dict_total_def dset_def dict_ok_def dget_def)
next
  case (Cons kv d)
  obtain k' v where kv: "kv = (k', v)" by (cases kv)
  have ok: "dict_ok d" using Cons.prems by (simp add: dict_ok_def)
  show ?case
  proof (cases "k' = k")
    case True
    then show ?thesis using Cons.prems by (simp add: kv bump_def dset_def dget_def dict_total_def dict_ok_def)
  next
    case False
    have "bump k (kv # d) = kv # bump k d" using False by (simp add: kv bump_def dset_def dget_def)
    moreover have "dict_ok (bump k (kv # d))" using Cons.prems by (simp add: bump_def dict_ok_dset)
    ultimately show ?thesis using Cons.IH [OF ok] by (simp add: dict_total_def)
  qed
qed

lemma dict_total_fold:
  "dict_ok d \<Longrightarrow> dict_total (fold (\<lambda>x d. bump (f x) d) xs d) = dict_total d + length xs"
  by (induction xs arbitrary: d) (simp_all add: dict_total_bump)

lemma bump_get: "dget (bump k d) j = (if j = k then Some (Suc (case dget d k of None \<Rightarrow> 0 | Some n \<Rightarrow> n)) else dget d j)"
  by (simp add: bump_def dict_simps)

lemma bump_fold_get:
  "dget d j \<noteq> None \<Longrightarrow>
   dget (fold (\<lambda>x d. bump (f x) d) xs d) j = Some (the (dget d j) + length (filter (\<lambda>x. f x = j) xs))"
  by (induction xs arbitrary: d) (auto simp: bump_get split: if_splits)

lemma class_value_inj: "class_value a = class_value b \<longleftrightarrow> a = b"
  by (cases a; cases b) simp_all

lemma round6_unit: "0 \<le> x \<Longrightarrow> x \<le> 1 \<Longrightarrow> 0 \<le> round6 x \<and> round6 x \<le> 1"
proof -
  assume x: "0 \<le> x" "x \<le> 1"
  let ?y = "x * 1000000" and ?f = "floor (x * 1000000)"
  have f: "0 \<le> ?f" "?f \<le> 1000000" using x by (simp_all add: floor_le_iff)
  have "\<not> ?y - of_int ?f \<ge> 1 / 2" if "?f = 1000000" unfolding that using x by simp
  then have "?f \<noteq> 1000000" if "?y - of_int ?f \<ge> 1 / 2" using that by blast
  then have "?y - of_int ?f \<ge> 1 / 2 \<Longrightarrow> ?f \<le> 999999" using f by linarith
  then show ?thesis using f by (simp add: round6_def Let_def)
qed

text \<open>
  The dashboard accounts for everything: each class of the summary counts exactly the window's
  incidents of that class, the counts add up to the dashboard's incident count, and the grounding
  counts add up to the grounding verdicts emitted.
\<close>

theorem dashboard_accounts:
  "dget (summarize_by_class w s) (class_value c) = Some (length (list_incidents_in (Some w) (Some c) s)) \<and>
   dict_total (summarize_by_class w s) = length (list_incidents_in (Some w) None s) \<and>
   dict_total (grounding_health es) = length (filter (is_metric ''discovery.search.grounding'') es)"
proof (intro conjI)
  let ?d0 = "map (\<lambda>c. (class_value c, 0 :: nat)) incident_classes"
  have d0: "dict_ok ?d0" "dict_total ?d0 = 0" by (simp_all add: incident_classes_def dict_ok_def dict_total_def)
  have g: "dget ?d0 (class_value c) = Some 0" by (cases c) (simp_all add: incident_classes_def dict_simps)
  show "dget (summarize_by_class w s) (class_value c) = Some (length (list_incidents_in (Some w) (Some c) s))"
    using g by (simp add: summarize_by_class_def bump_fold_get class_value_inj list_incidents_in_def)
  show "dict_total (summarize_by_class w s) = length (list_incidents_in (Some w) None s)"
    using d0 by (simp add: summarize_by_class_def dict_total_fold)
  show "dict_total (grounding_health es) = length (filter (is_metric ''discovery.search.grounding'') es)"
    unfolding grounding_health_def by (subst dict_total_fold) (simp_all add: dict_ok_def dict_total_def)
qed

text \<open>
  The reported error rate is a rate: when no more failing latency events than throughput
  events fall in the window it is between 0 and 1, and it is never negative.
\<close>

theorem error_rate_range:
  assumes "length (error_events es) \<le> throughput es"
  shows "0 \<le> error_rate es \<and> error_rate es \<le> 1"
proof (cases "throughput es > 0")
  case True
  then have "of_nat (length (error_events es)) / of_nat (throughput es) \<le> (1 :: rat)"
    using assms by (simp add: divide_le_eq_1)
  then show ?thesis using True round6_unit by (simp add: error_rate_def)
next
  case False
  then show ?thesis by (simp add: error_rate_def)
qed

definition metric_event :: "string \<Rightarrow> string \<Rightarrow> telemetry_event" where
  "metric_event name status = \<lparr>te_event_id = ''m'', te_kind = SK_METRIC, te_timestamp = 0, te_request_id = None,
     te_name = Some name, te_value = Some 1, te_tags = [(''status'', status)], te_payload = []\<rparr>"

theorem error_rate_range_witness:
  "error_rate [metric_event ''gateway.request.latency'' ''500'',
               metric_event ''gateway.request.throughput'' ''500''] \<le> 1"
  using error_rate_range [of "[metric_event ''gateway.request.latency'' ''500'',
      metric_event ''gateway.request.throughput'' ''500'']"]
  by (simp add: error_events_def throughput_def is_metric_def metric_event_def dict_simps starts_with_def)

section \<open>The reliability evaluation\<close>

record reliability_case =
  rc_name :: string
  rc_expected :: string
  rc_payload :: "(string \<times> pyval) list"

record reliability_result =
  rr_name :: string
  rr_expected :: string
  rr_actual :: string
  rr_passed :: bool

definition actual_status :: "conversions \<Rightarrow> reliability_case \<Rightarrow> string" where
  "actual_status cv c =
     (let payload = rc_payload c in
      if py_truthy (pget payload ''embeddingFailure'') then ''degraded''
      else if py_truthy (pget payload ''vectorIndexFailure'') then ''fail_closed''
      else if py_truthy (pget payload ''emptyCandidate'') then ''abstain''
      else if py_truthy (pget payload ''forcedCostDegrade'') then ''degraded''
      else case dget payload ''status'' of
             None \<Rightarrow> rc_expected c | Some v \<Rightarrow> py_str (show_value cv) v)"

definition run_case :: "conversions \<Rightarrow> reliability_case \<Rightarrow> reliability_result" where
  "run_case cv c =
     (let actual = actual_status cv c in
      \<lparr>rr_name = rc_name c, rr_expected = rc_expected c, rr_actual = actual,
       rr_passed = (actual = rc_expected c)\<rparr>)"

definition run_reliability_eval_set ::
  "conversions \<Rightarrow> reliability_case list \<Rightarrow> reliability_result list \<times> bool" where
  "run_reliability_eval_set cv cases =
     (let results = map (run_case cv) cases in (results, list_all rr_passed results))"

definition verify_degraded_mode :: "string \<Rightarrow> (string \<times> pyval) list" where
  "verify_degraded_mode mode =
     [(''status'', PStr ''degraded''), (''degraded'', PBool True), (''degradeMode'', PStr mode)]"

text \<open>
  The two views of degraded mode agree: the response the reliability probe takes for a correct
  degraded one is never flagged as a partial result by the detector, for any mode, whereas the
  same response claiming success without the flag is, for any non-empty mode.
\<close>

theorem degraded_mode_agrees:
  "partial_reason cv (verify_degraded_mode mode) = Inr None \<and>
   partial_reason cv [(''status'', PStr ''success''), (''degradeMode'', PStr (c # mode))] =
     Inr (Some ''degraded execution was reported as success'')"
  by (simp add: partial_reason_def verify_degraded_mode_def payload_status_def pget_def dict_simps py_str_def
      payload_items_def is_zero_def py_or_def Let_def)

end
