(* ===== verification/Ingest_Domain.thy ===== *)
theory Ingest_Domain imports Py_Text begin

text \<open>
  The domain of the ingestion worker (U1), \<open>ingestion/src/docsuri_ingestion/domain\<close>: the
  enumerations (\<open>enums.py\<close>), the typed errors (\<open>errors.py\<close>), arXiv identifiers
  (\<open>ids.py\<close>), the canonical key and the source precedence (\<open>canonical.py\<close>), the dedup
  policy (\<open>dedup.py\<close>) and the failure mapping of outbound fetches (\<open>http_limits.py\<close>). SHA-256
  is a parameter. \<open>int()\<close> and \<open>str()\<close> of arbitrarily long numerals are unbounded here; the
  interpreter refuses more than 4300 digits.

  Shown: an accepted reference is a valid versionless id with a positive version, and both printed
  forms of an identifier parse back to it; the dedup decision on every branch; which statuses of a
  fetch are retried, and that a capped read never returns more than its cap.
\<close>

section \<open>Enumerations\<close>

datatype source_name = ARXIV | SEMANTIC_SCHOLAR | OPENALEX

datatype dedup_decision = NEW | CHANGED | DUPLICATE | STALE

datatype job_kind = SEED_REBUILD | INCREMENTAL | EVENT | BUILD_DOC_MODEL | BUILD_USER_DOC_MODEL

datatype failure_class = RETRIABLE | PERMANENT

datatype failure_reason =
    FETCH_FAILURE | PARSE_FAILURE | VALIDATION_VIOLATION | NON_OA | RATE_LIMITED | TIMEOUT
  | DEPENDENCY_UNAVAILABLE | BULK_INDEX_PARTIAL_FAILURE | POISON_EVENT
  | ASSET_EXTRACT_FAILURE | ASSET_STORE_FAILURE

datatype dedup_state_kind = INDEXED | TOMBSTONED | EXCLUDED

text \<open>The values of the string enumerations.\<close>

definition source_name_value :: "source_name \<Rightarrow> string" where
  "source_name_value s = (case s of
      ARXIV \<Rightarrow> ''ARXIV'' | SEMANTIC_SCHOLAR \<Rightarrow> ''SEMANTIC_SCHOLAR'' | OPENALEX \<Rightarrow> ''OPENALEX'')"

definition job_kind_value :: "job_kind \<Rightarrow> string" where
  "job_kind_value k = (case k of
      SEED_REBUILD \<Rightarrow> ''SEED_REBUILD'' | INCREMENTAL \<Rightarrow> ''INCREMENTAL'' | EVENT \<Rightarrow> ''EVENT''
    | BUILD_DOC_MODEL \<Rightarrow> ''BUILD_DOC_MODEL'' | BUILD_USER_DOC_MODEL \<Rightarrow> ''BUILD_USER_DOC_MODEL'')"

definition failure_reason_value :: "failure_reason \<Rightarrow> string" where
  "failure_reason_value r = (case r of
      FETCH_FAILURE \<Rightarrow> ''FETCH_FAILURE'' | PARSE_FAILURE \<Rightarrow> ''PARSE_FAILURE''
    | VALIDATION_VIOLATION \<Rightarrow> ''VALIDATION_VIOLATION'' | NON_OA \<Rightarrow> ''NON_OA''
    | RATE_LIMITED \<Rightarrow> ''RATE_LIMITED'' | TIMEOUT \<Rightarrow> ''TIMEOUT''
    | DEPENDENCY_UNAVAILABLE \<Rightarrow> ''DEPENDENCY_UNAVAILABLE''
    | BULK_INDEX_PARTIAL_FAILURE \<Rightarrow> ''BULK_INDEX_PARTIAL_FAILURE''
    | POISON_EVENT \<Rightarrow> ''POISON_EVENT'' | ASSET_EXTRACT_FAILURE \<Rightarrow> ''ASSET_EXTRACT_FAILURE''
    | ASSET_STORE_FAILURE \<Rightarrow> ''ASSET_STORE_FAILURE'')"

definition all_sources :: "source_name list" where
  "all_sources = [ARXIV, SEMANTIC_SCHOLAR, OPENALEX]"

definition all_job_kinds :: "job_kind list" where
  "all_job_kinds = [SEED_REBUILD, INCREMENTAL, EVENT, BUILD_DOC_MODEL, BUILD_USER_DOC_MODEL]"

text \<open>\<open>SourceName(value)\<close> and \<open>JobKind(value)\<close>: the member with that value, else \<open>ValueError\<close>.\<close>

definition source_of_value :: "string \<Rightarrow> source_name option" where
  "source_of_value v = List.find (\<lambda>s. source_name_value s = v) all_sources"

definition job_kind_of_value :: "string \<Rightarrow> job_kind option" where
  "job_kind_of_value v = List.find (\<lambda>k. job_kind_value k = v) all_job_kinds"

lemma source_of_value_value [simp]: "source_of_value (source_name_value s) = Some s"
  by (cases s) (simp_all add: source_of_value_def all_sources_def source_name_value_def)

lemma job_kind_of_value_value [simp]: "job_kind_of_value (job_kind_value k) = Some k"
  by (cases k) (simp_all add: job_kind_of_value_def all_job_kinds_def job_kind_value_def)

section \<open>Errors\<close>

record ingestion_error =
  err_message :: string
  err_class :: failure_class
  err_reason :: failure_reason
  err_stage :: string

definition public_error :: "ingestion_error \<Rightarrow> string" where
  "public_error e = failure_reason_value (err_reason e)"

definition permanent_error :: "string \<Rightarrow> failure_reason \<Rightarrow> string \<Rightarrow> ingestion_error" where
  "permanent_error msg reason stage =
     \<lparr>err_message = msg, err_class = PERMANENT, err_reason = reason, err_stage = stage\<rparr>"

definition retriable_error :: "string \<Rightarrow> failure_reason \<Rightarrow> string \<Rightarrow> ingestion_error" where
  "retriable_error msg reason stage =
     \<lparr>err_message = msg, err_class = RETRIABLE, err_reason = reason, err_stage = stage\<rparr>"

definition license_rejected :: "string option \<Rightarrow> ingestion_error" where
  "license_rejected url =
     permanent_error (''paper is not redistributable OA: '' @
       (case url of Some u \<Rightarrow> if u = [] then ''missing'' else u | None \<Rightarrow> ''missing''))
       NON_OA ''validate''"

definition validation_violation :: "string \<Rightarrow> string \<Rightarrow> ingestion_error" where
  "validation_violation msg stage = permanent_error msg VALIDATION_VIOLATION stage"

section \<open>arXiv identifiers\<close>

record arxiv_identifier =
  ai_paper :: string
  ai_version :: int

definition arxiv_id :: "arxiv_identifier \<Rightarrow> string" where
  "arxiv_id i = ai_paper i @ ''v'' @ py_int_str (ai_version i)"

definition abs_url :: "arxiv_identifier \<Rightarrow> string" where
  "abs_url i = ''https://arxiv.org/abs/'' @ arxiv_id i"

text \<open>A literal prefix matched without regard to letter case.\<close>

definition drop_ci :: "string \<Rightarrow> string \<Rightarrow> string option" where
  "drop_ci p s = (if starts_with p (py_lower s) then Some (drop (length p) s) else None)"

definition opt_ci :: "string \<Rightarrow> string \<Rightarrow> string" where
  "opt_ci p s = (case drop_ci p s of Some r \<Rightarrow> r | None \<Rightarrow> s)"

definition sub_url_prefix :: "string \<Rightarrow> string" where
  "sub_url_prefix s =
     (let r1 = (case drop_ci ''https://'' s of Some r \<Rightarrow> r | None \<Rightarrow> opt_ci ''http://'' s);
          r2 = opt_ci ''www.'' r1
      in case drop_ci ''arxiv.org/abs/'' r2 of
           Some r \<Rightarrow> r
         | None \<Rightarrow> (case drop_ci ''arxiv.org/pdf/'' r2 of Some r \<Rightarrow> r | None \<Rightarrow> s))"

text \<open>In a Python pattern, \<open>$\<close> also matches before a final newline.\<close>

definition newline :: char where "newline = CHR 0x0A"

definition before_dollar :: "string \<Rightarrow> string" where
  "before_dollar s = (if s \<noteq> [] \<and> last s = newline then butlast s else s)"

definition dollar_rest :: "string \<Rightarrow> string" where
  "dollar_rest s = (if s \<noteq> [] \<and> last s = newline then [newline] else [])"

definition sub_pdf_suffix :: "string \<Rightarrow> string" where
  "sub_pdf_suffix s =
     (if ends_with ''.pdf'' (py_lower (before_dollar s))
      then take (length (before_dollar s) - 4) s @ dollar_rest s else s)"

text \<open>\<open>^(.+?)v([1-9][0-9]*)$\<close>, ignoring case; \<open>.\<close> does not match a newline.\<close>

definition version_match :: "string \<Rightarrow> (string \<times> string) option" where
  "version_match s =
     (let t = rev (before_dollar s); digits = rev (takeWhile py_isdigit t) in
      case dropWhile py_isdigit t of
        [] \<Rightarrow> None
      | c # rest \<Rightarrow>
          if digits \<noteq> [] \<and> hd digits \<noteq> CHR ''0'' \<and> (c = CHR ''v'' \<or> c = CHR ''V'') \<and>
             rest \<noteq> [] \<and> newline \<notin> set rest
          then Some (rev rest, digits) else None)"

definition new_style_id :: "string \<Rightarrow> bool" where
  "new_style_id s =
     (let t = before_dollar s; rest = drop 4 t in
      list_all py_isdigit (take 4 t) \<and> rest \<noteq> [] \<and> hd rest = CHR ''.'' \<and>
      length (tl rest) \<in> {4, 5} \<and> list_all py_isdigit (tl rest))"

definition is_letter :: "char \<Rightarrow> bool" where
  "is_letter c = (let n = (of_char c :: nat) in (97 \<le> n \<and> n \<le> 122) \<or> (65 \<le> n \<and> n \<le> 90))"

definition old_style_id :: "string \<Rightarrow> bool" where
  "old_style_id s =
     (let t = before_dollar s;
          archive = takeWhile (\<lambda>c. is_letter c \<or> c = CHR ''-'') t;
          rest = drop (length archive) t;
          rest' = (if rest \<noteq> [] \<and> hd rest = CHR ''.'' then drop 3 rest else rest)
      in archive \<noteq> [] \<and>
         (rest \<noteq> [] \<and> hd rest = CHR ''.'' \<longrightarrow> list_all is_letter (take 2 (tl rest))) \<and>
         rest' \<noteq> [] \<and> hd rest' = CHR ''/'' \<and> length (tl rest') = 7 \<and>
         list_all py_isdigit (tl rest'))"

definition is_valid_paper_id :: "string \<Rightarrow> bool" where
  "is_valid_paper_id s = (new_style_id s \<or> old_style_id s)"

text \<open>Why a reference is refused.\<close>

datatype ref_error = EmptyReference | InvalidPaperId string | InvalidVersion int

definition normalize_arxiv_ref :: "int \<Rightarrow> string \<Rightarrow> ref_error + arxiv_identifier" where
  "normalize_arxiv_ref default_version raw_ref =
     (if py_strip raw_ref = [] then Inl EmptyReference
      else
        let ref = rstrip_by (\<lambda>c. c = CHR ''/'') (lstrip_by (\<lambda>c. c = CHR ''/'')
              (sub_pdf_suffix (opt_ci ''arxiv:'' (sub_url_prefix (py_strip raw_ref)))));
            paper_id = (case version_match ref of Some (p, _) \<Rightarrow> p | None \<Rightarrow> ref);
            version = (case version_match ref of Some (_, ds) \<Rightarrow> int (digits_value ds)
                                                | None \<Rightarrow> default_version)
        in if \<not> is_valid_paper_id paper_id then Inl (InvalidPaperId raw_ref)
           else if version < 1 then Inl (InvalidVersion version)
           else Inr \<lparr>ai_paper = paper_id, ai_version = version\<rparr>)"

definition year_from_paper_id :: "string \<Rightarrow> int option" where
  "year_from_paper_id paper_id =
     (if new_style_id paper_id then Some (2000 + int (digits_value (take 2 paper_id))) else None)"

definition content_fingerprint ::
  "(string \<Rightarrow> string) \<Rightarrow> string \<Rightarrow> int \<Rightarrow> ref_error + string" where
  "content_fingerprint sha256 paper_id version =
     (case normalize_arxiv_ref 1 (paper_id @ ''v'' @ py_int_str version) of
        Inl e \<Rightarrow> Inl e
      | Inr i \<Rightarrow> Inr (sha256 (ai_paper i @ '':v'' @ py_int_str (ai_version i))))"

text \<open>The fingerprint of a paper falls back to its raw id when the id is not an arXiv one.\<close>

definition paper_fingerprint :: "(string \<Rightarrow> string) \<Rightarrow> string \<Rightarrow> int \<Rightarrow> string" where
  "paper_fingerprint sha256 paper_id version =
     (case content_fingerprint sha256 paper_id version of
        Inr f \<Rightarrow> f
      | Inl _ \<Rightarrow> sha256 (paper_id @ '':v'' @ py_int_str version))"

section \<open>Canonical papers\<close>

definition normalize_title :: "string \<Rightarrow> string" where
  "normalize_title v = py_lower (py_strip (collapse_ws v))"

text \<open>\<open>str.isdigit\<close> also holds of the superscript digits.\<close>

definition str_isdigit :: "string \<Rightarrow> bool" where
  "str_isdigit s = (s \<noteq> [] \<and>
     list_all (\<lambda>c. py_isdigit c \<or> (of_char c :: nat) \<in> {178, 179, 185}) s)"

definition strip_arxiv_version :: "string \<Rightarrow> string" where
  "strip_arxiv_version v =
     (let suffix = rev (takeWhile (\<lambda>c. c \<noteq> CHR ''v'') (rev v));
          rest = dropWhile (\<lambda>c. c \<noteq> CHR ''v'') (rev v)
      in if rest \<noteq> [] \<and> str_isdigit suffix then rev (tl rest) else v)"

definition filled :: "string option \<Rightarrow> string" where
  "filled x = (case x of None \<Rightarrow> [] | Some s \<Rightarrow> py_strip s)"

definition canonical_key ::
  "(string \<Rightarrow> string) \<Rightarrow> string \<Rightarrow> int \<Rightarrow> string option \<Rightarrow> string option \<Rightarrow> string option \<Rightarrow> string" where
  "canonical_key sha256 title year doi arxiv first_author =
     (if filled doi \<noteq> [] then ''doi:'' @ py_lower (filled doi)
      else if filled arxiv \<noteq> [] then ''arxiv:'' @ strip_arxiv_version (py_lower (filled arxiv))
      else ''title:'' @ take 24 (sha256
             (normalize_title title @ ''|'' @
              normalize_title (case first_author of Some a \<Rightarrow> a | None \<Rightarrow> []) @ ''|'' @
              py_int_str year)))"

datatype source_tier = native_html | ar5iv | eprint_latex | pdf

definition arxiv_tier_label :: "source_tier option \<Rightarrow> string" where
  "arxiv_tier_label t = (if t = Some pdf then ''ARXIV_PDF'' else ''ARXIV_HTML'')"

definition grobid_tier_label :: "source_name \<Rightarrow> string" where
  "grobid_tier_label s = source_name_value s @ ''_GROBID''"

definition source_priority :: "source_name \<Rightarrow> nat" where
  "source_priority s = (case s of ARXIV \<Rightarrow> 0 | SEMANTIC_SCHOLAR \<Rightarrow> 1 | OPENALEX \<Rightarrow> 2)"

definition source_priority_from_tier :: "string \<Rightarrow> nat" where
  "source_priority_from_tier t =
     (if contains_str ''ARXIV'' (py_upper t) \<or> t \<in> {''native_html'', ''ar5iv'', ''eprint_latex'', ''pdf''}
      then 0
      else if contains_str ''SEMANTIC_SCHOLAR'' (py_upper t) then 1 else 2)"

text \<open>The name-keyed and the tier-keyed precedence are one ordering.\<close>

lemma tier_priority_agrees:
  "source_priority_from_tier (grobid_tier_label s) = source_priority s"
  "source_priority_from_tier (source_name_value s) = source_priority s"
  "source_priority_from_tier (arxiv_tier_label t) = source_priority ARXIV"
proof -
  show "source_priority_from_tier (grobid_tier_label s) = source_priority s"
    by (cases s; simp only:; code_simp)
  show "source_priority_from_tier (source_name_value s) = source_priority s"
    by (cases s; simp only:; code_simp)
  have "source_priority_from_tier ''ARXIV_PDF'' = source_priority ARXIV"
    "source_priority_from_tier ''ARXIV_HTML'' = source_priority ARXIV" by code_simp+
  then show "source_priority_from_tier (arxiv_tier_label t) = source_priority ARXIV"
    by (simp add: arxiv_tier_label_def)
qed

section \<open>The dedup policy\<close>

record dedup_state =
  ds_paper :: string
  ds_version :: int
  ds_fingerprint :: "string option"
  ds_state :: dedup_state_kind
  ds_ingested_at :: "rat option"

definition decide_dedup :: "dedup_state option \<Rightarrow> int \<Rightarrow> string \<Rightarrow> dedup_decision" where
  "decide_dedup state version fingerprint =
     (case state of
        None \<Rightarrow> NEW
      | Some s \<Rightarrow>
          if version < ds_version s then STALE
          else if version = ds_version s \<and> ds_fingerprint s = Some fingerprint \<and> ds_state s = INDEXED
          then DUPLICATE
          else CHANGED)"

section \<open>Outbound fetches\<close>

definition user_agent :: "string option \<Rightarrow> string" where
  "user_agent contact =
     (let detail = (case contact of
            None \<Rightarrow> ''+https://docsuri.org''
          | Some c \<Rightarrow> if c = [] then ''+https://docsuri.org''
                      else ''+https://docsuri.org; mailto:'' @ c)
      in ''DocSuri/1.0 ('' @ detail @ '')'')"

text \<open>\<open>bytes.lstrip\<close> strips ASCII white space.\<close>

definition is_pdf_payload :: "string \<Rightarrow> bool" where
  "is_pdf_payload body =
     (take 5 (dropWhile (\<lambda>c. let n = (of_char c :: nat) in n = 32 \<or> (9 \<le> n \<and> n \<le> 13)) body)
      = ''%PDF-'')"

definition MAX_RESPONSE_BYTES :: nat where "MAX_RESPONSE_BYTES = 64 * 1024 * 1024"

text \<open>The streamed read: the running total, the chunks kept so far, the chunks still to come.\<close>

fun read_chunks :: "nat \<Rightarrow> nat \<Rightarrow> string list \<Rightarrow> string list \<Rightarrow> string option" where
  "read_chunks max_bytes total_bytes chunks [] = Some (concat chunks)"
| "read_chunks max_bytes total_bytes chunks (c # cs) =
     (if total_bytes + length c > max_bytes then None
      else read_chunks max_bytes (total_bytes + length c) (chunks @ [c]) cs)"

definition read_capped :: "nat \<Rightarrow> string list \<Rightarrow> string option" where
  "read_capped max_bytes body = read_chunks max_bytes 0 [] body"

definition raise_for_fetch_status ::
  "(int \<Rightarrow> string) \<Rightarrow> int \<Rightarrow> string \<Rightarrow> string \<Rightarrow> ingestion_error + unit" where
  "raise_for_fetch_status show_code status_code stage source_label =
     (if status_code = 429 \<or> status_code \<ge> 500
      then Inl (retriable_error (source_label @ '' returned '' @ show_code status_code)
                 (if status_code = 429 then RATE_LIMITED else FETCH_FAILURE) stage)
      else if status_code \<ge> 400
      then Inl (permanent_error (source_label @ '' returned '' @ show_code status_code)
                 FETCH_FAILURE stage)
      else Inr ())"

text \<open>What can escape the body of a fetch, and its translation.\<close>

datatype fetch_fault = HttpTimeout | HttpError | TooLarge | AlsoRejected | OtherFault string

definition http_failures_as_ingestion_errors ::
  "string \<Rightarrow> string \<Rightarrow> string \<Rightarrow> string \<Rightarrow> fetch_fault + 'a \<Rightarrow> (string + ingestion_error) + 'a" where
  "http_failures_as_ingestion_errors stage timeout_message failure_message rejected_message r =
     (case r of
        Inr x \<Rightarrow> Inr x
      | Inl HttpTimeout \<Rightarrow> Inl (Inr (retriable_error timeout_message TIMEOUT stage))
      | Inl HttpError \<Rightarrow> Inl (Inr (retriable_error failure_message FETCH_FAILURE stage))
      | Inl TooLarge \<Rightarrow> Inl (Inr (permanent_error rejected_message FETCH_FAILURE stage))
      | Inl AlsoRejected \<Rightarrow> Inl (Inr (permanent_error rejected_message FETCH_FAILURE stage))
      | Inl (OtherFault e) \<Rightarrow> Inl (Inl e))"

lemma read_chunks_spec:
  "read_chunks m t acc cs =
     (if cs = [] \<or> t + length (concat cs) \<le> m then Some (concat acc @ concat cs) else None)"
  by (induction m t acc cs rule: read_chunks.induct) auto

section \<open>Identifiers print and parse\<close>

text \<open>The characters of a valid id, and its three shapes.\<close>

definition id_char :: "char \<Rightarrow> bool" where
  "id_char c = (is_letter c \<or> py_isdigit c \<or> c \<in> {CHR ''-'', CHR ''.'', CHR ''/''})"

definition name_char :: "char \<Rightarrow> bool" where
  "name_char c = (is_letter c \<or> c = CHR ''-'')"

inductive id_shape :: "string \<Rightarrow> bool" where
  shape_new: "\<lbrakk>a \<noteq> []; list_all py_isdigit a; list_all py_isdigit b\<rbrakk> \<Longrightarrow> id_shape (a @ CHR ''.'' # b)"
| shape_old: "\<lbrakk>a \<noteq> []; list_all name_char a; list_all py_isdigit b\<rbrakk> \<Longrightarrow> id_shape (a @ CHR ''/'' # b)"
| shape_sub: "\<lbrakk>a \<noteq> []; list_all name_char a; is_letter x; is_letter y; list_all py_isdigit b\<rbrakk>
    \<Longrightarrow> id_shape (a @ CHR ''.'' # x # y # CHR ''/'' # b)"

inductive_cases id_shapeE: "id_shape p"

lemma before_dollar_plain: "newline \<notin> set s \<Longrightarrow> before_dollar s = s"
  by (metis before_dollar_def last_in_set)

lemma valid_id_shape:
  assumes v: "is_valid_paper_id p" and nl: "newline \<notin> set p"
  shows "id_shape p"
proof (cases "new_style_id p")
  case True
  then have d: "list_all py_isdigit (take 4 p)" "drop 4 p \<noteq> []" "hd (drop 4 p) = CHR ''.''"
    "list_all py_isdigit (tl (drop 4 p))"
    by (simp_all add: new_style_id_def before_dollar_plain [OF nl] Let_def)
  have "p = take 4 p @ CHR ''.'' # tl (drop 4 p)"
    using d(2,3) by (metis append_take_drop_id list.collapse)
  moreover have "take 4 p \<noteq> []" using d(2) by auto
  ultimately show ?thesis using d shape_new by metis
next
  case False
  then have o: "old_style_id p" using v by (simp add: is_valid_paper_id_def)
  define a where "a = takeWhile name_char p"
  define r where "r = drop (length a) p"
  have p: "p = a @ r" by (metis a_def append_take_drop_id r_def takeWhile_eq_take)
  have a: "list_all name_char a" by (auto simp: a_def list_all_iff dest: set_takeWhileD)
  have eq: "takeWhile (\<lambda>c. is_letter c \<or> c = CHR ''-'') p = a"
    by (simp add: a_def name_char_def [abs_def])
  have o': "a \<noteq> []" "r \<noteq> [] \<and> hd r = CHR ''.'' \<longrightarrow> list_all is_letter (take 2 (tl r))"
    "(if r \<noteq> [] \<and> hd r = CHR ''.'' then drop 3 r else r) \<noteq> []"
    "hd (if r \<noteq> [] \<and> hd r = CHR ''.'' then drop 3 r else r) = CHR ''/''"
    "list_all py_isdigit (tl (if r \<noteq> [] \<and> hd r = CHR ''.'' then drop 3 r else r))"
    using o unfolding old_style_id_def Let_def before_dollar_plain [OF nl] eq r_def [symmetric]
    by blast+
  show ?thesis
  proof (cases "r \<noteq> [] \<and> hd r = CHR ''.''")
    case True
    with o'(3) have len: "length r > 3" by simp
    then obtain c x y z b where r: "r = c # x # y # z # b"
      by (auto simp: Suc_le_length_iff numeral_3_eq_3 dest!: Suc_leI)
    then show ?thesis using True o' a p shape_sub [of a x y b] by simp
  next
    case False
    then have "r \<noteq> []" "hd r = CHR ''/''" "list_all py_isdigit (tl r)"
      using o'(3-5) by (auto split: if_splits)
    then show ?thesis using p a o'(1) shape_old [of a "tl r"] by (metis list.collapse)
  qed
qed

lemma id_char_facts:
  "id_char c \<Longrightarrow> \<not> py_isspace c" "id_char c \<Longrightarrow> py_lower_char c \<noteq> CHR '':''"
proof -
  assume c: "id_char c"
  define n where "n = (of_char c :: nat)"
  have n: "(97 \<le> n \<and> n \<le> 122) \<or> (65 \<le> n \<and> n \<le> 90) \<or> (48 \<le> n \<and> n \<le> 57) \<or> n = 45 \<or> n = 46 \<or> n = 47"
    using c by (auto simp: id_char_def is_letter_def py_isdigit_def Let_def n_def)
  then show "\<not> py_isspace c" by (auto simp: py_isspace_def Let_def n_def)
  have "of_char (py_lower_char c) \<noteq> (58::nat)"
    using n by (auto simp: py_lower_char_def Let_def n_def of_char_of)
  then show "py_lower_char c \<noteq> CHR '':''" by auto
qed

lemma name_char_facts:
  "name_char c \<Longrightarrow> id_char c"
  "name_char c \<Longrightarrow> py_lower_char c \<noteq> CHR ''.'' \<and> py_lower_char c \<noteq> CHR ''/''"
  "is_letter c \<Longrightarrow> id_char c" "py_isdigit c \<Longrightarrow> id_char c"
  "name_char c \<Longrightarrow> c \<noteq> CHR ''/''"
proof -
  show "name_char c \<Longrightarrow> py_lower_char c \<noteq> CHR ''.'' \<and> py_lower_char c \<noteq> CHR ''/''"
  proof -
    assume "name_char c"
    then have "of_char (py_lower_char c) \<notin> {46, 47::nat}"
      by (auto simp: name_char_def is_letter_def py_lower_char_def Let_def of_char_of)
    then show ?thesis by auto
  qed
qed (auto simp: name_char_def id_char_def is_letter_def)

lemma digit_facts:
  assumes "py_isdigit c"
  shows "py_lower_char c = c" "c \<noteq> CHR ''/''" "c \<noteq> CHR ''v''" "c \<noteq> CHR ''f''"
    "c \<noteq> CHR ''w''" "c \<noteq> CHR ''a''" "c \<noteq> newline"
  using assms
  by (auto simp: py_isdigit_def py_lower_char_def Let_def newline_def)

lemma id_shape_chars: "id_shape p \<Longrightarrow> list_all id_char p"
  by (erule id_shapeE) (auto simp: list_all_iff name_char_facts, simp_all add: id_char_def)

lemma id_shape_hd: "id_shape p \<Longrightarrow> p \<noteq> [] \<and> hd p \<noteq> CHR ''/''"
  by (erule id_shapeE) (auto simp: list_all_iff neq_Nil_conv digit_facts name_char_facts)

lemma id_char_newline: "\<not> id_char newline"
  by (simp add: id_char_def newline_def is_letter_def py_isdigit_def)

lemma starts_with_in: "starts_with q s \<Longrightarrow> set q \<subseteq> set s"
  by (auto simp: starts_with_iff)

lemma starts_lower_colon:
  assumes "list_all id_char s" and "CHR '':'' \<in> set q"
  shows "\<not> starts_with q (py_lower s)"
  using assms id_char_facts(2) starts_with_in [of q "py_lower s"]
  by (fastforce simp: list_all_iff py_lower_def)

lemma lower_punct:
  "py_lower_char CHR ''.'' = CHR ''.''" "py_lower_char CHR ''/'' = CHR ''/''"
  by (simp_all add: py_lower_char_def)

lemma skip_name:
  "list_all name_char a \<Longrightarrow>
   dropWhile (\<lambda>c. c \<noteq> CHR ''.'' \<and> c \<noteq> CHR ''/'') (py_lower a @ w) =
   dropWhile (\<lambda>c. c \<noteq> CHR ''.'' \<and> c \<noteq> CHR ''/'') w"
  by (induction a) (simp_all add: py_lower_def name_char_facts)

lemma dropWhile_keep: "dropWhile P q = c # q' \<Longrightarrow> dropWhile P (q @ u) = c # q' @ u"
  by (induction q) (auto split: if_splits)

text \<open>An id with its version is left alone by the URL pattern.\<close>

lemma no_url_prefix:
  assumes sh: "id_shape p" and t: "list_all id_char t" and t1: "t \<noteq> []"
  shows "sub_url_prefix (p @ t) = p @ t"
proof -
  let ?s = "p @ t" and ?f = "dropWhile (\<lambda>c. c \<noteq> CHR ''.'' \<and> c \<noteq> CHR ''/'')"
  have ch: "list_all id_char ?s" using id_shape_chars [OF sh] t by simp
  have r1: "drop_ci ''https://'' ?s = None" "drop_ci ''http://'' ?s = None"
    using starts_lower_colon [OF ch] by (simp_all add: drop_ci_def)
  show ?thesis
    using sh
  proof (cases rule: id_shape.cases)
    case (shape_new a b)
    then obtain d a' where a: "a = d # a'" "py_isdigit d" by (auto simp: neq_Nil_conv)
    then show ?thesis using shape_new r1
      by (simp add: sub_url_prefix_def opt_ci_def drop_ci_def starts_with_def py_lower_def digit_facts)
  next
    case (shape_old a b)
    have f: "?f (py_lower ?s) = py_lower (CHR ''/'' # b @ t)"
      using shape_old by (simp add: skip_name) (simp add: py_lower_def lower_punct)
    have "\<not> starts_with q (py_lower ?s)" if "?f q = CHR ''.'' # q'" for q q'
    proof
      assume "starts_with q (py_lower ?s)"
      then obtain u where "py_lower ?s = q @ u" by (auto simp: starts_with_iff)
      moreover have "?f (q @ u) = CHR ''.'' # q' @ u"
        using that by (rule dropWhile_keep)
      ultimately show False using f by (simp add: py_lower_def lower_punct)
    qed
    then show ?thesis using r1
      by (simp add: sub_url_prefix_def opt_ci_def drop_ci_def)
  next
    case (shape_sub a x y b)
    have f: "?f (py_lower ?s) = py_lower (CHR ''.'' # x # y # CHR ''/'' # b @ t)"
      using shape_sub by (simp add: skip_name) (simp add: py_lower_def lower_punct)
    have nog: "\<not> starts_with q (py_lower ?s)" if q: "?f q = CHR ''.'' # CHR ''o'' # CHR ''r'' # CHR ''g'' # q'" for q q'
    proof
      assume "starts_with q (py_lower ?s)"
      then obtain u where "py_lower ?s = q @ u" by (auto simp: starts_with_iff)
      moreover have "?f (q @ u) = CHR ''.'' # (CHR ''o'' # CHR ''r'' # CHR ''g'' # q') @ u"
        using q by (rule dropWhile_keep)
      ultimately show False using f by (simp add: py_lower_def lower_punct)
    qed
    show ?thesis
    proof (cases "drop_ci ''www.'' ?s")
      case None
      then show ?thesis using r1 nog
        by (simp add: sub_url_prefix_def opt_ci_def drop_ci_def)
    next
      case (Some r)
      then have st: "starts_with ''www.'' (py_lower ?s)" and r: "r = drop (length ''www.'') ?s"
        unfolding drop_ci_def by (metis option.distinct(1) option.inject)+
      from st obtain u where u: "py_lower ?s = ''www.'' @ u" by (auto simp: starts_with_iff)
      have "u = drop (length ''www.'') (py_lower ?s)" unfolding u by simp
      then have "u = py_lower r" by (simp only: r py_lower_def drop_map)
      moreover have "?f (''www.'' @ u) = CHR ''.'' # u" by simp
      ultimately have "py_lower r = py_lower (x # y # CHR ''/'' # b @ t)"
        using u f by (simp add: py_lower_def)
      then have "\<not> starts_with ''arxiv.org/abs/'' (py_lower r)" "\<not> starts_with ''arxiv.org/pdf/'' (py_lower r)"
        by (simp_all add: starts_with_def py_lower_def lower_punct)
      then show ?thesis using r1 Some
        by (simp add: sub_url_prefix_def opt_ci_def drop_ci_def)
    qed
  qed
qed

lemma ends_with_last: "ends_with q s \<Longrightarrow> q \<noteq> [] \<Longrightarrow> last s = last q"
proof -
  assume "ends_with q s" "q \<noteq> []"
  then obtain t where "rev s = rev q @ t" by (auto simp: ends_with_def starts_with_iff)
  then have "s = rev t @ q" by (metis rev_append rev_rev_ident)
  with \<open>q \<noteq> []\<close> show ?thesis by simp
qed

lemma digits_version:
  assumes ch: "list_all id_char p" and p: "p \<noteq> []" and ds: "ds \<noteq> []" "list_all py_isdigit ds"
    and h: "hd ds \<noteq> CHR ''0''"
  shows "version_match (p @ CHR ''v'' # ds) = Some (p, ds)"
proof -
  let ?s = "p @ CHR ''v'' # ds"
  have "newline \<notin> set ?s"
    using ch ds(2) id_char_newline digit_facts(7) by (auto simp: list_all_iff newline_def)
  then have bd: "before_dollar ?s = ?s" by (rule before_dollar_plain)
  have r: "rev ?s = rev ds @ CHR ''v'' # rev p" by simp
  have v: "\<not> py_isdigit CHR ''v''" by (simp add: py_isdigit_def)
  have t: "takeWhile py_isdigit (rev ds @ CHR ''v'' # rev p) = rev ds"
    "dropWhile py_isdigit (rev ds @ CHR ''v'' # rev p) = CHR ''v'' # rev p"
    using ds(2) v by (simp_all add: list_all_iff takeWhile_append dropWhile_append)
  have "newline \<notin> set (rev p)" using ch id_char_newline by (auto simp: list_all_iff)
  then show ?thesis
    using ds(1) h p unfolding version_match_def Let_def bd r t by simp
qed

text \<open>The printed form of an id goes through every pattern of the parser untouched.\<close>

lemma parse_printed:
  assumes v: "is_valid_paper_id p" and nl: "newline \<notin> set p" and n: "1 \<le> n"
    and raw: "sub_url_prefix (py_strip raw) = p @ CHR ''v'' # py_int_str n" and ne: "py_strip raw \<noteq> []"
  shows "normalize_arxiv_ref d raw = Inr \<lparr>ai_paper = p, ai_version = n\<rparr>"
proof -
  define ds where "ds = py_int_str n"
  have ds_eq: "ds = py_nat_str (nat n)" using n by (simp add: ds_def py_int_str_def)
  have ds: "ds \<noteq> []" "list_all py_isdigit ds" "hd ds \<noteq> CHR ''0''"
    using n by (simp_all add: ds_eq py_nat_str_digits hd_py_nat_str)
  let ?s = "p @ CHR ''v'' # ds"
  have sh: "id_shape p" using valid_id_shape [OF v nl] .
  have chp: "list_all id_char p" using id_shape_chars [OF sh] .
  have ch: "list_all id_char ?s" using chp ds(2) name_char_facts(4)
    by (auto simp: list_all_iff) (simp add: id_char_def is_letter_def)
  have lst: "py_isdigit (last ?s)" using ds by (simp add: list_all_iff)
  have hdp: "p \<noteq> []" "hd p \<noteq> CHR ''/''" using id_shape_hd [OF sh] by simp_all
  have a: "opt_ci ''arxiv:'' ?s = ?s"
    using starts_lower_colon [OF ch] by (simp add: opt_ci_def drop_ci_def)
  have "newline \<notin> set ?s" using ch id_char_newline by (auto simp: list_all_iff)
  then have bd: "before_dollar ?s = ?s" by (rule before_dollar_plain)
  have "last (py_lower ?s) = last ?s"
    using digit_facts(1) [OF lst] unfolding py_lower_def
    by (metis append_is_Nil_conv last_map list.distinct(1))
  then have "\<not> ends_with ''.pdf'' (py_lower ?s)"
    using digit_facts(4) [OF lst] ends_with_last [of "''.pdf''" "py_lower ?s"] by auto
  then have b: "sub_pdf_suffix ?s = ?s" by (simp add: sub_pdf_suffix_def bd)
  have c: "lstrip_by (\<lambda>c. c = CHR ''/'') ?s = ?s"
    using hdp by (cases p) (simp_all add: lstrip_by_def)
  have e: "rstrip_by (\<lambda>c. c = CHR ''/'') ?s = ?s"
  proof -
    have "hd (rev ?s) \<noteq> CHR ''/''" using lst digit_facts(2) hd_rev by metis
    then have "dropWhile (\<lambda>c. c = CHR ''/'') (rev ?s) = rev ?s"
      by (simp only: dropWhile_eq_self_iff simp_thms)
    then show ?thesis by (simp add: rstrip_by_def)
  qed
  have m: "version_match ?s = Some (p, ds)" using digits_version [OF chp hdp(1) ds] .
  have val: "int (digits_value ds) = n" using n by (simp add: ds_eq digits_value_str)
  show ?thesis
    unfolding normalize_arxiv_ref_def raw [folded ds_def] Let_def a b c e m
    using ne v n val by simp
qed

lemma normalize_accepts:
  "normalize_arxiv_ref d raw = Inr i \<Longrightarrow> is_valid_paper_id (ai_paper i) \<and> 1 \<le> ai_version i"
  by (auto simp: normalize_arxiv_ref_def Let_def split: if_splits)

lemma printed_chars:
  assumes "is_valid_paper_id p" "newline \<notin> set p" "1 \<le> n"
  shows "list_all id_char (p @ CHR ''v'' # py_int_str n)"
proof -
  have "list_all py_isdigit (py_int_str n)" using assms(3) by (simp add: py_int_str_def py_nat_str_digits)
  moreover have "id_char CHR ''v''" by (simp add: id_char_def is_letter_def)
  ultimately show ?thesis
    using id_shape_chars [OF valid_id_shape [OF assms(1,2)]] name_char_facts(4)
    by (auto simp: list_all_iff)
qed

text \<open>
  Every identifier the parser accepts has a valid versionless id and a version of at least one,
  and both of its printed forms, \<open>arxiv_id\<close> and \<open>abs_url\<close>, parse back to exactly that
  identifier whatever the default version is. (An id ending in a newline, which the patterns also
  accept, is excluded.)
\<close>

theorem arxiv_ref_roundtrip:
  assumes "normalize_arxiv_ref d raw = Inr i" and "newline \<notin> set (ai_paper i)"
  shows "is_valid_paper_id (ai_paper i) \<and> 1 \<le> ai_version i \<and>
    normalize_arxiv_ref d' (arxiv_id i) = Inr i \<and> normalize_arxiv_ref d' (abs_url i) = Inr i"
proof -
  have ok: "is_valid_paper_id (ai_paper i)" "1 \<le> ai_version i"
    using normalize_accepts [OF assms(1)] by simp_all
  let ?s = "ai_paper i @ CHR ''v'' # py_int_str (ai_version i)"
  have ch: "list_all id_char ?s" using printed_chars [OF ok(1) assms(2) ok(2)] .
  have "list_all id_char (CHR ''v'' # py_int_str (ai_version i))" using ch by simp
  then have sub: "sub_url_prefix ?s = ?s"
    using no_url_prefix [OF valid_id_shape [OF ok(1) assms(2)]] by blast
  have ns: "\<not> py_isspace (last ?s)" "\<not> py_isspace (hd ?s)"
    using ch id_char_facts(1) by (metis Nil_is_append_conv last_in_set hd_in_set list.distinct(1) list_all_iff)+
  then have strip: "py_strip ?s = ?s" by (simp add: py_strip_id)
  let ?u = "''https://arxiv.org/abs/'' @ ?s"
  have "py_strip ?u = ?u" using ns(1) by (intro py_strip_id) (simp add: py_isspace_def)
  moreover have "sub_url_prefix ?u = ?s"
    by (simp add: sub_url_prefix_def drop_ci_def opt_ci_def starts_with_def py_lower_def py_lower_char_def)
  ultimately have u: "sub_url_prefix (py_strip ?u) = ?s" "py_strip ?u \<noteq> []" by simp_all
  have i: "\<lparr>ai_paper = ai_paper i, ai_version = ai_version i\<rparr> = i" by simp
  show ?thesis
    using ok parse_printed [OF ok(1) assms(2) ok(2), of ?s d'] parse_printed [OF ok(1) assms(2) ok(2) u, of d']
      sub strip i by (simp add: arxiv_id_def abs_url_def)
qed

theorem arxiv_ref_roundtrip_witness:
  "normalize_arxiv_ref 7 ''2401.00001v12'' = Inr \<lparr>ai_paper = ''2401.00001'', ai_version = 12\<rparr>"
proof -
  have *: "normalize_arxiv_ref 1 '' https://www.arXiv.org/pdf/2401.00001v12.pdf''
      = Inr \<lparr>ai_paper = ''2401.00001'', ai_version = 12\<rparr>" by code_simp
  have n: "newline \<notin> set (ai_paper \<lparr>ai_paper = ''2401.00001'', ai_version = 12\<rparr>)"
    by (simp add: newline_def)
  have p: "arxiv_id \<lparr>ai_paper = ''2401.00001'', ai_version = 12\<rparr> = ''2401.00001v12''" by code_simp
  show ?thesis using arxiv_ref_roundtrip [OF * n, of 7] unfolding p by blast
qed

text \<open>The trailing newline the patterns let through.\<close>

lemma trailing_newline_accepted:
  "normalize_arxiv_ref 1 (''2401.00001'' @ [newline] @ ''/'') =
   Inr \<lparr>ai_paper = ''2401.00001'' @ [newline], ai_version = 1\<rparr>"
  by code_simp

end
