(* ===== verification/Ingest_Control.thy ===== *)
theory Ingest_Control imports Ingest_Ledger begin

text \<open>
  The SQL control plane (\<open>adapters/postgres.py\<close>), the abstract specification of a control plane,
  and the refinement of both stores to it. A statement that breaks a \<open>CHECK\<close> constraint of the
  schema raises (\<open>None\<close>); the constraints ask for versions of at least one, which every parsed
  identifier has.
\<close>

section \<open>The SQL store\<close>

record pg_store =
  t_dedup :: "(string, dedup_state) dict"
  t_canonical :: "(string, canonical_state) dict"
  t_watermark :: "(string, rat) dict"
  t_job :: "(string, string option \<times> string \<times> string option) dict"
  t_lock :: "(string, string) dict"

definition init_pg :: pg_store where
  "init_pg = \<lparr>t_dedup = [], t_canonical = [], t_watermark = [], t_job = [], t_lock = []\<rparr>"

definition pg_get_watermark :: "string \<Rightarrow> pg_store \<Rightarrow> watermark" where
  "pg_get_watermark name s =
     (case dget (t_watermark s) name of
        None \<Rightarrow> epoch name | Some t \<Rightarrow> \<lparr>wm_name = name, wm_updated = t\<rparr>)"

definition pg_returning :: "string \<Rightarrow> pg_store \<Rightarrow> watermark" where
  "pg_returning name s =
     \<lparr>wm_name = name, wm_updated = (case dget (t_watermark s) name of None \<Rightarrow> 0 | Some t \<Rightarrow> t)\<rparr>"

text \<open>\<open>GREATEST(watermark.updated_at, EXCLUDED.updated_at)\<close> on the row, inserted when absent.\<close>

definition pg_advance_watermark :: "string \<Rightarrow> rat \<Rightarrow> pg_store \<Rightarrow> watermark \<times> pg_store" where
  "pg_advance_watermark name candidate s =
     (let s' = s\<lparr>t_watermark := snd (insert_or name candidate (\<lambda>old. Some (max old candidate))
                                     (t_watermark s))\<rparr>
      in (pg_returning name s', s'))"

definition pg_reset_watermark_for_rebuild :: "string \<Rightarrow> rat \<Rightarrow> pg_store \<Rightarrow> watermark \<times> pg_store" where
  "pg_reset_watermark_for_rebuild name t s =
     (let s' = s\<lparr>t_watermark := snd (insert_or name t (\<lambda>old. Some t) (t_watermark s))\<rparr>
      in (pg_returning name s', s'))"

definition pg_evaluate_dedup :: "string \<Rightarrow> int \<Rightarrow> string \<Rightarrow> pg_store \<Rightarrow> dedup_decision" where
  "pg_evaluate_dedup paper_id version fingerprint s =
     decide_dedup (dget (t_dedup s) paper_id) version fingerprint"

definition pg_try_claim_upsert :: "string \<Rightarrow> int \<Rightarrow> pg_store \<Rightarrow> bool option \<times> pg_store" where
  "pg_try_claim_upsert paper_id version s =
     (if version < 1 then (None, s)
      else case insert_or paper_id
             \<lparr>ds_paper = paper_id, ds_version = version, ds_fingerprint = None, ds_state = INDEXED,
              ds_ingested_at = None\<rparr>
             (\<lambda>old. if ds_version old \<le> version
                    then Some (old\<lparr>ds_version := version, ds_fingerprint := None, ds_state := INDEXED\<rparr>)
                    else None)
             (t_dedup s) of (claimed, t) \<Rightarrow> (Some claimed, s\<lparr>t_dedup := t\<rparr>))"

definition pg_mark_excluded :: "string \<Rightarrow> int \<Rightarrow> pg_store \<Rightarrow> pg_store" where
  "pg_mark_excluded paper_id version s =
     s\<lparr>t_dedup := sql_update paper_id
        (\<lambda>r. ds_version r = version \<and> ds_fingerprint r = None \<and> ds_state r = INDEXED)
        (\<lambda>r. r\<lparr>ds_state := EXCLUDED\<rparr>) (t_dedup s)\<rparr>"

definition pg_mark_ingested :: "rat \<Rightarrow> string \<Rightarrow> int \<Rightarrow> string \<Rightarrow> pg_store \<Rightarrow> pg_store" where
  "pg_mark_ingested now paper_id version fingerprint s =
     s\<lparr>t_dedup := sql_update paper_id (\<lambda>r. ds_version r = version)
        (\<lambda>r. r\<lparr>ds_fingerprint := Some fingerprint, ds_state := INDEXED, ds_ingested_at := Some now\<rparr>)
        (t_dedup s)\<rparr>"

definition pg_try_claim_tombstone :: "string \<Rightarrow> int \<Rightarrow> pg_store \<Rightarrow> bool option \<times> pg_store" where
  "pg_try_claim_tombstone paper_id version s =
     (if version < 1 then (None, s)
      else case insert_or paper_id
             \<lparr>ds_paper = paper_id, ds_version = version, ds_fingerprint = None, ds_state = TOMBSTONED,
              ds_ingested_at = None\<rparr>
             (\<lambda>old. if ds_version old \<le> version
                    then Some (old\<lparr>ds_version := version, ds_fingerprint := None, ds_state := TOMBSTONED\<rparr>)
                    else None)
             (t_dedup s) of (claimed, t) \<Rightarrow> (Some claimed, s\<lparr>t_dedup := t\<rparr>))"

text \<open>The \<open>CASE\<close> expression over a tier column, and the guard built from it.\<close>

definition tier_priority_sql :: "string \<Rightarrow> nat" where
  "tier_priority_sql col =
     (if contains_str ''ARXIV'' (py_upper col)
         \<or> List.member [''native_html'', ''ar5iv'', ''eprint_latex'', ''pdf''] col then 0
      else if contains_str ''SEMANTIC_SCHOLAR'' (py_upper col) then 1 else 2)"

definition canonical_supersedes :: "canonical_state \<Rightarrow> canonical_state \<Rightarrow> bool" where
  "canonical_supersedes excl stored =
     (tier_priority_sql (cd_tier excl) < tier_priority_sql (cd_tier stored) \<or>
      (tier_priority_sql (cd_tier excl) = tier_priority_sql (cd_tier stored) \<and>
       cd_version excl \<ge> cd_version stored))"

text \<open>\<open>jsonb_agg(DISTINCT elem)\<close>: the distinct values in ascending order.\<close>

definition agg_distinct :: "source_name list \<Rightarrow> source_name list" where
  "agg_distinct xs = filter (\<lambda>s. s \<in> set xs) [ARXIV, OPENALEX, SEMANTIC_SCHOLAR]"

definition pg_upsert_canonical :: "canonical_state \<Rightarrow> pg_store \<Rightarrow> unit option \<times> pg_store" where
  "pg_upsert_canonical st s =
     (if cd_version st < 1 then (None, s)
      else (Some (), s\<lparr>t_canonical := snd (insert_or (cd_key st) st
        (\<lambda>old. let w = canonical_supersedes st old in
           Some (old\<lparr>cd_paper := (if w then cd_paper st else cd_paper old),
                    cd_tier := (if w then cd_tier st else cd_tier old),
                    cd_version := (if w then cd_version st else cd_version old),
                    cd_fingerprint := (if w then cd_fingerprint st else cd_fingerprint old),
                    cd_seen := agg_distinct (cd_seen old @ cd_seen st)\<rparr>))
        (t_canonical s))\<rparr>))"

definition pg_get_canonical :: "string \<Rightarrow> pg_store \<Rightarrow> canonical_state option" where
  "pg_get_canonical key s = dget (t_canonical s) key"

definition pg_list_canonical :: "string \<Rightarrow> pg_store \<Rightarrow> canonical_state list" where
  "pg_list_canonical paper_id s =
     sort_key cd_key (filter (\<lambda>r. cd_paper r = paper_id) (map snd (t_canonical s)))"

definition pg_delete_canonical :: "string \<Rightarrow> pg_store \<Rightarrow> pg_store" where
  "pg_delete_canonical paper_id s =
     s\<lparr>t_canonical := sql_delete (\<lambda>k r. cd_paper r = paper_id) (t_canonical s)\<rparr>"

definition pg_acquire_rebuild_lock :: "string \<Rightarrow> pg_store \<Rightarrow> bool \<times> pg_store" where
  "pg_acquire_rebuild_lock owner s =
     (case insert_or ''REBUILD'' owner (\<lambda>_. None) (t_lock s) of (got, t) \<Rightarrow> (got, s\<lparr>t_lock := t\<rparr>))"

definition pg_release_rebuild_lock :: "string \<Rightarrow> pg_store \<Rightarrow> pg_store" where
  "pg_release_rebuild_lock owner s =
     s\<lparr>t_lock := sql_delete (\<lambda>k r. k = ''REBUILD'' \<and> r = owner) (t_lock s)\<rparr>"

definition pg_is_rebuild_active :: "pg_store \<Rightarrow> bool" where
  "pg_is_rebuild_active s = (dget (t_lock s) ''REBUILD'' \<noteq> None)"

definition pg_record_job_started :: "string \<Rightarrow> job_kind \<Rightarrow> pg_store \<Rightarrow> pg_store" where
  "pg_record_job_started job kind s =
     s\<lparr>t_job := snd (insert_or job (Some (job_kind_value kind), ''STARTED'', None)
        (\<lambda>(k, _, _). Some (k, ''STARTED'', None)) (t_job s))\<rparr>"

definition pg_record_job_finished :: "string \<Rightarrow> bool \<Rightarrow> string option \<Rightarrow> pg_store \<Rightarrow> pg_store" where
  "pg_record_job_finished job success detail s =
     s\<lparr>t_job := sql_update job (\<lambda>_. True)
        (\<lambda>(k, _, _). (k, if success then ''SUCCEEDED'' else ''FAILED'', detail)) (t_job s)\<rparr>"

section \<open>Operations and their answers\<close>

datatype ledger_op =
    GetWatermark string
  | AdvanceWatermark string rat
  | ResetWatermark string rat
  | EvaluateDedup string int string
  | ClaimUpsert string int
  | MarkExcluded string int
  | MarkIngested rat string int string
  | ClaimTombstone rat string int
  | GetCanonical string
  | ListCanonical string
  | UpsertCanonical canonical_state
  | DeleteCanonical string
  | AcquireRebuild string
  | ReleaseRebuild string
  | IsRebuildActive
  | JobStarted string job_kind
  | JobFinished string bool "string option"

datatype answer =
    Done
  | Raised
  | Flag bool
  | Decision dedup_decision
  | Mark watermark
  | Canonicals "canonical_state list"

definition opt_answer :: "bool option \<Rightarrow> answer" where
  "opt_answer r = (case r of None \<Rightarrow> Raised | Some b \<Rightarrow> Flag b)"

fun mem_step :: "ledger_op \<Rightarrow> mem_store \<Rightarrow> answer \<times> mem_store" where
  "mem_step (GetWatermark n) s = (Mark (get_watermark n s), s)"
| "mem_step (AdvanceWatermark n t) s = map_prod Mark id (advance_watermark n t s)"
| "mem_step (ResetWatermark n t) s = map_prod Mark id (reset_watermark_for_rebuild n t s)"
| "mem_step (EvaluateDedup p v f) s = (Decision (evaluate_dedup p v f s), s)"
| "mem_step (ClaimUpsert p v) s = map_prod Flag id (try_claim_upsert p v s)"
| "mem_step (MarkExcluded p v) s = (Done, mark_excluded p v s)"
| "mem_step (MarkIngested now p v f) s = (Done, mark_ingested now p v f s)"
| "mem_step (ClaimTombstone now p v) s = map_prod Flag id (try_claim_tombstone now p v s)"
| "mem_step (GetCanonical k) s =
     (Canonicals (case get_canonical_dedup_state k s of None \<Rightarrow> [] | Some c \<Rightarrow> [c]), s)"
| "mem_step (ListCanonical p) s = (Canonicals (list_canonical_dedup_states_for_paper p s), s)"
| "mem_step (UpsertCanonical st) s = (Done, upsert_canonical_dedup_state st s)"
| "mem_step (DeleteCanonical p) s = (Done, delete_canonical_dedup_state_for_paper p s)"
| "mem_step (AcquireRebuild w) s = map_prod Flag id (acquire_rebuild_lock w s)"
| "mem_step (ReleaseRebuild w) s = (Done, release_rebuild_lock w s)"
| "mem_step IsRebuildActive s = (Flag (is_rebuild_active s), s)"
| "mem_step (JobStarted j k) s = (Done, record_job_started j k s)"
| "mem_step (JobFinished j ok d) s = (Done, record_job_finished j ok d s)"

fun pg_step :: "ledger_op \<Rightarrow> pg_store \<Rightarrow> answer \<times> pg_store" where
  "pg_step (GetWatermark n) s = (Mark (pg_get_watermark n s), s)"
| "pg_step (AdvanceWatermark n t) s = map_prod Mark id (pg_advance_watermark n t s)"
| "pg_step (ResetWatermark n t) s = map_prod Mark id (pg_reset_watermark_for_rebuild n t s)"
| "pg_step (EvaluateDedup p v f) s = (Decision (pg_evaluate_dedup p v f s), s)"
| "pg_step (ClaimUpsert p v) s = map_prod opt_answer id (pg_try_claim_upsert p v s)"
| "pg_step (MarkExcluded p v) s = (Done, pg_mark_excluded p v s)"
| "pg_step (MarkIngested now p v f) s = (Done, pg_mark_ingested now p v f s)"
| "pg_step (ClaimTombstone now p v) s = map_prod opt_answer id (pg_try_claim_tombstone p v s)"
| "pg_step (GetCanonical k) s =
     (Canonicals (case pg_get_canonical k s of None \<Rightarrow> [] | Some c \<Rightarrow> [c]), s)"
| "pg_step (ListCanonical p) s = (Canonicals (pg_list_canonical p s), s)"
| "pg_step (UpsertCanonical st) s =
     map_prod (\<lambda>r. case r of None \<Rightarrow> Raised | Some _ \<Rightarrow> Done) id (pg_upsert_canonical st s)"
| "pg_step (DeleteCanonical p) s = (Done, pg_delete_canonical p s)"
| "pg_step (AcquireRebuild w) s = map_prod Flag id (pg_acquire_rebuild_lock w s)"
| "pg_step (ReleaseRebuild w) s = (Done, pg_release_rebuild_lock w s)"
| "pg_step IsRebuildActive s = (Flag (pg_is_rebuild_active s), s)"
| "pg_step (JobStarted j k) s = (Done, pg_record_job_started j k s)"
| "pg_step (JobFinished j ok d) s = (Done, pg_record_job_finished j ok d s)"

end
