(* ===== verification/Ingest_Refinement.thy ===== *)
theory Ingest_Refinement imports Ingest_Control begin

text \<open>
  What a control plane promises (\<open>ledger_spec\<close>, \<open>spec_step\<close>), the interface every store
  implements (locale \<open>control_plane\<close>), and its two implementations: the in-memory store and the
  SQL store. What the answers show is compared up to the order of canonical records and of the
  sources a record was seen from, which the two stores do not promise.
\<close>

section \<open>The specification\<close>

type_synonym canon = "string \<times> string \<times> string \<times> int \<times> string \<times> source_name set"

definition view :: "canonical_state \<Rightarrow> canon" where
  "view c = (cd_key c, cd_paper c, cd_tier c, cd_version c, cd_fingerprint c, set (cd_seen c))"

record ledger_spec =
  sp_dedup :: "string \<Rightarrow> (int \<times> string option \<times> dedup_state_kind) option"
  sp_canon :: "string \<Rightarrow> canon option"
  sp_marks :: "string \<Rightarrow> rat option"
  sp_lock :: "string option"

definition init_spec :: ledger_spec where
  "init_spec = \<lparr>sp_dedup = (\<lambda>_. None), sp_canon = (\<lambda>_. None), sp_marks = (\<lambda>_. None), sp_lock = None\<rparr>"

datatype observation =
    ODone | ORaised | OFlag bool | ODecision dedup_decision | OMark watermark | OCanon "canon set"

fun observe :: "answer \<Rightarrow> observation" where
  "observe Done = ODone"
| "observe Raised = ORaised"
| "observe (Flag b) = OFlag b"
| "observe (Decision d) = ODecision d"
| "observe (Mark w) = OMark w"
| "observe (Canonicals cs) = OCanon (view ` set cs)"

definition spec_claim ::
  "dedup_state_kind \<Rightarrow> string \<Rightarrow> int \<Rightarrow> ledger_spec \<Rightarrow> observation \<times> ledger_spec" where
  "spec_claim kind p v s =
     (if \<exists>w x. sp_dedup s p = Some (w, x) \<and> v < w then (OFlag False, s)
      else (OFlag True, s\<lparr>sp_dedup := (sp_dedup s)(p \<mapsto> (v, None, kind))\<rparr>))"

definition spec_decide ::
  "(int \<times> string option \<times> dedup_state_kind) option \<Rightarrow> int \<Rightarrow> string \<Rightarrow> dedup_decision" where
  "spec_decide st v f =
     (case st of
        None \<Rightarrow> NEW
      | Some (w, g, k) \<Rightarrow>
          if v < w then STALE else if (w, g, k) = (v, Some f, INDEXED) then DUPLICATE else CHANGED)"

text \<open>The better of two canonical records, the newcomer winning ties; sources accumulate.\<close>

definition supersedes :: "canon \<Rightarrow> canon \<Rightarrow> bool" where
  "supersedes n e = (case (n, e) of ((_, _, t, v, _), (_, _, t', v', _)) \<Rightarrow>
     source_priority_from_tier t < source_priority_from_tier t' \<or>
     source_priority_from_tier t = source_priority_from_tier t' \<and> v' \<le> v)"

definition seen_of :: "canon \<Rightarrow> source_name set" where
  "seen_of c = (case c of (_, _, _, _, _, s) \<Rightarrow> s)"

definition with_seen :: "source_name set \<Rightarrow> canon \<Rightarrow> canon" where
  "with_seen s c = (case c of (k, p, t, v, f, _) \<Rightarrow> (k, p, t, v, f, s))"

definition canon_merge :: "canon option \<Rightarrow> canon \<Rightarrow> canon" where
  "canon_merge old n =
     (case old of
        None \<Rightarrow> n
      | Some e \<Rightarrow> with_seen (seen_of e \<union> seen_of n) (if supersedes n e then n else e))"

definition canon_paper :: "canon \<Rightarrow> string" where
  "canon_paper c = fst (snd c)"

fun spec_step :: "ledger_op \<Rightarrow> ledger_spec \<Rightarrow> observation \<times> ledger_spec" where
  "spec_step (GetWatermark n) s =
     (OMark \<lparr>wm_name = n, wm_updated = (case sp_marks s n of None \<Rightarrow> 0 | Some t \<Rightarrow> t)\<rparr>, s)"
| "spec_step (AdvanceWatermark n t) s =
     (let t' = max (case sp_marks s n of None \<Rightarrow> 0 | Some u \<Rightarrow> u) t
      in (OMark \<lparr>wm_name = n, wm_updated = t'\<rparr>, s\<lparr>sp_marks := (sp_marks s)(n \<mapsto> t')\<rparr>))"
| "spec_step (ResetWatermark n t) s =
     (OMark \<lparr>wm_name = n, wm_updated = t\<rparr>, s\<lparr>sp_marks := (sp_marks s)(n \<mapsto> t)\<rparr>)"
| "spec_step (EvaluateDedup p v f) s = (ODecision (spec_decide (sp_dedup s p) v f), s)"
| "spec_step (ClaimUpsert p v) s = spec_claim INDEXED p v s"
| "spec_step (MarkExcluded p v) s =
     (ODone, if sp_dedup s p = Some (v, None, INDEXED)
             then s\<lparr>sp_dedup := (sp_dedup s)(p \<mapsto> (v, None, EXCLUDED))\<rparr> else s)"
| "spec_step (MarkIngested now p v f) s =
     (ODone, if (\<exists>x. sp_dedup s p = Some (v, x))
             then s\<lparr>sp_dedup := (sp_dedup s)(p \<mapsto> (v, Some f, INDEXED))\<rparr> else s)"
| "spec_step (ClaimTombstone now p v) s = spec_claim TOMBSTONED p v s"
| "spec_step (GetCanonical k) s = (OCanon (set_option (sp_canon s k)), s)"
| "spec_step (ListCanonical p) s = (OCanon {c \<in> ran (sp_canon s). canon_paper c = p}, s)"
| "spec_step (UpsertCanonical st) s =
     (ODone, s\<lparr>sp_canon := (sp_canon s)(cd_key st \<mapsto> canon_merge (sp_canon s (cd_key st)) (view st))\<rparr>)"
| "spec_step (DeleteCanonical p) s =
     (ODone, s\<lparr>sp_canon := (\<lambda>k. case sp_canon s k of None \<Rightarrow> None
                               | Some c \<Rightarrow> if canon_paper c = p then None else Some c)\<rparr>)"
| "spec_step (AcquireRebuild w) s =
     (if sp_lock s = None then (OFlag True, s\<lparr>sp_lock := Some w\<rparr>) else (OFlag False, s))"
| "spec_step (ReleaseRebuild w) s =
     (ODone, if sp_lock s = Some w then s\<lparr>sp_lock := None\<rparr> else s)"
| "spec_step IsRebuildActive s = (OFlag (sp_lock s \<noteq> None), s)"
| "spec_step (JobStarted j k) s = (ODone, s)"
| "spec_step (JobFinished j ok d) s = (ODone, s)"

text \<open>What the callers guarantee: versions of at least one, instants not before the epoch.\<close>

fun op_ok :: "ledger_op \<Rightarrow> bool" where
  "op_ok (ClaimUpsert p v) = (1 \<le> v)"
| "op_ok (ClaimTombstone now p v) = (1 \<le> v)"
| "op_ok (UpsertCanonical st) = (1 \<le> cd_version st)"
| "op_ok (AdvanceWatermark n t) = (0 \<le> t)"
| "op_ok _ = True"

primrec run_ops :: "(ledger_op \<Rightarrow> 's \<Rightarrow> 'a \<times> 's) \<Rightarrow> ledger_op list \<Rightarrow> 's \<Rightarrow> 'a list \<times> 's" where
  "run_ops step [] s = ([], s)"
| "run_ops step (op # ops) s =
     (fst (step op s) # fst (run_ops step ops (snd (step op s))), snd (run_ops step ops (snd (step op s))))"

lemma run_ops_append:
  "run_ops step (a @ b) s =
     (fst (run_ops step a s) @ fst (run_ops step b (snd (run_ops step a s))),
      snd (run_ops step b (snd (run_ops step a s))))"
  by (induction a arbitrary: s) simp_all

section \<open>The interface\<close>

locale control_plane =
  fixes step :: "ledger_op \<Rightarrow> 's \<Rightarrow> answer \<times> 's"
    and abstr :: "'s \<Rightarrow> ledger_spec"
    and wf :: "'s \<Rightarrow> bool"
  assumes wf_step: "wf s \<Longrightarrow> op_ok op \<Longrightarrow> wf (snd (step op s))"
    and refines: "wf s \<Longrightarrow> op_ok op \<Longrightarrow>
      spec_step op (abstr s) = (observe (fst (step op s)), abstr (snd (step op s)))"
begin

lemma run_refines:
  "wf s \<Longrightarrow> list_all op_ok ops \<Longrightarrow>
   run_ops spec_step ops (abstr s) =
     (map observe (fst (run_ops step ops s)), abstr (snd (run_ops step ops s)))"
  by (induction ops arbitrary: s) (simp_all add: refines wf_step)

lemma run_wf: "wf s \<Longrightarrow> list_all op_ok ops \<Longrightarrow> wf (snd (run_ops step ops s))"
  by (induction ops arbitrary: s) (simp_all add: wf_step)

end

section \<open>The in-memory store implements it\<close>

definition dedup_view :: "dedup_state \<Rightarrow> int \<times> string option \<times> dedup_state_kind" where
  "dedup_view d = (ds_version d, ds_fingerprint d, ds_state d)"

definition abs_mem :: "mem_store \<Rightarrow> ledger_spec" where
  "abs_mem s =
     \<lparr>sp_dedup = (\<lambda>p. map_option dedup_view (dget (m_dedup s) p)),
      sp_canon = (\<lambda>k. map_option view (dget (m_canonical s) k)),
      sp_marks = (\<lambda>n. map_option wm_updated (dget (m_watermarks s) n)),
      sp_lock = m_rebuild_owner s\<rparr>"

definition mem_ok :: "mem_store \<Rightarrow> bool" where
  "mem_ok s \<longleftrightarrow> dict_ok (m_canonical s) \<and>
     (\<forall>k c. dget (m_canonical s) k = Some c \<longrightarrow> cd_key c = k) \<and>
     (\<forall>n w. dget (m_watermarks s) n = Some w \<longrightarrow> wm_name w = n)"

lemma decide_view: "decide_dedup st v f = spec_decide (map_option dedup_view st) v f"
  by (auto simp: decide_dedup_def spec_decide_def dedup_view_def split: option.split)

lemma set_merge_seen: "set (merge_seen_sources xs ys) = set xs \<union> set ys"
  by (induction xs ys rule: merge_seen_sources.induct) auto

lemma view_merge:
  "(\<And>e. old = Some e \<Longrightarrow> cd_key e = cd_key st) \<Longrightarrow>
   view (merge_canonical old st) = canon_merge (map_option view old) (view st)"
  by (cases old)
     (auto simp: merge_canonical_def canon_merge_def view_def set_merge_seen Let_def with_seen_def
        seen_of_def supersedes_def winner_supersedes_def)

lemma dict_values:
  "dict_ok d \<Longrightarrow> v \<in> set (map snd d) \<longleftrightarrow> (\<exists>k. dget d k = Some v)"
  by (force simp: dget_mem [symmetric])

lemma view_listed:
  assumes "dict_ok d"
  shows "view ` {c \<in> set (map snd d). cd_paper c = p} =
         {c \<in> ran (\<lambda>k. map_option view (dget d k)). canon_paper c = p}"
proof -
  have p: "canon_paper (view c) = cd_paper c" for c by (simp add: canon_paper_def view_def)
  have r: "ran (\<lambda>k. map_option view (dget d k)) = view ` set (map snd d)"
  proof -
    have "set (map snd d) = ran (dget d)"
      using dict_values [OF assms] by (auto simp: ran_def simp del: set_map)
    then show ?thesis by (auto simp: ran_def image_iff) (metis option.distinct(1))+
  qed
  show ?thesis unfolding r by (auto simp: p)
qed

lemma dget_foldl_ddel:
  "dget (foldl (\<lambda>d k. ddel k d) d ks) k = (if k \<in> set ks then None else dget d k)"
  by (induction ks arbitrary: d) (simp_all add: dict_simps)

lemma dict_ok_foldl_ddel: "dict_ok d \<Longrightarrow> dict_ok (foldl (\<lambda>d k. ddel k d) d ks)"
  by (induction ks arbitrary: d) (simp_all add: dict_simps)

lemma dget_delete_paper:
  "dict_ok d \<Longrightarrow>
   dget (foldl (\<lambda>d k. ddel k d) d (map fst (filter (\<lambda>kv. cd_paper (snd kv) = p) d))) k =
     (case dget d k of None \<Rightarrow> None | Some c \<Rightarrow> if cd_paper c = p then None else Some c)"
proof -
  assume d: "dict_ok d"
  have "k \<in> set (map fst (filter (\<lambda>kv. cd_paper (snd kv) = p) d)) \<longleftrightarrow>
      (\<exists>c. dget d k = Some c \<and> cd_paper c = p)"
    using dget_mem [OF d] by force
  then show ?thesis by (auto simp: dget_foldl_ddel split: option.split)
qed

lemmas mem_defs = get_watermark_def advance_watermark_def reset_watermark_for_rebuild_def
  evaluate_dedup_def try_claim_upsert_def mark_excluded_def mark_ingested_def
  try_claim_tombstone_def upsert_canonical_dedup_state_def get_canonical_dedup_state_def
  list_canonical_dedup_states_for_paper_def delete_canonical_dedup_state_for_paper_def
  acquire_rebuild_lock_def release_rebuild_lock_def is_rebuild_active_def record_job_started_def
  record_job_finished_def

lemma mem_ok_step: "mem_ok s \<Longrightarrow> mem_ok (snd (mem_step op s))"
proof (cases op)
  case (DeleteCanonical p)
  then show "mem_ok s \<Longrightarrow> ?thesis"
    by (auto simp: mem_ok_def mem_defs dict_ok_foldl_ddel dget_delete_paper split: option.splits if_splits)
next
  case (UpsertCanonical st)
  have "mem_ok s \<Longrightarrow> cd_key (merge_canonical (dget (m_canonical s) (cd_key st)) st) = cd_key st"
    by (auto simp: mem_ok_def merge_canonical_def Let_def split: option.split)
  then show "mem_ok s \<Longrightarrow> ?thesis"
    using UpsertCanonical by (auto simp: mem_ok_def mem_defs dict_simps)
qed (auto simp: mem_ok_def mem_defs dict_simps Let_def advance_def epoch_def split: option.splits)

lemma dget_upd_mark: "dset n w d = d \<Longrightarrow> dget d n = Some w"
  by (metis dget_dset)

lemma fun_upd_view: "(\<lambda>p. map_option g (dget (dset k v d) p)) = (\<lambda>p. map_option g (dget d p))(k \<mapsto> g v)"
  by (rule ext) (simp add: dict_simps)

lemma mem_refines:
  assumes ok: "mem_ok s"
  shows "op_ok op \<Longrightarrow>
    spec_step op (abs_mem s) = (observe (fst (mem_step op s)), abs_mem (snd (mem_step op s)))"
proof (cases op)
  case (GetWatermark n)
  then show ?thesis using ok
    by (cases "dget (m_watermarks s) n") (auto simp: abs_mem_def mem_defs epoch_def mem_ok_def)
next
  case (AdvanceWatermark n t)
  then show ?thesis using ok
    by (cases "dget (m_watermarks s) n")
       (auto simp: abs_mem_def mem_defs epoch_def mem_ok_def fun_upd_view advance_def Let_def)
next
  case (ListCanonical p)
  then show ?thesis using ok view_listed [of "m_canonical s" p]
    by (simp add: abs_mem_def mem_defs mem_ok_def)
next
  case (UpsertCanonical st)
  have "dget (m_canonical s) (cd_key st) = Some e \<Longrightarrow> cd_key e = cd_key st" for e
    using ok by (simp add: mem_ok_def)
  then have "view (merge_canonical (dget (m_canonical s) (cd_key st)) st) =
      canon_merge (map_option view (dget (m_canonical s) (cd_key st))) (view st)"
    by (rule view_merge)
  then show ?thesis
    unfolding UpsertCanonical by (simp add: abs_mem_def mem_defs fun_upd_view)
next
  case (DeleteCanonical p)
  have "canon_paper (view c) = cd_paper c" for c by (simp add: canon_paper_def view_def)
  then show ?thesis using ok DeleteCanonical
    by (auto simp: abs_mem_def mem_defs mem_ok_def dget_delete_paper fun_eq_iff split: option.split)
next
  case (GetCanonical k)
  then show ?thesis
    by (cases "dget (m_canonical s) k") (simp_all add: abs_mem_def mem_defs)
qed (auto simp: abs_mem_def mem_defs decide_view spec_claim_def newer_stored_def dedup_view_def
       dict_simps fun_eq_iff Let_def split: option.split)

interpretation mem: control_plane mem_step abs_mem mem_ok
  by unfold_locales (simp_all add: mem_ok_step mem_refines)

section \<open>The SQL store implements it\<close>

definition abs_pg :: "pg_store \<Rightarrow> ledger_spec" where
  "abs_pg s =
     \<lparr>sp_dedup = (\<lambda>p. map_option dedup_view (dget (t_dedup s) p)),
      sp_canon = (\<lambda>k. map_option view (dget (t_canonical s) k)),
      sp_marks = dget (t_watermark s),
      sp_lock = dget (t_lock s) ''REBUILD''\<rparr>"

definition pg_ok :: "pg_store \<Rightarrow> bool" where
  "pg_ok s \<longleftrightarrow> dict_ok (t_canonical s) \<and> dict_ok (t_lock s) \<and>
     (\<forall>k c. dget (t_canonical s) k = Some c \<longrightarrow> cd_key c = k)"

lemmas pg_defs = pg_get_watermark_def pg_advance_watermark_def pg_reset_watermark_for_rebuild_def
  pg_evaluate_dedup_def pg_try_claim_upsert_def pg_mark_excluded_def pg_mark_ingested_def
  pg_try_claim_tombstone_def pg_upsert_canonical_def pg_get_canonical_def pg_list_canonical_def
  pg_delete_canonical_def pg_acquire_rebuild_lock_def pg_release_rebuild_lock_def
  pg_is_rebuild_active_def pg_record_job_started_def pg_record_job_finished_def

lemma tier_priority_sql_agrees: "tier_priority_sql t = source_priority_from_tier t"
  by (simp add: tier_priority_sql_def source_priority_from_tier_def)

lemma canonical_supersedes_agrees: "canonical_supersedes n e = winner_supersedes n e"
  by (auto simp: canonical_supersedes_def winner_supersedes_def tier_priority_sql_agrees Let_def)

lemma set_agg_distinct: "set (agg_distinct xs) = set xs"
proof (rule set_eqI)
  show "x \<in> set (agg_distinct xs) \<longleftrightarrow> x \<in> set xs" for x
    by (cases x) (simp_all add: agg_distinct_def)
qed

lemma pg_ok_step: "pg_ok s \<Longrightarrow> pg_ok (snd (pg_step op s))"
proof (cases op)
  case (UpsertCanonical st)
  then show "pg_ok s \<Longrightarrow> ?thesis"
    by (auto simp: pg_ok_def pg_defs insert_or_def dict_simps Let_def split: option.splits)
next
  case (DeleteCanonical p)
  then show "pg_ok s \<Longrightarrow> ?thesis"
    by (auto simp: pg_ok_def pg_defs dict_ok_sql dget_sql_delete split: option.splits if_splits)
qed (auto simp: pg_ok_def pg_defs dict_ok_sql Let_def split: option.splits prod.splits,
     (metis dict_ok_sql(1) snd_conv)?)

lemma pg_refines:
  assumes ok: "pg_ok s"
  shows "op_ok op \<Longrightarrow>
    spec_step op (abs_pg s) = (observe (fst (pg_step op s)), abs_pg (snd (pg_step op s)))"
proof (cases op)
  case (AdvanceWatermark n t)
  then show "op_ok op \<Longrightarrow> ?thesis"
    by (cases "dget (t_watermark s) n")
       (auto simp: abs_pg_def pg_defs pg_returning_def insert_or_def dict_simps fun_eq_iff Let_def max_def)
next
  case (ListCanonical p)
  then show ?thesis using ok view_listed [of "t_canonical s" p]
    by (simp add: abs_pg_def pg_defs pg_ok_def)
next
  case (UpsertCanonical st)
  show "op_ok op \<Longrightarrow> ?thesis"
  proof (cases "dget (t_canonical s) (cd_key st)")
    case None
    then show "op_ok op \<Longrightarrow> ?thesis" using UpsertCanonical
      by (auto simp: abs_pg_def pg_defs insert_or_def dict_simps fun_eq_iff canon_merge_def)
  next
    case (Some e)
    then have "cd_key e = cd_key st" using ok by (simp add: pg_ok_def)
    then show "op_ok op \<Longrightarrow> ?thesis" using UpsertCanonical Some
      by (auto simp: abs_pg_def pg_defs insert_or_def dict_simps fun_eq_iff canon_merge_def Let_def
          canonical_supersedes_agrees view_def set_agg_distinct with_seen_def seen_of_def supersedes_def
          winner_supersedes_def)
  qed
next
  case (DeleteCanonical p)
  have "canon_paper (view c) = cd_paper c" for c by (simp add: canon_paper_def view_def)
  then show ?thesis using ok DeleteCanonical
    by (auto simp: abs_pg_def pg_defs pg_ok_def dget_sql_delete fun_eq_iff split: option.split)
next
  case (GetCanonical k)
  then show ?thesis
    by (cases "dget (t_canonical s) k") (simp_all add: abs_pg_def pg_defs)
qed (use ok in \<open>auto simp: abs_pg_def pg_defs pg_returning_def decide_view spec_claim_def insert_or_def
       opt_answer_def dedup_view_def dict_simps dget_sql_update dget_sql_delete fun_eq_iff Let_def
       epoch_def pg_ok_def split: option.split\<close>)

interpretation pg: control_plane pg_step abs_pg pg_ok
  by unfold_locales (simp_all add: pg_ok_step pg_refines)

section \<open>The stores agree\<close>

lemma init_states:
  "mem_ok init_mem" "abs_mem init_mem = init_spec" "pg_ok init_pg" "abs_pg init_pg = init_spec"
  by (simp_all add: mem_ok_def init_mem_def abs_mem_def pg_ok_def init_pg_def abs_pg_def
      init_spec_def dict_simps fun_eq_iff)



section \<open>Duplicates are completed ingests\<close>

definition claims :: "string \<Rightarrow> int \<Rightarrow> ledger_op \<Rightarrow> bool" where
  "claims p v op = (case op of
      ClaimUpsert q w \<Rightarrow> q = p \<and> v \<le> w
    | ClaimTombstone now q w \<Rightarrow> q = p \<and> v \<le> w
    | _ \<Rightarrow> False)"

lemma spec_step_dedup:
  "sp_dedup (snd (spec_step op s)) p =
     (case op of
        ClaimUpsert q w \<Rightarrow> (if q = p \<and> \<not> (\<exists>u x. sp_dedup s p = Some (u, x) \<and> w < u)
                             then Some (w, None, INDEXED) else sp_dedup s p)
      | ClaimTombstone now q w \<Rightarrow> (if q = p \<and> \<not> (\<exists>u x. sp_dedup s p = Some (u, x) \<and> w < u)
                             then Some (w, None, TOMBSTONED) else sp_dedup s p)
      | MarkExcluded q w \<Rightarrow> (if q = p \<and> sp_dedup s p = Some (w, None, INDEXED)
                             then Some (w, None, EXCLUDED) else sp_dedup s p)
      | MarkIngested now q w f \<Rightarrow> (if q = p \<and> (\<exists>x. sp_dedup s p = Some (w, x))
                             then Some (w, Some f, INDEXED) else sp_dedup s p)
      | _ \<Rightarrow> sp_dedup s p)"
  by (cases op) (auto simp: spec_claim_def Let_def)

lemma ingested_state_origin:
  "sp_dedup (snd (run_ops spec_step ops init_spec)) p = Some (v, Some f, INDEXED) \<Longrightarrow>
   \<exists>a now b. ops = a @ MarkIngested now p v f # b \<and> list_all (\<lambda>op. \<not> claims p v op) b"
proof (induction ops rule: rev_induct)
  case Nil
  then show ?case by (simp add: init_spec_def)
next
  case (snoc op ops)
  let ?s = "snd (run_ops spec_step ops init_spec)"
  have after: "sp_dedup (snd (spec_step op ?s)) p = Some (v, Some f, INDEXED)"
    using snoc.prems by (simp add: run_ops_append)
  show ?case
  proof (cases "\<exists>now. op = MarkIngested now p v f")
    case True
    then obtain now where "ops @ [op] = ops @ MarkIngested now p v f # []" by blast
    moreover have "list_all (\<lambda>op. \<not> claims p v op) []" by simp
    ultimately show ?thesis by blast
  next
    case False
    then have before: "sp_dedup ?s p = Some (v, Some f, INDEXED)" and nc: "\<not> claims p v op"
      using after unfolding spec_step_dedup
      by (auto simp: claims_def split: ledger_op.splits if_splits)
    then obtain a now b where "ops = a @ MarkIngested now p v f # b" "list_all (\<lambda>op. \<not> claims p v op) b"
      using snoc.IH by blast
    then have "ops @ [op] = a @ MarkIngested now p v f # (b @ [op])"
      "list_all (\<lambda>op. \<not> claims p v op) (b @ [op])" using nc by simp_all
    then show ?thesis by blast
  qed
qed

lemma spec_decide_duplicate: "spec_decide st v f = DUPLICATE \<longleftrightarrow> st = Some (v, Some f, INDEXED)"
  by (auto simp: spec_decide_def split: option.split prod.split)

text \<open>
  A paper version is reported DUPLICATE, and so skipped, only after exactly this version and
  fingerprint was marked ingested and no claim of this or a newer version, for an upsert or a
  tombstone, came after: whatever the run, no redelivery of unfinished, excluded, withdrawn or
  superseded work is short-circuited.
\<close>

theorem duplicate_means_ingested:
  assumes "list_all op_ok ops"
    and "evaluate_dedup p v f (snd (run_ops mem_step ops init_mem)) = DUPLICATE"
  shows "\<exists>a now b. ops = a @ MarkIngested now p v f # b \<and> list_all (\<lambda>op. \<not> claims p v op) b"
proof -
  have "sp_dedup (abs_mem (snd (run_ops mem_step ops init_mem))) p = Some (v, Some f, INDEXED)"
    using assms(2) by (simp add: evaluate_dedup_def decide_view spec_decide_duplicate abs_mem_def)
  then show ?thesis
    using mem.run_refines [OF init_states(1) assms(1)] ingested_state_origin [of ops p v f]
    by (simp add: init_states)
qed

theorem duplicate_means_ingested_witness:
  "\<exists>a now b. [ClaimUpsert ''p'' 1, MarkIngested 9 ''p'' 1 ''f''] = a @ MarkIngested now ''p'' 1 ''f'' # b \<and>
     list_all (\<lambda>op. \<not> claims ''p'' 1 op) b"
  by (rule duplicate_means_ingested)
     (simp_all add: mem_defs newer_stored_def decide_dedup_def init_mem_def dict_simps)

section \<open>Nothing goes back\<close>

lemma mem_versions_step:
  "dget (m_dedup s) p = Some d \<Longrightarrow>
   \<exists>d'. dget (m_dedup (snd (mem_step op s))) p = Some d' \<and> ds_version d \<le> ds_version d'"
  by (cases op) (auto simp: mem_defs newer_stored_def dict_simps Let_def split: option.splits)

lemma mem_lock_step:
  "m_rebuild_owner s = Some w \<Longrightarrow> op \<noteq> ReleaseRebuild w \<Longrightarrow>
   m_rebuild_owner (snd (mem_step op s)) = Some w \<and>
   (\<forall>w'. op = AcquireRebuild w' \<longrightarrow> fst (mem_step op s) = Flag False)"
  by (cases op) (auto simp: mem_defs Let_def split: option.splits)

text \<open>
  In any run of the control plane a stored paper stays stored with a version that never
  decreases, and while a rebuild holds the lock and does not release it, the lock stays with that
  owner and every other attempt to take it is refused.
\<close>

theorem ledger_never_goes_back:
  assumes "dget (m_dedup s) p = Some d" and "m_rebuild_owner s = Some w"
    and "ReleaseRebuild w \<notin> set ops"
  shows "(\<exists>d'. dget (m_dedup (snd (run_ops mem_step ops s))) p = Some d' \<and> ds_version d \<le> ds_version d') \<and>
    m_rebuild_owner (snd (run_ops mem_step ops s)) = Some w \<and>
    (\<forall>i w'. i < length ops \<and> ops ! i = AcquireRebuild w' \<longrightarrow> fst (run_ops mem_step ops s) ! i = Flag False)"
  using assms
proof (induction ops arbitrary: s d)
  case (Cons op ops)
  obtain d' where d': "dget (m_dedup (snd (mem_step op s))) p = Some d'" "ds_version d \<le> ds_version d'"
    using mem_versions_step [OF Cons.prems(1)] by blast
  have l: "m_rebuild_owner (snd (mem_step op s)) = Some w"
    "\<forall>w'. op = AcquireRebuild w' \<longrightarrow> fst (mem_step op s) = Flag False"
    using mem_lock_step [OF Cons.prems(2), of op] Cons.prems(3) by auto
  show ?case
    using Cons.IH [OF d'(1) l(1)] Cons.prems(3) l(2) d'(2)
    by (auto simp: nth_Cons split: nat.splits)
qed auto

definition busy_store :: mem_store where
  "busy_store = init_mem\<lparr>m_rebuild_owner := Some ''a'', m_dedup := [(''p'', \<lparr>ds_paper = ''p'',
     ds_version = 2, ds_fingerprint = None, ds_state = INDEXED, ds_ingested_at = None\<rparr>)]\<rparr>"

theorem ledger_never_goes_back_witness:
  "m_rebuild_owner (snd (run_ops mem_step [AcquireRebuild ''b'', ClaimUpsert ''p'' 1] busy_store)) = Some ''a''"
proof -
  have "dget (m_dedup busy_store) ''p'' = Some \<lparr>ds_paper = ''p'', ds_version = 2,
      ds_fingerprint = None, ds_state = INDEXED, ds_ingested_at = None\<rparr>"
    "m_rebuild_owner busy_store = Some ''a''"
    "ReleaseRebuild ''a'' \<notin> set [AcquireRebuild ''b'', ClaimUpsert ''p'' 1]"
    by (simp_all add: busy_store_def dict_simps)
  from ledger_never_goes_back [OF this] show ?thesis by blast
qed

text \<open>An ingest completing after a same-version withdrawal un-withdraws the paper.\<close>

lemma late_ingest_resurrects:
  "evaluate_dedup ''p'' 1 ''f'' (snd (run_ops mem_step
     [ClaimUpsert ''p'' 1, ClaimTombstone 5 ''p'' 1, MarkIngested 6 ''p'' 1 ''f''] init_mem)) = DUPLICATE"
  by (simp add: mem_defs newer_stored_def decide_dedup_def init_mem_def dict_simps)

section \<open>The canonical winner\<close>

lemma supersedes_refl: "winner_supersedes a a"
  by (simp add: winner_supersedes_def)

lemma supersedes_trans: "winner_supersedes a b \<Longrightarrow> winner_supersedes b c \<Longrightarrow> winner_supersedes a c"
  by (auto simp: winner_supersedes_def Let_def split: if_splits)

lemma supersedes_total: "\<not> winner_supersedes a b \<Longrightarrow> winner_supersedes b a"
  by (auto simp: winner_supersedes_def Let_def split: if_splits)

lemma supersedes_seen [simp]:
  "winner_supersedes (a\<lparr>cd_seen := x\<rparr>) b = winner_supersedes a b"
  "winner_supersedes a (b\<lparr>cd_seen := x\<rparr>) = winner_supersedes a b"
  by (simp_all add: winner_supersedes_def)

lemma distinct_merge_seen: "distinct xs \<Longrightarrow> distinct (merge_seen_sources xs ys)"
  by (induction xs ys rule: merge_seen_sources.induct) auto

lemma upserts_get:
  assumes "\<And>st. st \<in> set states \<Longrightarrow> cd_key st = k"
  shows "dget (m_canonical (foldl (\<lambda>s st. upsert_canonical_dedup_state st s) s states)) k =
    foldl (\<lambda>c st. Some (merge_canonical c st)) (dget (m_canonical s) k) states"
  using assms
  by (induction states arbitrary: s) (simp_all add: upsert_canonical_dedup_state_def dict_simps)

lemma merges_best:
  "states \<noteq> [] \<Longrightarrow> \<exists>w \<in> set states. \<exists>c. foldl (\<lambda>c st. Some (merge_canonical c st)) None states = Some c \<and>
     c = w\<lparr>cd_seen := cd_seen c\<rparr> \<and> distinct (cd_seen c) \<and>
     set (cd_seen c) = (\<Union>st \<in> set states. set (cd_seen st)) \<and>
     (\<forall>st \<in> set states. winner_supersedes w st)"
proof (induction states rule: rev_induct)
  case (snoc st states)
  show ?case
  proof (cases "states = []")
    case True
    have "\<exists>c. Some (merge_canonical None st) = Some c \<and> c = st\<lparr>cd_seen := cd_seen c\<rparr> \<and>
        distinct (cd_seen c) \<and> set (cd_seen c) = set (cd_seen st) \<and> winner_supersedes st st"
      by (simp add: merge_canonical_def supersedes_refl set_merge_seen distinct_merge_seen)
    with True show ?thesis by simp
  next
    case False
    then obtain w c where w: "w \<in> set states"
      and c: "foldl (\<lambda>c st. Some (merge_canonical c st)) None states = Some c"
      and cw: "c = w\<lparr>cd_seen := cd_seen c\<rparr>" and d: "distinct (cd_seen c)"
      and seen: "set (cd_seen c) = (\<Union>st \<in> set states. set (cd_seen st))"
      and best: "\<forall>st \<in> set states. winner_supersedes w st"
      using snoc.IH by blast
    define m where "m = merge_canonical (Some c) st"
    have ws: "winner_supersedes st c = winner_supersedes st w" by (subst cw) simp
    have m: "distinct (cd_seen m)" "set (cd_seen m) = set (cd_seen c) \<union> set (cd_seen st)"
      by (simp_all add: m_def merge_canonical_def Let_def set_merge_seen distinct_merge_seen d)
    have mw: "m = (if winner_supersedes st w then st else w)\<lparr>cd_seen := cd_seen m\<rparr>"
      unfolding m_def merge_canonical_def Let_def option.case ws using cw
      by (cases w, cases c) simp
    have "\<forall>x \<in> set (states @ [st]). winner_supersedes (if winner_supersedes st w then st else w) x"
      using best supersedes_refl supersedes_trans supersedes_total [of st w] by (auto; blast)
    then show ?thesis
      using w c m seen mw
      by (intro bexI [of _ "if winner_supersedes st w then st else w"] exI [of _ m])
         (auto simp: m_def [symmetric])
  qed
qed simp

text \<open>
  Whatever sources offer records for one canonical paper, in whatever order, the stored record
  is one of those offered, at least as good as every other (higher source precedence, then newer
  version), and it remembers each source exactly once: racing sources can neither regress the winner
  nor lose one another.
\<close>

theorem canonical_winner_is_best:
  assumes "states \<noteq> []" and "\<And>st. st \<in> set states \<Longrightarrow> cd_key st = k"
    and "get_canonical_dedup_state k s = None"
  shows "\<exists>w \<in> set states. \<exists>c.
    get_canonical_dedup_state k (foldl (\<lambda>s st. upsert_canonical_dedup_state st s) s states) = Some c \<and>
    c = w\<lparr>cd_seen := cd_seen c\<rparr> \<and> distinct (cd_seen c) \<and>
    set (cd_seen c) = (\<Union>st \<in> set states. set (cd_seen st)) \<and>
    (\<forall>st \<in> set states. winner_supersedes w st)"
  using merges_best [OF assms(1)] assms(3)
  by (simp add: get_canonical_dedup_state_def upserts_get [OF assms(2)])

definition offered :: "string \<Rightarrow> int \<Rightarrow> source_name \<Rightarrow> canonical_state" where
  "offered t v src = \<lparr>cd_key = ''k'', cd_paper = ''p'', cd_tier = t, cd_version = v,
     cd_fingerprint = ''f'', cd_seen = [src]\<rparr>"

theorem canonical_winner_is_best_witness:
  "\<exists>w \<in> set [offered ''OPENALEX_GROBID'' 9 OPENALEX, offered ''ARXIV_PDF'' 1 ARXIV]. \<exists>c.
    get_canonical_dedup_state ''k'' (foldl (\<lambda>s st. upsert_canonical_dedup_state st s) init_mem
      [offered ''OPENALEX_GROBID'' 9 OPENALEX, offered ''ARXIV_PDF'' 1 ARXIV]) = Some c \<and>
    c = w\<lparr>cd_seen := cd_seen c\<rparr> \<and> distinct (cd_seen c) \<and>
    set (cd_seen c) = (\<Union>st \<in> set [offered ''OPENALEX_GROBID'' 9 OPENALEX, offered ''ARXIV_PDF'' 1 ARXIV].
      set (cd_seen st)) \<and>
    (\<forall>st \<in> set [offered ''OPENALEX_GROBID'' 9 OPENALEX, offered ''ARXIV_PDF'' 1 ARXIV].
      winner_supersedes w st)"
  by (rule canonical_winner_is_best)
     (auto simp: offered_def init_mem_def get_canonical_dedup_state_def dict_simps)

end
