(* ===== verification/Ingest_Resilience.thy ===== *)
theory Ingest_Resilience imports Ingest_Domain Circuit_Breaker begin

text \<open>
  Resilience of the ingestion worker, \<open>ingestion/src/docsuri_ingestion/resilience.py\<close>: the
  retry policy and its backoff, the wall-clock cap on a call, the token bucket, the failure signals,
  and \<open>dependency_call\<close>, the second client of the shared circuit breaker. What an attempt does
  is given by its outcome; the random jitter and the clock are read from functions of the attempt
  number. Effects (metrics, sleeps, signals) are listed in order. The dash in the message of an
  exhausted retry, a code point outside the text model, is written as a colon.

  Shown: which attempts a retried call makes, how long it waits and how it ends; that a failing
  call trips the circuit of its dependency and only availability failures do; and that the token
  bucket never grants more than its capacity plus its rate times the time elapsed, whatever the
  interleaving of its callers.
\<close>

section \<open>Exceptions\<close>

text \<open>
  An exception as \<open>is_retriable\<close> sees it: a typed error, a \<open>ConnectionError\<close> or
  \<open>TimeoutError\<close>, or another one with its type name, its message and, for a botocore
  \<open>ClientError\<close>, the error code and the HTTP status of its \<open>response\<close>.
\<close>

datatype exc =
    IngestExc ingestion_error
  | ConnectionExc string
  | TimeoutExc string
  | OtherExc string string "(string option \<times> int option) option"

definition BOTOCORE_RETRIABLE_CODES :: "string list" where
  "BOTOCORE_RETRIABLE_CODES =
     [''ThrottlingException'', ''Throttling'', ''TooManyRequestsException'',
      ''ProvisionedThroughputExceededException'', ''RequestLimitExceeded'', ''SlowDown'',
      ''ServiceUnavailable'', ''ModelTimeoutException'', ''ModelNotReadyException'']"

definition is_retriable :: "exc \<Rightarrow> bool" where
  "is_retriable e = (case e of
      IngestExc i \<Rightarrow> err_class i = RETRIABLE
    | ConnectionExc _ \<Rightarrow> True
    | TimeoutExc _ \<Rightarrow> True
    | OtherExc _ _ None \<Rightarrow> False
    | OtherExc _ _ (Some (code, status)) \<Rightarrow>
        (case code of None \<Rightarrow> False | Some c \<Rightarrow> c \<in> set BOTOCORE_RETRIABLE_CODES) \<or>
        (case status of None \<Rightarrow> False | Some s \<Rightarrow> 500 \<le> s))"

text \<open>\<open>f"{type(e).__name__}: {e}"\<close>\<close>

definition exc_detail :: "exc \<Rightarrow> string" where
  "exc_detail e = (case e of
      IngestExc i \<Rightarrow> ''IngestionError: '' @ err_message i
    | ConnectionExc m \<Rightarrow> ''ConnectionError: '' @ m
    | TimeoutExc m \<Rightarrow> ''TimeoutError: '' @ m
    | OtherExc n m _ \<Rightarrow> n @ '': '' @ m)"

definition circuit_open_error :: "string \<Rightarrow> exc" where
  "circuit_open_error dep =
     IngestExc (retriable_error (''circuit open for dependency: '' @ dep) DEPENDENCY_UNAVAILABLE dep)"

section \<open>The wall-clock cap\<close>

text \<open>
  What the submitted call does: it is still running when the timeout passes, or it ends in time.
  The handler also catches a \<open>TimeoutError\<close> the call itself raised, which is the same class.
\<close>

datatype 'a run_outcome = StillRunning | Ended "exc + 'a"

definition timeout_error :: exc where
  "timeout_error = IngestExc (retriable_error ''operation timed out'' TIMEOUT ''timeout'')"

definition timeout_run :: "'a run_outcome \<Rightarrow> exc + 'a" where
  "timeout_run r = (case r of
      StillRunning \<Rightarrow> Inl timeout_error
    | Ended (Inl (TimeoutExc _)) \<Rightarrow> Inl timeout_error
    | Ended x \<Rightarrow> x)"

section \<open>Retries\<close>

record retry_policy =
  max_attempts :: nat
  base_delay_seconds :: rat
  backoff_factor :: rat
  jitter_ratio :: rat

definition default_policy :: retry_policy where
  "default_policy = \<lparr>max_attempts = 5, base_delay_seconds = 1, backoff_factor = 2, jitter_ratio = 1 / 5\<rparr>"

definition delay_for_attempt :: "retry_policy \<Rightarrow> rat \<Rightarrow> nat \<Rightarrow> rat" where
  "delay_for_attempt p rnd attempt_index =
     (let base = base_delay_seconds p * backoff_factor p ^ (attempt_index - 1);
          jitter = base * jitter_ratio p * rnd
      in base + jitter)"

definition RATE_LIMIT_BACKOFF_MULTIPLIER :: rat where "RATE_LIMIT_BACKOFF_MULTIPLIER = 15"

definition retry_delay :: "retry_policy \<Rightarrow> rat \<Rightarrow> nat \<Rightarrow> exc \<Rightarrow> rat" where
  "retry_delay p rnd attempt e =
     (let base = delay_for_attempt p rnd attempt in
      case e of
        IngestExc i \<Rightarrow> if err_reason i = RATE_LIMITED then base * RATE_LIMIT_BACKOFF_MULTIPLIER else base
      | _ \<Rightarrow> base)"

datatype retry_effect =
    RetryMetric string nat
  | RecoveredMetric string nat
  | Sleep rat

definition retry_exhausted :: "string \<Rightarrow> exc option \<Rightarrow> exc" where
  "retry_exhausted stage last_error =
     (case last_error of
        Some (IngestExc i) \<Rightarrow> IngestExc i
      | _ \<Rightarrow> IngestExc (retriable_error
          (''retry exhausted at stage '' @ stage @ '': '' @
             (case last_error of None \<Rightarrow> ''no error recorded'' | Some e \<Rightarrow> exc_detail e))
          DEPENDENCY_UNAVAILABLE stage))"

text \<open>
  \<open>retry\<close>: \<open>left\<close> attempts remain, the next one is number \<open>attempt\<close>. The called function acts
  on a state (the circuits).
\<close>

fun retry_loop ::
  "retry_policy \<Rightarrow> (nat \<Rightarrow> rat) \<Rightarrow> string \<Rightarrow> (nat \<Rightarrow> 's \<Rightarrow> (exc + 'a) \<times> 's) \<Rightarrow>
   nat \<Rightarrow> nat \<Rightarrow> exc option \<Rightarrow> 's \<Rightarrow> (exc + 'a) \<times> 's \<times> retry_effect list" where
  "retry_loop p rnd stage func 0 attempt last_error s = (Inl (retry_exhausted stage last_error), s, [])"
| "retry_loop p rnd stage func (Suc left) attempt last_error s =
     (case func attempt s of
        (Inr x, s') \<Rightarrow> (Inr x, s', if attempt > 1 then [RecoveredMetric stage attempt] else [])
      | (Inl e, s') \<Rightarrow>
          if \<not> is_retriable e then (Inl e, s', [])
          else if attempt \<ge> max_attempts p
          then (Inl (retry_exhausted stage (Some e)), s', [RetryMetric stage attempt])
          else (case retry_loop p rnd stage func left (attempt + 1) (Some e) s' of
                  (r, s'', effs) \<Rightarrow>
                    (r, s'', RetryMetric stage attempt # Sleep (retry_delay p (rnd attempt) attempt e) # effs)))"

definition retry ::
  "retry_policy \<Rightarrow> (nat \<Rightarrow> rat) \<Rightarrow> string \<Rightarrow> (nat \<Rightarrow> 's \<Rightarrow> (exc + 'a) \<times> 's) \<Rightarrow> 's \<Rightarrow>
   (exc + 'a) \<times> 's \<times> retry_effect list" where
  "retry p rnd stage func s = retry_loop p rnd stage func (max_attempts p) 1 None s"

text \<open>\<open>retry_with_policy\<close>: the last failure propagates unchanged; \<open>Inl None\<close> is the final assertion.\<close>

fun retry_with_policy_loop ::
  "retry_policy \<Rightarrow> (nat \<Rightarrow> rat) \<Rightarrow> (exc \<Rightarrow> bool) \<Rightarrow> (nat \<Rightarrow> exc + 'a) \<Rightarrow> nat \<Rightarrow> nat \<Rightarrow>
   (exc option + 'a) \<times> rat list" where
  "retry_with_policy_loop p rnd retriable func 0 attempt = (Inl None, [])"
| "retry_with_policy_loop p rnd retriable func (Suc left) attempt =
     (case func attempt of
        Inr x \<Rightarrow> (Inr x, [])
      | Inl e \<Rightarrow>
          if \<not> retriable e \<or> attempt \<ge> max_attempts p then (Inl (Some e), [])
          else (case retry_with_policy_loop p rnd retriable func left (attempt + 1) of
                  (r, ds) \<Rightarrow> (r, delay_for_attempt p (rnd attempt) attempt # ds)))"

definition retry_with_policy ::
  "retry_policy \<Rightarrow> (nat \<Rightarrow> rat) \<Rightarrow> (exc \<Rightarrow> bool) \<Rightarrow> (nat \<Rightarrow> exc + 'a) \<Rightarrow> (exc option + 'a) \<times> rat list" where
  "retry_with_policy p rnd retriable func =
     retry_with_policy_loop p rnd retriable func (max_attempts p) 1"

section \<open>Dependency calls\<close>

definition CIRCUIT_FAILURE_THRESHOLD :: int where "CIRCUIT_FAILURE_THRESHOLD = 5"

definition CIRCUIT_RECOVERY_SECONDS :: rat where "CIRCUIT_RECOVERY_SECONDS = 60"

type_synonym circuits = "(string, circuit_breaker) dict"

text \<open>\<open>self._circuits.setdefault(dependency, CircuitBreaker(...))\<close>\<close>

definition circuit_of :: "string \<Rightarrow> rat \<Rightarrow> circuits \<Rightarrow> circuits" where
  "circuit_of dep now cs =
     (case dget cs dep of
        Some _ \<Rightarrow> cs
      | None \<Rightarrow> dset dep (init_breaker dep CIRCUIT_FAILURE_THRESHOLD CIRCUIT_RECOVERY_SECONDS now) cs)"

text \<open>What the body of the guard declares: success, neutral on a permanent error, else nothing.\<close>

definition declares :: "exc + 'a \<Rightarrow> outcome option" where
  "declares r = (case r of
      Inr _ \<Rightarrow> Some Success
    | Inl e \<Rightarrow> if is_retriable e then None else Some Neutral)"

definition guarded_attempt ::
  "string \<Rightarrow> rat \<times> rat \<times> rat \<Rightarrow> 'a run_outcome \<Rightarrow> circuit_breaker \<Rightarrow> (exc + 'a) \<times> circuit_breaker" where
  "guarded_attempt dep ts outcome b =
     (case ts of (t0, t1, t2) \<Rightarrow>
      case guard_call t0 t1 t2 (declares (timeout_run outcome)) b of
        (admitted, b') \<Rightarrow>
          (if admitted then timeout_run outcome else Inl (circuit_open_error dep), b'))"

definition dependency_call ::
  "retry_policy \<Rightarrow> (nat \<Rightarrow> rat) \<Rightarrow> rat \<Rightarrow> (nat \<Rightarrow> rat \<times> rat \<times> rat) \<Rightarrow> string \<Rightarrow> string \<Rightarrow>
   (nat \<Rightarrow> 'a run_outcome) \<Rightarrow> circuits \<Rightarrow> (exc + 'a) \<times> circuits \<times> retry_effect list" where
  "dependency_call p rnd now clk dep stage func cs0 =
     (let cs = circuit_of dep now cs0 in
      case dget cs dep of
        None \<Rightarrow> (Inl (circuit_open_error dep), cs, [])
      | Some b \<Rightarrow>
          (case retry p rnd stage (\<lambda>i. guarded_attempt dep (clk i) (func i)) b of
             (r, b', effs) \<Rightarrow> (r, dset dep b' cs, effs)))"

section \<open>Failure signals\<close>

datatype failure_effect =
    FailureSignal string string string
  | DlqSend string
  | DlqMetric string "string option"

definition emit_failure_signal :: "string \<Rightarrow> ingestion_error \<Rightarrow> failure_effect list" where
  "emit_failure_signal job e =
     (let detail = py_strip (err_message e) in
      [FailureSignal job (err_stage e)
         (if detail \<noteq> [] then public_error e @ '': '' @ detail else public_error e)])"

definition send_to_dlq :: "string \<Rightarrow> string option \<Rightarrow> failure_effect list" where
  "send_to_dlq reason job =
     [DlqSend reason,
      DlqMetric reason (case job of None \<Rightarrow> None | Some j \<Rightarrow> if j = [] then None else Some j)]"

section \<open>The token bucket\<close>

record bucket =
  bk_rate :: rat
  bk_capacity :: rat
  bk_tokens :: rat
  bk_last :: rat

definition init_bucket :: "rat \<Rightarrow> int \<Rightarrow> rat \<Rightarrow> string + bucket" where
  "init_bucket rate_per_second capacity now =
     (if rate_per_second \<le> 0 then Inl ''rate_per_second must be positive''
      else if capacity \<le> 0 then Inl ''capacity must be positive''
      else Inr \<lparr>bk_rate = rate_per_second, bk_capacity = of_int capacity,
                bk_tokens = of_int capacity, bk_last = now\<rparr>)"

definition refill :: "rat \<Rightarrow> bucket \<Rightarrow> bucket" where
  "refill now b =
     b\<lparr>bk_last := now,
       bk_tokens := min (bk_capacity b) (bk_tokens b + (now - bk_last b) * bk_rate b)\<rparr>"

text \<open>
  One pass through the lock: the chunk is taken (\<open>Inr\<close>), or the caller is told how long to sleep.
\<close>

definition take_chunk :: "rat \<Rightarrow> rat \<Rightarrow> bucket \<Rightarrow> (rat + unit) \<times> bucket" where
  "take_chunk now chunk b0 =
     (let b = refill now b0 in
      if bk_tokens b \<ge> chunk then (Inr (), b\<lparr>bk_tokens := bk_tokens b - chunk\<rparr>)
      else (Inl ((chunk - bk_tokens b) / bk_rate b), b))"

text \<open>
  \<open>acquire\<close> by a single caller, who sleeps exactly as long as told: the inner loop waits for one
  chunk, the outer loop takes the amount chunk by chunk; both on fuel.
\<close>

fun wait_chunk :: "nat \<Rightarrow> rat \<Rightarrow> rat \<Rightarrow> bucket \<Rightarrow> (rat \<times> bucket) option" where
  "wait_chunk 0 now chunk b = None"
| "wait_chunk (Suc n) now chunk b =
     (case take_chunk now chunk b of
        (Inr _, b') \<Rightarrow> Some (now, b')
      | (Inl wait_seconds, b') \<Rightarrow> wait_chunk n (now + wait_seconds) chunk b')"

fun acquire_loop :: "nat \<Rightarrow> rat \<Rightarrow> rat \<Rightarrow> bucket \<Rightarrow> (rat \<times> bucket) option" where
  "acquire_loop 0 remaining now b = (if remaining > 0 then None else Some (now, b))"
| "acquire_loop (Suc n) remaining now b =
     (if remaining > 0
      then let chunk = min remaining (bk_capacity b) in
           case wait_chunk 2 now chunk b of
             None \<Rightarrow> None
           | Some (now', b') \<Rightarrow> acquire_loop n (remaining - chunk) now' b'
      else Some (now, b))"

definition acquire_tokens :: "nat \<Rightarrow> rat \<Rightarrow> rat \<Rightarrow> bucket \<Rightarrow> (rat \<times> bucket) option" where
  "acquire_tokens fuel amount now b = acquire_loop fuel (max amount 0) now b"

text \<open>The passes of all callers, each at its instant, interleaved in any order; the amount granted.\<close>

fun bucket_run :: "(rat \<times> rat) list \<Rightarrow> bucket \<Rightarrow> rat \<times> bucket" where
  "bucket_run [] b = (0, b)"
| "bucket_run ((now, chunk) # passes) b =
     (case take_chunk now chunk b of
        (Inr _, b') \<Rightarrow> (chunk + fst (bucket_run passes b'), snd (bucket_run passes b'))
      | (Inl _, b') \<Rightarrow> bucket_run passes b')"

section \<open>What a retried call does\<close>

definition conclusive :: "exc + 'a \<Rightarrow> bool" where
  "conclusive r = (case r of Inr _ \<Rightarrow> True | Inl e \<Rightarrow> \<not> is_retriable e)"

definition failure_of :: "exc + 'a \<Rightarrow> exc" where
  "failure_of r = (case r of Inl e \<Rightarrow> e | Inr _ \<Rightarrow> TimeoutExc [])"

fun sleeps :: "retry_effect list \<Rightarrow> rat list" where
  "sleeps [] = []"
| "sleeps (Sleep d # es) = d # sleeps es"
| "sleeps (_ # es) = sleeps es"

lemma retry_loop_runs:
  assumes "left + a = max_attempts p + 1" and "0 < left"
  shows "\<exists>k. a \<le> k \<and> k \<le> max_attempts p \<and> (\<forall>i. a \<le> i \<and> i < k \<longrightarrow> \<not> conclusive (f i)) \<and>
    (conclusive (f k) \<or> k = max_attempts p) \<and>
    fst (retry_loop p rnd stage (\<lambda>i s. (f i, s @ [i])) left a l s) =
      (if conclusive (f k) then f k else Inl (retry_exhausted stage (Some (failure_of (f k))))) \<and>
    fst (snd (retry_loop p rnd stage (\<lambda>i s. (f i, s @ [i])) left a l s)) = s @ [a..<Suc k] \<and>
    sleeps (snd (snd (retry_loop p rnd stage (\<lambda>i s. (f i, s @ [i])) left a l s))) =
      map (\<lambda>i. retry_delay p (rnd i) i (failure_of (f i))) [a..<k]"
  using assms
proof (induction left arbitrary: a l s)
  case (Suc left)
  show ?case
  proof (cases "conclusive (f a) \<or> a = max_attempts p")
    case True
    then show ?thesis using Suc.prems
      by (intro exI [of _ a])
         (auto simp: conclusive_def failure_of_def split: sum.splits)
  next
    case False
    then obtain e where e: "f a = Inl e" "is_retriable e" and a: "a < max_attempts p"
      using Suc.prems by (auto simp: conclusive_def split: sum.splits)
    obtain k where k: "a + 1 \<le> k" "k \<le> max_attempts p"
      "\<forall>i. a + 1 \<le> i \<and> i < k \<longrightarrow> \<not> conclusive (f i)" "conclusive (f k) \<or> k = max_attempts p"
      "fst (retry_loop p rnd stage (\<lambda>i s. (f i, s @ [i])) left (a + 1) (Some e) (s @ [a])) =
        (if conclusive (f k) then f k else Inl (retry_exhausted stage (Some (failure_of (f k)))))"
      "fst (snd (retry_loop p rnd stage (\<lambda>i s. (f i, s @ [i])) left (a + 1) (Some e) (s @ [a]))) =
        (s @ [a]) @ [a + 1..<Suc k]"
      "sleeps (snd (snd (retry_loop p rnd stage (\<lambda>i s. (f i, s @ [i])) left (a + 1) (Some e) (s @ [a])))) =
        map (\<lambda>i. retry_delay p (rnd i) i (failure_of (f i))) [a + 1..<k]"
      using Suc.IH [of "a + 1" "Some e" "s @ [a]"] Suc.prems a by auto
    have "[a..<Suc k] = a # [a + 1..<Suc k]" "[a..<k] = a # [a + 1..<k]"
      using k(1) by (simp_all add: upt_conv_Cons)
    moreover have "failure_of (f a) = e" using e by (simp add: failure_of_def)
    moreover have "\<forall>i. a \<le> i \<and> i < k \<longrightarrow> \<not> conclusive (f i)"
      using k(3) e by (metis False Suc_eq_plus1 Suc_leI le_neq_implies_less)
    ultimately show ?thesis using k e a
      by (intro exI [of _ k]) (simp add: case_prod_beta)
  qed
qed simp

text \<open>
  C29. A retried call makes the attempts 1, 2, ... up to the first that succeeds or fails
  permanently, never more than the policy's maximum, and no attempt is skipped or repeated. Its
  result is that attempt's own result; if all attempts fail transiently it is the retry error of the
  last failure. Between attempts it sleeps exactly the backoff of the attempt that failed.
\<close>

theorem retry_runs_attempts:
  assumes "0 < max_attempts p"
  shows "\<exists>k. 1 \<le> k \<and> k \<le> max_attempts p \<and> (\<forall>i. 1 \<le> i \<and> i < k \<longrightarrow> \<not> conclusive (f i)) \<and>
    (conclusive (f k) \<or> k = max_attempts p) \<and>
    fst (retry p rnd stage (\<lambda>i s. (f i, s @ [i])) []) =
      (if conclusive (f k) then f k else Inl (retry_exhausted stage (Some (failure_of (f k))))) \<and>
    fst (snd (retry p rnd stage (\<lambda>i s. (f i, s @ [i])) [])) = [1..<Suc k] \<and>
    sleeps (snd (snd (retry p rnd stage (\<lambda>i s. (f i, s @ [i])) []))) =
      map (\<lambda>i. retry_delay p (rnd i) i (failure_of (f i))) [1..<k]"
  using retry_loop_runs [of "max_attempts p" 1 p f rnd stage None "[]"] assms
  by (simp add: retry_def)

definition throttled :: exc where
  "throttled = IngestExc (retriable_error ''slow down'' RATE_LIMITED ''fetch'')"

definition flaky :: "nat \<Rightarrow> exc + nat" where
  "flaky i = (if i < 3 then Inl throttled else Inr i)"

theorem retry_runs_attempts_witness:
  "fst (snd (retry default_policy (\<lambda>_. 0) ''fetch'' (\<lambda>i s. (flaky i, s @ [i])) [])) = [1, 2, 3] \<and>
   sleeps (snd (snd (retry default_policy (\<lambda>_. 0) ''fetch'' (\<lambda>i s. (flaky i, s @ [i])) []))) = [15, 30]"
proof -
  have nc: "\<not> conclusive (flaky i) \<longleftrightarrow> i < 3" for i
    by (simp add: conclusive_def flaky_def throttled_def is_retriable_def retriable_error_def)
  have pos: "0 < max_attempts default_policy" by (simp add: default_policy_def)
  obtain k where k: "1 \<le> k" "k \<le> max_attempts default_policy"
    "\<forall>i. 1 \<le> i \<and> i < k \<longrightarrow> \<not> conclusive (flaky i)" "conclusive (flaky k) \<or> k = max_attempts default_policy"
    "fst (snd (retry default_policy (\<lambda>_. 0) ''fetch'' (\<lambda>i s. (flaky i, s @ [i])) [])) = [1..<Suc k]"
    "sleeps (snd (snd (retry default_policy (\<lambda>_. 0) ''fetch'' (\<lambda>i s. (flaky i, s @ [i])) []))) =
      map (\<lambda>i. retry_delay default_policy 0 i (failure_of (flaky i))) [1..<k]"
    using retry_runs_attempts [OF pos, of flaky "\<lambda>_. 0" "''fetch''"] by blast
  have "k = 3"
  proof -
    have "\<not> k < 3" using k(4) nc [of k] by (auto simp: default_policy_def)
    moreover have "\<not> 3 < k" using k(3) nc [of 3] by (metis less_irrefl one_le_numeral)
    ultimately show ?thesis by simp
  qed
  then show ?thesis using k(5,6)
    by (simp add: upt_rec retry_delay_def delay_for_attempt_def default_policy_def failure_of_def
        flaky_def throttled_def retriable_error_def RATE_LIMIT_BACKOFF_MULTIPLIER_def)
qed

section \<open>Outages and permanent errors\<close>

text \<open>One guarded attempt on a closed circuit.\<close>

definition count_failure :: "rat \<Rightarrow> circuit_breaker \<Rightarrow> circuit_breaker" where
  "count_failure now b = complete_permit False Failure 0 now b"

lemma closed_acquire:
  "cb_state b = CLOSED \<Longrightarrow>
   acquire t b = (Some \<lparr>is_probe = False, permit_token = 0, permit_done = False\<rparr>, b)"
  by (simp add: acquire_def check_recovery_def)

lemma closed_attempt:
  assumes "cb_state b = CLOSED" and "timeout_run r = Inl e"
  shows "guarded_attempt dep (t0, t1, t2) r b =
    (Inl e, if is_retriable e then count_failure t2 b else b)"
  using assms
  by (simp add: guarded_attempt_def guard_call_def closed_acquire declares_def guard_exit_def
      resolve_permit_def count_failure_def complete_permit_def)

lemma open_attempt:
  assumes "cb_state b = OPEN" and "t0 - last_state_change b \<le> recovery_seconds b"
  shows "guarded_attempt dep (t0, t1, t2) r b = (Inl (circuit_open_error dep), b)"
  using assms
  by (simp add: guarded_attempt_def guard_call_def acquire_def check_recovery_def guard_exit_def)

lemma circuit_open_retriable [simp]: "is_retriable (circuit_open_error dep)"
  by (simp add: circuit_open_error_def retriable_error_def is_retriable_def)

lemma circuit_open_final: "retry_exhausted stage (Some (circuit_open_error dep)) = circuit_open_error dep"
  by (simp add: retry_exhausted_def circuit_open_error_def)

text \<open>Refused attempts leave the state alone and the whole call ends with the circuit error.\<close>

lemma refused_loop:
  assumes "\<And>i. a \<le> i \<Longrightarrow> i \<le> max_attempts p \<Longrightarrow> F i b = (Inl (circuit_open_error dep), b)"
    and "left + a = max_attempts p + 1" and "0 < left \<or> l = Some (circuit_open_error dep)"
  shows "fst (retry_loop p rnd stage F left a l b) = Inl (circuit_open_error dep) \<and>
    fst (snd (retry_loop p rnd stage F left a l b)) = b"
  using assms
proof (induction left arbitrary: a l)
  case 0
  then show ?case by (simp add: circuit_open_final)
next
  case (Suc left)
  have F: "F a b = (Inl (circuit_open_error dep), b)" using Suc.prems(1,2) by simp
  show ?case
  proof (cases "max_attempts p \<le> a")
    case True
    then show ?thesis using F by (simp add: circuit_open_final)
  next
    case False
    have "fst (retry_loop p rnd stage F left (a + 1) (Some (circuit_open_error dep)) b) =
        Inl (circuit_open_error dep) \<and>
      fst (snd (retry_loop p rnd stage F left (a + 1) (Some (circuit_open_error dep)) b)) = b"
      using Suc.prems by (intro Suc.IH) auto
    then show ?thesis using F False by (simp add: case_prod_beta)
  qed
qed

text \<open>The breaker after \<open>n\<close> failures in a row, counted from a fresh circuit.\<close>

fun failed_times :: "nat \<Rightarrow> (nat \<Rightarrow> rat \<times> rat \<times> rat) \<Rightarrow> circuit_breaker \<Rightarrow> circuit_breaker" where
  "failed_times 0 clk b = b"
| "failed_times (Suc n) clk b = count_failure (snd (snd (clk (Suc n)))) (failed_times n clk b)"

lemma failed_times_fresh:
  "n < 5 \<Longrightarrow> cb_state (failed_times n clk (init_breaker dep 5 r now)) = CLOSED \<and>
     failure_count (failed_times n clk (init_breaker dep 5 r now)) = int n \<and>
     failure_threshold (failed_times n clk (init_breaker dep 5 r now)) = 5 \<and>
     recovery_seconds (failed_times n clk (init_breaker dep 5 r now)) = r"
  by (induction n) (simp_all add: init_breaker_def count_failure_def complete_permit_def)

lemma five_failures:
  "cb_state (failed_times 5 clk (init_breaker dep 5 r now)) = OPEN \<and>
   last_state_change (failed_times 5 clk (init_breaker dep 5 r now)) = snd (snd (clk 5)) \<and>
   recovery_seconds (failed_times 5 clk (init_breaker dep 5 r now)) = r"
proof -
  have "failed_times 5 clk (init_breaker dep 5 r now) =
      count_failure (snd (snd (clk 5))) (failed_times 4 clk (init_breaker dep 5 r now))"
    by (simp add: eval_nat_numeral)
  then show ?thesis using failed_times_fresh [of 4 clk dep r now]
    by (simp add: count_failure_def complete_permit_def)
qed

lemma outage_loop:
  assumes fails: "\<And>i. \<exists>e. timeout_run (func i) = Inl e \<and> is_retriable e"
    and "left + n = 5" and "0 < left"
  shows "fst (snd (retry_loop default_policy rnd stage (\<lambda>i. guarded_attempt dep (clk i) (func i)) left (Suc n) l
      (failed_times n clk (init_breaker dep 5 r now)))) = failed_times 5 clk (init_breaker dep 5 r now)"
  using assms(2,3)
proof (induction left arbitrary: n l)
  case (Suc left)
  let ?b = "failed_times n clk (init_breaker dep 5 r now)"
  obtain e where e: "timeout_run (func (Suc n)) = Inl e" "is_retriable e" using fails by blast
  obtain t0 t1 t2 where t: "clk (Suc n) = (t0, t1, t2)" by (cases "clk (Suc n)")
  have "cb_state ?b = CLOSED" using failed_times_fresh [of n] Suc.prems by simp
  from closed_attempt [OF this e(1)]
  have step: "guarded_attempt dep (clk (Suc n)) (func (Suc n)) ?b =
      (Inl e, failed_times (Suc n) clk (init_breaker dep 5 r now))" using e(2) t by simp
  show ?case
  proof (cases "left = 0")
    case True
    then have "n = 4" using Suc.prems by simp
    then show ?thesis using True step e by (simp add: default_policy_def eval_nat_numeral)
  next
    case False
    then have "\<not> max_attempts default_policy \<le> Suc n" using Suc.prems by (simp add: default_policy_def)
    then show ?thesis using step e Suc.IH [of "Suc n" "Some e"] Suc.prems False
      by (simp add: case_prod_beta)
  qed
qed simp

text \<open>
  When a dependency is down, one call to it under the default policy already trips its circuit:
  if every attempt fails transiently, the circuit is open afterwards, and a second call whose
  attempts all start within the recovery window of 60 seconds is refused without the dependency
  being called at all, since its result does not depend on what the dependency would do.
\<close>

theorem outage_trips_circuit:
  assumes "dget cs dep = None"
    and "\<And>i. \<exists>e. timeout_run (func i) = Inl e \<and> is_retriable e"
    and "\<And>i. 1 \<le> i \<Longrightarrow> i \<le> 5 \<Longrightarrow> fst (clk' i) \<le> snd (snd (clk 5)) + 60"
  shows "let cs' = fst (snd (dependency_call default_policy rnd now clk dep stage func cs)) in
    (\<exists>b. dget cs' dep = Some b \<and> cb_state b = OPEN) \<and>
    fst (dependency_call default_policy rnd' now' clk' dep stage' func' cs') =
      Inl (circuit_open_error dep)"
proof -
  define b5 where "b5 = failed_times 5 clk (init_breaker dep 5 60 now)"
  let ?call = "dependency_call default_policy rnd now clk dep stage func cs"
  have five: "cb_state b5 = OPEN" "last_state_change b5 = snd (snd (clk 5))" "recovery_seconds b5 = 60"
    using five_failures [of clk dep 60 now] by (simp_all add: b5_def)
  have r: "fst (snd (retry default_policy rnd stage (\<lambda>i. guarded_attempt dep (clk i) (func i))
      (init_breaker dep 5 60 now))) = b5"
    using outage_loop [where n = 0 and left = 5 and l = None and r = 60 and func = func and clk = clk
        and dep = dep and now = now and rnd = rnd and stage = stage, OF assms(2)]
    by (simp add: retry_def b5_def) (simp add: default_policy_def)
  have cs': "dget (fst (snd ?call)) dep = Some b5"
    using assms(1) r
    by (simp add: dependency_call_def circuit_of_def dict_simps CIRCUIT_FAILURE_THRESHOLD_def
        CIRCUIT_RECOVERY_SECONDS_def case_prod_beta)
  have att: "guarded_attempt dep (clk' i) (func' i) b5 = (Inl (circuit_open_error dep), b5)"
    if "1 \<le> i" "i \<le> max_attempts default_policy" for i
  proof (cases "clk' i")
    case (fields t0 t1 t2)
    have "t0 - last_state_change b5 \<le> recovery_seconds b5"
      using assms(3) [of i] that fields five by (simp add: default_policy_def)
    then show ?thesis unfolding fields using five(1) by (rule open_attempt [rotated])
  qed
  have "fst (retry default_policy rnd' stage' (\<lambda>i. guarded_attempt dep (clk' i) (func' i)) b5) =
      Inl (circuit_open_error dep)"
    unfolding retry_def
    by (rule refused_loop [THEN conjunct1]) (use att in \<open>simp_all add: default_policy_def\<close>)
  then have "fst (dependency_call default_policy rnd' now' clk' dep stage' func' (fst (snd ?call))) =
      Inl (circuit_open_error dep)"
    using cs' by (simp add: dependency_call_def circuit_of_def case_prod_beta)
  then show ?thesis using cs' five by (simp add: Let_def)
qed

theorem outage_trips_circuit_witness:
  "\<exists>b. dget (fst (snd (dependency_call default_policy (\<lambda>_. 0) 0 (\<lambda>i. (0, 0, of_nat i)) ''arxiv'' ''fetch''
     (\<lambda>_. StillRunning :: nat run_outcome) []))) ''arxiv'' = Some b \<and> cb_state b = OPEN"
proof -
  let ?down = "\<lambda>_::nat. StillRunning :: nat run_outcome"
  have "dget ([] :: circuits) ''arxiv'' = None" by (simp add: dict_simps)
  moreover have "\<exists>e. timeout_run (?down i) = Inl e \<and> is_retriable e" for i
    by (simp add: timeout_run_def timeout_error_def is_retriable_def retriable_error_def)
  moreover have "fst (of_nat i :: rat, 0 :: rat, 0 :: rat) \<le> snd (snd (0 :: rat, 0 :: rat, of_nat 5 :: rat)) + 60"
    if "1 \<le> i" "i \<le> 5" for i :: nat
  proof -
    have "(of_nat i :: rat) \<le> of_nat 5" using that(2) by (rule of_nat_mono)
    then show ?thesis by simp
  qed
  ultimately show ?thesis
    using outage_trips_circuit [of "[]" "''arxiv''" ?down "\<lambda>i. (of_nat i, 0, 0)" "\<lambda>i. (0, 0, of_nat i)"
        "\<lambda>_. 0" 0 "''fetch''" "\<lambda>_. 0" 0 "''fetch''" ?down]
    unfolding Let_def by blast
qed

text \<open>
  A permanent error (a missing paper, a rejected licence) is raised at once, is not retried
  and leaves a closed circuit exactly as it was: it neither counts against a healthy dependency
  nor, by resetting the count, hides an outage.
\<close>

theorem permanent_error_spares_circuit:
  assumes "dget cs dep = Some b" and "cb_state b = CLOSED" and "0 < max_attempts p"
    and "timeout_run (func 1) = Inl e" and "\<not> is_retriable e"
  shows "dependency_call p rnd now clk dep stage func cs = (Inl e, cs, [])"
proof -
  obtain t0 t1 t2 where t: "clk 1 = (t0, t1, t2)" by (cases "clk 1")
  obtain n where n: "max_attempts p = Suc n" using assms(3) gr0_conv_Suc by auto
  have "guarded_attempt dep (clk 1) (func 1) b = (Inl e, b)"
    unfolding t using closed_attempt [OF assms(2,4)] assms(5) by simp
  then have "retry p rnd stage (\<lambda>i. guarded_attempt dep (clk i) (func i)) b = (Inl e, b, [])"
    using assms(5) n by (simp add: retry_def)
  moreover have "dset dep b cs = cs"
    using assms(1) unfolding dget_def dset_def by (induction cs) (auto split: if_splits)
  ultimately show ?thesis using assms(1) by (simp add: dependency_call_def circuit_of_def)
qed

theorem permanent_error_spares_circuit_witness:
  "dependency_call default_policy (\<lambda>_. 0) 9 (\<lambda>_. (1, 2, 3)) ''arxiv'' ''fetch''
     (\<lambda>_. Ended (Inl (IngestExc (license_rejected None))) :: nat run_outcome)
     [(''arxiv'', init_breaker ''arxiv'' 5 60 0)] =
   (Inl (IngestExc (license_rejected None)), [(''arxiv'', init_breaker ''arxiv'' 5 60 0)], [])"
  by (rule permanent_error_spares_circuit [where b = "init_breaker ''arxiv'' 5 60 0"])
     (simp_all add: dict_simps init_breaker_def default_policy_def timeout_run_def is_retriable_def
        license_rejected_def permanent_error_def)

section \<open>The rate bound\<close>

definition bucket_ok :: "bucket \<Rightarrow> bool" where
  "bucket_ok b \<longleftrightarrow> 0 < bk_rate b \<and> 0 < bk_capacity b \<and> 0 \<le> bk_tokens b \<and> bk_tokens b \<le> bk_capacity b"

lemma bucket_ok_init: "init_bucket r c now = Inr b \<Longrightarrow> bucket_ok b"
  by (auto simp: init_bucket_def bucket_ok_def split: if_splits)

text \<open>What one pass does to the tokens, at an instant not before the last refill.\<close>

lemma take_chunk_account:
  assumes "bucket_ok b" and "bk_last b \<le> now" and "0 \<le> chunk"
  shows "bucket_ok (snd (take_chunk now chunk b)) \<and> bk_last (snd (take_chunk now chunk b)) = now \<and>
    bk_rate (snd (take_chunk now chunk b)) = bk_rate b \<and>
    bk_capacity (snd (take_chunk now chunk b)) = bk_capacity b \<and>
    (case fst (take_chunk now chunk b) of Inr _ \<Rightarrow> chunk | Inl _ \<Rightarrow> 0) +
      bk_tokens (snd (take_chunk now chunk b)) \<le> bk_tokens b + bk_rate b * (now - bk_last b)"
proof -
  have "0 \<le> (now - bk_last b) * bk_rate b" using assms by (simp add: bucket_ok_def)
  then show ?thesis using assms
    by (auto simp: take_chunk_def refill_def bucket_ok_def Let_def min_def mult.commute)
qed

lemma bucket_run_account:
  assumes "bucket_ok b" and "sorted (bk_last b # map fst passes)" and "\<forall>p \<in> set passes. 0 \<le> snd p"
  shows "bucket_ok (snd (bucket_run passes b)) \<and>
    fst (bucket_run passes b) + bk_tokens (snd (bucket_run passes b)) \<le>
      bk_tokens b + bk_rate b * (last (bk_last b # map fst passes) - bk_last b)"
  using assms
proof (induction passes arbitrary: b)
  case (Cons pass passes)
  obtain now chunk where pass: "pass = (now, chunk)" by (cases pass)
  let ?b = "snd (take_chunk now chunk b)"
  have acc: "bucket_ok ?b" "bk_last ?b = now" "bk_rate ?b = bk_rate b"
    "(case fst (take_chunk now chunk b) of Inr _ \<Rightarrow> chunk | Inl _ \<Rightarrow> 0) + bk_tokens ?b \<le>
      bk_tokens b + bk_rate b * (now - bk_last b)"
    using take_chunk_account [OF Cons.prems(1), of now chunk] Cons.prems(2,3) pass by auto
  have "sorted (bk_last ?b # map fst passes)" using Cons.prems(2) pass acc(2) by simp
  then have ih: "bucket_ok (snd (bucket_run passes ?b))"
    "fst (bucket_run passes ?b) + bk_tokens (snd (bucket_run passes ?b)) \<le>
      bk_tokens ?b + bk_rate b * (last (now # map fst passes) - now)"
    using Cons.IH [OF acc(1)] Cons.prems(3) acc(2,3) by simp_all
  have l: "last (bk_last b # map fst (pass # passes)) = last (now # map fst passes)"
    by (simp add: pass)
  have d: "bk_rate b * (now - bk_last b) + bk_rate b * (last (now # map fst passes) - now) =
      bk_rate b * (last (now # map fst passes) - bk_last b)"
    by (simp add: algebra_simps)
  show ?case
  proof (cases "take_chunk now chunk b")
    case (Pair r b')
    then show ?thesis
      using ih acc(4) d l by (cases r) (simp_all add: pass)
  qed
qed simp

text \<open>
  However the callers of the bucket interleave, the amount it grants over a stretch of time is at
  most its capacity plus its rate times the length of the stretch, and the tokens it holds stay
  between nothing and its capacity.
\<close>

theorem bucket_never_exceeds_rate:
  assumes "bucket_ok b" and "sorted (bk_last b # map fst passes)" and "\<forall>p \<in> set passes. 0 \<le> snd p"
  shows "fst (bucket_run passes b) \<le>
      bk_capacity b + bk_rate b * (last (bk_last b # map fst passes) - bk_last b) \<and>
    bucket_ok (snd (bucket_run passes b))"
  using bucket_run_account [OF assms] assms(1) by (auto simp: bucket_ok_def)

definition demo_bucket :: bucket where
  "demo_bucket = \<lparr>bk_rate = 1 / 3, bk_capacity = 1, bk_tokens = 1, bk_last = 0\<rparr>"

theorem bucket_never_exceeds_rate_witness:
  "fst (bucket_run [(0, 1), (1, 1), (3, 1)] demo_bucket) \<le> 2 \<and>
   fst (bucket_run [(0, 1), (1, 1), (3, 1)] demo_bucket) = 2"
  using bucket_never_exceeds_rate [of demo_bucket "[(0, 1), (1, 1), (3, 1)]"]
  by (simp add: demo_bucket_def bucket_ok_def take_chunk_def refill_def Let_def)

section \<open>Acquisition returns\<close>

text \<open>After the sleep it was told, an undisturbed caller gets its chunk.\<close>

lemma wait_suffices:
  assumes ok: "bucket_ok b" and now: "bk_last b \<le> now" and c: "0 \<le> chunk" "chunk \<le> bk_capacity b"
  shows "\<exists>now' b'. wait_chunk 2 now chunk b = Some (now', b') \<and> bucket_ok b' \<and> bk_last b' = now' \<and>
    bk_rate b' = bk_rate b \<and> bk_capacity b' = bk_capacity b \<and> now \<le> now' \<and>
    now' - now \<le> chunk / bk_rate b"
proof (cases "take_chunk now chunk b")
  case (Pair r b1)
  note acc = take_chunk_account [OF ok now c(1)]
  show ?thesis
  proof (cases r)
    case (Inr u)
    then show ?thesis using acc Pair ok c by (auto simp: eval_nat_numeral bucket_ok_def)
  next
    case (Inl w)
    have rate: "0 < bk_rate b" using ok by (simp add: bucket_ok_def)
    have b1: "bucket_ok b1" "bk_last b1 = now" "bk_rate b1 = bk_rate b" "bk_capacity b1 = bk_capacity b"
      using acc Pair by simp_all
    have w: "w = (chunk - bk_tokens b1) / bk_rate b" "bk_tokens b1 < chunk"
      using Pair Inl by (auto simp: take_chunk_def Let_def refill_def split: if_splits)
    then have pos: "0 \<le> w" "w \<le> chunk / bk_rate b"
      using rate b1(1) by (simp_all add: bucket_ok_def divide_right_mono)
    have "bk_tokens b1 + w * bk_rate b = chunk" using w rate by (simp add: field_simps)
    then have "fst (take_chunk (now + w) chunk b1) = Inr ()"
      using b1 c(2) by (simp add: take_chunk_def refill_def Let_def)
    moreover note take_chunk_account [OF b1(1), of "now + w" chunk]
    ultimately show ?thesis using Pair Inl b1 pos c
      by (cases "take_chunk (now + w) chunk b1") (auto simp: eval_nat_numeral)
  qed
qed

lemma acquire_loop_returns:
  assumes "bucket_ok b" and "bk_last b \<le> now" and "0 \<le> m" and "m \<le> of_nat n * bk_capacity b"
  shows "\<exists>now' b'. acquire_loop n m now b = Some (now', b') \<and> bucket_ok b' \<and>
    now \<le> now' \<and> now' - now \<le> m / bk_rate b"
  using assms
proof (induction n arbitrary: m now b)
  case (Suc n)
  show ?case
  proof (cases "0 < m")
    case True
    define c where "c = min m (bk_capacity b)"
    have c: "0 \<le> c" "c \<le> bk_capacity b" "c \<le> m" using Suc.prems(1) True
      by (auto simp: c_def bucket_ok_def)
    obtain t1 b1 where 1: "wait_chunk 2 now c b = Some (t1, b1)" "bucket_ok b1" "bk_last b1 = t1"
      "bk_rate b1 = bk_rate b" "bk_capacity b1 = bk_capacity b" "now \<le> t1" "t1 - now \<le> c / bk_rate b"
      using wait_suffices [OF Suc.prems(1,2) c(1,2)] by blast
    have "m - c \<le> of_nat n * bk_capacity b1"
    proof (cases "m \<le> bk_capacity b")
      case True
      then show ?thesis using Suc.prems(1) 1(5) by (simp add: c_def bucket_ok_def)
    next
      case False
      then show ?thesis using Suc.prems(4) 1(5) by (simp add: c_def algebra_simps)
    qed
    then obtain t2 b2 where 2: "acquire_loop n (m - c) t1 b1 = Some (t2, b2)" "bucket_ok b2" "t1 \<le> t2"
      "t2 - t1 \<le> (m - c) / bk_rate b"
      using Suc.IH [of b1 t1 "m - c"] 1 c(3) by auto
    have "t2 - now \<le> m / bk_rate b"
      using 1(7) 2(4) by (simp add: diff_divide_distrib)
    then show ?thesis using 1 2 True by (simp add: c_def Let_def)
  next
    case False
    then show ?thesis using Suc.prems by (auto simp: bucket_ok_def)
  qed
qed simp

text \<open>
  An undisturbed acquisition always returns, after at most the amount divided by the rate: each
  chunk needs at most two passes, and as many chunks as the amount holds capacities suffice.
\<close>

theorem acquire_returns:
  assumes "bucket_ok b" and "bk_last b \<le> now" and "amount \<le> of_nat n * bk_capacity b"
  shows "\<exists>now' b'. acquire_tokens n amount now b = Some (now', b') \<and> bucket_ok b' \<and>
    now \<le> now' \<and> now' - now \<le> max amount 0 / bk_rate b"
  unfolding acquire_tokens_def
  by (rule acquire_loop_returns) (use assms in \<open>auto simp: bucket_ok_def max_def\<close>)

theorem acquire_returns_witness:
  "\<exists>now' b'. acquire_tokens 3 (5 / 2) 0 demo_bucket = Some (now', b') \<and> bucket_ok b' \<and>
    0 \<le> now' \<and> now' - 0 \<le> max (5 / 2) 0 / bk_rate demo_bucket"
  by (rule acquire_returns) (simp_all add: demo_bucket_def bucket_ok_def)

end
