(* ===== verification/Ingest_Chunk_Facts.thy ===== *)
theory Ingest_Chunk_Facts imports Ingest_Chunking begin

text \<open>
  What chunking guarantees: the windows of \<open>split_text\<close> and when its loop returns, packing, and
  the chunk sets built from papers and doc-models.
\<close>

section \<open>The window loop\<close>

lemma rfind_space_bounds:
  assumes "rfind_space s lo hi = Some i"
  shows "lo \<le> i \<and> i < hi \<and> i < length s \<and> s ! i = CHR '' ''"
proof -
  let ?is = "filter (\<lambda>i. s ! i = CHR '' '') [lo..<min hi (length s)]"
  have "?is \<noteq> [] \<and> i = last ?is"
    using assms unfolding rfind_space_def by (cases ?is) simp_all
  then have "i \<in> set ?is" by (metis last_in_set)
  then show ?thesis by auto
qed

lemma window_end_bounds:
  assumes "0 < mx" and "cursor < length s"
  shows "cursor < window_end s mx cursor \<and> window_end s mx cursor \<le> length s \<and>
    window_end s mx cursor \<le> cursor + mx \<and>
    (window_end s mx cursor = length s \<or> cursor + mx div 2 < window_end s mx cursor)"
proof (cases "cursor + mx < length s")
  case False
  then show ?thesis using assms by (simp add: window_end_def)
next
  case True
  show ?thesis
  proof (cases "rfind_space s cursor (cursor + mx)")
    case None
    then show ?thesis using assms True by (simp add: window_end_def)
  next
    case (Some i)
    then show ?thesis using assms True rfind_space_bounds [OF Some] by (simp add: window_end_def)
  qed
qed

definition windowed :: "string \<Rightarrow> (nat \<times> nat) list \<Rightarrow> string list" where
  "windowed s ws = filter (\<lambda>p. p \<noteq> []) (map (\<lambda>(a, b). py_strip (slice s a b)) ws)"

definition chained :: "nat \<Rightarrow> (nat \<times> nat) list \<Rightarrow> bool" where
  "chained overlap ws = successively (\<lambda>(a, b) (c, d). c = b - overlap \<and> a < c) ws"

lemma split_loop_windows:
  assumes "0 < mx" and "ov \<le> mx div 2" and "cursor < length s"
  shows "\<exists>ws. ws \<noteq> [] \<and> split_loop s mx ov cursor acc = Some (acc @ windowed s ws) \<and>
    fst (hd ws) = cursor \<and> snd (last ws) = length s \<and> chained ov ws \<and>
    (\<forall>(a, b) \<in> set ws. a < b \<and> b \<le> length s \<and> b \<le> a + mx)"
  using assms(3)
proof (induction "length s - cursor" arbitrary: cursor acc rule: less_induct)
  case less
  define e where "e = window_end s mx cursor"
  define acc' where "acc' = (if py_strip (slice s cursor e) \<noteq> [] then acc @ [py_strip (slice s cursor e)] else acc)"
  have e: "cursor < e" "e \<le> length s" "e \<le> cursor + mx" "e = length s \<or> cursor + mx div 2 < e"
    using window_end_bounds [OF assms(1) less.prems] by (simp_all add: e_def)
  have acc': "acc' = acc @ windowed s [(cursor, e)]" by (simp add: acc'_def windowed_def)
  have un: "split_loop s mx ov cursor acc =
      (if e = length s then Some acc' else split_loop s mx ov (e - ov) acc')"
    using less.prems by (subst split_loop.simps) (simp add: e_def acc'_def Let_def)
  show ?case
  proof (cases "e = length s")
    case True
    then show ?thesis using un acc' e less.prems
      by (intro exI [of _ "[(cursor, e)]"]) (simp add: chained_def)
  next
    case False
    then have c: "cursor < e - ov" "e - ov < length s" using e assms(2) by auto
    then have "length s - (e - ov) < length s - cursor" using less.prems by linarith
    note ih = less.hyps [OF this c(2), of acc']
    obtain ws where ws: "ws \<noteq> []" "split_loop s mx ov (e - ov) acc' = Some (acc' @ windowed s ws)"
      "fst (hd ws) = e - ov" "snd (last ws) = length s" "chained ov ws"
      "\<forall>(a, b) \<in> set ws. a < b \<and> b \<le> length s \<and> b \<le> a + mx"
      using ih by blast
    have "chained ov ((cursor, e) # ws)"
      using ws c by (cases ws) (auto simp: chained_def)
    moreover have "acc' @ windowed s ws = acc @ windowed s ((cursor, e) # ws)"
      by (simp add: acc' windowed_def)
    ultimately show ?thesis using un False ws e
      by (intro exI [of _ "(cursor, e) # ws"]) auto
  qed
qed

lemma chained_cover:
  assumes "chained ov ws" and "ws \<noteq> []" and "fst (hd ws) \<le> i" and "i < snd (last ws)"
    and "\<forall>(a, b) \<in> set ws. a < b"
  shows "\<exists>(a, b) \<in> set ws. a \<le> i \<and> i < b"
  using assms
proof (induction ws)
  case (Cons w ws)
  obtain a b where w: "w = (a, b)" by (cases w)
  show ?case
  proof (cases "i < b \<or> ws = []")
    case True
    then show ?thesis using Cons.prems w by auto
  next
    case False
    then have "fst (hd ws) \<le> i" "chained ov ws" using Cons.prems(1) w
      by (cases ws; auto simp: chained_def)+
    then show ?thesis using Cons False w by auto
  qed
qed simp

lemma length_py_strip: "length (py_strip s) \<le> length s"
proof -
  obtain a c where "s = a @ py_strip s @ c" using py_strip_infix by blast
  then have "length s = length a + length (py_strip s) + length c" by (metis add.assoc length_append)
  then show ?thesis by simp
qed

lemma windowed_bounds:
  assumes "\<forall>(a, b) \<in> set ws. a < b \<and> b \<le> length s \<and> b \<le> a + mx" and "p \<in> set (windowed s ws)"
  shows "p \<noteq> [] \<and> length p \<le> mx"
proof -
  obtain a b where ab: "(a, b) \<in> set ws" "p = py_strip (slice s a b)" "p \<noteq> []"
    using assms(2) by (auto simp: windowed_def)
  have "length (slice s a b) \<le> mx" using assms(1) ab(1) by (fastforce simp: slice_def)
  then show ?thesis using ab(2,3) length_py_strip [of "slice s a b"] by simp
qed

lemma split_text_windows:
  assumes "0 < mx" and "0 \<le> ov" and "2 * ov \<le> mx"
  shows "\<exists>parts ws. split_text s mx ov = Some (Inr parts) \<and> parts = windowed (normalize_text s) ws \<and>
    chained (nat ov) ws \<and>
    (\<forall>i < length (normalize_text s). \<exists>(a, b) \<in> set ws. a \<le> i \<and> i < b) \<and>
    (\<forall>p \<in> set parts. p \<noteq> [] \<and> int (length p) \<le> mx)"
proof -
  define n where "n = normalize_text s"
  have ov: "\<not> (ov < 0 \<or> mx \<le> ov)" "nat ov \<le> nat mx div 2" "0 < nat mx" using assms by auto
  consider "n = []" | "n \<noteq> []" "int (length n) \<le> mx" | "mx < int (length n)" by linarith
  then show ?thesis
  proof cases
    case 1
    then show ?thesis unfolding n_def
      by (intro exI [of _ "[]"]) (simp add: split_text_def windowed_def chained_def)
  next
    case 2
    have "py_strip n = n" unfolding n_def normalize_text_def
      using ws_normal_strip_collapse [of s] py_strip_id unfolding ws_normal_def by blast
    then have w: "windowed n [(0, length n)] = [n]" using 2 by (simp add: windowed_def slice_def)
    show ?thesis using 2 assms ov w unfolding n_def [symmetric]
      by (intro exI [of _ "[n]"] exI [of _ "[(0, length n)]"])
         (simp add: split_text_def n_def [symmetric] chained_def)
  next
    case 3
    then have "0 < length n" using assms by linarith
    from split_loop_windows [OF ov(3,2) this, of "[]"]
    obtain ws where ws: "ws \<noteq> []" "split_loop n (nat mx) (nat ov) 0 [] = Some (windowed n ws)"
      "fst (hd ws) = 0" "snd (last ws) = length n" "chained (nat ov) ws"
      "\<forall>(a, b) \<in> set ws. a < b \<and> b \<le> length n \<and> b \<le> a + nat mx" by auto
    have res: "split_text s mx ov = Some (Inr (windowed n ws))"
      using 3 assms ov(1) ws(2) by (auto simp: split_text_def n_def [symmetric] Let_def)
    have "\<forall>i < length n. \<exists>(a, b) \<in> set ws. a \<le> i \<and> i < b"
      using chained_cover [OF ws(5,1)] ws(3,4,6) by fastforce
    moreover have "\<forall>p \<in> set (windowed n ws). p \<noteq> [] \<and> int (length p) \<le> mx"
      using windowed_bounds [OF ws(6)] assms(1) by fastforce
    ultimately show ?thesis using res ws(5) unfolding n_def by blast
  qed
qed

text \<open>
  C25. With an overlap of at most half the chunk size, splitting a text always returns: the parts are
  the non-blank windows of the normalized text, every character of it lies in one of the windows,
  consecutive windows overlap by exactly the configured amount, and no part is empty or longer than
  the limit.
\<close>

theorem split_text_covers:
  assumes "0 < mx" and "0 \<le> ov" and "2 * ov \<le> mx"
  shows "\<exists>parts ws. split_text s mx ov = Some (Inr parts) \<and> parts = windowed (normalize_text s) ws \<and>
    chained (nat ov) ws \<and>
    (\<forall>i < length (normalize_text s). \<exists>(a, b) \<in> set ws. a \<le> i \<and> i < b) \<and>
    (\<forall>p \<in> set parts. p \<noteq> [] \<and> int (length p) \<le> mx)"
  by (rule split_text_windows [OF assms])

theorem split_text_covers_witness:
  "\<exists>parts ws. split_text ''aaa bbb ccc'' 6 2 = Some (Inr parts) \<and>
    parts = windowed (normalize_text ''aaa bbb ccc'') ws \<and> chained (nat 2) ws \<and>
    (\<forall>i < length (normalize_text ''aaa bbb ccc''). \<exists>(a, b) \<in> set ws. a \<le> i \<and> i < b) \<and>
    (\<forall>p \<in> set parts. p \<noteq> [] \<and> int (length p) \<le> 6)"
  by (rule split_text_covers) simp_all

section \<open>The loop that does not end\<close>

definition hang_text :: "nat \<Rightarrow> nat \<Rightarrow> string" where
  "hang_text mx ov = replicate ov CHR ''a'' @ CHR '' '' # replicate mx CHR ''b''"

lemma hang_text_normal: "0 < ov \<Longrightarrow> 0 < mx \<Longrightarrow> normalize_text (hang_text mx ov) = hang_text mx ov"
proof -
  assume o: "0 < ov" "0 < mx"
  have ns: "\<not> py_isspace CHR ''a''" "\<not> py_isspace CHR ''b''" by (simp_all add: py_isspace_def)
  have rep: "successively (\<lambda>x y. \<not> (py_isspace x \<and> py_isspace y)) (replicate n c)" if "\<not> py_isspace c" for n c
    using that by (induction n) (auto simp: successively_Cons)
  obtain k where k: "mx = Suc k" using o gr0_conv_Suc by auto
  have "ws_normal (hang_text mx ov)"
    unfolding ws_normal_def
  proof (intro conjI)
    show "hang_text mx ov = [] \<or> \<not> py_isspace (hd (hang_text mx ov)) \<and> \<not> py_isspace (last (hang_text mx ov))"
      using o ns by (auto simp: hang_text_def hd_append)
    show "\<forall>c \<in> set (hang_text mx ov). py_isspace c \<longrightarrow> c = CHR '' ''"
      using ns by (auto simp: hang_text_def)
    show "successively (\<lambda>x y. \<not> (py_isspace x \<and> py_isspace y)) (hang_text mx ov)"
      using o ns rep [of "CHR ''a''"] rep [of "CHR ''b''"]
      by (auto simp: hang_text_def successively_append_iff successively_Cons k)
  qed
  then show ?thesis by (simp add: normalize_text_def ws_normal_fixed)
qed

lemma hang_window:
  assumes "mx div 2 < ov" and "ov < mx"
  shows "window_end (hang_text mx ov) mx 0 = ov"
proof -
  have len: "length (hang_text mx ov) = ov + 1 + mx" by (simp add: hang_text_def)
  have at: "hang_text mx ov ! i = CHR '' '' \<longleftrightarrow> i = ov" if "i < mx" for i
    using that assms by (auto simp: hang_text_def nth_append nth_Cons split: nat.split)
  have "filter (\<lambda>i. hang_text mx ov ! i = CHR '' '') [0..<mx] = filter (\<lambda>i. i = ov) [0..<mx]"
    using at by (intro filter_cong) auto
  also have "\<dots> = [ov]"
  proof -
    have "[0..<mx] = [0..<ov] @ ov # [Suc ov..<mx]"
      using assms(2) by (metis le0 less_imp_le_nat upt_add_eq_append upt_conv_Cons le_add_diff_inverse)
    then show ?thesis by (simp add: filter_empty_conv)
  qed
  finally have "rfind_space (hang_text mx ov) 0 mx = Some ov"
    using assms by (simp add: rfind_space_def len)
  then show ?thesis using assms by (simp add: window_end_def len)
qed

lemma hang_loop:
  assumes "mx div 2 < ov" and "ov < mx"
  shows "split_loop (hang_text mx ov) mx ov 0 acc = None"
proof -
  let ?t = "hang_text mx ov"
  have step: "\<not> (s = ?t \<and> m = mx \<and> v = ov \<and> c = 0)" if "split_loop s m v c a = Some y" for s m v c a y
    using that
  proof (rule split_loop.raw_induct [where P = "\<lambda>s m v c a y. \<not> (s = ?t \<and> m = mx \<and> v = ov \<and> c = 0)", rotated])
    fix f :: "string \<Rightarrow> nat \<Rightarrow> nat \<Rightarrow> nat \<Rightarrow> string list \<Rightarrow> string list option"
    fix s m v c a y
    assume ih: "\<And>s m v c a y. f s m v c a = Some y \<Longrightarrow> \<not> (s = ?t \<and> m = mx \<and> v = ov \<and> c = 0)"
      and body: "(if c < length s then
          let e = window_end s m c; chunk = py_strip (slice s c e);
              chunks' = (if chunk \<noteq> [] then a @ [chunk] else a)
          in if e = length s then Some chunks' else f s m v (e - v) chunks'
        else Some a) = Some y"
    show "\<not> (s = ?t \<and> m = mx \<and> v = ov \<and> c = 0)"
    proof
      assume eq: "s = ?t \<and> m = mx \<and> v = ov \<and> c = 0"
      have "window_end ?t mx 0 = ov" "length ?t = ov + 1 + mx"
        using hang_window [OF assms] by (simp_all add: hang_text_def)
      with body eq obtain chunks where "f ?t mx ov 0 chunks = Some y"
        by (auto simp: Let_def)
      from ih [OF this] show False by simp
    qed
  qed
  show ?thesis using step [of ?t mx ov 0 acc] by (cases "split_loop ?t mx ov 0 acc") auto
qed

text \<open>
  For every overlap above half the chunk size, although the argument check admits it, there is a
  text on which \<open>split_text\<close> never returns: a word as long as the overlap, a space and a longer word.
  The settings read the two sizes from the environment independently.
\<close>

theorem split_text_can_hang:
  assumes "0 < mx" and "mx div 2 < ov" and "ov < mx"
  shows "split_text (hang_text (nat mx) (nat ov)) mx ov = None"
proof -
  have n: "nat mx div 2 < nat ov" "nat ov < nat mx" "0 < nat ov" "0 < nat mx"
    using assms by (auto simp: nat_less_iff zdiv_int nat_div_distrib)
  have t: "normalize_text (hang_text (nat mx) (nat ov)) = hang_text (nat mx) (nat ov)"
    using hang_text_normal n by blast
  have "hang_text (nat mx) (nat ov) \<noteq> []" "mx < int (length (hang_text (nat mx) (nat ov)))"
    using assms by (simp_all add: hang_text_def)
  then show ?thesis
    using assms hang_loop [OF n(1,2), of "[]"] by (auto simp: split_text_def t Let_def)
qed

text \<open>The default overlap of 240 with the chunk size lowered to 400.\<close>

theorem split_text_can_hang_witness: "split_text (hang_text (nat 400) (nat 240)) 400 240 = None"
  by (rule split_text_can_hang) simp_all

end
