(* ===== verification/Ingest_Chunk_Sets.thy ===== *)
theory Ingest_Chunk_Sets imports Ingest_Chunk_Facts begin

text \<open>
  What \<open>Chunker\<close> makes of the parts: packing merges consecutive blocks of one section and loses
  neither text nor references; a chunk set of a paper or of a doc-model holds exactly the first parts
  up to the cap, and its truncation flag says whether a part was left out.
\<close>

section \<open>Packing\<close>

definition merge_entries :: "entry list \<Rightarrow> entry" where
  "merge_entries g =
     (fst (hd g), fst (snd (hd g)), join '' '' (map (\<lambda>e. fst (snd (snd e))) g),
      concat (map (\<lambda>e. snd (snd (snd e))) g))"

definition one_section :: "entry list \<Rightarrow> bool" where
  "one_section g \<longleftrightarrow> g \<noteq> [] \<and> (\<forall>e \<in> set g. fst e = fst (hd g))"

lemma join_snoc: "xs \<noteq> [] \<Longrightarrow> join sep (xs @ [x]) = join sep xs @ sep @ x"
  by (cases xs) (simp_all add: join_def)

lemma merge_single [simp]: "merge_entries [e] = e"
  by (cases e) (simp add: merge_entries_def join_def)

lemma merge_snoc:
  "g \<noteq> [] \<Longrightarrow> merge_entries (g @ [(sid, label, tx, refs)]) =
     (case merge_entries g of (s, l, t, r) \<Rightarrow> (s, l, t @ '' '' @ tx, r @ refs))"
  by (simp add: merge_entries_def join_snoc)

definition group_ok :: "chunker \<Rightarrow> entry list \<Rightarrow> bool" where
  "group_ok cfg g \<longleftrightarrow> one_section g \<and>
     (length g = 1 \<or> int (length (fst (snd (snd (merge_entries g))))) \<le> chunk_pack_chars cfg)"

lemma group_single: "group_ok cfg [e]"
  by (simp add: group_ok_def one_section_def)

lemma group_snoc:
  assumes "group_ok cfg g" and "merge_entries g = (sid, l, t, r)"
    and "int (length t + 1 + length tx) \<le> chunk_pack_chars cfg"
  shows "group_ok cfg (g @ [(sid, lab, tx, refs)])"
    and "merge_entries (g @ [(sid, lab, tx, refs)]) = (sid, l, t @ '' '' @ tx, r @ refs)"
proof -
  have g: "one_section g" "g \<noteq> []" using assms(1) unfolding group_ok_def one_section_def by blast+
  have sid: "fst (hd g) = sid" using assms(2) by (simp add: merge_entries_def)
  show m: "merge_entries (g @ [(sid, lab, tx, refs)]) = (sid, l, t @ '' '' @ tx, r @ refs)"
    by (simp add: merge_snoc g(2) assms(2))
  have "one_section (g @ [(sid, lab, tx, refs)])"
    using g unfolding one_section_def hd_append2 [OF g(2)] sid set_append by auto
  then show "group_ok cfg (g @ [(sid, lab, tx, refs)])"
    using assms(3) unfolding group_ok_def m by simp
qed

lemma pack_step_groups:
  assumes "\<forall>g \<in> set gs. group_ok cfg g"
  shows "\<exists>gs'. concat gs' = concat gs @ [e] \<and> (\<forall>g \<in> set gs'. group_ok cfg g) \<and>
    pack_step cfg (map merge_entries gs) e = map merge_entries gs'"
proof -
  obtain sid lab tx refs where e: "e = (sid, lab, tx, refs)" by (cases e)
  have fresh: "concat (gs @ [[e]]) = concat gs @ [e] \<and> (\<forall>g \<in> set (gs @ [[e]]). group_ok cfg g)"
    using assms group_single by simp
  show ?thesis
  proof (cases gs rule: rev_cases)
    case Nil
    have "pack_step cfg (map merge_entries gs) e = map merge_entries (gs @ [[e]])"
      by (simp add: Nil pack_step_def e)
    then show ?thesis using fresh by blast
  next
    case (snoc hs g)
    obtain s l t r where m: "merge_entries g = (s, l, t, r)" by (cases "merge_entries g")
    show ?thesis
    proof (cases "s = sid \<and> int (length t + 1 + length tx) \<le> chunk_pack_chars cfg")
      case True
      then have m': "merge_entries g = (sid, l, t, r)" using m by simp
      have ok: "group_ok cfg g" using assms snoc by simp
      note grown = group_snoc [OF ok m' conjunct2 [OF True], of lab refs]
      have "pack_step cfg (map merge_entries gs) e = map merge_entries (hs @ [g @ [e]])"
        using True by (simp add: pack_step_def snoc m e grown(2))
      moreover have "concat (hs @ [g @ [e]]) = concat gs @ [e]" by (simp add: snoc)
      moreover have "\<forall>g \<in> set (hs @ [g @ [e]]). group_ok cfg g"
        using assms grown(1) by (simp add: snoc e)
      ultimately show ?thesis by blast
    next
      case False
      then have "pack_step cfg (map merge_entries gs) e = map merge_entries (gs @ [[e]])"
        by (simp add: pack_step_def snoc m e)
      then show ?thesis using fresh by blast
    qed
  qed
qed

text \<open>
  Packing loses nothing and crosses no section: the packed entries are exactly the merges of
  consecutive groups of the entries, each group from one section, and a group of more than one entry
  fits the packing target; a merge keeps the texts and every block reference, in order.
\<close>

theorem pack_groups:
  "\<exists>gs. concat gs = es \<and> pack cfg es = map merge_entries gs \<and> (\<forall>g \<in> set gs. group_ok cfg g)"
proof -
  have "\<exists>gs'. concat gs' = concat gs @ es \<and> (\<forall>g \<in> set gs'. group_ok cfg g) \<and>
      foldl (pack_step cfg) (map merge_entries gs) es = map merge_entries gs'"
    if "\<forall>g \<in> set gs. group_ok cfg g" for gs
    using that
  proof (induction es arbitrary: gs)
    case Nil
    then show ?case by auto
  next
    case (Cons e es)
    obtain gs' where gs': "concat gs' = concat gs @ [e]" "\<forall>g \<in> set gs'. group_ok cfg g"
      "pack_step cfg (map merge_entries gs) e = map merge_entries gs'"
      using pack_step_groups [OF Cons.prems] by blast
    show ?case using Cons.IH [OF gs'(2)] gs'(1,3) by simp
  qed
  from this [of "[]"] show ?thesis by (simp add: pack_def) metis
qed

section \<open>Chunk sets\<close>

type_synonym part = "string \<times> string \<times> chunk_block_ref list"

definition chunk_of :: "string \<Rightarrow> nat \<Rightarrow> part \<Rightarrow> chunk" where
  "chunk_of paper i p = (case p of (sec, tx, refs) \<Rightarrow>
     \<lparr>ck_paper = paper, ck_ordinal = i, ck_section = sec, ck_text = tx,
      ck_id = paper @ ''#'' @ py_int_str (int i), ck_refs = refs\<rparr>)"

definition number_from :: "string \<Rightarrow> nat \<Rightarrow> part list \<Rightarrow> chunk list" where
  "number_from paper n ps = map (\<lambda>(i, p). chunk_of paper i p) (enumerate n ps)"

definition split_parts :: "chunker \<Rightarrow> part \<Rightarrow> part list" where
  "split_parts cfg p = (case p of (sec, tx, refs) \<Rightarrow>
     (case split_text tx (max_chunk_chars cfg) (overlap_chars cfg) of
        Some (Inr parts) \<Rightarrow> map (\<lambda>t. (sec, t, refs)) parts
      | _ \<Rightarrow> []))"

definition all_parts :: "chunker \<Rightarrow> part list \<Rightarrow> part list" where
  "all_parts cfg ps = concat (map (split_parts cfg) ps)"

definition cap :: "chunker \<Rightarrow> nat" where
  "cap cfg = nat (max_chunks_per_paper cfg)"

definition good_paper :: "string \<Rightarrow> bool" where
  "good_paper paper \<longleftrightarrow> paper \<noteq> [] \<and> CHR ''#'' \<notin> set paper"

definition good_sizes :: "chunker \<Rightarrow> bool" where
  "good_sizes cfg \<longleftrightarrow> 0 < max_chunk_chars cfg \<and> 0 \<le> overlap_chars cfg \<and>
     2 * overlap_chars cfg \<le> max_chunk_chars cfg"

lemma split_returns:
  assumes "good_sizes cfg"
  shows "\<exists>parts. split_text tx (max_chunk_chars cfg) (overlap_chars cfg) = Some (Inr parts)"
  using assms split_text_windows unfolding good_sizes_def by metis


lemma fill_parts_numbered:
  assumes "good_paper paper" and "length chunks \<le> cap cfg"
  shows "fill_parts cfg paper sec refs parts chunks =
    Inr (chunks @ number_from paper (length chunks) (take (cap cfg - length chunks) (map (\<lambda>t. (sec, t, refs)) parts)),
         cap cfg < length chunks + length parts)"
  using assms(2)
proof (induction parts arbitrary: chunks)
  case Nil
  then show ?case by (simp add: number_from_def)
next
  case (Cons part parts)
  show ?case
  proof (cases "length chunks = cap cfg")
    case True
    then show ?thesis by (simp add: cap_def number_from_def)
  next
    case False
    then have lt: "length chunks < cap cfg" using Cons.prems by simp
    then have room: "\<not> int (length chunks) \<ge> max_chunks_per_paper cfg" by (simp add: cap_def)
    have cid: "chunk_id paper (int (length chunks)) = Inr (paper @ ''#'' @ py_int_str (int (length chunks)))"
      using assms(1) by (simp add: chunk_id_def good_paper_def)
    obtain d where d: "cap cfg - length chunks = Suc d" using lt by (metis Suc_diff_Suc)
    then have "cap cfg - Suc (length chunks) = d" by simp
    then show ?thesis using lt room cid Cons.IH [of "chunks @ [chunk_of paper (length chunks) (sec, part, refs)]"]
      by (simp add: d number_from_def chunk_of_def)
  qed
qed

lemma fill_numbered:
  assumes "good_paper paper" and "good_sizes cfg" and "length chunks \<le> cap cfg"
  shows "fill cfg paper sec tx refs chunks =
    Some (Inr (chunks @ number_from paper (length chunks)
                 (take (cap cfg - length chunks) (split_parts cfg (sec, tx, refs))),
               cap cfg < length chunks + length (split_parts cfg (sec, tx, refs))))"
  using split_returns [OF assms(2), of tx] fill_parts_numbered [OF assms(1,3)]
  by (auto simp: fill_def split_parts_def)

lemma length_number_from [simp]: "length (number_from paper n ps) = length ps"
  by (simp add: number_from_def)

lemma number_from_Nil [simp]: "number_from paper n ps = [] \<longleftrightarrow> ps = []"
  by (metis length_0_conv length_number_from)

lemma number_from_empty [simp]: "number_from paper n [] = []"
  by (simp add: number_from_def)

lemma number_from_append:
  "number_from paper n (ps @ qs) = number_from paper n ps @ number_from paper (n + length ps) qs"
  by (simp add: number_from_def enumerate_append_eq)

lemma fill_all_numbered:
  assumes "good_paper paper" and "good_sizes cfg" and "length chunks \<le> cap cfg"
  shows "fill_all cfg paper ps chunks =
    Some (Inr (chunks @ number_from paper (length chunks) (take (cap cfg - length chunks) (all_parts cfg ps)),
               cap cfg < length chunks + length (all_parts cfg ps)))"
  using assms(3)
proof (induction ps arbitrary: chunks)
  case Nil
  then show ?case by (simp add: all_parts_def number_from_def)
next
  case (Cons p ps)
  obtain sec tx refs where p: "p = (sec, tx, refs)" by (cases p) auto
  define here where "here = split_parts cfg (sec, tx, refs)"
  have all: "all_parts cfg (p # ps) = here @ all_parts cfg ps" by (simp add: all_parts_def here_def p)
  show ?case
  proof (cases "cap cfg < length chunks + length here")
    case True
    then show ?thesis
      using fill_numbered [OF assms(1,2) Cons.prems, of sec tx refs] Cons.prems
      by (simp add: p all [unfolded p] here_def [symmetric])
  next
    case False
    define chunks' where "chunks' = chunks @ number_from paper (length chunks) here"
    have len: "length chunks' = length chunks + length here" by (simp add: chunks'_def)
    have "fill cfg paper sec tx refs chunks = Some (Inr (chunks', False))"
      using fill_numbered [OF assms(1,2) Cons.prems, of sec tx refs] False Cons.prems
      by (simp add: here_def [symmetric] chunks'_def)
    moreover have "length chunks' \<le> cap cfg" using False len by simp
    from Cons.IH [OF this] have "fill_all cfg paper ps chunks' =
      Some (Inr (chunks' @ number_from paper (length chunks') (take (cap cfg - length chunks') (all_parts cfg ps)),
               cap cfg < length chunks' + length (all_parts cfg ps)))" .
    ultimately show ?thesis using False
      by (simp add: p all [unfolded p] len) (simp add: chunks'_def number_from_append diff_diff_add add.assoc)
  qed
qed

lemma number_ordinals: "map ck_ordinal (number_from paper n ps) = [n..<n + length ps]"
  proof (induction ps arbitrary: n)
  case Nil
  then show ?case by (simp add: number_from_def)
next
  case (Cons p ps)
  have "number_from paper n (p # ps) = chunk_of paper n p # number_from paper (Suc n) ps"
    by (simp add: number_from_def)
  moreover have "ck_ordinal (chunk_of paper n p) = n" by (simp add: chunk_of_def split: prod.split)
  moreover have "[n..<n + length (p # ps)] = n # [Suc n..<Suc n + length ps]" by (simp add: upt_conv_Cons del: upt_Suc)
  ultimately show ?case using Cons.IH [of "Suc n"] by simp
qed

lemma mk_numbered:
  "ps \<noteq> [] \<Longrightarrow> mk_chunk_set paper v (number_from paper 0 ps) tr =
     Inr \<lparr>cs_paper = paper, cs_version = v, cs_chunks = number_from paper 0 ps, cs_truncated = tr\<rparr>"
  using number_ordinals [of paper 0 ps]
  by (simp add: mk_chunk_set_def)

definition paper_parts :: "chunker \<Rightarrow> string \<Rightarrow> string \<Rightarrow> part list" where
  "paper_parts cfg abstract full_text =
     all_parts cfg (map (\<lambda>(sec, tx). (sec, tx, [])) ((''abstract'', abstract) # split_sections full_text))"

text \<open>
  C28. Chunking a paper: with usable sizes and a usable id it always returns; the chunk set holds
  exactly the first parts of the abstract and the sections, in order and up to the cap, numbered from
  zero and identified by paper and number, and it is marked truncated exactly when a part was left
  out, so a paper that just fills the cap is not.
\<close>

theorem chunk_paper_complete:
  assumes "good_paper paper" and "good_sizes cfg"
  shows "chunk_paper cfg paper v abstract full_text =
    Some (let parts = paper_parts cfg abstract full_text; kept = take (cap cfg) parts
          in if kept = [] then Inl (no_chunks ''paper produced no chunks'')
             else Inr \<lparr>cs_paper = paper, cs_version = v, cs_chunks = number_from paper 0 kept,
                        cs_truncated = cap cfg < length parts\<rparr>)"
proof -
  let ?es = "map (\<lambda>(sec, tx). (sec, tx, [])) ((''abstract'', abstract) # split_sections full_text)"
  have "fill_all cfg paper ?es [] =
      Some (Inr (number_from paper 0 (take (cap cfg) (paper_parts cfg abstract full_text)),
                 cap cfg < length (paper_parts cfg abstract full_text)))"
    using fill_all_numbered [OF assms, of "[]" ?es] by (simp only: paper_parts_def) simp
  then have "chunk_paper cfg paper v abstract full_text =
    (let kept = take (cap cfg) (paper_parts cfg abstract full_text) in
     Some (if number_from paper 0 kept = [] then Inl (no_chunks ''paper produced no chunks'')
           else mk_chunk_set paper v (number_from paper 0 kept) (cap cfg < length (paper_parts cfg abstract full_text))))"
    by (simp only: chunk_paper_def Let_def option.case sum.case prod.case)
  then show ?thesis unfolding number_from_Nil Let_def by (simp add: mk_numbered)
qed

theorem chunk_paper_complete_witness:
  "\<exists>cs. chunk_paper (default_chunker\<lparr>max_chunks_per_paper := 1\<rparr>) ''p1'' 1 ''abs'' ''body'' = Some (Inr cs) \<and>
     cs_truncated cs \<and> map ck_id (cs_chunks cs) = [''p1#0'']"
proof -
  let ?cfg = "default_chunker\<lparr>max_chunks_per_paper := 1\<rparr>"
  have g: "good_paper ''p1''" "good_sizes ?cfg" by (simp_all add: good_paper_def good_sizes_def default_chunker_def)
  define parts where "parts = paper_parts ?cfg ''abs'' ''body''"
  have ids: "map ck_id (number_from ''p1'' 0 (take (cap ?cfg) parts)) = [''p1#0'']" "cap ?cfg < length parts"
    unfolding parts_def by code_simp+
  have "take (cap ?cfg) parts \<noteq> []"
  proof
    assume "take (cap ?cfg) parts = []"
    with ids(1) show False by (simp only: number_from_def enumerate_simps list.map) simp
  qed
  then show ?thesis using chunk_paper_complete [OF g, of 1 "''abs''" "''body''"] ids
    unfolding parts_def [symmetric] Let_def by simp
qed

section \<open>Doc-models\<close>

definition known_refs :: "(string \<times> string \<times> string) list \<Rightarrow> chunk_block_ref list \<Rightarrow> bool" where
  "known_refs known refs \<longleftrightarrow> (\<forall>r \<in> set refs. ref_key r \<in> set known)"

definition walk_ok :: "walk_state \<Rightarrow> bool" where
  "walk_ok st \<longleftrightarrow> known_refs (ws_blocks st) (ws_fallback st) \<and>
     (\<forall>(sid, lab, tx, refs) \<in> set (ws_entries st). known_refs (ws_blocks st) refs)"

lemma walk_block_ok: "walk_ok st \<Longrightarrow> walk_ok (walk_block sid lab st b)"
  by (auto simp: walk_ok_def walk_block_def known_refs_def ref_key_def Let_def)

lemma foldl_inv: "P a \<Longrightarrow> (\<And>x y. P x \<Longrightarrow> y \<in> set ys \<Longrightarrow> P (f x y)) \<Longrightarrow> P (foldl f a ys)"
  by (induction ys arbitrary: a) auto

lemma walk_section_ok: "walk_ok st \<Longrightarrow> walk_ok (walk sec st)"
proof (induction sec st rule: walk.induct)
  case (1 sid title blocks subs st)
  show ?case unfolding walk.simps
    by (rule foldl_inv [where P = walk_ok], rule foldl_inv [where P = walk_ok])
       (use 1 walk_block_ok in auto)
qed

definition doc_walk :: "doc_model \<Rightarrow> walk_state" where
  "doc_walk doc = foldl (\<lambda>st sub. walk sub st) \<lparr>ws_blocks = [], ws_entries = [], ws_fallback = []\<rparr>
     (dm_sections doc)"

lemma doc_walk_ok: "walk_ok (doc_walk doc)"
  unfolding doc_walk_def
  by (rule foldl_inv [where P = walk_ok]) (auto simp: walk_section_ok, simp add: walk_ok_def known_refs_def)

definition doc_entries :: "chunker \<Rightarrow> doc_model \<Rightarrow> part list" where
  "doc_entries cfg doc =
     map (\<lambda>(_, sec, tx, refs). (if sec \<noteq> [] then sec else ''body'', tx, refs)) (pack cfg (ws_entries (doc_walk doc)))"

definition refs_known :: "doc_model \<Rightarrow> part list \<Rightarrow> bool" where
  "refs_known doc ps \<longleftrightarrow> (\<forall>(sec, tx, refs) \<in> set ps. known_refs (ws_blocks (doc_walk doc)) refs)"

lemma doc_entries_known: "refs_known doc (doc_entries cfg doc)"
proof -
  obtain gs where gs: "concat gs = ws_entries (doc_walk doc)"
    "pack cfg (ws_entries (doc_walk doc)) = map merge_entries gs"
    using pack_groups by blast
  have "known_refs (ws_blocks (doc_walk doc)) (snd (snd (snd (merge_entries g))))" if "g \<in> set gs" for g
  proof -
    have "set g \<subseteq> set (ws_entries (doc_walk doc))" using that gs(1) by (metis UN_upper set_concat)
    then show ?thesis using doc_walk_ok [of doc]
      by (fastforce simp: walk_ok_def merge_entries_def known_refs_def)
  qed
  then show ?thesis by (simp add: refs_known_def doc_entries_def gs(2) split_beta)
qed

lemma split_parts_known: "refs_known doc [p] \<Longrightarrow> refs_known doc (split_parts cfg p)"
  by (auto simp: refs_known_def split_parts_def split: prod.splits option.splits sum.splits)

lemma all_parts_known: "refs_known doc ps \<Longrightarrow> refs_known doc (all_parts cfg ps)"
  using split_parts_known [of doc _ cfg] by (fastforce simp: all_parts_def refs_known_def)

lemma number_refs: "map ck_refs (number_from paper n ps) = map (\<lambda>p. snd (snd p)) ps"
  by (induction ps arbitrary: n) (simp_all add: number_from_def chunk_of_def split_beta)

lemma finish_numbered:
  assumes "refs_known doc ps"
  shows "finish_doc_model doc (ws_blocks (doc_walk doc)) (number_from (dm_paper doc) 0 (take n ps), tr) =
    (if take n ps = [] then Inl (no_chunks ''doc-model produced no chunks'')
     else Inr \<lparr>cs_paper = dm_paper doc, cs_version = dm_version doc,
               cs_chunks = number_from (dm_paper doc) 0 (take n ps), cs_truncated = tr\<rparr>)"
proof -
  have "\<forall>p \<in> set (take n ps). known_refs (ws_blocks (doc_walk doc)) (snd (snd p))"
    using assms by (auto simp: refs_known_def dest!: in_set_takeD)
  then have "list_all (\<lambda>c. list_all (\<lambda>ref. ref_key ref \<in> set (ws_blocks (doc_walk doc))) (ck_refs c))
      (number_from (dm_paper doc) 0 (take n ps))"
    using number_refs [of "dm_paper doc" 0 "take n ps"]
    by (simp add: list_all_iff known_refs_def) (metis (no_types, lifting) imageE image_eqI list.set_map)
  then show ?thesis by (simp add: finish_doc_model_def mk_numbered)
qed

text \<open>The parts a doc-model is chunked into: those of its packed blocks, or of its plain text.\<close>

definition doc_parts :: "chunker \<Rightarrow> doc_model \<Rightarrow> part list" where
  "doc_parts cfg doc =
     (let parts = all_parts cfg (doc_entries cfg doc); fb = ws_fallback (doc_walk doc)
      in if take (cap cfg) parts = [] \<and> dm_full_text doc \<noteq> [] \<and> fb \<noteq> []
         then split_parts cfg (''body'', dm_full_text doc, fb) else parts)"

text \<open>
  Chunking a doc-model: with usable sizes and a usable id it always returns, never refers to a
  block the document does not have, and fails only when there is nothing to chunk; otherwise the
  chunk set holds the first parts of the packed blocks up to the cap, in document order, with the
  references of every block a part was packed from, and it is marked truncated exactly when a part
  was left out.
\<close>

theorem chunk_doc_model_complete:
  assumes "good_paper (dm_paper doc)" and "good_sizes cfg"
  shows "chunk_doc_model cfg doc =
    Some (let parts = doc_parts cfg doc; kept = take (cap cfg) parts
          in if kept = [] then Inl (no_chunks ''doc-model produced no chunks'')
             else Inr \<lparr>cs_paper = dm_paper doc, cs_version = dm_version doc,
                        cs_chunks = number_from (dm_paper doc) 0 kept, cs_truncated = cap cfg < length parts\<rparr>) \<and>
    refs_known doc (doc_parts cfg doc)"
proof -
  define parts where "parts = all_parts cfg (doc_entries cfg doc)"
  define fb where "fb = ws_fallback (doc_walk doc)"
  define body where "body = split_parts cfg (''body'', dm_full_text doc, fb)"
  have known: "refs_known doc parts" unfolding parts_def by (intro all_parts_known doc_entries_known)
  have kbody: "refs_known doc body"
    using doc_walk_ok [of doc] split_parts_known [of doc "(''body'', dm_full_text doc, fb)"]
    by (simp add: refs_known_def walk_ok_def body_def fb_def)
  have all: "fill_all cfg (dm_paper doc) (doc_entries cfg doc) [] =
      Some (Inr (number_from (dm_paper doc) 0 (take (cap cfg) parts), cap cfg < length parts))"
    using fill_all_numbered [OF assms, of "[]"] by (simp add: parts_def)
  have one: "fill cfg (dm_paper doc) ''body'' (dm_full_text doc) fb [] =
      Some (Inr (number_from (dm_paper doc) 0 (take (cap cfg) body), cap cfg < length body))"
    using fill_numbered [OF assms, of "[]"] by (simp add: body_def)
  have dp: "doc_parts cfg doc =
      (if take (cap cfg) parts = [] \<and> dm_full_text doc \<noteq> [] \<and> fb \<noteq> [] then body else parts)"
    by (simp add: doc_parts_def parts_def fb_def body_def Let_def)
  have model: "chunk_doc_model cfg doc =
     (if take (cap cfg) parts = [] \<and> dm_full_text doc \<noteq> [] \<and> fb \<noteq> []
      then Some (finish_doc_model doc (ws_blocks (doc_walk doc))
             (number_from (dm_paper doc) 0 (take (cap cfg) body), cap cfg < length body))
      else Some (finish_doc_model doc (ws_blocks (doc_walk doc))
             (number_from (dm_paper doc) 0 (take (cap cfg) parts), cap cfg < length parts)))"
    unfolding chunk_doc_model_def Let_def doc_walk_def [symmetric] doc_entries_def [symmetric]
      fb_def [symmetric] all using one by (simp del: take_eq_Nil)
  show ?thesis unfolding model dp
    using finish_numbered [OF known] finish_numbered [OF kbody] known kbody
    by (simp add: Let_def del: take_eq_Nil)
qed

definition demo_doc :: doc_model where
  "demo_doc = \<lparr>dm_paper = ''p1'', dm_version = 2,
     dm_sections = [Section ''s1'' (Some ''Intro'') [ParagraphB ''b1'' ''One.'', ParagraphB ''b2'' ''Two.''] [],
                    Section ''s2'' None [ParagraphB ''b3'' ''Three.''] []],
     dm_full_text = ''One. Two. Three.''\<rparr>"

theorem chunk_doc_model_complete_witness:
  "chunk_doc_model default_chunker demo_doc =
     Some (Inr \<lparr>cs_paper = ''p1'', cs_version = 2,
       cs_chunks = number_from ''p1'' 0
         [(''Intro'', ''One. Two.'', [\<lparr>cb_section = ''s1'', cb_block = ''b1'', cb_type = ''paragraph''\<rparr>,
                                     \<lparr>cb_section = ''s1'', cb_block = ''b2'', cb_type = ''paragraph''\<rparr>]),
          (''s2'', ''Three.'', [\<lparr>cb_section = ''s2'', cb_block = ''b3'', cb_type = ''paragraph''\<rparr>])],
       cs_truncated = False\<rparr>)"
proof -
  have g: "good_paper (dm_paper demo_doc)" "good_sizes default_chunker"
    by (simp_all add: good_paper_def good_sizes_def default_chunker_def demo_doc_def)
  have parts: "doc_parts default_chunker demo_doc =
      [(''Intro'', ''One. Two.'', [\<lparr>cb_section = ''s1'', cb_block = ''b1'', cb_type = ''paragraph''\<rparr>,
                                     \<lparr>cb_section = ''s1'', cb_block = ''b2'', cb_type = ''paragraph''\<rparr>]),
       (''s2'', ''Three.'', [\<lparr>cb_section = ''s2'', cb_block = ''b3'', cb_type = ''paragraph''\<rparr>])]"
    by code_simp
  have cap: "cap default_chunker = 2048" by (simp add: cap_def default_chunker_def)
  show ?thesis
    using conjunct1 [OF chunk_doc_model_complete [OF g]] unfolding parts cap by (simp add: demo_doc_def)
qed

end
