(* ===== verification/Ingest_Stats.thy ===== *)
theory Ingest_Stats imports Ingest_Domain Py_Value begin

text \<open>
  The payload projections of ingestion (\<open>domain/models.py\<close>): index statistics, harvested metadata
  and queue jobs as the dictionaries they travel in. Rendering an instant (\<open>isoformat\<close>) and
  reading it back are parameters. Shown: metadata survives the trip through a queue payload.
\<close>

section \<open>Index statistics\<close>

record index_stats =
  is_status :: string
  is_timestamp :: rat
  is_index_name :: string
  is_total_documents :: int
  is_vector_count :: int
  is_last_write :: "rat option"
  is_dependencies :: "(string \<times> string) list"

definition to_public_internal_dict :: "(rat \<Rightarrow> string) \<Rightarrow> index_stats \<Rightarrow> pyval" where
  "to_public_internal_dict isofmt s =
     PDict [(''status'', PStr (is_status s)),
            (''timestamp'', PStr (isofmt (is_timestamp s))),
            (''index_name'', PStr (is_index_name s)),
            (''metrics'', PDict
               [(''total_documents'', PInt (is_total_documents s)),
                (''vector_count'', PInt (is_vector_count s)),
                (''last_write_timestamp'',
                   case is_last_write s of None \<Rightarrow> PNone | Some t \<Rightarrow> PStr (isofmt t))]),
            (''dependencies'', PDict (map (\<lambda>(k, v). (k, PStr v)) (is_dependencies s)))]"

text \<open>The object as a duck-typed reader sees it: its attributes and its projection method.\<close>

definition stats_value :: "(rat \<Rightarrow> string) \<Rightarrow> index_stats \<Rightarrow> pyval" where
  "stats_value isofmt s =
     PObj [(''status'', PStr (is_status s)), (''timestamp'', PTime (is_timestamp s)),
           (''index_name'', PStr (is_index_name s)),
           (''total_documents'', PInt (is_total_documents s)),
           (''vector_count'', PInt (is_vector_count s)),
           (''last_write_timestamp'', case is_last_write s of None \<Rightarrow> PNone | Some t \<Rightarrow> PTime t),
           (''dependencies'', PDict (map (\<lambda>(k, v). (k, PStr v)) (is_dependencies s))),
           (''to_public_internal_dict'', to_public_internal_dict isofmt s)]"

section \<open>Harvested metadata\<close>

record metadata_record =
  md_arxiv_ref :: string
  md_title :: string
  md_authors :: "string list"
  md_abstract :: string
  md_categories :: "string list"
  md_updated_at :: rat
  md_published_at :: "rat option"
  md_license_url :: "string option"
  md_primary_category :: "string option"

definition opt_str :: "string option \<Rightarrow> pyval" where
  "opt_str x = (case x of None \<Rightarrow> PNone | Some s \<Rightarrow> PStr s)"

definition metadata_to_payload :: "(rat \<Rightarrow> string) \<Rightarrow> metadata_record \<Rightarrow> (string \<times> pyval) list" where
  "metadata_to_payload isofmt m =
     [(''arxivRef'', PStr (md_arxiv_ref m)),
      (''title'', PStr (md_title m)),
      (''authors'', PSeq (map PStr (md_authors m))),
      (''abstract'', PStr (md_abstract m)),
      (''categories'', PSeq (map PStr (md_categories m))),
      (''updatedAt'', PStr (isofmt (md_updated_at m))),
      (''publishedAt'', case md_published_at m of None \<Rightarrow> PNone | Some t \<Rightarrow> PStr (isofmt t)),
      (''licenseUrl'', opt_str (md_license_url m)),
      (''primaryCategory'', opt_str (md_primary_category m))]"

text \<open>What reading a payload raises: a missing key, a value of another type, a bad instant.\<close>

datatype payload_exn = KeyErr string | TypeErr string | BadInstant string

definition need :: "(string \<times> pyval) list \<Rightarrow> string \<Rightarrow> payload_exn + pyval" where
  "need d k = (case dget d k of None \<Rightarrow> Inl (KeyErr k) | Some v \<Rightarrow> Inr v)"

definition as_text :: "string \<Rightarrow> pyval \<Rightarrow> payload_exn + string" where
  "as_text k v = (case v of PStr s \<Rightarrow> Inr s | _ \<Rightarrow> Inl (TypeErr k))"

definition as_opt_text :: "string \<Rightarrow> pyval \<Rightarrow> payload_exn + string option" where
  "as_opt_text k v = (case v of PNone \<Rightarrow> Inr None | PStr s \<Rightarrow> Inr (Some s) | _ \<Rightarrow> Inl (TypeErr k))"

fun texts :: "string \<Rightarrow> pyval list \<Rightarrow> payload_exn + string list" where
  "texts k [] = Inr []"
| "texts k (PStr s # vs) = (case texts k vs of Inl e \<Rightarrow> Inl e | Inr ss \<Rightarrow> Inr (s # ss))"
| "texts k (_ # vs) = Inl (TypeErr k)"

definition as_texts :: "string \<Rightarrow> pyval \<Rightarrow> payload_exn + string list" where
  "as_texts k v = (case py_tuple v of None \<Rightarrow> Inl (TypeErr k) | Some vs \<Rightarrow> texts k vs)"

definition as_instant :: "(string \<Rightarrow> rat option) \<Rightarrow> string \<Rightarrow> pyval \<Rightarrow> payload_exn + rat" where
  "as_instant fromiso k v =
     (case v of
        PStr s \<Rightarrow> (case fromiso s of None \<Rightarrow> Inl (BadInstant s) | Some t \<Rightarrow> Inr t)
      | _ \<Rightarrow> Inl (TypeErr k))"

definition bind_res :: "'e + 'a \<Rightarrow> ('a \<Rightarrow> 'e + 'b) \<Rightarrow> 'e + 'b" where
  "bind_res m f = (case m of Inl e \<Rightarrow> Inl e | Inr x \<Rightarrow> f x)"

lemma bind_res_simps [simp]: "bind_res (Inr x) f = f x" "bind_res (Inl e) f = Inl e"
  by (simp_all add: bind_res_def)

lemma bind_res_Inr: "bind_res m f = Inr y \<longleftrightarrow> (\<exists>x. m = Inr x \<and> f x = Inr y)"
  by (cases m) simp_all

definition metadata_from_payload ::
  "(string \<Rightarrow> rat option) \<Rightarrow> (string \<times> pyval) list \<Rightarrow> payload_exn + metadata_record" where
  "metadata_from_payload fromiso d =
     bind_res (bind_res (need d ''arxivRef'') (as_text ''arxivRef'')) (\<lambda>ref.
     bind_res (bind_res (need d ''title'') (as_text ''title'')) (\<lambda>title.
     bind_res (bind_res (need d ''authors'') (as_texts ''authors'')) (\<lambda>authors.
     bind_res (bind_res (need d ''abstract'') (as_text ''abstract'')) (\<lambda>abstract.
     bind_res (bind_res (need d ''categories'') (as_texts ''categories'')) (\<lambda>cats.
     bind_res (bind_res (need d ''updatedAt'') (as_instant fromiso ''updatedAt'')) (\<lambda>updated.
     bind_res (if py_truthy (pget d ''publishedAt'')
               then bind_res (as_instant fromiso ''publishedAt'' (pget d ''publishedAt'')) (\<lambda>t. Inr (Some t))
               else Inr None) (\<lambda>published.
     bind_res (as_opt_text ''licenseUrl'' (pget d ''licenseUrl'')) (\<lambda>lic.
     bind_res (as_opt_text ''primaryCategory'' (pget d ''primaryCategory'')) (\<lambda>prim.
       Inr \<lparr>md_arxiv_ref = ref, md_title = title, md_authors = authors, md_abstract = abstract,
            md_categories = cats, md_updated_at = updated, md_published_at = published,
            md_license_url = lic, md_primary_category = prim\<rparr>)))))))))"

lemma texts_map [simp]: "texts k (map PStr ss) = Inr ss"
  by (induction ss) simp_all

text \<open>
  Metadata that a harvest ships inside a job is read back by the worker exactly as it was, for
  every record, given only that its instants are rendered to a non-empty text from which they can be
  read back.
\<close>

theorem metadata_roundtrip:
  assumes "\<forall>t \<in> insert (md_updated_at m) (set_option (md_published_at m)).
    fromiso (isofmt t) = Some t \<and> isofmt t \<noteq> []"
  shows "metadata_from_payload fromiso (metadata_to_payload isofmt m) = Inr m"
  using assms
  by (cases m)
     (simp add: metadata_from_payload_def metadata_to_payload_def need_def pget_def dict_simps
        as_text_def as_texts_def as_instant_def as_opt_text_def opt_str_def split: option.split)

definition demo_iso :: "rat \<Rightarrow> string" where
  "demo_iso t = ''day '' @ py_int_str \<lfloor>t\<rfloor>"

definition demo_fromiso :: "string \<Rightarrow> rat option" where
  "demo_fromiso s = (if starts_with ''day '' s then Some (of_nat (digits_value (drop 4 s))) else None)"

definition demo_metadata :: metadata_record where
  "demo_metadata = \<lparr>md_arxiv_ref = ''2401.00001v2'', md_title = ''T'', md_authors = [''A'', ''B''],
     md_abstract = ''abs'', md_categories = [''cs.CL''], md_updated_at = 19750, md_published_at = Some 19723,
     md_license_url = None, md_primary_category = Some ''cs.CL''\<rparr>"

theorem metadata_roundtrip_witness:
  "metadata_from_payload demo_fromiso (metadata_to_payload demo_iso demo_metadata) = Inr demo_metadata"
proof (rule metadata_roundtrip)
  show "\<forall>t \<in> insert (md_updated_at demo_metadata) (set_option (md_published_at demo_metadata)).
    demo_fromiso (demo_iso t) = Some t \<and> demo_iso t \<noteq> []"
    by (simp add: demo_metadata_def demo_iso_def demo_fromiso_def py_int_str_def digits_value_str
        starts_with_def)
qed

end
