(* ===== verification/Redis_Port.thy ===== *)
theory Redis_Port imports Py_Value begin

text \<open>
  The Redis server as the sources use it. The client library and the server are outside the
  repository, so they are a parameter: a record of the commands the code issues, each of which
  answers or fails (connection or timeout). \<open>redis_ok\<close> states the documented effect of each
  command on the keyspace, a map from keys to a value and an optional deadline; of a failed command
  only that it took effect or not. The locale \<open>redis_store\<close> collects what the clients use of it,
  and \<open>ks_redis\<close> is a server that works on the keyspace itself and is down at given instants.
\<close>

section \<open>The keyspace\<close>

datatype redis_value = RJson pyval | RSet "string list" | RCount int

type_synonym keyspace = "string \<Rightarrow> (redis_value \<times> rat option) option"

definition alive :: "rat \<Rightarrow> keyspace \<Rightarrow> string \<Rightarrow> (redis_value \<times> rat option) option" where
  "alive now ks k = (case ks k of
      None \<Rightarrow> None
    | Some (v, None) \<Rightarrow> Some (v, None)
    | Some (v, Some t) \<Rightarrow> if now < t then Some (v, Some t) else None)"

definition ks_set :: "rat \<Rightarrow> string \<Rightarrow> pyval \<Rightarrow> rat \<Rightarrow> keyspace \<Rightarrow> keyspace" where
  "ks_set now k v ttl ks = ks(k \<mapsto> (RJson v, Some (now + ttl)))"

definition ks_delete :: "string list \<Rightarrow> keyspace \<Rightarrow> keyspace" where
  "ks_delete keys ks = (\<lambda>k. if k \<in> set keys then None else ks k)"

definition ks_sadd :: "rat \<Rightarrow> string \<Rightarrow> string \<Rightarrow> keyspace \<Rightarrow> keyspace" where
  "ks_sadd now k m ks = (case alive now ks k of
      Some (RSet ms, d) \<Rightarrow> ks(k \<mapsto> (RSet (List.insert m ms), d))
    | Some _ \<Rightarrow> ks
    | None \<Rightarrow> ks(k \<mapsto> (RSet [m], None)))"

definition ks_expire :: "rat \<Rightarrow> string \<Rightarrow> rat \<Rightarrow> keyspace \<Rightarrow> keyspace" where
  "ks_expire now k ttl ks = (case alive now ks k of
      Some (v, d) \<Rightarrow> ks(k \<mapsto> (v, Some (now + ttl)))
    | None \<Rightarrow> ks)"

text \<open>\<open>INCR\<close> and \<open>DECR\<close>: the new count; a missing key counts from zero and has no deadline.\<close>

definition ks_add :: "rat \<Rightarrow> string \<Rightarrow> int \<Rightarrow> keyspace \<Rightarrow> int \<times> keyspace" where
  "ks_add now k i ks = (case alive now ks k of
      Some (RCount n, d) \<Rightarrow> (n + i, ks(k \<mapsto> (RCount (n + i), d)))
    | Some _ \<Rightarrow> (0, ks)
    | None \<Rightarrow> (i, ks(k \<mapsto> (RCount i, None))))"

section \<open>The port\<close>

record 's redis =
  r_get :: "rat \<Rightarrow> string \<Rightarrow> 's \<Rightarrow> (unit + pyval option) \<times> 's"
  r_set :: "rat \<Rightarrow> string \<Rightarrow> pyval \<Rightarrow> rat \<Rightarrow> 's \<Rightarrow> (unit + unit) \<times> 's"
  r_delete :: "rat \<Rightarrow> string list \<Rightarrow> 's \<Rightarrow> (unit + unit) \<times> 's"
  r_sadd :: "rat \<Rightarrow> string \<Rightarrow> string \<Rightarrow> 's \<Rightarrow> (unit + unit) \<times> 's"
  r_smembers :: "rat \<Rightarrow> string \<Rightarrow> 's \<Rightarrow> (unit + string list) \<times> 's"
  r_expire :: "rat \<Rightarrow> string \<Rightarrow> rat \<Rightarrow> 's \<Rightarrow> (unit + unit) \<times> 's"
  r_incr :: "rat \<Rightarrow> string \<Rightarrow> 's \<Rightarrow> (unit + int) \<times> 's"
  r_decr :: "rat \<Rightarrow> string \<Rightarrow> 's \<Rightarrow> (unit + int) \<times> 's"

text \<open>What a write command leaves behind: its effect, or, if it failed, its effect or nothing.\<close>

definition wrote :: "('s \<Rightarrow> keyspace) \<Rightarrow> (unit + 'a) \<times> 's \<Rightarrow> 's \<Rightarrow> keyspace \<Rightarrow> bool" where
  "wrote view out s ks = (case out of
      (Inr _, s') \<Rightarrow> view s' = ks
    | (Inl _, s') \<Rightarrow> view s' = ks \<or> view s' = view s)"

definition read_only :: "('s \<Rightarrow> keyspace) \<Rightarrow> (unit + 'a) \<times> 's \<Rightarrow> 's \<Rightarrow> ('a \<Rightarrow> bool) \<Rightarrow> bool" where
  "read_only view out s good \<longleftrightarrow> view (snd out) = view s \<and> (\<forall>x. fst out = Inr x \<longrightarrow> good x)"

definition get_answer :: "rat \<Rightarrow> keyspace \<Rightarrow> string \<Rightarrow> pyval option \<Rightarrow> bool" where
  "get_answer now ks k x = (case alive now ks k of
      None \<Rightarrow> x = None | Some (RJson v, d) \<Rightarrow> x = Some v | Some _ \<Rightarrow> True)"

definition members_answer :: "rat \<Rightarrow> keyspace \<Rightarrow> string \<Rightarrow> string list \<Rightarrow> bool" where
  "members_answer now ks k xs = (case alive now ks k of
      None \<Rightarrow> xs = [] | Some (RSet ms, d) \<Rightarrow> set xs = set ms | Some _ \<Rightarrow> True)"

definition count_answer :: "('s \<Rightarrow> keyspace) \<Rightarrow> (unit + int) \<times> 's \<Rightarrow> 's \<Rightarrow> int \<times> keyspace \<Rightarrow> bool" where
  "count_answer view out s eff \<longleftrightarrow> wrote view out s (snd eff) \<and> (\<forall>n. fst out = Inr n \<longrightarrow> n = fst eff)"

definition redis_ok :: "'s redis \<Rightarrow> ('s \<Rightarrow> keyspace) \<Rightarrow> bool" where
  "redis_ok R view \<longleftrightarrow>
     (\<forall>now k s. read_only view (r_get R now k s) s (get_answer now (view s) k)) \<and>
     (\<forall>now k s. read_only view (r_smembers R now k s) s (members_answer now (view s) k)) \<and>
     (\<forall>now k v ttl s. wrote view (r_set R now k v ttl s) s (ks_set now k v ttl (view s))) \<and>
     (\<forall>now keys s. wrote view (r_delete R now keys s) s (ks_delete keys (view s))) \<and>
     (\<forall>now k m s. wrote view (r_sadd R now k m s) s (ks_sadd now k m (view s))) \<and>
     (\<forall>now k ttl s. wrote view (r_expire R now k ttl s) s (ks_expire now k ttl (view s))) \<and>
     (\<forall>now k s. count_answer view (r_incr R now k s) s (ks_add now k 1 (view s))) \<and>
     (\<forall>now k s. count_answer view (r_decr R now k s) s (ks_add now k (- 1) (view s)))"

text \<open>The server answers every command.\<close>

definition redis_up :: "'s redis \<Rightarrow> bool" where
  "redis_up R \<longleftrightarrow>
     (\<forall>now k s. \<not> isl (fst (r_get R now k s))) \<and> (\<forall>now k s. \<not> isl (fst (r_smembers R now k s))) \<and>
     (\<forall>now k v ttl s. \<not> isl (fst (r_set R now k v ttl s))) \<and> (\<forall>now keys s. \<not> isl (fst (r_delete R now keys s))) \<and>
     (\<forall>now k m s. \<not> isl (fst (r_sadd R now k m s))) \<and> (\<forall>now k ttl s. \<not> isl (fst (r_expire R now k ttl s))) \<and>
     (\<forall>now k s. \<not> isl (fst (r_incr R now k s))) \<and> (\<forall>now k s. \<not> isl (fst (r_decr R now k s)))"

locale redis_store =
  fixes R :: "'s redis" and view :: "'s \<Rightarrow> keyspace"
  assumes ok: "redis_ok R view"
begin

lemma laws:
  "read_only view (r_get R now k s) s (get_answer now (view s) k)"
  "read_only view (r_smembers R now k s) s (members_answer now (view s) k)"
  "wrote view (r_set R now k v ttl s) s (ks_set now k v ttl (view s))"
  "wrote view (r_delete R now keys s) s (ks_delete keys (view s))"
  "wrote view (r_sadd R now k m s) s (ks_sadd now k m (view s))"
  "wrote view (r_expire R now k ttl s) s (ks_expire now k ttl (view s))"
  "count_answer view (r_incr R now k s) s (ks_add now k 1 (view s))"
  "count_answer view (r_decr R now k s) s (ks_add now k (- 1) (view s))"
  using ok by (simp_all add: redis_ok_def)

lemma get_view: "r_get R now k s = (out, s') \<Longrightarrow> view s' = view s"
  using laws(1) [of now k s] by (simp add: read_only_def)

lemma get_val: "r_get R now k s = (Inr x, s') \<Longrightarrow> get_answer now (view s) k x"
  using laws(1) [of now k s] by (simp add: read_only_def)

lemma members_view: "r_smembers R now k s = (out, s') \<Longrightarrow> view s' = view s"
  using laws(2) [of now k s] by (simp add: read_only_def)

lemma members_val: "r_smembers R now k s = (Inr xs, s') \<Longrightarrow> members_answer now (view s) k xs"
  using laws(2) [of now k s] by (simp add: read_only_def)

lemma set_view: "r_set R now k v ttl s = (Inr u, s') \<Longrightarrow> view s' = ks_set now k v ttl (view s)"
  using laws(3) [of now k v ttl s] by (simp add: wrote_def)

lemma delete_view: "r_delete R now keys s = (Inr u, s') \<Longrightarrow> view s' = ks_delete keys (view s)"
  using laws(4) [of now keys s] by (simp add: wrote_def)

lemma sadd_view: "r_sadd R now k m s = (Inr u, s') \<Longrightarrow> view s' = ks_sadd now k m (view s)"
  using laws(5) [of now k m s] by (simp add: wrote_def)

lemma expire_view: "r_expire R now k ttl s = (Inr u, s') \<Longrightarrow> view s' = ks_expire now k ttl (view s)"
  using laws(6) [of now k ttl s] by (simp add: wrote_def)

lemma set_any: "r_set R now k v ttl s = (out, s') \<Longrightarrow> view s' = ks_set now k v ttl (view s) \<or> view s' = view s"
  using laws(3) [of now k v ttl s] by (cases out) (auto simp: wrote_def)

lemma delete_any: "r_delete R now keys s = (out, s') \<Longrightarrow> view s' = ks_delete keys (view s) \<or> view s' = view s"
  using laws(4) [of now keys s] by (cases out) (auto simp: wrote_def)

lemma sadd_any: "r_sadd R now k m s = (out, s') \<Longrightarrow> view s' = ks_sadd now k m (view s) \<or> view s' = view s"
  using laws(5) [of now k m s] by (cases out) (auto simp: wrote_def)

lemma expire_any: "r_expire R now k ttl s = (out, s') \<Longrightarrow> view s' = ks_expire now k ttl (view s) \<or> view s' = view s"
  using laws(6) [of now k ttl s] by (cases out) (auto simp: wrote_def)

lemma incr_view: "r_incr R now k s = (Inr n, s') \<Longrightarrow> ks_add now k 1 (view s) = (n, view s')"
  using laws(7) [of now k s] by (auto simp: count_answer_def wrote_def)

lemma decr_view: "r_decr R now k s = (Inr n, s') \<Longrightarrow> ks_add now k (- 1) (view s) = (n, view s')"
  using laws(8) [of now k s] by (auto simp: count_answer_def wrote_def)

end

section \<open>A server over the keyspace\<close>

definition served :: "(rat \<Rightarrow> bool) \<Rightarrow> rat \<Rightarrow> 'a \<times> keyspace \<Rightarrow> keyspace \<Rightarrow> (unit + 'a) \<times> keyspace" where
  "served down now eff ks = (if down now then (Inl (), ks) else (Inr (fst eff), snd eff))"

definition ks_redis :: "(rat \<Rightarrow> bool) \<Rightarrow> keyspace redis" where
  "ks_redis down =
     \<lparr>r_get = (\<lambda>now k ks. served down now
        (case alive now ks k of Some (RJson v, d) \<Rightarrow> Some v | _ \<Rightarrow> None, ks) ks),
      r_set = (\<lambda>now k v ttl ks. served down now ((), ks_set now k v ttl ks) ks),
      r_delete = (\<lambda>now keys ks. served down now ((), ks_delete keys ks) ks),
      r_sadd = (\<lambda>now k m ks. served down now ((), ks_sadd now k m ks) ks),
      r_smembers = (\<lambda>now k ks. served down now
        (case alive now ks k of Some (RSet ms, d) \<Rightarrow> ms | _ \<Rightarrow> [], ks) ks),
      r_expire = (\<lambda>now k ttl ks. served down now ((), ks_expire now k ttl ks) ks),
      r_incr = (\<lambda>now k ks. served down now (ks_add now k 1 ks) ks),
      r_decr = (\<lambda>now k ks. served down now (ks_add now k (- 1) ks) ks)\<rparr>"

lemma ks_redis_ok: "redis_ok (ks_redis down) id"
  by (auto simp: redis_ok_def ks_redis_def served_def read_only_def wrote_def count_answer_def
      get_answer_def members_answer_def split: option.split redis_value.split)

lemma ks_redis_up: "redis_up (ks_redis (\<lambda>_. False))"
  by (simp add: redis_up_def ks_redis_def served_def)

interpretation ks: redis_store "ks_redis down" id for down
  by unfold_locales (rule ks_redis_ok)

end
