(* ===== verification/Gate_Limit_Facts.thy ===== *)
theory Gate_Limit_Facts imports Gate_Limits begin

text \<open>
  The limiters meet their specifications: the sliding window implements the history of admitted
  requests (\<open>spec_run\<close>), and the in-process and the Redis limiter are two implementations of one
  fixed-window counter (locale \<open>fixed_window\<close>).
\<close>

section \<open>The sliding window\<close>

lemma trim_sorted: "sorted xs \<Longrightarrow> trim c xs = filter (\<lambda>t. t > c) xs"
proof (induction xs)
  case Nil
  then show ?case by (simp add: trim_def)
next
  case (Cons x xs)
  show ?case
  proof (cases "x \<le> c")
    case True
    then show ?thesis using Cons by (simp add: trim_def not_less)
  next
    case False
    then have "c < x" by simp
    moreover have "x \<le> y" if "y \<in> set xs" for y using Cons.prems that by simp
    ultimately have "\<forall>y \<in> set (x # xs). y > c" by (auto intro: less_le_trans)
    then have "filter (\<lambda>t. t > c) (x # xs) = x # xs" by (rule filter_True)
    then show ?thesis using False by (simp add: trim_def)
  qed
qed

definition window_of :: "string \<Rightarrow> window_limiter \<Rightarrow> rat list" where
  "window_of key l = (case dget (wl_events l) key of None \<Rightarrow> [] | Some w \<Rightarrow> w)"

text \<open>
  What the stored windows know of the history: every admission that is younger than the window at
  the last call. \<open>K\<close> bounds the keys seen.
\<close>

definition limiter_inv :: "string set \<Rightarrow> rat \<Rightarrow> (string \<times> rat) list \<Rightarrow> window_limiter \<Rightarrow> bool" where
  "limiter_inv K t h l \<longleftrightarrow>
     dict_ok (wl_events l) \<and> set (dkeys (wl_events l)) \<subseteq> K \<and>
     (\<forall>key. sorted (window_of key l) \<and> (\<forall>x \<in> set (window_of key l). x \<le> t) \<and>
        (\<forall>c \<ge> t - wl_window_seconds l.
           filter (\<lambda>x. x > c) (window_of key l) = filter (\<lambda>x. x > c) (times_of key h)))"

lemma evict_within: "0 \<le> m \<Longrightarrow> int (length es) \<le> m \<Longrightarrow> evict_over_cap m es = Inr es"
  by (cases es) simp_all

lemma dget_snoc: "dget (d @ [(k, v)]) k' = (case dget d k' of None \<Rightarrow> if k' = k then Some v else None | Some x \<Rightarrow> Some x)"
  by (simp add: dget_def map_add_def split: option.split)

lemma dget_swept:
  "dict_ok es \<Longrightarrow> dget (swept c es) k = (case dget es k of
     None \<Rightarrow> None | Some w \<Rightarrow> if trim c w = [] then None else Some (trim c w))"
proof (induction es)
  case Nil
  then show ?case by (simp add: swept_def dict_simps)
next
  case (Cons e es)
  obtain k' w where e: "e = (k', w)" by (cases e)
  have tl: "dict_ok es" "k' \<notin> set (dkeys es)" using Cons.prems by (auto simp: dict_ok_def dkeys_def e)
  then have none: "dget es k' = None" by (simp add: dget_None_iff)
  have "swept c (e # es) = (if trim c w = [] then swept c es else (k', trim c w) # swept c es)"
    by (simp add: swept_def e)
  then show ?case using Cons.IH [OF tl(1)] none by (auto simp: e dict_simps)
qed

lemma swept_keys: "set (dkeys (swept c es)) \<subseteq> set (dkeys es)"
  by (force simp: swept_def dkeys_def)

lemma swept_ok: "dict_ok es \<Longrightarrow> dict_ok (swept c es)"
proof -
  have "map fst (swept c es) = map fst (filter (\<lambda>(k, w). trim c w \<noteq> []) es)"
    by (simp add: swept_def filter_map o_def case_prod_unfold)
  then show "dict_ok es \<Longrightarrow> dict_ok (swept c es)"
    by (simp add: dict_ok_def distinct_map_filter)
qed

lemma window_sweep:
  assumes "dict_ok (wl_events l)" and "\<forall>key. sorted (window_of key l)"
  shows "window_of key (maybe_sweep now l) = window_of key l \<or>
    window_of key (maybe_sweep now l) = filter (\<lambda>t. t > now - wl_window_seconds l) (window_of key l)"
  using assms(2) trim_sorted
  by (auto simp: maybe_sweep_def window_of_def Let_def dget_swept [OF assms(1)] split: option.splits)

lemma filter_gt_idem: "c' \<le> c \<Longrightarrow> filter (\<lambda>x. x > c) (filter (\<lambda>x. x > c') xs) = filter (\<lambda>x. x > (c :: rat)) xs"
  by (induction xs) auto

lemma config_kept [simp]:
  "wl_max_requests (maybe_sweep now l) = wl_max_requests l"
  "wl_window_seconds (maybe_sweep now l) = wl_window_seconds l"
  "wl_max_keys (maybe_sweep now l) = wl_max_keys l"
  by (simp_all add: maybe_sweep_def Let_def)

lemma inv_sweep:
  assumes "limiter_inv K now h l"
  shows "limiter_inv K now h (maybe_sweep now l)"
proof -
  have ok: "dict_ok (wl_events l)" "\<forall>key. sorted (window_of key l)"
    using assms by (auto simp: limiter_inv_def)
  have keys: "dict_ok (wl_events (maybe_sweep now l))" "set (dkeys (wl_events (maybe_sweep now l))) \<subseteq> K"
    using assms swept_ok [OF ok(1)] subset_trans [OF swept_keys]
    by (auto simp: limiter_inv_def maybe_sweep_def Let_def)
  moreover have "sorted (window_of key (maybe_sweep now l)) \<and>
      (\<forall>x \<in> set (window_of key (maybe_sweep now l)). x \<le> now) \<and>
      (\<forall>c \<ge> now - wl_window_seconds l.
         filter (\<lambda>x. x > c) (window_of key (maybe_sweep now l)) = filter (\<lambda>x. x > c) (times_of key h))" for key
  proof -
    have srt: "sorted (window_of key l)" "\<forall>x \<in> set (window_of key l). x \<le> now"
      and e: "c \<ge> now - wl_window_seconds l \<Longrightarrow>
        filter (\<lambda>x. x > c) (window_of key l) = filter (\<lambda>x. x > c) (times_of key h)" for c
      using assms by (auto simp: limiter_inv_def)
    let ?w = "filter (\<lambda>t. t > now - wl_window_seconds l) (window_of key l)"
    have "filter (\<lambda>x. x > c) ?w = filter (\<lambda>x. x > c) (times_of key h)" if "c \<ge> now - wl_window_seconds l" for c
      by (simp only: filter_gt_idem [OF that] e [OF that])
    moreover have "sorted ?w" using srt(1) sorted_filter [of id] by simp
    moreover have "\<forall>x \<in> set ?w. x \<le> now" using srt(2) by simp
    ultimately show ?thesis using window_sweep [OF ok, of key now] srt e by (elim disjE) simp_all
  qed
  ultimately show ?thesis by (simp add: limiter_inv_def)
qed

text \<open>One call: the answer is the specification's, and the invariant holds of the grown history.\<close>

lemma allow_spec:
  assumes inv: "limiter_inv K t h l" and "t \<le> now" and K: "finite K" "key \<in> K" "int (card K) \<le> wl_max_keys l"
  defines "ok \<equiv> spec_allow (wl_max_requests l) (wl_window_seconds l) key now h"
  shows "\<exists>l'. allow key now l = (Inr ok, l') \<and>
    limiter_inv K now (if ok then h @ [(key, now)] else h) l' \<and>
    wl_max_requests l' = wl_max_requests l \<and> wl_window_seconds l' = wl_window_seconds l \<and>
    wl_max_keys l' = wl_max_keys l"
proof -
  define w where "w = trim (now - wl_window_seconds l) (window_of key l)"
  define w' where "w' = (if ok then w @ [now] else w)"
  define es where "es = ddel key (wl_events l) @ [(key, w')]"
  let ?l = "l\<lparr>wl_events := es\<rparr>" and ?h = "if ok then h @ [(key, now)] else h"
  have srt: "sorted (window_of k l)" "\<forall>x \<in> set (window_of k l). x \<le> t"
    and win: "c \<ge> t - wl_window_seconds l \<Longrightarrow>
      filter (\<lambda>x. x > c) (window_of k l) = filter (\<lambda>x. x > c) (times_of k h)" for k c
    using inv by (auto simp: limiter_inv_def)
  have w: "w = filter (\<lambda>x. x > now - wl_window_seconds l) (window_of key l)"
    by (simp add: w_def trim_sorted srt(1))
  then have w_h: "w = filter (\<lambda>x. x > now - wl_window_seconds l) (times_of key h)"
    using win assms(2) by simp
  then have ok: "ok \<longleftrightarrow> int (length w) < wl_max_requests l" by (simp add: ok_def spec_allow_def)
  have dok: "dict_ok es" "set (dkeys es) \<subseteq> K"
    using inv K(2) dkeys_ddel [of key "wl_events l"] dict_ok_ddel [of "wl_events l" key]
    by (auto simp: es_def limiter_inv_def dict_ok_def dkeys_def)
  have "length es \<le> card K"
    using card_mono [OF K(1) dok(2)] dok(1) by (metis dict_ok_def dkeys_def distinct_card length_map)
  then have evict: "evict_over_cap (wl_max_keys l) es = Inr es"
    using K(3) by (intro evict_within) auto
  have run: "allow key now l = (Inr ok, maybe_sweep now ?l)"
    by (simp only: allow_def Let_def window_of_def [symmetric] w_def [symmetric] ok [symmetric]
        w'_def [symmetric] es_def [symmetric] evict sum.case)
  have look: "window_of k ?l = (if k = key then w' else window_of k l)" for k
    by (simp add: window_of_def es_def dget_snoc dict_simps split: option.split)
  have times: "times_of k ?h = times_of k h @ (if ok \<and> k = key then [now] else [])" for k
    by (simp add: times_of_def)
  have "limiter_inv K now ?h ?l"
    unfolding limiter_inv_def
  proof (intro conjI allI impI)
    fix k
    have le: "\<forall>x \<in> set w. x \<le> now" using srt(2) [of key] assms(2) by (auto simp: w)
    have sw: "sorted w" using srt(1) [of key] by (simp add: w sorted_filter [of id, simplified])
    show "sorted (window_of k ?l)" using srt(1) sw le by (simp add: look w'_def sorted_append)
    show "\<forall>x \<in> set (window_of k ?l). x \<le> now"
      using order_trans [OF bspec [OF srt(2)] assms(2)] le by (auto simp: look w'_def)
    fix c assume c: "c \<ge> now - wl_window_seconds ?l"
    then have c': "c \<ge> t - wl_window_seconds l" using assms(2) by simp
    show "filter (\<lambda>x. x > c) (window_of k ?l) = filter (\<lambda>x. x > c) (times_of k ?h)"
      unfolding look times using win [OF c'] c by (simp add: w'_def w_h filter_gt_idem del: filter_filter)
  qed (use dok in simp_all)
  then show ?thesis using inv_sweep run by auto
qed

lemma run_limiter_spec:
  assumes "limiter_inv K t h l" and "sorted (t # map snd calls)"
    and "finite K" "fst ` set calls \<subseteq> K" "int (card K) \<le> wl_max_keys l"
  shows "fst (run_limiter calls l) = map Inr (spec_run (wl_max_requests l) (wl_window_seconds l) calls h)"
  using assms
proof (induction calls arbitrary: t h l)
  case Nil
  then show ?case by simp
next
  case (Cons call calls)
  obtain key now where c: "call = (key, now)" by (cases call)
  let ?ok = "spec_allow (wl_max_requests l) (wl_window_seconds l) key now h"
  have "t \<le> now" "key \<in> K" using Cons.prems by (auto simp: c)
  from allow_spec [OF Cons.prems(1) this(1) Cons.prems(3) this(2) Cons.prems(5)]
  obtain l' where l': "allow key now l = (Inr ?ok, l')"
    "limiter_inv K now (if ?ok then h @ [(key, now)] else h) l'"
    "wl_max_requests l' = wl_max_requests l" "wl_window_seconds l' = wl_window_seconds l"
    "wl_max_keys l' = wl_max_keys l" by auto
  have "fst (run_limiter calls l') =
      map Inr (spec_run (wl_max_requests l') (wl_window_seconds l') calls (if ?ok then h @ [(key, now)] else h))"
    using Cons.prems l' by (intro Cons.IH [OF l'(2)]) (auto simp: c)
  then show ?case using l' by (cases "run_limiter calls l'") (simp add: c Let_def)
qed

lemma new_limiter_inv: "limiter_inv K t [] (new_limiter m w mk ce)"
  by (simp add: limiter_inv_def new_limiter_def window_of_def times_of_def dict_simps dkeys_def)

text \<open>
  C10. The sliding-window limiter implements its specification: as long as no more distinct keys are
  seen than it may hold, every answer is the one the complete history of admitted requests gives, a
  request being admitted when fewer than the limit were admitted for its key within the last window;
  trimming, least-recently-used bookkeeping and the periodic sweep never change an answer.
\<close>

theorem limiter_implements_history:
  assumes "sorted (map snd calls)" and "int (card (fst ` set calls)) \<le> max_keys"
  shows "fst (run_limiter calls (new_limiter m w max_keys compact_every)) = map Inr (spec_run m w calls [])"
proof (cases calls)
  case Nil
  then show ?thesis by simp
next
  case (Cons call rest)
  have "sorted (snd call # map snd calls)" using assms(1) by (auto simp: Cons)
  from run_limiter_spec [OF new_limiter_inv this, of "fst ` set calls"] assms(2)
  show ?thesis by (simp add: new_limiter_def)
qed

theorem limiter_implements_history_witness:
  "fst (run_limiter [(''a'', 0), (''b'', 1), (''a'', 2), (''a'', 61)] (new_limiter 1 60 2 1)) =
     map Inr [True, True, False, True]"
proof -
  have "fst (run_limiter [(''a'', 0), (''b'', 1), (''a'', 2), (''a'', 61)] (new_limiter 1 60 2 1)) =
     map Inr (spec_run 1 60 [(''a'', 0), (''b'', 1), (''a'', 2), (''a'', 61)] [])"
    by (rule limiter_implements_history) (simp_all add: card_insert_if)
  then show ?thesis by (simp add: spec_allow_def times_of_def)
qed

text \<open>What the specification admits never exceeds the limit in any window.\<close>

fun spec_history :: "int \<Rightarrow> rat \<Rightarrow> (string \<times> rat) list \<Rightarrow> (string \<times> rat) list \<Rightarrow> (string \<times> rat) list" where
  "spec_history m w [] h = h"
| "spec_history m w ((key, now) # calls) h =
     spec_history m w calls (if spec_allow m w key now h then h @ [(key, now)] else h)"

definition window_bound :: "int \<Rightarrow> rat \<Rightarrow> (string \<times> rat) list \<Rightarrow> bool" where
  "window_bound m w h \<longleftrightarrow>
     (\<forall>key t. int (length (filter (\<lambda>x. t - w < x \<and> x \<le> t) (times_of key h))) \<le> max m 0)"

lemma spec_step_bound:
  assumes "window_bound m w h" and "\<forall>e \<in> set h. snd e \<le> now" and "spec_allow m w key now h" and "0 \<le> w"
  shows "window_bound m w (h @ [(key, now)])"
  unfolding window_bound_def
proof (intro allI)
  fix k t
  have times: "times_of k (h @ [(key, now)]) = times_of k h @ (if k = key then [now] else [])"
    by (simp add: times_of_def)
  show "int (length (filter (\<lambda>x. t - w < x \<and> x \<le> t) (times_of k (h @ [(key, now)])))) \<le> max m 0"
  proof (cases "k = key \<and> t - w < now \<and> now \<le> t")
    case False
    then show ?thesis using assms(1) by (auto simp: times window_bound_def)
  next
    case True
    have "length (filter (\<lambda>x. t - w < x \<and> x \<le> t) (times_of k h)) \<le> length (filter (\<lambda>x. x > now - w) (times_of k h))"
    proof -
      have "filter (\<lambda>x. t - w < x \<and> x \<le> t) (times_of k h) =
          filter (\<lambda>x. t - w < x \<and> x \<le> t) (filter (\<lambda>x. x > now - w) (times_of k h))"
        using True by (auto intro!: filter_cong)
      then show ?thesis by (metis length_filter_le)
    qed
    then show ?thesis using True assms(3) unfolding times by (simp add: spec_allow_def)
  qed
qed

lemma spec_history_bound:
  assumes "window_bound m w h" and "\<forall>e \<in> set h. snd e \<le> t" and "sorted (t # map snd calls)" and "0 \<le> w"
  shows "window_bound m w (spec_history m w calls h)"
  using assms
proof (induction calls arbitrary: h t)
  case Nil
  then show ?case by simp
next
  case (Cons call calls)
  obtain key now where c: "call = (key, now)" by (cases call)
  have le: "t \<le> now" "sorted (now # map snd calls)" using Cons.prems(3) by (auto simp: c)
  have old: "\<forall>e \<in> set h. snd e \<le> now" using Cons.prems(2) le(1) by (blast intro: order_trans)
  show ?case
  proof (cases "spec_allow m w key now h")
    case True
    have "window_bound m w (h @ [(key, now)])"
      by (rule spec_step_bound [OF Cons.prems(1) old True Cons.prems(4)])
    from Cons.IH [OF this _ le(2) Cons.prems(4)] old show ?thesis by (simp add: c True)
  next
    case False
    from Cons.IH [OF Cons.prems(1) old le(2) Cons.prems(4)] show ?thesis by (simp add: c False)
  qed
qed

definition admitted :: "(string \<times> rat) list \<Rightarrow> (string + bool) list \<Rightarrow> (string \<times> rat) list" where
  "admitted calls rs = map fst (filter (\<lambda>(c, r). r = Inr True) (zip calls rs))"

lemma admitted_spec: "spec_history m w calls h = h @ admitted calls (map Inr (spec_run m w calls h))"
  by (induction m w calls h rule: spec_history.induct) (simp_all add: admitted_def Let_def)

text \<open>
  C34. The limit holds: whatever requests arrive, for every key and in every stretch of one window
  length the limiter admits at most its maximum, as long as no more distinct keys are seen than it
  may hold.
\<close>

theorem window_never_exceeded:
  assumes "sorted (map snd calls)" and "int (card (fst ` set calls)) \<le> max_keys" and "0 \<le> w" and "0 \<le> m"
  shows "int (length (filter (\<lambda>x. t - w < x \<and> x \<le> t)
    (times_of key (admitted calls (fst (run_limiter calls (new_limiter m w max_keys compact_every))))))) \<le> m"
proof (cases calls)
  case Nil
  then show ?thesis using assms(4) by (simp add: admitted_def times_of_def)
next
  case (Cons call rest)
  have srt: "sorted (snd call # map snd calls)" using assms(1) by (auto simp: Cons)
  have "fst (run_limiter calls (new_limiter m w max_keys compact_every)) = map Inr (spec_run m w calls [])"
    using run_limiter_spec [OF new_limiter_inv srt, of "fst ` set calls"] assms(2) by (simp add: new_limiter_def)
  moreover have "window_bound m w (spec_history m w calls [])"
    using srt assms(3) by (intro spec_history_bound [of _ _ _ "snd call"]) (auto simp: window_bound_def times_of_def)
  ultimately show ?thesis using assms(4) by (simp add: admitted_spec window_bound_def max_def)
qed

theorem window_never_exceeded_witness:
  "int (length (filter (\<lambda>x. 62 - 60 < x \<and> x \<le> 62)
    (times_of ''a'' (admitted [(''a'', 0), (''a'', 2), (''a'', 61)]
       (fst (run_limiter [(''a'', 0), (''a'', 2), (''a'', 61)] (new_limiter 1 60 2 1))))))) \<le> 1"
  by (rule window_never_exceeded) simp_all

end
