(* ===== verification/Gate_Quota_Facts.thy ===== *)
theory Gate_Quota_Facts imports Gate_Limits begin

text \<open>
  The fixed-window limiters behind the e-mail endpoints and the agents' quota. \<open>fixed_window\<close> is the
  contract of a limiter: a count and the end of its window per key, as long as the window lasts. Its
  interpretations are the in-process limiter and the Redis limiter over a server that answers.
\<close>

section \<open>The contract\<close>

type_synonym window_view = "string \<Rightarrow> (int \<times> rat) option"

definition in_window :: "rat \<Rightarrow> (int \<times> rat) option \<Rightarrow> (int \<times> rat) option" where
  "in_window now b = (case b of None \<Rightarrow> None | Some (n, e) \<Rightarrow> if now < e then Some (n, e) else None)"

definition counted :: "rat \<Rightarrow> rat \<Rightarrow> (int \<times> rat) option \<Rightarrow> int \<times> rat" where
  "counted now window b = (case in_window now b of None \<Rightarrow> (1, now + window) | Some (n, e) \<Rightarrow> (n + 1, e))"

definition given_back :: "rat \<Rightarrow> (int \<times> rat) option \<Rightarrow> (int \<times> rat) option" where
  "given_back now b = (case in_window now b of
      None \<Rightarrow> None | Some (n, e) \<Rightarrow> if n \<le> 1 then None else Some (n - 1, e))"

definition agree_from :: "rat \<Rightarrow> window_view \<Rightarrow> window_view \<Rightarrow> bool" where
  "agree_from now v v' \<longleftrightarrow> (\<forall>t \<ge> now. \<forall>k. in_window t (v k) = in_window t (v' k))"

datatype limit_op = Allow string int rat | Refund string

fun window_step :: "rat \<Rightarrow> limit_op \<Rightarrow> window_view \<Rightarrow> bool option \<times> window_view" where
  "window_step now (Allow k limit w) v =
     (Some (fst (counted now w (v k)) \<le> limit), v(k := Some (counted now w (v k))))"
| "window_step now (Refund k) v = (None, v(k := given_back now (v k)))"

fun window_run :: "(rat \<times> limit_op) list \<Rightarrow> window_view \<Rightarrow> bool option list" where
  "window_run [] v = []"
| "window_run ((now, op) # ops) v =
     (case window_step now op v of (r, v') \<Rightarrow> r # window_run ops v')"

text \<open>The same run over a limiter.\<close>

fun limiter_step ::
  "(rat \<Rightarrow> string \<Rightarrow> int \<Rightarrow> rat \<Rightarrow> 's \<Rightarrow> bool \<times> 's) \<Rightarrow> (rat \<Rightarrow> string \<Rightarrow> 's \<Rightarrow> 's) \<Rightarrow>
   rat \<Rightarrow> limit_op \<Rightarrow> 's \<Rightarrow> bool option \<times> 's" where
  "limiter_step alw refnd now (Allow k limit w) s =
     (case alw now k limit w s of (ok, s') \<Rightarrow> (Some ok, s'))"
| "limiter_step alw refnd now (Refund k) s = (None, refnd now k s)"

fun limiter_run ::
  "(rat \<Rightarrow> string \<Rightarrow> int \<Rightarrow> rat \<Rightarrow> 's \<Rightarrow> bool \<times> 's) \<Rightarrow> (rat \<Rightarrow> string \<Rightarrow> 's \<Rightarrow> 's) \<Rightarrow>
   (rat \<times> limit_op) list \<Rightarrow> 's \<Rightarrow> bool option list" where
  "limiter_run alw refnd [] s = []"
| "limiter_run alw refnd ((now, op) # ops) s =
     (case limiter_step alw refnd now op s of (r, s') \<Rightarrow> r # limiter_run alw refnd ops s')"

lemma agree_mono: "agree_from now v v' \<Longrightarrow> now \<le> t \<Longrightarrow> agree_from t v v'"
  by (simp add: agree_from_def)

lemma agree_refl: "agree_from now v v"
  by (simp add: agree_from_def)

lemma agree_trans: "agree_from now u v \<Longrightarrow> agree_from now v w \<Longrightarrow> agree_from now u w"
  by (simp add: agree_from_def)

lemma step_agree:
  assumes "agree_from now v v'"
  shows "fst (window_step now op v) = fst (window_step now op v') \<and>
    agree_from now (snd (window_step now op v)) (snd (window_step now op v'))"
proof -
  have "in_window now (v k) = in_window now (v' k)" for k using assms by (simp add: agree_from_def)
  then show ?thesis using assms
    by (cases op) (auto simp: counted_def given_back_def agree_from_def)
qed

locale fixed_window =
  fixes alw :: "rat \<Rightarrow> string \<Rightarrow> int \<Rightarrow> rat \<Rightarrow> 's \<Rightarrow> bool \<times> 's"
    and refnd :: "rat \<Rightarrow> string \<Rightarrow> 's \<Rightarrow> 's"
    and view :: "'s \<Rightarrow> window_view"
    and good :: "'s \<Rightarrow> bool"
  assumes step: "good s \<Longrightarrow>
      fst (limiter_step alw refnd now op s) = fst (window_step now op (view s)) \<and>
      agree_from now (view (snd (limiter_step alw refnd now op s))) (snd (window_step now op (view s)))"
    and keeps: "good s \<Longrightarrow> good (snd (limiter_step alw refnd now op s))"
begin

lemma run:
  assumes "good s" and "agree_from t (view s) v" and "sorted (t # map fst ops)"
  shows "limiter_run alw refnd ops s = window_run ops v"
  using assms
proof (induction ops arbitrary: s v t)
  case Nil
  then show ?case by simp
next
  case (Cons o' ops)
  obtain now op where o: "o' = (now, op)" by (cases o')
  obtain r s' where s': "limiter_step alw refnd now op s = (r, s')" by (cases "limiter_step alw refnd now op s")
  obtain r' v' where v': "window_step now op v = (r', v')" by (cases "window_step now op v")
  have ag: "agree_from now (view s) v" using Cons.prems by (auto simp: o intro: agree_mono)
  have "r = r'" "agree_from now (view s') v'"
    using step [OF Cons.prems(1), of now op] step_agree [OF ag, of op] s' v' by (auto intro: agree_trans)
  moreover have "good s'" using keeps [OF Cons.prems(1), of now op] s' by simp
  ultimately show ?case using Cons.IH Cons.prems(3) by (simp add: o s' v')
qed

end

section \<open>In process\<close>

definition proc_view :: "buckets \<Rightarrow> window_view" where
  "proc_view b = dget b"

lemma proc_step:
  "fst (limiter_step proc_allow proc_refund now op b) = fst (window_step now op (proc_view b)) \<and>
   agree_from now (proc_view (snd (limiter_step proc_allow proc_refund now op b))) (snd (window_step now op (proc_view b)))"
  by (cases op)
     (auto simp: proc_allow_def proc_refund_def proc_view_def counted_def given_back_def in_window_def agree_from_def
        dict_simps Let_def split: option.split prod.split if_splits)

interpretation proc: fixed_window proc_allow proc_refund proc_view "\<lambda>_. True"
  by unfold_locales (use proc_step in auto)

section \<open>Over Redis\<close>

definition count_view :: "keyspace \<Rightarrow> window_view" where
  "count_view ks k = (case ks (limit_key k) of Some (RCount n, Some e) \<Rightarrow> Some (n, e) | _ \<Rightarrow> None)"

text \<open>The counters of the limiter: positive and with a deadline.\<close>

definition counters_ok :: "keyspace \<Rightarrow> bool" where
  "counters_ok ks \<longleftrightarrow>
     (\<forall>k. ks (limit_key k) = None \<or> (\<exists>n e. ks (limit_key k) = Some (RCount n, Some e) \<and> 1 \<le> n))"

lemma limit_key_inj [simp]: "limit_key k = limit_key k' \<longleftrightarrow> k = k'"
  by (simp add: limit_key_def)

lemma alive_counter:
  assumes "counters_ok ks"
  shows "alive now ks (limit_key k) =
    (case in_window now (count_view ks k) of None \<Rightarrow> None | Some (n, e) \<Rightarrow> Some (RCount n, Some e))"
proof -
  have "ks (limit_key k) = None \<or> (\<exists>n e. ks (limit_key k) = Some (RCount n, Some e))"
    using assms by (auto simp: counters_ok_def)
  then show ?thesis by (elim disjE exE) (simp_all add: alive_def in_window_def count_view_def)
qed

lemma counter_positive: "counters_ok ks \<Longrightarrow> in_window now (count_view ks k) = Some (n, e) \<Longrightarrow> 1 \<le> n"
  unfolding counters_ok_def
  by (drule spec [of _ k]) (auto simp: in_window_def count_view_def split: if_splits)

lemma counters_upd:
  "counters_ok ks \<Longrightarrow> 1 \<le> n \<Longrightarrow> counters_ok (ks(limit_key k \<mapsto> (RCount n, Some e)))"
  "counters_ok ks \<Longrightarrow> counters_ok (ks_delete [limit_key k] (ks(limit_key k := x)))"
  "counters_ok ks \<Longrightarrow> counters_ok (ks_delete [limit_key k] ks)"
  by (auto simp: counters_ok_def ks_delete_def)

lemma count_view_upd:
  "count_view (ks(limit_key k \<mapsto> (RCount n, Some e))) = (count_view ks)(k := Some (n, e))"
  "count_view (ks_delete [limit_key k] (ks(limit_key k := x))) = (count_view ks)(k := None)"
  by (auto simp: count_view_def ks_delete_def)

locale healthy_redis = redis_store +
  assumes up: "redis_up R"
begin

lemma answers:
  "\<exists>n s'. r_incr R now k s = (Inr n, s')" "\<exists>n s'. r_decr R now k s = (Inr n, s')"
  "\<exists>u s'. r_expire R now k ttl s = (Inr u, s')" "\<exists>u s'. r_delete R now keys s = (Inr u, s')"
  using up unfolding redis_up_def by (metis isl_def old.sum.exhaust prod.collapse sum.disc)+

lemma allow_effect:
  assumes "counters_ok (view s)"
  shows "\<exists>s'. redis_allow R now k limit w s = (fst (counted now w (count_view (view s) k)) \<le> limit, s') \<and>
    view s' = (view s)(limit_key k \<mapsto> (case counted now w (count_view (view s) k) of (n, e) \<Rightarrow> (RCount n, Some e)))"
proof -
  obtain n s1 where i: "r_incr R now (limit_key k) s = (Inr n, s1)" using answers(1) by blast
  obtain u s2 where x: "r_expire R now (limit_key k) w s1 = (Inr u, s2)" using answers(3) by blast
  note add = incr_view [OF i, unfolded ks_add_def alive_counter [OF assms]]
  show ?thesis
  proof (cases "in_window now (count_view (view s) k)")
    case None
    then have n: "n = 1" "view s1 = (view s)(limit_key k \<mapsto> (RCount 1, None))" using add by auto
    have "view s2 = (view s)(limit_key k \<mapsto> (RCount 1, Some (now + w)))"
      using expire_view [OF x] by (simp add: n ks_expire_def alive_def)
    then show ?thesis using i x None n by (simp add: redis_allow_def counted_def)
  next
    case (Some p)
    obtain m e where p: "p = (m, e)" by (cases p)
    have "1 \<le> m" using counter_positive [OF assms] Some p by blast
    then show ?thesis using add i Some p by (auto simp: redis_allow_def counted_def)
  qed
qed

lemma refund_effect:
  assumes "counters_ok (view s)"
  shows "counters_ok (view (redis_refund R now k s))"
    and "count_view (view (redis_refund R now k s)) = (count_view (view s))(k := given_back now (count_view (view s) k))"
proof -
  obtain n s1 where i: "r_decr R now (limit_key k) s = (Inr n, s1)" using answers(2) by blast
  obtain u s2 where d: "r_delete R now [limit_key k] s1 = (Inr u, s2)" using answers(4) by blast
  note add = decr_view [OF i, unfolded ks_add_def alive_counter [OF assms]]
  have "counters_ok (view (redis_refund R now k s)) \<and>
    count_view (view (redis_refund R now k s)) = (count_view (view s))(k := given_back now (count_view (view s) k))"
  proof (cases "in_window now (count_view (view s) k)")
    case None
    then have n: "n = - 1" "view s1 = (view s)(limit_key k \<mapsto> (RCount (- 1), None))" using add by auto
    then show ?thesis using delete_view [OF d] i d None assms
      by (simp add: redis_refund_def given_back_def count_view_upd counters_upd)
  next
    case (Some p)
    obtain m e where p: "p = (m, e)" by (cases p)
    have n: "n = m - 1" "view s1 = (view s)(limit_key k \<mapsto> (RCount (m - 1), Some e))" using add Some p by auto
    show ?thesis
    proof (cases "m \<le> 1")
      case True
      then show ?thesis using delete_view [OF d] i d Some p n assms
        by (simp add: redis_refund_def given_back_def count_view_upd counters_upd)
    next
      case False
      then show ?thesis using i Some p n assms
        by (simp add: redis_refund_def given_back_def count_view_upd counters_upd)
    qed
  qed
  then show "counters_ok (view (redis_refund R now k s))"
    and "count_view (view (redis_refund R now k s)) = (count_view (view s))(k := given_back now (count_view (view s) k))"
    by blast+
qed

lemma counted_positive: "counters_ok ks \<Longrightarrow> 1 \<le> fst (counted now w (count_view ks k))"
  using counter_positive by (fastforce simp: counted_def split: option.split prod.split)

lemma step_effect:
  assumes "counters_ok (view s)"
  shows "fst (limiter_step (redis_allow R) (redis_refund R) now op s) = fst (window_step now op (count_view (view s)))"
    and "count_view (view (snd (limiter_step (redis_allow R) (redis_refund R) now op s))) =
      snd (window_step now op (count_view (view s)))"
    and "counters_ok (view (snd (limiter_step (redis_allow R) (redis_refund R) now op s)))"
proof -
  have "fst (limiter_step (redis_allow R) (redis_refund R) now op s) = fst (window_step now op (count_view (view s))) \<and>
    count_view (view (snd (limiter_step (redis_allow R) (redis_refund R) now op s))) =
      snd (window_step now op (count_view (view s))) \<and>
    counters_ok (view (snd (limiter_step (redis_allow R) (redis_refund R) now op s)))"
  proof (cases op)
    case (Allow k limit w)
    obtain s' where s': "redis_allow R now k limit w s = (fst (counted now w (count_view (view s) k)) \<le> limit, s')"
      "view s' = (view s)(limit_key k \<mapsto> (case counted now w (count_view (view s) k) of (n, e) \<Rightarrow> (RCount n, Some e)))"
      using allow_effect [OF assms] by blast
    obtain n e where c: "counted now w (count_view (view s) k) = (n, e)" by (cases "counted now w (count_view (view s) k)")
    have "1 \<le> n" using counted_positive [OF assms, of now w k] c by simp
    then show ?thesis using s' assms by (simp add: Allow c count_view_upd counters_upd)
  next
    case (Refund k)
    then show ?thesis using refund_effect [OF assms] by simp
  qed
  then show "fst (limiter_step (redis_allow R) (redis_refund R) now op s) = fst (window_step now op (count_view (view s)))"
    and "count_view (view (snd (limiter_step (redis_allow R) (redis_refund R) now op s))) =
      snd (window_step now op (count_view (view s)))"
    and "counters_ok (view (snd (limiter_step (redis_allow R) (redis_refund R) now op s)))"
    by blast+
qed

end

sublocale healthy_redis \<subseteq> window: fixed_window "redis_allow R" "redis_refund R"
  "\<lambda>s. count_view (view s)" "\<lambda>s. counters_ok (view s)"
  by unfold_locales (simp_all add: step_effect agree_refl)

context healthy_redis
begin

lemma redis_run:
  assumes "counters_ok (view s)" and "agree_from t (count_view (view s)) v" and "sorted (t # map fst ops)"
  shows "limiter_run (redis_allow R) (redis_refund R) ops s = window_run ops v"
  by (rule window.run [OF assms])

end

interpretation up: healthy_redis "ks_redis (\<lambda>_. False)" id
  by unfold_locales (rule ks_redis_up)

text \<open>
  One limit in every deployment: from a clean start, the in-process limiter and the Redis
  limiter over a server that answers give the same answer to every call of every run of attempts and
  refunds, whatever limits and windows the calls carry.
\<close>

theorem shared_limiters_agree:
  assumes "redis_ok R view" and "redis_up R" and "sorted (map fst ops)"
    and "\<forall>k. view s (limit_key k) = None"
  shows "limiter_run (redis_allow R) (redis_refund R) ops s = limiter_run proc_allow proc_refund ops []"
proof (cases ops)
  case Nil
  then show ?thesis by simp
next
  case (Cons o' rest)
  have srt: "sorted (fst o' # map fst ops)" using assms(3) by (auto simp: Cons)
  have R: "healthy_redis R view"
    using assms(1,2) by (simp add: healthy_redis_def redis_store_def healthy_redis_axioms_def)
  have fresh: "count_view (view s) = proc_view []"
    using assms(4) by (simp add: count_view_def proc_view_def dict_simps fun_eq_iff)
  have good: "counters_ok (view s)" using assms(4) by (simp add: counters_ok_def)
  have "limiter_run (redis_allow R) (redis_refund R) ops s = window_run ops (proc_view [])"
    using healthy_redis.redis_run [OF R good _ srt] by (simp add: fresh agree_refl)
  then show ?thesis using proc.run [OF _ agree_refl srt] by simp
qed

theorem shared_limiters_agree_witness:
  "limiter_run (redis_allow (ks_redis (\<lambda>_. False))) (redis_refund (ks_redis (\<lambda>_. False)))
     [(0, Allow ''u'' 1 60), (1, Allow ''u'' 1 60), (2, Refund ''u''), (61, Allow ''u'' 1 60)] (\<lambda>_. None) =
   [Some True, Some False, None, Some True]"
proof -
  have "limiter_run (redis_allow (ks_redis (\<lambda>_. False))) (redis_refund (ks_redis (\<lambda>_. False)))
     [(0, Allow ''u'' 1 60), (1, Allow ''u'' 1 60), (2, Refund ''u''), (61, Allow ''u'' 1 60)] (\<lambda>_. None) =
    limiter_run proc_allow proc_refund
     [(0, Allow ''u'' 1 60), (1, Allow ''u'' 1 60), (2, Refund ''u''), (61, Allow ''u'' 1 60)] []"
    by (rule shared_limiters_agree [where view = id]) (simp_all add: ks_redis_ok ks_redis_up)
  then show ?thesis by (simp add: proc_allow_def proc_refund_def dict_simps)
qed

section \<open>Refunds and refusals\<close>

lemma attempts_in_window:
  assumes "in_window now (v k) = Some (n, e)" and "now' < e" and "now \<le> now'"
  shows "counted now' w (v k) = (n + 1, e)"
  using assms by (auto simp: counted_def in_window_def split: option.splits if_splits)

lemma window_attempts:
  assumes "v k = Some (n, e)" and "t < e"
  shows "window_run (replicate j (t, Allow k limit w) @ ops) v =
    map (\<lambda>i. Some (n + 1 + int i \<le> limit)) [0..<j] @ window_run ops (v(k := Some (n + int j, e)))"
  using assms
proof (induction j arbitrary: n v)
  case 0
  then show ?case by (simp add: fun_upd_idem)
next
  case (Suc j)
  have c: "counted t w (v k) = (n + 1, e)" using Suc.prems by (simp add: counted_def in_window_def)
  have upt: "map f [0..<Suc j] = f 0 # map (\<lambda>i. f (Suc i)) [0..<j]" for f :: "nat \<Rightarrow> bool option"
    by (simp add: upt_conv_Cons map_Suc_upt [symmetric] del: upt_Suc)
  have "window_run (replicate j (t, Allow k limit w) @ ops) (v(k := Some (n + 1, e))) =
      map (\<lambda>i. Some (n + 1 + 1 + int i \<le> limit)) [0..<j] @
      window_run ops ((v(k := Some (n + 1, e)))(k := Some (n + 1 + int j, e)))"
    by (rule Suc.IH) (simp_all add: Suc.prems(2))
  then show ?case
    unfolding upt by (simp only: replicate_Suc append_Cons window_run.simps window_step.simps c fst_conv
        prod.case fun_upd_upd of_nat_Suc of_nat_0 add_0_right add_0_left ac_simps)
qed

text \<open>
  A refund after a refusal gives nothing back: refused attempts are counted too, so once an
  attempt has been refused, giving back one accepted attempt leaves the next one in the same window
  refused, although a place in the quota has become free.
\<close>

theorem refund_after_refusal_lost:
  assumes "1 \<le> limit" and "1 \<le> refused" and "0 < w"
  shows "limiter_run proc_allow proc_refund
      (replicate (nat limit + refused) (t, Allow k limit w) @ [(t, Refund k), (t, Allow k limit w)]) [] =
    replicate (nat limit) (Some True) @ replicate refused (Some False) @ [None, Some False]"
proof -
  obtain m where m: "nat limit + refused = Suc m" using assms by (metis add.commute add_Suc_right le_Suc_ex plus_1_eq_Suc)
  let ?tail = "[(t, Refund k), (t, Allow k limit w)]"
  have srt: "sorted (t # map fst (replicate (nat limit + refused) (t, Allow k limit w) @ ?tail))"
    by (simp add: sorted_append sorted_replicate)
  have first: "counted t w (proc_view [] k) = (1, t + w)" by (simp add: counted_def proc_view_def in_window_def dict_simps)
  have "int m + 1 = limit + int refused" using m assms(1) by linarith
  then have tail: "window_run ?tail ((proc_view [])(k := Some (1 + int m, t + w))) = [None, Some False]"
    using assms m by (simp add: given_back_def in_window_def counted_def)
  have "limiter_run proc_allow proc_refund (replicate (nat limit + refused) (t, Allow k limit w) @ ?tail) [] =
      window_run (replicate (nat limit + refused) (t, Allow k limit w) @ ?tail) (proc_view [])"
    by (rule proc.run [OF _ agree_refl srt]) simp
  also have "\<dots> = Some (1 \<le> limit) # map (\<lambda>i. Some (2 + int i \<le> limit)) [0..<m] @ [None, Some False]"
    using window_attempts [of "(proc_view [])(k := Some (1, t + w))" k 1 "t + w" t m limit w ?tail] assms(3) tail
    by (simp add: m first)
  also have "\<dots> = map (\<lambda>i. Some (1 + int i \<le> limit)) [0..<Suc m] @ [None, Some False]"
    by (simp add: upt_conv_Cons map_Suc_upt [symmetric] o_def algebra_simps del: upt_Suc)
  also have "map (\<lambda>i. Some (1 + int i \<le> limit)) [0..<Suc m] = replicate (nat limit) (Some True) @ replicate refused (Some False)"
  proof -
    have "[0..<Suc m] = [0..<nat limit] @ [nat limit..<nat limit + refused]"
      unfolding m [symmetric] by (rule upt_add_eq_append) simp
    moreover have "map (\<lambda>i. Some (1 + int i \<le> limit)) [0..<nat limit] = replicate (nat limit) (Some True)"
      by (rule nth_equalityI) auto
    moreover have "map (\<lambda>i. Some (1 + int i \<le> limit)) [nat limit..<nat limit + refused] = replicate refused (Some False)"
      by (rule nth_equalityI) auto
    ultimately show ?thesis by simp
  qed
  finally show ?thesis by simp
qed

theorem refund_after_refusal_lost_witness:
  "limiter_run proc_allow proc_refund
     (replicate (nat 2 + 1) (0, Allow ''u'' 2 60) @ [(0, Refund ''u''), (0, Allow ''u'' 2 60)]) [] =
   replicate (nat 2) (Some True) @ replicate 1 (Some False) @ [None, Some False]"
  by (rule refund_after_refusal_lost) simp_all

section \<open>A lost EXPIRE\<close>

text \<open>A counter without a deadline counts on for ever.\<close>

context redis_store
begin

lemma stuck_counter:
  assumes "\<And>t s. \<exists>n s'. r_incr R t (limit_key k) s = (Inr n, s')"
    and "view s (limit_key k) = Some (RCount n, None)" and "1 \<le> n"
  shows "limiter_run (redis_allow R) (redis_refund R) (map (\<lambda>t. (t, Allow k limit w)) ts) s =
    map (\<lambda>i. Some (n + 1 + int i \<le> limit)) [0..<length ts]"
  using assms(2,3)
proof (induction ts arbitrary: s n)
  case Nil
  then show ?case by simp
next
  case (Cons t ts)
  obtain m s' where i: "r_incr R t (limit_key k) s = (Inr m, s')" using assms(1) by blast
  have "m = n + 1" "view s' = (view s)(limit_key k \<mapsto> (RCount (n + 1), None))"
    using incr_view [OF i] Cons.prems by (auto simp: ks_add_def alive_def)
  then have m: "m = n + 1" "view s' (limit_key k) = Some (RCount (n + 1), None)" by simp_all
  have upt: "map f [0..<Suc j] = f 0 # map (\<lambda>i. f (Suc i)) [0..<j]" for f :: "nat \<Rightarrow> bool option" and j
    by (simp add: upt_conv_Cons map_Suc_upt [symmetric] del: upt_Suc)
  have "limiter_run (redis_allow R) (redis_refund R) (map (\<lambda>t. (t, Allow k limit w)) ts) s' =
      map (\<lambda>i. Some (n + 1 + 1 + int i \<le> limit)) [0..<length ts]"
    using Cons.IH [OF m(2)] Cons.prems(2) by simp
  moreover have "redis_allow R t k limit w s = (n + 1 \<le> limit, s')"
    using i m Cons.prems(2) by (simp add: redis_allow_def)
  ultimately show ?case by (simp add: upt ac_simps del: upt_Suc)
qed

end

text \<open>
  A lost \<open>EXPIRE\<close> is permanent: when the command that gives a new counter its window fails
  without effect, the attempt passes, but the counter never ends; from then on, whenever they come,
  only \<open>limit - 1\<close> further attempts for that key are accepted and every later one is refused, long
  after the window is over.
\<close>

theorem lost_expire_is_permanent:
  assumes "redis_ok R view" and "\<And>t s. \<exists>n s'. r_incr R t (limit_key k) s = (Inr n, s')"
    and "view s (limit_key k) = None" and "r_incr R now (limit_key k) s = (Inr n, s1)"
    and "r_expire R now (limit_key k) w s1 = (Inl u, s2)" and "view s2 = view s1"
  shows "redis_allow R now k limit w s = (True, s2) \<and>
    limiter_run (redis_allow R) (redis_refund R) (map (\<lambda>t. (t, Allow k limit w)) ts) s2 =
      map (\<lambda>i. Some (int i + 2 \<le> limit)) [0..<length ts]"
proof -
  have st: "redis_store R view" using assms(1) by (simp add: redis_store_def)
  have "n = 1" "view s1 = (view s)(limit_key k \<mapsto> (RCount 1, None))"
    using redis_store.incr_view [OF st assms(4)] assms(3) by (simp_all add: ks_add_def alive_def)
  then have n: "n = 1" "view s1 (limit_key k) = Some (RCount 1, None)" by simp_all
  have "limiter_run (redis_allow R) (redis_refund R) (map (\<lambda>t. (t, Allow k limit w)) ts) s2 =
      map (\<lambda>i. Some (1 + 1 + int i \<le> limit)) [0..<length ts]"
    by (rule redis_store.stuck_counter [OF st assms(2)]) (simp_all add: assms(6) n)
  moreover have "redis_allow R now k limit w s = (True, s2)"
    using assms(4,5) n by (simp add: redis_allow_def)
  ultimately show ?thesis by (simp add: ac_simps)
qed

definition no_expire :: "keyspace redis" where
  "no_expire = (ks_redis (\<lambda>_. False))\<lparr>r_expire := (\<lambda>now k ttl ks. (Inl (), ks))\<rparr>"

lemma no_expire_ok: "redis_ok no_expire id"
  using ks_redis_ok [of "\<lambda>_. False"] by (simp add: redis_ok_def no_expire_def wrote_def)

theorem lost_expire_is_permanent_witness:
  "limiter_run (redis_allow no_expire) (redis_refund no_expire)
     (map (\<lambda>t. (t, Allow ''u'' 2 60)) [1, 1000, 1000000]) [limit_key ''u'' \<mapsto> (RCount 1, None)] =
   [Some True, Some False, Some False]"
proof -
  have "redis_allow no_expire 0 ''u'' 2 60 (\<lambda>_. None) = (True, [limit_key ''u'' \<mapsto> (RCount 1, None)]) \<and>
    limiter_run (redis_allow no_expire) (redis_refund no_expire)
     (map (\<lambda>t. (t, Allow ''u'' 2 60)) [1, 1000, 1000000]) [limit_key ''u'' \<mapsto> (RCount 1, None)] =
      map (\<lambda>i. Some (int i + 2 \<le> 2)) [0..<length [1, 1000, 1000000 :: rat]]"
    by (rule lost_expire_is_permanent [where view = id and n = 1 and u = "()"])
       (simp_all add: no_expire_ok, simp_all add: no_expire_def ks_redis_def served_def ks_add_def alive_def)
  then show ?thesis by (simp add: upt_conv_Cons)
qed

end
