(* ===== verification/Acct_Sessions.thy ===== *)
theory Acct_Sessions imports Redis_Port begin

text \<open>
  Sessions of the accounts module (U3): the cross-unit authorization contract
  (\<open>shared/.../authz.py\<close>), \<open>SessionRepository\<close> over Redis
  (\<open>accounts/repository/session.py\<close>) and \<open>SessionManager\<close>
  (\<open>accounts/services/session_manager.py\<close>). Rendering an instant (\<open>isoformat\<close>) and reading it
  back are parameters, as are the random handles and the clock. The messages of exceptions, which
  are Korean text, are named by English reasons. \<open>verify\<close> is written as the two halves around its
  awaits, so that other requests can run between them.
\<close>

section \<open>Authorization\<close>

datatype acct_exn =
    Domain string
  | InvalidEmail string
  | InvalidPassword string
  | SessionExpired string
  | Unauthorized string
  | StoreUnavailable string
  | LinkRequired
  | Unexpected string

datatype user_role = USER | ADMIN

datatype action = READ | WRITE | DELETE | RERUN

datatype decision = ALLOW | DENY

fun role_value :: "user_role \<Rightarrow> string" where
  "role_value USER = ''USER''"
| "role_value ADMIN = ''ADMIN''"

text \<open>\<open>UserRole(text)\<close> with the fallback every reader of a role applies: the least privilege.\<close>

definition role_or_user :: "string \<Rightarrow> user_role" where
  "role_or_user s = (if s = ''ADMIN'' then ADMIN else USER)"

record auth_principal =
  pr_user_id :: string
  pr_role :: user_role
  pr_mfa :: bool

text \<open>\<open>uuid.UUID(text)\<close>: \<open>int(hex, 16)\<close> allows a sign, a prefix and single underscores.\<close>

definition hex_digit :: "char \<Rightarrow> bool" where
  "hex_digit c \<longleftrightarrow> c \<in> set ''0123456789abcdefABCDEF''"

fun hex_groups :: "bool \<Rightarrow> string \<Rightarrow> bool" where
  "hex_groups seen [] = seen"
| "hex_groups seen (c # cs) =
     (if hex_digit c then hex_groups True cs
      else c = CHR ''_'' \<and> seen \<and> cs \<noteq> [] \<and> hex_digit (hd cs) \<and> hex_groups False cs)"

definition int16_ok :: "string \<Rightarrow> bool" where
  "int16_ok s =
     (let s = py_strip s;
          s = (if s \<noteq> [] \<and> hd s \<in> set ''+-'' then tl s else s);
          prefixed = starts_with ''0x'' s \<or> starts_with ''0X'' s;
          t = (if prefixed then drop 2 s else s);
          t = (if prefixed \<and> starts_with ''_'' t then tl t else t)
      in hex_groups False t)"

fun remove_all_text :: "nat \<Rightarrow> string \<Rightarrow> string \<Rightarrow> string" where
  "remove_all_text 0 pat s = s"
| "remove_all_text (Suc n) pat [] = []"
| "remove_all_text (Suc n) pat (c # cs) =
     (if pat \<noteq> [] \<and> starts_with pat (c # cs) then remove_all_text n pat (drop (length pat) (c # cs))
      else c # remove_all_text n pat cs)"

definition strip_set :: "char list \<Rightarrow> string \<Rightarrow> string" where
  "strip_set cs s = rev (dropWhile (\<lambda>c. c \<in> set cs) (rev (dropWhile (\<lambda>c. c \<in> set cs) s)))"

definition uuid_ok :: "string \<Rightarrow> bool" where
  "uuid_ok s =
     (let h = remove_all_text (length s) ''urn:'' s;
          h = remove_all_text (length h) ''uuid:'' h;
          h = filter (\<lambda>c. c \<noteq> CHR ''-'') (strip_set ''{}'' h)
      in length h = 32 \<and> int16_ok h)"

definition mk_principal :: "string \<Rightarrow> user_role \<Rightarrow> bool \<Rightarrow> acct_exn + auth_principal" where
  "mk_principal user_id role mfa =
     (if uuid_ok user_id then Inr \<lparr>pr_user_id = user_id, pr_role = role, pr_mfa = mfa\<rparr>
      else Inl (Domain ''invalid principal''))"

definition account_id :: "string \<Rightarrow> acct_exn + string" where
  "account_id v = (if uuid_ok v then Inr v else Inl (Domain ''invalid account id''))"

definition authorize :: "auth_principal option \<Rightarrow> action \<Rightarrow> string option \<Rightarrow> decision" where
  "authorize who act owner =
     (case who of
        None \<Rightarrow> DENY
      | Some p \<Rightarrow>
          if pr_user_id p = [] then DENY
          else (case owner of
                  None \<Rightarrow> DENY
                | Some ow \<Rightarrow> if ow = [] then DENY else if pr_user_id p = ow then ALLOW else DENY))"

definition authorize_admin :: "auth_principal option \<Rightarrow> bool \<Rightarrow> decision" where
  "authorize_admin who mfa_verified =
     (case who of
        None \<Rightarrow> DENY
      | Some p \<Rightarrow> if pr_role p \<noteq> ADMIN then DENY else if \<not> mfa_verified then DENY else ALLOW)"

section \<open>The session repository\<close>

record session_record =
  se_handle :: string
  se_user :: string
  se_created :: rat
  se_last_active :: rat
  se_expires :: rat
  se_role :: string
  se_mfa :: bool

definition session_json :: "(rat \<Rightarrow> string) \<Rightarrow> session_record \<Rightarrow> pyval" where
  "session_json isofmt r =
     PDict [(''handle'', PStr (se_handle r)), (''user_id'', PStr (se_user r)),
            (''created_at'', PStr (isofmt (se_created r))),
            (''last_active_at'', PStr (isofmt (se_last_active r))),
            (''expires_at'', PStr (isofmt (se_expires r))),
            (''role'', PStr (se_role r)), (''mfa_verified'', PBool (se_mfa r))]"

definition text_of :: "pyval option \<Rightarrow> string option" where
  "text_of v = (case v of Some (PStr s) \<Rightarrow> Some s | _ \<Rightarrow> None)"

definition instant_of :: "(string \<Rightarrow> rat option) \<Rightarrow> pyval option \<Rightarrow> rat option" where
  "instant_of fromiso v = (case text_of v of None \<Rightarrow> None | Some s \<Rightarrow> fromiso s)"

text \<open>
  Reading a session back; \<open>None\<close> is an exception of the reading, which the repository wraps. The
  role and the MFA flag have defaults for records written before they existed.
\<close>

definition session_of_json :: "(string \<Rightarrow> rat option) \<Rightarrow> pyval \<Rightarrow> session_record option" where
  "session_of_json fromiso v = (case v of
      PDict d \<Rightarrow>
        (case (text_of (dget d ''handle''), text_of (dget d ''user_id''),
               instant_of fromiso (dget d ''created_at''), instant_of fromiso (dget d ''last_active_at''),
               instant_of fromiso (dget d ''expires_at''),
               (case dget d ''role'' of None \<Rightarrow> Some ''USER'' | Some r \<Rightarrow> text_of (Some r))) of
           (Some h, Some u, Some c, Some l, Some e, Some r) \<Rightarrow>
             Some \<lparr>se_handle = h, se_user = u, se_created = c, se_last_active = l, se_expires = e,
                   se_role = r, se_mfa = py_truthy (pget d ''mfa_verified'')\<rparr>
         | _ \<Rightarrow> None)
    | _ \<Rightarrow> None)"

definition session_key :: "string \<Rightarrow> string" where
  "session_key h = ''session:'' @ h"

definition user_sessions_key :: "string \<Rightarrow> string" where
  "user_sessions_key u = ''user_sessions:'' @ u"

definition store_down :: "(acct_exn + 'a)" where
  "store_down = Inl (StoreUnavailable ''redis'')"

text \<open>\<open>int(seconds)\<close>\<close>

definition py_trunc :: "rat \<Rightarrow> int" where
  "py_trunc x = (if x < 0 then \<lceil>x\<rceil> else \<lfloor>x\<rfloor>)"

definition repo_save ::
  "'s redis \<Rightarrow> (rat \<Rightarrow> string) \<Rightarrow> rat \<Rightarrow> session_record \<Rightarrow> 's \<Rightarrow> (acct_exn + unit) \<times> 's" where
  "repo_save R isofmt now r s =
     (let ttl = py_trunc (se_expires r - now) in
      if ttl \<le> 0 then (Inr (), s)
      else case r_set R now (session_key (se_handle r)) (session_json isofmt r) (of_int ttl) s of
             (Inl _, s1) \<Rightarrow> (store_down, s1)
           | (Inr _, s1) \<Rightarrow>
               (case r_sadd R now (user_sessions_key (se_user r)) (se_handle r) s1 of
                  (Inl _, s2) \<Rightarrow> (store_down, s2)
                | (Inr _, s2) \<Rightarrow>
                    (case r_expire R now (user_sessions_key (se_user r)) (of_int ttl) s2 of
                       (Inl _, s3) \<Rightarrow> (store_down, s3)
                     | (Inr _, s3) \<Rightarrow> (Inr (), s3))))"

definition repo_get ::
  "'s redis \<Rightarrow> (string \<Rightarrow> rat option) \<Rightarrow> rat \<Rightarrow> string \<Rightarrow> 's \<Rightarrow> (acct_exn + session_record option) \<times> 's" where
  "repo_get R fromiso now h s =
     (case r_get R now (session_key h) s of
        (Inl _, s1) \<Rightarrow> (store_down, s1)
      | (Inr None, s1) \<Rightarrow> (Inr None, s1)
      | (Inr (Some v), s1) \<Rightarrow>
          (case session_of_json fromiso v of
             None \<Rightarrow> (store_down, s1)
           | Some r \<Rightarrow> (Inr (Some r), s1)))"

definition repo_delete :: "'s redis \<Rightarrow> rat \<Rightarrow> string \<Rightarrow> 's \<Rightarrow> (acct_exn + unit) \<times> 's" where
  "repo_delete R now h s =
     (case r_delete R now [session_key h] s of
        (Inl _, s1) \<Rightarrow> (store_down, s1) | (Inr _, s1) \<Rightarrow> (Inr (), s1))"

definition repo_invalidate_all :: "'s redis \<Rightarrow> rat \<Rightarrow> string \<Rightarrow> 's \<Rightarrow> (acct_exn + unit) \<times> 's" where
  "repo_invalidate_all R now user s =
     (case r_smembers R now (user_sessions_key user) s of
        (Inl _, s1) \<Rightarrow> (store_down, s1)
      | (Inr handles, s1) \<Rightarrow>
          (case (if handles \<noteq> [] then r_delete R now (map session_key handles) s1 else (Inr (), s1)) of
             (Inl _, s2) \<Rightarrow> (store_down, s2)
           | (Inr _, s2) \<Rightarrow>
               (case r_delete R now [user_sessions_key user] s2 of
                  (Inl _, s3) \<Rightarrow> (store_down, s3) | (Inr _, s3) \<Rightarrow> (Inr (), s3))))"

section \<open>The session manager\<close>

record session_cfg =
  cfg_isofmt :: "rat \<Rightarrow> string"
  cfg_fromiso :: "string \<Rightarrow> rat option"
  idle_timeout_hours :: rat
  max_lifetime_days :: rat

definition idle_seconds :: "session_cfg \<Rightarrow> rat" where
  "idle_seconds cfg = idle_timeout_hours cfg * 3600"

definition lifetime_seconds :: "session_cfg \<Rightarrow> rat" where
  "lifetime_seconds cfg = max_lifetime_days cfg * 86400"

definition issue ::
  "'s redis \<Rightarrow> session_cfg \<Rightarrow> rat \<Rightarrow> string \<Rightarrow> auth_principal \<Rightarrow> 's \<Rightarrow> (acct_exn + session_record) \<times> 's" where
  "issue R cfg now handle p s =
     (let r = \<lparr>se_handle = handle, se_user = pr_user_id p, se_created = now, se_last_active = now,
               se_expires = now + lifetime_seconds cfg, se_role = role_value (pr_role p), se_mfa = pr_mfa p\<rparr>
      in case repo_save R (cfg_isofmt cfg) now r s of
           (Inl e, s1) \<Rightarrow> (Inl e, s1) | (Inr _, s1) \<Rightarrow> (Inr r, s1))"

text \<open>\<open>verify\<close> up to its last await: the session it is about to write back.\<close>

definition verify_read ::
  "'s redis \<Rightarrow> session_cfg \<Rightarrow> rat \<Rightarrow> string \<Rightarrow> 's \<Rightarrow> (acct_exn + session_record) \<times> 's" where
  "verify_read R cfg now token s =
     (if token = [] then (Inl (Unauthorized ''missing token''), s)
      else case repo_get R (cfg_fromiso cfg) now token s of
        (Inl (StoreUnavailable m), s1) \<Rightarrow> (Inl (Unauthorized ''session store unavailable''), s1)
      | (Inl e, s1) \<Rightarrow> (Inl e, s1)
      | (Inr None, s1) \<Rightarrow> (Inl (SessionExpired ''unknown session''), s1)
      | (Inr (Some r), s1) \<Rightarrow>
          if now > se_last_active r + idle_seconds cfg then
            (case repo_delete R now token s1 of
               (Inl e, s2) \<Rightarrow> (Inl e, s2) | (Inr _, s2) \<Rightarrow> (Inl (SessionExpired ''idle''), s2))
          else if now > se_expires r then
            (case repo_delete R now token s1 of
               (Inl e, s2) \<Rightarrow> (Inl e, s2) | (Inr _, s2) \<Rightarrow> (Inl (SessionExpired ''lifetime''), s2))
          else (Inr (r\<lparr>se_last_active := now\<rparr>), s1))"

definition verify_write ::
  "'s redis \<Rightarrow> session_cfg \<Rightarrow> rat \<Rightarrow> session_record \<Rightarrow> 's \<Rightarrow> (acct_exn + auth_principal) \<times> 's" where
  "verify_write R cfg now r s =
     (case repo_save R (cfg_isofmt cfg) now r s of
        (Inl (StoreUnavailable m), s1) \<Rightarrow> (Inl (Unauthorized ''session not refreshed''), s1)
      | (Inl e, s1) \<Rightarrow> (Inl e, s1)
      | (Inr _, s1) \<Rightarrow> (mk_principal (se_user r) (role_or_user (se_role r)) (se_mfa r), s1))"

definition verify ::
  "'s redis \<Rightarrow> session_cfg \<Rightarrow> rat \<Rightarrow> string \<Rightarrow> 's \<Rightarrow> (acct_exn + auth_principal) \<times> 's" where
  "verify R cfg now token s =
     (case verify_read R cfg now token s of
        (Inl e, s1) \<Rightarrow> (Inl e, s1) | (Inr r, s1) \<Rightarrow> verify_write R cfg now r s1)"

definition elevate_mfa ::
  "'s redis \<Rightarrow> session_cfg \<Rightarrow> rat \<Rightarrow> string \<Rightarrow> 's \<Rightarrow> (acct_exn + auth_principal) \<times> 's" where
  "elevate_mfa R cfg now token s =
     (case verify R cfg now token s of
        (Inl e, s1) \<Rightarrow> (Inl e, s1)
      | (Inr p, s1) \<Rightarrow>
          (case repo_get R (cfg_fromiso cfg) now token s1 of
             (Inl e, s2) \<Rightarrow> (Inl e, s2)
           | (Inr None, s2) \<Rightarrow> (Inl (SessionExpired ''unknown session''), s2)
           | (Inr (Some r), s2) \<Rightarrow>
               (case repo_save R (cfg_isofmt cfg) now (r\<lparr>se_mfa := True\<rparr>) s2 of
                  (Inl (StoreUnavailable m), s3) \<Rightarrow> (Inl (Unauthorized ''elevation not saved''), s3)
                | (Inl e, s3) \<Rightarrow> (Inl e, s3)
                | (Inr _, s3) \<Rightarrow> (mk_principal (pr_user_id p) (pr_role p) True, s3))))"

definition invalidate :: "'s redis \<Rightarrow> rat \<Rightarrow> string \<Rightarrow> 's \<Rightarrow> (acct_exn + unit) \<times> 's" where
  "invalidate R now token s =
     (if token = [] then (Inr (), s)
      else case repo_delete R now token s of
        (Inl (StoreUnavailable m), s1) \<Rightarrow> (Inr (), s1)
      | (out, s1) \<Rightarrow> (out, s1))"

definition invalidate_all_for_user :: "'s redis \<Rightarrow> rat \<Rightarrow> string \<Rightarrow> 's \<Rightarrow> (acct_exn + unit) \<times> 's" where
  "invalidate_all_for_user R now user s = repo_invalidate_all R now user s"

end
