(* ===== verification/Acct_Store.thy ===== *)
theory Acct_Store imports Acct_Sessions begin

text \<open>
  What the accounts module (U3) keeps in SQL, and the values it checks before: e-mail addresses
  (\<open>accounts/models.py\<close>), the password policy (\<open>accounts/password.py\<close>) and
  \<open>CredentialRepository\<close> (\<open>accounts/repository/credential.py\<close>). A table is a dictionary on its
  primary key; a flush that violates a primary key or the unique e-mail column raises. The consent
  columns, which this module only fills with their defaults, and the cached ORCID profile are left
  out. The blacklist file of passwords is a parameter.
\<close>

section \<open>Values\<close>

datatype account_status = PENDING | ACTIVE | LOCKED | DEACTIVATED

datatype oidc_provider = GOOGLE | ORCID

fun provider_value :: "oidc_provider \<Rightarrow> string" where
  "provider_value GOOGLE = ''GOOGLE''"
| "provider_value ORCID = ''ORCID''"

definition normalize_email :: "string \<Rightarrow> string" where
  "normalize_email raw = (if raw \<noteq> [] then py_lower (py_strip raw) else raw)"

definition ascii_alnum :: "char \<Rightarrow> bool" where
  "ascii_alnum c \<longleftrightarrow> (CHR ''a'' \<le> c \<and> c \<le> CHR ''z'') \<or> (CHR ''A'' \<le> c \<and> c \<le> CHR ''Z'') \<or> (CHR ''0'' \<le> c \<and> c \<le> CHR ''9'')"

definition local_char :: "char \<Rightarrow> bool" where
  "local_char c \<longleftrightarrow> ascii_alnum c \<or> c \<in> set ''_.+-''"

definition domain_char :: "char \<Rightarrow> bool" where
  "domain_char c \<longleftrightarrow> ascii_alnum c \<or> c = CHR ''-''"

text \<open>The pattern; \<open>$\<close> also matches before a trailing newline.\<close>

definition email_core :: "string \<Rightarrow> bool" where
  "email_core v =
     (let rest = dropWhile local_char v;
          host = tl rest;
          suffix = dropWhile domain_char host
      in takeWhile local_char v \<noteq> [] \<and> rest \<noteq> [] \<and> hd rest = CHR ''@'' \<and>
         takeWhile domain_char host \<noteq> [] \<and> suffix \<noteq> [] \<and> hd suffix = CHR ''.'' \<and>
         tl suffix \<noteq> [] \<and> (\<forall>c \<in> set (tl suffix). domain_char c \<or> c = CHR ''.''))"

definition email_pattern :: "string \<Rightarrow> bool" where
  "email_pattern v \<longleftrightarrow> email_core v \<or> (v \<noteq> [] \<and> last v = CHR 0x0A \<and> email_core (butlast v))"

fun split_at_char :: "char \<Rightarrow> string \<Rightarrow> string list" where
  "split_at_char x [] = [[]]"
| "split_at_char x (c # cs) =
     (if c = x then [] # split_at_char x cs
      else case split_at_char x cs of p # ps \<Rightarrow> (c # p) # ps | [] \<Rightarrow> [[c]])"

definition email_address :: "string \<Rightarrow> acct_exn + string" where
  "email_address v =
     (if v = [] \<or> CHR ''@'' \<notin> set v then Inl (InvalidEmail ''no @'')
      else if length v > 254 then Inl (InvalidEmail ''too long'')
      else if length (hd (split_at_char (CHR ''@'') v)) > 64 then Inl (InvalidEmail ''local part too long'')
      else if length (last (split_at_char (CHR ''@'') v)) > 255 then Inl (InvalidEmail ''domain too long'')
      else if \<not> email_pattern v then Inl (InvalidEmail ''format'')
      else Inr v)"

definition special_char :: "char \<Rightarrow> bool" where
  "special_char c \<longleftrightarrow> c \<in> set ''!@#$%^&*(),.?:{}|<>-_=+/[]~;'' \<union> {CHR 0x22, CHR 0x27, CHR 0x5C, CHR 0x60}"

definition password_policy :: "string list \<Rightarrow> string \<Rightarrow> acct_exn + bool" where
  "password_policy blacklist pw =
     (if length pw < 10 then Inl (InvalidPassword ''length'')
      else if \<not> (\<exists>c \<in> set pw. CHR ''A'' \<le> c \<and> c \<le> CHR ''Z'') then Inl (InvalidPassword ''uppercase'')
      else if \<not> (\<exists>c \<in> set pw. CHR ''a'' \<le> c \<and> c \<le> CHR ''z'') then Inl (InvalidPassword ''lowercase'')
      else if \<not> (\<exists>c \<in> set pw. py_isdigit c) then Inl (InvalidPassword ''digit'')
      else if \<not> (\<exists>c \<in> set pw. special_char c) then Inl (InvalidPassword ''special'')
      else if py_lower pw \<in> set blacklist then Inl (InvalidPassword ''blacklisted'')
      else Inr True)"

section \<open>Tables\<close>

record account =
  ac_id :: string
  ac_email :: "string option"
  ac_hash :: string
  ac_status :: account_status
  ac_created :: rat
  ac_failures :: int
  ac_last_failed :: "rat option"
  ac_role :: string
  ac_totp :: "string option"

record mail_token =
  mt_email :: string
  mt_expires :: rat

datatype link_status = LINKED | PENDING_CONFIRMATION

record social_identity =
  si_account :: string
  si_email :: "string option"
  si_status :: link_status

record email_change =
  cr_account :: string
  cr_new_email :: string
  cr_expires :: rat
  cr_revoke :: "string option"

datatype deletion_state = DEL_DEACTIVATED | DEL_PURGED | DEL_PURGE_FAILED

record account_deletion =
  dl_account :: string
  dl_requested :: rat
  dl_purge_after :: rat
  dl_state :: deletion_state
  dl_attempts :: int

text \<open>Tables of other modules, as the purge of an owner's data sees them: columns and rows.\<close>

record owner_rows =
  or_columns :: "string list"
  or_rows :: "(string, string) dict list"

record acct_db =
  db_accounts :: "(string, account) dict"
  db_vtokens :: "(string, mail_token) dict"
  db_rtokens :: "(string, mail_token) dict"
  db_social :: "(string \<times> string, social_identity) dict"
  db_changes :: "(string, email_change) dict"
  db_deletions :: "(string, account_deletion) dict"
  db_owned :: "(string, owner_rows) dict"

definition SOCIAL_NO_PASSWORD_HASH :: string where "SOCIAL_NO_PASSWORD_HASH = ''!''"

definition has_usable_password :: "account \<Rightarrow> bool" where
  "has_usable_password a \<longleftrightarrow> ac_hash a \<noteq> [] \<and> ac_hash a \<noteq> SOCIAL_NO_PASSWORD_HASH"

section \<open>The repository\<close>

definition row_where :: "('v \<Rightarrow> bool) \<Rightarrow> ('k, 'v) dict \<Rightarrow> 'v option" where
  "row_where P d = map_option snd (find (\<lambda>e. P (snd e)) d)"

definition delete_where :: "('v \<Rightarrow> bool) \<Rightarrow> ('k, 'v) dict \<Rightarrow> ('k, 'v) dict" where
  "delete_where P d = filter (\<lambda>e. \<not> P (snd e)) d"

definition integrity :: "acct_exn + 'a" where
  "integrity = Inl (Unexpected ''integrity'')"

definition insert_row :: "'k \<Rightarrow> 'v \<Rightarrow> ('k, 'v) dict \<Rightarrow> acct_exn + ('k, 'v) dict" where
  "insert_row k v d = (if k \<in> set (dkeys d) then integrity else Inr (d @ [(k, v)]))"

definition email_taken :: "string \<Rightarrow> string option \<Rightarrow> acct_db \<Rightarrow> bool" where
  "email_taken k e db \<longleftrightarrow> e \<noteq> None \<and> (\<exists>(k', a) \<in> set (db_accounts db). k' \<noteq> k \<and> ac_email a = e)"

definition get_by_email :: "acct_db \<Rightarrow> string \<Rightarrow> account option" where
  "get_by_email db e = row_where (\<lambda>a. ac_email a = Some e) (db_accounts db)"

definition get_by_id :: "acct_db \<Rightarrow> string \<Rightarrow> account option" where
  "get_by_id db k = dget (db_accounts db) k"

text \<open>\<open>update_account\<close>: the flush of a changed row.\<close>

definition update_account :: "account \<Rightarrow> acct_db \<Rightarrow> acct_exn + acct_db" where
  "update_account a db =
     (if email_taken (ac_id a) (ac_email a) db then integrity
      else Inr (db\<lparr>db_accounts := dset (ac_id a) a (db_accounts db)\<rparr>))"

definition insert_account :: "account \<Rightarrow> acct_db \<Rightarrow> acct_exn + acct_db" where
  "insert_account a db =
     (if email_taken (ac_id a) (ac_email a) db then integrity
      else case insert_row (ac_id a) a (db_accounts db) of
             Inl e \<Rightarrow> Inl e | Inr d \<Rightarrow> Inr (db\<lparr>db_accounts := d\<rparr>))"

definition new_account :: "string \<Rightarrow> string option \<Rightarrow> string \<Rightarrow> account_status \<Rightarrow> rat \<Rightarrow> account" where
  "new_account k e h st now =
     \<lparr>ac_id = k, ac_email = e, ac_hash = h, ac_status = st, ac_created = now, ac_failures = 0,
      ac_last_failed = None, ac_role = ''USER'', ac_totp = None\<rparr>"

definition create_account :: "string \<Rightarrow> rat \<Rightarrow> string \<Rightarrow> string \<Rightarrow> acct_db \<Rightarrow> acct_exn + account \<times> acct_db" where
  "create_account fresh now e h db =
     (if get_by_email db e \<noteq> None then Inl (Domain ''email registered'')
      else let a = new_account fresh (Some e) h PENDING now in
           case insert_account a db of Inl x \<Rightarrow> Inl x | Inr db' \<Rightarrow> Inr (a, db'))"

definition create_social_account :: "string \<Rightarrow> rat \<Rightarrow> string option \<Rightarrow> acct_db \<Rightarrow> acct_exn + account \<times> acct_db" where
  "create_social_account fresh now e db =
     (if (case e of None \<Rightarrow> False | Some x \<Rightarrow> get_by_email db x \<noteq> None) then Inl (Domain ''email registered'')
      else let a = new_account fresh e SOCIAL_NO_PASSWORD_HASH ACTIVE now in
           case insert_account a db of Inl x \<Rightarrow> Inl x | Inr db' \<Rightarrow> Inr (a, db'))"

definition create_verification_token :: "string \<Rightarrow> string \<Rightarrow> rat \<Rightarrow> acct_db \<Rightarrow> acct_exn + acct_db" where
  "create_verification_token e token expires db =
     (case insert_row token \<lparr>mt_email = e, mt_expires = expires\<rparr>
             (delete_where (\<lambda>t. mt_email t = e) (db_vtokens db)) of
        Inl x \<Rightarrow> Inl x | Inr d \<Rightarrow> Inr (db\<lparr>db_vtokens := d\<rparr>))"

definition get_verification_token :: "acct_db \<Rightarrow> string \<Rightarrow> mail_token option" where
  "get_verification_token db token = dget (db_vtokens db) token"

definition delete_verification_token :: "string \<Rightarrow> acct_db \<Rightarrow> acct_db" where
  "delete_verification_token token db = db\<lparr>db_vtokens := ddel token (db_vtokens db)\<rparr>"

definition create_reset_token :: "string \<Rightarrow> string \<Rightarrow> rat \<Rightarrow> acct_db \<Rightarrow> acct_exn + acct_db" where
  "create_reset_token e token expires db =
     (case insert_row token \<lparr>mt_email = e, mt_expires = expires\<rparr>
             (delete_where (\<lambda>t. mt_email t = e) (db_rtokens db)) of
        Inl x \<Rightarrow> Inl x | Inr d \<Rightarrow> Inr (db\<lparr>db_rtokens := d\<rparr>))"

definition get_reset_token :: "acct_db \<Rightarrow> string \<Rightarrow> mail_token option" where
  "get_reset_token db token = dget (db_rtokens db) token"

definition delete_reset_token :: "string \<Rightarrow> acct_db \<Rightarrow> acct_db" where
  "delete_reset_token token db = db\<lparr>db_rtokens := ddel token (db_rtokens db)\<rparr>"

definition get_social_identity :: "acct_db \<Rightarrow> string \<Rightarrow> string \<Rightarrow> social_identity option" where
  "get_social_identity db p subject = dget (db_social db) (p, subject)"

definition create_social_identity ::
  "string \<Rightarrow> string \<Rightarrow> string \<Rightarrow> string option \<Rightarrow> link_status \<Rightarrow> acct_db \<Rightarrow> acct_exn + acct_db" where
  "create_social_identity p subject account e st db =
     (case insert_row (p, subject) \<lparr>si_account = account, si_email = e, si_status = st\<rparr> (db_social db) of
        Inl x \<Rightarrow> Inl x | Inr d \<Rightarrow> Inr (db\<lparr>db_social := d\<rparr>))"

definition confirm_social_links_for_account :: "string \<Rightarrow> acct_db \<Rightarrow> nat \<times> acct_db" where
  "confirm_social_links_for_account account db =
     (let pending = (\<lambda>s. si_account s = account \<and> si_status s = PENDING_CONFIRMATION)
      in (length (filter (\<lambda>e. pending (snd e)) (db_social db)),
          db\<lparr>db_social := map (\<lambda>(k, s). (k, if pending s then s\<lparr>si_status := LINKED\<rparr> else s)) (db_social db)\<rparr>))"

definition create_email_change_request ::
  "string \<Rightarrow> string \<Rightarrow> string \<Rightarrow> rat \<Rightarrow> string option \<Rightarrow> acct_db \<Rightarrow> acct_exn + acct_db" where
  "create_email_change_request account e token expires revoke db =
     (case insert_row token \<lparr>cr_account = account, cr_new_email = e, cr_expires = expires, cr_revoke = revoke\<rparr>
             (delete_where (\<lambda>r. cr_account r = account) (db_changes db)) of
        Inl x \<Rightarrow> Inl x | Inr d \<Rightarrow> Inr (db\<lparr>db_changes := d\<rparr>))"

definition get_email_change_request :: "acct_db \<Rightarrow> string \<Rightarrow> email_change option" where
  "get_email_change_request db token = dget (db_changes db) token"

definition get_email_change_request_by_revoke_hash :: "acct_db \<Rightarrow> string \<Rightarrow> (string \<times> email_change) option" where
  "get_email_change_request_by_revoke_hash db revoke =
     find (\<lambda>e. cr_revoke (snd e) = Some revoke) (db_changes db)"

definition delete_email_change_request :: "string \<Rightarrow> acct_db \<Rightarrow> acct_db" where
  "delete_email_change_request token db = db\<lparr>db_changes := ddel token (db_changes db)\<rparr>"

definition get_account_deletion :: "acct_db \<Rightarrow> string \<Rightarrow> account_deletion option" where
  "get_account_deletion db account = dget (db_deletions db) account"

definition create_account_deletion :: "rat \<Rightarrow> string \<Rightarrow> rat \<Rightarrow> acct_db \<Rightarrow> acct_db" where
  "create_account_deletion now account purge_after db =
     (case get_account_deletion db account of
        Some r \<Rightarrow> db
      | None \<Rightarrow> db\<lparr>db_deletions := dset account
          \<lparr>dl_account = account, dl_requested = now, dl_purge_after = purge_after,
           dl_state = DEL_DEACTIVATED, dl_attempts = 0\<rparr> (db_deletions db)\<rparr>)"

definition get_due_deletions :: "acct_db \<Rightarrow> rat \<Rightarrow> account_deletion list" where
  "get_due_deletions db now =
     filter (\<lambda>r. dl_state r = DEL_DEACTIVATED \<and> dl_purge_after r \<le> now) (map snd (db_deletions db))"

definition delete_account_permanently :: "string \<Rightarrow> acct_db \<Rightarrow> acct_db" where
  "delete_account_permanently account db =
     (let db = (case get_by_id db account of
                  None \<Rightarrow> db
                | Some a \<Rightarrow> db\<lparr>db_vtokens := delete_where (\<lambda>t. Some (mt_email t) = ac_email a) (db_vtokens db),
                               db_rtokens := delete_where (\<lambda>t. Some (mt_email t) = ac_email a) (db_rtokens db)\<rparr>)
      in db\<lparr>db_social := delete_where (\<lambda>s. si_account s = account) (db_social db),
            db_changes := delete_where (\<lambda>r. cr_account r = account) (db_changes db),
            db_accounts := ddel account (db_accounts db)\<rparr>)"

definition mark_deletion_purged :: "string \<Rightarrow> acct_db \<Rightarrow> acct_db" where
  "mark_deletion_purged account db =
     (case get_account_deletion db account of
        None \<Rightarrow> db
      | Some r \<Rightarrow> db\<lparr>db_deletions := dset account (r\<lparr>dl_state := DEL_PURGED\<rparr>) (db_deletions db)\<rparr>)"

definition increment_deletion_attempts :: "string \<Rightarrow> acct_db \<Rightarrow> int \<times> acct_db" where
  "increment_deletion_attempts account db =
     (case get_account_deletion db account of
        None \<Rightarrow> (0, db)
      | Some r \<Rightarrow> (dl_attempts r + 1,
          db\<lparr>db_deletions := dset account (r\<lparr>dl_attempts := dl_attempts r + 1\<rparr>) (db_deletions db)\<rparr>))"

definition mark_deletion_failed :: "string \<Rightarrow> acct_db \<Rightarrow> acct_db" where
  "mark_deletion_failed account db =
     (case get_account_deletion db account of
        None \<Rightarrow> db
      | Some r \<Rightarrow> db\<lparr>db_deletions := dset account (r\<lparr>dl_state := DEL_PURGE_FAILED\<rparr>) (db_deletions db)\<rparr>)"

definition delete_account_deletion :: "string \<Rightarrow> acct_db \<Rightarrow> acct_db" where
  "delete_account_deletion account db = db\<lparr>db_deletions := ddel account (db_deletions db)\<rparr>"

end
