(* ===== verification/Acct_Auth.thy ===== *)
theory Acct_Auth imports Acct_Store begin

text \<open>
  Requests of the accounts module (U3): what one works on, and signing in.
  \<open>AuthenticationService.authenticate\<close> (\<open>accounts/services/auth.py\<close>) and the endpoints of
  \<open>accounts/controller.py\<close> about sessions: login, reactivation, logout, session information, the
  administrator check. A request works on an uncommitted view of the tables; its end commits it or
  rolls it back, while Redis, mail and delays are not undone. Hashing, CAPTCHA, mail delivery,
  encryption, one-time codes and the random tokens are parameters.
\<close>

section \<open>Requests\<close>

datatype mail_kind = VerifyMail | ResetMail | ChangeMail | ChangeNotice | ExistsNotice

datatype acct_effect =
    KdfVerify string
  | Backoff int
  | Mail mail_kind string string
  | Signal string string
  | Published string

record 's acct_world =
  aw_db :: acct_db
  aw_saved :: acct_db
  aw_store :: 's
  aw_out :: "acct_effect list"

record 's acct_env =
  ev_redis :: "'s redis"
  ev_cfg :: session_cfg
  ev_verify :: "string \<Rightarrow> string \<Rightarrow> bool"
  ev_needs_rehash :: "string \<Rightarrow> bool"
  ev_kdf :: "string \<Rightarrow> string option"
  ev_sha :: "string \<Rightarrow> string"
  ev_captcha :: "string \<Rightarrow> string option \<Rightarrow> bool"
  ev_sends :: "mail_kind \<Rightarrow> string \<Rightarrow> bool"
  ev_blacklist :: "string list"
  ev_cipher :: "((string \<Rightarrow> string) \<times> (string \<Rightarrow> string option)) option"
  ev_totp :: "string \<Rightarrow> string \<Rightarrow> bool"

type_synonym ('s, 'a) acct_act = "'s acct_world \<Rightarrow> (acct_exn + 'a) \<times> 's acct_world"

named_theorems act_simps "equations of the request operations"

definition aret :: "'a \<Rightarrow> ('s, 'a) acct_act" where
  "aret x w = (Inr x, w)"

definition araise :: "acct_exn \<Rightarrow> ('s, 'a) acct_act" where
  "araise e w = (Inl e, w)"

definition abind :: "('s, 'a) acct_act \<Rightarrow> ('a \<Rightarrow> ('s, 'b) acct_act) \<Rightarrow> ('s, 'b) acct_act" where
  "abind m f w = (case m w of (Inl e, w') \<Rightarrow> (Inl e, w') | (Inr x, w') \<Rightarrow> f x w')"

definition alift :: "acct_exn + 'a \<Rightarrow> ('s, 'a) acct_act" where
  "alift r w = (r, w)"

definition aget :: "(acct_db \<Rightarrow> 'a) \<Rightarrow> ('s, 'a) acct_act" where
  "aget f w = (Inr (f (aw_db w)), w)"

definition aupd :: "(acct_db \<Rightarrow> acct_exn + acct_db) \<Rightarrow> ('s, unit) acct_act" where
  "aupd f w = (case f (aw_db w) of Inl e \<Rightarrow> (Inl e, w) | Inr db \<Rightarrow> (Inr (), w\<lparr>aw_db := db\<rparr>))"

definition aupd_val :: "(acct_db \<Rightarrow> acct_exn + 'a \<times> acct_db) \<Rightarrow> ('s, 'a) acct_act" where
  "aupd_val f w = (case f (aw_db w) of Inl e \<Rightarrow> (Inl e, w) | Inr (x, db) \<Rightarrow> (Inr x, w\<lparr>aw_db := db\<rparr>))"

definition aput :: "(acct_db \<Rightarrow> acct_db) \<Rightarrow> ('s, unit) acct_act" where
  "aput f w = (Inr (), w\<lparr>aw_db := f (aw_db w)\<rparr>)"

definition atell :: "acct_effect \<Rightarrow> ('s, unit) acct_act" where
  "atell t w = (Inr (), w\<lparr>aw_out := aw_out w @ [t]\<rparr>)"

definition aredis :: "('s \<Rightarrow> (acct_exn + 'a) \<times> 's) \<Rightarrow> ('s, 'a) acct_act" where
  "aredis f w = (case f (aw_store w) of (r, s) \<Rightarrow> (r, w\<lparr>aw_store := s\<rparr>))"

lemma abind_ret [act_simps]: "abind (aret x) f w = f x w" "abind (araise e) f' w = (Inl e, w)"
  by (simp_all add: abind_def aret_def araise_def)

lemma abind_get [act_simps]: "abind (aget g) f w = f (g (aw_db w)) w"
  by (simp add: abind_def aget_def)

lemma abind_put [act_simps]: "abind (aput g) f w = f () (w\<lparr>aw_db := g (aw_db w)\<rparr>)"
  by (simp add: abind_def aput_def)

lemma abind_tell [act_simps]: "abind (atell t) f w = f () (w\<lparr>aw_out := aw_out w @ [t]\<rparr>)"
  by (simp add: abind_def atell_def)

lemma abind_lift [act_simps]: "abind (alift r) f w = (case r of Inl e \<Rightarrow> (Inl e, w) | Inr x \<Rightarrow> f x w)"
  by (simp add: abind_def alift_def split: sum.split)

lemma abind_bind [act_simps]: "abind (abind m f) k w = abind m (\<lambda>x. abind (f x) k) w"
  by (simp add: abind_def split: prod.split sum.split)

lemmas act_run [act_simps] = aret_def araise_def alift_def aget_def aput_def atell_def

lemma abind_aupd [act_simps]:
  "abind (aupd g) h w = (case g (aw_db w) of Inl e \<Rightarrow> (Inl e, w) | Inr db \<Rightarrow> h () (w\<lparr>aw_db := db\<rparr>))"
  by (simp add: abind_def aupd_def split: sum.split)

lemma abind_aredis [act_simps]:
  "abind (aredis g) h w = (case g (aw_store w) of (Inl e, s) \<Rightarrow> (Inl e, w\<lparr>aw_store := s\<rparr>)
     | (Inr x, s) \<Rightarrow> h x (w\<lparr>aw_store := s\<rparr>))"
  by (simp add: abind_def aredis_def split: sum.split prod.split)

text \<open>The end of a request: the status and, after a sign-in, the session cookie.\<close>

datatype reply = Reply nat "string option"

definition commit :: "'s acct_world \<Rightarrow> 's acct_world" where
  "commit w = w\<lparr>aw_saved := aw_db w\<rparr>"

definition rollback :: "'s acct_world \<Rightarrow> 's acct_world" where
  "rollback w = w\<lparr>aw_db := aw_saved w\<rparr>"

definition transact ::
  "(acct_exn \<Rightarrow> nat) \<Rightarrow> ('a \<Rightarrow> reply) \<Rightarrow> ('s, 'a) acct_act \<Rightarrow> 's acct_world \<Rightarrow> reply \<times> 's acct_world" where
  "transact status ok m w =
     (case m w of
        (Inr x, w') \<Rightarrow> (ok x, commit w')
      | (Inl e, w') \<Rightarrow> (Reply (status e) None, rollback w'))"

section \<open>Authentication\<close>

definition CAPTCHA_THRESHOLD :: int where "CAPTCHA_THRESHOLD = 10"

definition DUMMY_HASH :: string where
  "DUMMY_HASH = ''$argon2id$v=19$m=65536,t=3,p=4$c29tZXNhbHQ$abcdefghijklmnopqrstuvwxyz0123456789abcd''"

definition captcha_gate ::
  "'s acct_env \<Rightarrow> account option \<Rightarrow> string option \<Rightarrow> string option \<Rightarrow> ('s, unit) acct_act" where
  "captcha_gate env acc captcha ip =
     (case acc of
        None \<Rightarrow> aret ()
      | Some a \<Rightarrow>
          if ac_failures a \<ge> CAPTCHA_THRESHOLD then
            (case captcha of
               None \<Rightarrow> araise (Domain ''captcha required'')
             | Some tok \<Rightarrow>
                 if tok = [] then araise (Domain ''captcha required'')
                 else if \<not> ev_captcha env tok ip then araise (Domain ''captcha failed'')
                 else aret ())
          else aret ())"

definition backoff_delay :: "int \<Rightarrow> int" where
  "backoff_delay n = (if n \<ge> 3 then min (2 ^ nat (n - 3)) 120 else 0)"

definition record_failure :: "account option \<Rightarrow> rat \<Rightarrow> ('s, int) acct_act" where
  "record_failure acc now =
     (case acc of
        None \<Rightarrow> aret 0
      | Some a \<Rightarrow>
          (let a = a\<lparr>ac_failures := ac_failures a + 1, ac_last_failed := Some now\<rparr>
           in abind (aupd (update_account a)) (\<lambda>_. aret (backoff_delay (ac_failures a)))))"

definition refuse :: "account option \<Rightarrow> rat \<Rightarrow> ('s, 'a) acct_act" where
  "refuse acc now =
     abind (record_failure acc now) (\<lambda>delay.
     abind (atell (Signal ''AuthFailureSignal'' ''invalid_credentials'')) (\<lambda>_.
     abind (if delay > 0 then atell (Backoff delay) else aret ()) (\<lambda>_.
     araise (Domain ''bad credentials''))))"

definition status_gate :: "bool \<Rightarrow> account \<Rightarrow> ('s, account) acct_act" where
  "status_gate reactivating a =
     (case ac_status a of
        PENDING \<Rightarrow> araise (Domain ''email not verified'')
      | LOCKED \<Rightarrow> araise (Domain ''locked'')
      | DEACTIVATED \<Rightarrow>
          abind (aget (\<lambda>db. get_account_deletion db (ac_id a))) (\<lambda>rec.
          if reactivating \<and> (case rec of None \<Rightarrow> False | Some r \<Rightarrow> dl_state r = DEL_DEACTIVATED) then
            (let a = a\<lparr>ac_status := ACTIVE\<rparr>
             in abind (aupd (update_account a)) (\<lambda>_.
                abind (aput (delete_account_deletion (ac_id a))) (\<lambda>_. aret a)))
          else araise (Domain ''deactivated''))
      | ACTIVE \<Rightarrow> aret a)"

definition reset_failures :: "account \<Rightarrow> ('s, account) acct_act" where
  "reset_failures a =
     (if ac_failures a > 0 then
        (let a = a\<lparr>ac_failures := 0, ac_last_failed := None\<rparr>
         in abind (aupd (update_account a)) (\<lambda>_. aret a))
      else aret a)"

definition upgrade_hash :: "'s acct_env \<Rightarrow> string \<Rightarrow> bool \<Rightarrow> account \<Rightarrow> ('s, account) acct_act" where
  "upgrade_hash env password needed a =
     (if needed then
        (case ev_kdf env password of
           None \<Rightarrow> aret a
         | Some h \<Rightarrow>
             (\<lambda>w. case update_account (a\<lparr>ac_hash := h\<rparr>) (aw_db w) of
                Inl e \<Rightarrow> (Inr (a\<lparr>ac_hash := h\<rparr>), w)
              | Inr db \<Rightarrow> (Inr (a\<lparr>ac_hash := h\<rparr>), w\<lparr>aw_db := db\<rparr>)))
      else aret a)"

definition sign_in ::
  "'s acct_env \<Rightarrow> rat \<Rightarrow> string \<Rightarrow> string \<Rightarrow> bool \<Rightarrow> account \<Rightarrow> ('s, string) acct_act" where
  "sign_in env now handle password reactivating a0 =
     abind (status_gate reactivating a0) (\<lambda>a1.
     abind (reset_failures a1) (\<lambda>a2.
     abind (upgrade_hash env password (ev_needs_rehash env (ac_hash a0)) a2) (\<lambda>a.
     abind (alift (mk_principal (ac_id a) (role_or_user (ac_role a)) False)) (\<lambda>p.
     abind (aredis (issue (ev_redis env) (ev_cfg env) now handle p)) (\<lambda>session.
     abind (atell (Signal ''LoginSuccess'' (ac_id a))) (\<lambda>_.
     aret (se_handle session)))))))"

definition authenticate ::
  "'s acct_env \<Rightarrow> rat \<Rightarrow> string \<Rightarrow> string \<Rightarrow> string \<Rightarrow> string option \<Rightarrow> string option \<Rightarrow> bool \<Rightarrow> ('s, string) acct_act" where
  "authenticate env now handle email password captcha ip reactivating =
     abind (aget (\<lambda>db. get_by_email db (normalize_email email))) (\<lambda>acc.
     abind (captcha_gate env acc captcha ip) (\<lambda>_.
     let target = (case acc of None \<Rightarrow> DUMMY_HASH | Some a \<Rightarrow> ac_hash a) in
     abind (atell (KdfVerify target)) (\<lambda>_.
     case acc of
       None \<Rightarrow> refuse acc now
     | Some a \<Rightarrow>
         if ev_verify env target password then sign_in env now handle password reactivating a
         else refuse acc now)))"

section \<open>The session endpoints\<close>

definition login_status :: "acct_exn \<Rightarrow> nat" where
  "login_status e = (case e of StoreUnavailable _ \<Rightarrow> 503 | Unexpected _ \<Rightarrow> 500 | _ \<Rightarrow> 401)"

definition login ::
  "'s acct_env \<Rightarrow> rat \<Rightarrow> string \<Rightarrow> string \<Rightarrow> string \<Rightarrow> string option \<Rightarrow> string option \<Rightarrow> 's acct_world \<Rightarrow> reply \<times> 's acct_world" where
  "login env now handle email password captcha ip =
     transact login_status (\<lambda>h. Reply 200 (Some h)) (authenticate env now handle email password captcha ip False)"

definition reactivate_account ::
  "'s acct_env \<Rightarrow> rat \<Rightarrow> string \<Rightarrow> string \<Rightarrow> string \<Rightarrow> string option \<Rightarrow> string option \<Rightarrow> 's acct_world \<Rightarrow> reply \<times> 's acct_world" where
  "reactivate_account env now handle email password captcha ip =
     transact login_status (\<lambda>h. Reply 200 (Some h)) (authenticate env now handle email password captcha ip True)"

definition session_status :: "acct_exn \<Rightarrow> nat" where
  "session_status e = (case e of Unauthorized _ \<Rightarrow> 401 | SessionExpired _ \<Rightarrow> 401 | _ \<Rightarrow> 500)"

definition averify :: "'s acct_env \<Rightarrow> rat \<Rightarrow> string \<Rightarrow> ('s, auth_principal) acct_act" where
  "averify env now cookie = aredis (verify (ev_redis env) (ev_cfg env) now cookie)"

definition get_session_info :: "'s acct_env \<Rightarrow> rat \<Rightarrow> string \<Rightarrow> 's acct_world \<Rightarrow> reply \<times> string option \<times> 's acct_world" where
  "get_session_info env now cookie w =
     (if cookie = [] then (Reply 401 None, None, w)
      else case averify env now cookie w of
        (Inr p, w') \<Rightarrow> (Reply 200 None, Some (pr_user_id p), w')
      | (Inl e, w') \<Rightarrow> (Reply (session_status e) None, None, w'))"

definition logout :: "'s acct_env \<Rightarrow> rat \<Rightarrow> string \<Rightarrow> 's acct_world \<Rightarrow> reply \<times> 's acct_world" where
  "logout env now cookie w =
     (if cookie = [] then (Reply 200 None, w)
      else case aredis (invalidate (ev_redis env) now cookie) w of
        (Inr _, w') \<Rightarrow> (Reply 200 None, w')
      | (Inl (StoreUnavailable m), w') \<Rightarrow> (Reply 200 None, w')
      | (Inl _, w') \<Rightarrow> (Reply 500 None, w'))"

definition admin_whoami :: "'s acct_env \<Rightarrow> rat \<Rightarrow> string \<Rightarrow> 's acct_world \<Rightarrow> reply \<times> 's acct_world" where
  "admin_whoami env now cookie w =
     (if cookie = [] then (Reply 401 None, w)
      else case averify env now cookie w of
        (Inr p, w') \<Rightarrow>
          (if authorize_admin (Some p) (pr_mfa p) \<noteq> ALLOW then (Reply 403 None, w') else (Reply 200 None, w'))
      | (Inl e, w') \<Rightarrow> (Reply (session_status e) None, w'))"

end
