(* ===== verification/Acct_Accounts.thy ===== *)
theory Acct_Accounts imports Acct_Auth begin

text \<open>
  The life of an account (U3): sign-up and verification (\<open>services/signup.py\<close>), password reset
  (\<open>services/password_reset.py\<close>), self-management (\<open>services/account_management.py\<close>), social
  sign-in (\<open>services/social_login.py\<close>), one-time codes (\<open>services/totp.py\<close>), and deletion with its
  purge (\<open>services/account_deletion.py\<close>, \<open>services/owner_data_purge.py\<close>), each with its endpoints of
  \<open>accounts/controller.py\<close>. Random identifiers and tokens, and whether a publication or a commit
  succeeds, are arguments.
\<close>

section \<open>Sign-up\<close>

definition HOURS_24 :: rat where "HOURS_24 = 86400"

definition register ::
  "'s acct_env \<Rightarrow> rat \<Rightarrow> string \<Rightarrow> string \<Rightarrow> string \<Rightarrow> string \<Rightarrow> ('s, string) acct_act" where
  "register env now fresh token email password =
     abind (alift (email_address (normalize_email email))) (\<lambda>e.
     abind (alift (password_policy (ev_blacklist env) password)) (\<lambda>_.
     case ev_kdf env password of
       None \<Rightarrow> araise (Unexpected ''kdf'')
     | Some h \<Rightarrow>
         abind (aget (\<lambda>db. get_by_email db e)) (\<lambda>existing.
         if existing \<noteq> None then
           abind (atell (Signal ''SignupAbuseSignal'' ''duplicate_email'')) (\<lambda>_.
           abind (atell (Mail ExistsNotice e [])) (\<lambda>_. aret fresh))
         else
           abind (aupd_val (create_account fresh now e h)) (\<lambda>a.
           abind (aupd (create_verification_token e (ev_sha env token) (now + HOURS_24))) (\<lambda>_.
           abind (atell (Mail VerifyMail e token)) (\<lambda>_.
           abind (atell (Signal ''AccountCreated'' (ac_id a))) (\<lambda>_. aret (ac_id a))))))))"

definition resend_verification :: "'s acct_env \<Rightarrow> rat \<Rightarrow> string \<Rightarrow> string \<Rightarrow> ('s, bool) acct_act" where
  "resend_verification env now token email =
     (case email_address (normalize_email email) of
        Inl _ \<Rightarrow> aret False
      | Inr e \<Rightarrow>
          abind (aget (\<lambda>db. get_by_email db e)) (\<lambda>acc.
          case acc of
            None \<Rightarrow> aret False
          | Some a \<Rightarrow>
              if ac_status a \<noteq> PENDING then aret False
              else abind (aupd (create_verification_token e (ev_sha env token) (now + HOURS_24))) (\<lambda>_.
                   abind (atell (Mail VerifyMail e token)) (\<lambda>_. aret (ev_sends env VerifyMail e)))))"

definition verify_email :: "'s acct_env \<Rightarrow> rat \<Rightarrow> string \<Rightarrow> ('s, bool) acct_act" where
  "verify_email env now token =
     (if token = [] then araise (Domain ''invalid token'')
      else abind (aget (\<lambda>db. get_verification_token db (ev_sha env token))) (\<lambda>rec.
      case rec of
        None \<Rightarrow> araise (Domain ''unknown token'')
      | Some t \<Rightarrow>
          if now > mt_expires t then
            abind (aput (delete_verification_token (ev_sha env token))) (\<lambda>_. araise (Domain ''expired token''))
          else abind (aget (\<lambda>db. get_by_email db (mt_email t))) (\<lambda>acc.
          case acc of
            None \<Rightarrow> araise (Domain ''no account'')
          | Some a \<Rightarrow>
              if ac_status a = ACTIVE then
                abind (aput (delete_verification_token (ev_sha env token))) (\<lambda>_. aret True)
              else
                abind (aupd (update_account (a\<lparr>ac_status := ACTIVE\<rparr>))) (\<lambda>_.
                abind (aput (delete_verification_token (ev_sha env token))) (\<lambda>_.
                abind (atell (Signal ''AccountActivated'' (ac_id a))) (\<lambda>_. aret True))))))"

section \<open>Password reset\<close>

definition MINUTES_30 :: rat where "MINUTES_30 = 1800"

definition ainvalidate_all :: "'s acct_env \<Rightarrow> rat \<Rightarrow> string \<Rightarrow> ('s, unit) acct_act" where
  "ainvalidate_all env now account = aredis (invalidate_all_for_user (ev_redis env) now account)"

definition request_reset :: "'s acct_env \<Rightarrow> rat \<Rightarrow> string \<Rightarrow> string \<Rightarrow> ('s, unit) acct_act" where
  "request_reset env now token email =
     abind (aget (\<lambda>db. get_by_email db (normalize_email email))) (\<lambda>acc.
     case acc of
       None \<Rightarrow> aret ()
     | Some a \<Rightarrow>
         if ac_status a \<noteq> ACTIVE then aret ()
         else abind (aupd (create_reset_token (normalize_email email) (ev_sha env token) (now + MINUTES_30))) (\<lambda>_.
              atell (Mail ResetMail (normalize_email email) token)))"

definition confirm_reset :: "'s acct_env \<Rightarrow> rat \<Rightarrow> string \<Rightarrow> string \<Rightarrow> ('s, unit) acct_act" where
  "confirm_reset env now token password =
     (if token = [] then araise (Domain ''invalid token'')
      else abind (aget (\<lambda>db. get_reset_token db (ev_sha env token))) (\<lambda>rec.
      case rec of
        None \<Rightarrow> araise (Domain ''invalid link'')
      | Some t \<Rightarrow>
          if now > mt_expires t then
            abind (aput (delete_reset_token (ev_sha env token))) (\<lambda>_. araise (Domain ''invalid link''))
          else abind (alift (password_policy (ev_blacklist env) password)) (\<lambda>_.
               abind (aget (\<lambda>db. get_by_email db (mt_email t))) (\<lambda>acc.
               case acc of
                 None \<Rightarrow> abind (aput (delete_reset_token (ev_sha env token))) (\<lambda>_. araise (Domain ''invalid link''))
               | Some a \<Rightarrow>
                   (case ev_kdf env password of
                      None \<Rightarrow> araise (Unexpected ''kdf'')
                    | Some h \<Rightarrow>
                        abind (aupd (update_account (a\<lparr>ac_hash := h, ac_failures := 0, ac_last_failed := None\<rparr>))) (\<lambda>_.
                        abind (aput (delete_reset_token (ev_sha env token))) (\<lambda>_.
                        ainvalidate_all env now (ac_id a))))))))"

section \<open>Self-management\<close>

definition the_account :: "string \<Rightarrow> ('s, account) acct_act" where
  "the_account k =
     abind (aget (\<lambda>db. get_by_id db k)) (\<lambda>acc.
     case acc of None \<Rightarrow> araise (Domain ''no account'') | Some a \<Rightarrow> aret a)"

definition change_password :: "'s acct_env \<Rightarrow> rat \<Rightarrow> string \<Rightarrow> string \<Rightarrow> string \<Rightarrow> ('s, unit) acct_act" where
  "change_password env now k current new =
     abind (the_account k) (\<lambda>a.
     if \<not> has_usable_password a then araise (Domain ''no password set'')
     else if \<not> ev_verify env (ac_hash a) current then araise (Domain ''wrong current password'')
     else abind (alift (password_policy (ev_blacklist env) new)) (\<lambda>_.
     case ev_kdf env new of
       None \<Rightarrow> araise (Unexpected ''kdf'')
     | Some h \<Rightarrow>
         abind (aupd (update_account (a\<lparr>ac_hash := h, ac_failures := 0, ac_last_failed := None\<rparr>))) (\<lambda>_.
         ainvalidate_all env now (ac_id a))))"

text \<open>Asking for the current password again; \<open>request_deletion\<close> has the same steps inline.\<close>

definition reauthenticate :: "'s acct_env \<Rightarrow> account \<Rightarrow> string option \<Rightarrow> ('s, unit) acct_act" where
  "reauthenticate env a current =
     (if \<not> has_usable_password a then aret ()
      else case current of
        None \<Rightarrow> araise (Domain ''current password required'')
      | Some p \<Rightarrow>
          if p = [] then araise (Domain ''current password required'')
          else if \<not> ev_verify env (ac_hash a) p then araise (Domain ''wrong current password'')
          else aret ())"

definition request_email_change ::
  "'s acct_env \<Rightarrow> rat \<Rightarrow> string \<Rightarrow> string \<Rightarrow> string \<Rightarrow> string \<Rightarrow> string option \<Rightarrow> ('s, unit) acct_act" where
  "request_email_change env now token revoke k new_email current =
     abind (the_account k) (\<lambda>a.
     abind (reauthenticate env a current) (\<lambda>_.
     abind (alift (email_address (normalize_email new_email))) (\<lambda>e.
     if Some e = ac_email a then araise (Domain ''same address'')
     else abind (aget (\<lambda>db. get_by_email db e)) (\<lambda>taken.
     if taken \<noteq> None then aret ()
     else
       abind (aupd (create_email_change_request (ac_id a) e (ev_sha env token) (now + MINUTES_30) (Some (ev_sha env revoke)))) (\<lambda>_.
       abind (atell (Mail ChangeMail e token)) (\<lambda>_.
       case ac_email a of
         None \<Rightarrow> aret ()
       | Some old \<Rightarrow> if old = [] then aret () else atell (Mail ChangeNotice old revoke)))))))"

definition revoke_email_change :: "'s acct_env \<Rightarrow> string \<Rightarrow> ('s, unit) acct_act" where
  "revoke_email_change env revoke =
     (if revoke = [] then araise (Domain ''invalid token'')
      else abind (aget (\<lambda>db. get_email_change_request_by_revoke_hash db (ev_sha env revoke))) (\<lambda>rec.
      case rec of
        None \<Rightarrow> araise (Domain ''unknown token'')
      | Some (token_hash, r) \<Rightarrow> aput (delete_email_change_request token_hash)))"

definition confirm_email_change :: "'s acct_env \<Rightarrow> rat \<Rightarrow> string \<Rightarrow> ('s, unit) acct_act" where
  "confirm_email_change env now token =
     (if token = [] then araise (Domain ''invalid token'')
      else let th = ev_sha env token; drop_it = (\<lambda>m. abind (aput (delete_email_change_request th)) (\<lambda>_. araise (Domain m)))
      in abind (aget (\<lambda>db. get_email_change_request db th)) (\<lambda>rec.
      case rec of
        None \<Rightarrow> araise (Domain ''invalid link'')
      | Some r \<Rightarrow>
          if now > cr_expires r then drop_it ''invalid link''
          else abind (aget (\<lambda>db. (get_by_id db (cr_account r), get_by_email db (cr_new_email r)))) (\<lambda>(acc, taken).
          case acc of
            None \<Rightarrow> drop_it ''invalid link''
          | Some a \<Rightarrow>
              if (case taken of None \<Rightarrow> False | Some t \<Rightarrow> ac_id t \<noteq> ac_id a) then drop_it ''address taken''
              else
                abind (aupd (update_account (a\<lparr>ac_email := Some (cr_new_email r)\<rparr>))) (\<lambda>_.
                abind (aput (delete_email_change_request th)) (\<lambda>_.
                ainvalidate_all env now (ac_id a))))))"

section \<open>Social sign-in\<close>

record oidc_claims =
  oc_subject :: string
  oc_email :: "string option"
  oc_verified :: bool
  oc_name :: "string option"

definition account_of_link :: "social_identity \<Rightarrow> ('s, string) acct_act" where
  "account_of_link l = (case si_status l of LINKED \<Rightarrow> aret (si_account l) | PENDING_CONFIRMATION \<Rightarrow> araise LinkRequired)"

definition reconcile_emailless :: "rat \<Rightarrow> string \<Rightarrow> oidc_provider \<Rightarrow> oidc_claims \<Rightarrow> ('s, string) acct_act" where
  "reconcile_emailless now fresh p claims =
     abind (aget (\<lambda>db. get_social_identity db (provider_value p) (oc_subject claims))) (\<lambda>link.
     case link of
       Some l \<Rightarrow> account_of_link l
     | None \<Rightarrow>
         abind (aupd_val (create_social_account fresh now None)) (\<lambda>a.
         abind (aupd (create_social_identity (provider_value p) (oc_subject claims) (ac_id a) None LINKED)) (\<lambda>_.
         aret (ac_id a))))"

definition reconcile :: "rat \<Rightarrow> string \<Rightarrow> oidc_provider \<Rightarrow> oidc_claims \<Rightarrow> ('s, string) acct_act" where
  "reconcile now fresh p claims =
     (case oc_email claims of
        None \<Rightarrow> reconcile_emailless now fresh p claims
      | Some raw \<Rightarrow>
          if \<not> oc_verified claims then araise (Domain ''address not verified'')
          else abind (aget (\<lambda>db. get_social_identity db (provider_value p) (oc_subject claims))) (\<lambda>link.
          case link of
            Some l \<Rightarrow> account_of_link l
          | None \<Rightarrow>
              (let e = normalize_email raw;
                   link_to = (\<lambda>k st. aupd (create_social_identity (provider_value p) (oc_subject claims) k (Some e) st))
               in abind (aget (\<lambda>db. get_by_email db e)) (\<lambda>acc.
               case acc of
                 None \<Rightarrow>
                   abind (aupd_val (create_social_account fresh now (Some e))) (\<lambda>a.
                   abind (link_to (ac_id a) LINKED) (\<lambda>_. aret (ac_id a)))
               | Some a \<Rightarrow>
                   if has_usable_password a then
                     abind (link_to (ac_id a) PENDING_CONFIRMATION) (\<lambda>_. araise LinkRequired)
                   else abind (link_to (ac_id a) LINKED) (\<lambda>_. aret (ac_id a))))))"

definition confirm_pending_links :: "string \<Rightarrow> ('s, nat) acct_act" where
  "confirm_pending_links k = aupd_val (\<lambda>db. Inr (confirm_social_links_for_account k db))"

section \<open>One-time codes\<close>

definition ENC_PREFIX :: string where "ENC_PREFIX = ''fernet:''"

definition encrypt_secret :: "'s acct_env \<Rightarrow> string \<Rightarrow> string" where
  "encrypt_secret env secret =
     (case ev_cipher env of None \<Rightarrow> secret | Some (enc, dec) \<Rightarrow> ENC_PREFIX @ enc secret)"

definition decrypt_secret :: "'s acct_env \<Rightarrow> string \<Rightarrow> string option" where
  "decrypt_secret env stored =
     (if stored = [] then None
      else if \<not> starts_with ENC_PREFIX stored then Some stored
      else case ev_cipher env of None \<Rightarrow> None | Some (enc, dec) \<Rightarrow> dec (drop (length ENC_PREFIX) stored))"

definition totp_enroll :: "'s acct_env \<Rightarrow> string \<Rightarrow> account \<Rightarrow> ('s, string) acct_act" where
  "totp_enroll env secret a =
     abind (aupd (update_account (a\<lparr>ac_totp := Some (encrypt_secret env secret)\<rparr>))) (\<lambda>_. aret secret)"

definition totp_verify :: "'s acct_env \<Rightarrow> account \<Rightarrow> string \<Rightarrow> bool" where
  "totp_verify env a code =
     (case ac_totp a of
        None \<Rightarrow> False
      | Some stored \<Rightarrow>
          if stored = [] \<or> code = [] then False
          else case decrypt_secret env stored of
                 None \<Rightarrow> False | Some secret \<Rightarrow> if secret = [] then False else ev_totp env secret code)"

section \<open>Deletion and purge\<close>

definition GRACE_DAYS :: rat where "GRACE_DAYS = 30 * 86400"

definition MAX_PURGE_ATTEMPTS :: int where "MAX_PURGE_ATTEMPTS = 5"

definition request_deletion :: "'s acct_env \<Rightarrow> rat \<Rightarrow> string \<Rightarrow> string option \<Rightarrow> ('s, unit) acct_act" where
  "request_deletion env now k current =
     abind (the_account k) (\<lambda>a.
     abind (reauthenticate env a current) (\<lambda>_.
     abind (aupd (update_account (a\<lparr>ac_status := DEACTIVATED\<rparr>))) (\<lambda>_.
     abind (aput (create_account_deletion now (ac_id a) (now + GRACE_DAYS))) (\<lambda>_.
     ainvalidate_all env now (ac_id a)))))"

definition reactivate :: "string \<Rightarrow> ('s, unit) acct_act" where
  "reactivate k =
     abind (aget (\<lambda>db. get_account_deletion db k)) (\<lambda>rec.
     if (case rec of None \<Rightarrow> True | Some r \<Rightarrow> dl_state r \<noteq> DEL_DEACTIVATED) then araise (Domain ''not recoverable'')
     else abind (aget (\<lambda>db. get_by_id db k)) (\<lambda>acc.
     case acc of
       None \<Rightarrow> araise (Domain ''not recoverable'')
     | Some a \<Rightarrow>
         abind (aupd (update_account (a\<lparr>ac_status := ACTIVE\<rparr>))) (\<lambda>_.
         aput (delete_account_deletion k))))"

text \<open>The tables of other modules that hold a user's data, with the column that names the owner.\<close>

definition OWNER_SCOPED_TABLES :: "(string \<times> string) list" where
  "OWNER_SCOPED_TABLES = map (\<lambda>t. (t, ''owner_id''))
     [''evidence_trace'', ''evidence_turns'', ''evidence_sessions'', ''novelty_messages'', ''novelty_artifacts'',
      ''novelty_notion_exports'', ''novelty_notion_connections'', ''novelty_jobs'', ''saved_searches'', ''library_items'',
      ''search_history'', ''user_behavior_events'', ''user_interest_profiles'', ''personalization_settings'',
      ''mypage_subscriptions''] @ [(''user_glossary'', ''user_id'')]"

definition purge_table :: "string \<Rightarrow> string \<times> string \<Rightarrow> (string, owner_rows) dict \<Rightarrow> (string, owner_rows) dict" where
  "purge_table account spec tables =
     (case dget tables (fst spec) of
        None \<Rightarrow> tables
      | Some t \<Rightarrow>
          if snd spec \<notin> set (or_columns t) then tables
          else dset (fst spec) (t\<lparr>or_rows := filter (\<lambda>row. dget row (snd spec) \<noteq> Some account) (or_rows t)\<rparr>) tables)"

definition purge_owner_data :: "string \<Rightarrow> acct_db \<Rightarrow> acct_db" where
  "purge_owner_data account db = db\<lparr>db_owned := fold (purge_table account) OWNER_SCOPED_TABLES (db_owned db)\<rparr>"

text \<open>
  One due account. \<open>fails\<close> names the step that raises, if one does: the publication, the purge of
  the owner's data, or the commit. A commit that records a failed attempt may fail as well.
\<close>

datatype purge_step = PublishFails | OwnerPurgeFails | CommitFails

definition record_attempt :: "bool \<Rightarrow> string \<Rightarrow> 's acct_world \<Rightarrow> 's acct_world" where
  "record_attempt commit_ok account w =
     (let (n, db) = increment_deletion_attempts account (aw_db w);
          db = (if n \<ge> MAX_PURGE_ATTEMPTS then mark_deletion_failed account db else db);
          w = w\<lparr>aw_db := db\<rparr>
      in if commit_ok then commit w else rollback w)"

definition purge_one :: "(string \<Rightarrow> purge_step option) \<Rightarrow> (string \<Rightarrow> bool) \<Rightarrow> string \<Rightarrow> 's acct_world \<Rightarrow> bool \<times> 's acct_world" where
  "purge_one fails commit_ok account w =
     (let failed = (\<lambda>w. (False, record_attempt (commit_ok account) account (rollback w)))
      in case fails account of
           Some PublishFails \<Rightarrow> failed w
         | f \<Rightarrow>
             (let w = w\<lparr>aw_out := aw_out w @ [Published account]\<rparr>
              in if f = Some OwnerPurgeFails then failed w
                 else let db = mark_deletion_purged account (delete_account_permanently account (purge_owner_data account (aw_db w)));
                          w = w\<lparr>aw_db := db\<rparr>
                      in if f = Some CommitFails then failed w else (True, commit w)))"

fun purge_all :: "(string \<Rightarrow> purge_step option) \<Rightarrow> (string \<Rightarrow> bool) \<Rightarrow> string list \<Rightarrow> 's acct_world \<Rightarrow> nat \<times> 's acct_world" where
  "purge_all fails commit_ok [] w = (0, w)"
| "purge_all fails commit_ok (k # ks) w =
     (case purge_one fails commit_ok k w of (ok, w1) \<Rightarrow>
      case purge_all fails commit_ok ks w1 of (n, w2) \<Rightarrow> (if ok then n + 1 else n, w2))"

definition purge_job :: "(string \<Rightarrow> purge_step option) \<Rightarrow> (string \<Rightarrow> bool) \<Rightarrow> rat \<Rightarrow> 's acct_world \<Rightarrow> nat \<times> 's acct_world" where
  "purge_job fails commit_ok now w =
     purge_all fails commit_ok (map dl_account (get_due_deletions (aw_db w) now)) w"

definition run_purge :: "(string \<Rightarrow> purge_step option) \<Rightarrow> (string \<Rightarrow> bool) \<Rightarrow> rat \<Rightarrow> 's acct_world \<Rightarrow> nat \<times> 's acct_world" where
  "run_purge fails commit_ok now w = (case purge_job fails commit_ok now w of (n, w') \<Rightarrow> (n, commit w'))"

end
