(* ===== verification/Acct_Endpoints.thy ===== *)
theory Acct_Endpoints imports Acct_Accounts Gate_Limits begin

text \<open>
  The endpoints of \<open>accounts/controller.py\<close> over the services of \<open>Acct_Accounts\<close>: the limits on
  requests that send mail, the state of a social sign-in between its start and its callback, and the
  mapping of exceptions to statuses with commit or rollback. Bodies of replies and the
  cached ORCID profile are not modelled.
\<close>

section \<open>Statuses\<close>

definition manage_status :: "acct_exn \<Rightarrow> nat" where
  "manage_status e = (case e of Unauthorized _ \<Rightarrow> 401 | SessionExpired _ \<Rightarrow> 401 | StoreUnavailable _ \<Rightarrow> 503
     | Unexpected _ \<Rightarrow> 500 | _ \<Rightarrow> 400)"

definition confirm_status :: "acct_exn \<Rightarrow> nat" where
  "confirm_status e = (case e of StoreUnavailable _ \<Rightarrow> 503 | Unexpected _ \<Rightarrow> 500 | _ \<Rightarrow> 400)"

definition change_status :: "acct_exn \<Rightarrow> nat" where
  "change_status e = (case e of Unauthorized _ \<Rightarrow> 401 | SessionExpired _ \<Rightarrow> 401 | Unexpected _ \<Rightarrow> 500 | _ \<Rightarrow> 400)"

definition domain_status :: "acct_exn \<Rightarrow> nat" where
  "domain_status e = (case e of Unexpected _ \<Rightarrow> 500 | _ \<Rightarrow> 400)"

definition with_cookie :: "string \<Rightarrow> ('s acct_world \<Rightarrow> reply \<times> 's acct_world) \<Rightarrow> 's acct_world \<Rightarrow> reply \<times> 's acct_world" where
  "with_cookie cookie h w = (if cookie = [] then (Reply 401 None, w) else h w)"

section \<open>Limits on requests that send mail\<close>

definition EMAIL_LIMIT :: int where "EMAIL_LIMIT = 5"
definition EMAIL_WINDOW :: rat where "EMAIL_WINDOW = 900"
definition IP_LIMIT :: int where "IP_LIMIT = 20"
definition IP_WINDOW :: rat where "IP_WINDOW = 3600"

definition client_ip :: "string \<Rightarrow> string option \<Rightarrow> string option" where
  "client_ip xff peer =
     (if xff \<noteq> [] then
        (let hop = py_strip (hd (split_at_char (CHR '','') xff)) in if hop = [] then None else Some hop)
      else peer)"

text \<open>\<open>Inl 429\<close> is the refusal; a limiter is a function of the instant, the key, the limit and the window.\<close>

definition enforce_email_rate_limit ::
  "(rat \<Rightarrow> string \<Rightarrow> int \<Rightarrow> rat \<Rightarrow> 'l \<Rightarrow> bool \<times> 'l) \<Rightarrow> rat \<Rightarrow> string \<Rightarrow> string \<Rightarrow> string option \<Rightarrow> string \<Rightarrow> 'l \<Rightarrow> (nat + unit) \<times> 'l" where
  "enforce_email_rate_limit alw now xff scope peer email l =
     (let norm = (if email \<noteq> [] then normalize_email email else []);
          (ok, l) = (if norm \<noteq> [] then alw now (scope @ '':email:'' @ norm) EMAIL_LIMIT EMAIL_WINDOW l else (True, l))
      in if \<not> ok then (Inl 429, l)
         else let ip = (case client_ip xff peer of None \<Rightarrow> ''unknown'' | Some ip \<Rightarrow> ip);
                  (ok, l) = alw now (scope @ '':ip:'' @ ip) IP_LIMIT IP_WINDOW l
              in (if ok then Inr () else Inl 429, l))"

definition limited :: "(nat + unit) \<times> 'l \<Rightarrow> ('s acct_world \<Rightarrow> reply \<times> 's acct_world) \<Rightarrow> 's acct_world \<Rightarrow> reply \<times> 's acct_world \<times> 'l" where
  "limited gate h w =
     (case gate of (Inl code, l) \<Rightarrow> (Reply code None, w, l)
      | (Inr _, l) \<Rightarrow> (case h w of (r, w') \<Rightarrow> (r, w', l)))"

section \<open>Sign-up, verification, reset\<close>

definition always_ok :: "('s, 'a) acct_act \<Rightarrow> 's acct_world \<Rightarrow> reply \<times> 's acct_world" where
  "always_ok m = transact (\<lambda>_. 200) (\<lambda>_. Reply 200 None) m"

definition signup_endpoint :: "'s acct_env \<Rightarrow> rat \<Rightarrow> string \<Rightarrow> string \<Rightarrow> string \<Rightarrow> string \<Rightarrow> 's acct_world \<Rightarrow> reply \<times> 's acct_world" where
  "signup_endpoint env now fresh token email password =
     transact domain_status (\<lambda>_. Reply 201 None) (register env now fresh token email password)"

definition verify_email_endpoint :: "'s acct_env \<Rightarrow> rat \<Rightarrow> string \<Rightarrow> 's acct_world \<Rightarrow> reply \<times> 's acct_world" where
  "verify_email_endpoint env now token = transact domain_status (\<lambda>_. Reply 200 None) (verify_email env now token)"

definition resend_endpoint :: "'s acct_env \<Rightarrow> rat \<Rightarrow> string \<Rightarrow> string \<Rightarrow> 's acct_world \<Rightarrow> reply \<times> 's acct_world" where
  "resend_endpoint env now token email = always_ok (resend_verification env now token email)"

definition password_reset_request :: "'s acct_env \<Rightarrow> rat \<Rightarrow> string \<Rightarrow> string \<Rightarrow> 's acct_world \<Rightarrow> reply \<times> 's acct_world" where
  "password_reset_request env now token email = always_ok (request_reset env now token email)"

definition password_reset_confirm :: "'s acct_env \<Rightarrow> rat \<Rightarrow> string \<Rightarrow> string \<Rightarrow> 's acct_world \<Rightarrow> reply \<times> 's acct_world" where
  "password_reset_confirm env now token password =
     transact confirm_status (\<lambda>_. Reply 200 None) (confirm_reset env now token password)"

section \<open>Self-management\<close>

definition change_password_endpoint ::
  "'s acct_env \<Rightarrow> rat \<Rightarrow> string \<Rightarrow> string \<Rightarrow> string \<Rightarrow> 's acct_world \<Rightarrow> reply \<times> 's acct_world" where
  "change_password_endpoint env now cookie current new =
     with_cookie cookie (transact manage_status (\<lambda>_. Reply 200 None)
       (abind (averify env now cookie) (\<lambda>p. change_password env now (pr_user_id p) current new)))"

definition email_change_request_endpoint ::
  "'s acct_env \<Rightarrow> rat \<Rightarrow> string \<Rightarrow> string \<Rightarrow> string \<Rightarrow> string \<Rightarrow> string option \<Rightarrow> 's acct_world \<Rightarrow> reply \<times> 's acct_world" where
  "email_change_request_endpoint env now token revoke cookie new_email current =
     with_cookie cookie (transact change_status (\<lambda>_. Reply 200 None)
       (abind (averify env now cookie) (\<lambda>p. request_email_change env now token revoke (pr_user_id p) new_email current)))"

definition email_change_confirm :: "'s acct_env \<Rightarrow> rat \<Rightarrow> string \<Rightarrow> 's acct_world \<Rightarrow> reply \<times> 's acct_world" where
  "email_change_confirm env now token = transact confirm_status (\<lambda>_. Reply 200 None) (confirm_email_change env now token)"

definition email_change_revoke :: "'s acct_env \<Rightarrow> string \<Rightarrow> 's acct_world \<Rightarrow> reply \<times> 's acct_world" where
  "email_change_revoke env token = transact domain_status (\<lambda>_. Reply 200 None) (revoke_email_change env token)"

definition delete_account :: "'s acct_env \<Rightarrow> rat \<Rightarrow> string \<Rightarrow> string option \<Rightarrow> 's acct_world \<Rightarrow> reply \<times> 's acct_world" where
  "delete_account env now cookie current =
     with_cookie cookie (transact manage_status (\<lambda>_. Reply 200 None)
       (abind (averify env now cookie) (\<lambda>p. request_deletion env now (pr_user_id p) current)))"

definition mfa_enroll :: "'s acct_env \<Rightarrow> rat \<Rightarrow> string \<Rightarrow> string \<Rightarrow> 's acct_world \<Rightarrow> reply \<times> 's acct_world" where
  "mfa_enroll env now cookie secret w =
     (if cookie = [] then (Reply 401 None, w)
      else case averify env now cookie w of
        (Inl e, w1) \<Rightarrow> (Reply (session_status e) None, rollback w1)
      | (Inr p, w1) \<Rightarrow>
          (case get_by_id (aw_db w1) (pr_user_id p) of
             None \<Rightarrow> (Reply 401 None, w1)
           | Some a \<Rightarrow> transact (\<lambda>_. 500) (\<lambda>_. Reply 200 None) (totp_enroll env secret a) w1))"

definition mfa_verify :: "'s acct_env \<Rightarrow> rat \<Rightarrow> string \<Rightarrow> string \<Rightarrow> 's acct_world \<Rightarrow> reply \<times> 's acct_world" where
  "mfa_verify env now cookie code w =
     (if cookie = [] then (Reply 401 None, w)
      else case averify env now cookie w of
        (Inl e, w1) \<Rightarrow> (Reply (session_status e) None, w1)
      | (Inr p, w1) \<Rightarrow>
          (case get_by_id (aw_db w1) (pr_user_id p) of
             None \<Rightarrow> (Reply 401 None, w1)
           | Some a \<Rightarrow>
               if \<not> totp_verify env a code then (Reply 401 None, w1)
               else case aredis (elevate_mfa (ev_redis env) (ev_cfg env) now cookie) w1 of
                      (Inl e, w2) \<Rightarrow> (Reply (session_status e) None, w2)
                    | (Inr _, w2) \<Rightarrow> (Reply 200 None, w2)))"

section \<open>Social sign-in\<close>

definition OIDC_STATE_TTL_SECONDS :: rat where "OIDC_STATE_TTL_SECONDS = 600"

record oidc_state =
  os_provider :: string
  os_nonce :: string
  os_verifier :: string

type_synonym oidc_states = "(string, rat \<times> oidc_state) dict"

definition states_prune :: "rat \<Rightarrow> oidc_states \<Rightarrow> oidc_states" where
  "states_prune now d = filter (\<lambda>(k, e, s). \<not> e \<le> now) d"

definition states_put :: "rat \<Rightarrow> string \<Rightarrow> string \<Rightarrow> string \<Rightarrow> string \<Rightarrow> oidc_states \<Rightarrow> oidc_states" where
  "states_put now st provider nonce verifier d =
     dset st (now + OIDC_STATE_TTL_SECONDS, \<lparr>os_provider = provider, os_nonce = nonce, os_verifier = verifier\<rparr>)
       (states_prune now d)"

definition states_consume :: "rat \<Rightarrow> string \<Rightarrow> string \<Rightarrow> oidc_states \<Rightarrow> oidc_state option \<times> oidc_states" where
  "states_consume now st provider d =
     (let d = states_prune now d in
      case dget d st of
        None \<Rightarrow> (None, d)
      | Some (e, s) \<Rightarrow> (if os_provider s = provider then Some s else None, ddel st d))"

text \<open>\<open>Inl 400\<close> refuses the callback: no matching cookie, or no such state.\<close>

definition consume_oidc_state ::
  "rat \<Rightarrow> string \<Rightarrow> string \<Rightarrow> oidc_provider \<Rightarrow> oidc_states \<Rightarrow> (nat + oidc_state) \<times> oidc_states" where
  "consume_oidc_state now cookie st p d =
     (if cookie = [] \<or> cookie \<noteq> st then (Inl 400, d)
      else case states_consume now st (provider_value p) d of
        (None, d') \<Rightarrow> (Inl 400, d') | (Some s, d') \<Rightarrow> (Inr s, d'))"

definition principal_for_social_account :: "string \<Rightarrow> acct_db \<Rightarrow> nat + auth_principal" where
  "principal_for_social_account k db =
     (case get_by_id db k of
        None \<Rightarrow> Inl 500
      | Some a \<Rightarrow>
          if ac_status a \<noteq> ACTIVE then Inl 401
          else case mk_principal k (role_or_user (ac_role a)) False of Inl _ \<Rightarrow> Inl 500 | Inr p \<Rightarrow> Inr p)"

definition open_session :: "'s acct_env \<Rightarrow> rat \<Rightarrow> string \<Rightarrow> nat \<Rightarrow> auth_principal \<Rightarrow> 's acct_world \<Rightarrow> reply \<times> 's acct_world" where
  "open_session env now handle code p w =
     (case aredis (issue (ev_redis env) (ev_cfg env) now handle p) w of
        (Inl (StoreUnavailable m), w') \<Rightarrow> (Reply 503 None, w')
      | (Inl e, w') \<Rightarrow> (Reply 500 None, w')
      | (Inr r, w') \<Rightarrow> (Reply code (Some (se_handle r)), w'))"

text \<open>The callback after the state was consumed; \<open>claims\<close> is what the provider's token says.\<close>

definition social_callback ::
  "'s acct_env \<Rightarrow> rat \<Rightarrow> string \<Rightarrow> string \<Rightarrow> oidc_provider \<Rightarrow> acct_exn + oidc_claims \<Rightarrow> 's acct_world \<Rightarrow> reply \<times> 's acct_world" where
  "social_callback env now fresh handle p claims w =
     (case abind (alift claims) (reconcile now fresh p) w of
        (Inr k, w1) \<Rightarrow>
          (case principal_for_social_account k (aw_db w1) of
             Inl code \<Rightarrow> (Reply code None, commit w1)
           | Inr pr \<Rightarrow> open_session env now handle 302 pr (commit w1))
      | (Inl LinkRequired, w1) \<Rightarrow>
          (if p = GOOGLE then (Reply 302 None, commit w1) else (Reply 401 None, rollback w1))
      | (Inl (Unexpected m), w1) \<Rightarrow> (Reply 500 None, rollback w1)
      | (Inl e, w1) \<Rightarrow> (Reply 401 None, rollback w1))"

definition social_callback_endpoint ::
  "'s acct_env \<Rightarrow> rat \<Rightarrow> string \<Rightarrow> string \<Rightarrow> oidc_provider \<Rightarrow> string \<Rightarrow> string \<Rightarrow>
   (string \<Rightarrow> string \<Rightarrow> acct_exn + oidc_claims) \<Rightarrow> oidc_states \<times> 's acct_world \<Rightarrow> reply \<times> oidc_states \<times> 's acct_world" where
  "social_callback_endpoint env now fresh handle p cookie st exchange dw =
     (case consume_oidc_state now cookie st p (fst dw) of
        (Inl code, d) \<Rightarrow> (Reply code None, d, snd dw)
      | (Inr s, d) \<Rightarrow>
          (case social_callback env now fresh handle p (exchange (os_nonce s) (os_verifier s)) (snd dw) of
             (r, w) \<Rightarrow> (r, d, w)))"

definition social_link_confirm :: "'s acct_env \<Rightarrow> rat \<Rightarrow> string \<Rightarrow> 's acct_world \<Rightarrow> reply \<times> 's acct_world" where
  "social_link_confirm env now cookie =
     with_cookie cookie (transact session_status (\<lambda>_. Reply 200 None)
       (abind (averify env now cookie) (\<lambda>p. confirm_pending_links (pr_user_id p))))"

section \<open>The demonstration login\<close>

definition demo_login :: "'s acct_env \<Rightarrow> bool \<Rightarrow> rat \<Rightarrow> string \<Rightarrow> string \<Rightarrow> string \<Rightarrow> 's acct_world \<Rightarrow> reply \<times> 's acct_world" where
  "demo_login env enabled now fresh tag handle w =
     (if \<not> enabled then (Reply 404 None, w)
      else case aupd_val (create_social_account fresh now (Some (''demo-'' @ tag @ ''@demo.invalid''))) w of
        (Inl e, w1) \<Rightarrow> (Reply 500 None, rollback w1)
      | (Inr a, w1) \<Rightarrow>
          (case mk_principal (ac_id a) USER False of
             Inl _ \<Rightarrow> (Reply 500 None, commit w1)
           | Inr p \<Rightarrow> open_session env now handle 200 p (commit w1)))"

end
