(* ===== verification/Acct_Session_Facts.thy ===== *)
theory Acct_Session_Facts imports Acct_Sessions begin

text \<open>
  What sessions guarantee, over any Redis server that behaves as documented, failures included: a
  session is accepted only within two hours of its last use and thirty days of its issue. And what
  they do not: the index of a user's sessions may end before the sessions it lists, so that
  invalidating all sessions misses one; and a verification that is under way when its session is
  destroyed brings the session back.
\<close>

section \<open>Keys and records\<close>

lemma session_keys [simp]:
  "session_key h = session_key h' \<longleftrightarrow> h = h'"
  "user_sessions_key u = user_sessions_key u' \<longleftrightarrow> u = u'"
  "session_key h \<noteq> user_sessions_key u" "user_sessions_key u \<noteq> session_key h"
  by (simp_all add: session_key_def user_sessions_key_def)

definition iso_ok :: "session_cfg \<Rightarrow> bool" where
  "iso_ok cfg \<longleftrightarrow> (\<forall>t. cfg_fromiso cfg (cfg_isofmt cfg t) = Some t)"

lemma session_json_back:
  "iso_ok cfg \<Longrightarrow> session_of_json (cfg_fromiso cfg) (session_json (cfg_isofmt cfg) r) = Some r"
  by (simp add: session_of_json_def session_json_def text_of_def instant_of_def dict_simps pget_def iso_ok_def)

section \<open>Runs\<close>

datatype session_op =
    Issue string auth_principal
  | Verify string
  | Elevate string
  | Logout string
  | LogoutAll string

fun session_step :: "'s redis \<Rightarrow> session_cfg \<Rightarrow> rat \<Rightarrow> session_op \<Rightarrow> 's \<Rightarrow> bool \<times> 's" where
  "session_step R cfg now (Issue h p) s = (case issue R cfg now h p s of (out, s') \<Rightarrow> (\<not> isl out, s'))"
| "session_step R cfg now (Verify h) s = (case verify R cfg now h s of (out, s') \<Rightarrow> (\<not> isl out, s'))"
| "session_step R cfg now (Elevate h) s = (case elevate_mfa R cfg now h s of (out, s') \<Rightarrow> (\<not> isl out, s'))"
| "session_step R cfg now (Logout h) s = (case invalidate R now h s of (out, s') \<Rightarrow> (\<not> isl out, s'))"
| "session_step R cfg now (LogoutAll u) s =
     (case invalidate_all_for_user R now u s of (out, s') \<Rightarrow> (\<not> isl out, s'))"

fun session_run :: "'s redis \<Rightarrow> session_cfg \<Rightarrow> (rat \<times> session_op) list \<Rightarrow> 's \<Rightarrow> bool list" where
  "session_run R cfg [] s = []"
| "session_run R cfg ((now, op) # ops) s =
     (case session_step R cfg now op s of (ok, s') \<Rightarrow> ok # session_run R cfg ops s')"

text \<open>
  \<open>slides cfg trace h t0 t\<close>: the handle was issued at \<open>t0\<close>, and a chain of uses of it, each within the
  idle timeout of the one before and within the lifetime, leads to \<open>t\<close>.
\<close>

inductive slides :: "session_cfg \<Rightarrow> (rat \<times> session_op) list \<Rightarrow> string \<Rightarrow> rat \<Rightarrow> rat \<Rightarrow> bool"
  for cfg trace h where
  issued: "(t, Issue h p) \<in> set trace \<Longrightarrow> slides cfg trace h t t"
| used: "slides cfg trace h t0 t \<Longrightarrow> (t', o') \<in> set trace \<Longrightarrow> o' = Verify h \<or> o' = Elevate h \<Longrightarrow>
     t' \<le> t + idle_seconds cfg \<Longrightarrow> t' \<le> t0 + lifetime_seconds cfg \<Longrightarrow> slides cfg trace h t0 t'"

lemma slides_more: "slides cfg trace h t0 t \<Longrightarrow> slides cfg (trace @ rest) h t0 t"
  by (induction rule: slides.induct) (auto intro: slides.intros)

definition record_ok :: "session_cfg \<Rightarrow> (rat \<times> session_op) list \<Rightarrow> session_record \<Rightarrow> bool" where
  "record_ok cfg trace r \<longleftrightarrow>
     slides cfg trace (se_handle r) (se_created r) (se_last_active r) \<and>
     se_expires r = se_created r + lifetime_seconds cfg"

definition sessions_ok :: "session_cfg \<Rightarrow> (rat \<times> session_op) list \<Rightarrow> keyspace \<Rightarrow> bool" where
  "sessions_ok cfg trace ks \<longleftrightarrow>
     (\<forall>h v d. ks (session_key h) = Some (v, d) \<longrightarrow>
        (\<exists>r. v = RJson (session_json (cfg_isofmt cfg) r) \<and> se_handle r = h \<and> record_ok cfg trace r))"

lemma sessions_set:
  "sessions_ok cfg trace ks \<Longrightarrow> record_ok cfg trace r \<Longrightarrow>
   sessions_ok cfg trace (ks_set now (session_key (se_handle r)) (session_json (cfg_isofmt cfg) r) ttl ks)"
  by (auto simp: sessions_ok_def ks_set_def)

lemma sessions_index:
  "sessions_ok cfg trace ks \<Longrightarrow> sessions_ok cfg trace (ks_sadd now (user_sessions_key u) m ks)"
  "sessions_ok cfg trace ks \<Longrightarrow> sessions_ok cfg trace (ks_expire now (user_sessions_key u) ttl ks)"
  by (auto simp: sessions_ok_def ks_sadd_def ks_expire_def split: option.split redis_value.split)

lemma sessions_delete: "sessions_ok cfg trace ks \<Longrightarrow> sessions_ok cfg trace (ks_delete keys ks)"
  by (auto simp: sessions_ok_def ks_delete_def)

lemma sessions_log: "sessions_ok cfg trace ks \<Longrightarrow> sessions_ok cfg (trace @ rest) ks"
  by (fastforce simp: sessions_ok_def record_ok_def intro: slides_more)

context redis_store
begin

lemma set_ok:
  "r_set R now (session_key (se_handle r)) (session_json (cfg_isofmt cfg) r) ttl s = (out, s') \<Longrightarrow>
   record_ok cfg trace r \<Longrightarrow> sessions_ok cfg trace (view s) \<Longrightarrow> sessions_ok cfg trace (view s')"
  by (auto dest: set_any simp: sessions_set)

lemma index_ok:
  "r_sadd R now (user_sessions_key u) m s = (out1, s') \<Longrightarrow> sessions_ok cfg trace (view s) \<Longrightarrow>
   sessions_ok cfg trace (view s')"
  "r_expire R now (user_sessions_key u) ttl s = (out2, s') \<Longrightarrow> sessions_ok cfg trace (view s) \<Longrightarrow>
   sessions_ok cfg trace (view s')"
  by (auto dest: sadd_any expire_any simp: sessions_index)

lemma drop_ok:
  "r_delete R now keys s = (out, s') \<Longrightarrow> sessions_ok cfg trace (view s) \<Longrightarrow> sessions_ok cfg trace (view s')"
  by (auto dest: delete_any simp: sessions_delete)

lemma save_ok:
  assumes "sessions_ok cfg trace (view s)" and "record_ok cfg trace r"
    and "repo_save R (cfg_isofmt cfg) now r s = (out, s')"
  shows "sessions_ok cfg trace (view s')"
  using assms(1,3)
  by (auto simp: repo_save_def Let_def split: if_splits prod.splits sum.splits
      intro: assms(1) set_ok [OF _ assms(2,1)] index_ok [OF _ set_ok [OF _ assms(2,1)]]
        index_ok(2) [OF _ index_ok(1) [OF _ set_ok [OF _ assms(2,1)]]])

lemma delete_ok:
  "repo_delete R now h s = (out, s') \<Longrightarrow> sessions_ok cfg trace (view s) \<Longrightarrow> sessions_ok cfg trace (view s')"
  by (auto simp: repo_delete_def split: prod.splits sum.splits intro: drop_ok)

lemma delete_all_ok:
  assumes "repo_invalidate_all R now u s = (out, s')" and "sessions_ok cfg trace (view s)"
  shows "sessions_ok cfg trace (view s')"
proof -
  obtain got s1 where g: "r_smembers R now (user_sessions_key u) s = (got, s1)" by fastforce
  have s1: "sessions_ok cfg trace (view s1)" using assms(2) members_view [OF g] by simp
  show ?thesis using assms(1) g s1
    by (auto simp: repo_invalidate_all_def split: sum.splits if_splits prod.splits
        intro: drop_ok [OF _ s1] drop_ok [OF _ drop_ok [OF _ s1]])
qed

lemma get_ok:
  assumes "sessions_ok cfg trace (view s)" and "iso_ok cfg"
    and "repo_get R (cfg_fromiso cfg) now h s = (out, s')"
  shows "view s' = view s \<and> (\<forall>r. out = Inr (Some r) \<longrightarrow> se_handle r = h \<and> record_ok cfg trace r)"
proof (cases "r_get R now (session_key h) s")
  case (Pair got s1)
  note g = Pair
  have v: "view s1 = view s" using get_view [OF g] .
  show ?thesis
  proof (cases got)
    case (Inl u)
    then show ?thesis using assms(3) g v by (auto simp: repo_get_def store_down_def)
  next
    case (Inr x)
    have ans: "get_answer now (view s) (session_key h) x" using get_val g Inr by simp
    show ?thesis
    proof (cases "alive now (view s) (session_key h)")
      case None
      then show ?thesis using ans assms(3) g Inr v by (auto simp: repo_get_def get_answer_def)
    next
      case (Some p)
      obtain w d where p: "p = (w, d)" by (cases p)
      have "view s (session_key h) = Some (w, d)"
        using Some by (auto simp: p alive_def split: option.splits prod.splits if_splits)
      then obtain r where r: "w = RJson (session_json (cfg_isofmt cfg) r)" "se_handle r = h" "record_ok cfg trace r"
        using assms(1) by (auto simp: sessions_ok_def)
      have "x = Some (session_json (cfg_isofmt cfg) r)" using ans Some by (simp add: get_answer_def p r)
      then show ?thesis using assms(2,3) g Inr v r
        by (simp add: repo_get_def session_json_back) auto
    qed
  qed
qed

lemma verify_read_ok:
  assumes "sessions_ok cfg trace (view s)" and "iso_ok cfg"
    and "verify_read R cfg now h s = (out, s')"
  shows "sessions_ok cfg trace (view s')"
    and "out = Inr r \<Longrightarrow> \<exists>r0. r = r0\<lparr>se_last_active := now\<rparr> \<and> se_handle r0 = h \<and> record_ok cfg trace r0 \<and>
           now \<le> se_last_active r0 + idle_seconds cfg \<and> now \<le> se_expires r0"
proof -
  obtain got s1 where g: "repo_get R (cfg_fromiso cfg) now h s = (got, s1)" by fastforce
  have v: "sessions_ok cfg trace (view s1)" and r: "\<And>r. got = Inr (Some r) \<Longrightarrow> se_handle r = h \<and> record_ok cfg trace r"
    using get_ok [OF assms(1,2) g] assms(1) by auto
  show "sessions_ok cfg trace (view s')"
    using assms(1,3) g v
    by (auto simp: verify_read_def split: if_splits sum.splits option.splits acct_exn.splits prod.splits intro: delete_ok)
  show "\<exists>r0. r = r0\<lparr>se_last_active := now\<rparr> \<and> se_handle r0 = h \<and> record_ok cfg trace r0 \<and>
           now \<le> se_last_active r0 + idle_seconds cfg \<and> now \<le> se_expires r0" if "out = Inr r"
    using assms(3) g that r
    by (auto simp: verify_read_def not_less split: if_splits sum.splits option.splits acct_exn.splits prod.splits)
qed

lemma verify_write_ok:
  "verify_write R cfg now r s = (out, s') \<Longrightarrow> record_ok cfg trace r \<Longrightarrow> sessions_ok cfg trace (view s) \<Longrightarrow>
   sessions_ok cfg trace (view s')"
  by (auto simp: verify_write_def split: sum.splits acct_exn.splits prod.splits intro: save_ok)

end

section \<open>How long a session lives\<close>

definition live_bounds :: "session_cfg \<Rightarrow> (rat \<times> session_op) list \<Rightarrow> string \<Rightarrow> rat \<Rightarrow> bool" where
  "live_bounds cfg trace h now \<longleftrightarrow>
     (\<exists>t0 t. slides cfg trace h t0 t \<and> now \<le> t + idle_seconds cfg \<and> now \<le> t0 + lifetime_seconds cfg)"

lemma record_used:
  "record_ok cfg trace r0 \<Longrightarrow> se_handle r0 = h \<Longrightarrow> op = Verify h \<or> op = Elevate h \<Longrightarrow>
   now \<le> se_last_active r0 + idle_seconds cfg \<Longrightarrow> now \<le> se_expires r0 \<Longrightarrow>
   record_ok cfg (trace @ [(now, op)]) (r0\<lparr>se_last_active := now\<rparr>)"
  by (auto simp: record_ok_def intro: slides.used [OF slides_more])

lemma record_mfa [simp]: "record_ok cfg trace (r\<lparr>se_mfa := b\<rparr>) \<longleftrightarrow> record_ok cfg trace r"
  by (simp add: record_ok_def)

context redis_store
begin

lemma verify_ok:
  assumes s: "sessions_ok cfg trace (view s)" and iso: "iso_ok cfg"
    and op: "op = Verify h \<or> op = Elevate h" and run: "verify R cfg now h s = (out, s')"
  shows "sessions_ok cfg (trace @ [(now, op)]) (view s')" and "\<not> isl out \<Longrightarrow> live_bounds cfg trace h now"
proof -
  obtain got s1 where g: "verify_read R cfg now h s = (got, s1)" by fastforce
  note v = verify_read_ok(1) [OF s iso g]
  have r: "\<exists>r0. r = r0\<lparr>se_last_active := now\<rparr> \<and> se_handle r0 = h \<and> record_ok cfg trace r0 \<and>
           now \<le> se_last_active r0 + idle_seconds cfg \<and> now \<le> se_expires r0" if "got = Inr r" for r
    using verify_read_ok(2) [OF s iso g that] .
  show "sessions_ok cfg (trace @ [(now, op)]) (view s')"
  proof (cases got)
    case (Inl e)
    then show ?thesis using run g v by (auto simp: verify_def intro: sessions_log)
  next
    case (Inr x)
    then have "record_ok cfg (trace @ [(now, op)]) x" using r record_used [OF _ _ op] by blast
    then show ?thesis using run g v Inr by (auto simp: verify_def intro: verify_write_ok sessions_log)
  qed
  show "live_bounds cfg trace h now" if "\<not> isl out"
  proof (cases got)
    case (Inl e)
    then show ?thesis using run g that by (auto simp: verify_def)
  next
    case (Inr x)
    then show ?thesis using r [OF Inr] unfolding live_bounds_def record_ok_def by clarsimp blast
  qed
qed

lemma elevate_ok:
  assumes s: "sessions_ok cfg trace (view s)" and iso: "iso_ok cfg"
    and run: "elevate_mfa R cfg now h s = (out, s')"
  shows "sessions_ok cfg (trace @ [(now, Elevate h)]) (view s')" and "\<not> isl out \<Longrightarrow> live_bounds cfg trace h now"
proof -
  obtain got s1 where g: "verify R cfg now h s = (got, s1)" by fastforce
  note v = verify_ok [OF s iso disjI2 [OF refl] g]
  obtain rd s2 where g2: "repo_get R (cfg_fromiso cfg) now h s1 = (rd, s2)" by fastforce
  note get = get_ok [OF v(1) iso g2]
  have v2: "sessions_ok cfg (trace @ [(now, Elevate h)]) (view s2)" using get v(1) by simp
  have r: "record_ok cfg (trace @ [(now, Elevate h)]) (r\<lparr>se_mfa := True\<rparr>)" if "rd = Inr (Some r)" for r
    using get that by simp
  show "sessions_ok cfg (trace @ [(now, Elevate h)]) (view s')"
    using run g g2 v(1) v2 save_ok [OF v2 r]
    by (auto simp: elevate_mfa_def split: sum.splits option.splits acct_exn.splits prod.splits)
  show "live_bounds cfg trace h now" if "\<not> isl out"
    using run g that v(2) by (cases got) (auto simp: elevate_mfa_def)
qed

lemma step_ok:
  assumes s: "sessions_ok cfg trace (view s)" and iso: "iso_ok cfg"
    and run: "session_step R cfg now op s = (ok, s')"
  shows "sessions_ok cfg (trace @ [(now, op)]) (view s')"
    and "ok \<Longrightarrow> op = Verify h \<or> op = Elevate h \<Longrightarrow> live_bounds cfg trace h now"
proof -
  have new: "record_ok cfg (trace @ [(now, Issue h p)])
      \<lparr>se_handle = h, se_user = u, se_created = now, se_last_active = now,
       se_expires = now + lifetime_seconds cfg, se_role = ro, se_mfa = m\<rparr>" for h p u ro m
    by (auto simp: record_ok_def intro: slides.issued)
  show "sessions_ok cfg (trace @ [(now, op)]) (view s')"
  proof (cases op)
    case (Issue h p)
    then show ?thesis using run s
      by (auto simp: issue_def Let_def split: prod.splits sum.splits intro: save_ok [OF sessions_log new])
  next
    case (Verify h)
    then show ?thesis using run verify_ok(1) [OF s iso] by (auto split: prod.splits)
  next
    case (Elevate h)
    then show ?thesis using run elevate_ok(1) [OF s iso] by (auto split: prod.splits)
  next
    case (Logout h)
    then show ?thesis using run s
      by (auto simp: invalidate_def split: prod.splits sum.splits acct_exn.splits if_splits
          intro: sessions_log delete_ok)
  next
    case (LogoutAll u)
    then show ?thesis using run s
      by (auto simp: invalidate_all_for_user_def split: prod.splits intro: sessions_log delete_all_ok)
  qed
  show "live_bounds cfg trace h now" if "ok" "op = Verify h \<or> op = Elevate h"
    using that run verify_ok(2) [OF s iso disjI1 [OF refl]] elevate_ok(2) [OF s iso]
    by (auto split: prod.splits)
qed

lemma run_ok:
  assumes "sessions_ok cfg trace (view s)" and "iso_ok cfg" and "i < length ops" and "session_run R cfg ops s ! i"
    and "ops ! i = (now, op)" and "op = Verify h \<or> op = Elevate h"
  shows "live_bounds cfg (trace @ take i ops) h now"
  using assms
proof (induction ops arbitrary: s trace i)
  case Nil
  then show ?case by simp
next
  case (Cons e ops)
  obtain t o1 where e: "e = (t, o1)" by (cases e)
  obtain ok s' where st: "session_step R cfg t o1 s = (ok, s')" by fastforce
  note inv = step_ok(1) [OF Cons.prems(1,2) st]
  show ?case
  proof (cases i)
    case 0
    then show ?thesis using Cons.prems e st step_ok(2) [OF Cons.prems(1,2) st] by simp
  next
    case (Suc j)
    then show ?thesis using Cons.prems e st Cons.IH [OF inv Cons.prems(2), of j] by simp
  qed
qed

end

text \<open>
  C15. In any run of issues, verifications, elevations and logouts over any server that keeps its
  documented contract (commands may fail, with or without effect), a verification or elevation that
  succeeds was preceded by an issue of that very handle at most the maximum lifetime before and by a
  chain of uses that starts there, every gap of which, the last one included, is within the idle
  timeout.
\<close>

theorem session_outlives_neither_bound:
  assumes "redis_ok R view" and "iso_ok cfg" and "\<forall>h. view s (session_key h) = None"
    and "i < length ops" and "session_run R cfg ops s ! i" and "ops ! i = (now, op)"
    and "op = Verify h \<or> op = Elevate h"
  shows "\<exists>t0 t. slides cfg (take i ops) h t0 t \<and> now \<le> t + idle_seconds cfg \<and> now \<le> t0 + lifetime_seconds cfg"
proof -
  have "sessions_ok cfg [] (view s)" using assms(3) by (simp add: sessions_ok_def)
  from redis_store.run_ok [OF redis_store.intro [OF assms(1)] this assms(2,4-7)]
  show ?thesis by (simp add: live_bounds_def)
qed

text \<open>An instance of the clock format, for the witnesses: a fraction written in unary.\<close>

definition unary_iso :: "rat \<Rightarrow> string" where
  "unary_iso t = (case quotient_of t of (p, q) \<Rightarrow>
     (if p < 0 then ''-'' else ''+'') @ replicate (nat \<bar>p\<bar>) CHR ''1'' @ ''/'' @ replicate (nat q) CHR ''1'')"

definition unary_back :: "string \<Rightarrow> rat option" where
  "unary_back s =
     (let p = int (length (takeWhile (\<lambda>c. c = CHR ''1'') (tl s)));
          q = int (length (takeWhile (\<lambda>c. c = CHR ''1'') (rev s)))
      in Some (of_int (if hd s = CHR ''-'' then - p else p) / of_int q))"

lemma takeWhile_run: "takeWhile (\<lambda>c. c = x) (replicate n x @ y # ys) = replicate n x" if "x \<noteq> y"
  using that by (induction n) auto

lemma unary_ok: "unary_back (unary_iso t) = Some t"
proof -
  obtain p q where pq: "quotient_of t = (p, q)" by fastforce
  have q: "q > 0" and t: "t = of_int p / of_int q"
    using quotient_of_denom_pos [OF pq] quotient_of_div [OF pq] by auto
  have "unary_back (unary_iso t) = Some (of_int p / of_int q)" using q
    by (simp add: unary_iso_def unary_back_def pq takeWhile_run Let_def)
  then show ?thesis by (simp only: t)
qed

definition small_cfg :: session_cfg where
  "small_cfg = \<lparr>cfg_isofmt = unary_iso, cfg_fromiso = unary_back,
     idle_timeout_hours = 4 / 3600, max_lifetime_days = 8 / 86400\<rparr>"

lemma small_cfg_ok [simp]: "iso_ok small_cfg"
  by (simp add: iso_ok_def small_cfg_def unary_ok)

definition someone :: auth_principal where
  "someone = \<lparr>pr_user_id = ''00000000-0000-0000-0000-000000000001'', pr_role = USER, pr_mfa = False\<rparr>"

theorem session_outlives_neither_bound_witness:
  "let ops = [(0, Issue ''a'' someone), (3, Verify ''a''), (7, Verify ''a'')] in
     session_run (ks_redis (\<lambda>_. False)) small_cfg (ops @ [(9, Verify ''a'')]) (\<lambda>_. None) = [True, True, True, False] \<and>
     (\<exists>t0 t. slides small_cfg (take 2 ops) ''a'' t0 t \<and> 7 \<le> t + 4 \<and> 7 \<le> t0 + 8)"
proof -
  let ?ops = "[(0, Issue ''a'' someone), (3, Verify ''a''), (7, Verify ''a'')]"
  have run: "session_run (ks_redis (\<lambda>_. False)) small_cfg (?ops @ [(9, Verify ''a'')]) (\<lambda>_. None) = [True, True, True, False]"
    by code_simp
  have at: "session_run (ks_redis (\<lambda>_. False)) small_cfg ?ops (\<lambda>_. None) ! 2" by code_simp
  have "\<exists>t0 t. slides small_cfg (take 2 ?ops) ''a'' t0 t \<and> 7 \<le> t + idle_seconds small_cfg \<and>
      7 \<le> t0 + lifetime_seconds small_cfg"
    by (rule session_outlives_neither_bound [where view = id, OF ks_redis_ok small_cfg_ok _ _ at _ disjI1 [OF refl]]) simp_all
  then show ?thesis using run by (simp add: small_cfg_def idle_seconds_def lifetime_seconds_def)
qed

section \<open>Sessions that outlive their end\<close>

context redis_store
begin

lemma save_effect:
  assumes "repo_save R fmt now r s = (Inr (), s')" and "0 < py_trunc (se_expires r - now)"
  shows "view s' (session_key (se_handle r)) =
      Some (RJson (session_json fmt r), Some (now + of_int (py_trunc (se_expires r - now))))"
    and "h \<noteq> se_handle r \<Longrightarrow> view s' (session_key h) = view s (session_key h)"
    and "\<exists>v. view s' (user_sessions_key (se_user r)) = Some (v, Some (now + of_int (py_trunc (se_expires r - now))))"
  using assms
  by (auto simp: repo_save_def Let_def store_down_def ks_set_def ks_sadd_def ks_expire_def alive_def
      split: prod.splits sum.splits option.splits if_splits redis_value.splits
      dest!: set_view sadd_view expire_view)

lemma get_live:
  assumes "redis_up R" and "iso_ok cfg"
    and "view s (session_key h) = Some (RJson (session_json (cfg_isofmt cfg) r), Some d)" and "now < d"
  shows "\<exists>s'. repo_get R (cfg_fromiso cfg) now h s = (Inr (Some r), s') \<and> view s' = view s"
proof -
  obtain got s1 where g: "r_get R now (session_key h) s = (got, s1)" by fastforce
  obtain x where x: "got = Inr x" using assms(1) g unfolding redis_up_def by (metis fst_conv isl_def old.sum.exhaust)
  have "x = Some (session_json (cfg_isofmt cfg) r)"
    using get_val [of now "session_key h" s x s1] g x assms(3,4) by (simp add: get_answer_def alive_def)
  then show ?thesis using g x get_view [OF g] assms(2) by (simp add: repo_get_def session_json_back)
qed

lemma save_up:
  assumes "redis_up R" shows "\<exists>s'. repo_save R fmt now r s = (Inr (), s')"
  using assms
  by (auto simp: repo_save_def Let_def redis_up_def store_down_def isl_def split: prod.split sum.split)
    (metis fst_conv Inl_not_Inr)+

lemma verify_accepts:
  assumes "redis_up R" and "iso_ok cfg"
    and "view s (session_key h) = Some (RJson (session_json (cfg_isofmt cfg) r), Some d)" and "now < d"
    and "h \<noteq> []" and "now \<le> se_last_active r + idle_seconds cfg" and "now \<le> se_expires r" and "uuid_ok (se_user r)"
  shows "\<exists>p s'. verify R cfg now h s = (Inr p, s') \<and> pr_user_id p = se_user r"
proof -
  obtain s1 where g: "repo_get R (cfg_fromiso cfg) now h s = (Inr (Some r), s1)" "view s1 = view s"
    using get_live [OF assms(1-4)] by blast
  obtain s2 where "repo_save R (cfg_isofmt cfg) now (r\<lparr>se_last_active := now\<rparr>) s1 = (Inr (), s2)"
    using save_up [OF assms(1)] by blast
  then show ?thesis using g assms(5-8)
    by (simp add: verify_def verify_read_def verify_write_def mk_principal_def)
qed

end

lemma trunc_le: "0 \<le> x \<Longrightarrow> of_int (py_trunc x) \<le> x"
  by (simp add: py_trunc_def)

lemma trunc_pos: "1 \<le> x \<Longrightarrow> 0 < py_trunc x"
  by (simp add: py_trunc_def)

context redis_store
begin

lemma issue_effect:
  assumes "issue R cfg now h p s = (Inr r, s')" and "0 < py_trunc (lifetime_seconds cfg)"
  shows "r = \<lparr>se_handle = h, se_user = pr_user_id p, se_created = now, se_last_active = now,
       se_expires = now + lifetime_seconds cfg, se_role = role_value (pr_role p), se_mfa = pr_mfa p\<rparr>"
    and "view s' (session_key h) = Some (RJson (session_json (cfg_isofmt cfg) r), Some (now + of_int (py_trunc (lifetime_seconds cfg))))"
    and "h' \<noteq> h \<Longrightarrow> view s' (session_key h') = view s (session_key h')"
proof -
  have r: "r = \<lparr>se_handle = h, se_user = pr_user_id p, se_created = now, se_last_active = now,
       se_expires = now + lifetime_seconds cfg, se_role = role_value (pr_role p), se_mfa = pr_mfa p\<rparr>"
    and sv: "repo_save R (cfg_isofmt cfg) now r s = (Inr (), s')"
    using assms(1) by (auto simp: issue_def Let_def split: prod.splits sum.splits)
  show "r = \<lparr>se_handle = h, se_user = pr_user_id p, se_created = now, se_last_active = now,
       se_expires = now + lifetime_seconds cfg, se_role = role_value (pr_role p), se_mfa = pr_mfa p\<rparr>" by fact
  have "0 < py_trunc (se_expires r - now)" using assms(2) by (simp add: r)
  from save_effect [OF sv this]
  show "view s' (session_key h) = Some (RJson (session_json (cfg_isofmt cfg) r), Some (now + of_int (py_trunc (lifetime_seconds cfg))))"
    and "h' \<noteq> h \<Longrightarrow> view s' (session_key h') = view s (session_key h')" by (auto simp: r)
qed

lemma verify_effect:
  assumes "redis_up R" and "iso_ok cfg"
    and "view s (session_key h) = Some (RJson (session_json (cfg_isofmt cfg) r), Some d)" and "now < d"
    and "se_handle r = h" and "1 \<le> se_expires r - now" and "now \<le> se_last_active r + idle_seconds cfg"
    and "verify R cfg now h s = (Inr p, s')"
  shows "h' \<noteq> h \<Longrightarrow> view s' (session_key h') = view s (session_key h')"
    and "\<exists>v. view s' (user_sessions_key (se_user r)) = Some (v, Some (now + of_int (py_trunc (se_expires r - now))))"
proof -
  obtain s1 where g: "repo_get R (cfg_fromiso cfg) now h s = (Inr (Some r), s1)" "view s1 = view s"
    using get_live [OF assms(1-4)] by blast
  have sv: "repo_save R (cfg_isofmt cfg) now (r\<lparr>se_last_active := now\<rparr>) s1 = (Inr (), s')"
    using assms(6-8) g
    by (auto simp: verify_def verify_read_def verify_write_def split: if_splits sum.splits prod.splits acct_exn.splits)
  have "0 < py_trunc (se_expires (r\<lparr>se_last_active := now\<rparr>) - now)" using assms(6) trunc_pos by simp
  note eff = save_effect [OF sv this]
  show "h' \<noteq> h \<Longrightarrow> view s' (session_key h') = view s (session_key h')" using eff(2) [of h'] g(2) assms(5) by simp
  show "\<exists>v. view s' (user_sessions_key (se_user r)) = Some (v, Some (now + of_int (py_trunc (se_expires r - now))))"
    using eff(3) by simp
qed

lemma invalidate_all_expired:
  assumes "repo_invalidate_all R now u s = (Inr (), s')" and "alive now (view s) (user_sessions_key u) = None"
  shows "view s' (session_key h) = view s (session_key h)"
proof -
  obtain got s1 where g: "r_smembers R now (user_sessions_key u) s = (got, s1)" by fastforce
  have none: "got = Inr hs \<Longrightarrow> hs = []" for hs
    using members_val [of now _ s hs s1] g assms(2) by (fastforce simp: members_answer_def)
  show ?thesis using assms(1) g none members_view [OF g]
    by (auto simp: repo_invalidate_all_def store_down_def ks_delete_def split: sum.splits prod.splits if_splits
        dest!: delete_view)
qed

lemma reset_misses:
  assumes up: "redis_up R" "iso_ok cfg" "0 < py_trunc (lifetime_seconds cfg)"
    and old: "view s (session_key old) = Some (RJson (session_json (cfg_isofmt cfg) b), Some d)" "se_handle b = old"
    and one_user: "se_user b = pr_user_id p" "uuid_ok (se_user b)" and new: "new \<noteq> old" "new \<noteq> []"
    and login: "issue R cfg t1 new p s = (Inr ra, s1)"
    and visit: "t2 < d" "t2 \<le> se_last_active b + idle_seconds cfg" "1 \<le> se_expires b - t2"
      "verify R cfg t2 old s1 = (Inr q, s2)"
    and reset: "se_expires b \<le> t3" "invalidate_all_for_user R t3 (se_user b) s2 = (Inr (), s3)"
    and still: "t4 \<le> t1 + idle_seconds cfg" "t4 < t1 + of_int (py_trunc (lifetime_seconds cfg))"
  shows "\<exists>p' s4. verify R cfg t4 new s3 = (Inr p', s4) \<and> pr_user_id p' = se_user b"
proof -
  note iss = issue_effect [OF login up(3)]
  have at_old: "view s1 (session_key old) = Some (RJson (session_json (cfg_isofmt cfg) b), Some d)"
    using iss(3) [of old] new old by simp
  note ver = verify_effect [OF up(1,2) at_old visit(1) old(2) visit(3,2,4)]
  obtain v where v: "view s2 (user_sessions_key (se_user b)) = Some (v, Some (t2 + of_int (py_trunc (se_expires b - t2))))"
    using ver(2) by blast
  have "of_int (py_trunc (se_expires b - t2)) \<le> se_expires b - t2" by (rule trunc_le) (use visit(3) in simp)
  then have "alive t3 (view s2) (user_sessions_key (se_user b)) = None" using v reset(1) by (simp add: alive_def)
  then have "view s3 (session_key new) = view s2 (session_key new)"
    using invalidate_all_expired [of t3 "se_user b" s2 s3] reset(2) by (simp add: invalidate_all_for_user_def)
  then have at_new: "view s3 (session_key new) =
      Some (RJson (session_json (cfg_isofmt cfg) ra), Some (t1 + of_int (py_trunc (lifetime_seconds cfg))))"
    using ver(1) [OF new(1)] iss(2) by simp
  have "0 \<le> lifetime_seconds cfg" using up(3) by (simp add: py_trunc_def split: if_splits)
  then have "t4 \<le> se_expires ra" using still(2) trunc_le [of "lifetime_seconds cfg"] iss(1) by simp
  moreover have "t4 \<le> se_last_active ra + idle_seconds cfg" "uuid_ok (se_user ra)" "se_user ra = se_user b"
    using still(1) iss(1) one_user by simp_all
  ultimately show ?thesis using verify_accepts [OF up(1,2) at_new still(2) new(2)] by metis
qed

end

text \<open>
  The index a reset walks expires with whichever session of the user was saved last. When an old
  session near its end is used after a new one was issued, the index ends with the old one: a
  reset after that finds no session to destroy, and the newer session stays accepted.
\<close>

theorem index_forgets_live_session:
  assumes "redis_ok R view" and "redis_up R" "iso_ok cfg" "0 < py_trunc (lifetime_seconds cfg)"
    and "view s (session_key old) = Some (RJson (session_json (cfg_isofmt cfg) b), Some d)" "se_handle b = old"
    and "se_user b = pr_user_id p" "uuid_ok (se_user b)" and "new \<noteq> old" "new \<noteq> []"
    and "issue R cfg t1 new p s = (Inr ra, s1)"
    and "t2 < d" "t2 \<le> se_last_active b + idle_seconds cfg" "1 \<le> se_expires b - t2"
      "verify R cfg t2 old s1 = (Inr q, s2)"
    and "se_expires b \<le> t3" "invalidate_all_for_user R t3 (se_user b) s2 = (Inr (), s3)"
    and "t4 \<le> t1 + idle_seconds cfg" "t4 < t1 + of_int (py_trunc (lifetime_seconds cfg))"
  shows "\<exists>p' s4. verify R cfg t4 new s3 = (Inr p', s4) \<and> pr_user_id p' = se_user b"
  by (rule redis_store.reset_misses [OF redis_store.intro [OF assms(1)] assms(2-19)])

definition old_store :: keyspace where
  "old_store = snd (issue (ks_redis (\<lambda>_. False)) small_cfg 0 ''b'' someone (\<lambda>_. None))"

definition login_store :: keyspace where
  "login_store = snd (issue (ks_redis (\<lambda>_. False)) small_cfg 5 ''a'' someone
     (snd (verify (ks_redis (\<lambda>_. False)) small_cfg 4 ''b'' old_store)))"

theorem index_forgets_live_session_witness:
  "\<exists>p' s4. verify (ks_redis (\<lambda>_. False)) small_cfg 9 ''a''
     (snd (invalidate_all_for_user (ks_redis (\<lambda>_. False)) 8 (pr_user_id someone)
        (snd (verify (ks_redis (\<lambda>_. False)) small_cfg 6 ''b'' login_store)))) = (Inr p', s4) \<and>
     pr_user_id p' = pr_user_id someone"
proof -
  let ?R = "ks_redis (\<lambda>_. False)"
  let ?old = "snd (verify ?R small_cfg 4 ''b'' old_store)"
  let ?b = "\<lparr>se_handle = ''b'', se_user = pr_user_id someone, se_created = 0, se_last_active = 4, se_expires = 8,
     se_role = ''USER'', se_mfa = False\<rparr>"
  let ?ra = "\<lparr>se_handle = ''a'', se_user = pr_user_id someone, se_created = 5, se_last_active = 5, se_expires = 13,
     se_role = ''USER'', se_mfa = False\<rparr>"
  have 1: "0 < py_trunc (lifetime_seconds small_cfg)" by code_simp
  have 2: "id ?old (session_key ''b'') = Some (RJson (session_json (cfg_isofmt small_cfg) ?b), Some 8)" by code_simp
  have 3: "issue ?R small_cfg 5 ''a'' someone ?old = (Inr ?ra, login_store)"
    unfolding login_store_def by (rule prod_eqI) (code_simp, simp)
  have 4: "verify ?R small_cfg 6 ''b'' login_store = (Inr someone, snd (verify ?R small_cfg 6 ''b'' login_store))"
    by (rule prod_eqI) (code_simp, simp)
  have 5: "invalidate_all_for_user ?R 8 (se_user ?b) (snd (verify ?R small_cfg 6 ''b'' login_store)) =
      (Inr (), snd (invalidate_all_for_user ?R 8 (pr_user_id someone) (snd (verify ?R small_cfg 6 ''b'' login_store))))"
    by (rule prod_eqI) (code_simp, simp)
  have 6: "uuid_ok (se_user ?b)" by code_simp
  have 7: "(6::rat) \<le> se_last_active ?b + idle_seconds small_cfg" by code_simp
  have 8: "(9::rat) \<le> 5 + idle_seconds small_cfg" by code_simp
  have 9: "(9::rat) < 5 + of_int (py_trunc (lifetime_seconds small_cfg))" by code_simp
  show ?thesis
    using index_forgets_live_session [OF ks_redis_ok ks_redis_up small_cfg_ok 1 2 _ _ 6 _ _ 3 _ 7 _ 4 _ 5 8 9] by simp
qed

text \<open>
  A verification that has read its session when the session is destroyed writes it back: the
  logout reports success and the handle is accepted afterwards.
\<close>

theorem verify_undoes_logout:
  assumes "redis_ok R view" and "redis_up R" "iso_ok cfg" "uuid_ok (se_user r)" "1 \<le> se_expires r - t" "0 \<le> idle_seconds cfg"
    and "verify_read R cfg t h s = (Inr r, s1)" "se_handle r = h" "invalidate R t' h s1 = (Inr (), s2)"
    and "verify_write R cfg t r s2 = (Inr p, s3)"
    and "t'' \<le> t + idle_seconds cfg" "t'' < t + of_int (py_trunc (se_expires r - t))"
  shows "\<exists>p' s4. verify R cfg t'' h s3 = (Inr p', s4) \<and> pr_user_id p' = se_user r"
proof -
  have sv: "repo_save R (cfg_isofmt cfg) t r s2 = (Inr (), s3)"
    using assms(10) by (auto simp: verify_write_def split: sum.splits acct_exn.splits prod.splits)
  have r: "se_last_active r = t" "h \<noteq> []"
    using assms(7) by (auto simp: verify_read_def split: if_splits sum.splits option.splits acct_exn.splits prod.splits)
  have "of_int (py_trunc (se_expires r - t)) \<le> se_expires r - t" by (rule trunc_le) (use assms(5) in simp)
  then have "t'' \<le> se_expires r" using assms(12) by simp
  moreover note redis_store.save_effect(1) [OF redis_store.intro [OF assms(1)] sv trunc_pos [OF assms(5)]]
  ultimately show ?thesis
    using redis_store.verify_accepts [OF redis_store.intro [OF assms(1)] assms(2,3) _ assms(12) r(2)] assms(4,8,11) r by simp
qed

theorem verify_undoes_logout_witness:
  "\<exists>p s4. verify (ks_redis (\<lambda>_. False)) small_cfg 5 ''b''
     (snd (verify_write (ks_redis (\<lambda>_. False)) small_cfg 2
       \<lparr>se_handle = ''b'', se_user = pr_user_id someone, se_created = 0, se_last_active = 2, se_expires = 8,
        se_role = ''USER'', se_mfa = False\<rparr>
       (snd (invalidate (ks_redis (\<lambda>_. False)) 2 ''b'' (snd (verify_read (ks_redis (\<lambda>_. False)) small_cfg 2 ''b'' old_store)))))) = (Inr p, s4) \<and> pr_user_id p = pr_user_id someone"
proof -
  let ?R = "ks_redis (\<lambda>_. False)"
  let ?r = "\<lparr>se_handle = ''b'', se_user = pr_user_id someone, se_created = 0, se_last_active = 2, se_expires = 8,
     se_role = ''USER'', se_mfa = False\<rparr>"
  have 1: "uuid_ok (se_user ?r)" by code_simp
  let ?s1 = "snd (verify_read ?R small_cfg 2 ''b'' old_store)"
  have 2: "verify_read ?R small_cfg 2 ''b'' old_store = (Inr ?r, ?s1)" by (rule prod_eqI) (code_simp, simp)
  have 3: "invalidate ?R 2 ''b'' ?s1 = (Inr (), snd (invalidate ?R 2 ''b'' ?s1))"
    by (rule prod_eqI) (code_simp, simp)
  have 4: "verify_write ?R small_cfg 2 ?r (snd (invalidate ?R 2 ''b'' ?s1)) =
     (Inr someone, snd (verify_write ?R small_cfg 2 ?r (snd (invalidate ?R 2 ''b'' ?s1))))"
    by (rule prod_eqI) (code_simp, simp)
  have 5: "(5::rat) \<le> 2 + idle_seconds small_cfg" "(0::rat) \<le> idle_seconds small_cfg" by code_simp+
  have 6: "(5::rat) < 2 + of_int (py_trunc (se_expires ?r - 2))" by code_simp
  show ?thesis
    using verify_undoes_logout [OF ks_redis_ok ks_redis_up small_cfg_ok 1 _ 5(2) 2 _ 3 4 5(1) 6] by simp
qed

end
