(* ===== verification/Acct_Auth_Facts.thy ===== *)
theory Acct_Auth_Facts imports Acct_Auth Acct_Session_Facts begin

text \<open>
  What signing in guarantees, and what it does not. The rules of triples
  \<open>triple P m Q E\<close> (from a world with \<open>P\<close>, the operation ends with \<open>Q\<close> or raises with \<open>E\<close>) carry
  the proofs over the operations of a request.
\<close>

section \<open>Triples\<close>

definition triple ::
  "('s acct_world \<Rightarrow> bool) \<Rightarrow> ('s, 'a) acct_act \<Rightarrow> ('a \<Rightarrow> 's acct_world \<Rightarrow> bool) \<Rightarrow>
   (acct_exn \<Rightarrow> 's acct_world \<Rightarrow> bool) \<Rightarrow> bool" where
  "triple P m Q E \<longleftrightarrow> (\<forall>w. P w \<longrightarrow> (case m w of (Inr x, w') \<Rightarrow> Q x w' | (Inl e, w') \<Rightarrow> E e w'))"

lemma triple_bind: "triple P m R E \<Longrightarrow> (\<And>x. triple (R x) (f x) Q E) \<Longrightarrow> triple P (abind m f) Q E"
  unfolding triple_def abind_def by (fastforce split: prod.splits sum.splits)

lemma bind_ret: "abind (aret x) f = f x"
  by (simp add: fun_eq_iff act_simps)

lemma triple_get: "triple (\<lambda>w. Q (f (aw_db w)) w) (aget f) Q E"
  by (simp add: triple_def act_simps)

lemma triple_tell: "triple (\<lambda>w. Q () (w\<lparr>aw_out := aw_out w @ [t]\<rparr>)) (atell t) Q E"
  by (simp add: triple_def act_simps)

lemma triple_pre: "triple R m Q E \<Longrightarrow> (\<And>w. P w \<Longrightarrow> R w) \<Longrightarrow> triple P m Q E"
  by (simp add: triple_def)

lemma triple_post:
  "triple P m R F \<Longrightarrow> (\<And>x w. R x w \<Longrightarrow> Q x w) \<Longrightarrow> (\<And>e w. F e w \<Longrightarrow> E e w) \<Longrightarrow> triple P m Q E"
  unfolding triple_def by (fastforce split: prod.splits sum.splits)

lemma triple_apply_ok: "triple P m Q E \<Longrightarrow> P w \<Longrightarrow> m w = (Inr x, w') \<Longrightarrow> Q x w'"
  unfolding triple_def by fastforce

lemma triple_apply_exn: "triple P m Q E \<Longrightarrow> P w \<Longrightarrow> m w = (Inl e, w') \<Longrightarrow> E e w'"
  unfolding triple_def by fastforce

section \<open>Rows\<close>

definition all_rows :: "(account \<Rightarrow> bool) \<Rightarrow> acct_db \<Rightarrow> bool" where
  "all_rows P db \<longleftrightarrow> (\<forall>e \<in> set (db_accounts db). P (snd e))"

lemma row_where_in: "row_where P d = Some v \<Longrightarrow> \<exists>k. (k, v) \<in> set d \<and> P v"
  by (induction d) (auto simp: row_where_def split: if_splits)

lemma by_email_row: "get_by_email db e = Some a \<Longrightarrow> all_rows P db \<Longrightarrow> P a"
  unfolding get_by_email_def all_rows_def by (drule row_where_in) fastforce

lemma set_dset: "e \<in> set (dset k v d) \<Longrightarrow> e = (k, v) \<or> e \<in> set d"
  by (induction d) (auto simp: dset_def split: if_splits)

lemma set_ddel: "e \<in> set (ddel k d) \<Longrightarrow> e \<in> set d"
  by (auto simp: ddel_def AList.delete_eq)

lemma update_row: "update_account a db = Inr db' \<Longrightarrow> all_rows P db \<Longrightarrow> P a \<Longrightarrow> all_rows P db'"
  by (auto simp: update_account_def all_rows_def integrity_def split: if_splits dest!: set_dset)

lemma rows_deletion [simp]: "all_rows P (delete_account_deletion k db) = all_rows P db"
  by (simp add: all_rows_def delete_account_deletion_def)

section \<open>Back-off and CAPTCHA\<close>

record login_req =
  lq_now :: rat
  lq_handle :: string
  lq_email :: string
  lq_password :: string
  lq_captcha :: "string option"
  lq_ip :: "string option"
  lq_reactivate :: bool

definition login_once :: "'s acct_env \<Rightarrow> login_req \<Rightarrow> 's acct_world \<Rightarrow> reply \<times> 's acct_world" where
  "login_once env q =
     (if lq_reactivate q then reactivate_account env (lq_now q) (lq_handle q) (lq_email q) (lq_password q) (lq_captcha q) (lq_ip q)
      else login env (lq_now q) (lq_handle q) (lq_email q) (lq_password q) (lq_captcha q) (lq_ip q))"

fun login_run :: "'s acct_env \<Rightarrow> login_req list \<Rightarrow> 's acct_world \<Rightarrow> reply list \<times> 's acct_world" where
  "login_run env [] w = ([], w)"
| "login_run env (q # qs) w =
     (case login_once env q w of (r, w1) \<Rightarrow> case login_run env qs w1 of (rs, w2) \<Rightarrow> (r # rs, w2))"

definition never_failed :: "acct_db \<Rightarrow> bool" where
  "never_failed db \<longleftrightarrow> (\<forall>e \<in> set (db_accounts db). ac_failures (snd e) = 0)"

definition backoffs :: "acct_effect list \<Rightarrow> acct_effect list" where
  "backoffs out = filter (\<lambda>t. case t of Backoff k \<Rightarrow> True | _ \<Rightarrow> False) out"

lemma never_failed_rows: "never_failed = all_rows (\<lambda>a. ac_failures a = 0)"
  by (simp add: fun_eq_iff never_failed_def all_rows_def)

lemma backoffs_append [simp]: "backoffs (xs @ ys) = backoffs xs @ backoffs ys"
  by (simp add: backoffs_def)

lemma backoffs_simps [simp]:
  "backoffs [] = []" "backoffs [KdfVerify h] = []" "backoffs [Signal m r] = []" "backoffs [Mail mk e t] = []"
  by (simp_all add: backoffs_def)

text \<open>A world no failure was ever committed to, with \<open>saved\<close> committed and \<open>pauses\<close> behind it.\<close>

definition acct_quiet :: "acct_db \<Rightarrow> acct_effect list \<Rightarrow> 's acct_world \<Rightarrow> bool" where
  "acct_quiet saved pauses w \<longleftrightarrow> aw_saved w = saved \<and> backoffs (aw_out w) = pauses"

lemma refuse_quiet:
  assumes "\<And>a. acc = Some a \<Longrightarrow> ac_failures a = 0"
  shows "triple (acct_quiet sv ps) (refuse acc now) (\<lambda>_ _. False) (\<lambda>e. acct_quiet sv ps)"
  using assms
  by (auto simp: triple_def refuse_def record_failure_def act_simps acct_quiet_def backoff_delay_def Let_def
      split: option.split sum.split)

lemma captcha_quiet:
  assumes "\<And>a. acc = Some a \<Longrightarrow> ac_failures a = 0"
  shows "captcha_gate env acc captcha ip = aret ()"
  using assms by (auto simp: captcha_gate_def CAPTCHA_THRESHOLD_def split: option.split)

definition quiet_rows where
  "quiet_rows sv ps w \<longleftrightarrow> acct_quiet sv ps w \<and> never_failed (aw_db w)"

lemma status_quiet:
  assumes "ac_failures a = 0"
  shows "triple (quiet_rows sv ps) (status_gate react a)
     (\<lambda>a w. ac_failures a = 0 \<and> quiet_rows sv ps w) (\<lambda>e. acct_quiet sv ps)"
  using assms
  by (auto simp: triple_def status_gate_def act_simps quiet_rows_def acct_quiet_def never_failed_rows Let_def
      split: account_status.split sum.split if_splits dest: update_row)

lemma reset_quiet: "ac_failures a = 0 \<Longrightarrow> reset_failures a = aret a"
  by (simp add: reset_failures_def)

lemma upgrade_quiet:
  assumes "ac_failures a = 0"
  shows "triple (quiet_rows sv ps) (upgrade_hash env pw needed a)
     (\<lambda>a w. ac_failures a = 0 \<and> quiet_rows sv ps w) (\<lambda>e. acct_quiet sv ps)"
  using assms
  by (auto simp: triple_def upgrade_hash_def act_simps quiet_rows_def acct_quiet_def never_failed_rows
      split: option.split sum.split dest: update_row)

lemma sign_in_quiet:
  assumes "ac_failures a = 0"
  shows "triple (quiet_rows sv ps) (sign_in env now h pw react a) (\<lambda>_. quiet_rows sv ps) (\<lambda>e. acct_quiet sv ps)"
  unfolding sign_in_def
proof (rule triple_bind [OF status_quiet [OF assms]])
  fix a1
  show "triple (\<lambda>w. ac_failures a1 = 0 \<and> quiet_rows sv ps w)
     (abind (reset_failures a1) (\<lambda>a2.
      abind (upgrade_hash env pw (ev_needs_rehash env (ac_hash a)) a2) (\<lambda>a.
      abind (alift (mk_principal (ac_id a) (role_or_user (ac_role a)) False)) (\<lambda>p.
      abind (aredis (issue (ev_redis env) (ev_cfg env) now h p)) (\<lambda>session.
      abind (atell (Signal ''LoginSuccess'' (ac_id a))) (\<lambda>_. aret (se_handle session)))))))
     (\<lambda>_. quiet_rows sv ps) (\<lambda>e. acct_quiet sv ps)"
    (is "triple ?P ?m ?Q ?E")
  proof (cases "ac_failures a1 = 0")
    case True
    have "triple (quiet_rows sv ps) ?m ?Q ?E"
      unfolding reset_quiet [OF True] bind_ret
      by (rule triple_bind [OF upgrade_quiet [OF True]])
        (auto simp: triple_def act_simps quiet_rows_def acct_quiet_def split: sum.split prod.split)
    then show ?thesis by (rule triple_pre) simp
  qed (simp add: triple_def)
qed

lemma authenticate_quiet:
  "triple (quiet_rows sv ps) (authenticate env now h e pw c ip react) (\<lambda>_. quiet_rows sv ps) (\<lambda>e. acct_quiet sv ps)"
proof (unfold triple_def, intro allI impI)
  fix w :: "'a acct_world"
  assume q: "quiet_rows sv ps w"
  let ?acc = "get_by_email (aw_db w) (normalize_email e)"
  have z: "\<And>a. ?acc = Some a \<Longrightarrow> ac_failures a = 0"
    using by_email_row q by (fastforce simp: quiet_rows_def never_failed_rows)
  let ?w1 = "w\<lparr>aw_out := aw_out w @ [KdfVerify (case ?acc of None \<Rightarrow> DUMMY_HASH | Some a \<Rightarrow> ac_hash a)]\<rparr>"
  have q1: "quiet_rows sv ps ?w1" using q by (simp add: quiet_rows_def acct_quiet_def)
  have run: "authenticate env now h e pw c ip react w =
      (case ?acc of None \<Rightarrow> refuse ?acc now ?w1
       | Some a \<Rightarrow> (if ev_verify env (ac_hash a) pw then sign_in env now h pw react a ?w1 else refuse ?acc now ?w1))"
    by (simp add: authenticate_def act_simps captcha_quiet [OF z] Let_def split: option.split)
  have "triple (quiet_rows sv ps) (refuse ?acc now :: ('a, string) acct_act) (\<lambda>_. quiet_rows sv ps) (\<lambda>e. acct_quiet sv ps)"
    by (rule triple_pre [OF triple_post [OF refuse_quiet]]) (auto simp: z quiet_rows_def)
  then show "case authenticate env now h e pw c ip react w of (Inl e, w') \<Rightarrow> acct_quiet sv ps w' | (Inr x, w') \<Rightarrow> quiet_rows sv ps w'"
    unfolding run using q1 sign_in_quiet [OF z, of _ sv ps env now h pw react]
    by (cases ?acc) (simp_all add: triple_def)
qed

lemma captcha_plays_no_part: "sign_in (env\<lparr>ev_captcha := cap\<rparr>) = sign_in env"
proof -
  have u: "upgrade_hash (env\<lparr>ev_captcha := cap\<rparr>) = upgrade_hash env"
    by (simp add: fun_eq_iff upgrade_hash_def split: option.split)
  show ?thesis by (intro ext) (simp add: sign_in_def u)
qed

lemma captcha_unused:
  assumes "never_failed (aw_db w)"
  shows "authenticate (env\<lparr>ev_captcha := cap\<rparr>) now h e pw c ip react w = authenticate env now h e pw c ip react w"
proof -
  have z: "\<And>a. get_by_email (aw_db w) (normalize_email e) = Some a \<Longrightarrow> ac_failures a = 0"
    using by_email_row assms by (fastforce simp: never_failed_rows)
  show ?thesis
    by (simp add: authenticate_def act_simps captcha_quiet [OF z] captcha_plays_no_part Let_def split: option.split)
qed

definition never_failed_world :: "'s acct_world \<Rightarrow> bool" where
  "never_failed_world w \<longleftrightarrow> aw_db w = aw_saved w \<and> never_failed (aw_saved w)"

lemma login_once_quiet:
  assumes "never_failed_world w" and "login_once env q w = (r, w')"
  shows "never_failed_world w' \<and> backoffs (aw_out w') = backoffs (aw_out w)"
    and "login_once (env\<lparr>ev_captcha := cap\<rparr>) q w = (r, w')"
proof -
  let ?m = "authenticate env (lq_now q) (lq_handle q) (lq_email q) (lq_password q) (lq_captcha q) (lq_ip q) (lq_reactivate q)"
  have any: "login_once env' q w = transact login_status (\<lambda>h. Reply 200 (Some h))
      (authenticate env' (lq_now q) (lq_handle q) (lq_email q) (lq_password q) (lq_captcha q) (lq_ip q) (lq_reactivate q)) w"
    for env' by (simp add: login_once_def login_def reactivate_account_def)
  note eq = any [of env]
  have q: "quiet_rows (aw_saved w) (backoffs (aw_out w)) w"
    using assms(1) by (simp add: never_failed_world_def quiet_rows_def acct_quiet_def)
  note t = authenticate_quiet [of "aw_saved w" "backoffs (aw_out w)" env "lq_now q" "lq_handle q" "lq_email q"
      "lq_password q" "lq_captcha q" "lq_ip q" "lq_reactivate q", unfolded triple_def, rule_format, OF q]
  show "never_failed_world w' \<and> backoffs (aw_out w') = backoffs (aw_out w)"
    using t assms
    by (auto simp: eq transact_def commit_def rollback_def never_failed_world_def quiet_rows_def acct_quiet_def
        split: prod.splits sum.splits)
  have "never_failed (aw_db w)" using assms(1) by (simp add: never_failed_world_def)
  then show "login_once (env\<lparr>ev_captcha := cap\<rparr>) q w = (r, w')"
    using assms(2) by (simp only: any transact_def captcha_unused)
qed

text \<open>
  C33. A failed sign-in raises, and the endpoint rolls back what it raised from: the failure count is
  written, never committed. So as long as no failure is on record, whatever sign-ins and
  reactivations are attempted, none is ever delayed, the CAPTCHA verdict plays no part in any
  reply, and afterwards still no failure is on record.
\<close>

theorem backoff_never_happens:
  assumes "never_failed_world w"
  shows "never_failed_world (snd (login_run env qs w)) \<and>
    backoffs (aw_out (snd (login_run env qs w))) = backoffs (aw_out w) \<and>
    login_run (env\<lparr>ev_captcha := cap\<rparr>) qs w = login_run env qs w"
  using assms
proof (induction qs arbitrary: w)
  case Nil
  then show ?case by simp
next
  case (Cons q qs)
  obtain r w1 where st: "login_once env q w = (r, w1)" by fastforce
  note once = login_once_quiet [OF Cons.prems st]
  show ?case using Cons.IH [of w1] once st by (cases "login_run env qs w1") simp
qed

definition demo_account :: account where
  "demo_account = (new_account (pr_user_id someone) (Some ''a@b.c'') ''secret'' ACTIVE 0)"

definition demo_db :: acct_db where
  "demo_db = \<lparr>db_accounts = [(ac_id demo_account, demo_account)], db_vtokens = [], db_rtokens = [], db_social = [],
     db_changes = [], db_deletions = [], db_owned = []\<rparr>"

definition demo_world :: "keyspace acct_world" where
  "demo_world = \<lparr>aw_db = demo_db, aw_saved = demo_db, aw_store = \<lambda>_. None, aw_out = []\<rparr>"

definition acct_demo_env :: "keyspace acct_env" where
  "acct_demo_env = \<lparr>ev_redis = ks_redis (\<lambda>_. False), ev_cfg = small_cfg, ev_verify = (\<lambda>h p. h = p),
     ev_needs_rehash = (\<lambda>_. False), ev_kdf = Some, ev_sha = id, ev_captcha = (\<lambda>_ _. False), ev_sends = (\<lambda>_ _. True),
     ev_blacklist = [], ev_cipher = None, ev_totp = (\<lambda>s c. s = c)\<rparr>"

definition wrong_password :: login_req where
  "wrong_password = \<lparr>lq_now = 1, lq_handle = ''h'', lq_email = ''A@b.c'', lq_password = ''guess'', lq_captcha = None,
     lq_ip = None, lq_reactivate = False\<rparr>"

theorem backoff_never_happens_witness:
  "fst (login_run acct_demo_env (replicate 12 wrong_password) demo_world) = replicate 12 (Reply 401 None) \<and>
   backoffs (aw_out (snd (login_run acct_demo_env (replicate 12 wrong_password) demo_world))) = []"
proof -
  have "never_failed_world demo_world" by code_simp
  from backoff_never_happens [OF this, of acct_demo_env "replicate 12 wrong_password"]
  have "backoffs (aw_out (snd (login_run acct_demo_env (replicate 12 wrong_password) demo_world))) = []"
    by (simp add: demo_world_def)
  moreover have "fst (login_run acct_demo_env (replicate 12 wrong_password) demo_world) = replicate 12 (Reply 401 None)"
    by code_simp
  ultimately show ?thesis by simp
qed

section \<open>Who gets a session\<close>

lemma status_gate_passed:
  "status_gate react a w = (Inr a1, w1) \<Longrightarrow>
   ac_id a1 = ac_id a \<and> ac_role a1 = ac_role a \<and> aw_store w1 = aw_store w \<and>
   (ac_status a = ACTIVE \<or> react \<and> ac_status a = DEACTIVATED \<and>
      (\<exists>r. get_account_deletion (aw_db w) (ac_id a) = Some r \<and> dl_state r = DEL_DEACTIVATED))"
  by (auto simp: status_gate_def act_simps Let_def split: account_status.splits sum.splits if_splits option.splits)

lemma reset_passed:
  "reset_failures a w = (Inr a1, w1) \<Longrightarrow> ac_id a1 = ac_id a \<and> ac_role a1 = ac_role a \<and> aw_store w1 = aw_store w"
  by (auto simp: reset_failures_def act_simps Let_def split: sum.splits if_splits)

lemma upgrade_passed:
  "upgrade_hash env pw b a w = (Inr a1, w1) \<Longrightarrow> ac_id a1 = ac_id a \<and> ac_role a1 = ac_role a \<and> aw_store w1 = aw_store w"
  by (auto simp: upgrade_hash_def act_simps split: sum.splits if_splits option.splits)

lemma principal_fields:
  "mk_principal k ro b = Inr p \<Longrightarrow> pr_user_id p = k \<and> pr_role p = ro \<and> pr_mfa p = b"
  by (auto simp: mk_principal_def split: if_splits)

lemma abind_Inr:
  "abind m f w = (Inr x, w') \<longleftrightarrow> (\<exists>y w1. m w = (Inr y, w1) \<and> f y w1 = (Inr x, w'))"
  by (auto simp: abind_def split: prod.splits sum.splits)

lemma abind_Inl:
  "abind m f w = (Inl e, w') \<longleftrightarrow> m w = (Inl e, w') \<or> (\<exists>y w1. m w = (Inr y, w1) \<and> f y w1 = (Inl e, w'))"
  by (auto simp: abind_def split: prod.splits sum.splits)

lemma aredis_Inr: "aredis f w = (Inr x, w') \<longleftrightarrow> (\<exists>s. f (aw_store w) = (Inr x, s) \<and> w' = w\<lparr>aw_store := s\<rparr>)"
  by (auto simp: aredis_def split: prod.splits)

lemma issue_handle: "issue R cfg now h p s = (Inr r, s') \<Longrightarrow> se_handle r = h"
  by (auto simp: issue_def Let_def split: prod.splits sum.splits)

lemma sign_in_passed:
  assumes "sign_in env now h pw react a w = (Inr tok, w')"
  shows "tok = h \<and> (ac_status a = ACTIVE \<or> react \<and> ac_status a = DEACTIVATED \<and>
      (\<exists>r. get_account_deletion (aw_db w) (ac_id a) = Some r \<and> dl_state r = DEL_DEACTIVATED)) \<and>
    (\<exists>p r. pr_user_id p = ac_id a \<and> pr_role p = role_or_user (ac_role a) \<and> \<not> pr_mfa p \<and>
       issue (ev_redis env) (ev_cfg env) now h p (aw_store w) = (Inr r, aw_store w'))"
proof -
  from assms obtain a1 w1 a2 w2 a3 w3 p r s where
    st: "status_gate react a w = (Inr a1, w1)" and re: "reset_failures a1 w1 = (Inr a2, w2)"
    and up: "upgrade_hash env pw (ev_needs_rehash env (ac_hash a)) a2 w2 = (Inr a3, w3)"
    and p: "mk_principal (ac_id a3) (role_or_user (ac_role a3)) False = Inr p"
    and iss: "issue (ev_redis env) (ev_cfg env) now h p (aw_store w3) = (Inr r, s)"
    and out: "tok = se_handle r" "aw_store w' = s"
    unfolding sign_in_def abind_Inr aredis_Inr alift_def atell_def aret_def by auto
  then show ?thesis
    using status_gate_passed [OF st] reset_passed [OF re] upgrade_passed [OF up] principal_fields [OF p] issue_handle [OF iss]
    by auto
qed



text \<open>
  What the service means to do with a wrong password: it counts the failure, and from the third
  on it waits a delay that doubles up to two minutes before it raises.
\<close>

theorem service_backs_off:
  assumes "get_by_email (aw_db w) (normalize_email e) = Some a" and "\<not> ev_verify env (ac_hash a) pw"
    and "0 \<le> ac_failures a" "ac_failures a < CAPTCHA_THRESHOLD" and "\<not> email_taken (ac_id a) (ac_email a) (aw_db w)"
  shows "authenticate env now h e pw c ip react w =
    (Inl (Domain ''bad credentials''),
     w\<lparr>aw_db := (aw_db w)\<lparr>db_accounts := dset (ac_id a)
         (a\<lparr>ac_failures := ac_failures a + 1, ac_last_failed := Some now\<rparr>) (db_accounts (aw_db w))\<rparr>,
       aw_out := aw_out w @ [KdfVerify (ac_hash a), Signal ''AuthFailureSignal'' ''invalid_credentials''] @
         (if ac_failures a < 2 then [] else [Backoff (min (2 ^ nat (ac_failures a - 2)) 120)])\<rparr>)"
  using assms
  by (auto simp: authenticate_def captcha_gate_def refuse_def record_failure_def act_simps Let_def update_account_def
      backoff_delay_def)

theorem service_backs_off_witness:
  "aw_out (snd (authenticate acct_demo_env 1 ''h'' ''a@b.c'' ''guess'' None None False
     (demo_world\<lparr>aw_db := demo_db\<lparr>db_accounts := [(ac_id demo_account, demo_account\<lparr>ac_failures := 5\<rparr>)]\<rparr>\<rparr>))) =
   [KdfVerify ''secret'', Signal ''AuthFailureSignal'' ''invalid_credentials'', Backoff 8]"
proof -
  let ?w = "demo_world\<lparr>aw_db := demo_db\<lparr>db_accounts := [(ac_id demo_account, demo_account\<lparr>ac_failures := 5\<rparr>)]\<rparr>\<rparr>"
  let ?a = "demo_account\<lparr>ac_failures := 5\<rparr>"
  have 1: "get_by_email (aw_db ?w) (normalize_email ''a@b.c'') = Some ?a" by code_simp
  have 2: "\<not> ev_verify acct_demo_env (ac_hash ?a) ''guess''" by code_simp
  have 3: "0 \<le> ac_failures ?a" "ac_failures ?a < CAPTCHA_THRESHOLD" by code_simp+
  have 4: "\<not> email_taken (ac_id ?a) (ac_email ?a) (aw_db ?w)" by code_simp
  show ?thesis
    by (subst service_backs_off [OF 1 2 3 4]) (simp add: demo_world_def demo_account_def new_account_def)
qed

end
