(* ===== verification/Acct_Account_Facts.thy ===== *)
theory Acct_Account_Facts imports Acct_Endpoints Acct_Auth_Facts begin

text \<open>
  What holds of the accounts in every reachable state of the module. A request of any endpoint, or
  a run of the purge, is one step of \<open>request\<close>; every step keeps the account table well formed
  (one row per identifier, one account per address) and grants no role.
\<close>

section \<open>How the account table evolves\<close>

definition db_wf :: "acct_db \<Rightarrow> bool" where
  "db_wf db \<longleftrightarrow> dict_ok (db_accounts db) \<and> (\<forall>k a. get_by_id db k = Some a \<longrightarrow> ac_id a = k) \<and>
     (\<forall>k a k' a'. get_by_id db k = Some a \<longrightarrow> get_by_id db k' = Some a' \<longrightarrow>
        ac_email a = ac_email a' \<longrightarrow> ac_email a \<noteq> None \<longrightarrow> k = k')"

lemma taken_iff:
  "dict_ok (db_accounts db) \<Longrightarrow>
   email_taken k e db \<longleftrightarrow> e \<noteq> None \<and> (\<exists>k' a. get_by_id db k' = Some a \<and> k' \<noteq> k \<and> ac_email a = e)"
  by (auto simp: email_taken_def get_by_id_def dget_mem [symmetric])

definition evolves :: "acct_db \<Rightarrow> acct_db \<Rightarrow> bool" where
  "evolves db db' \<longleftrightarrow> (db_wf db \<longrightarrow> db_wf db' \<and>
     (\<forall>k a'. get_by_id db' k = Some a' \<longrightarrow>
        ac_role a' = ''USER'' \<or> (\<exists>a. get_by_id db k = Some a \<and> ac_role a' = ac_role a)))"

lemma evolves_refl [simp]: "evolves db db"
  by (simp add: evolves_def)

lemma evolves_trans: "evolves db1 db2 \<Longrightarrow> evolves db2 db3 \<Longrightarrow> evolves db1 db3"
  unfolding evolves_def by metis

lemma evolves_same: "db_accounts db' = db_accounts db \<Longrightarrow> evolves db db'"
  by (auto simp: evolves_def db_wf_def get_by_id_def)

lemma wf_get: "db_wf db \<Longrightarrow> get_by_id db k = Some a \<Longrightarrow> ac_id a = k"
  by (simp add: db_wf_def)

lemma wf_email:
  assumes "db_wf db" and "get_by_email db e = Some a"
  shows "get_by_id db (ac_id a) = Some a" and "ac_email a = Some e"
proof -
  obtain k where "(k, a) \<in> set (db_accounts db)" and e: "ac_email a = Some e"
    using row_where_in [OF assms(2) [unfolded get_by_email_def]] by blast
  then have k: "get_by_id db k = Some a" using assms(1) unfolding db_wf_def get_by_id_def by (metis dget_mem)
  then show "get_by_id db (ac_id a) = Some a" using wf_get [OF assms(1) k] by simp
  show "ac_email a = Some e" by fact
qed

lemma evolves_row:
  assumes free: "\<not> email_taken (ac_id a') (ac_email a') db" and ok: "dict_ok accs"
    and row: "\<And>k. dget accs k = (if k = ac_id a' then Some a' else get_by_id db k)"
    and role: "ac_role a' = ''USER'' \<or> (\<exists>a. get_by_id db (ac_id a') = Some a \<and> ac_role a' = ac_role a)"
  shows "evolves db (db\<lparr>db_accounts := accs\<rparr>)"
proof -
  have g: "get_by_id (db\<lparr>db_accounts := accs\<rparr>) k = (if k = ac_id a' then Some a' else get_by_id db k)" for k
    using row by (simp add: get_by_id_def)
  have "db_wf (db\<lparr>db_accounts := accs\<rparr>)" if wf: "db_wf db"
    using wf free ok unfolding db_wf_def g by (auto simp: taken_iff) metis
  then show ?thesis using role by (auto simp: evolves_def g)
qed

lemma evolves_update:
  assumes "update_account a' db = Inr db'" and "get_by_id db (ac_id a') = Some a" and "ac_role a' = ac_role a"
  shows "evolves db db'"
proof (cases "db_wf db")
  case True
  have free: "\<not> email_taken (ac_id a') (ac_email a') db" and db': "db' = db\<lparr>db_accounts := dset (ac_id a') a' (db_accounts db)\<rparr>"
    using assms(1) by (auto simp: update_account_def integrity_def split: if_splits)
  show ?thesis unfolding db'
    by (rule evolves_row [OF free]) (use True assms(2,3) in \<open>auto simp: db_wf_def dict_ok_dset get_by_id_def dget_dset\<close>)
qed (simp add: evolves_def)

lemma insert_row_Inr:
  "insert_row k v d = Inr d' \<Longrightarrow> dget d' k' = (if k' = k then Some v else dget d k') \<and> (dict_ok d \<longrightarrow> dict_ok d')"
  by (auto simp: insert_row_def integrity_def dget_def dict_ok_def dkeys_def map_of_eq_None_iff [symmetric] map_add_def
      split: if_splits option.split)

lemma evolves_insert:
  assumes "insert_account a db = Inr db'" and "ac_role a = ''USER''"
  shows "evolves db db'"
proof (cases "db_wf db")
  case True
  obtain d where free: "\<not> email_taken (ac_id a) (ac_email a) db" and d: "insert_row (ac_id a) a (db_accounts db) = Inr d"
    and db': "db' = db\<lparr>db_accounts := d\<rparr>"
    using assms(1) by (auto simp: insert_account_def integrity_def split: if_splits sum.splits)
  show ?thesis unfolding db'
    by (rule evolves_row [OF free]) (use True assms(2) insert_row_Inr [OF d] in \<open>auto simp: db_wf_def get_by_id_def\<close>)
qed (simp add: evolves_def)

lemma evolves_create:
  "create_account fresh now e h db = Inr (a, db') \<Longrightarrow> evolves db db'"
  "create_social_account fresh now e' db = Inr (a, db') \<Longrightarrow> evolves db db'"
  by (auto simp: create_account_def create_social_account_def new_account_def Let_def
      split: if_splits sum.splits intro: evolves_insert)

lemma evolves_delete: "evolves db (delete_account_permanently k db)"
proof -
  have g: "get_by_id (delete_account_permanently k db) k' = (if k' = k then None else get_by_id db k')" for k'
    by (simp add: delete_account_permanently_def get_by_id_def dget_ddel Let_def split: option.split)
  have ok: "dict_ok (db_accounts db) \<Longrightarrow> dict_ok (db_accounts (delete_account_permanently k db))"
    by (simp add: delete_account_permanently_def dict_ok_ddel Let_def split: option.split)
  show ?thesis using ok unfolding evolves_def db_wf_def g by auto
qed

lemma evolves_rest:
  "create_verification_token e t x db = Inr db' \<Longrightarrow> evolves db db'"
  "create_reset_token e t x db = Inr db' \<Longrightarrow> evolves db db'"
  "create_social_identity p sb k e2 st db = Inr db' \<Longrightarrow> evolves db db'"
  "create_email_change_request k e t x rv db = Inr db' \<Longrightarrow> evolves db db'"
  "evolves db (delete_verification_token t db)" "evolves db (delete_reset_token t db)"
  "evolves db (delete_email_change_request t db)" "evolves db (create_account_deletion now k x db)"
  "evolves db (delete_account_deletion k db)" "evolves db (mark_deletion_purged k db)" "evolves db (mark_deletion_failed k db)"
  "evolves db (snd (increment_deletion_attempts k db))" "evolves db (snd (confirm_social_links_for_account k db))"
  "evolves db (purge_owner_data k db)"
  by (auto simp: create_verification_token_def create_reset_token_def create_social_identity_def
      create_email_change_request_def delete_verification_token_def delete_reset_token_def delete_email_change_request_def
      create_account_deletion_def delete_account_deletion_def mark_deletion_purged_def mark_deletion_failed_def
      increment_deletion_attempts_def confirm_social_links_for_account_def purge_owner_data_def Let_def
      split: sum.splits option.split intro!: evolves_same)

section \<open>Sound operations\<close>

text \<open>
  \<open>sound P m\<close>: from tables with \<open>P\<close>, the operation lets the account table evolve, raising or not,
  and commits nothing.
\<close>

definition sound :: "(acct_db \<Rightarrow> bool) \<Rightarrow> ('s, 'a) acct_act \<Rightarrow> bool" where
  "sound P m \<longleftrightarrow> (\<forall>w. db_wf (aw_db w) \<longrightarrow> P (aw_db w) \<longrightarrow>
     evolves (aw_db w) (aw_db (snd (m w))) \<and> aw_saved (snd (m w)) = aw_saved w)"

abbreviation any_db :: "acct_db \<Rightarrow> bool" where
  "any_db \<equiv> (\<lambda>_. True)"

lemma evolves_wf: "evolves db db' \<Longrightarrow> db_wf db \<Longrightarrow> db_wf db'"
  by (simp add: evolves_def)

lemma sound_leaf:
  "sound P (aret x)" "sound P (araise e)" "sound P (alift r)" "sound P (atell t)" "sound P (aredis g)"
  by (simp_all add: sound_def act_simps aredis_def split: prod.split)

lemma sound_put: "(\<And>db. db_wf db \<Longrightarrow> P db \<Longrightarrow> evolves db (g db)) \<Longrightarrow> sound P (aput g)"
  by (simp add: sound_def act_simps)

lemma sound_upd: "(\<And>db db'. db_wf db \<Longrightarrow> P db \<Longrightarrow> g db = Inr db' \<Longrightarrow> evolves db db') \<Longrightarrow> sound P (aupd g)"
  by (simp add: sound_def aupd_def split: sum.split)

lemma sound_upd_val:
  "(\<And>db x db'. db_wf db \<Longrightarrow> P db \<Longrightarrow> g db = Inr (x, db') \<Longrightarrow> evolves db db') \<Longrightarrow> sound P (aupd_val g)"
  by (simp add: sound_def aupd_val_def split: sum.split)

lemma sound_bind:
  assumes "sound P m" and "\<And>w x w'. db_wf (aw_db w) \<Longrightarrow> P (aw_db w) \<Longrightarrow> m w = (Inr x, w') \<Longrightarrow> R x (aw_db w')"
    and "\<And>x. sound (R x) (f x)"
  shows "sound P (abind m f)"
  unfolding sound_def
proof (intro allI impI)
  fix w :: "'a acct_world"
  assume w: "db_wf (aw_db w)" "P (aw_db w)"
  obtain out w1 where m: "m w = (out, w1)" by fastforce
  have 1: "evolves (aw_db w) (aw_db w1)" "aw_saved w1 = aw_saved w" using assms(1) w m by (auto simp: sound_def dest!: spec [of _ w])
  show "evolves (aw_db w) (aw_db (snd (abind m f w))) \<and> aw_saved (snd (abind m f w)) = aw_saved w"
  proof (cases out)
    case (Inl e)
    then show ?thesis using 1 m by (simp add: abind_def)
  next
    case (Inr x)
    then have "R x (aw_db w1)" using assms(2) w m by blast
    then have "evolves (aw_db w1) (aw_db (snd (f x w1))) \<and> aw_saved (snd (f x w1)) = aw_saved w1"
      using assms(3) [of x] evolves_wf [OF 1(1) w(1)] by (simp add: sound_def)
    then show ?thesis using 1 m Inr evolves_trans by (auto simp: abind_def)
  qed
qed

lemma sound_then: "sound P m \<Longrightarrow> (\<And>x. sound any_db (f x)) \<Longrightarrow> sound P (abind m f)"
  by (rule sound_bind [where R = "\<lambda>_. any_db"]) simp_all

lemma sound_get: "(\<And>x. sound (\<lambda>db. P db \<and> x = g db) (f x)) \<Longrightarrow> sound P (abind (aget g) f)"
  by (simp add: sound_def act_simps)

lemma soundD:
  "sound P m \<Longrightarrow> db_wf (aw_db w) \<Longrightarrow> P (aw_db w) \<Longrightarrow>
   evolves (aw_db w) (aw_db (snd (m w))) \<and> aw_saved (snd (m w)) = aw_saved w"
  by (simp add: sound_def)

lemma sound_lift: "(\<And>x. r = Inr x \<Longrightarrow> sound P (f x)) \<Longrightarrow> sound P (abind (alift r) f)"
  by (simp add: sound_def act_simps split: sum.split)

lemma sound_tell: "sound P (h ()) \<Longrightarrow> sound P (abind (atell t) h)"
  by (subst sound_def) (auto simp: act_simps dest: soundD [where w = "w\<lparr>aw_out := aw_out w @ [t]\<rparr>" for w])

lemma sound_redis:
  fixes f :: "'x \<Rightarrow> ('s, 'a) acct_act"
  assumes "\<And>x. sound P (f x)"
  shows "sound P (abind (aredis g) f)"
proof (unfold sound_def, intro allI impI)
  fix w :: "'s acct_world"
  assume w: "db_wf (aw_db w)" "P (aw_db w)"
  obtain r s where g: "g (aw_store w) = (r, s)" by fastforce
  show "evolves (aw_db w) (aw_db (snd (abind (aredis g) f w))) \<and> aw_saved (snd (abind (aredis g) f w)) = aw_saved w"
    using soundD [OF assms, of "w\<lparr>aw_store := s\<rparr>"] w g by (cases r) (simp_all add: act_simps)
qed

lemma sound_if: "(b \<Longrightarrow> sound P m) \<Longrightarrow> (\<not> b \<Longrightarrow> sound P n) \<Longrightarrow> sound P (if b then m else n)"
  by simp

lemma sound_option:
  "(v = None \<Longrightarrow> sound P m) \<Longrightarrow> (\<And>x. v = Some x \<Longrightarrow> sound P (f x)) \<Longrightarrow>
   sound P (case v of None \<Rightarrow> m | Some x \<Rightarrow> f x)"
  by (cases v) simp_all

lemma sound_pre: "sound R m \<Longrightarrow> (\<And>db. P db \<Longrightarrow> R db) \<Longrightarrow> sound P m"
  by (simp add: sound_def)

lemmas sounds = sound_get sound_lift sound_tell sound_redis sound_if sound_option sound_leaf

lemma changed_row:
  "db_wf db \<Longrightarrow> get_by_id db k = Some a \<Longrightarrow> update_account a' db = Inr db' \<Longrightarrow> ac_id a' = ac_id a \<Longrightarrow>
   ac_role a' = ac_role a \<Longrightarrow> evolves db db'"
  "db_wf db \<Longrightarrow> get_by_email db e = Some a \<Longrightarrow> update_account a' db = Inr db' \<Longrightarrow> ac_id a' = ac_id a \<Longrightarrow>
   ac_role a' = ac_role a \<Longrightarrow> evolves db db'"
  by (metis evolves_update wf_get) (metis evolves_update wf_email(1))

lemma sound_register: "sound any_db (register env now fresh token email pw)"
  unfolding register_def
  by (intro sounds sound_then sound_upd sound_upd_val) (auto intro: evolves_create evolves_rest)

lemma sound_resend: "sound any_db (resend_verification env now token email)"
  unfolding resend_verification_def
  by (auto intro!: sounds sound_then sound_upd intro: evolves_rest split: sum.split)

lemma sound_verify_email: "sound any_db (verify_email env now token)"
  unfolding verify_email_def
  by (intro sounds sound_then sound_upd sound_put) (auto intro: evolves_rest changed_row(2))

lemma sound_request_reset: "sound any_db (request_reset env now token email)"
  unfolding request_reset_def
  by (intro sounds sound_then sound_upd sound_put) (auto intro: evolves_rest)

lemma sound_confirm_reset: "sound any_db (confirm_reset env now token pw)"
  unfolding confirm_reset_def ainvalidate_all_def
  by (intro sounds sound_then sound_upd sound_put) (auto intro: evolves_rest changed_row(2))

lemma sound_account:
  fixes f :: "account \<Rightarrow> ('s, 'a) acct_act"
  assumes "\<And>a. sound (\<lambda>db. get_by_id db k = Some a) (f a)"
  shows "sound any_db (abind (the_account k) f)"
proof (rule sound_bind [where R = "\<lambda>a db. get_by_id db k = Some a"])
  show "sound any_db (the_account k :: ('s, account) acct_act)" unfolding the_account_def by (intro sounds)
qed (use assms in \<open>auto simp: the_account_def act_simps split: option.splits\<close>)

lemma sound_reauth:
  fixes f :: "unit \<Rightarrow> ('s, 'a) acct_act"
  assumes "\<And>x. sound P (f x)"
  shows "sound P (abind (reauthenticate env a cur) f)"
proof (rule sound_bind [where R = "\<lambda>_. P"])
  show "sound P (reauthenticate env a cur :: ('s, unit) acct_act)" unfolding reauthenticate_def by (intro sounds)
qed (use assms in \<open>auto simp: reauthenticate_def act_simps split: option.splits if_splits\<close>)

lemma sound_change_password: "sound any_db (change_password env now k cur new)"
  unfolding change_password_def ainvalidate_all_def
  by (intro sound_account sounds sound_then sound_upd) (auto intro: changed_row(1))

lemma sound_request_change: "sound any_db (request_email_change env now t rv k e cur)"
  unfolding request_email_change_def
  by (intro sound_account sound_reauth sounds sound_then sound_upd) (auto intro: evolves_rest)

lemma sound_revoke: "sound any_db (revoke_email_change env rv)"
  unfolding revoke_email_change_def
  by (auto intro!: sounds sound_put intro: evolves_rest)

lemma sound_confirm_change: "sound any_db (confirm_email_change env now token)"
  unfolding confirm_email_change_def Let_def ainvalidate_all_def
  by (auto intro!: sounds sound_then sound_upd sound_put intro: evolves_rest changed_row(1) [OF _ sym])

lemma sound_deletion: "sound any_db (request_deletion env now k cur)"
  unfolding request_deletion_def ainvalidate_all_def
  by (intro sound_account sound_reauth sounds sound_then sound_upd sound_put) (auto intro: evolves_rest changed_row(1))

lemma sound_reconcile: "sound any_db (reconcile now fresh p claims)"
  unfolding reconcile_def reconcile_emailless_def account_of_link_def Let_def
  by (auto intro!: sounds sound_then sound_upd sound_upd_val intro: evolves_rest evolves_create split: link_status.split)

lemma sound_links: "sound any_db (confirm_pending_links k)"
  unfolding confirm_pending_links_def
  by (intro sound_upd_val) (metis evolves_rest(13) prod.inject snd_conv sum.inject(2))

definition own :: "account \<Rightarrow> acct_db \<Rightarrow> bool" where
  "own a db \<longleftrightarrow> (\<exists>a0. get_by_id db (ac_id a) = Some a0 \<and> ac_role a0 = ac_role a)"

lemma own_update:
  "own a db \<Longrightarrow> update_account a' db = Inr db' \<Longrightarrow> ac_id a' = ac_id a \<Longrightarrow> ac_role a' = ac_role a \<Longrightarrow>
   evolves db db' \<and> own a' db'"
  by (auto simp: own_def intro: evolves_update)
    (auto simp: update_account_def get_by_id_def dget_dset integrity_def split: if_splits)

lemma own_deletion [simp]: "own a (delete_account_deletion k db) = own a db"
  by (simp add: own_def get_by_id_def delete_account_deletion_def)

lemma sound_status: "sound (own a) (status_gate react a)"
  unfolding status_gate_def Let_def
  by (auto intro!: sounds sound_then sound_upd sound_put intro: evolves_rest dest: own_update split: account_status.split)

lemma status_own: "status_gate react a w = (Inr a1, w') \<Longrightarrow> own a (aw_db w) \<Longrightarrow> own a1 (aw_db w')"
  by (auto simp: status_gate_def act_simps Let_def split: account_status.splits sum.splits if_splits option.splits dest: own_update)

lemma sound_reset: "sound (own a) (reset_failures a)"
  unfolding reset_failures_def Let_def
  by (auto intro!: sounds sound_then sound_upd dest: own_update)

lemma reset_own: "reset_failures a w = (Inr a1, w') \<Longrightarrow> own a (aw_db w) \<Longrightarrow> own a1 (aw_db w')"
  by (auto simp: reset_failures_def act_simps Let_def split: sum.splits if_splits dest: own_update)

lemma sound_upgrade: "sound (own a) (upgrade_hash env pw b a)"
  by (auto simp: sound_def upgrade_hash_def act_simps split: option.split sum.split dest: own_update)

lemma sound_sign_in: "sound (own a) (sign_in env now h pw react a)"
  unfolding sign_in_def
  by (rule sound_bind [OF sound_status, where R = own], erule (1) status_own)
    (rule sound_bind [OF sound_reset, where R = own], erule (1) reset_own,
      intro sound_then sound_upgrade sounds)

lemma sound_refuse: "sound (\<lambda>db. \<forall>a. acc = Some a \<longrightarrow> own a db) (refuse acc now)"
  unfolding refuse_def record_failure_def Let_def
  by (intro sounds sound_then sound_upd) (auto dest: own_update)

lemma sound_authenticate: "sound any_db (authenticate env now h e pw c ip react)"
proof -
  have gate: "sound P (captcha_gate env acc c ip)" for P acc
    unfolding captcha_gate_def by (intro sounds)
  have keep: "captcha_gate env acc c ip w = (Inr x, w') \<Longrightarrow> w' = w" for acc w x w'
    by (auto simp: captcha_gate_def act_simps split: option.splits if_splits)
  show ?thesis
    unfolding authenticate_def Let_def
  proof (rule sound_get)
    fix acc
    let ?P = "\<lambda>db. True \<and> acc = get_by_email db (normalize_email e)"
    have own: "\<forall>a. acc = Some a \<longrightarrow> own a db" if "db_wf db" "?P db" for db
      using that wf_email [of db "normalize_email e"] by (auto simp: own_def)
    show "sound ?P (abind (captcha_gate env acc c ip) (\<lambda>_. abind (atell (KdfVerify (case acc of None \<Rightarrow> DUMMY_HASH | Some a \<Rightarrow> ac_hash a)))
       (\<lambda>_. case acc of None \<Rightarrow> refuse acc now
         | Some a \<Rightarrow> if ev_verify env (case acc of None \<Rightarrow> DUMMY_HASH | Some a \<Rightarrow> ac_hash a) pw
             then sign_in env now h pw react a else refuse acc now)))"
    proof (rule sound_bind [OF gate, where R = "\<lambda>_ db. \<forall>a. acc = Some a \<longrightarrow> own a db"])
      show "\<forall>a. acc = Some a \<longrightarrow> own a (aw_db w')"
        if "db_wf (aw_db w)" "?P (aw_db w)" "captcha_gate env acc c ip w = (Inr x, w')" for w x w'
        using own [OF that(1,2)] keep [OF that(3)] by simp
    qed (auto intro!: sound_tell intro: sound_pre [OF sound_refuse] sound_pre [OF sound_sign_in] split: option.split)
  qed
qed

section \<open>Requests\<close>

inductive request :: "'s acct_env \<Rightarrow> 's acct_world \<Rightarrow> 's acct_world \<Rightarrow> bool" for env where
  "login_once env q w = (r, w') \<Longrightarrow> request env w w'"
| "get_session_info env now cookie w = (r, u, w') \<Longrightarrow> request env w w'"
| "logout env now cookie w = (r, w') \<Longrightarrow> request env w w'"
| "admin_whoami env now cookie w = (r, w') \<Longrightarrow> request env w w'"
| "signup_endpoint env now fresh token e pw w = (r, w') \<Longrightarrow> request env w w'"
| "verify_email_endpoint env now token w = (r, w') \<Longrightarrow> request env w w'"
| "resend_endpoint env now token e w = (r, w') \<Longrightarrow> request env w w'"
| "password_reset_request env now token e w = (r, w') \<Longrightarrow> request env w w'"
| "password_reset_confirm env now token pw w = (r, w') \<Longrightarrow> request env w w'"
| "change_password_endpoint env now cookie cur new w = (r, w') \<Longrightarrow> request env w w'"
| "email_change_request_endpoint env now token rv cookie e opw w = (r, w') \<Longrightarrow> request env w w'"
| "email_change_confirm env now token w = (r, w') \<Longrightarrow> request env w w'"
| "email_change_revoke env token w = (r, w') \<Longrightarrow> request env w w'"
| "delete_account env now cookie opw w = (r, w') \<Longrightarrow> request env w w'"
| "mfa_enroll env now cookie secret w = (r, w') \<Longrightarrow> request env w w'"
| "mfa_verify env now cookie code w = (r, w') \<Longrightarrow> request env w w'"
| "social_callback_endpoint env now fresh h p cookie st exchange (d, w) = (r, d', w') \<Longrightarrow> request env w w'"
| "social_link_confirm env now cookie w = (r, w') \<Longrightarrow> request env w w'"
| "demo_login env enabled now fresh tag h w = (r, w') \<Longrightarrow> request env w w'"
| "run_purge fails commit_ok now w = (n, w') \<Longrightarrow> request env w w'"

definition settled :: "'s acct_world \<Rightarrow> bool" where
  "settled w \<longleftrightarrow> aw_db w = aw_saved w \<and> db_wf (aw_saved w)"

definition advances :: "'s acct_world \<Rightarrow> 's acct_world \<Rightarrow> bool" where
  "advances w w' \<longleftrightarrow> settled w' \<and> evolves (aw_saved w) (aw_saved w')"

lemma advances_same: "settled w \<Longrightarrow> aw_db w' = aw_db w \<Longrightarrow> aw_saved w' = aw_saved w \<Longrightarrow> advances w w'"
  by (simp add: advances_def settled_def)

lemma advances_transact:
  assumes "sound any_db m" and "settled w" and "transact st ok m w = (r, w')"
  shows "advances w w'"
  using soundD [OF assms(1), of w] assms(2,3)
  by (auto simp: transact_def advances_def settled_def commit_def rollback_def intro: evolves_wf
      split: prod.splits sum.splits)

lemma advances_commit: "sound any_db m \<Longrightarrow> settled w \<Longrightarrow> m w = (out, w1) \<Longrightarrow> advances w (commit w1)"
  "sound any_db m \<Longrightarrow> settled w \<Longrightarrow> m w = (out, w1) \<Longrightarrow> advances w (rollback w1)"
  using soundD [of any_db m w]
  by (auto simp: advances_def settled_def commit_def rollback_def intro: evolves_wf)

lemma advances_trans: "advances w w1 \<Longrightarrow> advances w1 w2 \<Longrightarrow> advances w w2"
  unfolding advances_def using evolves_trans by blast

lemma record_attempt_advances: "settled w \<Longrightarrow> advances w (record_attempt ok k w)"
proof -
  assume w: "settled w"
  have "evolves (aw_db w) (let (n, db) = increment_deletion_attempts k (aw_db w)
      in if n \<ge> MAX_PURGE_ATTEMPTS then mark_deletion_failed k db else db)"
    using evolves_rest(12) [where k = k and db = "aw_db w"] evolves_rest(11) evolves_trans
    by (auto simp: Let_def split: prod.split)
  then show ?thesis using w
    by (auto simp: record_attempt_def advances_def settled_def commit_def rollback_def Let_def intro: evolves_wf split: prod.splits)
qed

lemma purge_one_advances:
  assumes "settled w" and "purge_one fails commit_ok k w = (ok, w')"
  shows "advances w w'"
proof -
  let ?db = "mark_deletion_purged k (delete_account_permanently k (purge_owner_data k (aw_db w)))"
  have ev: "evolves (aw_db w) ?db"
    by (rule evolves_trans [OF evolves_rest(14) evolves_trans [OF evolves_delete evolves_rest(10)]])
  have undo: "advances w (record_attempt c k (rollback w1))" if "aw_saved w1 = aw_saved w" for c w1
  proof -
    have "settled (rollback w1)" using assms(1) that by (simp add: settled_def rollback_def)
    from record_attempt_advances [OF this] show ?thesis using that by (simp add: advances_def rollback_def)
  qed
  show ?thesis using assms ev undo
    by (auto simp: purge_one_def Let_def advances_def settled_def commit_def intro: evolves_wf
        split: option.splits purge_step.splits if_splits)
qed

lemma purge_all_advances: "purge_all fails commit_ok ks w = (n, w') \<Longrightarrow> settled w \<Longrightarrow> advances w w'"
proof (induction ks arbitrary: w n w')
  case Nil
  then show ?case by (auto intro: advances_same)
next
  case (Cons k ks)
  obtain ok w1 where one: "purge_one fails commit_ok k w = (ok, w1)" by fastforce
  obtain m w2 where rest: "purge_all fails commit_ok ks w1 = (m, w2)" by fastforce
  have 1: "advances w w1" using purge_one_advances Cons.prems(2) one by blast
  then have "advances w1 w2" using Cons.IH [OF rest] by (simp add: advances_def)
  then show ?case using Cons.prems(1) one rest 1 advances_trans by fastforce
qed

lemma advances_open_session:
  "advances w w0 \<Longrightarrow> open_session env now h code p w0 = (r, w') \<Longrightarrow> advances w w'"
  by (auto simp: open_session_def aredis_def advances_def settled_def split: prod.splits sum.splits acct_exn.splits)

lemma averify_same: "averify env now cookie w = (out, w') \<Longrightarrow> aw_db w' = aw_db w \<and> aw_saved w' = aw_saved w"
  by (auto simp: averify_def aredis_def split: prod.splits)

lemma sound_averify: "(\<And>p. sound P (f p)) \<Longrightarrow> sound P (abind (averify env now cookie) f)"
  unfolding averify_def by (rule sound_redis)

lemma advances_cookie:
  assumes "with_cookie cookie (transact st ok m) w = (r, w')" and "settled w" and "sound any_db m"
  shows "advances w w'"
  using assms advances_transact by (auto simp: with_cookie_def intro: advances_same split: if_splits)

lemma mfa_advances:
  assumes "settled w"
  shows "mfa_enroll env now cookie secret w = (r, w') \<Longrightarrow> advances w w'"
    and "mfa_verify env now cookie code w = (r, w') \<Longrightarrow> advances w w'"
proof -
  have en: "sound (\<lambda>db. get_by_id db (pr_user_id p) = Some a) (totp_enroll env secret a)" for p a
    unfolding totp_enroll_def by (intro sounds sound_then sound_upd) (auto intro: changed_row(1))
  obtain out w1 where v: "averify env now cookie w = (out, w1)" by fastforce
  note s1 = averify_same [OF v]
  have w1: "settled w1" using assms s1 by (simp add: settled_def)
  show "advances w w'" if r: "mfa_enroll env now cookie secret w = (r, w')"
  proof (cases "\<exists>p a. cookie \<noteq> [] \<and> out = Inr p \<and> get_by_id (aw_db w1) (pr_user_id p) = Some a")
    case True
    then obtain p a where p: "out = Inr p" "get_by_id (aw_db w1) (pr_user_id p) = Some a" "cookie \<noteq> []" by blast
    obtain o2 w2 where m: "totp_enroll env secret a w1 = (o2, w2)" by fastforce
    have "evolves (aw_db w1) (aw_db w2) \<and> aw_saved w2 = aw_saved w1"
      using soundD [OF en [of p a], of w1] p w1 m by (simp add: settled_def)
    then show ?thesis using r p v m w1 s1
      by (auto simp: mfa_enroll_def transact_def advances_def settled_def commit_def rollback_def intro: evolves_wf
          split: sum.splits)
  next
    case False
    then show ?thesis using r v assms s1
      by (auto simp: mfa_enroll_def advances_def settled_def rollback_def split: if_splits sum.splits option.splits)
  qed
  show "advances w w'" if r: "mfa_verify env now cookie code w = (r, w')"
    using r v assms s1
    by (auto simp: mfa_verify_def aredis_def split: if_splits sum.splits option.splits prod.splits intro!: advances_same)
qed

lemma social_advances:
  assumes w: "settled w" and r: "social_callback env now fresh h p claims w = (r, w')"
  shows "advances w w'"
proof -
  have "sound any_db (abind (alift claims) (reconcile now fresh p))"
    by (intro sounds sound_reconcile)
  then have c: "advances w (commit w1)" "advances w (rollback w1)"
    if "abind (alift claims) (reconcile now fresh p) w = (out, w1)" for out w1
    using advances_commit w that by blast+
  show ?thesis using r c
    by (auto simp: social_callback_def intro: advances_open_session split: prod.splits sum.splits acct_exn.splits if_splits)
qed

lemma demo_advances:
  assumes w: "settled w" and r: "demo_login env en now fresh tag h w = (r, w')"
  shows "advances w w'"
proof -
  have "sound any_db (aupd_val (create_social_account fresh now e))" for e
    by (intro sound_upd_val) (auto intro: evolves_create)
  then have c: "advances w (commit w1)" "advances w (rollback w1)"
    if "aupd_val (create_social_account fresh now e) w = (out, w1)" for out w1 e
    using advances_commit w that by blast+
  show ?thesis using r w
    by (auto simp: demo_login_def intro: advances_open_session c advances_same split: prod.splits sum.splits if_splits)
qed

lemmas sound_services = sound_register sound_verify_email sound_resend sound_request_reset sound_confirm_reset
  sound_change_password sound_request_change sound_confirm_change sound_revoke sound_deletion sound_links

lemma request_advances: "request env w w' \<Longrightarrow> settled w \<Longrightarrow> advances w w'"
proof (induction rule: request.induct)
  case (1 q w r w')
  then show ?case
    using advances_transact [OF sound_authenticate]
    by (auto simp: login_once_def login_def reactivate_account_def split: if_splits)
next
  case (2 now cookie w r u w')
  then show ?case using averify_same by (fastforce simp: get_session_info_def intro: advances_same split: if_splits prod.splits sum.splits)
next
  case (3 now cookie w r w')
  then show ?case by (auto simp: logout_def aredis_def intro!: advances_same split: if_splits prod.splits sum.splits acct_exn.splits)
next
  case (4 now cookie w r w')
  then show ?case using averify_same by (fastforce simp: admin_whoami_def intro: advances_same split: if_splits prod.splits sum.splits)
next
  case (20 fails commit_ok now w n w')
  obtain m w1 where p: "purge_job fails commit_ok now w = (m, w1)" by fastforce
  have "advances w w1" using purge_all_advances p 20 by (fastforce simp: purge_job_def)
  then show ?case using 20 p by (auto simp: run_purge_def advances_def settled_def commit_def)
next
  case (17 now fresh h p cookie st exchange d w r d' w')
  then show ?case using social_advances
    by (fastforce simp: social_callback_endpoint_def intro: advances_same split: prod.splits sum.splits)
next
  case (15 now cookie secret w r w')
  then show ?case using mfa_advances by blast
next
  case (16 now cookie code w r w')
  then show ?case using mfa_advances by blast
next
  case (19 en now fresh tag h w r w')
  then show ?case using demo_advances by blast
qed (auto simp: signup_endpoint_def verify_email_endpoint_def resend_endpoint_def password_reset_request_def always_ok_def
    password_reset_confirm_def change_password_endpoint_def email_change_request_endpoint_def email_change_confirm_def
    email_change_revoke_def delete_account_def social_link_confirm_def
    intro: advances_transact advances_cookie sound_services sound_averify)


end
