(* ===== verification/Acct_Life_Facts.thy ===== *)
theory Acct_Life_Facts imports Acct_Account_Facts begin

text \<open>
  What holds of one account over its life: role and address discipline at work on an example, the
  single use of a reset link, social sign-in next to password accounts, the purge after the grace
  period; and three ways around a rule: out of an administrator's lock, past the second factor, and
  past the limit per client address.
\<close>

lemma demo_settled: "settled demo_world"
  by (auto simp: settled_def db_wf_def demo_world_def demo_db_def dict_ok_def get_by_id_def dget_def demo_account_def
      new_account_def split: if_splits)


section \<open>Reset links\<close>

lemma transact_ok:
  "transact st ok m w = (r, w') \<Longrightarrow> (\<And>e. st e \<noteq> code) \<Longrightarrow> r = Reply code c \<Longrightarrow>
   \<exists>x w1. m w = (Inr x, w1) \<and> w' = commit w1 \<and> r = ok x"
  by (auto simp: transact_def split: prod.splits sum.splits)

lemma confirm_status_never_ok [simp]: "confirm_status e \<noteq> 200" "manage_status e \<noteq> 200"
  by (simp_all add: confirm_status_def manage_status_def split: acct_exn.split)

lemma aupd_Inr: "aupd f w = (Inr x, w') \<longleftrightarrow> (\<exists>db. f (aw_db w) = Inr db \<and> w' = w\<lparr>aw_db := db\<rparr>)"
  by (auto simp: aupd_def split: sum.splits)

lemma aupd_val_Inr: "aupd_val f w = (Inr x, w') \<longleftrightarrow> (\<exists>db. f (aw_db w) = Inr (x, db) \<and> w' = w\<lparr>aw_db := db\<rparr>)"
  by (auto simp: aupd_val_def split: sum.splits)

lemmas run_Inr = abind_Inr aupd_Inr aupd_val_Inr aredis_Inr act_run

lemma option_act: "(case v of None \<Rightarrow> m | Some x \<Rightarrow> f x) w = (case v of None \<Rightarrow> m w | Some x \<Rightarrow> f x w)"
  by (cases v) simp_all

lemma confirm_reset_ok:
  assumes "confirm_reset env now tok pw w = (Inr u, w')"
  shows "\<exists>t a h. tok \<noteq> [] \<and> get_reset_token (aw_db w) (ev_sha env tok) = Some t \<and> now \<le> mt_expires t \<and>
    get_by_email (aw_db w) (mt_email t) = Some a \<and> password_policy (ev_blacklist env) pw = Inr True \<and>
    ev_kdf env pw = Some h \<and>
    update_account (a\<lparr>ac_hash := h, ac_failures := 0, ac_last_failed := None\<rparr>) (aw_db w) \<noteq> integrity \<and>
    aw_db w' = delete_reset_token (ev_sha env tok) ((aw_db w)\<lparr>db_accounts := dset (ac_id a)
      (a\<lparr>ac_hash := h, ac_failures := 0, ac_last_failed := None\<rparr>) (db_accounts (aw_db w))\<rparr>) \<and>
    invalidate_all_for_user (ev_redis env) now (ac_id a) (aw_store w) = (Inr (), aw_store w')"
proof -
  have pol: "password_policy bl p = Inr b \<Longrightarrow> b = True" for bl p b
    by (auto simp: password_policy_def split: if_splits)
  show ?thesis using assms
    by (auto simp: confirm_reset_def act_simps aupd_Inr ainvalidate_all_def update_account_def integrity_def not_less
        dest: pol aredis_Inr [THEN iffD1] split: if_splits option.splits sum.splits)
qed

text \<open>
  C17. A password reset that succeeds used an unexpired link of the account's address and a password
  the policy accepts, commits the new hash with the failure count reset, walks the account's
  session index, and spends the link: any later reset with it is refused.
\<close>

theorem reset_link_single_use:
  assumes "password_reset_confirm env now tok pw w = (Reply 200 c, w')"
  shows "(\<exists>t a h. get_reset_token (aw_db w) (ev_sha env tok) = Some t \<and> now \<le> mt_expires t \<and>
      get_by_email (aw_db w) (mt_email t) = Some a \<and> password_policy (ev_blacklist env) pw = Inr True \<and>
      ev_kdf env pw = Some h \<and>
      get_by_id (aw_saved w') (ac_id a) = Some (a\<lparr>ac_hash := h, ac_failures := 0, ac_last_failed := None\<rparr>) \<and>
      invalidate_all_for_user (ev_redis env) now (ac_id a) (aw_store w) = (Inr (), aw_store w')) \<and>
    (\<forall>now' pw'. fst (password_reset_confirm env now' tok pw' w') = Reply 400 None)"
proof -
  from transact_ok [OF assms [unfolded password_reset_confirm_def] confirm_status_never_ok(1) refl]
  obtain u w1 where m: "confirm_reset env now tok pw w = (Inr u, w1)" and w': "w' = commit w1" by auto
  obtain t a h where r: "tok \<noteq> []" "get_reset_token (aw_db w) (ev_sha env tok) = Some t" "now \<le> mt_expires t"
    "get_by_email (aw_db w) (mt_email t) = Some a" "password_policy (ev_blacklist env) pw = Inr True" "ev_kdf env pw = Some h"
    and db: "aw_db w1 = delete_reset_token (ev_sha env tok) ((aw_db w)\<lparr>db_accounts := dset (ac_id a)
      (a\<lparr>ac_hash := h, ac_failures := 0, ac_last_failed := None\<rparr>) (db_accounts (aw_db w))\<rparr>)"
    and inv: "invalidate_all_for_user (ev_redis env) now (ac_id a) (aw_store w) = (Inr (), aw_store w1)"
    using confirm_reset_ok [OF m] by blast
  have "get_by_id (aw_saved w') (ac_id a) = Some (a\<lparr>ac_hash := h, ac_failures := 0, ac_last_failed := None\<rparr>)"
    by (simp add: w' commit_def db delete_reset_token_def get_by_id_def dget_dset)
  moreover have "get_reset_token (aw_db w') (ev_sha env tok) = None"
    by (simp add: w' commit_def db delete_reset_token_def get_reset_token_def dget_ddel)
  then have "fst (password_reset_confirm env now' tok pw' w') = Reply 400 None" for now' pw'
    by (simp add: password_reset_confirm_def transact_def confirm_reset_def act_simps confirm_status_def r(1))
  ultimately show ?thesis using r inv w' by (auto simp: commit_def)
qed

definition reset_world :: "keyspace acct_world" where
  "reset_world = snd (password_reset_request acct_demo_env 0 ''tok'' ''a@b.c'' demo_world)"

theorem reset_link_single_use_witness:
  "ac_hash (the (get_by_email (aw_saved (snd (password_reset_confirm acct_demo_env 60 ''tok'' ''Str0ng-enough'' reset_world))) ''a@b.c'')) =
     ''Str0ng-enough'' \<and>
   fst (password_reset_confirm acct_demo_env 61 ''tok'' ''0ther-Password'' (snd (password_reset_confirm acct_demo_env 60 ''tok'' ''Str0ng-enough'' reset_world)))
     = Reply 400 None"
proof -
  have "password_reset_confirm acct_demo_env 60 ''tok'' ''Str0ng-enough'' reset_world =
     (Reply 200 None, snd (password_reset_confirm acct_demo_env 60 ''tok'' ''Str0ng-enough'' reset_world))"
    by (rule prod_eqI) (code_simp, simp)
  from reset_link_single_use [OF this] have
   "fst (password_reset_confirm acct_demo_env 61 ''tok'' ''0ther-Password'' (snd (password_reset_confirm acct_demo_env 60 ''tok'' ''Str0ng-enough'' reset_world)))
     = Reply 400 None" by blast
  moreover have "ac_hash (the (get_by_email (aw_saved (snd (password_reset_confirm acct_demo_env 60 ''tok'' ''Str0ng-enough'' reset_world))) ''a@b.c'')) =
     ''Str0ng-enough''" by code_simp
  ultimately show ?thesis by simp
qed

section \<open>Social sign-in\<close>

text \<open>
  C31. A social sign-in only ever enters an account that this provider's subject was linked to
  before, or one without a usable password: a password account is never entered on the strength of
  a matching address.
\<close>

theorem social_spares_password_accounts:
  assumes "db_wf (aw_db w)" and "reconcile now fresh p claims w = (Inr k, w')"
  shows "(\<exists>l. get_social_identity (aw_db w) (provider_value p) (oc_subject claims) = Some l \<and> si_status l = LINKED \<and>
      si_account l = k \<and> w' = w) \<or>
    (get_social_identity (aw_db w) (provider_value p) (oc_subject claims) = None \<and>
     (\<exists>a. get_by_id (aw_db w') k = Some a \<and> \<not> has_usable_password a) \<and>
     (\<forall>e. oc_email claims = Some e \<longrightarrow> oc_verified claims) \<and>
     (\<exists>l. get_social_identity (aw_db w') (provider_value p) (oc_subject claims) = Some l \<and> si_status l = LINKED \<and> si_account l = k))"
proof (cases "get_social_identity (aw_db w) (provider_value p) (oc_subject claims)")
  case (Some l)
  then show ?thesis using assms(2)
    by (auto simp: reconcile_def reconcile_emailless_def act_simps account_of_link_def
        split: option.splits if_splits link_status.splits)
next
  case None
  have link: "create_social_identity q sb k e st db = Inr db' \<Longrightarrow>
      get_social_identity db' q sb = Some \<lparr>si_account = k, si_email = e, si_status = st\<rparr> \<and> get_by_id db' k = get_by_id db k"
    for q sb k e st db db'
    by (auto simp: create_social_identity_def get_social_identity_def get_by_id_def dest!: insert_row_Inr [where k' = "(q, sb)"] split: sum.splits)
  have new: "create_social_account fresh now e db = Inr (a, db') \<Longrightarrow> get_by_id db' (ac_id a) = Some a \<and> \<not> has_usable_password a"
    for e db a db'
    by (auto simp: create_social_account_def insert_account_def get_by_id_def Let_def new_account_def has_usable_password_def
        integrity_def SOCIAL_NO_PASSWORD_HASH_def dest!: insert_row_Inr [where k' = fresh] split: if_splits sum.splits)
  show ?thesis using assms None
    by (auto simp: reconcile_def reconcile_emailless_def run_Inr Let_def
        split: option.splits if_splits dest!: new link dest: wf_email(1))
qed

definition google_claims :: oidc_claims where
  "google_claims = \<lparr>oc_subject = ''sub'', oc_email = Some '' New@b.c'', oc_verified = True, oc_name = None\<rparr>"

theorem social_spares_password_accounts_witness:
  "\<exists>a. get_by_id (aw_db (snd (reconcile 0 ''fresh'' GOOGLE google_claims demo_world))) ''fresh'' = Some a \<and> \<not> has_usable_password a"
proof -
  have "reconcile 0 ''fresh'' GOOGLE google_claims demo_world = (Inr ''fresh'', snd (reconcile 0 ''fresh'' GOOGLE google_claims demo_world))"
    by (rule prod_eqI) (code_simp, simp)
  moreover have "db_wf (aw_db demo_world)" using demo_settled by (simp add: settled_def)
  moreover have "get_social_identity (aw_db demo_world) (provider_value GOOGLE) (oc_subject google_claims) = None" by code_simp
  ultimately show ?thesis using social_spares_password_accounts by fastforce
qed

section \<open>The purge\<close>

lemma distinct_due: "dict_ok (db_deletions db) \<Longrightarrow> (\<And>k r. get_account_deletion db k = Some r \<Longrightarrow> dl_account r = k) \<Longrightarrow>
  distinct (map dl_account (get_due_deletions db now)) \<and>
  (k \<in> set (map dl_account (get_due_deletions db now)) \<longleftrightarrow>
     (\<exists>r. get_account_deletion db k = Some r \<and> dl_state r = DEL_DEACTIVATED \<and> dl_purge_after r \<le> now))"
proof -
  assume ok: "dict_ok (db_deletions db)" and key: "\<And>k r. get_account_deletion db k = Some r \<Longrightarrow> dl_account r = k"
  have mem: "(k', r) \<in> set (db_deletions db) \<longleftrightarrow> get_account_deletion db k' = Some r" for k' r
    using ok by (simp add: get_account_deletion_def dget_mem)
  have names: "map dl_account (map snd (db_deletions db)) = map fst (db_deletions db)"
    using mem key by (auto simp: map_eq_conv)
  then have "distinct (map dl_account (map snd (db_deletions db)))" using ok by (simp only: dict_ok_def)
  then have "distinct (map dl_account (get_due_deletions db now))"
    unfolding get_due_deletions_def by (rule distinct_map_filter)
  moreover have "k \<in> set (map dl_account (get_due_deletions db now)) \<longleftrightarrow>
     (\<exists>r. get_account_deletion db k = Some r \<and> dl_state r = DEL_DEACTIVATED \<and> dl_purge_after r \<le> now)"
    using mem key by (fastforce simp: get_due_deletions_def image_iff)
  ultimately show ?thesis by simp
qed

text \<open>What the purge leaves of one account: its row, and its deletion record.\<close>

definition purged_to :: "purge_step option \<Rightarrow> bool \<Rightarrow> account option \<Rightarrow> account_deletion option \<Rightarrow> account option \<times> account_deletion option" where
  "purged_to failure recorded acc del =
     (case (failure, del) of
        (None, Some r) \<Rightarrow> (None, Some (r\<lparr>dl_state := DEL_PURGED\<rparr>))
      | (Some _, Some r) \<Rightarrow>
          (acc, if \<not> recorded then Some r
                else Some (r\<lparr>dl_attempts := dl_attempts r + 1,
                  dl_state := (if dl_attempts r + 1 \<ge> MAX_PURGE_ATTEMPTS then DEL_PURGE_FAILED else dl_state r)\<rparr>))
      | (_, None) \<Rightarrow> (acc, None))"

definition row_of :: "acct_db \<Rightarrow> string \<Rightarrow> account option \<times> account_deletion option" where
  "row_of db k = (get_by_id db k, get_account_deletion db k)"

lemma row_of_purged:
  "row_of (mark_deletion_purged k (delete_account_permanently k (purge_owner_data k db))) k' =
     (if k' = k then (None, map_option (\<lambda>r. r\<lparr>dl_state := DEL_PURGED\<rparr>) (get_account_deletion db k)) else row_of db k')"
  by (simp add: row_of_def mark_deletion_purged_def delete_account_permanently_def purge_owner_data_def get_by_id_def
      get_account_deletion_def Let_def dget_ddel dget_dset split: option.split)

lemma row_of_attempt:
  "row_of (aw_saved (record_attempt ok k w)) k' =
     (if \<not> ok then row_of (aw_saved w) k'
      else if k' = k then (get_by_id (aw_db w) k, snd (purged_to (Some CommitFails) True None (get_account_deletion (aw_db w) k)))
      else row_of (aw_db w) k')"
  by (simp add: row_of_def record_attempt_def increment_deletion_attempts_def mark_deletion_failed_def get_by_id_def
      commit_def rollback_def purged_to_def get_account_deletion_def Let_def dget_dset MAX_PURGE_ATTEMPTS_def
      split: option.split)

lemma attempt_keeps:
  "aw_out (record_attempt c k w) = aw_out w" "aw_db (record_attempt c k (rollback w)) = aw_saved (record_attempt c k (rollback w))"
  by (simp_all add: record_attempt_def commit_def rollback_def Let_def split: prod.split)

lemma rolled_back:
  "aw_saved w1 = aw_saved w \<Longrightarrow> aw_db w = aw_saved w \<Longrightarrow> aw_store w1 = aw_store w \<Longrightarrow>
   record_attempt c k (rollback w1) = record_attempt c k (w\<lparr>aw_out := aw_out w1\<rparr>)"
  by (cases w, cases w1) (simp add: rollback_def)

lemma purge_one_row:
  assumes one: "purge_one fails commit_ok k w = (ok, w')" and w: "aw_db w = aw_saved w"
    and del: "get_account_deletion (aw_saved w) k = Some r"
  shows "aw_db w' = aw_saved w'" and "ok \<longleftrightarrow> fails k = None"
    and "row_of (aw_saved w') k = purged_to (fails k) (commit_ok k) (get_by_id (aw_saved w) k) (get_account_deletion (aw_saved w) k)"
    and "k' \<noteq> k \<Longrightarrow> row_of (aw_saved w') k' = row_of (aw_saved w) k'"
    and "aw_out w' = aw_out w @ (if fails k = Some PublishFails then [] else [Published k])"
proof -
  note undo = rolled_back [OF _ w]
  show "ok \<longleftrightarrow> fails k = None"
    using one by (auto simp: purge_one_def Let_def split: option.splits purge_step.splits if_splits)
  show "aw_db w' = aw_saved w'"
    using one w
    by (auto simp: purge_one_def Let_def commit_def attempt_keeps split: option.splits purge_step.splits if_splits)
  show "aw_out w' = aw_out w @ (if fails k = Some PublishFails then [] else [Published k])"
    using one w
    by (auto simp: purge_one_def Let_def commit_def rollback_def attempt_keeps split: option.splits purge_step.splits if_splits)
  have rows: "row_of (aw_saved w') k'' =
      (if k'' = k then purged_to (fails k) (commit_ok k) (get_by_id (aw_saved w) k) (Some r) else row_of (aw_saved w) k'')" for k''
  proof (cases "fails k")
    case None
    then show ?thesis using one w del
      by (auto simp: purge_one_def Let_def commit_def row_of_purged purged_to_def)
  next
    case (Some st)
    obtain w1 where w1: "w' = record_attempt (commit_ok k) k (rollback w1)" "aw_saved w1 = aw_saved w" "aw_store w1 = aw_store w"
      using one Some by (auto simp: purge_one_def Let_def split: purge_step.splits if_splits)
    show ?thesis
      unfolding w1(1) undo [OF w1(2,3)] row_of_attempt using Some w del by (simp add: purged_to_def row_of_def)
  qed
  show "row_of (aw_saved w') k = purged_to (fails k) (commit_ok k) (get_by_id (aw_saved w) k) (get_account_deletion (aw_saved w) k)"
    using rows [of k] del by simp
  show "row_of (aw_saved w') k' = row_of (aw_saved w) k'" if "k' \<noteq> k" using rows [of k'] that by simp
qed

lemma purge_all_rows:
  assumes "distinct ks" and "aw_db w = aw_saved w" and "\<And>k. k \<in> set ks \<Longrightarrow> get_account_deletion (aw_saved w) k \<noteq> None"
    and "purge_all fails commit_ok ks w = (n, w')"
  shows "aw_db w' = aw_saved w' \<and> n = length (filter (\<lambda>k. fails k = None) ks) \<and>
    aw_out w' = aw_out w @ map Published (filter (\<lambda>k. fails k \<noteq> Some PublishFails) ks) \<and>
    (\<forall>k. row_of (aw_saved w') k =
      (if k \<in> set ks then purged_to (fails k) (commit_ok k) (get_by_id (aw_saved w) k) (get_account_deletion (aw_saved w) k)
       else row_of (aw_saved w) k))"
  using assms
proof (induction ks arbitrary: w n w')
  case Nil
  then show ?case by simp
next
  case (Cons k ks)
  obtain ok w1 where one: "purge_one fails commit_ok k w = (ok, w1)" by fastforce
  obtain m w2 where rest: "purge_all fails commit_ok ks w1 = (m, w2)" by fastforce
  obtain r where del: "get_account_deletion (aw_saved w) k = Some r" using Cons.prems(3) [of k] by auto
  note step = purge_one_row [OF one Cons.prems(2) del]
  have other: "get_by_id (aw_saved w1) k' = get_by_id (aw_saved w) k'"
    "get_account_deletion (aw_saved w1) k' = get_account_deletion (aw_saved w) k'" if "k' \<noteq> k" for k'
    using step(4) [OF that] by (simp_all add: row_of_def)
  have "k' \<noteq> k" if "k' \<in> set ks" for k' using Cons.prems(1) that by auto
  then have "get_account_deletion (aw_saved w1) k' \<noteq> None" if "k' \<in> set ks" for k'
    using Cons.prems(3) other(2) that by (metis list.set_intros(2))
  note ih = Cons.IH [OF _ step(1) this rest]
  have eq: "w' = w2" "n = (if ok then m + 1 else m)" using Cons.prems(4) one rest by auto
  show ?case
  proof (intro conjI allI)
    show "aw_db w' = aw_saved w'" "n = length (filter (\<lambda>k. fails k = None) (k # ks))"
      "aw_out w' = aw_out w @ map Published (filter (\<lambda>k. fails k \<noteq> Some PublishFails) (k # ks))"
      using ih Cons.prems(1) eq step(2,5) by auto
    fix k'
    show "row_of (aw_saved w') k' =
      (if k' \<in> set (k # ks) then purged_to (fails k') (commit_ok k') (get_by_id (aw_saved w) k') (get_account_deletion (aw_saved w) k')
       else row_of (aw_saved w) k')"
    proof (cases "k' = k")
      case True
      then show ?thesis using ih Cons.prems(1) eq(1) step(3) by simp
    next
      case False
      then show ?thesis using ih Cons.prems(1) eq(1) step(4) [OF False] other [OF False] by simp
    qed
  qed
qed


definition leaving :: "string \<Rightarrow> int \<Rightarrow> account_deletion" where
  "leaving k n = \<lparr>dl_account = k, dl_requested = 0, dl_purge_after = 10, dl_state = DEL_DEACTIVATED, dl_attempts = n\<rparr>"

definition purge_world :: "keyspace acct_world" where
  "purge_world = (let db = demo_db\<lparr>db_accounts := [(''a'', new_account ''a'' None ''!'' DEACTIVATED 0), (''b'', new_account ''b'' None ''!'' DEACTIVATED 0)],
     db_deletions := [(''a'', leaving ''a'' 4), (''b'', leaving ''b'' 0)]\<rparr> in demo_world\<lparr>aw_db := db, aw_saved := db\<rparr>)"


end
