(* ===== verification/Acct_Bypass_Facts.thy ===== *)
theory Acct_Bypass_Facts imports Acct_Life_Facts begin

text \<open>
  Two ways around a rule of the accounts module: out of an administrator's lock by deleting and
  reactivating the account, and past the second factor by enrolling a new one from a session that
  has not passed it.
\<close>

section \<open>The lock\<close>

lemma by_email_of_id:
  assumes "db_wf db" and "get_by_id db k = Some a" and "ac_email a = Some e"
  shows "get_by_email db e = Some a"
proof -
  have "(k, a) \<in> set (db_accounts db)"
    using assms(1,2) by (simp add: db_wf_def get_by_id_def dget_mem)
  then have "get_by_email db e \<noteq> None"
    using assms(3) by (auto simp: get_by_email_def row_where_def find_None_iff)
  then obtain b where b: "get_by_email db e = Some b" by blast
  have "get_by_id db (ac_id b) = Some b" "ac_email b = Some e" using wf_email [OF assms(1) b] .
  then show ?thesis using assms b unfolding db_wf_def by (metis option.distinct(1) option.inject)
qed

lemma same_update:
  assumes "db_wf db" and "get_by_id db k = Some a" and "ac_id a' = ac_id a" and "ac_email a' = ac_email a"
  shows "update_account a' db = Inr (db\<lparr>db_accounts := dset k a' (db_accounts db)\<rparr>)"
proof -
  have k: "ac_id a = k" using wf_get [OF assms(1,2)] .
  have "\<not> email_taken k (ac_email a) db"
    using assms(1,2) by (auto simp: taken_iff db_wf_def)
  then show ?thesis using assms(3,4) k by (simp add: update_account_def)
qed

lemma delete_account_ok:
  assumes "delete_account env now cookie (Some pw) w = (Reply 200 c, w1)" and "averify env now cookie w = (Inr p, w0)"
    and "get_by_id (aw_db w) (pr_user_id p) = Some a" and "db_wf (aw_db w)" and "has_usable_password a"
  shows "ev_verify env (ac_hash a) pw" and "aw_db w1 = aw_saved w1"
    and "aw_saved w1 = create_account_deletion now (ac_id a) (now + GRACE_DAYS)
      ((aw_db w)\<lparr>db_accounts := dset (pr_user_id p) (a\<lparr>ac_status := DEACTIVATED\<rparr>) (db_accounts (aw_db w))\<rparr>)"
proof -
  have same: "aw_db w0 = aw_db w" using averify_same [OF assms(2)] by simp
  have upd: "update_account (a\<lparr>ac_status := DEACTIVATED\<rparr>) (aw_db w0) =
      Inr ((aw_db w)\<lparr>db_accounts := dset (pr_user_id p) (a\<lparr>ac_status := DEACTIVATED\<rparr>) (db_accounts (aw_db w))\<rparr>)"
    using same_update [OF assms(4,3)] same by simp
  obtain u w' where run: "abind (averify env now cookie) (\<lambda>p. request_deletion env now (pr_user_id p) (Some pw)) w = (Inr u, w')"
    and w1: "w1 = commit w'"
    using assms(1) by (auto simp: delete_account_def with_cookie_def split: if_splits dest: transact_ok [OF _ _ refl])
  then have req: "request_deletion env now (pr_user_id p) (Some pw) w0 = (Inr u, w')"
    using assms(2) by (simp add: abind_def)
  then show "ev_verify env (ac_hash a) pw" "aw_db w1 = aw_saved w1"
    "aw_saved w1 = create_account_deletion now (ac_id a) (now + GRACE_DAYS)
      ((aw_db w)\<lparr>db_accounts := dset (pr_user_id p) (a\<lparr>ac_status := DEACTIVATED\<rparr>) (db_accounts (aw_db w))\<rparr>)"
    using assms(3,5) same upd
    by (auto simp: request_deletion_def the_account_def reauthenticate_def run_Inr ainvalidate_all_def w1 commit_def
        split: if_splits)
qed

lemma issue_up:
  assumes "redis_store R view" and "redis_up R"
  shows "\<exists>r s'. issue R cfg now h p s = (Inr r, s') \<and> se_handle r = h"
proof -
  let ?r = "\<lparr>se_handle = h, se_user = pr_user_id p, se_created = now, se_last_active = now,
     se_expires = now + lifetime_seconds cfg, se_role = role_value (pr_role p), se_mfa = pr_mfa p\<rparr>"
  obtain s' where "repo_save R (cfg_isofmt cfg) now ?r s = (Inr (), s')"
    using redis_store.save_up [OF assms] by blast
  then show ?thesis by (simp add: issue_def)
qed

lemma sign_in_works:
  assumes R: "redis_store (ev_redis env) view" "redis_up (ev_redis env)" and wf: "db_wf (aw_db w)"
    and a: "get_by_id (aw_db w) k = Some a" "ac_id a = k" "uuid_ok k" "ac_status a = DEACTIVATED"
    and d: "get_account_deletion (aw_db w) k = Some r" "dl_state r = DEL_DEACTIVATED"
  shows "\<exists>w'. sign_in env now h pw True a w = (Inr h, w') \<and> (\<exists>a'. get_by_id (aw_db w') k = Some a' \<and> ac_status a' = ACTIVE)"
proof -
  let ?a1 = "a\<lparr>ac_status := ACTIVE\<rparr>"
  let ?w1 = "w\<lparr>aw_db := delete_account_deletion k ((aw_db w)\<lparr>db_accounts := dset k ?a1 (db_accounts (aw_db w))\<rparr>)\<rparr>"
  have st: "status_gate True a w = (Inr ?a1, ?w1)"
    using same_update [OF wf a(1), of ?a1] a d by (simp add: status_gate_def act_simps Let_def)
  have wf1: "db_wf (aw_db ?w1)"
    using evolves_wf [OF changed_row(1) [OF wf a(1) same_update [OF wf a(1), of ?a1]] wf]
      evolves_wf [OF evolves_rest(9)] by simp
  have g1: "get_by_id (aw_db ?w1) k = Some ?a1"
    by (simp add: get_by_id_def delete_account_deletion_def dget_dset)
  have "\<exists>a2 w2. reset_failures ?a1 ?w1 = (Inr a2, w2) \<and> db_wf (aw_db w2) \<and> get_by_id (aw_db w2) k = Some a2 \<and>
      ac_status a2 = ACTIVE \<and> ac_id a2 = k \<and> ac_role a2 = ac_role a"
  proof (cases "ac_failures ?a1 > 0")
    case True
    let ?a2 = "?a1\<lparr>ac_failures := 0, ac_last_failed := None\<rparr>"
    note u = same_update [OF wf1 g1, of ?a2]
    have "db_wf ((aw_db ?w1)\<lparr>db_accounts := dset k ?a2 (db_accounts (aw_db ?w1))\<rparr>)"
      by (rule evolves_wf [OF changed_row(1) [OF wf1 g1 u] wf1]) simp_all
    then show ?thesis using u True a(2)
      by (auto simp: reset_failures_def act_simps Let_def get_by_id_def dget_dset)
  next
    case False
    then show ?thesis using wf1 g1 a(2) by (auto simp: reset_failures_def act_simps)
  qed
  then obtain a2 w2 where re: "reset_failures ?a1 ?w1 = (Inr a2, w2)" and wf2: "db_wf (aw_db w2)"
    and g2: "get_by_id (aw_db w2) k = Some a2" and a2: "ac_status a2 = ACTIVE" "ac_id a2 = k" "ac_role a2 = ac_role a" by blast
  have "\<exists>a3 w3. upgrade_hash env pw b a2 w2 = (Inr a3, w3) \<and> ac_id a3 = k \<and>
      (\<exists>a'. get_by_id (aw_db w3) k = Some a' \<and> ac_status a' = ACTIVE)" for b
    using g2 a2
    by (auto simp: upgrade_hash_def act_simps get_by_id_def dget_dset update_account_def integrity_def
        split: option.split sum.split if_splits)
  then obtain a3 w3 where up: "upgrade_hash env pw (ev_needs_rehash env (ac_hash a)) a2 w2 = (Inr a3, w3)"
    and a3: "ac_id a3 = k" "\<exists>a'. get_by_id (aw_db w3) k = Some a' \<and> ac_status a' = ACTIVE" by blast
  obtain p where p: "mk_principal (ac_id a3) (role_or_user (ac_role a3)) False = Inr p"
    using a(3) a3(1) by (simp add: mk_principal_def)
  obtain rr s where "issue (ev_redis env) (ev_cfg env) now h p (aw_store w3) = (Inr rr, s)" "se_handle rr = h"
    using issue_up [OF R] by blast
  then show ?thesis using st re up p a3(2)
    by (simp add: sign_in_def abind_def alift_def aredis_def atell_def aret_def get_by_id_def)
qed

text \<open>
  C38. An account an administrator locked unlocks itself: with a session that was open before, its
  owner asks for deletion, which overwrites the lock, and then for reactivation, which makes the
  account active and opens a session.
\<close>

theorem lock_escapes:
  assumes "redis_ok (ev_redis env) view" and "redis_up (ev_redis env)" and "settled w"
    and "get_by_email (aw_db w) (normalize_email e) = Some a" and "ac_status a = LOCKED" and "has_usable_password a"
    and "uuid_ok (ac_id a)" and "ac_failures a < CAPTCHA_THRESHOLD" and "get_account_deletion (aw_db w) (ac_id a) = None"
    and "averify env t1 cookie w = (Inr p, w0)" and "pr_user_id p = ac_id a"
    and "delete_account env t1 cookie (Some pw) w = (Reply 200 c, w1)"
  shows "\<exists>w2 a'. reactivate_account env t2 h e pw captcha ip w1 = (Reply 200 (Some h), w2) \<and>
    get_by_id (aw_saved w2) (ac_id a) = Some a' \<and> ac_status a' = ACTIVE"
proof -
  have wf: "db_wf (aw_db w)" using assms(3) by (simp add: settled_def)
  have g: "get_by_id (aw_db w) (ac_id a) = Some a" and em: "ac_email a = Some (normalize_email e)"
    using wf_email [OF wf assms(4)] .
  let ?a = "a\<lparr>ac_status := DEACTIVATED\<rparr>"
  note del = delete_account_ok [OF assms(12,10) _ wf assms(6), unfolded assms(11), OF g]
  have wf1: "db_wf (aw_db w1)"
    using request_advances [OF request.intros(14) [OF assms(12)] assms(3)] by (simp add: advances_def settled_def)
  have g1: "get_by_id (aw_db w1) (ac_id a) = Some ?a"
    by (simp add: del get_by_id_def create_account_deletion_def dget_dset split: option.split)
  have e1: "get_by_email (aw_db w1) (normalize_email e) = Some ?a"
    using by_email_of_id [OF wf1 g1] em by simp
  obtain r where r: "get_account_deletion (aw_db w1) (ac_id a) = Some r" "dl_state r = DEL_DEACTIVATED"
    using assms(9) by (simp add: del create_account_deletion_def get_account_deletion_def dget_dset)
  let ?w = "w1\<lparr>aw_out := aw_out w1 @ [KdfVerify (ac_hash a)]\<rparr>"
  have "\<exists>w'. sign_in env t2 h pw True ?a ?w = (Inr h, w') \<and> (\<exists>a'. get_by_id (aw_db w') (ac_id a) = Some a' \<and> ac_status a' = ACTIVE)"
    by (rule sign_in_works [OF redis_store.intro [OF assms(1)] assms(2)]) (use wf1 g1 r assms(7) in simp_all)
  then obtain w' where s: "sign_in env t2 h pw True ?a ?w = (Inr h, w')"
    "\<exists>a'. get_by_id (aw_db w') (ac_id a) = Some a' \<and> ac_status a' = ACTIVE" by blast
  have "authenticate env t2 h e pw captcha ip True w1 = (Inr h, w')"
    using s(1) e1 del(1) assms(8) by (simp add: authenticate_def act_simps captcha_gate_def Let_def)
  then show ?thesis using s(2) by (simp add: reactivate_account_def transact_def commit_def)
qed

definition locked_world :: "keyspace acct_world" where
  "locked_world = (let db = demo_db\<lparr>db_accounts := [(ac_id demo_account, demo_account\<lparr>ac_status := LOCKED\<rparr>)]\<rparr>
     in (snd (login acct_demo_env 0 ''h'' ''a@b.c'' ''secret'' None None demo_world))\<lparr>aw_db := db, aw_saved := db\<rparr>)"

theorem lock_escapes_witness:
  "\<exists>w2. reactivate_account acct_demo_env 2 ''g'' ''a@b.c'' ''secret'' None None (snd (delete_account acct_demo_env 1 ''h'' (Some ''secret'') locked_world)) =
     (Reply 200 (Some ''g''), w2)"
proof -
  let ?a = "demo_account\<lparr>ac_status := LOCKED\<rparr>"
  have 1: "redis_ok (ev_redis acct_demo_env) id" "redis_up (ev_redis acct_demo_env)"
    by (simp_all add: acct_demo_env_def ks_redis_ok ks_redis_up)
  have 2: "settled locked_world"
    by (auto simp: settled_def db_wf_def locked_world_def demo_db_def dict_ok_def get_by_id_def dget_def demo_account_def
        new_account_def Let_def split: if_splits)
  have 3: "get_by_email (aw_db locked_world) (normalize_email ''a@b.c'') = Some ?a" by code_simp
  have 4: "ac_status ?a = LOCKED" "has_usable_password ?a" "uuid_ok (ac_id ?a)" "ac_failures ?a < CAPTCHA_THRESHOLD"
    "get_account_deletion (aw_db locked_world) (ac_id ?a) = None" by code_simp+
  have 5: "averify acct_demo_env 1 ''h'' locked_world = (Inr someone, snd (averify acct_demo_env 1 ''h'' locked_world))"
    by (rule prod_eqI) (code_simp, simp)
  have 6: "pr_user_id someone = ac_id ?a" by (simp add: demo_account_def new_account_def)
  have 7: "delete_account acct_demo_env 1 ''h'' (Some ''secret'') locked_world =
      (Reply 200 None, snd (delete_account acct_demo_env 1 ''h'' (Some ''secret'') locked_world))"
    by (rule prod_eqI) (code_simp, simp)
  show ?thesis using lock_escapes [OF 1 2 3 4 5 6 7] by blast
qed

section \<open>The second factor\<close>

definition live_session :: "session_cfg \<Rightarrow> keyspace \<Rightarrow> rat \<Rightarrow> string \<Rightarrow> session_record \<Rightarrow> bool" where
  "live_session cfg ks now h r \<longleftrightarrow>
     (\<exists>d. ks (session_key h) = Some (RJson (session_json (cfg_isofmt cfg) r), Some d) \<and> now < d) \<and> se_handle r = h \<and> h \<noteq> [] \<and>
     now \<le> se_last_active r + idle_seconds cfg \<and> 1 \<le> se_expires r - now \<and> uuid_ok (se_user r)"

definition session_principal :: "session_record \<Rightarrow> auth_principal" where
  "session_principal r = \<lparr>pr_user_id = se_user r, pr_role = role_or_user (se_role r), pr_mfa = se_mfa r\<rparr>"

context redis_store
begin

lemma saved_live:
  assumes "repo_save R (cfg_isofmt cfg) now r s = (Inr (), s')" and "1 \<le> se_expires r - now" and "se_last_active r = now"
    and "se_handle r = h" "h \<noteq> []" "uuid_ok (se_user r)" "0 \<le> idle_seconds cfg"
  shows "live_session cfg (view s') now h r"
  using save_effect(1) [OF assms(1) trunc_pos [OF assms(2)]] trunc_pos [OF assms(2)] assms(2-)
  by (simp add: live_session_def)

lemma verify_live:
  assumes "redis_up R" "iso_ok cfg" "0 \<le> idle_seconds cfg" and "live_session cfg (view s) now h r"
  shows "\<exists>s'. verify R cfg now h s = (Inr (session_principal r), s') \<and>
    live_session cfg (view s') now h (r\<lparr>se_last_active := now\<rparr>)"
proof -
  note live = assms(4) [unfolded live_session_def]
  obtain s1 where g: "repo_get R (cfg_fromiso cfg) now h s = (Inr (Some r), s1)"
    using get_live [OF assms(1,2)] live by blast
  obtain s2 where sv: "repo_save R (cfg_isofmt cfg) now (r\<lparr>se_last_active := now\<rparr>) s1 = (Inr (), s2)"
    using save_up [OF assms(1)] by blast
  have "live_session cfg (view s2) now h (r\<lparr>se_last_active := now\<rparr>)"
    by (rule saved_live [OF sv]) (use live assms(3) in simp_all)
  then show ?thesis using g sv live
    by (simp add: verify_def verify_read_def verify_write_def mk_principal_def session_principal_def)
qed

lemma elevate_live:
  assumes "redis_up R" "iso_ok cfg" "0 \<le> idle_seconds cfg" and "live_session cfg (view s) now h r"
  shows "\<exists>p s'. elevate_mfa R cfg now h s = (Inr p, s') \<and>
    live_session cfg (view s') now h (r\<lparr>se_last_active := now, se_mfa := True\<rparr>)"
proof -
  obtain s1 where v: "verify R cfg now h s = (Inr (session_principal r), s1)"
    and l1: "live_session cfg (view s1) now h (r\<lparr>se_last_active := now\<rparr>)"
    using verify_live [OF assms] by blast
  note live = l1 [unfolded live_session_def]
  obtain s2 where g: "repo_get R (cfg_fromiso cfg) now h s1 = (Inr (Some (r\<lparr>se_last_active := now\<rparr>)), s2)"
    using get_live [OF assms(1,2)] live by blast
  obtain s3 where sv: "repo_save R (cfg_isofmt cfg) now (r\<lparr>se_last_active := now, se_mfa := True\<rparr>) s2 = (Inr (), s3)"
    using save_up [OF assms(1)] by blast
  have "live_session cfg (view s3) now h (r\<lparr>se_last_active := now, se_mfa := True\<rparr>)"
    by (rule saved_live [OF sv]) (use live assms(3) in simp_all)
  then show ?thesis using v g sv live
    by (simp add: elevate_mfa_def mk_principal_def session_principal_def)
qed

end


definition admin_account :: account where
  "admin_account = demo_account\<lparr>ac_role := ''ADMIN'', ac_totp := Some ''their-secret''\<rparr>"

definition admin_world :: "keyspace acct_world" where
  "admin_world = (let db = demo_db\<lparr>db_accounts := [(ac_id admin_account, admin_account)]\<rparr>
     in snd (login acct_demo_env 0 ''h'' ''a@b.c'' ''secret'' None None (demo_world\<lparr>aw_db := db, aw_saved := db\<rparr>)))"

definition admin_session :: session_record where
  "admin_session = \<lparr>se_handle = ''h'', se_user = ac_id admin_account, se_created = 0, se_last_active = 0, se_expires = 8,
     se_role = ''ADMIN'', se_mfa = False\<rparr>"


end
