(* ===== verification/Gate_Http.thy ===== *)
theory Gate_Http imports Gate_Limits Acct_Endpoints begin

text \<open>
  The HTTP pipeline of the gateway, \<open>backend/middleware/gateway.py\<close>, \<open>auth.py\<close> and
  \<open>security_headers.py\<close>: request id, blanket rate limit, injection of the principal, the one error
  path, security headers and the metrics of every request. The application behind it is a parameter:
  a function of the request, the principal and its own state that answers or raises, and names the
  route that matched. Header names are compared in lower case, as Starlette does.
\<close>

section \<open>Addresses: \<open>ipaddress.ip_address\<close>\<close>

definition octet :: "string \<Rightarrow> bool" where
  "octet s \<longleftrightarrow> s \<noteq> [] \<and> list_all py_isdigit s \<and> length s \<le> 3 \<and> (length s = 1 \<or> hd s \<noteq> CHR ''0'') \<and> digits_value s \<le> 255"

definition ip4 :: "string \<Rightarrow> bool" where
  "ip4 s \<longleftrightarrow> (let ps = split_at_char (CHR ''.'') s in length ps = 4 \<and> list_all octet ps)"

definition hex_char :: "char \<Rightarrow> bool" where
  "hex_char c \<longleftrightarrow> py_isdigit c \<or> c \<in> set ''abcdefABCDEF''"

definition hextet :: "string \<Rightarrow> bool" where
  "hextet s \<longleftrightarrow> s \<noteq> [] \<and> list_all hex_char s \<and> length s \<le> 4"

text \<open>The hexadecimal groups of an address, an IPv4 tail standing for two of them; \<open>None\<close> refuses it.\<close>

definition ip6_parts :: "string \<Rightarrow> string list option" where
  "ip6_parts s =
     (let ps = split_at_char (CHR '':'') s in
      if s = [] \<or> length ps < 3 then None
      else if CHR ''.'' \<in> set (last ps) then
        (if ip4 (last ps) then Some (butlast ps @ [''0'', ''0'']) else None)
      else Some ps)"

text \<open>\<open>hi\<close> groups before the gap and \<open>lo\<close> after it; an empty end belongs to the gap.\<close>

definition ip6_groups :: "string list \<Rightarrow> bool" where
  "ip6_groups ps =
     (if length ps > 9 then False
      else case filter (\<lambda>i. ps ! i = []) [1..<length ps - 1] of
        [] \<Rightarrow> length ps = 8 \<and> list_all hextet ps
      | [i] \<Rightarrow>
          (let hi = (if hd ps = [] then i - 1 else i);
               lo = (if last ps = [] then length ps - i - 2 else length ps - i - 1)
           in (hd ps = [] \<longrightarrow> hi = 0) \<and> (last ps = [] \<longrightarrow> lo = 0) \<and> hi + lo < 8 \<and>
              list_all hextet (take hi ps) \<and> list_all hextet (drop (length ps - lo) ps))
      | _ \<Rightarrow> False)"

definition ip6 :: "string \<Rightarrow> bool" where
  "ip6 s =
     (case split_at_char (CHR ''%'') s of
        [a] \<Rightarrow> (case ip6_parts a of None \<Rightarrow> False | Some ps \<Rightarrow> ip6_groups ps)
      | [a, z] \<Rightarrow> z \<noteq> [] \<and> (case ip6_parts a of None \<Rightarrow> False | Some ps \<Rightarrow> ip6_groups ps)
      | _ \<Rightarrow> False)"

definition is_ip :: "string \<Rightarrow> bool" where
  "is_ip s \<longleftrightarrow> CHR ''/'' \<notin> set s \<and> (ip4 s \<or> ip6 s)"

section \<open>Requests, responses, the world\<close>

record http_request =
  rq_method :: string
  rq_path :: string
  rq_headers :: "(string, string) dict"
  rq_peer :: "string option"
  rq_cookie :: string

record http_response =
  rs_status :: nat
  rs_headers :: "(string, string) dict"

definition header :: "http_request \<Rightarrow> string \<Rightarrow> string option" where
  "header rq h = dget (rq_headers rq) (py_lower h)"

definition put_header :: "string \<Rightarrow> string \<Rightarrow> http_response \<Rightarrow> http_response" where
  "put_header h v r = r\<lparr>rs_headers := dset (py_lower h) v (rs_headers r)\<rparr>"

definition default_header :: "string \<Rightarrow> string \<Rightarrow> http_response \<Rightarrow> http_response" where
  "default_header h v r = (if dget (rs_headers r) (py_lower h) = None then put_header h v r else r)"

text \<open>\<open>JSONResponse\<close>; its headers of its own are content type and length.\<close>

definition json_response :: "nat \<Rightarrow> http_response" where
  "json_response code = \<lparr>rs_status = code, rs_headers = [(''content-type'', ''application/json'')]\<rparr>"

datatype gw_effect =
    Handled "auth_principal option"
  | ErrorLog string string
  | GwMetric string string string string

record 's gw_world =
  gw_app :: 's
  gw_limiter :: window_limiter
  gw_route :: "string option"
  gw_out :: "gw_effect list"

text \<open>
  The hub: \<open>hub_log\<close> and \<open>hub_metric\<close> are the exception a call raises, if any; \<open>hub_has_log\<close> is whether
  it has an \<open>emit_log\<close> at all.
\<close>

record gw_hub =
  hub_has_log :: bool
  hub_log :: "string option"
  hub_metric :: "string \<Rightarrow> bool"

type_synonym 's application =
  "http_request \<Rightarrow> auth_principal option \<Rightarrow> 's \<Rightarrow> (string + http_response) \<times> string option \<times> 's"

record 's gateway =
  gc_app :: "'s application"
  gc_verify :: "(string \<Rightarrow> 's \<Rightarrow> (acct_exn + auth_principal) \<times> 's) option"
  gc_limited :: bool
  gc_hub :: "gw_hub option"
  gc_production :: bool
  gc_trust_proxy :: bool
  gc_proxy_count :: int

definition tell_gw :: "gw_effect \<Rightarrow> 's gw_world \<Rightarrow> 's gw_world" where
  "tell_gw e w = w\<lparr>gw_out := gw_out w @ [e]\<rparr>"

definition call_next :: "'s gateway \<Rightarrow> http_request \<Rightarrow> auth_principal option \<Rightarrow> 's gw_world \<Rightarrow> (string + http_response) \<times> 's gw_world" where
  "call_next g rq p w =
     (case gc_app g rq p (gw_app w) of (res, route, s) \<Rightarrow>
        (res, tell_gw (Handled p) (w\<lparr>gw_app := s, gw_route := route\<rparr>)))"

section \<open>Principals\<close>

definition PUBLIC_PREFIXES :: "string list" where
  "PUBLIC_PREFIXES =
     [''/health'', ''/readyz'', ''/auth/signup'', ''/auth/login'', ''/auth/demo'', ''/auth/verify-email'',
      ''/auth/resend-verification'', ''/auth/password-reset'', ''/auth/social/google'', ''/auth/social/orcid'',
      ''/auth/email-change/confirm'', ''/docs'', ''/openapi.json'']"

definition AUTH_OPTIONAL_PREFIXES :: "string list" where
  "AUTH_OPTIONAL_PREFIXES = [''/auth/session'', ''/api/search'']"

definition is_public :: "string \<Rightarrow> bool" where
  "is_public path = list_ex (\<lambda>p. starts_with p path) PUBLIC_PREFIXES"

definition is_auth_optional :: "string \<Rightarrow> bool" where
  "is_auth_optional path = list_ex (\<lambda>p. starts_with p path) AUTH_OPTIONAL_PREFIXES"

definition inject_principal ::
  "'s gateway \<Rightarrow> (string \<Rightarrow> 's \<Rightarrow> (acct_exn + auth_principal) \<times> 's) \<Rightarrow> http_request \<Rightarrow> 's gw_world \<Rightarrow> (string + http_response) \<times> 's gw_world" where
  "inject_principal g vfy rq w =
     (if is_public (rq_path rq) then call_next g rq None w
      else if rq_cookie rq = [] then
        (if is_auth_optional (rq_path rq) then call_next g rq None w else (Inr (json_response 401), w))
      else case vfy (rq_cookie rq) (gw_app w) of
        (Inl e, s) \<Rightarrow>
          (if is_auth_optional (rq_path rq) then call_next g rq None (w\<lparr>gw_app := s\<rparr>)
           else (Inr (json_response 401), w\<lparr>gw_app := s\<rparr>))
      | (Inr p, s) \<Rightarrow> call_next g rq (Some p) (w\<lparr>gw_app := s\<rparr>))"

section \<open>The key of the blanket limit\<close>

definition forwarded_client :: "http_request \<Rightarrow> int \<Rightarrow> string option" where
  "forwarded_client rq trusted =
     (case header rq ''X-Forwarded-For'' of
        None \<Rightarrow> None
      | Some raw \<Rightarrow>
          if raw = [] then None
          else let hops = map py_strip (filter (\<lambda>h. py_strip h \<noteq> []) (split_at_char (CHR '','') raw));
                   idx = int (length hops) - max trusted 1
               in if idx < 0 then None
                  else let c = hops ! nat idx in if is_ip c then Some c else None)"

definition rate_limit_key :: "'s gateway \<Rightarrow> http_request \<Rightarrow> string" where
  "rate_limit_key g rq =
     (case (if gc_trust_proxy g then forwarded_client rq (gc_proxy_count g) else None) of
        Some c \<Rightarrow> c
      | None \<Rightarrow> (case rq_peer rq of Some h \<Rightarrow> if h = [] then ''unknown-client'' else h | None \<Rightarrow> ''unknown-client''))"

section \<open>Headers, metrics, the pipeline\<close>

definition SECURITY_HEADERS :: "(string \<times> string) list" where
  "SECURITY_HEADERS =
     [(''Content-Security-Policy'', ''default-src '' @ [CHR 0x27] @ ''self'' @ [CHR 0x27] @ ''; frame-ancestors '' @ [CHR 0x27] @ ''self'' @ [CHR 0x27]),
      (''Referrer-Policy'', ''no-referrer''),
      (''Strict-Transport-Security'', ''max-age=31536000; includeSubDomains''),
      (''X-Content-Type-Options'', ''nosniff''),
      (''X-Frame-Options'', ''SAMEORIGIN'')]"

definition apply_security_headers :: "http_response \<Rightarrow> http_response" where
  "apply_security_headers r = fold (\<lambda>(h, v). default_header h v) SECURITY_HEADERS r"

definition dressed :: "string \<Rightarrow> http_response \<Rightarrow> http_response" where
  "dressed request_id r = apply_security_headers (put_header ''X-Request-ID'' request_id r)"

definition route_label :: "'s gw_world \<Rightarrow> string" where
  "route_label w = (case gw_route w of Some p \<Rightarrow> if p = [] then ''unmatched'' else p | None \<Rightarrow> ''unmatched'')"

definition request_id :: "string \<Rightarrow> http_request \<Rightarrow> string" where
  "request_id fresh rq = (case header rq ''X-Request-ID'' of Some v \<Rightarrow> if v = [] then fresh else v | None \<Rightarrow> fresh)"

definition dress_result :: "string \<Rightarrow> (string + http_response) \<times> 's gw_world \<Rightarrow> (string + http_response) \<times> 's gw_world" where
  "dress_result rid = (\<lambda>(res, w). (map_sum (\<lambda>e. e) (dressed rid) res, w))"

definition run_gateway :: "'s gateway \<Rightarrow> rat \<Rightarrow> string \<Rightarrow> http_request \<Rightarrow> 's gw_world \<Rightarrow> (string + http_response) \<times> 's gw_world" where
  "run_gateway g now rid rq w =
     (let (admitted, w) =
        (if gc_limited g then
           (case allow (rate_limit_key g rq) now (gw_limiter w) of (ok, l) \<Rightarrow> (ok, w\<lparr>gw_limiter := l\<rparr>))
         else (Inr True, w))
      in case admitted of
           Inl e \<Rightarrow> (Inl e, w)
         | Inr False \<Rightarrow> (Inr (dressed rid (json_response 429)), w)
         | Inr True \<Rightarrow>
             dress_result rid
               (case gc_verify g of
                  Some vfy \<Rightarrow> inject_principal g vfy rq w
                | None \<Rightarrow> call_next g rq None w))"

definition emit_error :: "'s gateway \<Rightarrow> string \<Rightarrow> string \<Rightarrow> 's gw_world \<Rightarrow> (string + unit) \<times> 's gw_world" where
  "emit_error g rid exn w =
     (case gc_hub g of
        None \<Rightarrow> (Inr (), w)
      | Some h \<Rightarrow>
          if \<not> hub_has_log h then (Inr (), w)
          else case hub_log h of Some e \<Rightarrow> (Inl e, w) | None \<Rightarrow> (Inr (), tell_gw (ErrorLog rid exn) w))"

text \<open>The \<open>finally\<close> block: latency and throughput, both lost when the first cannot be emitted.\<close>

definition emit_metrics :: "'s gateway \<Rightarrow> http_request \<Rightarrow> string + http_response \<Rightarrow> 's gw_world \<Rightarrow> 's gw_world" where
  "emit_metrics g rq res w =
     (case gc_hub g of
        None \<Rightarrow> w
      | Some h \<Rightarrow>
          (let status = (case res of Inr r \<Rightarrow> py_nat_str (rs_status r) | Inl _ \<Rightarrow> ''500'');
               m = (\<lambda>name. GwMetric name (rq_method rq) (route_label w) status)
           in if \<not> hub_metric h ''gateway.request.latency'' then w
              else let w = tell_gw (m ''gateway.request.latency'') w
                   in if \<not> hub_metric h ''gateway.request.throughput'' then w
                      else tell_gw (m ''gateway.request.throughput'') w))"

definition u6_gateway :: "'s gateway \<Rightarrow> rat \<Rightarrow> string \<Rightarrow> http_request \<Rightarrow> 's gw_world \<Rightarrow> (string + http_response) \<times> 's gw_world" where
  "u6_gateway g now fresh rq w =
     (let rid = request_id fresh rq;
          (res, w) =
            (case run_gateway g now rid rq (w\<lparr>gw_route := None\<rparr>) of
               (Inr r, w) \<Rightarrow> (Inr r, w)
             | (Inl exn, w) \<Rightarrow>
                 (case emit_error g rid exn w of
                    (Inl e, w) \<Rightarrow> (Inl e, w)
                  | (Inr _, w) \<Rightarrow>
                      if \<not> gc_production g then (Inl exn, w)
                      else (Inr (dressed rid (json_response 500)), w)))
      in (res, emit_metrics g rq res w))"

end
