(* ===== verification/Gate_Http_Facts.thy ===== *)
theory Gate_Http_Facts imports Gate_Http begin

text \<open>
  What the gateway guarantees of every request: a protected path reaches its handler only with the
  principal of a live session; the key of the blanket limit is stamped by the trusted proxies; every
  response carries the request id and the security headers and is counted once. And what it costs:
  the two recovery paths of the accounts module are not public, so who lost every session cannot use
  them.
\<close>

section \<open>Effects\<close>

fun handled_of :: "gw_effect \<Rightarrow> auth_principal option list" where
  "handled_of (Handled p) = [p]"
| "handled_of (ErrorLog _ _) = []"
| "handled_of (GwMetric _ _ _ _) = []"

fun metric_of :: "gw_effect \<Rightarrow> (string \<times> string \<times> string \<times> string) list" where
  "metric_of (GwMetric n m p s) = [(n, m, p, s)]"
| "metric_of (ErrorLog _ _) = []"
| "metric_of (Handled _) = []"

definition handled :: "'s gw_world \<Rightarrow> auth_principal option list" where
  "handled w = concat (map handled_of (gw_out w))"

definition metrics :: "'s gw_world \<Rightarrow> (string \<times> string \<times> string \<times> string) list" where
  "metrics w = concat (map metric_of (gw_out w))"

named_theorems gw_frame

lemma handled_tell [gw_frame]:
  "handled (tell_gw e w) = handled w @ handled_of e"
  "metrics (tell_gw e w) = metrics w @ metric_of e"
  "gw_app (tell_gw e w) = gw_app w"
  "gw_route (tell_gw e w) = gw_route w"
  by (simp_all add: handled_def metrics_def tell_gw_def)

lemma handled_upd [gw_frame]:
  "handled (w\<lparr>gw_limiter := l\<rparr>) = handled w" "metrics (w\<lparr>gw_limiter := l\<rparr>) = metrics w"
  "handled (w\<lparr>gw_app := s\<rparr>) = handled w" "metrics (w\<lparr>gw_app := s\<rparr>) = metrics w"
  "handled (w\<lparr>gw_route := r\<rparr>) = handled w" "metrics (w\<lparr>gw_route := r\<rparr>) = metrics w"
  "handled (w\<lparr>gw_app := s, gw_route := r\<rparr>) = handled w" "metrics (w\<lparr>gw_app := s, gw_route := r\<rparr>) = metrics w"
  by (simp_all add: handled_def metrics_def)

lemma emit_metrics_frame [gw_frame]:
  "handled (emit_metrics g rq res w) = handled w"
  "gw_app (emit_metrics g rq res w) = gw_app w"
  by (simp_all add: emit_metrics_def gw_frame Let_def split: option.split)

lemma emit_error_frame:
  assumes "emit_error g rid e w = (r, w')"
  shows "handled w' = handled w" "metrics w' = metrics w" "gw_app w' = gw_app w" "gw_route w' = gw_route w"
  using assms by (auto simp: emit_error_def gw_frame split: option.splits if_splits)

lemma dress_snd [gw_frame]: "snd (dress_result rid x) = snd x"
  by (cases x) (simp add: dress_result_def)

lemma metrics_call [gw_frame]:
  "metrics (snd (call_next g rq p w)) = metrics w"
  by (simp add: call_next_def gw_frame split: prod.split)

lemma metrics_inject [gw_frame]:
  "metrics (snd (inject_principal g vfy rq w)) = metrics w"
  by (simp add: inject_principal_def gw_frame split: prod.split sum.split)

lemma metrics_run [gw_frame]:
  "metrics (snd (run_gateway g now rid rq w)) = metrics w"
  by (auto simp: run_gateway_def gw_frame split: prod.split sum.split bool.split option.split)

section \<open>Protected paths\<close>

lemma dressed_status [simp]: "rs_status (dressed rid r) = rs_status r"
  by (simp add: dressed_def apply_security_headers_def SECURITY_HEADERS_def default_header_def put_header_def)

lemma protected_run:
  assumes "gc_verify g = Some vfy" and "\<not> is_public (rq_path rq)" and "\<not> is_auth_optional (rq_path rq)"
    and run: "run_gateway g now rid rq w = (res, w')"
  shows "(\<exists>pr s. vfy (rq_cookie rq) (gw_app w) = (Inr pr, s) \<and> rq_cookie rq \<noteq> [] \<and> handled w' = handled w @ [Some pr]) \<or>
    (handled w' = handled w \<and> gw_app w' \<in> {gw_app w, snd (vfy (rq_cookie rq) (gw_app w))} \<and>
     (\<forall>r. res = Inr r \<longrightarrow> rs_status r \<in> {401, 429}))"
  using assms
  by (auto simp: run_gateway_def inject_principal_def call_next_def dress_result_def json_response_def gw_frame
      split: prod.splits sum.splits bool.splits if_splits)

text \<open>
  C9. With a session manager installed, a request for a path that is neither public nor optional
  either runs its handler exactly once, with the principal the session store returned for a
  non-empty cookie, or never runs it: the answer is then 401, 429 or 500 and the application's
  state has only been touched by the verification itself.
\<close>

theorem protected_path_fail_closed:
  assumes "gc_verify g = Some vfy" and "\<not> is_public (rq_path rq)" and "\<not> is_auth_optional (rq_path rq)"
    and "u6_gateway g now fresh rq w = (res, w')"
  shows "(\<exists>pr s. vfy (rq_cookie rq) (gw_app w) = (Inr pr, s) \<and> rq_cookie rq \<noteq> [] \<and> handled w' = handled w @ [Some pr]) \<or>
    (handled w' = handled w \<and> gw_app w' \<in> {gw_app w, snd (vfy (rq_cookie rq) (gw_app w))} \<and>
     (\<forall>r. res = Inr r \<longrightarrow> rs_status r \<in> {401, 429, 500}))"
proof -
  let ?w = "w\<lparr>gw_route := None\<rparr>"
  obtain res1 w1 where run: "run_gateway g now (request_id fresh rq) rq ?w = (res1, w1)" by fastforce
  have "handled w' = handled w1 \<and> gw_app w' = gw_app w1 \<and> (\<forall>r. res = Inr r \<longrightarrow> res1 = Inr r \<or> rs_status r = 500)"
    using assms(4) run
    by (auto simp: u6_gateway_def gw_frame Let_def json_response_def split: prod.splits sum.splits if_splits
        dest: emit_error_frame)
  then show ?thesis using protected_run [OF assms(1-3) run]
    by (auto simp: gw_frame)
qed

section \<open>The recovery paths\<close>

definition RECOVERY_PATHS :: "string list" where
  "RECOVERY_PATHS = [''/auth/account/reactivate'', ''/auth/email-change/revoke'']"

text \<open>
  The endpoint that restores an account in its grace period, and the link that revokes a change
  of address from the notice mail, are meant for someone without a session (the deletion has just
  invalidated them all), and check credentials or a token of their own. The gateway lists neither as
  public: without a live session both answer 401 and their handlers never run, whereas the link that
  confirms the change runs.
\<close>

theorem recovery_needs_session:
  assumes "gc_verify g = Some vfy" and "\<not> gc_limited g"
    and "rq_cookie rq = [] \<or> \<not> (\<exists>p s. vfy (rq_cookie rq) (gw_app w) = (Inr p, s))"
  shows "(rq_path rq \<in> set RECOVERY_PATHS \<longrightarrow>
      handled (snd (u6_gateway g now fresh rq w)) = handled w \<and>
      (\<exists>r. fst (u6_gateway g now fresh rq w) = Inr r \<and> rs_status r = 401)) \<and>
    (rq_path rq = ''/auth/email-change/confirm'' \<longrightarrow>
      handled (snd (u6_gateway g now fresh rq w)) = handled w @ [None])"
proof -
  have "handled (snd (u6_gateway g now fresh rq w)) = handled w \<and>
      (\<exists>r. fst (u6_gateway g now fresh rq w) = Inr r \<and> rs_status r = 401)"
    if path: "rq_path rq \<in> set RECOVERY_PATHS"
  proof -
    have "\<not> is_public (rq_path rq)" "\<not> is_auth_optional (rq_path rq)"
      using path
      by (auto simp: RECOVERY_PATHS_def is_public_def is_auth_optional_def PUBLIC_PREFIXES_def
          AUTH_OPTIONAL_PREFIXES_def starts_with_def)
    then show ?thesis using assms
      by (auto simp: u6_gateway_def run_gateway_def inject_principal_def dress_result_def gw_frame Let_def
          json_response_def split: prod.splits sum.splits)
  qed
  moreover have "handled (snd (u6_gateway g now fresh rq w)) = handled w @ [None]"
    if path: "rq_path rq = ''/auth/email-change/confirm''"
  proof -
    have "is_public (rq_path rq)" using path by (simp add: is_public_def PUBLIC_PREFIXES_def starts_with_def)
    then show ?thesis using assms
      by (auto simp: u6_gateway_def run_gateway_def inject_principal_def dress_result_def call_next_def gw_frame Let_def
          split: prod.splits sum.splits dest: emit_error_frame)
  qed
  ultimately show ?thesis by blast
qed

section \<open>The key of the blanket limit\<close>

lemma split_ne [simp]: "split_at_char x s \<noteq> []"
  by (induction s) (auto split: list.split)

lemma split_append: "split_at_char x (a @ x # b) = split_at_char x a @ split_at_char x b"
proof (induction a)
  case (Cons c a)
  obtain p ps where "split_at_char x a = p # ps" by (metis split_ne neq_Nil_conv)
  then show ?case using Cons by simp
qed simp

lemma split_hd: "x \<notin> set a \<Longrightarrow> hd (split_at_char x (a @ b)) = a @ hd (split_at_char x b)"
proof (induction a)
  case (Cons c a)
  obtain p ps where "split_at_char x (a @ b) = p # ps" by (metis split_ne neq_Nil_conv)
  then show ?case using Cons by auto
qed simp

definition with_forwarded :: "string \<Rightarrow> http_request \<Rightarrow> http_request" where
  "with_forwarded raw rq = rq\<lparr>rq_headers := dset (py_lower ''X-Forwarded-For'') raw (rq_headers rq)\<rparr>"

definition hops :: "string \<Rightarrow> string list" where
  "hops raw = map py_strip (filter (\<lambda>h. py_strip h \<noteq> []) (split_at_char (CHR '','') raw))"

lemma forwarded_hops:
  "raw \<noteq> [] \<Longrightarrow> forwarded_client (with_forwarded raw rq) n =
     (let idx = int (length (hops raw)) - max n 1
      in if idx < 0 then None else if is_ip (hops raw ! nat idx) then Some (hops raw ! nat idx) else None)"
  by (simp add: forwarded_client_def header_def with_forwarded_def dget_dset hops_def Let_def)

text \<open>
  Behind trusted proxies, whatever a client writes into \<open>X-Forwarded-For\<close> in front of what the
  proxies append does not change the key of the blanket limit, as long as as many hops as there are
  trusted proxies follow it. The limiter of the mail-sending endpoints does not have this property:
  its key is the client's own first hop.
\<close>

theorem forged_hops_ignored:
  assumes "int (length (hops stamped)) \<ge> max (gc_proxy_count g) 1" and "CHR '','' \<notin> set forged" and "py_strip forged \<noteq> []"
  shows "rate_limit_key g (with_forwarded (forged @ '','' @ stamped) rq) = rate_limit_key g (with_forwarded stamped rq) \<and>
    client_ip (forged @ '','' @ stamped) (rq_peer rq) = Some (py_strip forged)"
proof -
  have h: "hops (forged @ '','' @ stamped) = hops forged @ hops stamped"
    by (simp add: hops_def split_append)
  have ne: "stamped \<noteq> []" using assms(1) by (auto simp: hops_def py_strip_def rstrip_by_def lstrip_by_def)
  have "forwarded_client (with_forwarded (forged @ '','' @ stamped) rq) (gc_proxy_count g) =
      forwarded_client (with_forwarded stamped rq) (gc_proxy_count g)"
  proof -
    obtain m where m: "max (gc_proxy_count g) 1 = int m" "m \<le> length (hops stamped)"
      using assms(1) by (metis max.coboundedI2 nonneg_int_cases of_nat_le_iff zero_le_one)
    have "nat (int (length (hops forged) + length (hops stamped)) - int m) = length (hops forged) + (length (hops stamped) - m)"
      "nat (int (length (hops stamped)) - int m) = length (hops stamped) - m"
      using m(2) by linarith+
    moreover have "(hops forged @ hops stamped) ! (length (hops forged) + length (hops stamped) - m) =
        hops stamped ! (length (hops stamped) - m)"
      using m(2) nth_append_length_plus [of "hops forged" "hops stamped" "length (hops stamped) - m"] by simp
    ultimately show ?thesis using m ne by (simp add: forwarded_hops h [simplified] Let_def)
  qed
  moreover have "rq_peer (with_forwarded r rq) = rq_peer rq" for r by (simp add: with_forwarded_def)
  moreover have "hd (split_at_char (CHR '','') (forged @ '','' @ stamped)) = forged"
    using assms(2) by (simp add: split_hd)
  ultimately show ?thesis using assms(3) by (auto simp: rate_limit_key_def client_ip_def Let_def split: option.split)
qed

section \<open>Every response\<close>

lemma default_kept: "dget (rs_headers r) k = Some v \<Longrightarrow> dget (rs_headers (default_header h x r)) k = Some v"
  by (auto simp: default_header_def put_header_def dget_dset)

lemma default_there: "dget (rs_headers (default_header h x r)) (py_lower h) \<noteq> None"
  by (simp add: default_header_def put_header_def dget_dset)

lemma defaults_kept:
  "dget (rs_headers r) k = Some v \<Longrightarrow> dget (rs_headers (fold (\<lambda>(h, x). default_header h x) hs r)) k = Some v"
  by (induction hs arbitrary: r) (auto intro: default_kept)

lemma defaults_there:
  "(h, x) \<in> set hs \<Longrightarrow> dget (rs_headers (fold (\<lambda>(h, x). default_header h x) hs r)) (py_lower h) \<noteq> None"
proof (induction hs arbitrary: r)
  case (Cons a hs)
  show ?case
  proof (cases "a = (h, x)")
    case True
    obtain v where "dget (rs_headers (default_header h x r)) (py_lower h) = Some v"
      using default_there by blast
    then show ?thesis using True defaults_kept by simp
  qed (use Cons in auto)
qed simp

definition well_dressed :: "string \<Rightarrow> http_response \<Rightarrow> bool" where
  "well_dressed rid r \<longleftrightarrow> dget (rs_headers r) ''x-request-id'' = Some rid \<and>
     list_all (\<lambda>(h, v). dget (rs_headers r) (py_lower h) \<noteq> None) SECURITY_HEADERS"

lemma dressed_ok [simp]: "well_dressed rid (dressed rid r)"
proof -
  have "py_lower ''X-Request-ID'' = ''x-request-id''" by code_simp
  then have "dget (rs_headers (put_header ''X-Request-ID'' rid r)) ''x-request-id'' = Some rid"
    by (simp add: put_header_def dget_dset)
  then show ?thesis
    using defaults_there [of _ _ SECURITY_HEADERS "put_header ''X-Request-ID'' rid r"]
    by (auto simp: well_dressed_def dressed_def apply_security_headers_def list_all_iff defaults_kept split_beta)
qed

lemma run_dressed: "fst (run_gateway g now rid rq w) = Inr r \<Longrightarrow> well_dressed rid r"
  by (auto simp: run_gateway_def dress_result_def split: prod.splits sum.splits bool.splits)
    (auto split: if_splits sum.splits simp: map_sum_def)

text \<open>
  Every answer of the gateway carries the request id and all five security headers, whether it
  comes from the handler or from the limiter, the missing session or the error path; with a hub that
  takes metrics, every request adds exactly one latency and one throughput sample, with its method,
  one route label and the status of the answer. An exception only escapes the gateway when the
  pipeline raised and it runs outside production or the hub's log itself raises: that call is the one
  the error path does not guard.
\<close>

theorem every_response_accounted:
  assumes "gc_hub g = Some h" and "hub_metric h = (\<lambda>_. True)" and "u6_gateway g now fresh rq w = (res, w')"
  shows "(\<exists>route. metrics w' = metrics w @
      map (\<lambda>n. (n, rq_method rq, route, case res of Inr r \<Rightarrow> py_nat_str (rs_status r) | Inl _ \<Rightarrow> ''500''))
        [''gateway.request.latency'', ''gateway.request.throughput'']) \<and>
    (case res of Inr r \<Rightarrow> well_dressed (request_id fresh rq) r
     | Inl _ \<Rightarrow> isl (fst (run_gateway g now (request_id fresh rq) rq (w\<lparr>gw_route := None\<rparr>))) \<and>
         (\<not> gc_production g \<or> hub_has_log h \<and> hub_log h \<noteq> None))"
proof -
  let ?w = "w\<lparr>gw_route := None\<rparr>" and ?rid = "request_id fresh rq"
  obtain res1 w1 where run: "run_gateway g now ?rid rq ?w = (res1, w1)" by fastforce
  obtain r2 w2 where em: "(case res1 of Inl exn \<Rightarrow> emit_error g ?rid exn w1 | Inr r \<Rightarrow> (Inr (), w1)) = (r2, w2)"
    by fastforce
  have w2: "metrics w2 = metrics w"
    using metrics_run [of g now ?rid rq ?w] em
    by (auto simp: run gw_frame split: sum.splits dest: emit_error_frame(2))
  have w': "w' = emit_metrics g rq res w2" and res: "res = (case res1 of Inr r \<Rightarrow> Inr r
      | Inl exn \<Rightarrow> (case r2 of Inl e \<Rightarrow> Inl e | Inr _ \<Rightarrow>
          if \<not> gc_production g then Inl exn else Inr (dressed ?rid (json_response 500))))"
    using assms(3) run em by (auto simp: u6_gateway_def Let_def split: sum.splits prod.splits if_splits)
  have log: "isl res1 \<and> r2 = Inl e \<Longrightarrow> hub_has_log h \<and> hub_log h \<noteq> None" for e
    using em assms(1) by (auto simp: emit_error_def split: sum.splits option.splits if_splits)
  have "res1 = Inr r \<Longrightarrow> well_dressed ?rid r" for r
    using run_dressed [of g now ?rid rq ?w r] run by simp
  moreover have "metrics w' = metrics w @
      map (\<lambda>n. (n, rq_method rq, route_label w2, case res of Inr r \<Rightarrow> py_nat_str (rs_status r) | Inl _ \<Rightarrow> ''500''))
        [''gateway.request.latency'', ''gateway.request.throughput'']"
    using assms(1,2) by (simp add: w' emit_metrics_def gw_frame w2 Let_def route_label_def)
  ultimately show ?thesis using log run
    by (auto simp: res split: sum.splits if_splits)
qed

section \<open>A gateway over the accounts module\<close>

text \<open>
  The application of the witnesses: any handler answers 200; the session store knows one session.
\<close>

definition demo_verify :: "string \<Rightarrow> unit \<Rightarrow> (acct_exn + auth_principal) \<times> unit" where
  "demo_verify c s = (if c = ''live'' then Inr \<lparr>pr_user_id = ''u'', pr_role = USER, pr_mfa = False\<rparr> else Inl (Unauthorized ''no session''), s)"

definition demo_gateway :: "unit gateway" where
  "demo_gateway =
     \<lparr>gc_app = (\<lambda>rq p s. (Inr (json_response 200), Some (rq_path rq), s)), gc_verify = Some demo_verify, gc_limited = False,
      gc_hub = Some \<lparr>hub_has_log = True, hub_log = None, hub_metric = (\<lambda>_. True)\<rparr>, gc_production = True,
      gc_trust_proxy = True, gc_proxy_count = 1\<rparr>"

definition gw_demo_request :: "string \<Rightarrow> string \<Rightarrow> http_request" where
  "gw_demo_request path cookie = \<lparr>rq_method = ''GET'', rq_path = path, rq_headers = [], rq_peer = Some ''10.0.0.1'', rq_cookie = cookie\<rparr>"

definition idle_world :: "unit gw_world" where
  "idle_world = \<lparr>gw_app = (), gw_limiter = new_limiter 1 60 10 10, gw_route = None, gw_out = []\<rparr>"

lemma idle [simp]: "handled idle_world = []" "metrics idle_world = []" "gw_app idle_world = ()"
  by (simp_all add: idle_world_def handled_def metrics_def)

lemma demo_paths:
  "\<not> is_public ''/library/items''" "\<not> is_auth_optional ''/library/items''"
  by (simp_all add: is_public_def is_auth_optional_def PUBLIC_PREFIXES_def AUTH_OPTIONAL_PREFIXES_def starts_with_def)

theorem protected_path_fail_closed_witness:
  "handled (snd (u6_gateway demo_gateway 0 ''r'' (gw_demo_request ''/library/items'' ''stale'') idle_world)) = []"
  using protected_path_fail_closed [of demo_gateway demo_verify "gw_demo_request ''/library/items'' ''stale''" 0 "''r''" idle_world]
  by (cases "u6_gateway demo_gateway 0 ''r'' (gw_demo_request ''/library/items'' ''stale'') idle_world")
    (auto simp: demo_gateway_def gw_demo_request_def demo_paths demo_verify_def)

theorem recovery_needs_session_witness:
  "handled (snd (u6_gateway demo_gateway 0 ''r'' (gw_demo_request ''/auth/account/reactivate'' []) idle_world)) = [] \<and>
   handled (snd (u6_gateway demo_gateway 0 ''r'' (gw_demo_request ''/auth/email-change/confirm'' []) idle_world)) = [None]"
  using recovery_needs_session [of demo_gateway demo_verify "gw_demo_request ''/auth/account/reactivate'' []" idle_world 0 "''r''"]
    recovery_needs_session [of demo_gateway demo_verify "gw_demo_request ''/auth/email-change/confirm'' []" idle_world 0 "''r''"]
  by (simp add: demo_gateway_def gw_demo_request_def RECOVERY_PATHS_def)

theorem forged_hops_ignored_witness:
  "rate_limit_key demo_gateway (with_forwarded ''6.6.6.6,203.0.113.9'' (gw_demo_request [] [])) = ''203.0.113.9'' \<and>
   client_ip ''6.6.6.6,203.0.113.9'' (Some ''10.0.0.1'') = Some ''6.6.6.6''"
proof -
  have "int (length (hops ''203.0.113.9'')) \<ge> max (gc_proxy_count demo_gateway) 1"
    and "py_strip ''6.6.6.6'' = ''6.6.6.6''"
    and "rate_limit_key demo_gateway (with_forwarded ''203.0.113.9'' (gw_demo_request [] [])) = ''203.0.113.9''"
    by code_simp+
  then show ?thesis
    using forged_hops_ignored [of demo_gateway "''203.0.113.9''" "''6.6.6.6''" "gw_demo_request [] []"]
    by (simp add: gw_demo_request_def)
qed

theorem every_response_accounted_witness:
  "\<exists>route. metrics (snd (u6_gateway demo_gateway 0 ''r'' (gw_demo_request ''/library/items'' ''live'') idle_world)) =
     [(''gateway.request.latency'', ''GET'', route, ''200''), (''gateway.request.throughput'', ''GET'', route, ''200'')]"
proof -
  obtain res w' where u: "u6_gateway demo_gateway 0 ''r'' (gw_demo_request ''/library/items'' ''live'') idle_world = (res, w')"
    by fastforce
  have "map_sum (\<lambda>e. e) rs_status (fst (u6_gateway demo_gateway 0 ''r'' (gw_demo_request ''/library/items'' ''live'') idle_world)) = Inr 200"
    by (simp add: u6_gateway_def run_gateway_def inject_principal_def call_next_def dress_result_def demo_gateway_def
        gw_demo_request_def demo_paths demo_verify_def json_response_def Let_def)
  moreover have "py_nat_str 200 = ''200''" by code_simp
  ultimately show ?thesis
    using every_response_accounted [of demo_gateway _ 0 "''r''" "gw_demo_request ''/library/items'' ''live''" idle_world, OF _ _ u] u
    by (auto simp: demo_gateway_def gw_demo_request_def split: sum.splits)
qed

end
