(* ===== verification/Py_Number.thy ===== *)
theory Py_Number imports Py_Text begin

text \<open>
  Decimal numerals as Python reads and prints them: the rounding of \<open>format\<close> (half to even), the
  presentations \<open>.nf\<close> and \<open>g\<close>. Floats are exact decimals here, so a numeral is its digits and the
  place of its point; rounding errors of binary floats are not modelled.
\<close>

section \<open>Rounding\<close>

definition round_even :: "nat \<Rightarrow> nat \<Rightarrow> nat" where
  "round_even m d =
     (let q = m div d; r = m mod d in
      if 2 * r < d then q else if 2 * r > d then q + 1 else if even q then q else q + 1)"

definition pad_left :: "nat \<Rightarrow> string \<Rightarrow> string" where
  "pad_left n s = replicate (n - length s) (CHR ''0'') @ s"

text \<open>\<open>f"{x:.kf}"\<close> for \<open>x\<close> at least zero.\<close>

definition py_fixed :: "nat \<Rightarrow> rat \<Rightarrow> string" where
  "py_fixed k x =
     (case quotient_of x of (a, b) \<Rightarrow>
        let n = round_even (nat a * 10 ^ k) (nat b);
            s = pad_left (k + 1) (py_nat_str n)
        in if k = 0 then s else take (length s - k) s @ ''.'' @ drop (length s - k) s)"

section \<open>Decimals\<close>

text \<open>\<open>(m, k)\<close> is the number \<open>m / 10 ^ k\<close>.\<close>

type_synonym decimal = "nat \<times> nat"

definition dec_value :: "decimal \<Rightarrow> rat" where
  "dec_value d = of_nat (fst d) / 10 ^ snd d"

text \<open>\<open>value / 100\<close> and \<open>value * 100\<close>.\<close>

definition dec_down :: "decimal \<Rightarrow> decimal" where
  "dec_down d = (fst d, snd d + 2)"

definition dec_up :: "decimal \<Rightarrow> decimal" where
  "dec_up d = (fst d * 100, snd d)"

text \<open>
  \<open>f"{x:g}"\<close>: six significant digits, trailing zeros dropped, an exponent outside \<open>-4 .. 5\<close> written
  out. \<open>digits\<close> has no leading zero.
\<close>

definition strip_zeros :: "string \<Rightarrow> string" where
  "strip_zeros s = rstrip_by (\<lambda>c. c = CHR ''0'') s"

definition six_digits :: "decimal \<Rightarrow> string \<times> int" where
  "six_digits d =
     (let s = py_nat_str (fst d); n = length s; e = int n - 1 - int (snd d) in
      if n \<le> 6 then (strip_zeros s, e)
      else let r = py_nat_str (round_even (fst d) (10 ^ (n - 6)))
           in (strip_zeros r, if length r > 6 then e + 1 else e))"

definition exponent_text :: "int \<Rightarrow> string" where
  "exponent_text e = (if e < 0 then ''e-'' else ''e+'') @ pad_left 2 (py_nat_str (nat (abs e)))"

definition format_g :: "decimal \<Rightarrow> string" where
  "format_g d =
     (if fst d = 0 then ''0''
      else case six_digits d of (s, e) \<Rightarrow>
        if e < -4 \<or> e \<ge> 6 then
          (if length s = 1 then s else take 1 s @ ''.'' @ drop 1 s) @ exponent_text e
        else if e < 0 then ''0.'' @ replicate (nat (- e - 1)) (CHR ''0'') @ s
        else if length s \<le> nat e + 1 then s @ replicate (nat e + 1 - length s) (CHR ''0'')
        else take (nat e + 1) s @ ''.'' @ drop (nat e + 1) s)"

text \<open>\<open>float(token)\<close> of a token of digits with at most one point.\<close>

definition dec_of_token :: "string \<Rightarrow> decimal" where
  "dec_of_token t =
     (let i = takeWhile (\<lambda>c. c \<noteq> CHR ''.'') t; f = drop (length i + 1) t
      in (digits_value (i @ f), length f))"

lemma round_even_exact: "0 < d \<Longrightarrow> round_even (q * d) d = q"
  by (simp add: round_even_def)

lemma dec_value_up [simp]: "dec_value (dec_up d) = 100 * dec_value d"
  by (simp add: dec_value_def dec_up_def)

lemma dec_value_down [simp]: "dec_value (dec_down d) = dec_value d / 100"
  by (simp add: dec_value_def dec_down_def power_add)

end
