(* ===== verification/Evid_Gate.thy ===== *)
theory Evid_Gate imports Ingest_Chunking Py_Value Py_Number begin

text \<open>
  The fabrication gate of the evidence agent, \<open>backend/modules/evidence/domain/gate.py\<close> and
  \<open>projection.py\<close>: what the language model proposes as evidence is untyped JSON (\<open>pyval\<close>); an item
  enters the result only through \<open>run_gate\<close>. The blocks of a paper are those of the shared
  doc-model contract. A \<open>TypeError\<close> of the interpreter is the left value of a sum.
\<close>

section \<open>Projections\<close>

definition normalize_quote :: "string \<Rightarrow> string" where
  "normalize_quote s = py_strip (collapse_ws s)"

definition ANCHOR_TYPES :: "string list" where
  "ANCHOR_TYPES = [''paragraph'', ''list'', ''code'', ''table'', ''figure'', ''formula'']"

definition labelled :: "string option \<Rightarrow> string option \<Rightarrow> string" where
  "labelled lab caption = join '' '' (filled_parts lab caption)"

definition table_rows :: "string list list \<Rightarrow> string list" where
  "table_rows rows = map (join '' | '') (filter (\<lambda>cells. cells \<noteq> []) rows)"

definition NL :: string where "NL = [CHR 0x0A]"

fun block_projection :: "block \<Rightarrow> string" where
  "block_projection (ParagraphB _ t) = normalize_quote t"
| "block_projection (CodeB _ t) = normalize_quote t"
| "block_projection (FormulaB _ latex ocr) =
     normalize_quote (if or_empty latex \<noteq> [] then or_empty latex else or_empty ocr)"
| "block_projection (ListB _ items) = join NL (filter (\<lambda>i. i \<noteq> []) (map normalize_quote items))"
| "block_projection (FigureB _ lab caption) = normalize_quote (labelled lab caption)"
| "block_projection (TableB _ lab caption rows) =
     join NL (filter (\<lambda>p. p \<noteq> []) (normalize_quote (labelled lab caption) # map normalize_quote (table_rows rows)))"
| "block_projection (OtherB _ _) = []"

definition block_entry :: "block \<Rightarrow> (string \<times> string \<times> string) list" where
  "block_entry b =
     (if block_id b = [] \<or> block_type b \<notin> set ANCHOR_TYPES \<or> block_projection b = [] then []
      else [(block_id b, block_type b, block_projection b)])"

fun section_blocks :: "doc_section \<Rightarrow> (string \<times> string \<times> string) list" where
  "section_blocks (Section _ _ bs ss) = concat (map block_entry bs) @ concat (map section_blocks ss)"

definition iter_blocks :: "doc_model \<Rightarrow> (string \<times> string \<times> string) list" where
  "iter_blocks dm = concat (map section_blocks (dm_sections dm))"

fun section_parts :: "doc_section \<Rightarrow> string list" where
  "section_parts (Section _ title bs ss) =
     filter (\<lambda>p. p \<noteq> []) (normalize_quote (or_empty title) # map block_projection bs) @ concat (map section_parts ss)"

definition paper_projection :: "doc_model \<Rightarrow> string" where
  "paper_projection dm = join (NL @ NL) (concat (map section_parts (dm_sections dm)))"

section \<open>Sources\<close>

datatype source_scope = FULLTEXT | ABSTRACT | FIGURE

fun evidence_scope :: "source_scope \<Rightarrow> string" where
  "evidence_scope FULLTEXT = ''fulltext''"
| "evidence_scope ABSTRACT = ''abstract''"
| "evidence_scope FIGURE = ''figure''"

record paper_source =
  ps_paper_id :: string
  ps_record_ref :: string
  ps_scope :: source_scope
  ps_text :: string
  ps_blocks :: "(string, string \<times> string) dict"
  ps_title :: string

record evidence_ref =
  sr_paper_id :: string
  sr_record_ref :: string
  sr_namespace :: "string option"
  sr_title :: "string option"
  sr_anchor :: "string option"
  sr_quote :: "string option"
  sr_anchor_type :: "string option"
  sr_at_scope :: source_scope

record evidence_item =
  ei_statement :: string
  ei_supporting :: "evidence_ref list"
  ei_conflicting :: "evidence_ref list"

definition NAMESPACES :: "string list" where
  "NAMESPACES = [''arxiv'', ''doi'', ''userdoc'', ''attachment'']"

definition paper_id_namespace :: "string \<Rightarrow> string option" where
  "paper_id_namespace pid =
     (let prefix = takeWhile (\<lambda>c. c \<noteq> CHR '':'') pid
      in if prefix = pid then None else if prefix \<in> set NAMESPACES then Some prefix else None)"

text \<open>\<open>str.isdigit\<close> also holds of the superscripts of Latin-1.\<close>

definition digit_like :: "char \<Rightarrow> bool" where
  "digit_like c \<longleftrightarrow> py_isdigit c \<or> (of_char c :: nat) \<in> {178, 179, 185}"

definition id_key :: "string \<Rightarrow> string" where
  "id_key pid =
     (let value = remove_prefix ''arxiv:'' (py_lower (py_strip pid));
          tail = rev (takeWhile (\<lambda>c. c \<noteq> CHR ''v'') (rev value));
          head = take (length value - length tail - 1) value
      in if tail \<noteq> value \<and> head \<noteq> [] \<and> tail \<noteq> [] \<and> list_all digit_like tail then head else value)"

text \<open>\<open>_resolve_source\<close>, over the sources in the order of the dictionary.\<close>

definition resolve_source :: "string \<Rightarrow> (string, paper_source) dict \<Rightarrow> paper_source option" where
  "resolve_source pid sources =
     (if pid = [] then None
      else case dget sources pid of
        Some s \<Rightarrow> Some s
      | None \<Rightarrow> map_option snd (find (\<lambda>(k, _). id_key k = id_key pid) sources))"

section \<open>Numbers\<close>

definition latin_alnum :: "char \<Rightarrow> bool" where
  "latin_alnum c \<longleftrightarrow> py_isdigit c \<or> (let n = (of_char c :: nat) in (65 \<le> n \<and> n \<le> 90) \<or> (97 \<le> n \<and> n \<le> 122))"

definition word_ends :: "string \<Rightarrow> bool" where
  "word_ends r \<longleftrightarrow> (case r of [] \<Rightarrow> True | c # _ \<Rightarrow> \<not> latin_alnum c)"

text \<open>
  The longest match of \<open>_NUMBER\<close> at the head of \<open>s\<close>, after the look-behind: a run of digits cannot be
  given up in part, as the look-ahead refuses a digit; a fraction or a per cent sign can be given up
  whole.
\<close>

definition number_match :: "string \<Rightarrow> string option" where
  "number_match s =
     (let d = takeWhile py_isdigit s; r = dropWhile py_isdigit s;
          f = takeWhile py_isdigit (tl r); r2 = dropWhile py_isdigit (tl r);
          percent = (\<lambda>m r. if r \<noteq> [] \<and> hd r = CHR ''%'' then (if word_ends (tl r) then Some (m @ ''%'') else Some m)
                           else if word_ends r then Some m else None)
      in if d = [] then None
         else if r \<noteq> [] \<and> hd r = CHR ''.'' \<and> f \<noteq> [] then
           (case percent (d @ ''.'' @ f) r2 of Some m \<Rightarrow> Some m | None \<Rightarrow> Some d)
         else percent d r)"

text \<open>\<open>findall\<close>; \<open>prev\<close> is the character before, for the look-behind.\<close>

lemma number_match_ne: "number_match s = Some m \<Longrightarrow> 0 < length m"
  by (auto simp: number_match_def Let_def split: if_splits option.splits)

function find_numbers :: "char option \<Rightarrow> string \<Rightarrow> string list" where
  "find_numbers prev [] = []"
| "find_numbers prev (c # s) =
     (case (if (case prev of Some p \<Rightarrow> latin_alnum p \<or> p = CHR ''.'' | None \<Rightarrow> False) then None else number_match (c # s)) of
        Some m \<Rightarrow> m # find_numbers (Some (last m)) (drop (length m) (c # s))
      | None \<Rightarrow> find_numbers (Some c) s)"
  by pat_completeness auto
termination
  by (relation "measure (\<lambda>(_, s). length s)") (auto split: if_splits dest: number_match_ne)

definition numbers_in :: "string \<Rightarrow> string list" where
  "numbers_in s = remdups (find_numbers None s)"

definition strip_percent :: "string \<Rightarrow> string" where
  "strip_percent t = rstrip_by (\<lambda>c. c = CHR ''%'') t"

definition token_value :: "string \<Rightarrow> decimal" where
  "token_value t = dec_of_token (strip_percent t)"

definition decimals :: "string \<Rightarrow> nat" where
  "decimals t = length (drop 1 (dropWhile (\<lambda>c. c \<noteq> CHR ''.'') (strip_percent t)))"

definition normalize_number :: "string \<Rightarrow> string list" where
  "normalize_number t =
     (let v = token_value t
      in [t, format_g v, if dec_value v > 1 then format_g (dec_down v) else format_g (dec_up v)])"

record number_pool =
  np_forms :: "string list"
  np_values :: "rat list"

definition empty_pool :: number_pool where
  "empty_pool = \<lparr>np_forms = [], np_values = []\<rparr>"

definition add_tokens :: "string list \<Rightarrow> number_pool \<Rightarrow> number_pool" where
  "add_tokens ts p =
     \<lparr>np_forms = np_forms p @ concat (map normalize_number ts),
      np_values = np_values p @ map (\<lambda>t. dec_value (token_value t)) ts\<rparr>"

definition merge_pool :: "number_pool \<Rightarrow> number_pool \<Rightarrow> number_pool" where
  "merge_pool p q = \<lparr>np_forms = np_forms p @ np_forms q, np_values = np_values p @ np_values q\<rparr>"

definition band :: "string \<Rightarrow> rat" where
  "band t = 1 / 2 * (1 / 10 ^ decimals t) + 1 / 10 ^ 9"

definition grounds :: "number_pool \<Rightarrow> string \<Rightarrow> bool" where
  "grounds p t \<longleftrightarrow>
     list_ex (\<lambda>f. f \<in> set (np_forms p)) (normalize_number t) \<or>
     list_ex (\<lambda>v. \<bar>v - dec_value (token_value t)\<bar> \<le> band t) (np_values p)"

section \<open>References\<close>

definition MIN_QUOTE_CHARS :: nat where "MIN_QUOTE_CHARS = 20"

datatype reject_reason =
    UNKNOWN_PAPER | MALFORMED_REF | MISSING_QUOTE | QUOTE_TOO_SHORT | QUOTE_NOT_VERBATIM | ANCHOR_MISSING
  | ANCHOR_NOT_FOUND | ANCHOR_TYPE_MISMATCH | QUOTE_OUTSIDE_ANCHOR | ANCHOR_ON_ABSTRACT
  | FIGURE_ANCHOR_REQUIRED | EMPTY_STATEMENT | NO_SUPPORTING | NUMBER_NOT_GROUNDED

type_synonym rejections = "(reject_reason, nat) dict"

definition bump_reason :: "reject_reason \<Rightarrow> rejections \<Rightarrow> rejections" where
  "bump_reason r c = dset r ((case dget c r of None \<Rightarrow> 0 | Some n \<Rightarrow> n) + 1) c"

definition rejected_count :: "rejections \<Rightarrow> nat" where
  "rejected_count c = sum_list (map snd c)"

text \<open>\<open>normalize(value)\<close>, \<open>str(value or "").strip()\<close> of untyped values.\<close>

definition normalize_value :: "pyval \<Rightarrow> string + string" where
  "normalize_value v =
     (if \<not> py_truthy v then Inr []
      else case v of PStr s \<Rightarrow> Inr (normalize_quote s) | _ \<Rightarrow> Inl ''TypeError'')"

definition str_field :: "(pyval \<Rightarrow> string) \<Rightarrow> (string \<times> pyval) list \<Rightarrow> string \<Rightarrow> string" where
  "str_field other d k = py_strip (py_str other (py_or (pget d k) (PStr [])))"

definition scope_of :: "(pyval \<Rightarrow> string) \<Rightarrow> (string \<times> pyval) list \<Rightarrow> paper_source \<Rightarrow> source_scope" where
  "scope_of other raw source =
     (let declared = str_field other raw ''sourceScope'' in
      if declared = ''figure'' then FIGURE
      else if ps_scope source = ABSTRACT then ABSTRACT
      else if declared = ''fulltext'' then FULLTEXT
      else if declared = ''abstract'' then ABSTRACT
      else FULLTEXT)"

text \<open>The anchor: its kind and the text of its block, or why it is refused.\<close>

definition check_anchor :: "source_scope \<Rightarrow> string \<Rightarrow> paper_source \<Rightarrow> reject_reason + (string option \<times> string)" where
  "check_anchor scope anchor source =
     (if scope = ABSTRACT then (if anchor \<noteq> [] then Inl ANCHOR_ON_ABSTRACT else Inr (None, []))
      else if anchor = [] then Inl (if scope = FIGURE then FIGURE_ANCHOR_REQUIRED else ANCHOR_MISSING)
      else case dget (ps_blocks source) anchor of
        None \<Rightarrow> Inl ANCHOR_NOT_FOUND
      | Some (kind, block_text) \<Rightarrow>
          if scope = FIGURE \<and> kind \<noteq> ''figure'' then Inl ANCHOR_TYPE_MISMATCH
          else Inr (Some kind, block_text))"

definition check_quote :: "source_scope \<Rightarrow> string \<Rightarrow> string \<Rightarrow> paper_source \<Rightarrow> reject_reason option" where
  "check_quote scope quote block_text source =
     (if scope = FIGURE then None
      else if quote = [] then Some MISSING_QUOTE
      else if length quote < MIN_QUOTE_CHARS then Some QUOTE_TOO_SHORT
      else if \<not> contains_str quote (ps_text source) then Some QUOTE_NOT_VERBATIM
      else if scope = FULLTEXT \<and> \<not> contains_str quote (normalize_quote block_text) then Some QUOTE_OUTSIDE_ANCHOR
      else None)"

definition opt_text :: "string \<Rightarrow> string option" where
  "opt_text s = (if s = [] then None else Some s)"

definition make_ref :: "paper_source \<Rightarrow> source_scope \<Rightarrow> string \<Rightarrow> string option \<Rightarrow> string \<Rightarrow> evidence_ref" where
  "make_ref source scope anchor kind quote =
     \<lparr>sr_paper_id = ps_paper_id source, sr_record_ref = ps_record_ref source,
      sr_namespace = paper_id_namespace (ps_paper_id source), sr_title = opt_text (ps_title source),
      sr_anchor = opt_text anchor, sr_quote = opt_text quote, sr_anchor_type = kind, sr_at_scope = scope\<rparr>"

definition validate_ref ::
  "(pyval \<Rightarrow> string) \<Rightarrow> (string, paper_source) dict \<Rightarrow> pyval \<Rightarrow> rejections \<Rightarrow> (string + (evidence_ref \<times> string) option) \<times> rejections" where
  "validate_ref other sources raw c =
     (case raw of
        PDict d \<Rightarrow>
          (case resolve_source (str_field other d ''paperId'') sources of
             None \<Rightarrow> (Inr None, bump_reason UNKNOWN_PAPER c)
           | Some source \<Rightarrow>
               (let scope = scope_of other d source; anchor = str_field other d ''anchor''
                in case normalize_value (pget d ''quote'') of
                     Inl e \<Rightarrow> (Inl e, c)
                   | Inr quote \<Rightarrow>
                       (case check_anchor scope anchor source of
                          Inl r \<Rightarrow> (Inr None, bump_reason r c)
                        | Inr (kind, block_text) \<Rightarrow>
                            (case check_quote scope quote block_text source of
                               Some r \<Rightarrow> (Inr None, bump_reason r c)
                             | None \<Rightarrow> (Inr (Some (make_ref source scope anchor kind quote, quote)), c)))))
      | _ \<Rightarrow> (Inr None, bump_reason MALFORMED_REF c))"

fun validate_refs ::
  "(pyval \<Rightarrow> string) \<Rightarrow> (string, paper_source) dict \<Rightarrow> pyval list \<Rightarrow> rejections \<Rightarrow> (string + (evidence_ref \<times> string) list) \<times> rejections" where
  "validate_refs other sources [] c = (Inr [], c)"
| "validate_refs other sources (raw # raws) c =
     (case validate_ref other sources raw c of
        (Inl e, c1) \<Rightarrow> (Inl e, c1)
      | (Inr v, c1) \<Rightarrow>
          (case validate_refs other sources raws c1 of
             (Inl e, c2) \<Rightarrow> (Inl e, c2)
           | (Inr vs, c2) \<Rightarrow> (Inr (case v of Some r \<Rightarrow> r # vs | None \<Rightarrow> vs), c2)))"

text \<open>\<open>for ref in raw.get(side) or []\<close>\<close>

definition side_refs :: "(pyval \<Rightarrow> string) \<Rightarrow> (string, paper_source) dict \<Rightarrow> (string \<times> pyval) list \<Rightarrow> string \<Rightarrow> rejections \<Rightarrow> (string + (evidence_ref \<times> string) list) \<times> rejections" where
  "side_refs other sources d side c =
     (case py_tuple (py_or (pget d side) (PSeq [])) of
        None \<Rightarrow> (Inl ''TypeError'', c)
      | Some raws \<Rightarrow> validate_refs other sources raws c)"

section \<open>Items\<close>

text \<open>\<open>_grounded_pool\<close>; the cache of whole-text pools is a memo of a pure function.\<close>

definition ref_pool :: "(string, paper_source) dict \<Rightarrow> evidence_ref \<times> string \<Rightarrow> number_pool" where
  "ref_pool sources rq =
     (let p = add_tokens (numbers_in (snd rq)) empty_pool
      in if sr_at_scope (fst rq) = FIGURE then
           (case dget sources (sr_paper_id (fst rq)) of
              None \<Rightarrow> p | Some s \<Rightarrow> merge_pool p (add_tokens (numbers_in (ps_text s)) empty_pool))
         else p)"

definition grounded_pool :: "(evidence_ref \<times> string) list \<Rightarrow> (string, paper_source) dict \<Rightarrow> number_pool" where
  "grounded_pool refs sources = foldl (\<lambda>p rq. merge_pool p (ref_pool sources rq)) empty_pool refs"

text \<open>One pass of the loop: the item it appends, if any.\<close>

definition gate_item ::
  "(pyval \<Rightarrow> string) \<Rightarrow> (string, paper_source) dict \<Rightarrow> pyval \<Rightarrow> rejections \<Rightarrow> (string + evidence_item option) \<times> rejections" where
  "gate_item other sources raw c =
     (case raw of
        PDict d \<Rightarrow>
          (case normalize_value (pget d ''statement'') of
             Inl e \<Rightarrow> (Inl e, c)
           | Inr statement \<Rightarrow>
               if statement = [] then (Inr None, bump_reason EMPTY_STATEMENT c)
               else case side_refs other sources d ''supporting'' c of
                 (Inl e, c1) \<Rightarrow> (Inl e, c1)
               | (Inr sups, c1) \<Rightarrow>
                   (case side_refs other sources d ''conflicting'' c1 of
                      (Inl e, c2) \<Rightarrow> (Inl e, c2)
                    | (Inr cons, c2) \<Rightarrow>
                        if sups = [] then (Inr None, bump_reason NO_SUPPORTING c2)
                        else if \<not> list_all (grounds (grounded_pool sups sources)) (numbers_in statement)
                        then (Inr None, bump_reason NUMBER_NOT_GROUNDED c2)
                        else (Inr (Some \<lparr>ei_statement = statement, ei_supporting = map fst sups, ei_conflicting = map fst cons\<rparr>), c2)))
      | _ \<Rightarrow> (Inr None, bump_reason MALFORMED_REF c))"

record gate_outcome =
  go_items :: "evidence_item list"
  go_rejections :: rejections

fun gate_loop ::
  "(pyval \<Rightarrow> string) \<Rightarrow> (string, paper_source) dict \<Rightarrow> pyval list \<Rightarrow> gate_outcome \<Rightarrow> string + gate_outcome" where
  "gate_loop other sources [] o1 = Inr o1"
| "gate_loop other sources (raw # raws) o1 =
     (case gate_item other sources raw (go_rejections o1) of
        (Inl e, _) \<Rightarrow> Inl e
      | (Inr i, c) \<Rightarrow>
          gate_loop other sources raws
            \<lparr>go_items = go_items o1 @ (case i of Some it \<Rightarrow> [it] | None \<Rightarrow> []), go_rejections = c\<rparr>)"

definition run_gate :: "(pyval \<Rightarrow> string) \<Rightarrow> pyval list \<Rightarrow> (string, paper_source) dict \<Rightarrow> string + gate_outcome" where
  "run_gate other raw_items sources = gate_loop other sources raw_items \<lparr>go_items = [], go_rejections = []\<rparr>"

end
