(* ===== verification/Evid_Answer.thy ===== *)
theory Evid_Answer imports Evid_Gate begin

text \<open>
  The machine checks of a judgement, \<open>backend/modules/evidence/domain/answer_checks.py\<close>, and the
  answer assembled without one (\<open>assembler.py\<close>). A sentence keeps its reference numbers only if
  they exist and ground its numerals; the whole answer is refused for a stray paper id, for want of a
  cited sentence, or for too many uncited ones.
\<close>

section \<open>Paper ids and citation markers in running text\<close>

text \<open>\<open>(?!\d)(?!\.\d)\<close>\<close>

definition id_ends :: "string \<Rightarrow> bool" where
  "id_ends r \<longleftrightarrow>
     (case r of [] \<Rightarrow> True
      | c # r2 \<Rightarrow> \<not> py_isdigit c \<and> (c = CHR ''.'' \<longrightarrow> (case r2 of [] \<Rightarrow> True | d # _ \<Rightarrow> \<not> py_isdigit d)))"

text \<open>\<open>(?:v\d+)?\<close> and the look-ahead after a matched core: the version goes back as a whole.\<close>

definition with_version :: "string \<Rightarrow> string \<Rightarrow> string option" where
  "with_version core r =
     (let ds = takeWhile py_isdigit (tl r); r2 = dropWhile py_isdigit (tl r)
      in if r \<noteq> [] \<and> hd r = CHR ''v'' \<and> ds \<noteq> [] \<and> id_ends r2 then Some (core @ ''v'' @ ds)
         else if id_ends r then Some core else None)"

definition month_ok :: "string \<Rightarrow> bool" where
  "month_ok s \<longleftrightarrow> 1 \<le> digits_value s \<and> digits_value s \<le> 12"

text \<open>The new form, \<open>YYMM.NNNNN\<close>: the fourth and fifth place are digits, a sixth digit is refused.\<close>

definition new_id :: "string \<Rightarrow> string option" where
  "new_id s =
     (let f = takeWhile py_isdigit (drop 5 s)
      in if list_all py_isdigit (take 4 s) \<and> length s > 5 \<and> month_ok (take 2 (drop 2 s)) \<and> s ! 4 = CHR ''.'' \<and>
            (length f = 4 \<or> length f = 5)
         then with_version (take 5 s @ f) (drop (5 + length f) s) else None)"

definition old_char :: "char \<Rightarrow> bool" where
  "old_char c \<longleftrightarrow> (let n = (of_char c :: nat) in 97 \<le> n \<and> n \<le> 122) \<or> c = CHR ''-''"

definition upper_char :: "char \<Rightarrow> bool" where
  "upper_char c \<longleftrightarrow> (let n = (of_char c :: nat) in 65 \<le> n \<and> n \<le> 90)"

text \<open>The old form, \<open>archive.XX/NNNNNNN\<close>.\<close>

definition old_id :: "string \<Rightarrow> string option" where
  "old_id s =
     (let a = takeWhile old_char s; r = dropWhile old_char s;
          c = (if length r > 3 \<and> hd r = CHR ''.'' \<and> list_all upper_char (take 2 (drop 1 r)) \<and> r ! 3 = CHR ''/''
               then take 3 r else []);
          r2 = drop (length c) r
      in if length a \<ge> 2 \<and> length r2 \<ge> 8 \<and> hd r2 = CHR ''/'' \<and> list_all py_isdigit (take 7 (drop 1 r2))
         then with_version (a @ c @ take 8 r2) (drop 8 r2) else None)"

definition id_match :: "string \<Rightarrow> string option" where
  "id_match s = (case new_id s of Some m \<Rightarrow> Some m | None \<Rightarrow> old_id s)"

text \<open>
  The pieces of a text for \<open>findall\<close> and \<open>sub\<close>: matched ids and single characters; \<open>prev\<close> is for the
  look-behind.
\<close>

lemma with_version_len: "with_version core r = Some m \<Longrightarrow> length core \<le> length m"
  by (auto simp: with_version_def Let_def split: if_splits)

lemma new_id_ne: "new_id s = Some m \<Longrightarrow> m \<noteq> []"
  by (auto simp: new_id_def Let_def dest!: with_version_len split: if_split_asm)

lemma version_ne: "(if 2 \<le> length a \<and> p then with_version (a @ x) r else None) = Some m \<Longrightarrow> m \<noteq> []"
  by (auto dest!: with_version_len split: if_split_asm)

lemma old_id_ne: "old_id s = Some m \<Longrightarrow> m \<noteq> []"
  unfolding old_id_def Let_def by (rule version_ne)

lemma id_match_ne: "id_match s = Some m \<Longrightarrow> 0 < length m"
  by (auto simp: id_match_def dest: new_id_ne old_id_ne split: option.splits)

function id_pieces :: "char option \<Rightarrow> string \<Rightarrow> (string + char) list" where
  "id_pieces prev [] = []"
| "id_pieces prev (c # s) =
     (case (if (case prev of Some p \<Rightarrow> latin_alnum p \<or> p = CHR ''.'' | None \<Rightarrow> False) then None else id_match (c # s)) of
        Some m \<Rightarrow> Inl m # id_pieces (Some (last m)) (drop (length m) (c # s))
      | None \<Rightarrow> Inr c # id_pieces (Some c) s)"
  by pat_completeness auto
termination
  by (relation "measure (\<lambda>(_, s). length s)") (auto split: if_splits dest: id_match_ne)

definition paper_ids_in :: "string \<Rightarrow> string list" where
  "paper_ids_in s = concat (map (case_sum (\<lambda>m. [m]) (\<lambda>_. [])) (id_pieces None s))"

definition blank_ids :: "string \<Rightarrow> string" where
  "blank_ids s = map (case_sum (\<lambda>_. CHR '' '') (\<lambda>c. c)) (id_pieces None s)"

text \<open>The rest after \<open>\d+(?:\s*,\s*\d+)*\s*\]\<close>, if it matches.\<close>

lemma length_dropWhile_tl: "s \<noteq> [] \<Longrightarrow> length (dropWhile P (tl s)) < length s"
  by (metis length_dropWhile_le length_tl diff_less length_greater_0_conv less_one order_le_less_trans)

function marker_body :: "string \<Rightarrow> string option" where
  "marker_body s =
     (let r = dropWhile py_isspace (dropWhile py_isdigit s) in
      if s = [] \<or> \<not> py_isdigit (hd s) then None
      else if r \<noteq> [] \<and> hd r = CHR '']'' then Some (tl r)
      else if r \<noteq> [] \<and> hd r = CHR '','' then marker_body (dropWhile py_isspace (tl r))
      else None)"
  by pat_completeness auto
termination
proof (relation "measure length", simp, goal_cases)
  case (1 s r)
  have "length (dropWhile py_isspace (tl r)) < length r" using 1 by (intro length_dropWhile_tl) simp
  also have "length r \<le> length s" using 1 by (metis length_dropWhile_le order_trans)
  finally show ?case by simp
qed

declare marker_body.simps [simp del]

definition marker_match :: "string \<Rightarrow> string option" where
  "marker_match s =
     (if s \<noteq> [] \<and> hd s = CHR ''['' then marker_body (dropWhile py_isspace (tl s)) else None)"

lemma marker_body_len: "marker_body s = Some r \<Longrightarrow> length r < length s"
proof (induction s rule: marker_body.induct)
  case (1 s)
  define r' where "r' = dropWhile py_isspace (dropWhile py_isdigit s)"
  have le: "length r' \<le> length s" unfolding r'_def by (metis length_dropWhile_le order_trans)
  have tl: "r' \<noteq> [] \<Longrightarrow> length (tl r') < length s" using le by (cases r') auto
  have d: "r' \<noteq> [] \<Longrightarrow> length (dropWhile py_isspace (tl r')) < length s"
    using length_dropWhile_tl [of r' py_isspace] le by linarith
  show ?case
    using "1.prems" "1.IH" [OF r'_def] tl d
    by (subst (asm) marker_body.simps) (auto simp: r'_def [symmetric] Let_def split: if_splits dest: less_trans)
qed

lemma marker_match_len: "marker_match s = Some r \<Longrightarrow> length r < length s"
  using length_dropWhile_tl [of s py_isspace]
  by (auto simp: marker_match_def split: if_splits dest!: marker_body_len intro: less_trans)

function blank_markers :: "string \<Rightarrow> string" where
  "blank_markers [] = []"
| "blank_markers (c # s) =
     (case marker_match (c # s) of
        Some r \<Rightarrow> CHR '' '' # blank_markers r
      | None \<Rightarrow> c # blank_markers s)"
  by pat_completeness auto
termination
  by (relation "measure length") (auto dest: marker_match_len)

definition without_paper_ids :: "string \<Rightarrow> string" where
  "without_paper_ids s = blank_markers (blank_ids s)"

section \<open>The answer\<close>

record answer_sentence =
  as_sentence :: string
  as_refs :: "int list"
  as_role :: "string option"

datatype segment_kind = CITED | SYNTHESIS

datatype segment_role = CONCLUSION | EVIDENCE_ROLE | DIVERGENCE

record answer_segment =
  sg_text :: string
  sg_refs :: "int list"
  sg_kind :: segment_kind
  sg_role :: "segment_role option"

record evidence_answer =
  ea_segments :: "answer_segment list"
  ea_demoted :: nat
  ea_regenerated :: bool
  ea_fallback :: bool

datatype answer_refusal =
    STRAY_PAPER "string list"
  | NO_CITED_SENTENCE
  | SYNTHESIS_RATIO rat

definition role_of :: "answer_sentence \<Rightarrow> segment_role" where
  "role_of s =
     (case as_role s of
        None \<Rightarrow> EVIDENCE_ROLE
      | Some r \<Rightarrow> if r = ''conclusion'' then CONCLUSION else if r = ''divergence'' then DIVERGENCE else EVIDENCE_ROLE)"

definition iter_refs :: "evidence_item \<Rightarrow> evidence_ref list" where
  "iter_refs it = ei_supporting it @ ei_conflicting it"

definition claim_pool :: "evidence_item \<Rightarrow> number_pool" where
  "claim_pool it =
     foldl (\<lambda>p r. case sr_quote r of Some q \<Rightarrow> add_tokens (numbers_in q) p | None \<Rightarrow> p)
       (add_tokens (numbers_in (ei_statement it)) empty_pool) (iter_refs it)"

definition known_papers :: "evidence_item list \<Rightarrow> string list" where
  "known_papers claims =
     map (\<lambda>r. id_key (sr_paper_id r)) (filter (\<lambda>r. sr_paper_id r \<noteq> []) (concat (map iter_refs claims)))"

definition merge_pools :: "number_pool list \<Rightarrow> number_pool" where
  "merge_pools ps = foldl merge_pool empty_pool ps"

definition stray_ids :: "evidence_item list \<Rightarrow> string \<Rightarrow> string list" where
  "stray_ids claims t =
     remdups (filter (\<lambda>i. id_key i \<notin> set (known_papers claims) \<and>
       \<not> grounds (merge_pools (map claim_pool claims)) i) (paper_ids_in t))"

text \<open>Python's \<open>dict.fromkeys\<close> keeps the first of equal numbers.\<close>

definition first_once :: "int list \<Rightarrow> int list" where
  "first_once xs = rev (remdups (rev xs))"

definition refs_hold :: "evidence_item list \<Rightarrow> string \<Rightarrow> int list \<Rightarrow> bool" where
  "refs_hold claims t refs \<longleftrightarrow>
     list_all (\<lambda>n. 1 \<le> n \<and> n \<le> int (length claims)) refs \<and>
     list_all (grounds (merge_pools (map (\<lambda>n. claim_pool (claims ! nat (n - 1))) refs))) (numbers_in (without_paper_ids t))"

definition check_sentence :: "evidence_item list \<Rightarrow> answer_sentence \<Rightarrow> answer_segment \<times> bool" where
  "check_sentence claims s =
     (let refs = first_once (as_refs s);
          demote = (refs \<noteq> [] \<and> \<not> refs_hold claims (as_sentence s) refs);
          kept = (if demote then [] else refs)
      in (\<lparr>sg_text = as_sentence s, sg_refs = kept, sg_kind = (if kept \<noteq> [] then CITED else SYNTHESIS),
           sg_role = Some (role_of s)\<rparr>, demote))"

fun check_sentences :: "evidence_item list \<Rightarrow> answer_sentence list \<Rightarrow> answer_refusal + (answer_segment list \<times> nat)" where
  "check_sentences claims [] = Inr ([], 0)"
| "check_sentences claims (s # ss) =
     (if stray_ids claims (as_sentence s) \<noteq> [] then Inl (STRAY_PAPER (stray_ids claims (as_sentence s)))
      else case check_sentences claims ss of
        Inl e \<Rightarrow> Inl e
      | Inr (gs, n) \<Rightarrow> (case check_sentence claims s of (g, d) \<Rightarrow> Inr (g # gs, if d then n + 1 else n)))"

definition SYNTHESIS_RATIO_LIMIT :: rat where "SYNTHESIS_RATIO_LIMIT = 1 / 2"

definition check_answer :: "evidence_item list \<Rightarrow> bool \<Rightarrow> answer_sentence list \<Rightarrow> answer_refusal + evidence_answer" where
  "check_answer claims regenerated ss =
     (case check_sentences claims ss of
        Inl e \<Rightarrow> Inl e
      | Inr (gs, n) \<Rightarrow>
          (let cited = filter (\<lambda>g. sg_kind g = CITED) gs;
               ratio = of_nat (length gs - length cited) / of_nat (length gs)
           in if cited = [] then Inl NO_CITED_SENTENCE
              else if ratio > SYNTHESIS_RATIO_LIMIT then Inl (SYNTHESIS_RATIO ratio)
              else Inr \<lparr>ea_segments = gs, ea_demoted = n, ea_regenerated = regenerated, ea_fallback = False\<rparr>))"

section \<open>Without a judgement\<close>

definition comparison_order :: "evidence_item list \<Rightarrow> evidence_item list" where
  "comparison_order items =
     filter (\<lambda>i. ei_conflicting i \<noteq> []) items @ filter (\<lambda>i. ei_conflicting i = []) items"

definition distinct_papers :: "evidence_ref list \<Rightarrow> string list" where
  "distinct_papers refs = rev (remdups (rev (filter (\<lambda>p. p \<noteq> []) (map sr_paper_id refs))))"

definition MAX_NAMED_PAPERS :: nat where "MAX_NAMED_PAPERS = 3"

text \<open>The wording is Korean in the source; here its English sense stands for it.\<close>

definition listing :: "string list \<Rightarrow> string" where
  "listing ids =
     join '', '' (take MAX_NAMED_PAPERS ids) @
     (if length ids > MAX_NAMED_PAPERS then '' and '' @ py_nat_str (length ids - MAX_NAMED_PAPERS) @ '' more'' else [])"

definition narrative_sentence :: "evidence_item \<Rightarrow> string" where
  "narrative_sentence it =
     (let s = rstrip_by (\<lambda>c. c \<in> set ''. '') (ei_statement it);
          sups = distinct_papers (ei_supporting it); cons = distinct_papers (ei_conflicting it);
          s = (if sups \<noteq> [] then s @ '' (confirmed in '' @ listing sups @ '')'' else s);
          s = (if cons \<noteq> [] then s @ ''. But '' @ listing cons @ '' reports otherwise'' else s)
      in s @ ''.'')"

definition fallback_answer :: "evidence_item list \<Rightarrow> bool \<Rightarrow> evidence_answer option" where
  "fallback_answer items regenerated =
     (if items = [] then None
      else Some \<lparr>ea_segments = map (\<lambda>it. \<lparr>sg_text = narrative_sentence it, sg_refs = [], sg_kind = SYNTHESIS, sg_role = None\<rparr>) items,
                 ea_demoted = 0, ea_regenerated = regenerated, ea_fallback = True\<rparr>)"

end
