(* ===== verification/Evid_Loop.thy ===== *)
theory Evid_Loop imports Evid_Answer begin

text \<open>
  One turn of the evidence agent, \<open>backend/modules/evidence/domain/budget.py\<close>, \<open>models.py\<close>,
  \<open>loop.py\<close>, the \<open>extract_evidence\<close> tool and \<open>assemble\<close>. The graph's nodes are functions on the run
  (live state, budget, world of the ports, the channels \<open>snapshot\<close>, \<open>proposal\<close>, \<open>outcome\<close>); an
  exception that leaves a node is the left value of a sum. The language model, the tools and the
  judgement model are parameters over a world of their own; tools see the part of the state they are
  given in the source, papers and accumulated evidence. The trace sink is left out: it may fail
  without effect. Prompt texts are Korean in the source and stand here in English.
\<close>

section \<open>The budget\<close>

record budget_consumed =
  bc_iterations :: int
  bc_calls_total :: int
  bc_calls :: "(string, int) dict"
  bc_cost :: rat

record loop_budget =
  lb_max_iterations :: int
  lb_max_calls_total :: int
  lb_max_calls :: "(string, int) dict"
  lb_cost_limit :: rat
  lb_consumed :: budget_consumed

datatype denial_reason = ITERATIONS_EXHAUSTED | TOOL_CALLS_EXHAUSTED | TOOL_CAP_EXHAUSTED | COST_EXHAUSTED

datatype budget_denial = Denial (denial_reason: denial_reason) (denial_detail: string)

definition is_cost_exhausted :: "loop_budget \<Rightarrow> bool" where
  "is_cost_exhausted b \<longleftrightarrow> bc_cost (lb_consumed b) \<ge> lb_cost_limit b"

definition used_of :: "string \<Rightarrow> int \<Rightarrow> int \<Rightarrow> string" where
  "used_of what a b = what @ '' '' @ py_int_str a @ ''/'' @ py_int_str b"

definition begin_iteration :: "loop_budget \<Rightarrow> budget_denial option \<times> loop_budget" where
  "begin_iteration b =
     (let c = lb_consumed b in
      if is_cost_exhausted b then
        (Some (Denial COST_EXHAUSTED (''cost $'' @ py_fixed 2 (bc_cost c) @ ''/$'' @ py_fixed 2 (lb_cost_limit b))), b)
      else if bc_iterations c \<ge> lb_max_iterations b then
        (Some (Denial ITERATIONS_EXHAUSTED (used_of ''iterations'' (bc_iterations c) (lb_max_iterations b))), b)
      else (None, b\<lparr>lb_consumed := c\<lparr>bc_iterations := bc_iterations c + 1\<rparr>\<rparr>))"

definition used_calls :: "budget_consumed \<Rightarrow> string \<Rightarrow> int" where
  "used_calls c tool = (case dget (bc_calls c) tool of None \<Rightarrow> 0 | Some n \<Rightarrow> n)"

definition check_and_consume_tool_call :: "loop_budget \<Rightarrow> string \<Rightarrow> budget_denial option \<times> loop_budget" where
  "check_and_consume_tool_call b tool =
     (let c = lb_consumed b; used = used_calls c tool in
      if bc_calls_total c \<ge> lb_max_calls_total b then
        (Some (Denial TOOL_CALLS_EXHAUSTED (used_of ''tool calls'' (bc_calls_total c) (lb_max_calls_total b))), b)
      else if (case dget (lb_max_calls b) tool of None \<Rightarrow> False | Some cap \<Rightarrow> used \<ge> cap) then
        (Some (Denial TOOL_CAP_EXHAUSTED (used_of tool used (the (dget (lb_max_calls b) tool)))), b)
      else if is_cost_exhausted b then
        (Some (Denial COST_EXHAUSTED (''cost '' @ py_fixed 4 (bc_cost c) @ ''/'' @ py_fixed 4 (lb_cost_limit b) @ '' USD'')), b)
      else (None, b\<lparr>lb_consumed := c\<lparr>bc_calls_total := bc_calls_total c + 1, bc_calls := dset tool (used + 1) (bc_calls c)\<rparr>\<rparr>))"

definition can_call :: "loop_budget \<Rightarrow> string \<Rightarrow> bool" where
  "can_call b tool \<longleftrightarrow> fst (check_and_consume_tool_call b tool) = None"

definition record_cost :: "rat option \<Rightarrow> loop_budget \<Rightarrow> string + loop_budget" where
  "record_cost cost b =
     (case cost of
        None \<Rightarrow> Inr b
      | Some x \<Rightarrow>
          if x < 0 then Inl ''ValueError''
          else Inr (b\<lparr>lb_consumed := (lb_consumed b)\<lparr>bc_cost := bc_cost (lb_consumed b) + x\<rparr>\<rparr>))"

section \<open>The state of a turn\<close>

datatype termination_reason = SUFFICIENT | BUDGET_EXHAUSTED | NO_EVIDENCE | FATAL_ERROR | CANCELLED | INTERRUPTED

datatype call_outcome = CALL_OK | CALL_EMPTY | CALL_ERROR | CALL_DENIED

record paper_handle =
  ph_paper_id :: string
  ph_record_ref :: string
  ph_title :: string
  ph_doc_model :: "doc_model option"
  ph_abstract :: string
  ph_fulltext_available :: bool

definition has_fulltext :: "paper_handle \<Rightarrow> bool" where
  "has_fulltext h \<longleftrightarrow> ph_doc_model h \<noteq> None \<or> ph_fulltext_available h"

definition as_source :: "paper_handle \<Rightarrow> paper_source" where
  "as_source h =
     (case ph_doc_model h of
        None \<Rightarrow> \<lparr>ps_paper_id = ph_paper_id h, ps_record_ref = ph_record_ref h, ps_scope = ABSTRACT,
                  ps_text = normalize_quote (ph_abstract h), ps_blocks = [], ps_title = ph_title h\<rparr>
      | Some dm \<Rightarrow> \<lparr>ps_paper_id = ph_paper_id h, ps_record_ref = ph_record_ref h, ps_scope = FULLTEXT,
                  ps_text = normalize_quote (paper_projection dm),
                  ps_blocks = foldl (\<lambda>d (i, k, t). dset i (k, t) d) [] (iter_blocks dm), ps_title = ph_title h\<rparr>)"

record call_record =
  cr_seq :: nat
  cr_tool :: string
  cr_args :: string
  cr_outcome :: call_outcome
  cr_summary :: string
  cr_cost :: "rat option"
  cr_stance :: "string option"

record tool_result =
  tr_ok :: bool
  tr_content :: "(string \<times> pyval) list"
  tr_summary :: string
  tr_cost :: "rat option"
  tr_error :: "string option"
  tr_images :: "string list"

record tool_view =
  tv_seq :: nat
  tv_tool :: string
  tv_ok :: bool
  tv_args :: string
  tv_content :: "(string \<times> pyval) list"
  tv_error :: "string option"
  tv_images :: "string list"

text \<open>What the tools work on, and the rest of the state.\<close>

record ev_corpus =
  ec_discovered :: "(string, paper_handle) dict"
  ec_papers :: "(string, paper_handle) dict"
  ec_items :: "evidence_item list"
  ec_rejections :: rejections
  ec_candidates_seen :: "string list"
  ec_degraded :: bool

record ev_state =
  es_topic :: string
  es_corpus :: ev_corpus
  es_trace :: "call_record list"
  es_recent :: "tool_view list"
  es_reason :: "termination_reason option"
  es_notes :: "string list"
  es_kind :: "string option"
  es_answer :: "evidence_answer option"

abbreviation es_items :: "ev_state \<Rightarrow> evidence_item list" where
  "es_items s \<equiv> ec_items (es_corpus s)"

definition absorb :: "gate_outcome \<Rightarrow> ev_corpus \<Rightarrow> nat \<times> ev_corpus" where
  "absorb g c =
     (length (go_items g),
      c\<lparr>ec_items := ec_items c @ go_items g,
        ec_rejections := foldl (\<lambda>d (r, n). dset r ((case dget d r of None \<Rightarrow> 0 | Some m \<Rightarrow> m) + n) d) (ec_rejections c) (go_rejections g)\<rparr>)"

definition cited_paper_ids :: "evidence_item list \<Rightarrow> string list" where
  "cited_paper_ids items = rev (remdups (rev (map sr_paper_id (concat (map iter_refs items)))))"

definition has_conflicts :: "evidence_item list \<Rightarrow> bool" where
  "has_conflicts items = list_ex (\<lambda>i. ei_conflicting i \<noteq> []) items"

definition candidates :: "ev_corpus \<Rightarrow> nat" where
  "candidates c = length (remdups (ec_candidates_seen c @ dkeys (ec_papers c) @ dkeys (ec_discovered c)))"

text \<open>Confirmed papers come before discovered ones.\<close>

definition handle_of :: "ev_corpus \<Rightarrow> string \<Rightarrow> paper_handle option" where
  "handle_of c pid = (case dget (ec_papers c) pid of Some h \<Rightarrow> Some h | None \<Rightarrow> dget (ec_discovered c) pid)"

definition examine :: "paper_handle \<Rightarrow> ev_corpus \<Rightarrow> ev_corpus" where
  "examine h c =
     c\<lparr>ec_discovered := ddel (ph_paper_id h) (ec_discovered c), ec_papers := dset (ph_paper_id h) h (ec_papers c)\<rparr>"

section \<open>The ports\<close>

datatype proposal =
    ToolCall (tc_tool: string) (tc_args: "(string \<times> pyval) list") (tc_note: "string option")
  | Terminate (te_note: "string option") (te_kind: "string option")

datatype llm_reply =
    Decided proposal "rat option"
  | Unavailable string
  | LlmRaises string

record paper_view =
  pv_paper_id :: string
  pv_title :: string
  pv_fulltext :: bool

record loop_observation =
  ob_topic :: string
  ob_papers :: "paper_view list"
  ob_pending :: "paper_view list"
  ob_recent :: "tool_view list"
  ob_evidence_count :: nat
  ob_cited_papers :: nat
  ob_has_conflicts :: bool
  ob_iterations_left :: int
  ob_calls_left :: int
  ob_cost_left :: rat
  ob_notes :: "string list"

record answer_view =
  av_number :: nat
  av_statement :: string
  av_paper_id :: string
  av_quote :: string
  av_locator :: string
  av_conflicts :: "nat list"

record answer_request =
  aq_topic :: string
  aq_kind :: string
  aq_evidence :: "answer_view list"
  aq_reject :: "answer_refusal option"

record answer_draft =
  ad_sentences :: "answer_sentence list"
  ad_cost :: "rat option"

type_synonym 'w tool = "(string \<times> pyval) list \<Rightarrow> ev_corpus \<Rightarrow> 'w \<Rightarrow> (string + tool_result) \<times> ev_corpus \<times> 'w"

record 'w loop_deps =
  ld_llm :: "loop_observation \<Rightarrow> 'w \<Rightarrow> llm_reply \<times> 'w"
  ld_tools :: "(string, 'w tool) dict"
  ld_answer :: "(answer_request \<Rightarrow> 'w \<Rightarrow> (string + answer_draft) \<times> 'w) option"
  ld_should_stop :: "('w \<Rightarrow> termination_reason option \<times> 'w) option"
  ld_str :: "pyval \<Rightarrow> string"

record 'w loop_run =
  lr_state :: ev_state
  lr_budget :: loop_budget
  lr_world :: 'w
  lr_snapshot :: ev_state
  lr_proposal :: "proposal option"
  lr_outcome :: "(termination_reason \<times> string option) option"

section \<open>Tools, stances, the floor\<close>

definition KNOWN_LOOP_TOOLS :: "string list" where
  "KNOWN_LOOP_TOOLS =
     [''corpus_search'', ''live_lookup'', ''fetch_paper'', ''read_paper'', ''view_figure'', ''extract_evidence'']"

definition STANCE_TOOLS :: "string list" where
  "STANCE_TOOLS = [''corpus_search'', ''live_lookup'', ''extract_evidence'']"

definition STANCES :: "string list" where
  "STANCES = [''support'', ''counter'', ''neutral'']"

text \<open>\<open>ToolRegistry.register\<close>\<close>

definition register_tool :: "string \<Rightarrow> 'w tool \<Rightarrow> (string, 'w tool) dict \<Rightarrow> string + (string, 'w tool) dict" where
  "register_tool name t reg =
     (if name \<notin> set KNOWN_LOOP_TOOLS then Inl ''ValueError: may not join''
      else if dget reg name \<noteq> None then Inl ''ValueError: duplicate''
      else Inr (dset name t reg))"

definition counter_probes :: "call_record list \<Rightarrow> nat" where
  "counter_probes trace =
     length (filter (\<lambda>r. cr_stance r = Some ''counter'' \<and> cr_tool r \<in> set STANCE_TOOLS \<and>
       cr_outcome r \<in> {CALL_OK, CALL_EMPTY}) trace)"

definition declared_stance :: "(pyval \<Rightarrow> string) \<Rightarrow> string \<Rightarrow> (string \<times> pyval) list \<Rightarrow> string option" where
  "declared_stance other tool args =
     (if tool \<notin> set STANCE_TOOLS then None
      else let s = py_lower (py_strip (py_str other (py_or (pget args ''stance'') (PStr []))))
           in if s \<in> set STANCES then Some s else None)"

definition summarize_args :: "(pyval \<Rightarrow> string) \<Rightarrow> (string \<times> pyval) list \<Rightarrow> string" where
  "summarize_args other args = take 300 (join '', '' (map (\<lambda>(k, v). k @ ''='' @ take 80 (py_str other v)) args))"

definition COUNTER_REQUIRED_KINDS :: "string list" where
  "COUNTER_REQUIRED_KINDS = [''claim'', ''comparison'']"

definition NO_EVIDENCE_NOTE :: string where
  "NO_EVIDENCE_NOTE = ''no evidence has passed yet''"

definition NO_COUNTER_NOTE :: "string \<Rightarrow> string" where
  "NO_COUNTER_NOTE kind = ''a question of kind '' @ kind @ '' needs a counter probe''"

definition question_kind :: "ev_state \<Rightarrow> string" where
  "question_kind s = (case es_kind s of Some k \<Rightarrow> if k = [] then ''unknown'' else k | None \<Rightarrow> ''unknown'')"

definition missing_counter_probe :: "ev_state \<Rightarrow> loop_budget \<Rightarrow> string option" where
  "missing_counter_probe s b =
     (if question_kind s \<notin> set COUNTER_REQUIRED_KINDS then None
      else if counter_probes (es_trace s) > 0 then None
      else if \<not> list_ex (can_call b) STANCE_TOOLS then None
      else Some (NO_COUNTER_NOTE (question_kind s)))"

section \<open>Records, notes, windows\<close>

definition add_note :: "string \<Rightarrow> ev_state \<Rightarrow> ev_state" where
  "add_note t s = (if t \<in> set (es_notes s) then s else s\<lparr>es_notes := es_notes s @ [t]\<rparr>)"

definition record_call ::
  "string \<Rightarrow> string \<Rightarrow> call_outcome \<Rightarrow> string \<Rightarrow> rat option \<Rightarrow> string option \<Rightarrow> ev_state \<Rightarrow> ev_state" where
  "record_call tool args outc summary cost stance s =
     s\<lparr>es_trace := es_trace s @
       [\<lparr>cr_seq = length (es_trace s) + 1, cr_tool = tool, cr_args = args, cr_outcome = outc,
         cr_summary = take 500 summary, cr_cost = cost, cr_stance = stance\<rparr>]\<rparr>"

definition drop_images :: "ev_state \<Rightarrow> ev_state" where
  "drop_images s = s\<lparr>es_recent := map (\<lambda>v. v\<lparr>tv_images := []\<rparr>) (es_recent s)\<rparr>"

definition RECENT_WINDOW :: nat where "RECENT_WINDOW = 6"

definition push_result :: "string \<Rightarrow> string \<Rightarrow> tool_result \<Rightarrow> ev_state \<Rightarrow> ev_state" where
  "push_result tool args r s =
     (let s = drop_images s;
          views = es_recent s @ [\<lparr>tv_seq = length (es_trace s), tv_tool = tool, tv_ok = tr_ok r, tv_args = args,
                                  tv_content = tr_content r, tv_error = tr_error r, tv_images = tr_images r\<rparr>]
      in s\<lparr>es_recent := drop (length views - RECENT_WINDOW) views\<rparr>)"

definition paper_view_of :: "paper_handle \<Rightarrow> paper_view" where
  "paper_view_of h = \<lparr>pv_paper_id = ph_paper_id h, pv_title = ph_title h, pv_fulltext = has_fulltext h\<rparr>"

definition observe_turn :: "ev_state \<Rightarrow> loop_budget \<Rightarrow> loop_observation" where
  "observe_turn s b =
     (let c = es_corpus s; u = lb_consumed b in
      \<lparr>ob_topic = es_topic s, ob_papers = map (paper_view_of \<circ> snd) (ec_papers c),
       ob_pending = map (paper_view_of \<circ> snd) (ec_discovered c), ob_recent = es_recent s,
       ob_evidence_count = length (ec_items c), ob_cited_papers = length (cited_paper_ids (ec_items c)),
       ob_has_conflicts = has_conflicts (ec_items c),
       ob_iterations_left = max 0 (lb_max_iterations b - bc_iterations u),
       ob_calls_left = max 0 (lb_max_calls_total b - bc_calls_total u),
       ob_cost_left = max 0 (lb_cost_limit b - bc_cost u), ob_notes = es_notes s\<rparr>)"

definition finish :: "termination_reason \<Rightarrow> ev_state \<Rightarrow> termination_reason \<times> ev_state" where
  "finish reason s =
     (let reason = (if reason \<notin> {FATAL_ERROR, CANCELLED, INTERRUPTED} \<and> es_items s = [] then NO_EVIDENCE else reason)
      in (reason, s\<lparr>es_reason := Some reason\<rparr>))"

section \<open>Nodes\<close>

datatype ev_node = NDecide | NFloor | NAct | NAnswer | NEnd

text \<open>\<open>end\<close>: the outcome and a fresh snapshot.\<close>

definition end_run :: "termination_reason \<Rightarrow> string option \<Rightarrow> 'w loop_run \<Rightarrow> 'w loop_run" where
  "end_run reason detail r =
     (case finish reason (lr_state r) of (rs, s) \<Rightarrow>
        r\<lparr>lr_state := s, lr_snapshot := s, lr_outcome := Some (rs, detail)\<rparr>)"

definition decide_node :: "'w loop_deps \<Rightarrow> 'w loop_run \<Rightarrow> string + 'w loop_run" where
  "decide_node d r =
     (let (stop, w) = (case ld_should_stop d of None \<Rightarrow> (None, lr_world r) | Some f \<Rightarrow> f (lr_world r));
          r = r\<lparr>lr_world := w\<rparr>
      in case stop of
           Some reason \<Rightarrow> Inr (end_run reason None r)
         | None \<Rightarrow>
             (case begin_iteration (lr_budget r) of
                (Some dn, b) \<Rightarrow> Inr (end_run BUDGET_EXHAUSTED (Some (denial_detail dn)) (r\<lparr>lr_budget := b\<rparr>))
              | (None, b) \<Rightarrow>
                  (case ld_llm d (observe_turn (lr_state r) b) w of
                     (Unavailable m, w') \<Rightarrow>
                       Inr (end_run FATAL_ERROR (Some (''llm_unavailable: '' @ m)) (r\<lparr>lr_budget := b, lr_world := w'\<rparr>))
                   | (LlmRaises e, w') \<Rightarrow> Inl e
                   | (Decided p cost, w') \<Rightarrow>
                       (case record_cost cost b of
                          Inl e \<Rightarrow> Inl e
                        | Inr b' \<Rightarrow>
                            Inr (r\<lparr>lr_budget := b', lr_world := w', lr_state := drop_images (lr_state r),
                                   lr_proposal := Some p, lr_outcome := None\<rparr>)))))"

definition check_floor :: "'w loop_run \<Rightarrow> 'w loop_run" where
  "check_floor r =
     (case lr_proposal r of
        Some (Terminate nt kind) \<Rightarrow>
          (let s = lr_state r;
               s = (case kind of Some k \<Rightarrow> if k = [] then s else s\<lparr>es_kind := Some k\<rparr> | None \<Rightarrow> s);
               again = (\<lambda>s. r\<lparr>lr_state := s, lr_proposal := None, lr_outcome := None\<rparr>)
           in if es_items s = [] then again (add_note NO_EVIDENCE_NOTE s)
              else case missing_counter_probe s (lr_budget r) of
                Some m \<Rightarrow> again (add_note m s)
              | None \<Rightarrow> end_run SUFFICIENT nt (r\<lparr>lr_state := s\<rparr>))
      | _ \<Rightarrow> r)"

definition error_text :: "tool_result \<Rightarrow> string" where
  "error_text r = (if tr_summary r \<noteq> [] then tr_summary r else or_empty (tr_error r))"

definition failed_result :: "string \<Rightarrow> tool_result" where
  "failed_result e =
     \<lparr>tr_ok = False, tr_content = [], tr_summary = [], tr_cost = None,
      tr_error = Some (take 300 (''tool failed: '' @ e)), tr_images = []\<rparr>"

definition outcome_of :: "tool_result \<Rightarrow> call_outcome" where
  "outcome_of r = (if \<not> tr_ok r then CALL_ERROR else if tr_content r = [] then CALL_EMPTY else CALL_OK)"

text \<open>\<open>_act\<close> and the node around it.\<close>

definition act_node :: "'w loop_deps \<Rightarrow> 'w loop_run \<Rightarrow> string + 'w loop_run" where
  "act_node d r =
     (case lr_proposal r of
        Some (ToolCall name args nt) \<Rightarrow>
          (let s = (case nt of Some t \<Rightarrow> if t = [] then lr_state r else add_note (''not executed: '' @ t) (lr_state r) | None \<Rightarrow> lr_state r);
               summary = summarize_args (ld_str d) args;
               stance = declared_stance (ld_str d) name args;
               go_on = (\<lambda>s b w. r\<lparr>lr_state := s, lr_budget := b, lr_world := w, lr_outcome := None, lr_snapshot := s\<rparr>)
           in case dget (ld_tools d) name of
                None \<Rightarrow>
                  Inr (go_on (add_note (''no such tool: '' @ name) (record_call name summary CALL_ERROR ''unknown tool'' None stance s))
                         (lr_budget r) (lr_world r))
              | Some tool \<Rightarrow>
                  (case check_and_consume_tool_call (lr_budget r) name of
                     (Some dn, b) \<Rightarrow>
                       (let s = record_call name summary CALL_DENIED (denial_detail dn) None stance s
                        in if denial_reason dn = TOOL_CAP_EXHAUSTED
                           then Inr (go_on (add_note (''tool cap used up: '' @ denial_detail dn) s) b (lr_world r))
                           else Inr (end_run BUDGET_EXHAUSTED (Some (denial_detail dn)) (r\<lparr>lr_state := s, lr_budget := b\<rparr>)))
                   | (None, b) \<Rightarrow>
                       (case tool args (es_corpus s) (lr_world r) of
                          (res, c, w) \<Rightarrow>
                            (let t = (case res of Inr t \<Rightarrow> t | Inl e \<Rightarrow> failed_result e);
                                 s = s\<lparr>es_corpus := c\<rparr>
                             in case record_cost (tr_cost t) b of
                                  Inl e \<Rightarrow> Inl e
                                | Inr b' \<Rightarrow>
                                    Inr (go_on (push_result name summary t
                                                  (record_call name summary (outcome_of t) (error_text t) (tr_cost t) stance s)) b' w)))))
      | _ \<Rightarrow> Inr r)"

text \<open>\<open>_answer_views\<close>\<close>

definition conflict_numbers :: "evidence_item list \<Rightarrow> nat \<Rightarrow> nat list" where
  "conflict_numbers items n =
     (let papers = map sr_paper_id (ei_conflicting (items ! (n - 1)))
      in filter (\<lambda>m. m \<noteq> n \<and> list_ex (\<lambda>r. sr_paper_id r \<in> set papers) (ei_supporting (items ! (m - 1)))) [1..<length items + 1])"

definition answer_views :: "evidence_item list \<Rightarrow> answer_view list" where
  "answer_views items =
     map (\<lambda>n. let it = items ! (n - 1); primary = hd (ei_supporting it) in
       \<lparr>av_number = n, av_statement = ei_statement it, av_paper_id = sr_paper_id primary,
        av_quote = or_empty (sr_quote primary), av_locator = or_empty (sr_anchor primary),
        av_conflicts = conflict_numbers items n\<rparr>) [1..<length items + 1]"

definition trace_answer :: "nat \<Rightarrow> call_outcome \<Rightarrow> string \<Rightarrow> rat option \<Rightarrow> ev_state \<Rightarrow> ev_state" where
  "trace_answer n outc summary cost s = record_call ''answer'' (''attempt='' @ py_nat_str n) outc summary cost None s"

fun refusal_code :: "answer_refusal \<Rightarrow> string" where
  "refusal_code (STRAY_PAPER _) = ''unknown_paper''"
| "refusal_code NO_CITED_SENTENCE = ''no_cited_sentence''"
| "refusal_code (SYNTHESIS_RATIO _) = ''synthesis_ratio''"

definition checked_summary :: "evidence_answer \<Rightarrow> string" where
  "checked_summary a =
     ''sentences '' @ py_nat_str (length (ea_segments a)) @ '', demoted '' @ py_nat_str (ea_demoted a)"

text \<open>
  \<open>_attempt_answer\<close>: attempt \<open>n\<close> of \<open>_ANSWER_MAX_ATTEMPTS\<close>, with the last refusal; \<open>left\<close> attempts
  remain.
\<close>

fun attempt_answer ::
  "(answer_request \<Rightarrow> 'w \<Rightarrow> (string + answer_draft) \<times> 'w) \<Rightarrow> evidence_item list \<Rightarrow> nat \<Rightarrow> nat \<Rightarrow> answer_refusal option \<Rightarrow>
   ev_state \<times> loop_budget \<times> 'w \<Rightarrow> string + answer_refusal option \<times> ev_state \<times> loop_budget \<times> 'w" where
  "attempt_answer ask ordered n 0 reject (s, b, w) = Inr (reject, s, b, w)"
| "attempt_answer ask ordered n (Suc left) reject (s, b, w) =
     (if is_cost_exhausted b then Inr (reject, trace_answer n CALL_DENIED ''cost limit'' None s, b, w)
      else case ask \<lparr>aq_topic = es_topic s, aq_kind = question_kind s, aq_evidence = answer_views ordered, aq_reject = reject\<rparr> w of
        (Inl e, w') \<Rightarrow> Inr (reject, trace_answer n CALL_ERROR (take 200 e) None s, b, w')
      | (Inr draft, w') \<Rightarrow>
          (case record_cost (ad_cost draft) b of
             Inl e \<Rightarrow> Inl e
           | Inr b' \<Rightarrow>
               (case check_answer ordered (n > 1) (ad_sentences draft) of
                  Inr a \<Rightarrow> Inr (reject, trace_answer n CALL_OK (checked_summary a) (ad_cost draft) (s\<lparr>es_answer := Some a\<rparr>), b', w')
                | Inl rf \<Rightarrow>
                    attempt_answer ask ordered (n + 1) left (Some rf)
                      (trace_answer n CALL_ERROR (''refused: '' @ refusal_code rf) (ad_cost draft) s, b', w'))))"

definition ANSWER_MAX_ATTEMPTS :: nat where "ANSWER_MAX_ATTEMPTS = 2"

definition write_answer :: "'w loop_deps \<Rightarrow> termination_reason option \<Rightarrow> ev_state \<times> loop_budget \<times> 'w \<Rightarrow> string + ev_state \<times> loop_budget \<times> 'w" where
  "write_answer d reason sbw =
     (case sbw of (s, b, w) \<Rightarrow>
      case ld_answer d of
        None \<Rightarrow> Inr (s, b, w)
      | Some ask \<Rightarrow>
          if es_items s = [] then Inr (s, b, w)
          else let ordered = comparison_order (es_items s) in
            if reason = Some FATAL_ERROR then Inr (s\<lparr>es_answer := fallback_answer ordered False\<rparr>, b, w)
            else case attempt_answer ask ordered 1 ANSWER_MAX_ATTEMPTS None (s, b, w) of
              Inl e \<Rightarrow> Inl e
            | Inr (reject, s', b', w') \<Rightarrow>
                Inr (if es_answer s' \<noteq> None then s'
                     else s'\<lparr>es_answer := fallback_answer ordered (reject \<noteq> None)\<rparr>, b', w'))"

definition answer_node :: "'w loop_deps \<Rightarrow> 'w loop_run \<Rightarrow> string + 'w loop_run" where
  "answer_node d r =
     (case write_answer d (map_option fst (lr_outcome r)) (lr_state r, lr_budget r, lr_world r) of
        Inl e \<Rightarrow> Inl e
      | Inr (s, b, w) \<Rightarrow> Inr (r\<lparr>lr_state := s, lr_budget := b, lr_world := w, lr_snapshot := s\<rparr>))"

section \<open>The graph\<close>

definition answer_or_end :: "'w loop_run \<Rightarrow> ev_node" where
  "answer_or_end r = (if es_items (lr_snapshot r) \<noteq> [] then NAnswer else NEnd)"

definition route_after_decide :: "'w loop_run \<Rightarrow> ev_node" where
  "route_after_decide r =
     (if lr_outcome r \<noteq> None then answer_or_end r
      else case lr_proposal r of Some (Terminate _ _) \<Rightarrow> NFloor | _ \<Rightarrow> NAct)"

definition route_back :: "'w loop_run \<Rightarrow> ev_node" where
  "route_back r = (if lr_outcome r = None then NDecide else answer_or_end r)"

text \<open>One super-step: the node, then its router.\<close>

definition graph_step :: "'w loop_deps \<Rightarrow> ev_node \<Rightarrow> 'w loop_run \<Rightarrow> string + ev_node \<times> 'w loop_run" where
  "graph_step d n r =
     (case n of
        NDecide \<Rightarrow> (case decide_node d r of Inl e \<Rightarrow> Inl e | Inr r' \<Rightarrow> Inr (route_after_decide r', r'))
      | NFloor \<Rightarrow> (let r' = check_floor r in Inr (route_back r', r'))
      | NAct \<Rightarrow> (case act_node d r of Inl e \<Rightarrow> Inl e | Inr r' \<Rightarrow> Inr (route_back r', r'))
      | NAnswer \<Rightarrow> (case answer_node d r of Inl e \<Rightarrow> Inl e | Inr r' \<Rightarrow> Inr (NEnd, r'))
      | NEnd \<Rightarrow> Inr (NEnd, r))"

datatype 'w graph_result = Finished "'w loop_run" | GraphRaised string | GraphRecursionError

text \<open>\<open>invoke\<close>: \<open>n\<close> more super-steps are allowed.\<close>

fun invoke_graph :: "'w loop_deps \<Rightarrow> nat \<Rightarrow> ev_node \<Rightarrow> 'w loop_run \<Rightarrow> 'w graph_result" where
  "invoke_graph d n NEnd r = Finished r"
| "invoke_graph d 0 m r = GraphRecursionError"
| "invoke_graph d (Suc n) m r =
     (case graph_step d m r of Inl e \<Rightarrow> GraphRaised e | Inr (m', r') \<Rightarrow> invoke_graph d n m' r')"

definition recursion_limit :: "loop_budget \<Rightarrow> int" where
  "recursion_limit b = 2 * lb_max_iterations b + 2 + 1"

text \<open>A limit of \<open>N + 1\<close> allows \<open>N\<close> super-steps, as the comment at \<open>_recursion_limit\<close> records.\<close>

definition initial_run :: "ev_state \<Rightarrow> loop_budget \<Rightarrow> 'w \<Rightarrow> 'w loop_run" where
  "initial_run s b w =
     \<lparr>lr_state = s, lr_budget = b, lr_world = w, lr_snapshot = s, lr_proposal = None, lr_outcome = None\<rparr>"

definition run_loop :: "'w loop_deps \<Rightarrow> ev_state \<Rightarrow> loop_budget \<Rightarrow> 'w \<Rightarrow> 'w graph_result" where
  "run_loop d s b w = invoke_graph d (nat (recursion_limit b - 1)) NDecide (initial_run s b w)"

section \<open>The result\<close>

datatype abstain_reason = ABSTAIN_OUT_OF_CORPUS | ABSTAIN_INSUFFICIENT | ABSTAIN_LLM_FAILURE | ABSTAIN_CANCELLED

datatype stopped_reason = STOP_SUFFICIENT | STOP_BUDGET | STOP_PARTIAL_FAILURE | STOP_CANCELLED

record evidence_coverage =
  cv_paper_count :: nat
  cv_query :: "string option"
  cv_examined :: nat
  cv_candidates :: nat
  cv_stopped :: stopped_reason
  cv_degraded :: bool

datatype evidence_result =
    EvidenceOk (er_claims: "evidence_item list") (er_coverage: evidence_coverage) (er_answer: "evidence_answer option")
  | EvidenceAbstain abstain_reason

fun stopped_by_reason :: "termination_reason \<Rightarrow> stopped_reason" where
  "stopped_by_reason SUFFICIENT = STOP_SUFFICIENT"
| "stopped_by_reason BUDGET_EXHAUSTED = STOP_BUDGET"
| "stopped_by_reason CANCELLED = STOP_CANCELLED"
| "stopped_by_reason FATAL_ERROR = STOP_PARTIAL_FAILURE"
| "stopped_by_reason INTERRUPTED = STOP_PARTIAL_FAILURE"
| "stopped_by_reason NO_EVIDENCE = STOP_PARTIAL_FAILURE"

definition assemble_evidence :: "ev_state \<Rightarrow> termination_reason \<Rightarrow> string option \<Rightarrow> evidence_result" where
  "assemble_evidence s reason q =
     (let c = es_corpus s in
      if ec_items c = [] then
        EvidenceAbstain
          (if reason = FATAL_ERROR then ABSTAIN_LLM_FAILURE else if reason = CANCELLED then ABSTAIN_CANCELLED
           else if candidates c = 0 then ABSTAIN_OUT_OF_CORPUS else ABSTAIN_INSUFFICIENT)
      else EvidenceOk (comparison_order (ec_items c))
        \<lparr>cv_paper_count = length (cited_paper_ids (ec_items c)), cv_query = q, cv_examined = length (ec_papers c),
         cv_candidates = candidates c, cv_stopped = stopped_by_reason reason, cv_degraded = ec_degraded c\<rparr>
        (case es_answer s of Some a \<Rightarrow> Some a | None \<Rightarrow> fallback_answer (comparison_order (ec_items c)) False))"

section \<open>The extraction tool\<close>

record extraction_draft =
  xd_items :: "pyval list"
  xd_cost :: "rat option"
  xd_failed :: "string list"

datatype extract_reply =
    ExtractOk extraction_draft
  | ExtractUnavailable string
  | ExtractRaises string

definition tool_failure :: "string \<Rightarrow> string \<Rightarrow> tool_result" where
  "tool_failure summary err =
     \<lparr>tr_ok = False, tr_content = [], tr_summary = summary, tr_cost = None, tr_error = Some err, tr_images = []\<rparr>"

text \<open>The requested papers that are known are examined, in order; the others are named.\<close>

fun examine_all :: "string list \<Rightarrow> ev_corpus \<Rightarrow> paper_handle list \<times> string list \<times> ev_corpus" where
  "examine_all [] c = ([], [], c)"
| "examine_all (p # ps) c =
     (case handle_of c p of
        None \<Rightarrow> (case examine_all ps c of (hs, us, c') \<Rightarrow> (hs, p # us, c'))
      | Some h \<Rightarrow> (case examine_all ps (examine h c) of (hs, us, c') \<Rightarrow> (h # hs, us, c')))"

fun reason_code :: "reject_reason \<Rightarrow> string" where
  "reason_code UNKNOWN_PAPER = ''unknown_paper''"
| "reason_code MALFORMED_REF = ''malformed_ref''"
| "reason_code MISSING_QUOTE = ''missing_quote''"
| "reason_code QUOTE_TOO_SHORT = ''quote_too_short''"
| "reason_code QUOTE_NOT_VERBATIM = ''quote_not_verbatim''"
| "reason_code ANCHOR_MISSING = ''anchor_missing''"
| "reason_code ANCHOR_NOT_FOUND = ''anchor_not_found''"
| "reason_code ANCHOR_TYPE_MISMATCH = ''anchor_type_mismatch''"
| "reason_code QUOTE_OUTSIDE_ANCHOR = ''quote_outside_anchor''"
| "reason_code ANCHOR_ON_ABSTRACT = ''anchor_on_abstract''"
| "reason_code FIGURE_ANCHOR_REQUIRED = ''figure_anchor_required''"
| "reason_code EMPTY_STATEMENT = ''empty_statement''"
| "reason_code NO_SUPPORTING = ''no_supporting''"
| "reason_code NUMBER_NOT_GROUNDED = ''number_not_grounded''"

definition extract_summary :: "nat \<Rightarrow> nat \<Rightarrow> string" where
  "extract_summary accepted rejected =
     py_nat_str accepted @ '' admitted'' @ (if rejected > 0 then '', '' @ py_nat_str rejected @ '' refused'' else [])"

definition extract_content :: "nat \<Rightarrow> gate_outcome \<Rightarrow> nat \<Rightarrow> string list \<Rightarrow> string list \<Rightarrow> (string \<times> pyval) list" where
  "extract_content accepted g n unknown failed =
     [(''accepted'', PInt (int accepted)), (''rejected'', PInt (int (rejected_count (go_rejections g)))), (''totalEvidence'', PInt (int n))] @
     (if rejected_count (go_rejections g) > 0
      then [(''rejectedReasons'', PDict (map (\<lambda>(r, m). (reason_code r, PInt (int m))) (go_rejections g))), (''hint'', PStr ''quote verbatim'')]
      else []) @
     (if unknown \<noteq> [] then [(''unknownPapers'', PSeq (map PStr unknown))] else []) @
     (if failed \<noteq> [] then [(''failedPapers'', PSeq (map PStr failed)), (''retryHint'', PStr ''retry'')] else [])"

definition extract_papers ::
  "(pyval \<Rightarrow> string) \<Rightarrow> (paper_handle list \<Rightarrow> 'w \<Rightarrow> extract_reply \<times> 'w) \<Rightarrow> string list \<Rightarrow> ev_corpus \<Rightarrow> 'w \<Rightarrow>
   (string + tool_result) \<times> ev_corpus \<times> 'w" where
  "extract_papers other port requested c w =
     (case examine_all requested c of (handles, unknown, c1) \<Rightarrow>
      if handles = [] then (Inr (tool_failure ''unknown papers'' (join '', '' unknown)), c1, w)
      else case port handles w of
        (ExtractUnavailable e, w') \<Rightarrow> (Inr (tool_failure ''extraction model unavailable'' e), c1, w')
      | (ExtractRaises e, w') \<Rightarrow> (Inl e, c1, w')
      | (ExtractOk draft, w') \<Rightarrow>
          (case run_gate other (xd_items draft) (foldl (\<lambda>d h. dset (ph_paper_id h) (as_source h) d) [] handles) of
             Inl e \<Rightarrow> (Inl e, c1, w')
           | Inr g \<Rightarrow>
               (case absorb g c1 of (accepted, c2) \<Rightarrow>
                  (Inr \<lparr>tr_ok = True, tr_content = extract_content accepted g (length (ec_items c2)) unknown (xd_failed draft),
                        tr_summary = extract_summary accepted (rejected_count (go_rejections g)), tr_cost = xd_cost draft, tr_error = None, tr_images = []\<rparr>, c2, w'))))"

definition extract_evidence ::
  "(pyval \<Rightarrow> string) \<Rightarrow> (string \<Rightarrow> paper_handle list \<Rightarrow> 'w \<Rightarrow> extract_reply \<times> 'w) \<Rightarrow> 'w tool" where
  "extract_evidence other port args c w =
     (case py_tuple (py_or (pget args ''paper_ids'') (PSeq [])) of
        None \<Rightarrow> (Inl ''TypeError'', c, w)
      | Some ids \<Rightarrow>
          (let requested = filter (\<lambda>p. p \<noteq> []) (map (\<lambda>v. py_strip (py_str other v)) ids)
           in if requested = [] then (Inr (tool_failure ''no papers'' ''paper_ids is required''), c, w)
              else extract_papers other (port (py_str other (py_or (pget args ''focus'') (PStr [])))) (take 10 requested) c w))"

end
