(* ===== verification/Evid_Gate_Facts.thy ===== *)
theory Evid_Gate_Facts imports Evid_Loop begin

text \<open>
  The gate, from both sides: what it admits is quoted from the block it points to and its numerals
  are in the quotes; what is quoted from a block of a paper in hand is admitted. And the case it does
  not absorb: a value of the wrong type raises, and takes the whole extraction with it.
\<close>

section \<open>Number pools\<close>

definition close_to :: "string \<Rightarrow> string \<Rightarrow> bool" where
  "close_to t u \<longleftrightarrow> set (normalize_number t) \<inter> set (normalize_number u) \<noteq> {} \<or>
     \<bar>dec_value (token_value u) - dec_value (token_value t)\<bar> \<le> band t"

definition pool_of :: "string list \<Rightarrow> number_pool" where
  "pool_of ts = add_tokens ts empty_pool"

lemma merge_pools_of [simp]: "merge_pool (pool_of ts) (pool_of us) = pool_of (ts @ us)"
  by (simp add: merge_pool_def pool_of_def add_tokens_def empty_pool_def)

lemma empty_pool_of: "empty_pool = pool_of []"
  by (simp add: pool_of_def add_tokens_def empty_pool_def)

lemma grounds_pool_of: "grounds (pool_of ts) t \<longleftrightarrow> (\<exists>u \<in> set ts. close_to t u)"
  by (auto simp: grounds_def pool_of_def add_tokens_def empty_pool_def close_to_def list_ex_iff)

lemma close_self: "close_to t t"
  by (simp add: close_to_def normalize_number_def Let_def)

definition ref_tokens :: "(string, paper_source) dict \<Rightarrow> evidence_ref \<Rightarrow> string list" where
  "ref_tokens sources r =
     numbers_in (or_empty (sr_quote r)) @
     (if sr_at_scope r = FIGURE then (case dget sources (sr_paper_id r) of None \<Rightarrow> [] | Some s \<Rightarrow> numbers_in (ps_text s)) else [])"

lemma ref_pool_of:
  "or_empty (sr_quote (fst rq)) = snd rq \<Longrightarrow> ref_pool sources rq = pool_of (ref_tokens sources (fst rq))"
  by (simp add: ref_pool_def ref_tokens_def Let_def flip: pool_of_def split: option.split)

lemma grounded_pool_of:
  assumes "\<forall>rq \<in> set refs. or_empty (sr_quote (fst rq)) = snd rq"
  shows "grounded_pool refs sources = pool_of (concat (map (ref_tokens sources \<circ> fst) refs))"
proof -
  have "foldl (\<lambda>p rq. merge_pool p (ref_pool sources rq)) (pool_of ts) refs =
      pool_of (ts @ concat (map (ref_tokens sources \<circ> fst) refs))" for ts
    using assms by (induction refs arbitrary: ts) (simp_all add: ref_pool_of)
  then show ?thesis by (simp add: grounded_pool_def empty_pool_of)
qed

section \<open>What a validated reference promises\<close>

definition quote_backed :: "(string, paper_source) dict \<Rightarrow> evidence_ref \<Rightarrow> bool" where
  "quote_backed sources r \<longleftrightarrow>
     (\<exists>k s. (k, s) \<in> set sources \<and> ps_paper_id s = sr_paper_id r \<and> ps_record_ref s = sr_record_ref r \<and>
        (case sr_at_scope r of
           FULLTEXT \<Rightarrow> ps_scope s \<noteq> ABSTRACT \<and>
             (\<exists>a kind t q. sr_anchor r = Some a \<and> dget (ps_blocks s) a = Some (kind, t) \<and> sr_anchor_type r = Some kind \<and>
                sr_quote r = Some q \<and> MIN_QUOTE_CHARS \<le> length q \<and> contains_str q (ps_text s) \<and>
                contains_str q (normalize_quote t))
         | ABSTRACT \<Rightarrow> sr_anchor r = None \<and>
             (\<exists>q. sr_quote r = Some q \<and> MIN_QUOTE_CHARS \<le> length q \<and> contains_str q (ps_text s))
         | FIGURE \<Rightarrow> (\<exists>a t. sr_anchor r = Some a \<and> dget (ps_blocks s) a = Some (''figure'', t))))"

lemma resolve_in: "resolve_source pid sources = Some s \<Longrightarrow> \<exists>k. (k, s) \<in> set sources"
  by (auto simp: resolve_source_def find_Some_iff dget_def split: if_splits option.splits dest: map_of_SomeD)
    (metis nth_mem)

lemma scope_of_fulltext: "scope_of other d s = FULLTEXT \<Longrightarrow> ps_scope s \<noteq> ABSTRACT"
  by (auto simp: scope_of_def Let_def split: if_splits)

lemma checked_quote:
  "check_quote scope q t s = None \<Longrightarrow> scope \<noteq> FIGURE \<Longrightarrow> q \<noteq> [] \<and> MIN_QUOTE_CHARS \<le> length q \<and> contains_str q (ps_text s) \<and>
     (scope = FULLTEXT \<longrightarrow> contains_str q (normalize_quote t))"
  by (auto simp: check_quote_def split: if_splits)

lemma checked_anchor:
  "check_anchor scope a s = Inr (kind, t) \<Longrightarrow>
     (if scope = ABSTRACT then a = [] \<and> kind = None
      else a \<noteq> [] \<and> (\<exists>k. kind = Some k \<and> dget (ps_blocks s) a = Some (k, t) \<and> (scope = FIGURE \<longrightarrow> k = ''figure'')))"
  by (auto simp: check_anchor_def split: if_splits option.splits)

lemma validated_ref:
  assumes "validate_ref other sources raw c = (Inr (Some (r, q)), c')"
  shows "quote_backed sources r \<and> or_empty (sr_quote r) = q"
proof -
  obtain d where d: "raw = PDict d" using assms by (auto simp: validate_ref_def split: pyval.splits)
  let ?a = "str_field other d ''anchor''"
  obtain s where s: "resolve_source (str_field other d ''paperId'') sources = Some s"
    using assms by (auto simp: validate_ref_def d split: option.splits)
  let ?scope = "scope_of other d s"
  obtain kind t where a: "check_anchor ?scope ?a s = Inr (kind, t)" and c: "check_quote ?scope q t s = None"
    and r: "r = make_ref s ?scope ?a kind q"
    using assms by (auto simp: validate_ref_def d s Let_def split: sum.splits option.splits)
  obtain k where "(k, s) \<in> set sources" using resolve_in [OF s] by blast
  then have "quote_backed sources r"
    using checked_anchor [OF a] checked_quote [OF c] scope_of_fulltext [of other d s]
    by (cases ?scope) (auto simp: quote_backed_def r make_ref_def opt_text_def)
  then show ?thesis by (simp add: r make_ref_def opt_text_def or_empty_def)
qed

lemma validated_refs:
  "validate_refs other sources raws c = (Inr vs, c') \<Longrightarrow> \<forall>rq \<in> set vs. quote_backed sources (fst rq) \<and> or_empty (sr_quote (fst rq)) = snd rq"
proof (induction raws arbitrary: c vs)
  case (Cons raw raws)
  from Cons.prems obtain v c1 vs' where v: "validate_ref other sources raw c = (Inr v, c1)"
    and vs': "validate_refs other sources raws c1 = (Inr vs', c')" and vs: "vs = (case v of Some r \<Rightarrow> r # vs' | None \<Rightarrow> vs')"
    by (auto split: prod.splits sum.splits)
  show ?case using Cons.IH [OF vs'] v by (cases v) (auto simp: vs dest: validated_ref)
qed simp

lemma side_backed:
  "side_refs other sources d side c = (Inr vs, c') \<Longrightarrow> \<forall>rq \<in> set vs. quote_backed sources (fst rq) \<and> or_empty (sr_quote (fst rq)) = snd rq"
  by (auto simp: side_refs_def split: option.splits dest: validated_refs)

definition item_backed :: "(string, paper_source) dict \<Rightarrow> evidence_item \<Rightarrow> bool" where
  "item_backed sources it \<longleftrightarrow>
     ei_statement it \<noteq> [] \<and> ei_supporting it \<noteq> [] \<and> (\<forall>r \<in> set (iter_refs it). quote_backed sources r) \<and>
     (\<forall>t \<in> set (numbers_in (ei_statement it)). \<exists>r \<in> set (ei_supporting it). \<exists>u \<in> set (ref_tokens sources r). close_to t u)"

lemma gate_item_backed:
  assumes "gate_item other sources raw c = (Inr (Some it), c')"
  shows "item_backed sources it"
proof -
  obtain d where d: "raw = PDict d" using assms by (auto simp: gate_item_def split: pyval.splits)
  obtain st ss c1 cs where st: "st \<noteq> []" and ss: "side_refs other sources d ''supporting'' c = (Inr ss, c1)" "ss \<noteq> []"
    and cs: "side_refs other sources d ''conflicting'' c1 = (Inr cs, c')"
    and num: "list_all (grounds (grounded_pool ss sources)) (numbers_in st)"
    and it: "it = \<lparr>ei_statement = st, ei_supporting = map fst ss, ei_conflicting = map fst cs\<rparr>"
    using assms by (auto simp: gate_item_def d split: sum.splits prod.splits if_splits)
  have "\<forall>t \<in> set (numbers_in st). \<exists>u \<in> set (concat (map (ref_tokens sources \<circ> fst) ss)). close_to t u"
    using num side_backed [OF ss(1)] grounded_pool_of [of ss sources]
    by (simp add: list_all_iff grounds_pool_of)
  then show ?thesis
    using st ss(2) side_backed [OF ss(1)] side_backed [OF cs]
    by (auto simp: item_backed_def it iter_refs_def)
qed

lemma gate_loop_backed:
  "gate_loop other sources raws o1 = Inr g \<Longrightarrow> \<forall>it \<in> set (go_items o1). item_backed sources it \<Longrightarrow>
   it \<in> set (go_items g) \<Longrightarrow> item_backed sources it"
proof (induction raws arbitrary: o1)
  case (Cons raw raws)
  from Cons.prems(1) obtain i c where i: "gate_item other sources raw (go_rejections o1) = (Inr i, c)"
    and l: "gate_loop other sources raws \<lparr>go_items = go_items o1 @ (case i of Some it \<Rightarrow> [it] | None \<Rightarrow> []), go_rejections = c\<rparr> = Inr g"
    by (auto split: prod.splits sum.splits)
  show ?case
    using Cons.IH [OF l] Cons.prems(2,3) i by (cases i) (auto dest: gate_item_backed)
qed simp

text \<open>
  C6. Whatever the extraction model proposes, an item the gate admits has a statement and a
  supporting source, and each of its sources is backed by a paper in hand: full text by a quote of at
  least twenty characters found in the paper and in the very block its anchor names, an abstract by a
  quote found in it and no anchor, a figure by the id of a figure block; full text is never claimed
  of a paper known by its abstract. Every numeral of the statement is close (equal up to notation,
  or to rounding) to one of a supporting quote, or of the paper's text for a figure.
\<close>

theorem gate_admits_backed_only:
  assumes "run_gate other raws sources = Inr g" and "it \<in> set (go_items g)"
  shows "item_backed sources it"
  using gate_loop_backed [of other sources raws _ g it] assms by (simp add: run_gate_def)

section \<open>What is quoted is admitted\<close>

lemma collapse_append_char:
  "\<not> py_isspace c \<Longrightarrow> collapse_ws (x @ c # y) = collapse_ws x @ c # collapse_ws y"
proof (induction x rule: collapse_ws.induct)
  case (2 b s)
  have "dropWhile py_isspace (s @ c # y) = dropWhile py_isspace s @ c # y"
    using 2(3) by (induction s) auto
  then show ?case using 2 by simp
qed simp

definition solid :: "string \<Rightarrow> bool" where
  "solid t \<longleftrightarrow> t \<noteq> [] \<and> \<not> py_isspace (hd t) \<and> \<not> py_isspace (last t)"

lemma collapse_solid:
  assumes "solid t" shows "collapse_ws (a @ t @ b) = collapse_ws a @ collapse_ws t @ collapse_ws b"
proof -
  obtain c t1 where t: "t = c # t1" using assms by (cases t) (auto simp: solid_def)
  obtain t2 d where t': "t = t2 @ [d]" using assms by (cases t rule: rev_cases) (auto simp: solid_def)
  have "collapse_ws (t @ b) = collapse_ws t @ collapse_ws b"
    using assms collapse_append_char [of d t2 b] collapse_append_char [of d t2 "[]"] by (simp add: t' solid_def)
  moreover have "collapse_ws (a @ t @ b) = collapse_ws a @ collapse_ws (t @ b)"
    using assms by (simp add: t solid_def collapse_append_char)
  ultimately show ?thesis by simp
qed

lemma solid_collapse: "solid t \<Longrightarrow> solid (collapse_ws t)"
proof -
  assume s: "solid t"
  obtain c t1 where t: "t = c # t1" using s by (cases t) (auto simp: solid_def)
  obtain t2 d where t': "t = t2 @ [d]" using s by (cases t rule: rev_cases) (auto simp: solid_def)
  have "last (collapse_ws t) = d" using s collapse_append_char [of d t2 "[]"] by (simp add: t' solid_def)
  then show ?thesis using s by (simp add: t solid_def) (metis t t' last_snoc s solid_def)
qed

lemma strip_solid: "solid t \<Longrightarrow> \<exists>a' b'. py_strip (a @ t @ b) = a' @ t @ b'"
proof -
  assume s: "solid t"
  have l: "lstrip_by py_isspace (a @ t @ b) = lstrip_by py_isspace a @ t @ b"
    using s by (cases t) (auto simp: lstrip_by_def solid_def dropWhile_append)
  obtain t2 d where t': "t = t2 @ [d]" using s by (cases t rule: rev_cases) (auto simp: solid_def)
  have "rstrip_by py_isspace (x @ t @ b) = x @ t @ rstrip_by py_isspace b" for x
    using s by (auto simp: rstrip_by_def t' solid_def dropWhile_append)
  then show ?thesis using l by (auto simp: py_strip_def)
qed

lemma normalize_infix:
  assumes "solid t" shows "contains_str (normalize_quote t) (normalize_quote (a @ t @ b))"
proof -
  have "\<exists>a' b'. normalize_quote (a @ t @ b) = a' @ collapse_ws t @ b'"
    using strip_solid [OF solid_collapse [OF assms]] by (simp add: normalize_quote_def collapse_solid [OF assms])
  moreover have "normalize_quote t = collapse_ws t"
    using solid_collapse [OF assms] by (simp add: normalize_quote_def py_strip_id solid_def)
  ultimately show ?thesis by (auto simp: contains_str_iff)
qed

lemma normalize_solid: "normalize_quote t \<noteq> [] \<Longrightarrow> solid (normalize_quote t)"
  by (simp add: normalize_quote_def solid_def py_strip_hd py_strip_last)

lemma join_snoc_simps: "join sep [] = []" "join sep [x] = x"
  by (simp_all add: join_def)

lemma join_Cons: "xs \<noteq> [] \<Longrightarrow> join sep (x # xs) = x @ sep @ join sep xs"
  by (cases xs) (simp_all add: join_def)

lemma join_split: "t \<in> set xs \<Longrightarrow> \<exists>a b. join sep xs = a @ t @ b"
proof (induction xs)
  case (Cons x xs)
  show ?case
  proof (cases "xs = []")
    case False
    then show ?thesis using Cons by (auto simp: join_Cons) (metis append.assoc append_Nil)+
  qed (use Cons in \<open>auto simp: join_snoc_simps intro: exI [of _ "[]"]\<close>)
qed simp

lemma solid_join:
  assumes "xs \<noteq> []" and "\<forall>x \<in> set xs. solid x" shows "solid (join sep xs)"
  using assms
proof (induction xs)
  case (Cons x xs)
  then show ?case by (cases "xs = []") (auto simp: join_snoc_simps join_Cons solid_def)
qed simp

lemma block_projection_solid: "block_projection b \<noteq> [] \<Longrightarrow> solid (block_projection b)"
proof (cases b)
  case (TableB i lab caption rows)
  assume "block_projection b \<noteq> []"
  then show ?thesis
    unfolding TableB block_projection.simps
    by (intro solid_join) (auto simp: join_snoc_simps intro: normalize_solid)
next
  case (ListB i items)
  assume "block_projection b \<noteq> []"
  then show ?thesis
    unfolding ListB block_projection.simps
    by (intro solid_join) (auto simp: join_snoc_simps intro: normalize_solid)
qed (auto intro: normalize_solid)

lemma section_blocks_parts: "(i, k, t) \<in> set (section_blocks s) \<Longrightarrow> t \<in> set (section_parts s) \<and> solid t"
proof (induction s rule: section_blocks.induct)
  case (1 i0 title bs ss)
  then show ?case by (auto simp: block_entry_def split: if_splits intro: block_projection_solid)
qed

lemma block_in_paper:
  assumes "(i, k, t) \<in> set (iter_blocks dm)"
  shows "contains_str (normalize_quote t) (normalize_quote (paper_projection dm))"
proof -
  have t: "t \<in> set (concat (map section_parts (dm_sections dm))) \<and> solid t"
    using assms section_blocks_parts by (fastforce simp: iter_blocks_def)
  then obtain a b where "paper_projection dm = a @ t @ b" using join_split unfolding paper_projection_def by blast
  then show ?thesis using t normalize_infix by simp
qed

lemma contains_trans: "contains_str a b \<Longrightarrow> contains_str b c \<Longrightarrow> contains_str a c"
  by (auto simp: contains_str_iff) (metis append.assoc)

lemma dget_foldl_blocks:
  "distinct (map fst es) \<Longrightarrow> (i, k, t) \<in> set es \<Longrightarrow> dget (foldl (\<lambda>d (i, k, t). dset i (k, t) d) d0 es) i = Some (k, t)"
proof (induction es rule: rev_induct)
  case (snoc e es)
  then show ?case by (cases e) (auto simp: dget_dset rev_image_eqI split: if_splits)
qed simp

lemma verbatim_admitted:
  assumes "ph_doc_model h = Some dm" and "(bid, kind, t) \<in> set (iter_blocks dm)" and "distinct (map fst (iter_blocks dm))"
    and "contains_str q (normalize_quote t)" and "normalize_quote q = q" and "MIN_QUOTE_CHARS \<le> length q"
    and "ph_paper_id h \<noteq> []" and "py_strip (ph_paper_id h) = ph_paper_id h" and "bid \<noteq> []" and "py_strip bid = bid"
    and "normalize_quote st \<noteq> []" and "set (numbers_in (normalize_quote st)) \<subseteq> set (numbers_in q)"
  shows "run_gate other
      [PDict [(''statement'', PStr st),
              (''supporting'', PSeq [PDict [(''paperId'', PStr (ph_paper_id h)), (''anchor'', PStr bid), (''quote'', PStr q)]])]]
      [(ph_paper_id h, as_source h)] =
    Inr \<lparr>go_items = [\<lparr>ei_statement = normalize_quote st,
                      ei_supporting = [make_ref (as_source h) FULLTEXT bid (Some kind) q], ei_conflicting = []\<rparr>],
         go_rejections = []\<rparr>"
proof -
  let ?s = "as_source h" and ?src = "[(ph_paper_id h, as_source h)]"
  let ?d = "[(''paperId'', PStr (ph_paper_id h)), (''anchor'', PStr bid), (''quote'', PStr q)]"
  have q: "q \<noteq> []" "length q \<ge> 20" using assms(6) by (auto simp: MIN_QUOTE_CHARS_def)
  have s: "ps_scope ?s = FULLTEXT" "ps_text ?s = normalize_quote (paper_projection dm)"
      "dget (ps_blocks ?s) bid = Some (kind, t)"
    using dget_foldl_blocks [OF assms(3,2)] by (simp_all add: as_source_def assms(1))
  have "contains_str q (ps_text ?s)" using contains_trans [OF assms(4) block_in_paper [OF assms(2)]] by (simp add: s)
  then have cq: "check_quote FULLTEXT q t ?s = None" using assms(4,6) q by (simp add: check_quote_def)
  have ca: "check_anchor FULLTEXT bid ?s = Inr (Some kind, t)" using assms(9) by (simp add: check_anchor_def s)
  have f: "str_field other ?d ''paperId'' = ph_paper_id h" "str_field other ?d ''anchor'' = bid"
      "str_field other ?d ''sourceScope'' = []" "pget ?d ''quote'' = PStr q"
    using assms(7-10) by (simp_all add: str_field_def pget_def dict_simps py_or_def py_str_def py_strip_def lstrip_by_def rstrip_by_def)
  have "validate_ref other ?src (PDict ?d) c = (Inr (Some (make_ref ?s FULLTEXT bid (Some kind) q, q)), c)" for c
    using assms(5,7) q by (simp add: validate_ref_def f resolve_source_def scope_of_def s ca cq normalize_value_def dict_simps)
  then have sides: "side_refs other ?src
      [(''statement'', PStr st), (''supporting'', PSeq [PDict ?d])] ''supporting'' c =
      (Inr [(make_ref ?s FULLTEXT bid (Some kind) q, q)], c)"
      "side_refs other ?src [(''statement'', PStr st), (''supporting'', PSeq [PDict ?d])] ''conflicting'' c = (Inr [], c)" for c
    by (simp_all add: side_refs_def pget_def dict_simps py_or_def)
  have "grounded_pool [(make_ref ?s FULLTEXT bid (Some kind) q, q)] ?src = pool_of (numbers_in q)"
    using q by (subst grounded_pool_of) (auto simp: make_ref_def opt_text_def or_empty_def ref_tokens_def)
  then have "list_all (grounds (grounded_pool [(make_ref ?s FULLTEXT bid (Some kind) q, q)] ?src)) (numbers_in (normalize_quote st))"
    using assms(12) by (auto simp: list_all_iff grounds_pool_of intro: close_self)
  moreover have "st \<noteq> []" using assms(11) by (auto simp: normalize_quote_def py_strip_def lstrip_by_def rstrip_by_def)
  ultimately show ?thesis
    using assms(11) by (simp add: run_gate_def gate_item_def sides pget_def [of _ "''statement''"] dict_simps normalize_value_def)
qed

text \<open>
  What a model copies from the prompt passes: a white-space-normal quote of at least twenty
  characters from the projection of an anchored block of a paper held in full text supports a
  statement whose numerals occur in it, and the item is admitted as proposed, with nothing rejected.
  The projection the prompt shows and the one the gate compares are the same function, and the text
  of every block occurs in the text of the paper after normalization.
\<close>

theorem gate_accepts_verbatim:
  assumes "ph_doc_model h = Some dm" and "(bid, kind, t) \<in> set (iter_blocks dm)" and "distinct (map fst (iter_blocks dm))"
    and "contains_str q (normalize_quote t)" and "normalize_quote q = q" and "MIN_QUOTE_CHARS \<le> length q"
    and "ph_paper_id h \<noteq> []" and "py_strip (ph_paper_id h) = ph_paper_id h" and "bid \<noteq> []" and "py_strip bid = bid"
    and "normalize_quote st \<noteq> []" and "set (numbers_in (normalize_quote st)) \<subseteq> set (numbers_in q)"
  shows "run_gate other
      [PDict [(''statement'', PStr st),
              (''supporting'', PSeq [PDict [(''paperId'', PStr (ph_paper_id h)), (''anchor'', PStr bid), (''quote'', PStr q)]])]]
      [(ph_paper_id h, as_source h)] =
    Inr \<lparr>go_items = [\<lparr>ei_statement = normalize_quote st,
                      ei_supporting = [make_ref (as_source h) FULLTEXT bid (Some kind) q], ei_conflicting = []\<rparr>],
         go_rejections = []\<rparr>"
  by (rule verbatim_admitted [OF assms])

section \<open>What the gate does not absorb\<close>

lemma gate_loop_type_error:
  assumes "PDict d \<in> set raws" and "py_truthy (pget d ''statement'')" and "\<forall>s. pget d ''statement'' \<noteq> PStr s"
  shows "\<exists>e. gate_loop other sources raws o1 = Inl e"
  using assms(1)
proof (induction raws arbitrary: o1)
  case (Cons raw raws)
  have "\<exists>e c'. gate_item other sources (PDict d) c = (Inl e, c')" for c
    using assms(2,3) by (simp add: gate_item_def normalize_value_def split: pyval.split)
  then obtain e c' where e: "gate_item other sources (PDict d) (go_rejections o1) = (Inl e, c')" by blast
  show ?case
  proof (cases "raw = PDict d")
    case False
    then show ?thesis using Cons by (auto split: prod.split sum.split)
  qed (simp add: e)
qed simp

lemma examined_items: "examine_all ps c = (hs, us, c') \<Longrightarrow> ec_items c' = ec_items c"
  by (induction ps arbitrary: c hs us) (fastforce simp: examine_def split: option.splits prod.splits)+

lemma extraction_fails:
  assumes "PDict bad \<in> set (xd_items draft)" and "py_truthy (pget bad ''statement'')" and "\<forall>s. pget bad ''statement'' \<noteq> PStr s"
    and "\<forall>f hs. fst (port f hs w) = ExtractOk draft"
  shows "case extract_evidence other port args c w of
    (Inl e, c', w') \<Rightarrow> ec_items c' = ec_items c
  | (Inr t, c', w') \<Rightarrow> ec_items c' = ec_items c \<and> \<not> tr_ok t \<and> tr_cost t = None"
proof -
  have gate: "\<exists>e. run_gate other (xd_items draft) src = Inl e" for src
    unfolding run_gate_def by (rule gate_loop_type_error [OF assms(1-3)])
  have port: "\<exists>w'. port f hs w = (ExtractOk draft, w')" for f hs
    using assms(4) by (metis fst_conv surj_pair)
  show ?thesis
  proof (cases "py_tuple (py_or (pget args ''paper_ids'') (PSeq []))")
    case (Some ids)
    let ?req = "filter (\<lambda>p. p \<noteq> []) (map (\<lambda>v. py_strip (py_str other v)) ids)"
    obtain hs us c1 where ex: "examine_all (take 10 ?req) c = (hs, us, c1)" by (metis prod_cases3)
    obtain w' where "port (py_str other (py_or (pget args ''focus'') (PStr []))) hs w = (ExtractOk draft, w')" using port by blast
    moreover obtain e where "run_gate other (xd_items draft) (foldl (\<lambda>d h. dset (ph_paper_id h) (as_source h) d) [] hs) = Inl e"
      using gate by blast
    ultimately show ?thesis
      using examined_items [OF ex] by (simp add: extract_evidence_def Some extract_papers_def ex tool_failure_def Let_def)
  qed (simp add: extract_evidence_def)
qed

text \<open>
  One item whose statement is not a text (a number, a list, an object) makes the gate raise
  instead of rejecting the item, and the loop turns the whole call into an error: no evidence of the
  call is kept, not that of its other items either, and the price the extraction model reported for
  it, the largest of a turn, never reaches the budget.
\<close>

theorem malformed_item_costs_the_call:
  assumes "lr_proposal r = Some (ToolCall ''extract_evidence'' args nt)"
    and "dget (ld_tools d) ''extract_evidence'' = Some (extract_evidence other port)"
    and "can_call (lr_budget r) ''extract_evidence''"
    and "\<forall>f hs. fst (port f hs (lr_world r)) = ExtractOk draft"
    and "PDict bad \<in> set (xd_items draft)" and "py_truthy (pget bad ''statement'')"
    and "\<forall>s. pget bad ''statement'' \<noteq> PStr s"
  shows "\<exists>r'. act_node d r = Inr r' \<and> es_items (lr_state r') = es_items (lr_state r) \<and>
    bc_cost (lb_consumed (lr_budget r')) = bc_cost (lb_consumed (lr_budget r)) \<and>
    cr_outcome (last (es_trace (lr_state r'))) = CALL_ERROR \<and> cr_cost (last (es_trace (lr_state r'))) = None"
proof -
  obtain b where b: "check_and_consume_tool_call (lr_budget r) ''extract_evidence'' = (None, b)"
    using assms(3) unfolding can_call_def by (metis prod.collapse)
  then have cost: "bc_cost (lb_consumed b) = bc_cost (lb_consumed (lr_budget r))"
    by (auto simp: check_and_consume_tool_call_def Let_def split: if_splits)
  have keep: "es_corpus (add_note t s) = es_corpus s" for t s by (simp add: add_note_def)
  obtain res c w where res: "extract_evidence other port args (es_corpus (lr_state r)) (lr_world r) = (res, c, w)"
    by (metis prod_cases3)
  have "case res of Inl e \<Rightarrow> ec_items c = es_items (lr_state r)
      | Inr t \<Rightarrow> ec_items c = es_items (lr_state r) \<and> \<not> tr_ok t \<and> tr_cost t = None"
    using extraction_fails [where bad = bad and draft = draft and port = port and w = "lr_world r" and other = other
        and args = args and c = "es_corpus (lr_state r)"] assms(4-7) res
    by (auto split: sum.splits)
  then show ?thesis
    using res cost
    by (auto simp: act_node_def assms(1,2) b keep record_cost_def failed_result_def outcome_of_def push_result_def
        drop_images_def record_call_def Let_def split: sum.splits option.split)
qed

section \<open>A paper in hand\<close>

definition demo_sentence :: string where
  "demo_sentence = ''The method reaches 95.3% on the test set.''"

definition gate_doc :: doc_model where
  "gate_doc = \<lparr>dm_paper = ''2310.11511'', dm_version = 1,
     dm_sections = [Section ''s1'' (Some ''Results'') [ParagraphB ''b1'' demo_sentence] []], dm_full_text = []\<rparr>"

definition demo_handle :: paper_handle where
  "demo_handle = \<lparr>ph_paper_id = ''2310.11511'', ph_record_ref = ''rec'', ph_title = ''A paper'', ph_doc_model = Some gate_doc,
     ph_abstract = [], ph_fulltext_available = False\<rparr>"

definition gate_item_raw :: pyval where
  "gate_item_raw = PDict [(''statement'', PStr ''It reaches 95.3%''),
     (''supporting'', PSeq [PDict [(''paperId'', PStr ''2310.11511''), (''anchor'', PStr ''b1''), (''quote'', PStr demo_sentence)]])]"

lemma demo_block: "iter_blocks gate_doc = [(''b1'', ''paragraph'', demo_sentence)]"
  "normalize_quote demo_sentence = demo_sentence" "normalize_quote ''It reaches 95.3%'' = ''It reaches 95.3%''"
  "numbers_in ''It reaches 95.3%'' = [''95.3%'']" "numbers_in demo_sentence = [''95.3%'']"
  by code_simp+

lemma demo_handle_fields: "ph_doc_model demo_handle = Some gate_doc" "ph_paper_id demo_handle = ''2310.11511''"
  by (simp_all add: demo_handle_def)

lemma demo_fits:
  "contains_str demo_sentence demo_sentence" "MIN_QUOTE_CHARS \<le> length demo_sentence"
  "py_strip ''2310.11511'' = ''2310.11511''" "py_strip ''b1'' = ''b1''"
  by (simp_all add: contains_str_iff MIN_QUOTE_CHARS_def demo_sentence_def py_strip_def lstrip_by_def rstrip_by_def py_isspace_def
      exI [of _ "[]"])

lemma demo_admitted:
  "run_gate (\<lambda>_. []) [gate_item_raw] [(''2310.11511'', as_source demo_handle)] =
     Inr \<lparr>go_items = [\<lparr>ei_statement = ''It reaches 95.3%'',
       ei_supporting = [make_ref (as_source demo_handle) FULLTEXT ''b1'' (Some ''paragraph'') demo_sentence], ei_conflicting = []\<rparr>],
       go_rejections = []\<rparr>"
  using verbatim_admitted [of demo_handle gate_doc "''b1''" "''paragraph''" demo_sentence demo_sentence "''It reaches 95.3%''" "\<lambda>_. []"]
  by (simp add: demo_handle_fields demo_block demo_fits gate_item_raw_def)

theorem gate_accepts_verbatim_witness:
  "\<exists>it. run_gate (\<lambda>_. []) [gate_item_raw] [(''2310.11511'', as_source demo_handle)] = Inr \<lparr>go_items = [it], go_rejections = []\<rparr>"
  using gate_accepts_verbatim [of demo_handle gate_doc "''b1''" "''paragraph''" demo_sentence demo_sentence "''It reaches 95.3%''" "\<lambda>_. []"]
  by (simp add: demo_handle_fields demo_block demo_fits gate_item_raw_def)

theorem gate_admits_backed_only_witness:
  "\<exists>it. run_gate (\<lambda>_. []) [gate_item_raw] [(''2310.11511'', as_source demo_handle)] = Inr \<lparr>go_items = [it], go_rejections = []\<rparr> \<and>
     item_backed [(''2310.11511'', as_source demo_handle)] it"
  using gate_admits_backed_only [OF demo_admitted] by (simp add: demo_admitted)

definition demo_budget :: loop_budget where
  "demo_budget = \<lparr>lb_max_iterations = 12, lb_max_calls_total = 30, lb_max_calls = [(''extract_evidence'', 8)], lb_cost_limit = 3 / 2,
     lb_consumed = \<lparr>bc_iterations = 1, bc_calls_total = 0, bc_calls = [], bc_cost = 0\<rparr>\<rparr>"

definition demo_turn :: ev_state where
  "demo_turn = \<lparr>es_topic = ''t'',
     es_corpus = \<lparr>ec_discovered = [(''2310.11511'', demo_handle)], ec_papers = [], ec_items = [], ec_rejections = [],
                  ec_candidates_seen = [], ec_degraded = False\<rparr>,
     es_trace = [], es_recent = [], es_reason = None, es_notes = [], es_kind = None, es_answer = None\<rparr>"

definition spoiled_draft :: extraction_draft where
  "spoiled_draft = \<lparr>xd_items = [gate_item_raw, PDict [(''statement'', PInt 5)]], xd_cost = Some (1 / 4), xd_failed = []\<rparr>"

definition demo_run :: "unit loop_run" where
  "demo_run = (initial_run demo_turn demo_budget ())\<lparr>lr_proposal :=
     Some (ToolCall ''extract_evidence'' [(''paper_ids'', PSeq [PStr ''2310.11511''])] None)\<rparr>"

definition spoiled_deps :: "unit loop_deps" where
  "spoiled_deps = \<lparr>ld_llm = (\<lambda>_ w. (Unavailable [], w)),
     ld_tools = [(''extract_evidence'', extract_evidence (\<lambda>_. []) (\<lambda>_ _ w. (ExtractOk spoiled_draft, w)))],
     ld_answer = None, ld_should_stop = None, ld_str = (\<lambda>_. [])\<rparr>"

theorem malformed_item_costs_the_call_witness:
  "\<exists>r'. act_node spoiled_deps demo_run = Inr r' \<and> es_items (lr_state r') = [] \<and> bc_cost (lb_consumed (lr_budget r')) = 0"
proof -
  have "can_call (lr_budget demo_run) ''extract_evidence''"
    by (simp add: can_call_def check_and_consume_tool_call_def demo_run_def initial_run_def demo_budget_def used_calls_def
        is_cost_exhausted_def dict_simps)
  then show ?thesis
    using malformed_item_costs_the_call [of demo_run _ _ spoiled_deps "\<lambda>_. []" "\<lambda>_ _ w. (ExtractOk spoiled_draft, w)" spoiled_draft "[(''statement'', PInt 5)]"]
    by (simp add: demo_run_def spoiled_deps_def initial_run_def dict_simps spoiled_draft_def pget_def demo_turn_def demo_budget_def)
      blast
qed

end
