(* ===== verification/Evid_Loop_Facts.thy ===== *)
theory Evid_Loop_Facts imports Evid_Gate_Facts begin

text \<open>
  What holds of every turn of the evidence agent: it finishes within the graph's recursion limit, it
  stays within its three budgets and its trace accounts for every call, it ends as sufficient only
  with evidence and a counter probe, and what it shows was checked by machine or carries no
  citation.
\<close>

section \<open>Checked answers\<close>

definition claim_tokens :: "evidence_item \<Rightarrow> string list" where
  "claim_tokens it = numbers_in (ei_statement it) @ concat (map (numbers_in \<circ> or_empty \<circ> sr_quote) (iter_refs it))"

lemma add_tokens_pool: "add_tokens us (pool_of ts) = pool_of (ts @ us)"
  by (simp add: add_tokens_def pool_of_def empty_pool_def)

lemma numbers_Nil [simp]: "numbers_in [] = []"
  by (simp add: numbers_in_def)

lemma claim_pool_of: "claim_pool it = pool_of (claim_tokens it)"
proof -
  have "foldl (\<lambda>p r. case sr_quote r of Some q \<Rightarrow> add_tokens (numbers_in q) p | None \<Rightarrow> p) (pool_of ts) rs =
      pool_of (ts @ concat (map (numbers_in \<circ> or_empty \<circ> sr_quote) rs))" for ts rs
    by (induction rs arbitrary: ts) (auto simp: add_tokens_pool or_empty_def split: option.split)
  then show ?thesis by (simp add: claim_pool_def claim_tokens_def flip: pool_of_def)
qed

lemma merge_pools_concat: "merge_pools (map (\<lambda>x. pool_of (f x)) xs) = pool_of (concat (map f xs))"
proof -
  have "foldl merge_pool (pool_of ts) (map (\<lambda>x. pool_of (f x)) xs) = pool_of (ts @ concat (map f xs))" for ts
    by (induction xs arbitrary: ts) simp_all
  then show ?thesis by (simp add: merge_pools_def empty_pool_of)
qed

definition segment_backed :: "evidence_item list \<Rightarrow> answer_segment \<Rightarrow> bool" where
  "segment_backed claims g \<longleftrightarrow>
     (sg_kind g = CITED \<longleftrightarrow> sg_refs g \<noteq> []) \<and> distinct (sg_refs g) \<and>
     (\<forall>n \<in> set (sg_refs g). 1 \<le> n \<and> n \<le> int (length claims)) \<and>
     (sg_refs g \<noteq> [] \<longrightarrow>
        (\<forall>t \<in> set (numbers_in (without_paper_ids (sg_text g))).
           \<exists>n \<in> set (sg_refs g). \<exists>u \<in> set (claim_tokens (claims ! nat (n - 1))). close_to t u)) \<and>
     (\<forall>i \<in> set (paper_ids_in (sg_text g)).
        id_key i \<in> set (known_papers claims) \<or> (\<exists>c \<in> set claims. \<exists>u \<in> set (claim_tokens c). close_to i u))"

lemma set_first_once [simp]: "set (first_once xs) = set xs" "distinct (first_once xs)"
  by (simp_all add: first_once_def)

lemma sentence_backed:
  assumes "stray_ids claims (as_sentence s) = []" and "check_sentence claims s = (g, d)"
  shows "segment_backed claims g \<and> sg_text g = as_sentence s"
proof -
  let ?refs = "first_once (as_refs s)"
  have refs: "sg_refs g \<noteq> [] \<Longrightarrow> sg_refs g = ?refs \<and> refs_hold claims (as_sentence s) ?refs"
    and g: "sg_text g = as_sentence s" "sg_kind g = CITED \<longleftrightarrow> sg_refs g \<noteq> []" "sg_refs g = [] \<or> sg_refs g = ?refs"
    using assms(2) by (auto simp: check_sentence_def Let_def split: if_splits)
  have "\<forall>i \<in> set (paper_ids_in (as_sentence s)). id_key i \<in> set (known_papers claims) \<or>
      (\<exists>c \<in> set claims. \<exists>u \<in> set (claim_tokens c). close_to i u)"
    using assms(1) merge_pools_concat [of claim_tokens claims]
    by (auto simp: stray_ids_def filter_empty_conv claim_pool_of [abs_def] grounds_pool_of)
  moreover have "refs_hold claims (as_sentence s) ?refs \<Longrightarrow>
      (\<forall>n \<in> set ?refs. 1 \<le> n \<and> n \<le> int (length claims)) \<and>
      (\<forall>t \<in> set (numbers_in (without_paper_ids (as_sentence s))).
         \<exists>n \<in> set ?refs. \<exists>u \<in> set (claim_tokens (claims ! nat (n - 1))). close_to t u)"
    using merge_pools_concat [of "\<lambda>n. claim_tokens (claims ! nat (n - 1))" ?refs]
    by (simp add: refs_hold_def list_all_iff claim_pool_of grounds_pool_of)
  ultimately show ?thesis using refs g by (cases "sg_refs g = []") (simp_all add: segment_backed_def)
qed

lemma sentences_backed:
  "check_sentences claims ss = Inr (gs, n) \<Longrightarrow> list_all (segment_backed claims) gs \<and> map sg_text gs = map as_sentence ss"
  by (induction ss arbitrary: gs n) (fastforce split: if_splits sum.splits prod.splits dest: sentence_backed)+

definition answer_backed :: "evidence_item list \<Rightarrow> evidence_answer \<Rightarrow> bool" where
  "answer_backed claims a \<longleftrightarrow>
     list_all (segment_backed claims) (ea_segments a) \<and> \<not> ea_fallback a \<and>
     (let cited = length (filter (\<lambda>g. sg_kind g = CITED) (ea_segments a))
      in 0 < cited \<and> length (ea_segments a) \<le> 2 * cited)"

lemma checked_backed:
  assumes "check_answer claims regen ss = Inr a"
  shows "answer_backed claims a \<and> map sg_text (ea_segments a) = map as_sentence ss"
proof -
  obtain gs n where gs: "check_sentences claims ss = Inr (gs, n)" using assms
    by (auto simp: check_answer_def split: sum.splits)
  let ?cited = "filter (\<lambda>g. sg_kind g = CITED) gs"
  have c: "?cited \<noteq> []" "\<not> (of_nat (length gs - length ?cited) / of_nat (length gs) :: rat) > 1 / 2"
    and a: "ea_segments a = gs" "\<not> ea_fallback a"
    using assms by (auto simp: check_answer_def gs Let_def SYNTHESIS_RATIO_LIMIT_def split: if_splits)
  have le: "length ?cited \<le> length gs" by simp
  have pos: "0 < length gs" using c(1) by auto
  have "(of_nat (length gs - length ?cited) :: rat) * 2 \<le> of_nat (length gs)"
    using c(2) pos by (simp add: field_simps not_less)
  then have "(length gs - length ?cited) * 2 \<le> length gs"
    by (metis (no_types) of_nat_le_iff of_nat_mult of_nat_numeral)
  then show ?thesis using c(1) sentences_backed [OF gs] le by (auto simp: answer_backed_def a Let_def)
qed

text \<open>
  C30. An answer that passes the checks has the model's sentences in their order; at least one of them
  and at least half carry citations; a cited sentence cites claims that exist, and every numeral in
  it is close to one of the claims it cites; and every paper id in running text is that of a cited
  paper, or reads as a number some claim contains.
\<close>

theorem checked_answer_sound:
  assumes "check_answer claims regen ss = Inr a"
  shows "answer_backed claims a \<and> map sg_text (ea_segments a) = map as_sentence ss"
  by (rule checked_backed [OF assms])

section \<open>Termination\<close>

abbreviation iterations :: "loop_budget \<Rightarrow> int" where
  "iterations b \<equiv> bc_iterations (lb_consumed b)"

abbreviation spent_usd :: "loop_budget \<Rightarrow> rat" where
  "spent_usd b \<equiv> bc_cost (lb_consumed b)"

named_theorems loop_frame

lemma frame_state [loop_frame]:
  "es_corpus (add_note t s) = es_corpus s" "es_trace (add_note t s) = es_trace s" "es_kind (add_note t s) = es_kind s"
  "es_answer (add_note t s) = es_answer s"
  "es_corpus (record_call a b c e f g s) = es_corpus s" "es_kind (record_call a b c e f g s) = es_kind s"
  "es_answer (record_call a b c e f g s) = es_answer s"
  "es_corpus (push_result a b t' s) = es_corpus s" "es_trace (push_result a b t' s) = es_trace s"
  "es_kind (push_result a b t' s) = es_kind s" "es_answer (push_result a b t' s) = es_answer s"
  "es_corpus (drop_images s) = es_corpus s" "es_trace (drop_images s) = es_trace s" "es_kind (drop_images s) = es_kind s"
  "es_answer (drop_images s) = es_answer s"
  by (simp_all add: add_note_def record_call_def push_result_def drop_images_def Let_def)

lemma frame_end [loop_frame]:
  "lr_budget (end_run x dt r) = lr_budget r" "lr_outcome (end_run x dt r) \<noteq> None"
  "es_corpus (lr_state (end_run x dt r)) = es_corpus (lr_state r)" "es_trace (lr_state (end_run x dt r)) = es_trace (lr_state r)"
  "es_kind (lr_state (end_run x dt r)) = es_kind (lr_state r)" "es_answer (lr_state (end_run x dt r)) = es_answer (lr_state r)"
  "lr_snapshot (end_run x dt r) = lr_state (end_run x dt r)"
  by (simp_all add: end_run_def finish_def Let_def)

text \<open>What each rule of the budget changes.\<close>

definition budget_frame :: "loop_budget \<Rightarrow> loop_budget \<Rightarrow> bool" where
  "budget_frame b b' \<longleftrightarrow> lb_max_iterations b' = lb_max_iterations b \<and> lb_max_calls_total b' = lb_max_calls_total b \<and>
     lb_max_calls b' = lb_max_calls b \<and> lb_cost_limit b' = lb_cost_limit b"

lemma frame_refl [simp]: "budget_frame b b"
  by (simp add: budget_frame_def)

lemma frame_trans: "budget_frame a b \<Longrightarrow> budget_frame b c \<Longrightarrow> budget_frame a c"
  by (simp add: budget_frame_def)

lemma begun:
  "begin_iteration b = (None, b') \<Longrightarrow> b' = b\<lparr>lb_consumed := (lb_consumed b)\<lparr>bc_iterations := iterations b + 1\<rparr>\<rparr> \<and>
     iterations b < lb_max_iterations b \<and> spent_usd b < lb_cost_limit b"
  "begin_iteration b = (Some dn, b') \<Longrightarrow> b' = b"
  by (auto simp: begin_iteration_def is_cost_exhausted_def Let_def split: if_splits)

lemma consumed_call:
  "check_and_consume_tool_call b t = (None, b') \<Longrightarrow>
     b' = b\<lparr>lb_consumed := (lb_consumed b)\<lparr>bc_calls_total := bc_calls_total (lb_consumed b) + 1,
                                          bc_calls := dset t (used_calls (lb_consumed b) t + 1) (bc_calls (lb_consumed b))\<rparr>\<rparr> \<and>
     bc_calls_total (lb_consumed b) < lb_max_calls_total b \<and> spent_usd b < lb_cost_limit b \<and>
     (\<forall>cap. dget (lb_max_calls b) t = Some cap \<longrightarrow> used_calls (lb_consumed b) t < cap)"
  "check_and_consume_tool_call b t = (Some dn, b') \<Longrightarrow> b' = b"
  by (auto simp: check_and_consume_tool_call_def is_cost_exhausted_def Let_def split: if_splits option.splits)

lemma recorded_cost:
  "record_cost cost b = Inr b' \<Longrightarrow> \<exists>x \<ge> 0. b' = b\<lparr>lb_consumed := (lb_consumed b)\<lparr>bc_cost := spent_usd b + x\<rparr>\<rparr> \<and>
     (cost = Some x \<or> cost = None \<and> x = 0)"
  by (auto simp: record_cost_def split: option.splits if_splits intro: exI [of _ 0])

definition steps_left :: "ev_node \<Rightarrow> loop_budget \<Rightarrow> nat" where
  "steps_left n b =
     (let k = nat (lb_max_iterations b - iterations b) in
      case n of NEnd \<Rightarrow> 0 | NAnswer \<Rightarrow> 1 | NDecide \<Rightarrow> 2 * k + 2 | NFloor \<Rightarrow> 2 * k + 3 | NAct \<Rightarrow> 2 * k + 3)"

lemma answer_or_end_left: "steps_left (answer_or_end r) b \<le> 1"
  by (simp add: answer_or_end_def steps_left_def)

text \<open>How a decision may end, and how an act may.\<close>

lemma decide_elim:
  assumes "decide_node d r = Inr r'"
  obtains (ended) x dt w b where
      "r' = end_run x dt (r\<lparr>lr_budget := b, lr_world := w\<rparr>)" "b = lr_budget r \<or> begin_iteration (lr_budget r) = (None, b)"
      "x = SUFFICIENT \<Longrightarrow> \<exists>f. ld_should_stop d = Some f \<and> fst (f (lr_world r)) = Some SUFFICIENT"
    | (decided) b b' p cost w w' where
      "begin_iteration (lr_budget r) = (None, b)" "ld_llm d (observe_turn (lr_state r) b) w = (Decided p cost, w')"
      "record_cost cost b = Inr b'"
      "r' = r\<lparr>lr_budget := b', lr_world := w', lr_state := drop_images (lr_state r), lr_proposal := Some p, lr_outcome := None\<rparr>"
proof -
  obtain stop w where st: "(case ld_should_stop d of None \<Rightarrow> (None, lr_world r) | Some f \<Rightarrow> f (lr_world r)) = (stop, w)"
    by fastforce
  obtain dn b where b: "begin_iteration (lr_budget r) = (dn, b)" by fastforce
  obtain rep w' where rep: "ld_llm d (observe_turn (lr_state r) b) w = (rep, w')" by fastforce
  note here = assms [unfolded decide_node_def st b rep, simplified st b rep Let_def prod.case]
  show thesis
  proof (cases stop)
    case (Some reason)
    show ?thesis
    proof (rule ended [where x = reason and dt = None and b = "lr_budget r" and w = w])
      assume "reason = SUFFICIENT"
      then show "\<exists>f. ld_should_stop d = Some f \<and> fst (f (lr_world r)) = Some SUFFICIENT"
        using st Some by (cases "ld_should_stop d") auto
    qed (use here Some in simp_all)
  next
    case None
    show ?thesis
    proof (cases dn)
      case (Some dn')
      then show ?thesis
        using here None begun(2) [of "lr_budget r" dn' b] b
        by (intro ended [where x = BUDGET_EXHAUSTED and dt = "Some (denial_detail dn')" and b = "lr_budget r" and w = w]) simp_all
    next
      case dn: None
      show ?thesis
      proof (cases rep)
        case (Decided p cost)
        then obtain b' where "record_cost cost b = Inr b'" using here b None dn rep by (auto split: sum.splits)
        then show ?thesis using here None dn Decided rep b by (intro decided) auto
      next
        case (Unavailable m)
        then show ?thesis
          using here None dn b rep
          by (intro ended [where x = FATAL_ERROR and dt = "Some (''llm_unavailable: '' @ m)" and b = b and w = w']) simp_all
      qed (use here b None dn rep in simp)
    qed
  qed
qed

lemma act_elim:
  assumes "act_node d r = Inr r'"
  obtains (kept) "r' = r"
    | (unknown) name args nt s s' where
      "lr_proposal r = Some (ToolCall name args nt)" "s = lr_state r \<or> (\<exists>t. s = add_note t (lr_state r))"
      "dget (ld_tools d) name = None"
      "s' = add_note (''no such tool: '' @ name)
              (record_call name (summarize_args (ld_str d) args) CALL_ERROR ''unknown tool'' None (declared_stance (ld_str d) name args) s)"
      "r' = r\<lparr>lr_state := s', lr_outcome := None, lr_snapshot := s'\<rparr>"
    | (denied) name args nt s s' dn tool where
      "lr_proposal r = Some (ToolCall name args nt)" "s = lr_state r \<or> (\<exists>t. s = add_note t (lr_state r))"
      "dget (ld_tools d) name = Some tool" "check_and_consume_tool_call (lr_budget r) name = (Some dn, lr_budget r)"
      "s' = record_call name (summarize_args (ld_str d) args) CALL_DENIED (denial_detail dn) None (declared_stance (ld_str d) name args) s"
      "r' = r\<lparr>lr_state := add_note (''tool cap used up: '' @ denial_detail dn) s', lr_outcome := None,
              lr_snapshot := add_note (''tool cap used up: '' @ denial_detail dn) s'\<rparr> \<or>
       r' = end_run BUDGET_EXHAUSTED (Some (denial_detail dn)) (r\<lparr>lr_state := s'\<rparr>)"
    | (called) name args nt s s' b b' tool res c w t where
      "lr_proposal r = Some (ToolCall name args nt)" "s = lr_state r \<or> (\<exists>t. s = add_note t (lr_state r))"
      "dget (ld_tools d) name = Some tool" "check_and_consume_tool_call (lr_budget r) name = (None, b)"
      "tool args (es_corpus s) (lr_world r) = (res, c, w)" "t = (case res of Inr t \<Rightarrow> t | Inl e \<Rightarrow> failed_result e)"
      "record_cost (tr_cost t) b = Inr b'"
      "s' = push_result name (summarize_args (ld_str d) args) t
              (record_call name (summarize_args (ld_str d) args) (outcome_of t) (error_text t) (tr_cost t)
                 (declared_stance (ld_str d) name args) (s\<lparr>es_corpus := c\<rparr>))"
      "r' = r\<lparr>lr_state := s', lr_budget := b', lr_world := w, lr_outcome := None, lr_snapshot := s'\<rparr>"
proof (cases "\<exists>name args nt. lr_proposal r = Some (ToolCall name args nt)")
  case False
  then have "r' = r" using assms by (auto simp: act_node_def split: option.splits proposal.splits)
  then show thesis by (rule kept)
next
  case True
  then obtain name args nt where p: "lr_proposal r = Some (ToolCall name args nt)" by blast
  define s where "s = (case nt of Some t \<Rightarrow> if t = [] then lr_state r else add_note (''not executed: '' @ t) (lr_state r) | None \<Rightarrow> lr_state r)"
  have s: "s = lr_state r \<or> (\<exists>t. s = add_note t (lr_state r))" by (auto simp: s_def split: option.split)
  note here = assms [unfolded act_node_def Let_def p option.case proposal.case, folded s_def]
  show thesis
  proof (cases "dget (ld_tools d) name")
    case None
    show ?thesis by (rule unknown [OF p s None refl]) (use here None in simp)
  next
    case (Some tool)
    show ?thesis
    proof (cases "check_and_consume_tool_call (lr_budget r) name")
      case (Pair dn b)
      show ?thesis
      proof (cases dn)
        case dn: (Some dn')
        then have "b = lr_budget r" using Pair consumed_call(2) by blast
        then show ?thesis using here Some Pair dn
          by (intro denied [OF p s Some _ refl, of dn']) (auto split: if_splits)
      next
        case dn: None
        obtain res c w where call: "tool args (es_corpus s) (lr_world r) = (res, c, w)" by (metis prod_cases3)
        define t where "t = (case res of Inr t \<Rightarrow> t | Inl e \<Rightarrow> failed_result e)"
        obtain b' where b': "record_cost (tr_cost t) b = Inr b'"
          using here by (auto simp: Some Pair dn call t_def split: sum.splits)
        show ?thesis
          by (rule called [OF p s Some _ call t_def b' refl])
            (use here b' in \<open>simp_all add: Some Pair dn call flip: t_def\<close>)
      qed
    qed
  qed
qed

lemma decide_cases:
  assumes "decide_node d r = Inr r'"
  shows "(lr_outcome r' \<noteq> None \<and> iterations (lr_budget r') \<ge> iterations (lr_budget r)) \<or>
    (lr_outcome r' = None \<and> iterations (lr_budget r') = iterations (lr_budget r) + 1 \<and>
     iterations (lr_budget r) < lb_max_iterations (lr_budget r))"
  using assms
proof (cases rule: decide_elim)
  case (ended x dt w b)
  then show ?thesis by (auto simp: loop_frame dest!: begun)
next
  case (decided b b' p cost w w')
  then show ?thesis by (auto dest!: begun recorded_cost)
qed

lemma act_iterations:
  assumes "act_node d r = Inr r'"
  shows "iterations (lr_budget r') = iterations (lr_budget r) \<and> budget_frame (lr_budget r) (lr_budget r')"
  using assms
proof (cases rule: act_elim)
  case (called name args nt s s' b b' tool res c w t)
  then show ?thesis by (auto simp: budget_frame_def dest!: consumed_call recorded_cost)
qed (auto simp: loop_frame)

lemma floor_budget: "lr_budget (check_floor r) = lr_budget r"
  by (simp add: check_floor_def loop_frame Let_def split: option.split proposal.split)

lemma decide_frame:
  assumes "decide_node d r = Inr r'" shows "budget_frame (lr_budget r) (lr_budget r')"
  using assms
proof (cases rule: decide_elim)
  case (ended x dt w b)
  then show ?thesis by (auto simp: loop_frame budget_frame_def dest!: begun)
next
  case (decided b b' p cost w w')
  then show ?thesis by (auto simp: budget_frame_def dest!: begun recorded_cost)
qed

lemma step_decreases:
  assumes "graph_step d n r = Inr (n', r')" and "n \<noteq> NEnd"
  shows "steps_left n' (lr_budget r') < steps_left n (lr_budget r)"
proof (cases n)
  case NDecide
  then obtain e: "decide_node d r = Inr r'" "n' = route_after_decide r'"
    using assms(1) by (auto simp: graph_step_def split: sum.splits)
  have f: "lb_max_iterations (lr_budget r') = lb_max_iterations (lr_budget r)"
    using decide_frame [OF e(1)] by (simp add: budget_frame_def)
  show ?thesis
  proof (cases "lr_outcome r' = None")
    case True
    then have "steps_left n' (lr_budget r') = 2 * nat (lb_max_iterations (lr_budget r') - iterations (lr_budget r')) + 3"
      by (simp add: e(2) route_after_decide_def steps_left_def split: option.split proposal.split)
    then show ?thesis using decide_cases [OF e(1)] True f by (auto simp: NDecide steps_left_def)
  next
    case False
    then have "steps_left n' (lr_budget r') \<le> 1"
      using answer_or_end_left [of r'] by (simp only: e(2) route_after_decide_def if_True not_None_eq)
    then show ?thesis by (simp add: NDecide steps_left_def)
  qed
next
  case NFloor
  then show ?thesis using assms(1) answer_or_end_left [of r' "lr_budget r'"]
    by (auto simp: graph_step_def Let_def route_back_def floor_budget steps_left_def split: if_splits)
next
  case NAct
  then obtain e: "act_node d r = Inr r'" "n' = route_back r'"
    using assms(1) by (auto simp: graph_step_def split: sum.splits)
  then show ?thesis using act_iterations [OF e(1)] answer_or_end_left [of r' "lr_budget r'"]
    by (auto simp: NAct route_back_def steps_left_def budget_frame_def)
next
  case NAnswer
  then show ?thesis using assms(1) by (auto simp: graph_step_def steps_left_def split: sum.splits)
qed (use assms(2) in simp)

lemma invoke_returns: "steps_left n (lr_budget r) \<le> k \<Longrightarrow> invoke_graph d k n r \<noteq> GraphRecursionError"
proof (induction k arbitrary: n r)
  case 0
  then show ?case by (cases n) (auto simp: steps_left_def Let_def)
next
  case (Suc k)
  then show ?case
  proof (cases "n = NEnd")
    case False
    then have unfold: "invoke_graph d (Suc k) n r =
        (case graph_step d n r of Inl e \<Rightarrow> GraphRaised e | Inr (m', r') \<Rightarrow> invoke_graph d k m' r')"
      by (cases n) simp_all
    show ?thesis
    proof (cases "graph_step d n r")
      case (Inr p)
      obtain m' r' where p: "p = (m', r')" by fastforce
      have "steps_left m' (lr_budget r') < steps_left n (lr_budget r)"
        using step_decreases [OF _ False] Inr p by blast
      then have "steps_left m' (lr_budget r') \<le> k" using Suc.prems by simp
      from Suc.IH [OF this] show ?thesis by (simp add: unfold Inr p)
    qed (simp add: unfold)
  qed simp
qed

text \<open>Ports that raise nothing the loop does not expect, and report no negative price.\<close>

definition ports_ok :: "'w loop_deps \<Rightarrow> bool" where
  "ports_ok d \<longleftrightarrow>
     (\<forall>ob w. case fst (ld_llm d ob w) of Decided p (Some x) \<Rightarrow> 0 \<le> x | LlmRaises e \<Rightarrow> False | _ \<Rightarrow> True) \<and>
     (\<forall>name tool args c w. dget (ld_tools d) name = Some tool \<longrightarrow>
        (case fst (tool args c w) of Inr t \<Rightarrow> (case tr_cost t of Some x \<Rightarrow> 0 \<le> x | None \<Rightarrow> True) | Inl e \<Rightarrow> True)) \<and>
     (\<forall>ask rq w. ld_answer d = Some ask \<longrightarrow>
        (case fst (ask rq w) of Inr a \<Rightarrow> (case ad_cost a of Some x \<Rightarrow> 0 \<le> x | None \<Rightarrow> True) | Inl e \<Rightarrow> True))"

lemma cost_ok: "(case cost of Some x \<Rightarrow> 0 \<le> x | None \<Rightarrow> True) \<Longrightarrow> \<exists>b'. record_cost cost b = Inr b'"
  by (auto simp: record_cost_def split: option.split)

lemma attempt_ok:
  assumes "\<forall>rq w. case fst (ask rq w) of Inr a \<Rightarrow> (case ad_cost a of Some x \<Rightarrow> 0 \<le> x | None \<Rightarrow> True) | Inl e \<Rightarrow> True"
  shows "\<exists>x. attempt_answer ask ordered n k reject sbw = Inr x"
proof (induction k arbitrary: n reject sbw)
  case (Suc k)
  obtain s b w where sbw: "sbw = (s, b, w)" by (cases sbw)
  let ?rq = "\<lparr>aq_topic = es_topic s, aq_kind = question_kind s, aq_evidence = answer_views ordered, aq_reject = reject\<rparr>"
  obtain res w' where res: "ask ?rq w = (res, w')" by fastforce
  show ?case
  proof (cases res)
    case (Inr dr)
    then obtain b' where "record_cost (ad_cost dr) b = Inr b'"
      using assms [rule_format, of ?rq w] res cost_ok [of "ad_cost dr" b] by auto
    then show ?thesis using Suc.IH res Inr by (simp add: sbw split: sum.split)
  qed (simp add: sbw res)
next
  case 0
  show ?case by (cases sbw) simp
qed

lemma decide_ok:
  assumes "ports_ok d" shows "\<exists>r'. decide_node d r = Inr r'"
proof -
  obtain stop w where st: "(case ld_should_stop d of None \<Rightarrow> (None, lr_world r) | Some f \<Rightarrow> f (lr_world r)) = (stop, w)"
    by fastforce
  obtain dn b where b: "begin_iteration (lr_budget r) = (dn, b)" by fastforce
  obtain rep w' where rep: "ld_llm d (observe_turn (lr_state r) b) w = (rep, w')" by fastforce
  have ok: "case rep of Decided p (Some x) \<Rightarrow> 0 \<le> x | LlmRaises e \<Rightarrow> False | _ \<Rightarrow> True"
    using assms rep unfolding ports_ok_def by (metis fst_conv)
  have "\<exists>b'. record_cost cost b = Inr b'" if "rep = Decided p cost" for p cost
    using ok by (auto simp: that intro!: cost_ok split: option.splits)
  then show ?thesis using ok
    by (cases stop; cases dn; cases rep) (auto simp: decide_node_def st b rep)
qed

lemma tool_ok:
  assumes "ports_ok d" and "dget (ld_tools d) name = Some tool" and "tool args c w = (res, c', w')"
  shows "\<exists>b'. record_cost (tr_cost (case res of Inr t \<Rightarrow> t | Inl e \<Rightarrow> failed_result e)) b = Inr b'"
proof -
  have "case res of Inr t \<Rightarrow> (case tr_cost t of Some x \<Rightarrow> 0 \<le> x | None \<Rightarrow> True) | Inl e \<Rightarrow> True"
    using assms unfolding ports_ok_def by (metis fst_conv)
  then show ?thesis by (cases res) (auto simp: failed_result_def intro!: cost_ok)
qed

lemma act_ok:
  assumes "ports_ok d" shows "\<exists>r'. act_node d r = Inr r'"
proof (cases "lr_proposal r")
  case (Some p)
  show ?thesis
  proof (cases p)
    case (ToolCall name args nt)
    show ?thesis
    proof (cases "dget (ld_tools d) name")
      case (Some tool)
      obtain dn b where b: "check_and_consume_tool_call (lr_budget r) name = (dn, b)" by fastforce
      define s where "s = (case nt of Some t \<Rightarrow> if t = [] then lr_state r else add_note (''not executed: '' @ t) (lr_state r) | None \<Rightarrow> lr_state r)"
      obtain res c w where call: "tool args (es_corpus s) (lr_world r) = (res, c, w)" by (metis prod_cases3)
      obtain b' where "record_cost (tr_cost (case res of Inr t \<Rightarrow> t | Inl e \<Rightarrow> failed_result e)) b = Inr b'"
        using tool_ok [OF assms Some call] by blast
      then show ?thesis
        by (cases dn)
          (simp_all add: act_node_def Let_def \<open>lr_proposal r = Some p\<close> ToolCall Some b call flip: s_def)
    qed (simp add: act_node_def Some ToolCall Let_def)
  qed (simp add: act_node_def Some)
qed (simp add: act_node_def)

lemma answer_ok:
  assumes "ports_ok d" shows "\<exists>r'. answer_node d r = Inr r'"
proof -
  have "\<exists>x. write_answer d reason (s, b, w) = Inr x" for reason s b w
  proof (cases "ld_answer d")
    case (Some ask)
    then have "\<forall>rq w. case fst (ask rq w) of Inr a \<Rightarrow> (case ad_cost a of Some x \<Rightarrow> 0 \<le> x | None \<Rightarrow> True) | Inl e \<Rightarrow> True"
      using assms by (simp add: ports_ok_def)
    from attempt_ok [OF this, of "comparison_order (es_items s)" 1 ANSWER_MAX_ATTEMPTS None "(s, b, w)"]
    obtain rj s' b' w' where "attempt_answer ask (comparison_order (es_items s)) 1 ANSWER_MAX_ATTEMPTS None (s, b, w) = Inr (rj, s', b', w')"
      by (metis prod_cases4)
    then show ?thesis by (simp add: write_answer_def Some Let_def)
  qed (simp add: write_answer_def)
  from this [of "map_option fst (lr_outcome r)" "lr_state r" "lr_budget r" "lr_world r"] show ?thesis
    by (auto simp: answer_node_def split: prod.split)
qed

lemma graph_step_ok: "ports_ok d \<Longrightarrow> \<exists>x. graph_step d n r = Inr x"
  by (cases n) (use decide_ok [of d r] act_ok [of d r] answer_ok [of d r] in \<open>auto simp: graph_step_def Let_def\<close>)

end
