(* ===== verification/Evid_Turn_Facts.thy ===== *)
theory Evid_Turn_Facts imports Evid_Loop_Facts begin

text \<open>
  What holds of every turn of the evidence agent, by invariants over the steps of its graph: it
  finishes within the recursion limit, keeps its three budgets and books every call, ends as
  sufficient only past the evidence floor, and returns an answer that was checked by machine or
  cites nothing.
\<close>

section \<open>Invariants of the graph\<close>

lemma finished_invariant:
  assumes "\<And>n r n' r'. graph_step d n r = Inr (n', r') \<Longrightarrow> n \<noteq> NEnd \<Longrightarrow> P n r \<Longrightarrow> P n' r'"
  shows "invoke_graph d k n r = Finished r' \<Longrightarrow> P n r \<Longrightarrow> P NEnd r'"
proof (induction k arbitrary: n r)
  case 0
  then show ?case by (cases n) simp_all
next
  case (Suc k)
  show ?case
  proof (cases "n = NEnd")
    case False
    then obtain m s where "graph_step d n r = Inr (m, s)" "invoke_graph d k m s = Finished r'"
      using Suc.prems(1) by (cases n) (auto split: sum.splits)
    then show ?thesis using Suc.IH assms Suc.prems(2) False by blast
  qed (use Suc.prems in simp)
qed

lemma graph_step_cases:
  assumes "graph_step d n r = Inr (n', r')" and "n \<noteq> NEnd"
  obtains (decide) "n = NDecide" "decide_node d r = Inr r'" "n' = route_after_decide r'"
    | (test) "n = NFloor" "r' = check_floor r" "n' = route_back r'"
    | (act) "n = NAct" "act_node d r = Inr r'" "n' = route_back r'"
    | (answer) "n = NAnswer" "answer_node d r = Inr r'" "n' = NEnd"
  using assms by (cases n) (auto simp: graph_step_def Let_def split: sum.splits)

lemma answer_elim:
  assumes "answer_node d r = Inr r'"
  obtains s b w where "write_answer d (map_option fst (lr_outcome r)) (lr_state r, lr_budget r, lr_world r) = Inr (s, b, w)"
    "r' = r\<lparr>lr_state := s, lr_budget := b, lr_world := w, lr_snapshot := s\<rparr>"
  using assms by (auto simp: answer_node_def split: sum.splits)

lemma floor_elim:
  obtains (kept) "check_floor r = r"
    | (again) nt kind s where "lr_proposal r = Some (Terminate nt kind)"
      "check_floor r = r\<lparr>lr_state := s, lr_proposal := None, lr_outcome := None\<rparr>"
      "es_corpus s = es_corpus (lr_state r)" "es_trace s = es_trace (lr_state r)" "es_answer s = es_answer (lr_state r)"
    | (passed) nt kind s where "lr_proposal r = Some (Terminate nt kind)"
      "check_floor r = end_run SUFFICIENT nt (r\<lparr>lr_state := s\<rparr>)"
      "es_items s \<noteq> []" "missing_counter_probe s (lr_budget r) = None"
      "es_corpus s = es_corpus (lr_state r)" "es_trace s = es_trace (lr_state r)" "es_answer s = es_answer (lr_state r)"
proof (cases "\<exists>nt kind. lr_proposal r = Some (Terminate nt kind)")
  case False
  then have "check_floor r = r" by (auto simp: check_floor_def split: option.split proposal.split)
  then show thesis by (rule kept)
next
  case True
  then obtain nt kind where p: "lr_proposal r = Some (Terminate nt kind)" by blast
  define s where "s = (case kind of Some k \<Rightarrow> if k = [] then lr_state r else (lr_state r)\<lparr>es_kind := Some k\<rparr> | None \<Rightarrow> lr_state r)"
  have s: "es_corpus s = es_corpus (lr_state r)" "es_trace s = es_trace (lr_state r)" "es_answer s = es_answer (lr_state r)"
    by (simp_all add: s_def split: option.split)
  have unfold: "check_floor r =
     (if es_items s = [] then r\<lparr>lr_state := add_note NO_EVIDENCE_NOTE s, lr_proposal := None, lr_outcome := None\<rparr>
      else case missing_counter_probe s (lr_budget r) of
             Some m \<Rightarrow> r\<lparr>lr_state := add_note m s, lr_proposal := None, lr_outcome := None\<rparr>
           | None \<Rightarrow> end_run SUFFICIENT nt (r\<lparr>lr_state := s\<rparr>))"
    unfolding check_floor_def p Let_def option.case proposal.case s_def [symmetric] ..
  show thesis
  proof (cases "es_items s = []")
    case False
    then show ?thesis using unfold s
      by (cases "missing_counter_probe s (lr_budget r)") (auto simp: loop_frame intro: again [OF p] passed [OF p])
  qed (use unfold s in \<open>auto simp: loop_frame intro: again [OF p]\<close>)
qed

section \<open>Termination\<close>

lemma invoke_ok:
  assumes "ports_ok d" and "steps_left n (lr_budget r) \<le> k"
  shows "\<exists>r'. invoke_graph d k n r = Finished r'"
proof -
  have "invoke_graph d k n r \<noteq> GraphRaised e" for e
  proof (induction k arbitrary: n r)
    case 0
    show ?case by (cases n) simp_all
  next
    case (Suc k)
    obtain m s where "graph_step d n r = Inr (m, s)" using graph_step_ok [OF assms(1)] by fastforce
    then show ?case using Suc by (cases n) simp_all
  qed
  then show ?thesis using invoke_returns [OF assms(2), of d]
    by (cases "invoke_graph d k n r") auto
qed

text \<open>
  C18. A turn whose ports raise nothing the loop does not expect, and whose prices are not negative,
  returns: the graph reaches its end within \<open>_recursion_limit\<close>, so LangGraph's own
  \<open>GraphRecursionError\<close> never cuts a turn short of the budget's three caps, whatever the model
  proposes.
\<close>

theorem turn_finishes:
  assumes "ports_ok d" and "0 \<le> lb_max_iterations b" and "0 \<le> iterations b"
  shows "\<exists>r. run_loop d s b w = Finished r"
  unfolding run_loop_def
  by (rule invoke_ok [OF assms(1)]) (use assms(2,3) in \<open>simp add: steps_left_def initial_run_def recursion_limit_def Let_def\<close>)

section \<open>The budget\<close>

definition in_budget :: "rat \<Rightarrow> loop_budget \<Rightarrow> bool" where
  "in_budget c b \<longleftrightarrow>
     iterations b \<le> lb_max_iterations b \<and> bc_calls_total (lb_consumed b) \<le> lb_max_calls_total b \<and>
     (\<forall>t cap. dget (lb_max_calls b) t = Some cap \<longrightarrow> used_calls (lb_consumed b) t \<le> cap) \<and>
     spent_usd b < lb_cost_limit b + c"

definition executed :: "'w loop_deps \<Rightarrow> call_record \<Rightarrow> bool" where
  "executed d cr \<longleftrightarrow> dget (ld_tools d) (cr_tool cr) \<noteq> None \<and> cr_outcome cr \<noteq> CALL_DENIED"

definition booked :: "'w loop_deps \<Rightarrow> ev_state \<Rightarrow> loop_budget \<Rightarrow> bool" where
  "booked d s b \<longleftrightarrow>
     bc_calls_total (lb_consumed b) = int (length (filter (executed d) (es_trace s))) \<and>
     (\<forall>t. used_calls (lb_consumed b) t = int (length (filter (\<lambda>cr. executed d cr \<and> cr_tool cr = t) (es_trace s))))"

definition at_most :: "rat \<Rightarrow> rat option \<Rightarrow> bool" where
  "at_most c cost \<longleftrightarrow> (case cost of Some x \<Rightarrow> x \<le> c | None \<Rightarrow> True)"

definition prices_at_most :: "rat \<Rightarrow> 'w loop_deps \<Rightarrow> bool" where
  "prices_at_most c d \<longleftrightarrow>
     (\<forall>ob w. case fst (ld_llm d ob w) of Decided p cost \<Rightarrow> at_most c cost | _ \<Rightarrow> True) \<and>
     (\<forall>name tool args cp w. dget (ld_tools d) name = Some tool \<longrightarrow>
        (case fst (tool args cp w) of Inr t \<Rightarrow> at_most c (tr_cost t) | Inl e \<Rightarrow> True)) \<and>
     (\<forall>ask rq w. ld_answer d = Some ask \<longrightarrow> (case fst (ask rq w) of Inr a \<Rightarrow> at_most c (ad_cost a) | Inl e \<Rightarrow> True))"

lemma used_frame [simp]:
  "used_calls (u\<lparr>bc_iterations := i\<rparr>) t = used_calls u t" "used_calls (u\<lparr>bc_cost := x\<rparr>) t = used_calls u t"
  "used_calls (u\<lparr>bc_calls_total := k, bc_calls := dset t' m (bc_calls u)\<rparr>) t = (if t = t' then m else used_calls u t)"
  by (simp_all add: used_calls_def dict_simps)

lemma cost_keeps:
  assumes "record_cost cost b = Inr b'" and "in_budget c b" and "spent_usd b < lb_cost_limit b" and "at_most c cost" and "0 \<le> c"
  shows "in_budget c b'"
proof -
  obtain x where x: "0 \<le> x" "b' = b\<lparr>lb_consumed := (lb_consumed b)\<lparr>bc_cost := spent_usd b + x\<rparr>\<rparr>"
    "cost = Some x \<or> cost = None \<and> x = 0" using recorded_cost [OF assms(1)] by blast
  then have "x \<le> c" using assms(4,5) by (auto simp: at_most_def)
  then show ?thesis using assms(2,3) by (simp add: x(2) in_budget_def)
qed

lemma cost_booked: "record_cost cost b = Inr b' \<Longrightarrow> booked d s b' = booked d s b"
  by (auto simp: booked_def dest!: recorded_cost)

lemma booked_trace: "es_trace s = es_trace s' \<Longrightarrow> booked d s b = booked d s' b"
  by (simp add: booked_def)

lemma call_booked:
  assumes "check_and_consume_tool_call b t = (None, b')" and "es_trace s' = es_trace s @ [cr]"
    and "executed d cr" and "cr_tool cr = t" and "booked d s b"
  shows "booked d s' b'"
  using assms consumed_call(1) [OF assms(1)] by (simp add: booked_def)

lemma call_in_budget:
  assumes "check_and_consume_tool_call b t = (None, b')" and "in_budget c b"
  shows "in_budget c b' \<and> spent_usd b' < lb_cost_limit b'"
  using assms(2) consumed_call(1) [OF assms(1)] by (auto simp: in_budget_def)

text \<open>The books of a run: the caps hold and the trace accounts for every call.\<close>

definition books_ok :: "'w loop_deps \<Rightarrow> rat \<Rightarrow> loop_budget \<Rightarrow> ev_state \<Rightarrow> loop_budget \<Rightarrow> bool" where
  "books_ok d c b0 s b \<longleftrightarrow> in_budget c b \<and> booked d s b \<and> budget_frame b0 b"

lemma attempt_books:
  assumes "\<forall>rq w. case fst (ask rq w) of Inr a \<Rightarrow> at_most c (ad_cost a) | Inl e \<Rightarrow> True" and "0 \<le> c"
    and "dget (ld_tools d) ''answer'' = None"
  shows "attempt_answer ask ordered n k reject sbw = Inr (rj, s', b', w') \<Longrightarrow>
    books_ok d c b0 (fst sbw) (fst (snd sbw)) \<Longrightarrow> books_ok d c b0 s' b'"
proof (induction k arbitrary: n reject sbw)
  case 0
  then show ?case by (cases sbw) simp
next
  case (Suc k)
  obtain s b w where sbw: "sbw = (s, b, w)" by (cases sbw)
  let ?rq = "\<lparr>aq_topic = es_topic s, aq_kind = question_kind s, aq_evidence = answer_views ordered, aq_reject = reject\<rparr>"
  obtain res w2 where res: "ask ?rq w = (res, w2)" by fastforce
  have traced: "books_ok d c b0 (trace_answer n oc sm cost t) b1" if "books_ok d c b0 t b1" for n oc sm cost t b1
    using that assms(3) by (simp add: books_ok_def booked_def trace_answer_def record_call_def executed_def)
  have books: "books_ok d c b0 s b" using Suc.prems(2) by (simp add: sbw)
  show ?case
  proof (cases "is_cost_exhausted b")
    case True
    then show ?thesis using Suc.prems(1) traced [OF books] by (auto simp: sbw)
  next
    case False
    show ?thesis
    proof (cases res)
      case (Inl e)
      then show ?thesis using Suc.prems(1) False res traced [OF books] by (auto simp: sbw)
    next
      case (Inr dr)
      then obtain b1 where b1: "record_cost (ad_cost dr) b = Inr b1"
        using Suc.prems(1) False res by (auto simp: sbw split: sum.splits)
      have "at_most c (ad_cost dr)" using assms(1) [rule_format, of ?rq w] res Inr by simp
      then have books1: "books_ok d c b0 s b1"
        using cost_keeps [OF b1 _ _ _ assms(2)] cost_booked [OF b1, of d s] books False recorded_cost [OF b1]
        by (auto simp: books_ok_def is_cost_exhausted_def budget_frame_def)
      then have "books_ok d c b0 (s\<lparr>es_answer := Some a\<rparr>) b1" for a
        by (simp add: books_ok_def booked_def)
      from traced [OF this] traced [OF books1] show ?thesis
        using Suc.prems(1) False res Inr b1 Suc.IH
        by (fastforce simp: sbw split: sum.splits)
    qed
  qed
qed

lemma write_books:
  assumes "prices_at_most c d" and "0 \<le> c" and "dget (ld_tools d) ''answer'' = None"
    and "write_answer d reason (s, b, w) = Inr (s', b', w')" and "books_ok d c b0 s b"
  shows "books_ok d c b0 s' b'"
proof (cases "\<exists>ask. ld_answer d = Some ask \<and> es_items s \<noteq> [] \<and> reason \<noteq> Some FATAL_ERROR")
  case False
  then show ?thesis using assms(4,5)
    by (auto simp: write_answer_def Let_def books_ok_def booked_def split: option.splits if_splits)
next
  case True
  then obtain ask where ask: "ld_answer d = Some ask" "es_items s \<noteq> []" "reason \<noteq> Some FATAL_ERROR" by blast
  then have "\<forall>rq w. case fst (ask rq w) of Inr a \<Rightarrow> at_most c (ad_cost a) | Inl e \<Rightarrow> True"
    using assms(1) by (simp add: prices_at_most_def)
  from attempt_books [OF this assms(2,3)] show ?thesis
    using assms(4,5) ask by (auto simp: write_answer_def Let_def books_ok_def booked_def split: sum.splits if_splits)
qed

lemma tool_price:
  assumes "prices_at_most c d" and "dget (ld_tools d) name = Some tool" and "tool args cp w = (res, c', w')"
    and "t = (case res of Inr t \<Rightarrow> t | Inl e \<Rightarrow> failed_result e)"
  shows "at_most c (tr_cost t)"
proof -
  have "case res of Inr t \<Rightarrow> at_most c (tr_cost t) | Inl e \<Rightarrow> True"
    using assms(1-3) unfolding prices_at_most_def by (metis fst_conv)
  then show ?thesis by (cases res) (auto simp: assms(4) failed_result_def at_most_def)
qed

lemma step_books:
  assumes "prices_at_most c d" and "0 \<le> c" and "dget (ld_tools d) ''answer'' = None"
    and "graph_step d n r = Inr (n', r')" and "n \<noteq> NEnd" and "books_ok d c b0 (lr_state r) (lr_budget r)"
  shows "books_ok d c b0 (lr_state r') (lr_budget r')"
  using assms(4,5)
proof (cases rule: graph_step_cases)
  case decide
  have begun_ok: "books_ok d c b0 (lr_state r) b \<and> spent_usd b < lb_cost_limit b" if "begin_iteration (lr_budget r) = (None, b)" for b
    using begun(1) [OF that] assms(6) by (auto simp: books_ok_def in_budget_def booked_def budget_frame_def)
  from decide(2) show ?thesis
  proof (cases rule: decide_elim)
    case (ended x dt w b)
    then show ?thesis using assms(6) begun_ok by (auto simp: loop_frame books_ok_def booked_def)
  next
    case (decided b b' p cost w w')
    have "at_most c cost" using assms(1) decided(2) unfolding prices_at_most_def by (metis fst_conv llm_reply.simps(10))
    then have "in_budget c b'" using begun_ok [OF decided(1)] cost_keeps [OF decided(3) _ _ _ assms(2)] by (simp add: books_ok_def)
    moreover have "booked d (lr_state r) b'" using begun_ok [OF decided(1)] cost_booked [OF decided(3), of d] by (simp add: books_ok_def)
    moreover have "budget_frame b0 (lr_budget r')" using decide_frame [OF decide(2)] frame_trans assms(6) books_ok_def by blast
    ultimately show ?thesis by (simp add: decided(4) books_ok_def booked_def loop_frame)
  qed
next
  case test
  then show ?thesis using assms(6)
    by (cases r rule: floor_elim) (auto simp: loop_frame books_ok_def booked_def)
next
  case act
  from act(2) show ?thesis
  proof (cases rule: act_elim)
    case kept
    then show ?thesis using assms(6) by simp
  next
    case (unknown name args nt s s')
    then show ?thesis using assms(6)
      by (auto simp: books_ok_def booked_def loop_frame record_call_def executed_def)
  next
    case (denied name args nt s s' dn tool)
    then show ?thesis using assms(6)
      by (auto simp: books_ok_def booked_def loop_frame record_call_def executed_def)
  next
    case (called name args nt s s' b b' tool res cp w t)
    have "at_most c (tr_cost t)"
      by (rule tool_price [OF assms(1) called(3,5,6)])
    moreover have "booked d s' b"
      by (rule call_booked [OF called(4), where s = s and cr = "last (es_trace s')"])
        (use called(2,3,8) assms(6) in \<open>auto simp: loop_frame record_call_def executed_def outcome_of_def books_ok_def booked_def\<close>)
    moreover have "in_budget c b" "spent_usd b < lb_cost_limit b"
      using call_in_budget [OF called(4), of c] assms(6) by (simp_all add: books_ok_def)
    ultimately have "in_budget c b'" "booked d s' b'"
      using cost_keeps [OF called(7) _ _ _ assms(2)] cost_booked [OF called(7), of d] by blast+
    moreover have "budget_frame b0 (lr_budget r')"
      using act_iterations [OF act(2)] frame_trans assms(6) books_ok_def by blast
    ultimately show ?thesis by (simp add: books_ok_def called(9))
  qed
next
  case answer
  from answer(2) show ?thesis
    using write_books [OF assms(1-3) _ assms(6)] by (cases rule: answer_elim) auto
qed

text \<open>
  C7. A turn keeps its budget: iterations and calls, in total and per tool, stay within their caps,
  the money spent exceeds its limit by less than one call's price, and the trace accounts for every
  call: the total and each tool's count are the numbers of executed calls in it.
\<close>

theorem turn_keeps_its_budget:
  assumes "run_loop d s b w = Finished r" and "in_budget c b" and "booked d s b"
    and "prices_at_most c d" and "0 \<le> c" and "dget (ld_tools d) ''answer'' = None"
  shows "in_budget c (lr_budget r) \<and> booked d (lr_state r) (lr_budget r) \<and> budget_frame b (lr_budget r)"
proof -
  have "books_ok d c b (lr_state r) (lr_budget r)"
    by (rule finished_invariant [where P = "\<lambda>n r. books_ok d c b (lr_state r) (lr_budget r)", OF step_books [OF assms(4-6)]])
      (use assms(1-3) in \<open>auto simp: run_loop_def initial_run_def books_ok_def\<close>)
  then show ?thesis by (simp add: books_ok_def)
qed

section \<open>The evidence floor\<close>

definition floor_met :: "ev_state \<Rightarrow> loop_budget \<Rightarrow> bool" where
  "floor_met s b \<longleftrightarrow>
     es_items s \<noteq> [] \<and>
     (question_kind s \<in> set COUNTER_REQUIRED_KINDS \<longrightarrow>
        counter_probes (es_trace s) > 0 \<or> (\<forall>t \<in> set STANCE_TOOLS. \<not> can_call b t))"

lemma floor_passed: "es_items s \<noteq> [] \<Longrightarrow> missing_counter_probe s b = None \<Longrightarrow> floor_met s b"
  by (auto simp: floor_met_def missing_counter_probe_def list_ex_iff split: if_splits)

lemma dearer_calls: "record_cost cost b = Inr b' \<Longrightarrow> can_call b' t \<Longrightarrow> can_call b t"
proof -
  assume "record_cost cost b = Inr b'" and c: "can_call b' t"
  then obtain x where "0 \<le> x" and b': "b' = b\<lparr>lb_consumed := (lb_consumed b)\<lparr>bc_cost := spent_usd b + x\<rparr>\<rparr>"
    using recorded_cost by blast
  then show ?thesis using c
    by (cases "dget (lb_max_calls b) t")
      (simp_all add: can_call_def check_and_consume_tool_call_def is_cost_exhausted_def Let_def b' split: if_splits)
qed

lemma floor_dearer: "record_cost cost b = Inr b' \<Longrightarrow> floor_met s b \<Longrightarrow> floor_met s b'"
  unfolding floor_met_def using dearer_calls by blast

lemma floor_kept:
  "es_items s' = es_items s \<Longrightarrow> es_kind s' = es_kind s \<Longrightarrow> counter_probes (es_trace s') = counter_probes (es_trace s) \<Longrightarrow>
   floor_met s' b = floor_met s b"
  by (simp add: floor_met_def question_kind_def)

lemma answer_trace [simp]:
  "counter_probes (es_trace (trace_answer n oc sm cost s)) = counter_probes (es_trace s)"
  "es_corpus (trace_answer n oc sm cost s) = es_corpus s" "es_kind (trace_answer n oc sm cost s) = es_kind s"
  "es_answer (trace_answer n oc sm cost s) = es_answer s"
  by (simp_all add: trace_answer_def record_call_def counter_probes_def STANCE_TOOLS_def)

text \<open>What an attempt at an answer leaves alone, and what the answer is.\<close>

lemma attempt_floor:
  "attempt_answer ask ordered n k reject sbw = Inr (rj, s', b', w') \<Longrightarrow>
   es_corpus s' = es_corpus (fst sbw) \<and> es_kind s' = es_kind (fst sbw) \<and>
   (es_answer s' = es_answer (fst sbw) \<or> (\<exists>a. es_answer s' = Some a \<and> answer_backed ordered a)) \<and>
   (floor_met (fst sbw) (fst (snd sbw)) \<longrightarrow> floor_met s' b')"
proof (induction k arbitrary: n reject sbw)
  case 0
  then show ?case by (cases sbw) simp
next
  case (Suc k)
  obtain s b w where sbw: "sbw = (s, b, w)" by (cases sbw)
  let ?rq = "\<lparr>aq_topic = es_topic s, aq_kind = question_kind s, aq_evidence = answer_views ordered, aq_reject = reject\<rparr>"
  obtain res w2 where res: "ask ?rq w = (res, w2)" by fastforce
  have traced: "floor_met (trace_answer n oc sm cost t) b1 = floor_met t b1" for n oc sm cost t b1
    by (rule floor_kept) simp_all
  show ?case
  proof (cases "is_cost_exhausted b")
    case True
    then show ?thesis using Suc.prems by (auto simp: sbw traced)
  next
    case False
    show ?thesis
    proof (cases res)
      case (Inl e)
      then show ?thesis using Suc.prems False res by (auto simp: sbw traced)
    next
      case (Inr dr)
      then obtain b1 where b1: "record_cost (ad_cost dr) b = Inr b1"
        using Suc.prems False res by (auto simp: sbw split: sum.splits)
      have floor: "floor_met s b \<Longrightarrow> floor_met s b1" by (rule floor_dearer [OF b1])
      show ?thesis
      proof (cases "check_answer ordered (n > 1) (ad_sentences dr)")
        case (Inl rf)
        then have "attempt_answer ask ordered (n + 1) k (Some rf) (trace_answer n CALL_ERROR (''refused: '' @ refusal_code rf) (ad_cost dr) s, b1, w2) =
            Inr (rj, s', b', w')" using Suc.prems False res Inr b1 by (simp add: sbw)
        from Suc.IH [OF this] show ?thesis using floor by (simp add: sbw traced)
      next
        case a: (Inr a)
        then show ?thesis
          using Suc.prems False res Inr b1 floor checked_backed [OF a] floor_kept [of "s\<lparr>es_answer := Some a\<rparr>" s b1]
          by (auto simp: sbw traced)
      qed
    qed
  qed
qed

definition answer_fits :: "evidence_item list \<Rightarrow> evidence_answer \<Rightarrow> bool" where
  "answer_fits claims a \<longleftrightarrow> answer_backed claims a \<or> (\<exists>regen. fallback_answer claims regen = Some a)"

lemma write_result:
  assumes "write_answer d reason (s, b, w) = Inr (s', b', w')" and "es_answer s = None"
  shows "es_corpus s' = es_corpus s \<and> (\<forall>a. es_answer s' = Some a \<longrightarrow> answer_fits (comparison_order (es_items s)) a) \<and>
    (floor_met s b \<longrightarrow> floor_met s' b')"
proof (cases "\<exists>ask. ld_answer d = Some ask \<and> es_items s \<noteq> [] \<and> reason \<noteq> Some FATAL_ERROR")
  case False
  then show ?thesis using assms floor_kept [of s' s b]
    by (auto simp: write_answer_def Let_def answer_fits_def split: option.splits if_splits)
next
  case True
  then obtain ask where ask: "ld_answer d = Some ask" "es_items s \<noteq> []" "reason \<noteq> Some FATAL_ERROR" by blast
  then obtain rj s1 where at: "attempt_answer ask (comparison_order (es_items s)) 1 ANSWER_MAX_ATTEMPTS None (s, b, w) = Inr (rj, s1, b', w')"
    and s': "s' = (if es_answer s1 \<noteq> None then s1 else s1\<lparr>es_answer := fallback_answer (comparison_order (es_items s)) (rj \<noteq> None)\<rparr>)"
    using assms(1) by (auto simp: write_answer_def Let_def split: sum.splits)
  show ?thesis using attempt_floor [OF at] assms(2) floor_kept [of s' s1 b']
    by (auto simp: s' answer_fits_def)
qed

text \<open>The state of a run: no answer before the last step, and an end as sufficient has met the floor.\<close>

definition turn_inv :: "ev_node \<Rightarrow> 'w loop_run \<Rightarrow> bool" where
  "turn_inv n r \<longleftrightarrow>
     (n \<noteq> NEnd \<longrightarrow> es_answer (lr_state r) = None) \<and>
     (\<forall>a. es_answer (lr_state r) = Some a \<longrightarrow> answer_fits (comparison_order (es_items (lr_state r))) a) \<and>
     (case lr_outcome r of None \<Rightarrow> n \<notin> {NAnswer, NEnd} | Some (x, dt) \<Rightarrow> n \<in> {NAnswer, NEnd} \<and>
        (x = SUFFICIENT \<longrightarrow> floor_met (lr_state r) (lr_budget r)))"

lemma end_outcome:
  "lr_outcome (end_run x dt r) = Some ((if x \<notin> {FATAL_ERROR, CANCELLED, INTERRUPTED} \<and> es_items (lr_state r) = [] then NO_EVIDENCE else x), dt)"
  by (simp add: end_run_def finish_def Let_def)

lemma ended_inv:
  assumes "es_answer (lr_state r) = None" and "x = SUFFICIENT \<Longrightarrow> floor_met (lr_state r) (lr_budget r)" and "n \<in> {NAnswer, NEnd}"
  shows "turn_inv n (end_run x dt r)"
  using assms floor_kept [of "lr_state (end_run x dt r)" "lr_state r" "lr_budget r"]
  by (auto simp: turn_inv_def end_outcome loop_frame)

lemma answer_or_end_nodes: "answer_or_end r \<in> {NAnswer, NEnd}"
  by (simp add: answer_or_end_def)

text \<open>\<open>TurnControl.should_stop\<close> answers with a cancellation, an interruption, or not at all.\<close>

definition stops_interrupt :: "'w loop_deps \<Rightarrow> bool" where
  "stops_interrupt d \<longleftrightarrow>
     (\<forall>f w. ld_should_stop d = Some f \<longrightarrow> fst (f w) \<in> {None, Some CANCELLED, Some INTERRUPTED})"

lemma step_turn:
  assumes "stops_interrupt d"
    and "graph_step d n r = Inr (n', r')" and "n \<noteq> NEnd" and "turn_inv n r"
  shows "turn_inv n' r'"
  using assms(2,3)
proof (cases rule: graph_step_cases)
  case decide
  have before: "es_answer (lr_state r) = None" using assms(4) decide(1) by (simp add: turn_inv_def)
  from decide(2) show ?thesis
  proof (cases rule: decide_elim)
    case (ended x dt w b)
    have "x \<noteq> SUFFICIENT" using ended(3) assms(1)
      unfolding stops_interrupt_def by (metis empty_iff insert_iff option.distinct(1) option.inject termination_reason.distinct(7,9))
    then have "turn_inv (answer_or_end r') r'"
      unfolding ended(1) by (intro ended_inv) (use before answer_or_end_nodes in auto)
    then show ?thesis by (simp add: decide(3) route_after_decide_def ended(1) loop_frame)
  next
    case (decided b b' p cost w w')
    then show ?thesis using before
      by (auto simp: decide(3) route_after_decide_def turn_inv_def loop_frame split: proposal.split)
  qed
next
  case test
  have before: "es_answer (lr_state r) = None" "lr_outcome r = None"
    using assms(4) test(1) by (auto simp: turn_inv_def split: option.splits)
  show ?thesis
  proof (cases r rule: floor_elim)
    case kept
    then show ?thesis using before by (simp add: test route_back_def turn_inv_def)
  next
    case (again nt kind s)
    then show ?thesis using before by (simp add: test route_back_def turn_inv_def)
  next
    case (passed nt kind s)
    have "turn_inv (answer_or_end r') r'"
      unfolding test(2) passed(2)
      by (intro ended_inv) (use before passed floor_passed answer_or_end_nodes in auto)
    then show ?thesis by (simp add: test(3) route_back_def) (simp add: test(2) passed(2) loop_frame)
  qed
next
  case act
  have before: "es_answer (lr_state r) = None" "lr_outcome r = None"
    using assms(4) act(1) by (auto simp: turn_inv_def split: option.splits)
  from act(2) show ?thesis
  proof (cases rule: act_elim)
    case kept
    then show ?thesis using before by (simp add: act(3) route_back_def turn_inv_def)
  next
    case (unknown name args nt s s')
    then show ?thesis using before by (auto simp: act(3) route_back_def turn_inv_def loop_frame)
  next
    case (denied name args nt s s' dn tool)
    from denied(6) show ?thesis
    proof
      assume "r' = end_run BUDGET_EXHAUSTED (Some (denial_detail dn)) (r\<lparr>lr_state := s'\<rparr>)"
      moreover from this have "turn_inv (answer_or_end r') r'"
        by (simp only:) (rule ended_inv, use before denied(2,5) answer_or_end_nodes in \<open>auto simp: loop_frame\<close>)
      ultimately show ?thesis by (simp add: act(3) route_back_def loop_frame)
    qed (use before denied(2,5) in \<open>auto simp: act(3) route_back_def turn_inv_def loop_frame\<close>)
  next
    case (called name args nt s s' b b' tool res c w t)
    then show ?thesis using before by (auto simp: act(3) route_back_def turn_inv_def loop_frame)
  qed
next
  case answer
  have before: "es_answer (lr_state r) = None" using assms(4) answer(1) by (simp add: turn_inv_def)
  from answer(2) show ?thesis
  proof (cases rule: answer_elim)
    case (1 s b w)
    from write_result [OF 1(1) before] show ?thesis
      using assms(4) by (auto simp: 1(2) answer turn_inv_def split: option.splits)
  qed
qed

lemma turn_ends:
  assumes "run_loop d s b w = Finished r" and "stops_interrupt d"
    and "es_answer s = None"
  shows "turn_inv NEnd r"
  by (rule finished_invariant [where P = turn_inv, OF step_turn [OF assms(2)]])
    (use assms(1,3) in \<open>auto simp: run_loop_def initial_run_def turn_inv_def\<close>)


lemma order_items: "set (comparison_order items) = set items"
  by (auto simp: comparison_order_def)

text \<open>
  C19. A finished turn has a reason, and its result abstains exactly when no evidence passed; otherwise
  its claims are the evidence that passed, contested items first, and the answer shown either passed
  the machine checks against exactly these claims or is the fallback, one sentence per claim and no
  citation.
\<close>

theorem turn_result_checked:
  assumes "run_loop d s b w = Finished r" and "es_answer s = None"
    and "stops_interrupt d"
  shows "\<exists>x dt. lr_outcome r = Some (x, dt) \<and>
    (case assemble_evidence (lr_state r) x q of
       EvidenceAbstain a \<Rightarrow> es_items (lr_state r) = []
     | EvidenceOk claims cv ans \<Rightarrow> claims = comparison_order (es_items (lr_state r)) \<and> claims \<noteq> [] \<and>
         (\<exists>a. ans = Some a \<and> (answer_backed claims a \<or>
            ea_fallback a \<and> map sg_text (ea_segments a) = map narrative_sentence claims \<and>
            (\<forall>g \<in> set (ea_segments a). sg_refs g = []))))"
proof -
  let ?items = "es_items (lr_state r)"
  have inv: "turn_inv NEnd r" by (rule turn_ends [OF assms(1,3,2)])
  then obtain x dt where x: "lr_outcome r = Some (x, dt)" by (auto simp: turn_inv_def split: option.splits)
  have fits: "answer_fits (comparison_order ?items) a" if "es_answer (lr_state r) = Some a" for a
    using inv that by (simp add: turn_inv_def)
  have fallback: "ea_fallback a \<and> map sg_text (ea_segments a) = map narrative_sentence cs \<and> (\<forall>g \<in> set (ea_segments a). sg_refs g = [])"
    if "fallback_answer cs regen = Some a" for cs regen a
    using that by (auto simp: fallback_answer_def split: if_splits)
  show ?thesis
  proof (cases "?items = []")
    case True
    then show ?thesis by (simp add: x assemble_evidence_def Let_def)
  next
    case False
    then have ne: "comparison_order ?items \<noteq> []" using order_items by (metis set_empty)
    have "\<exists>a. (case es_answer (lr_state r) of Some a \<Rightarrow> Some a | None \<Rightarrow> fallback_answer (comparison_order ?items) False) = Some a \<and>
        answer_fits (comparison_order ?items) a"
      using fits ne by (cases "es_answer (lr_state r)") (auto simp: answer_fits_def fallback_answer_def)
    then show ?thesis using False ne fallback
      by (auto simp: x assemble_evidence_def Let_def answer_fits_def)
  qed
qed

section \<open>A turn\<close>

text \<open>
  The model extracts with the counter stance, then ends with the kind \<open>claim\<close>; the judgement model
  writes one cited sentence.
\<close>

definition turn_item :: evidence_item where
  "turn_item = \<lparr>ei_statement = ''5%'',
     ei_supporting = [\<lparr>sr_paper_id = ''p1'', sr_record_ref = ''rec'', sr_namespace = None, sr_title = None,
       sr_anchor = Some ''b1'', sr_quote = Some ''5%'', sr_anchor_type = Some ''paragraph'', sr_at_scope = FULLTEXT\<rparr>],
     ei_conflicting = []\<rparr>"

definition turn_deps :: "unit loop_deps" where
  "turn_deps = \<lparr>
     ld_llm = (\<lambda>ob w. (Decided
       (if ob_evidence_count ob = 0 then ToolCall ''extract_evidence'' [(''stance'', PStr ''counter'')] None
        else Terminate None (Some ''claim'')) (Some (1 / 100)), w)),
     ld_tools = [(''extract_evidence'', \<lambda>args c w.
       (Inr \<lparr>tr_ok = True, tr_content = [(''accepted'', PInt 1)], tr_summary = ''ok'', tr_cost = Some (1 / 50), tr_error = None, tr_images = []\<rparr>,
        c\<lparr>ec_items := ec_items c @ [turn_item]\<rparr>, w))],
     ld_answer = Some (\<lambda>rq w. (Inr \<lparr>ad_sentences = [\<lparr>as_sentence = ''Yes.'', as_refs = [1], as_role = None\<rparr>],
                                     ad_cost = Some (1 / 100)\<rparr>, w)),
     ld_should_stop = Some (\<lambda>w. (None, w)), ld_str = (\<lambda>_. [])\<rparr>"

definition turn_budget :: loop_budget where
  "turn_budget = demo_budget\<lparr>lb_consumed := \<lparr>bc_iterations = 0, bc_calls_total = 0, bc_calls = [], bc_cost = 0\<rparr>\<rparr>"

definition turn_end :: "unit loop_run" where
  "turn_end = (case run_loop turn_deps demo_turn turn_budget () of Finished r \<Rightarrow> r | _ \<Rightarrow> initial_run demo_turn turn_budget ())"

lemma turn_runs:
  "(case run_loop turn_deps demo_turn turn_budget () of
      Finished r \<Rightarrow> lr_outcome r = Some (SUFFICIENT, None) \<and> iterations (lr_budget r) = 2 \<and> spent_usd (lr_budget r) = 1 / 20 \<and>
        length (es_items (lr_state r)) = 1 \<and> es_answer (lr_state r) \<noteq> None
    | _ \<Rightarrow> False)"
  by code_simp

lemma turn_end_run: "run_loop turn_deps demo_turn turn_budget () = Finished turn_end"
  "lr_outcome turn_end = Some (SUFFICIENT, None)" "iterations (lr_budget turn_end) = 2" "spent_usd (lr_budget turn_end) = 1 / 20"
  "length (es_items (lr_state turn_end)) = 1" "es_answer (lr_state turn_end) \<noteq> None"
  using turn_runs by (simp_all add: turn_end_def split: graph_result.splits)

lemma turn_ports:
  "ports_ok turn_deps" "prices_at_most (1 / 50) turn_deps" "dget (ld_tools turn_deps) ''answer'' = None" "stops_interrupt turn_deps"
  by (auto simp: ports_ok_def prices_at_most_def at_most_def turn_deps_def dict_simps stops_interrupt_def split: if_splits)

lemma turn_start:
  "in_budget (1 / 50) turn_budget" "booked turn_deps demo_turn turn_budget" "es_answer demo_turn = None"
  by (auto simp: in_budget_def booked_def turn_budget_def demo_budget_def demo_turn_def used_calls_def dict_simps)

theorem turn_finishes_witness: "\<exists>r. run_loop turn_deps demo_turn turn_budget () = Finished r"
  using turn_finishes [OF turn_ports(1)] by (simp add: turn_budget_def demo_budget_def)

theorem turn_keeps_its_budget_witness:
  "in_budget (1 / 50) (lr_budget turn_end) \<and> booked turn_deps (lr_state turn_end) (lr_budget turn_end) \<and>
     iterations (lr_budget turn_end) = 2"
  using turn_keeps_its_budget [OF turn_end_run(1) turn_start(1,2) turn_ports(2) _ turn_ports(3)] turn_end_run(3) by simp


theorem turn_result_checked_witness:
  "case assemble_evidence (lr_state turn_end) SUFFICIENT None of
     EvidenceAbstain a \<Rightarrow> False
   | EvidenceOk claims cv ans \<Rightarrow> length claims = 1 \<and> ans \<noteq> None"
proof -
  have ne: "es_items (lr_state turn_end) \<noteq> []" using turn_end_run(5) by auto
  have len: "length (comparison_order xs) = length xs" for xs
    using sum_length_filter_compl [of "\<lambda>i. ei_conflicting i \<noteq> []" xs] by (simp add: comparison_order_def)
  show ?thesis
    using turn_result_checked [OF turn_end_run(1) turn_start(3) turn_ports(4), of None] ne len turn_end_run(2,5)
    by (auto split: evidence_result.splits)
qed

theorem checked_answer_sound_witness:
  "\<exists>a. check_answer [turn_item] False [\<lparr>as_sentence = ''5%'', as_refs = [1], as_role = None\<rparr>] = Inr a \<and>
     answer_backed [turn_item] a \<and> map sg_text (ea_segments a) = [''5%'']"
proof -
  let ?c = "check_answer [turn_item] False [\<lparr>as_sentence = ''5%'', as_refs = [1], as_role = None\<rparr>]"
  have "\<not> isl ?c" by code_simp
  then obtain a where a: "?c = Inr a" by (cases ?c) simp_all
  show ?thesis using checked_answer_sound [OF a] a by simp
qed

end
