(* ===== verification/Sum_Masking.thy ===== *)
theory Sum_Masking imports Py_Text begin

text \<open>
  The masking of standard terms in translations,
  \<open>backend/modules/summarization/.../domain/masking.py\<close>, with the Korean particles of
  \<open>shared/.../hangul.py\<close>. Texts are lists of code points here, since tokens and particles lie
  outside Latin-1; what the interpreter reads from the Unicode tables (\<open>\s\<close>, \<open>\d\<close>, \<open>\w\<close>, case
  folding, \<open>str.lower\<close>) is a parameter.
\<close>

section \<open>Unicode\<close>

type_synonym utext = "nat list"

record unicode =
  uc_space :: "nat \<Rightarrow> bool"
  uc_digit :: "nat \<Rightarrow> nat option"
  uc_fold :: "nat \<Rightarrow> nat"
  uc_lower :: "nat \<Rightarrow> utext"
  uc_word :: "nat \<Rightarrow> bool"

definition codes :: "string \<Rightarrow> utext" where
  "codes s = map of_char s"

definition nat_codes :: "nat \<Rightarrow> utext" where
  "nat_codes n = codes (py_nat_str n)"

definition u_rstrip :: "unicode \<Rightarrow> utext \<Rightarrow> utext" where
  "u_rstrip uc s = rev (dropWhile (uc_space uc) (rev s))"

definition u_lower :: "unicode \<Rightarrow> utext \<Rightarrow> utext" where
  "u_lower uc s = concat (map (uc_lower uc) s)"

section \<open>Particles\<close>

definition hangul :: "nat \<Rightarrow> bool" where
  "hangul c \<longleftrightarrow> 44032 \<le> c \<and> c \<le> 55203"

text \<open>The form after a final consonant and after a vowel, by either form.\<close>

definition PARTICLE_PAIRS :: "(utext \<times> (utext \<times> utext)) list" where
  "PARTICLE_PAIRS =
     [([51008], ([51008], [45716])), ([45716], ([51008], [45716])),
      ([51060], ([51060], [44032])), ([44032], ([51060], [44032])),
      ([51012], ([51012], [47484])), ([47484], ([51012], [47484])),
      ([44284], ([44284], [50752])), ([50752], ([44284], [50752])),
      ([51004, 47196], ([51004, 47196], [47196])), ([47196], ([51004, 47196], [47196]))]"

definition final_jamo :: "unicode \<Rightarrow> utext \<Rightarrow> (bool \<times> bool) option" where
  "final_jamo uc term =
     (let s = u_rstrip uc term in
      if s = [] \<or> \<not> hangul (last s) then None
      else let code = (last s - 44032) mod 28 in Some (code \<noteq> 0, code = 8))"

definition select_particle :: "utext \<Rightarrow> (bool \<times> bool) option \<Rightarrow> utext" where
  "select_particle particle fin =
     (case map_of PARTICLE_PAIRS particle of
        None \<Rightarrow> particle
      | Some (after_batchim, after_vowel) \<Rightarrow>
          (case fin of
             None \<Rightarrow> particle
           | Some (has_batchim, is_rieul) \<Rightarrow>
               if particle = [51004, 47196] \<or> particle = [47196]
               then (if \<not> has_batchim \<or> is_rieul then [47196] else [51004, 47196])
               else if has_batchim then after_batchim else after_vowel))"

section \<open>Tokens\<close>

abbreviation TOPEN :: nat where "TOPEN \<equiv> 10214"
abbreviation TCLOSE :: nat where "TCLOSE \<equiv> 10215"
abbreviation TMARK :: nat where "TMARK \<equiv> 71"

definition token_for :: "nat \<Rightarrow> utext" where
  "token_for i = TOPEN # TMARK # nat_codes i @ [TCLOSE]"

definition code_value :: "unicode \<Rightarrow> utext \<Rightarrow> nat" where
  "code_value uc ds = foldl (\<lambda>a d. a * 10 + the (uc_digit uc d)) 0 ds"

definition u_isdigit :: "unicode \<Rightarrow> nat \<Rightarrow> bool" where
  "u_isdigit uc c \<longleftrightarrow> uc_digit uc c \<noteq> None"

text \<open>\<open>_TOKEN_FIND_RE\<close> at the head of a text: the index and the rest.\<close>

definition tok_at :: "unicode \<Rightarrow> utext \<Rightarrow> (nat \<times> utext) option" where
  "tok_at uc s =
     (case s of
        [] \<Rightarrow> None
      | c # r \<Rightarrow>
          if c \<noteq> TOPEN then None
          else case dropWhile (uc_space uc) r of
            [] \<Rightarrow> None
          | g # r2 \<Rightarrow>
              if g \<noteq> TMARK then None
              else let r3 = dropWhile (uc_space uc) r2; ds = takeWhile (u_isdigit uc) r3 in
                if ds = [] then None
                else case dropWhile (uc_space uc) (dropWhile (u_isdigit uc) r3) of
                  [] \<Rightarrow> None
                | d # r4 \<Rightarrow> if d = TCLOSE then Some (code_value uc ds, r4) else None)"

lemma length_drop_le: "length (dropWhile P s) \<le> length s"
  by (rule length_dropWhile_le)

lemma tok_at_shorter: "tok_at uc s = Some (i, r) \<Longrightarrow> length r < length s"
proof -
  assume t: "tok_at uc s = Some (i, r)"
  then obtain c s1 where s: "s = c # s1" by (cases s) (simp_all add: tok_at_def)
  from t obtain g r2 where r2: "dropWhile (uc_space uc) s1 = g # r2"
    by (auto simp: tok_at_def s Let_def split: if_splits list.splits)
  let ?r3 = "dropWhile (uc_space uc) r2"
  from t r2 obtain d r4 where r4: "dropWhile (uc_space uc) (dropWhile (u_isdigit uc) ?r3) = d # r4" and r: "r = r4"
    by (auto simp: tok_at_def s Let_def split: if_splits list.splits)
  have "length (d # r4) \<le> length r2"
    using length_drop_le [of "uc_space uc" "dropWhile (u_isdigit uc) ?r3"] length_drop_le [of "u_isdigit uc" ?r3]
      length_drop_le [of "uc_space uc" r2] unfolding r4 by linarith
  moreover have "length (g # r2) \<le> length s1" using length_drop_le [of "uc_space uc" s1] by (simp add: r2)
  ultimately show ?thesis by (simp add: s r)
qed

function found_tokens :: "unicode \<Rightarrow> utext \<Rightarrow> nat list" where
  "found_tokens uc [] = []"
| "found_tokens uc (c # s) =
     (case tok_at uc (c # s) of
        Some (i, r) \<Rightarrow> i # found_tokens uc r
      | None \<Rightarrow> found_tokens uc s)"
  by pat_completeness auto
termination
  by (relation "measure (length \<circ> snd)") (auto dest: tok_at_shorter)

definition contains_token :: "utext \<Rightarrow> bool" where
  "contains_token s \<longleftrightarrow> TOPEN \<in> set s \<or> TCLOSE \<in> set s"

section \<open>The table\<close>

datatype mask_kind = KEEP_AS_IS | MAPPING

record mask_entry =
  me_index :: nat
  me_from :: utext
  me_kind :: mask_kind
  me_seed :: utext

text \<open>A later entry of the same index would hide an earlier one.\<close>

definition by_index :: "mask_entry list \<Rightarrow> nat \<Rightarrow> mask_entry option" where
  "by_index table i = find (\<lambda>e. me_index e = i) (rev table)"

definition SEED_KEEP_AS_IS :: "utext list" where
  "SEED_KEEP_AS_IS = map codes
     [''Transformer'', ''BERT'', ''GPT'', ''T5'', ''BART'', ''RoBERTa'', ''CLIP'', ''ViT'', ''ResNet'', ''U-Net'',
      ''CNN'', ''RNN'', ''LSTM'', ''MLP'', ''GAN'', ''VAE'', ''GNN'', ''MoE'', ''LoRA'', ''RAG'',
      ''fine-tuning'', ''RLHF'', ''SFT'', ''PPO'', ''DPO'', ''PEFT'', ''LLM'', ''SOTA'', ''ReLU'', ''Adam'', ''SGD'',
      ''ImageNet'', ''BLEU'', ''ROUGE'', ''F1'', ''AUC'', ''IoU'']"

definition SEED_MAPPINGS :: "(utext \<times> utext) list" where
  "SEED_MAPPINGS =
     [(codes ''attention'', [50612, 53584, 49496]), (codes ''embedding'', [51076, 48288, 46377]),
      (codes ''latent space'', [51104, 51116, 32, 44277, 44036])]"

definition build_mask_table :: "mask_entry list" where
  "build_mask_table =
     map (\<lambda>(i, t). \<lparr>me_index = i, me_from = t, me_kind = KEEP_AS_IS, me_seed = t\<rparr>)
       (zip [0..<length SEED_KEEP_AS_IS] SEED_KEEP_AS_IS) @
     map (\<lambda>(i, f, t). \<lparr>me_index = length SEED_KEEP_AS_IS + i, me_from = f, me_kind = MAPPING, me_seed = t\<rparr>)
       (zip [0..<length SEED_MAPPINGS] SEED_MAPPINGS)"

section \<open>Masking\<close>

text \<open>\<open>[A-Za-z0-9_]\<close> under \<open>IGNORECASE\<close>.\<close>

definition ascii_word :: "nat \<Rightarrow> bool" where
  "ascii_word c \<longleftrightarrow> (48 \<le> c \<and> c \<le> 57) \<or> (65 \<le> c \<and> c \<le> 90) \<or> c = 95 \<or> (97 \<le> c \<and> c \<le> 122)"

definition word_char :: "unicode \<Rightarrow> nat \<Rightarrow> bool" where
  "word_char uc c \<longleftrightarrow> ascii_word (uc_fold uc c)"

definition boundary :: "unicode \<Rightarrow> nat option \<Rightarrow> bool" where
  "boundary uc c \<longleftrightarrow> (case c of None \<Rightarrow> True | Some c \<Rightarrow> \<not> word_char uc c)"

definition head_of :: "utext \<Rightarrow> nat option" where
  "head_of s = (case s of [] \<Rightarrow> None | c # _ \<Rightarrow> Some c)"

text \<open>\<open>_boundary_re(term)\<close> at the head of \<open>s\<close>; \<open>prev\<close> is for the look-behind. Terms are not empty.\<close>

definition term_at :: "unicode \<Rightarrow> utext \<Rightarrow> nat option \<Rightarrow> utext \<Rightarrow> bool" where
  "term_at uc term prev s \<longleftrightarrow>
     term \<noteq> [] \<and> boundary uc prev \<and> length term \<le> length s \<and>
     map (uc_fold uc) (take (length term) s) = map (uc_fold uc) term \<and>
     boundary uc (head_of (drop (length term) s))"

text \<open>\<open>pattern.search\<close> and \<open>pattern.sub\<close>: the text and whether anything matched.\<close>

function mask_pass :: "unicode \<Rightarrow> utext \<Rightarrow> utext \<Rightarrow> nat option \<Rightarrow> utext \<Rightarrow> utext \<times> bool" where
  "mask_pass uc term tok prev [] = ([], False)"
| "mask_pass uc term tok prev (c # s) =
     (if term_at uc term prev (c # s) then
        (tok @ fst (mask_pass uc term tok (Some ((c # s) ! (length term - 1))) (drop (length term) (c # s))), True)
      else
        (c # fst (mask_pass uc term tok (Some c) s), snd (mask_pass uc term tok (Some c) s)))"
  by pat_completeness auto
termination
  by (relation "measure (\<lambda>(_, _, _, _, s). length s)") (auto simp: term_at_def)

declare mask_pass.simps [simp del]

definition mask_step :: "unicode \<Rightarrow> mask_entry \<Rightarrow> utext \<times> nat list \<Rightarrow> utext \<times> nat list" where
  "mask_step uc e tp =
     (case mask_pass uc (me_from e) (token_for (me_index e)) None (fst tp) of
        (t, hit) \<Rightarrow> if hit then (t, me_index e # snd tp) else tp)"

text \<open>Longest term first; \<open>sorted\<close> keeps the order of terms of one length, also with \<open>reverse\<close>.\<close>

definition mask_text :: "unicode \<Rightarrow> utext \<Rightarrow> mask_entry list \<Rightarrow> utext \<times> nat list" where
  "mask_text uc s table =
     fold (mask_step uc) (sort_key (\<lambda>e. - int (length (me_from e))) table) (s, [])"

section \<open>Rendering\<close>

definition KEEPASIS_BATCHIM :: "(utext \<times> bool) list" where
  "KEEPASIS_BATCHIM = map (\<lambda>(t, b). (codes t, b))
     [(''transformer'', False), (''bert'', False), (''gpt'', False), (''bart'', False), (''roberta'', False),
      (''clip'', True), (''resnet'', True), (''u-net'', True), (''cnn'', True), (''rnn'', True), (''lstm'', True),
      (''gan'', True), (''gnn'', True), (''lora'', False), (''rag'', True), (''fine-tuning'', True), (''llm'', True),
      (''sota'', False), (''relu'', False), (''adam'', True), (''sgd'', False), (''imagenet'', True),
      (''bleu'', False), (''rouge'', False), (''f1'', True), (''auc'', False), (''iou'', False)]"

definition term_final :: "unicode \<Rightarrow> utext \<Rightarrow> (bool \<times> bool) option" where
  "term_final uc term =
     (case final_jamo uc term of
        Some f \<Rightarrow> Some f
      | None \<Rightarrow> map_option (\<lambda>b. (b, False)) (map_of KEEPASIS_BATCHIM (u_lower uc (u_rstrip uc term))))"

definition normalize_particle :: "unicode \<Rightarrow> utext \<Rightarrow> utext \<Rightarrow> utext" where
  "normalize_particle uc term particle = select_particle particle (term_final uc term)"

definition PARTICLE_ALT :: "utext list" where
  "PARTICLE_ALT = sort_key (\<lambda>p. - int (length p)) (map fst PARTICLE_PAIRS)"

text \<open>The optional group of \<open>_RENDER_RE\<close>: a particle that no Hangul syllable follows.\<close>

definition josa_at :: "utext \<Rightarrow> utext option" where
  "josa_at s = find (\<lambda>p. take (length p) s = p \<and>
     (case head_of (drop (length p) s) of None \<Rightarrow> True | Some c \<Rightarrow> \<not> hangul c)) PARTICLE_ALT"

definition josa_rest :: "utext \<Rightarrow> utext" where
  "josa_rest s = (case josa_at s of None \<Rightarrow> s | Some p \<Rightarrow> drop (length p) s)"

definition rendered :: "unicode \<Rightarrow> mask_entry list \<Rightarrow> (mask_entry \<Rightarrow> utext) \<Rightarrow> nat \<Rightarrow> utext \<Rightarrow> utext" where
  "rendered uc table eff i r =
     (case by_index table i of
        None \<Rightarrow> []
      | Some e \<Rightarrow> eff e @ (case josa_at r of None \<Rightarrow> [] | Some p \<Rightarrow> normalize_particle uc (eff e) p))"

lemma josa_rest_shorter: "length (josa_rest r) \<le> length r"
  by (simp add: josa_rest_def split: option.split)

lemma josa_rest_step: "tok_at uc s = Some (i, r) \<Longrightarrow> length (josa_rest r) < length s"
  using josa_rest_shorter [of r] tok_at_shorter [of uc s i r] by simp

function render_pass :: "unicode \<Rightarrow> mask_entry list \<Rightarrow> (mask_entry \<Rightarrow> utext) \<Rightarrow> utext \<Rightarrow> utext \<times> nat list" where
  "render_pass uc table eff [] = ([], [])"
| "render_pass uc table eff (c # s) =
     (case tok_at uc (c # s) of
        Some (i, r) \<Rightarrow>
          (rendered uc table eff i r @ fst (render_pass uc table eff (josa_rest r)),
           (if by_index table i = None then [] else [i]) @ snd (render_pass uc table eff (josa_rest r)))
      | None \<Rightarrow> (c # fst (render_pass uc table eff s), snd (render_pass uc table eff s)))"
  by pat_completeness auto
termination
  by (relation "measure (\<lambda>(_, _, _, s). length s)")
    (auto dest: josa_rest_step)

text \<open>\<open>_RESIDUAL_RE\<close> at the head of a text.\<close>

definition residual_at :: "unicode \<Rightarrow> utext \<Rightarrow> utext option" where
  "residual_at uc s =
     (case s of
        [] \<Rightarrow> None
      | c # r \<Rightarrow>
          if c \<noteq> TOPEN then None
          else let r1 = dropWhile (uc_space uc) r;
                   r2 = (case r1 of g # r' \<Rightarrow> if g = TMARK then r' else r1 | [] \<Rightarrow> r1);
                   r3 = dropWhile (uc_space uc) (dropWhile (u_isdigit uc) (dropWhile (uc_space uc) r2))
               in case r3 of d # r4 \<Rightarrow> if d = TCLOSE then Some r4 else None | [] \<Rightarrow> None)"

lemma residual_shorter: "residual_at uc s = Some r \<Longrightarrow> length r < length s"
proof -
  assume t: "residual_at uc s = Some r"
  then obtain c s1 where s: "s = c # s1" by (cases s) (simp_all add: residual_at_def)
  define r1 where "r1 = dropWhile (uc_space uc) s1"
  define r2 where "r2 = (case r1 of g # r' \<Rightarrow> if g = TMARK then r' else r1 | [] \<Rightarrow> r1)"
  have r: "dropWhile (uc_space uc) (dropWhile (u_isdigit uc) (dropWhile (uc_space uc) r2)) = TCLOSE # r"
  proof -
    have "(case dropWhile (uc_space uc) (dropWhile (u_isdigit uc) (dropWhile (uc_space uc) r2)) of
        d # r4 \<Rightarrow> if d = TCLOSE then Some r4 else None | [] \<Rightarrow> None) = Some r"
      using t unfolding residual_at_def s list.case Let_def r1_def [symmetric] r2_def [symmetric]
      by (simp split: if_splits)
    then show ?thesis by (simp split: list.splits if_splits)
  qed
  have "length (TCLOSE # r) \<le> length r2"
    unfolding r [symmetric] using length_drop_le le_trans by metis
  moreover have "length r2 \<le> length r1" by (simp add: r2_def split: list.split)
  moreover have "length r1 \<le> length s1" by (simp add: r1_def length_drop_le)
  ultimately show ?thesis by (simp add: s)
qed

function sweep :: "unicode \<Rightarrow> utext \<Rightarrow> utext" where
  "sweep uc [] = []"
| "sweep uc (c # s) =
     (case residual_at uc (c # s) of Some r \<Rightarrow> sweep uc r | None \<Rightarrow> c # sweep uc s)"
  by pat_completeness auto
termination
  by (relation "measure (length \<circ> snd)") (auto dest: residual_shorter)

definition render_tokens :: "unicode \<Rightarrow> utext \<Rightarrow> mask_entry list \<Rightarrow> (mask_entry \<Rightarrow> utext) \<Rightarrow> utext \<times> nat list" where
  "render_tokens uc s table eff =
     (case render_pass uc table eff s of (out, seen) \<Rightarrow> (sweep uc out, seen))"

end
