(* ===== verification/Sum_Models.thy ===== *)
theory Sum_Models imports Sum_Masking DS_Prelude begin

text \<open>
  The entities of the summarization unit, \<open>summarization/.../domain/models.py\<close>, the doc-model
  contract over code points, the personal glossary (\<open>domain/glossary.py\<close>), the keys of derived
  artifacts (\<open>domain/cache_key.py\<close>), and the small rules on input size (\<open>token_estimate.py\<close>,
  \<open>length_router.py\<close>).
\<close>

section \<open>Documents\<close>

datatype ublock =
    UParagraph string utext
  | UFormula string "utext option"
  | UFigure string "utext option" "utext option"
  | UTable string "utext option" "utext option" "utext list list"
  | UList string "utext list"
  | UCode string utext

text \<open>Figure and table carry their label, then their caption.\<close>

datatype usection = USection (us_id: string) (us_title: utext) (us_blocks: "ublock list") (us_sections: "usection list")

record udoc =
  ud_paper :: string
  ud_version :: int
  ud_title :: utext
  ud_parser :: string
  ud_full_text :: utext
  ud_sections :: "usection list"

section \<open>Requests, sources and results\<close>

datatype sum_task = SUMMARY_TASK | TRANSLATE_TASK
datatype persona = EXPERT | BEGINNER
datatype sum_scope = ABSTRACT_SCOPE | FULL_SCOPE
datatype source_kind = FULL_TEXT_KIND | ABSTRACT_KIND

record sum_request =
  sq_paper :: string
  sq_version :: int
  sq_task :: sum_task
  sq_persona :: persona
  sq_scope :: sum_scope
  sq_abstract :: "utext option"

record source_text =
  st_kind :: source_kind
  st_raw :: utext
  st_doc :: "udoc option"
  st_fallback :: "string option"

record sum_section =
  sn_label :: utext
  sn_start :: nat
  sn_end :: nat
  sn_anchor :: string

record sum_table =
  sb_label :: utext
  sb_rows :: "utext list list"
  sb_caption :: utext
  sb_anchor :: string

record sum_figure =
  sf_label :: utext
  sf_anchor :: string

record refined =
  rf_body :: utext
  rf_sections :: "sum_section list"
  rf_tables :: "sum_table list"
  rf_figures :: "sum_figure list"
  rf_captions :: "utext list"
  rf_token_count :: nat

datatype anchor_target = AT_SECTION | AT_TABLE | AT_FIGURE

record sum_anchor =
  an_field :: string
  an_target :: anchor_target
  an_span :: utext
  an_label :: utext
  an_block :: string
  an_hint :: utext

record summary_draft =
  sd_tldr :: utext
  sd_contributions :: "utext list"
  sd_method :: utext
  sd_results :: utext
  sd_limitations :: utext
  sd_reproducibility :: "(string, utext) dict"
  sd_anchors :: "sum_anchor list"
  sd_truncated :: bool

record translation_draft =
  td_doc :: udoc
  td_kept :: "utext list"

section \<open>The glossary\<close>

record term_mapping =
  tm_from :: utext
  tm_to :: utext
  tm_enforced :: bool

record glossary =
  gl_seed_mappings :: "(utext \<times> utext) list"
  gl_keep :: "utext list"
  gl_overrides :: "term_mapping list"

text \<open>\<open>GlossaryResolver.resolve\<close>: a repository that fails leaves the seed alone.\<close>

definition resolve_glossary :: "(string \<Rightarrow> string + term_mapping list) option \<Rightarrow> string option \<Rightarrow> glossary" where
  "resolve_glossary repo user =
     \<lparr>gl_seed_mappings = SEED_MAPPINGS, gl_keep = SEED_KEEP_AS_IS,
      gl_overrides =
        (case (repo, user) of
           (Some f, Some u) \<Rightarrow> (case f u of Inl e \<Rightarrow> [] | Inr ms \<Rightarrow> ms)
         | _ \<Rightarrow> [])\<rparr>"

text \<open>
  The signatures. \<open>digest\<close> stands for the number in the first twelve hexadecimal digits of the SHA-256
  of the sorted list; tuples and texts are ordered lexicographically, texts by code points.
\<close>

fun text_less :: "utext \<Rightarrow> utext \<Rightarrow> bool" where
  "text_less _ [] = False"
| "text_less [] (d # t) = True"
| "text_less (c # s) (d # t) = (c < d \<or> (c = d \<and> text_less s t))"

definition pair_le :: "utext \<times> utext \<Rightarrow> utext \<times> utext \<Rightarrow> bool" where
  "pair_le p q \<longleftrightarrow> text_less (fst p) (fst q) \<or> (fst p = fst q \<and> \<not> text_less (snd q) (snd p))"

fun insert_pair :: "utext \<times> utext \<Rightarrow> (utext \<times> utext) list \<Rightarrow> (utext \<times> utext) list" where
  "insert_pair p [] = [p]"
| "insert_pair p (q # qs) = (if pair_le p q then p # q # qs else q # insert_pair p qs)"

definition sorted_pairs :: "(utext \<times> utext) list \<Rightarrow> (utext \<times> utext) list" where
  "sorted_pairs ps = foldr insert_pair ps []"

definition signature_by :: "((utext \<times> utext) list \<Rightarrow> nat) \<Rightarrow> term_mapping list \<Rightarrow> nat" where
  "signature_by digest ms =
     (let enforced = sorted_pairs (map (\<lambda>m. (tm_from m, tm_to m)) ms)
      in if enforced = [] then 0 else digest enforced)"

definition signature_of :: "((utext \<times> utext) list \<Rightarrow> nat) \<Rightarrow> glossary \<Rightarrow> nat" where
  "signature_of digest g = signature_by digest (filter tm_enforced (gl_overrides g))"

definition seed_terms :: "unicode \<Rightarrow> glossary \<Rightarrow> utext list" where
  "seed_terms uc g = map (u_lower uc) (gl_keep g) @ map (u_lower uc \<circ> fst) (gl_seed_mappings g)"

definition signature_of_translate :: "unicode \<Rightarrow> ((utext \<times> utext) list \<Rightarrow> nat) \<Rightarrow> glossary \<Rightarrow> nat" where
  "signature_of_translate uc digest g =
     signature_by digest (filter (\<lambda>m. tm_enforced m \<and> u_lower uc (tm_from m) \<notin> set (seed_terms uc g)) (gl_overrides g))"

text \<open>
  \<open>post_substitute\<close>: the weak terms, longest first, each replaced where no word character comes
  before. A term is not empty (the router refuses one).
\<close>

function substitute_term :: "unicode \<Rightarrow> utext \<Rightarrow> utext \<Rightarrow> nat option \<Rightarrow> utext \<Rightarrow> utext" where
  "substitute_term uc f t prev [] = []"
| "substitute_term uc f t prev (c # s) =
     (if f \<noteq> [] \<and> (case prev of None \<Rightarrow> True | Some p \<Rightarrow> \<not> uc_word uc p) \<and> take (length f) (c # s) = f
      then t @ substitute_term uc f t (Some (last f)) (drop (length f) (c # s))
      else c # substitute_term uc f t (Some c) s)"
  by pat_completeness auto
termination
  by (relation "measure (\<lambda>(_, _, _, _, s). length s)") auto

definition post_substitute :: "unicode \<Rightarrow> utext \<Rightarrow> glossary \<Rightarrow> utext" where
  "post_substitute uc s g =
     fold (\<lambda>m s. substitute_term uc (tm_from m) (tm_to m) None s)
       (sort_key (\<lambda>m. - int (length (tm_from m))) (filter (\<lambda>m. \<not> tm_enforced m) (gl_overrides g))) s"

section \<open>Sizes\<close>

definition CHARS_PER_TOKEN :: nat where "CHARS_PER_TOKEN = 4"

definition estimate_tokens :: "utext \<Rightarrow> nat" where
  "estimate_tokens s = max 1 (length s div CHARS_PER_TOKEN)"

datatype length_route = SINGLE | MAP_REDUCE | OVER_CAP

definition DEFAULT_CONTEXT_BUDGET_TOKENS :: nat where "DEFAULT_CONTEXT_BUDGET_TOKENS = 40000"
definition DEFAULT_INPUT_CAP_TOKENS :: nat where "DEFAULT_INPUT_CAP_TOKENS = 120000"

definition route :: "nat \<Rightarrow> nat \<Rightarrow> nat \<Rightarrow> length_route" where
  "route budget cap n = (if n > cap then OVER_CAP else if n > budget then MAP_REDUCE else SINGLE)"

section \<open>Keys\<close>

record cache_key =
  cy_paper :: string
  cy_version :: int
  cy_task :: sum_task
  cy_scope :: sum_scope
  cy_persona :: persona
  cy_glossary :: nat
  cy_model :: string
  cy_prompt :: string
  cy_owner :: "string option"
  cy_seed :: string
  cy_docmodel :: string

fun task_value :: "sum_task \<Rightarrow> string" where
  "task_value SUMMARY_TASK = ''summary''"
| "task_value TRANSLATE_TASK = ''translate''"

fun persona_value :: "persona \<Rightarrow> string" where
  "persona_value EXPERT = ''expert''"
| "persona_value BEGINNER = ''beginner''"

fun sum_scope_value :: "sum_scope \<Rightarrow> string" where
  "sum_scope_value ABSTRACT_SCOPE = ''abstract''"
| "sum_scope_value FULL_SCOPE = ''full''"

definition opt_segment :: "string \<Rightarrow> string \<Rightarrow> string" where
  "opt_segment mark v = (if v = [] then [] else mark @ v)"

text \<open>The one target language is \<open>ko\<close>.\<close>

definition object_path :: "cache_key \<Rightarrow> string" where
  "object_path k =
     ''summaries/'' @ cy_paper k @ ''/v'' @ py_int_str (cy_version k) @ ''/'' @
     task_value (cy_task k) @ ''_ko_'' @ sum_scope_value (cy_scope k) @ ''_'' @ persona_value (cy_persona k) @
     ''_g'' @ py_nat_str (cy_glossary k) @ opt_segment ''_u'' (case cy_owner k of None \<Rightarrow> [] | Some u \<Rightarrow> u) @
     opt_segment ''_s'' (cy_seed k) @ ''_'' @ cy_model k @ ''_'' @ cy_prompt k @ opt_segment ''_d'' (cy_docmodel k) @ ''.json''"

definition redis_key :: "cache_key \<Rightarrow> string" where
  "redis_key k = ''sum:'' @ object_path k"

definition PROMPT_VER :: string where "PROMPT_VER = ''p4''"
definition TRANSLATE_FORMAT_VER :: string where "TRANSLATE_FORMAT_VER = ''m1''"

definition docmodel_generation :: "string \<Rightarrow> string" where
  "docmodel_generation v =
     (if CHR ''@'' \<in> set v then rev (takeWhile (\<lambda>c. c \<noteq> CHR ''@'') (rev v)) else v)"

definition build_cache_key :: "sum_request \<Rightarrow> nat \<Rightarrow> string \<Rightarrow> string option \<Rightarrow> string \<Rightarrow> string \<Rightarrow> cache_key" where
  "build_cache_key q glossary_ver model_ver user seed_ver parser =
     (let summary = (sq_task q = SUMMARY_TASK) in
      \<lparr>cy_paper = sq_paper q, cy_version = sq_version q, cy_task = sq_task q,
       cy_scope = (if summary then FULL_SCOPE else sq_scope q), cy_persona = (if summary then sq_persona q else EXPERT),
       cy_glossary = glossary_ver, cy_model = model_ver,
       cy_prompt = (if summary then PROMPT_VER else PROMPT_VER @ ''-'' @ TRANSLATE_FORMAT_VER),
       cy_owner = (if glossary_ver > 0 then user else None), cy_seed = seed_ver,
       cy_docmodel = docmodel_generation parser\<rparr>)"

end
