(* ===== verification/Py_Action.thy ===== *)
theory Py_Action imports DS_Prelude begin

text \<open>
  Actions: what a method does to the state it works on (its own objects and the world behind its
  ports), returning or raising. \<open>sret\<close>, \<open>sraise\<close>, \<open>sbind\<close> and \<open>stry\<close> are return, raise,
  sequencing and try/except; \<open>sget\<close> and \<open>smod\<close> read and change the state. Whatever a method has
  changed before it raises stays changed.

  Two ways to reason about them: \<open>keeps\<close>, an invariant of the state that an action keeps whatever
  it returns, and \<open>after\<close>, the weakest precondition with a postcondition for each of the two ways an
  action ends.
\<close>

section \<open>Actions\<close>

type_synonym ('e, 'w, 'a) act = "'w \<Rightarrow> ('e + 'a) \<times> 'w"

definition sret :: "'a \<Rightarrow> ('e, 'w, 'a) act" where
  "sret x w = (Inr x, w)"

definition sraise :: "'e \<Rightarrow> ('e, 'w, 'a) act" where
  "sraise e w = (Inl e, w)"

definition sbind :: "('e, 'w, 'a) act \<Rightarrow> ('a \<Rightarrow> ('e, 'w, 'b) act) \<Rightarrow> ('e, 'w, 'b) act" where
  "sbind m f w = (case m w of (Inl e, w') \<Rightarrow> (Inl e, w') | (Inr x, w') \<Rightarrow> f x w')"

definition stry :: "('e, 'w, 'a) act \<Rightarrow> ('e \<Rightarrow> ('e, 'w, 'a) act) \<Rightarrow> ('e, 'w, 'a) act" where
  "stry m h w = (case m w of (Inl e, w') \<Rightarrow> h e w' | (Inr x, w') \<Rightarrow> (Inr x, w'))"

text \<open>Whatever it returns or raises, the action keeps \<open>I\<close>; what it returns satisfies \<open>Q\<close>.\<close>

definition keeps :: "('w \<Rightarrow> bool) \<Rightarrow> ('e, 'w, 'a) act \<Rightarrow> ('a \<Rightarrow> bool) \<Rightarrow> bool" where
  "keeps I m Q \<longleftrightarrow> (\<forall>w. I w \<longrightarrow> I (snd (m w)) \<and> (\<forall>x. fst (m w) = Inr x \<longrightarrow> Q x))"

lemma keepsD: "keeps I m Q \<Longrightarrow> m w = (Inr x, v) \<Longrightarrow> I w \<Longrightarrow> Q x"
  by (metis fst_conv keeps_def)

lemma keeps_world: "keeps I m Q \<Longrightarrow> I w \<Longrightarrow> I (snd (m w))"
  by (simp add: keeps_def)

lemma keeps_sret: "Q x \<Longrightarrow> keeps I (sret x) Q"
  by (simp add: keeps_def sret_def)

lemma keeps_sraise: "keeps I (sraise e) Q"
  by (simp add: keeps_def sraise_def)

lemma keeps_sbind:
  assumes "keeps I m R" and "\<And>x. R x \<Longrightarrow> keeps I (f x) Q"
  shows "keeps I (sbind m f) Q"
  unfolding keeps_def
proof (intro allI impI)
  fix w assume w: "I w"
  obtain r v where run: "m w = (r, v)" by force
  then have v: "I v" "\<And>x. r = Inr x \<Longrightarrow> R x" using assms(1) w by (auto simp: keeps_def)
  show "I (snd (sbind m f w)) \<and> (\<forall>x. fst (sbind m f w) = Inr x \<longrightarrow> Q x)"
    using v assms(2) by (cases r) (auto simp: sbind_def run keeps_def)
qed

lemma keeps_stry:
  assumes "keeps I m Q" and "\<And>e. keeps I (h e) Q"
  shows "keeps I (stry m h) Q"
  unfolding keeps_def
proof (intro allI impI)
  fix w assume w: "I w"
  obtain r v where run: "m w = (r, v)" by force
  then have v: "I v" "\<And>x. r = Inr x \<Longrightarrow> Q x" using assms(1) w by (auto simp: keeps_def)
  show "I (snd (stry m h w)) \<and> (\<forall>x. fst (stry m h w) = Inr x \<longrightarrow> Q x)"
    using v assms(2) by (cases r) (auto simp: stry_def run keeps_def)
qed

lemma keeps_mono: "keeps I m R \<Longrightarrow> (\<And>x. R x \<Longrightarrow> Q x) \<Longrightarrow> keeps I m Q"
  by (auto simp: keeps_def)

section \<open>Weakest preconditions\<close>

named_theorems after_simps "the weakest precondition of each construct"

definition sget :: "('w \<Rightarrow> 'a) \<Rightarrow> ('e, 'w, 'a) act" where
  "sget f w = (Inr (f w), w)"

definition smod :: "('w \<Rightarrow> 'w) \<Rightarrow> ('e, 'w, unit) act" where
  "smod f w = (Inr (), f w)"

definition after :: "('e, 'w, 'a) act \<Rightarrow> ('a \<Rightarrow> 'w \<Rightarrow> bool) \<Rightarrow> ('e \<Rightarrow> 'w \<Rightarrow> bool) \<Rightarrow> 'w \<Rightarrow> bool" where
  "after m Q E w = (case m w of (Inl e, v) \<Rightarrow> E e v | (Inr x, v) \<Rightarrow> Q x v)"

lemma after_sret [after_simps]: "after (sret x) Q E w = Q x w"
  by (simp add: after_def sret_def)

lemma after_sraise [after_simps]: "after (sraise e) Q E w = E e w"
  by (simp add: after_def sraise_def)

lemma after_sget [after_simps]: "after (sget f) Q E w = Q (f w) w"
  by (simp add: after_def sget_def)

lemma after_smod [after_simps]: "after (smod f) Q E w = Q () (f w)"
  by (simp add: after_def smod_def)

lemma after_sbind [after_simps]: "after (sbind m f) Q E w = after m (\<lambda>x. after (f x) Q E) E w"
  by (auto simp: after_def sbind_def split: prod.split sum.split)

lemma after_stry [after_simps]: "after (stry m h) Q E w = after m Q (\<lambda>e. after (h e) Q E) w"
  by (auto simp: after_def stry_def split: prod.split sum.split)

lemma after_if [after_simps]: "after (if b then m else n) Q E w = (if b then after m Q E w else after n Q E w)"
  by simp

lemma after_mono:
  "after m Q E w \<Longrightarrow> (\<And>x v. Q x v \<Longrightarrow> Q' x v) \<Longrightarrow> (\<And>e v. E e v \<Longrightarrow> E' e v) \<Longrightarrow> after m Q' E' w"
  by (auto simp: after_def split: prod.splits sum.splits)

lemma after_conj:
  "after m (\<lambda>x v. Q x v \<and> R x v) (\<lambda>e v. E e v \<and> F e v) w \<longleftrightarrow> after m Q E w \<and> after m R F w"
  by (auto simp: after_def split: prod.split sum.split)

lemma after_True: "after m (\<lambda>x v. True) (\<lambda>e v. True) w"
  by (auto simp: after_def split: prod.split sum.split)

lemma after_run: "after m Q E w \<longleftrightarrow> (\<forall>r v. m w = (r, v) \<longrightarrow> (case r of Inl e \<Rightarrow> E e v | Inr x \<Rightarrow> Q x v))"
  by (auto simp: after_def split: prod.split sum.split)

lemma after_world: "after m (\<lambda>x. P) (\<lambda>e. P) w \<longleftrightarrow> P (snd (m w))"
  by (auto simp: after_def split: prod.split sum.split)

lemma after_keeps: "keeps I m Q \<Longrightarrow> I w \<Longrightarrow> after m (\<lambda>x v. I v \<and> Q x) (\<lambda>e. I) w"
  by (auto simp: after_def keeps_def split: prod.split sum.split)

section \<open>Invariants\<close>

abbreviation stays :: "('w \<Rightarrow> bool) \<Rightarrow> ('e, 'w, 'a) act \<Rightarrow> bool" where
  "stays I m \<equiv> keeps I m (\<lambda>_. True)"

named_theorems stays_intros "an invariant, construct by construct"

lemma stays_after: "stays I m \<longleftrightarrow> (\<forall>w. I w \<longrightarrow> after m (\<lambda>_. I) (\<lambda>_. I) w)"
  by (simp add: after_world keeps_def)

lemma keeps_sget: "(\<And>w. I w \<Longrightarrow> Q (f w)) \<Longrightarrow> keeps I (sget f) Q"
  by (simp add: keeps_def sget_def)

lemma stays_sret [stays_intros]: "stays I (sret x)"
  by (simp add: keeps_sret)

lemma stays_sraise [stays_intros]: "stays I (sraise e)"
  by (rule keeps_sraise)

lemma stays_sget [stays_intros]: "stays I (sget f)"
  by (simp add: keeps_sget)

lemma stays_smod: "(\<And>w. I w \<Longrightarrow> I (f w)) \<Longrightarrow> stays I (smod f)"
  by (simp add: keeps_def smod_def)

lemma stays_sbind [stays_intros]: "stays I m \<Longrightarrow> (\<And>x. stays I (f x)) \<Longrightarrow> stays I (sbind m f)"
  by (rule keeps_sbind)

lemma stays_stry [stays_intros]: "stays I m \<Longrightarrow> (\<And>e. stays I (h e)) \<Longrightarrow> stays I (stry m h)"
  by (rule keeps_stry)

lemma stays_if [stays_intros]: "(b \<Longrightarrow> stays I m) \<Longrightarrow> (\<not> b \<Longrightarrow> stays I n) \<Longrightarrow> stays I (if b then m else n)"
  by simp

lemma stays_option [stays_intros]:
  "(x = None \<Longrightarrow> stays I m) \<Longrightarrow> (\<And>y. x = Some y \<Longrightarrow> stays I (f y)) \<Longrightarrow> stays I (case x of None \<Rightarrow> m | Some y \<Rightarrow> f y)"
  by (cases x) simp_all

lemma stays_sum [stays_intros]:
  "(\<And>e. x = Inl e \<Longrightarrow> stays I (f e)) \<Longrightarrow> (\<And>y. x = Inr y \<Longrightarrow> stays I (g y)) \<Longrightarrow> stays I (case x of Inl e \<Rightarrow> f e | Inr y \<Rightarrow> g y)"
  by (cases x) simp_all

lemma stays_Let [stays_intros]: "stays I (f x) \<Longrightarrow> stays I (let y = x in f y)"
  by simp

end
