(* ===== verification/Sum_Input.thy ===== *)
theory Sum_Input imports Sum_Models Py_Action begin

text \<open>
  What is summarized: the choice of the source (\<open>domain/source_selector.py\<close>,
  \<open>version_fallback.py\<close>), its projection to a refined body (\<open>refiner.py\<close>, the doc-model path; the
  regular expressions of the legacy plain-text path are the parameter \<open>refine_plain\<close>), and the chunks
  of the map-reduce path (\<open>map_reduce.py\<close>, \<open>parallel.py\<close>).
\<close>

section \<open>The source\<close>

text \<open>
  A reader: the stored artifact of a version, and, if it can list them, the latest version stored
  (\<open>None\<close> is a lookup that fails).
\<close>

record 'd version_reader =
  vr_get :: "string \<Rightarrow> int \<Rightarrow> 'd option"
  vr_latest :: "(string \<Rightarrow> int option) option"

definition fallback_version :: "'d version_reader option \<Rightarrow> string \<Rightarrow> int \<Rightarrow> int option" where
  "fallback_version reader paper requested =
     (case reader of
        None \<Rightarrow> None
      | Some r \<Rightarrow>
          (case vr_latest r of
             None \<Rightarrow> None
           | Some lookup \<Rightarrow>
               (case lookup paper of
                  None \<Rightarrow> None
                | Some latest \<Rightarrow> if latest \<le> 0 \<or> latest = requested then None else Some latest)))"

record source_ports =
  sp_full_text :: "string \<Rightarrow> int \<Rightarrow> utext option"
  sp_abstract :: "(string \<Rightarrow> string + utext option) option"
  sp_docs :: "udoc version_reader option"

definition filled_text :: "utext option \<Rightarrow> utext option" where
  "filled_text t = (case t of Some s \<Rightarrow> if s = [] then None else Some s | None \<Rightarrow> None)"

text \<open>The abstract carried by the request, or looked up; a lookup that raises finds nothing.\<close>

definition abstract_of :: "source_ports \<Rightarrow> sum_request \<Rightarrow> utext option" where
  "abstract_of p q =
     (case filled_text (sq_abstract q) of
        Some a \<Rightarrow> Some a
      | None \<Rightarrow>
          (case sp_abstract p of
             None \<Rightarrow> None
           | Some lookup \<Rightarrow> (case lookup (sq_paper q) of Inl e \<Rightarrow> None | Inr a \<Rightarrow> filled_text a)))"

definition stored_doc :: "source_ports \<Rightarrow> sum_request \<Rightarrow> udoc option" where
  "stored_doc p q =
     (case sp_docs p of
        None \<Rightarrow> None
      | Some r \<Rightarrow>
          (case vr_get r (sq_paper q) (sq_version q) of
             Some d \<Rightarrow> Some d
           | None \<Rightarrow> Option.bind (fallback_version (sp_docs p) (sq_paper q) (sq_version q)) (vr_get r (sq_paper q))))"

definition stored_text :: "source_ports \<Rightarrow> sum_request \<Rightarrow> utext option" where
  "stored_text p q =
     (case filled_text (sp_full_text p (sq_paper q) (sq_version q)) of
        Some t \<Rightarrow> Some t
      | None \<Rightarrow> filled_text (Option.bind (fallback_version (sp_docs p) (sq_paper q) (sq_version q)) (sp_full_text p (sq_paper q))))"

definition select_source :: "source_ports \<Rightarrow> sum_request \<Rightarrow> source_text option" where
  "select_source p q =
     (let plain = (\<lambda>kind t why. \<lparr>st_kind = kind, st_raw = t, st_doc = None, st_fallback = why\<rparr>) in
      if sq_task q = TRANSLATE_TASK \<and> sq_scope q = ABSTRACT_SCOPE
      then map_option (\<lambda>a. plain ABSTRACT_KIND a None) (abstract_of p q)
      else case stored_doc p q of
        Some d \<Rightarrow> Some \<lparr>st_kind = FULL_TEXT_KIND, st_raw = [], st_doc = Some d, st_fallback = None\<rparr>
      | None \<Rightarrow>
          (case stored_text p q of
             Some t \<Rightarrow> Some (plain FULL_TEXT_KIND t None)
           | None \<Rightarrow> map_option (\<lambda>a. plain ABSTRACT_KIND a (Some ''full_text_unavailable'')) (abstract_of p q)))"

section \<open>The refined body\<close>

definition sum_control_char :: "nat \<Rightarrow> bool" where
  "sum_control_char c \<longleftrightarrow> c \<le> 8 \<or> c = 11 \<or> c = 12 \<or> (14 \<le> c \<and> c \<le> 31)"

definition u_clean :: "utext \<Rightarrow> utext" where
  "u_clean s = filter (\<lambda>c. \<not> sum_control_char c) s"

definition u_strip :: "unicode \<Rightarrow> utext \<Rightarrow> utext" where
  "u_strip uc s = dropWhile (uc_space uc) (u_rstrip uc s)"

text \<open>\<open>strip(": ")\<close>\<close>

definition strip_colon :: "utext \<Rightarrow> utext" where
  "strip_colon s = (let out = (\<lambda>c. c = 58 \<or> c = 32) in rev (dropWhile out (rev (dropWhile out s))))"

fun u_join :: "utext \<Rightarrow> utext list \<Rightarrow> utext" where
  "u_join sep [] = []"
| "u_join sep [t] = t"
| "u_join sep (t # ts) = t @ sep @ u_join sep ts"

abbreviation UNL :: utext where "UNL \<equiv> [10]"

definition text_or_empty :: "utext option \<Rightarrow> utext" where
  "text_or_empty t = (case t of Some s \<Rightarrow> s | None \<Rightarrow> [])"

definition labelled_line :: "unicode \<Rightarrow> utext \<Rightarrow> utext \<Rightarrow> utext" where
  "labelled_line uc lab caption = u_strip uc (strip_colon (lab @ [58, 32] @ caption))"

definition u_render_table :: "unicode \<Rightarrow> utext \<Rightarrow> utext \<Rightarrow> utext list list \<Rightarrow> utext" where
  "u_render_table uc lab caption rows =
     (let header = u_strip uc (codes ''['' @ lab @ codes ''] '' @ caption)
      in u_join UNL ((if header = [] then codes ''[Table]'' else header) # map (u_join (codes '' | '')) rows))"

text \<open>The state of the walk: what \<open>emit\<close> has written, its length, and the structured fields.\<close>

record refine_walk =
  wk_body :: utext
  wk_pos :: nat
  wk_sections :: "sum_section list"
  wk_tables :: "sum_table list"
  wk_figures :: "sum_figure list"
  wk_captions :: "utext list"

definition emit_text :: "utext \<Rightarrow> refine_walk \<Rightarrow> refine_walk" where
  "emit_text t w = w\<lparr>wk_body := wk_body w @ u_clean t, wk_pos := wk_pos w + length (u_clean t)\<rparr>"

fun emit_block :: "unicode \<Rightarrow> ublock \<Rightarrow> refine_walk \<Rightarrow> refine_walk" where
  "emit_block uc (UParagraph _ t) w = emit_text (u_strip uc t @ UNL @ UNL) w"
| "emit_block uc (UCode _ t) w = emit_text (u_strip uc t @ UNL @ UNL) w"
| "emit_block uc (UFormula _ latex) w =
     (if text_or_empty latex = [] then w else emit_text (text_or_empty latex @ UNL @ UNL) w)"
| "emit_block uc (UTable bid lab cap rows) w =
     (let lab = u_clean (text_or_empty lab); cap = u_clean (text_or_empty cap); rows = map (map u_clean) rows;
          w = w\<lparr>wk_tables := wk_tables w @ [\<lparr>sb_label = lab, sb_rows = rows, sb_caption = cap, sb_anchor = bid\<rparr>]\<rparr>;
          line = labelled_line uc lab cap;
          w = (if cap = [] then w else w\<lparr>wk_captions := wk_captions w @ [if line = [] then cap else line]\<rparr>)
      in emit_text (u_render_table uc lab cap rows @ UNL @ UNL) w)"
| "emit_block uc (UFigure bid lab cap) w =
     (let lab = u_clean (text_or_empty lab); cap = u_clean (text_or_empty cap); line = labelled_line uc lab cap;
          w = w\<lparr>wk_figures := wk_figures w @ [\<lparr>sf_label = lab, sf_anchor = bid\<rparr>]\<rparr>;
          w = (if cap = [] then w else w\<lparr>wk_captions := wk_captions w @ [if line = [] then cap else line]\<rparr>)
      in if line = [] then w else emit_text (line @ UNL @ UNL) w)"
| "emit_block uc (UList _ items) w = emit_text UNL (fold (\<lambda>i. emit_text (codes ''- '' @ i @ UNL)) items w)"

definition ABSTRACT_SECTION_ID :: string where "ABSTRACT_SECTION_ID = ''s0''"

definition emit_title :: "unicode \<Rightarrow> string \<Rightarrow> utext \<Rightarrow> refine_walk \<Rightarrow> refine_walk" where
  "emit_title uc sid title w =
     (let title = u_clean (u_strip uc title) in
      if title = [] then w
      else let start = wk_pos w; w = emit_text title w;
               w = (if sid = ABSTRACT_SECTION_ID then w
                    else w\<lparr>wk_sections := wk_sections w @
                           [\<lparr>sn_label = title, sn_start = start, sn_end = wk_pos w, sn_anchor = sid\<rparr>]\<rparr>)
           in emit_text (UNL @ UNL) w)"

function walk_section :: "unicode \<Rightarrow> usection \<Rightarrow> refine_walk \<Rightarrow> refine_walk" where
  "walk_section uc (USection sid title bs ss) w =
     fold (walk_section uc) ss (fold (emit_block uc) bs (emit_title uc sid title w))"
  by pat_completeness auto
termination
  by (relation "measure (\<lambda>(_, s, _). size s)") (auto simp: size_list_estimation less_Suc_eq_le intro: size_list_estimation')

definition empty_walk :: refine_walk where
  "empty_walk = \<lparr>wk_body = [], wk_pos = 0, wk_sections = [], wk_tables = [], wk_figures = [], wk_captions = []\<rparr>"

definition refine_doc_model :: "unicode \<Rightarrow> udoc \<Rightarrow> refined" where
  "refine_doc_model uc d =
     (let w = fold (walk_section uc) (ud_sections d) empty_walk; body = u_rstrip uc (wk_body w)
      in \<lparr>rf_body = body, rf_sections = wk_sections w, rf_tables = wk_tables w, rf_figures = wk_figures w,
          rf_captions = wk_captions w, rf_token_count = estimate_tokens body\<rparr>)"

definition refine_source :: "unicode \<Rightarrow> (utext \<Rightarrow> refined) \<Rightarrow> source_text \<Rightarrow> refined" where
  "refine_source uc refine_plain s =
     (case st_doc s of Some d \<Rightarrow> refine_doc_model uc d | None \<Rightarrow> refine_plain (st_raw s))"

section \<open>Chunks\<close>

text \<open>Slices of the body between consecutive section starts.\<close>

fun slices :: "utext \<Rightarrow> nat list \<Rightarrow> utext list" where
  "slices body [] = []"
| "slices body [a] = [drop a body]"
| "slices body (a # b # ps) = take (b - a) (drop a body) # slices body (b # ps)"

definition section_pieces :: "refined \<Rightarrow> utext list" where
  "section_pieces rf =
     (let body = rf_body rf;
          starts = sort (remdups (filter (\<lambda>a. a \<le> length body) (map sn_start (rf_sections rf))))
      in if starts = [] then [body]
         else filter (\<lambda>p. p \<noteq> []) ((if hd starts > 0 then [take (hd starts) body] else []) @ slices body starts))"

function windows :: "nat \<Rightarrow> utext \<Rightarrow> utext list" where
  "windows n s = (if s = [] \<or> n = 0 then [] else take n s # windows n (drop n s))"
  by pat_completeness auto
termination
  by (relation "measure (length \<circ> snd)") auto

declare windows.simps [simp del]

text \<open>\<open>_fit\<close>; the budget is positive.\<close>

definition fit_piece :: "nat \<Rightarrow> utext \<Rightarrow> utext list" where
  "fit_piece budget t =
     (let bound = budget * CHARS_PER_TOKEN in if length t \<le> bound then [t] else windows bound t)"

definition overlap_tail :: "nat \<Rightarrow> utext \<Rightarrow> utext" where
  "overlap_tail overlap t = (if overlap > 0 then drop (length t - overlap) t else [])"

definition add_segment :: "nat \<Rightarrow> nat \<Rightarrow> utext list \<times> utext \<Rightarrow> utext \<Rightarrow> utext list \<times> utext" where
  "add_segment budget overlap cc seg =
     (case cc of (chunks, cur) \<Rightarrow>
      if cur \<noteq> [] \<and> estimate_tokens cur + estimate_tokens seg > budget
      then (chunks @ [cur], overlap_tail overlap cur @ seg)
      else (chunks, cur @ seg))"

definition chunk_texts :: "unicode \<Rightarrow> nat \<Rightarrow> nat \<Rightarrow> refined \<Rightarrow> utext list" where
  "chunk_texts uc budget overlap rf =
     (case foldl (add_segment budget overlap) ([], []) (concat (map (fit_piece budget) (section_pieces rf))) of
        (chunks, cur) \<Rightarrow> chunks @ (if u_strip uc cur = [] then [] else [cur]))"

definition bare_refined :: "utext \<Rightarrow> refined" where
  "bare_refined t = \<lparr>rf_body = t, rf_sections = [], rf_tables = [], rf_figures = [], rf_captions = [],
     rf_token_count = estimate_tokens t\<rparr>"

text \<open>The reduce input, with the Korean labels of the source.\<close>

definition bullet_lines :: "utext list \<Rightarrow> utext" where
  "bullet_lines cs = u_join UNL (map (\<lambda>c. codes ''- '' @ c) cs)"

definition partial_block :: "nat \<Rightarrow> summary_draft \<Rightarrow> utext" where
  "partial_block i p =
     codes ''['' @ [48512, 48516, 32, 50836, 50557, 32] @ nat_codes i @ codes '']'' @ UNL @
     codes ''TL;DR: '' @ sd_tldr p @ UNL @
     [44592, 50668] @ codes '':'' @ UNL @ bullet_lines (sd_contributions p) @ UNL @
     [48169, 48277] @ codes '': '' @ sd_method p @ UNL @
     [44208, 44284] @ codes '': '' @ sd_results p @ UNL @
     [54620, 44228] @ codes '': '' @ sd_limitations p"

definition reduce_input :: "summary_draft list \<Rightarrow> refined" where
  "reduce_input ps =
     (let body = u_join (UNL @ UNL) (map (\<lambda>(i, p). partial_block i p) (zip [1..<length ps + 1] ps))
      in (bare_refined body)\<lparr>rf_sections :=
           [\<lparr>sn_label = [48512, 48516, 32, 50836, 50557, 32, 47784, 51020], sn_start = 0, sn_end = length body, sn_anchor = []\<rparr>]\<rparr>)"

section \<open>Actions over a world\<close>

text \<open>The language model, the stores and the queues are ports over a world of their own.\<close>

datatype sum_exn = LlmUnavailable | SumOther string

type_synonym ('w, 'a) sact = "(sum_exn, 'w, 'a) act"

text \<open>\<open>map_bounded\<close>, in the order of the items: the serial run, which the concurrent one agrees with.\<close>

fun map_bounded :: "('a \<Rightarrow> ('w, 'b) sact) \<Rightarrow> 'a list \<Rightarrow> ('w, 'b list) sact" where
  "map_bounded f [] = sret []"
| "map_bounded f (x # xs) = sbind (f x) (\<lambda>y. sbind (map_bounded f xs) (\<lambda>ys. sret (y # ys)))"

lemma keeps_map_bounded: "(\<And>x. keeps I (f x) P) \<Longrightarrow> keeps I (map_bounded f xs) (list_all P)"
proof (induction xs)
  case (Cons x xs)
  show ?case unfolding map_bounded.simps
    by (rule keeps_sbind [OF Cons.prems], rule keeps_sbind [OF Cons.IH [OF Cons.prems]], rule keeps_sret) simp
qed (simp add: keeps_sret)

type_synonym 'w summarizer = "refined \<Rightarrow> sum_request \<Rightarrow> glossary \<Rightarrow> ('w, summary_draft) sact"

definition DEFAULT_CHUNK_BUDGET_TOKENS :: nat where "DEFAULT_CHUNK_BUDGET_TOKENS = 30000"
definition DEFAULT_OVERLAP_CHARS :: nat where "DEFAULT_OVERLAP_CHARS = 2000"

definition map_reduce_summarize :: "unicode \<Rightarrow> nat \<Rightarrow> nat \<Rightarrow> 'w summarizer \<Rightarrow> 'w summarizer" where
  "map_reduce_summarize uc budget overlap llm rf q g =
     (let chunks = map bare_refined (chunk_texts uc budget overlap rf) in
      if length chunks \<le> 1 then llm rf q g
      else sbind (map_bounded (\<lambda>c. llm c q g) chunks) (\<lambda>ps. llm (reduce_input ps) q g))"

end
