(* ===== verification/Sum_Grounding.thy ===== *)
theory Sum_Grounding imports Sum_Models Sum_Input Py_Number begin

text \<open>
  The grounding gate of summaries, \<open>summarization/.../domain/grounding.py\<close>: the numbers of a draft
  against those of the source, and its anchors against the locations of the document. Floats are exact
  decimals.
\<close>

section \<open>Numbers\<close>

text \<open>\<open>_NUM_RE\<close>: groups of a thousand, and a fraction.\<close>

fun comma_groups :: "unicode \<Rightarrow> utext \<Rightarrow> utext" where
  "comma_groups uc (c # a # b # d # s) =
     (if c = 44 \<and> u_isdigit uc a \<and> u_isdigit uc b \<and> u_isdigit uc d then c # a # b # d # comma_groups uc s else [])"
| "comma_groups uc _ = []"

definition fraction_at :: "unicode \<Rightarrow> utext \<Rightarrow> utext" where
  "fraction_at uc s =
     (case s of
        [] \<Rightarrow> []
      | c # r \<Rightarrow> if c = 46 \<and> takeWhile (u_isdigit uc) r \<noteq> [] then c # takeWhile (u_isdigit uc) r else [])"

definition number_at :: "unicode \<Rightarrow> utext \<Rightarrow> utext" where
  "number_at uc s =
     (let run = takeWhile (u_isdigit uc) s; groups = comma_groups uc (drop (length run) s);
          whole = (if length run \<le> 3 then run @ groups else run)
      in if run = [] then [] else whole @ fraction_at uc (drop (length whole) s))"

function number_tokens :: "unicode \<Rightarrow> utext \<Rightarrow> utext list" where
  "number_tokens uc [] = []"
| "number_tokens uc (c # s) =
     (let t = number_at uc (c # s) in
      if t = [] then number_tokens uc s else t # number_tokens uc (drop (length t) (c # s)))"
  by pat_completeness auto
termination
  by (relation "measure (length \<circ> snd)") auto

text \<open>\<open>_to_float\<close>: separators dropped; the value of the digits, and the places after the point.\<close>

definition u_decimals :: "utext \<Rightarrow> nat" where
  "u_decimals t = length (drop 1 (dropWhile (\<lambda>c. c \<noteq> 46) t))"

definition to_float :: "unicode \<Rightarrow> utext \<Rightarrow> decimal" where
  "to_float uc t =
     (foldl (\<lambda>n c. 10 * n + the (uc_digit uc c)) 0 (filter (\<lambda>c. c \<noteq> 44 \<and> c \<noteq> 46) t), u_decimals t)"

definition normalize_token :: "unicode \<Rightarrow> utext \<Rightarrow> utext list" where
  "normalize_token uc t =
     (let v = to_float uc t in
      [t, codes (format_g v), codes (format_g (if dec_value v > 1 then dec_down v else dec_up v))])"

definition number_grounded :: "unicode \<Rightarrow> utext \<Rightarrow> rat list \<Rightarrow> utext list \<Rightarrow> bool" where
  "number_grounded uc t src_values src_forms \<longleftrightarrow>
     list_ex (\<lambda>form. form \<in> set src_forms) (normalize_token uc t) \<or>
     list_ex (\<lambda>s. \<bar>s - dec_value (to_float uc t)\<bar> \<le> (1/2) / 10 ^ u_decimals t + 1 / 1000000000) src_values"

definition source_tokens :: "unicode \<Rightarrow> refined \<Rightarrow> utext list" where
  "source_tokens uc rf = number_tokens uc (rf_body rf) @ number_tokens uc (u_join UNL (rf_captions rf))"

definition source_numbers :: "unicode \<Rightarrow> refined \<Rightarrow> utext list" where
  "source_numbers uc rf = concat (map (normalize_token uc) (source_tokens uc rf))"

definition source_values :: "unicode \<Rightarrow> refined \<Rightarrow> rat list" where
  "source_values uc rf = map (dec_value \<circ> to_float uc) (source_tokens uc rf)"

section \<open>Locations\<close>

text \<open>\<open>[^\w\s]\<close> to a space, lower case, split.\<close>

fun u_split_go :: "unicode \<Rightarrow> utext \<Rightarrow> utext \<Rightarrow> utext list" where
  "u_split_go uc cur [] = (if cur = [] then [] else [cur])"
| "u_split_go uc cur (c # s) =
     (if uc_space uc c then (if cur = [] then [] else [cur]) @ u_split_go uc [] s else u_split_go uc (cur @ [c]) s)"

definition u_split :: "unicode \<Rightarrow> utext \<Rightarrow> utext list" where
  "u_split uc s = u_split_go uc [] s"

text \<open>A literal at the head of a text under \<open>IGNORECASE\<close>; what follows it.\<close>

definition after_literal :: "unicode \<Rightarrow> string \<Rightarrow> utext \<Rightarrow> utext option" where
  "after_literal uc lit s =
     (let n = length lit in
      if n \<le> length s \<and> map (uc_fold uc) (take n s) = map (uc_fold uc) (codes lit) then Some (drop n s) else None)"

definition ends_word :: "unicode \<Rightarrow> utext \<Rightarrow> bool" where
  "ends_word uc s \<longleftrightarrow> (case s of [] \<Rightarrow> True | c # _ \<Rightarrow> \<not> uc_word uc c)"

definition after_prefix :: "unicode \<Rightarrow> utext \<Rightarrow> utext option" where
  "after_prefix uc s =
     (case after_literal uc ''section'' s of
        Some r \<Rightarrow> if ends_word uc r then Some r else after_literal uc ''sec.'' s
      | None \<Rightarrow>
          (case after_literal uc ''sec.'' s of
             Some r \<Rightarrow> Some r
           | None \<Rightarrow> (case s of c # r \<Rightarrow> if c = 167 then Some r else None | [] \<Rightarrow> None)))"

definition skip_one :: "nat set \<Rightarrow> utext \<Rightarrow> utext" where
  "skip_one cs s = (case s of c # r \<Rightarrow> if c \<in> cs then r else s | [] \<Rightarrow> [])"

definition strip_prefix :: "unicode \<Rightarrow> utext \<Rightarrow> utext" where
  "strip_prefix uc s =
     (case after_prefix uc (dropWhile (uc_space uc) s) of
        None \<Rightarrow> s
      | Some r \<Rightarrow> dropWhile (uc_space uc) (skip_one {58, 46, 45} (dropWhile (uc_space uc) r)))"

definition label_tokens :: "unicode \<Rightarrow> utext \<Rightarrow> utext list" where
  "label_tokens uc t =
     u_split uc (u_lower uc
       (map (\<lambda>c. if uc_word uc c \<or> uc_space uc c then c else 32) (strip_prefix uc (u_strip uc t))))"

definition contiguous_run :: "utext list \<Rightarrow> utext list \<Rightarrow> bool" where
  "contiguous_run needle hay \<longleftrightarrow>
     0 < length needle \<and> length needle \<le> length hay \<and>
     list_ex (\<lambda>i. take (length needle) (drop i hay) = needle) [0..<length hay - length needle + 1]"

record location =
  lc_canonical :: utext
  lc_key :: "utext list"
  lc_block :: string

definition add_location :: "unicode \<Rightarrow> utext \<Rightarrow> string \<Rightarrow> location list \<Rightarrow> location list" where
  "add_location uc canonical block index =
     (let toks = label_tokens uc canonical in
      if toks \<noteq> [] \<and> toks \<notin> set (map lc_key index)
      then index @ [\<lparr>lc_canonical = canonical, lc_key = toks, lc_block = block\<rparr>] else index)"

text \<open>\<open>_FIGTBL_RE\<close> at the head of a caption: the kind and the number, as they are displayed.\<close>

definition digits_after :: "unicode \<Rightarrow> utext \<Rightarrow> utext" where
  "digits_after uc s = takeWhile (u_isdigit uc) (dropWhile (uc_space uc) s)"

definition float_caption :: "unicode \<Rightarrow> utext \<Rightarrow> utext option" where
  "float_caption uc cap =
     (let s = u_strip uc cap;
          number = (\<lambda>kind r. let d = digits_after uc r in if d = [] then None else Some (codes kind @ [32] @ d))
      in case after_literal uc ''figure'' s of
           Some r \<Rightarrow> number ''Figure'' r
         | None \<Rightarrow>
             (case after_literal uc ''fig'' s of
                Some r \<Rightarrow> number ''Figure'' (skip_one {46} r)
              | None \<Rightarrow>
                  (case after_literal uc ''table'' s of Some r \<Rightarrow> number ''Table'' r | None \<Rightarrow> None)))"

definition structural_index :: "unicode \<Rightarrow> refined \<Rightarrow> location list" where
  "structural_index uc rf =
     (let add = (\<lambda>(canonical, block) index. if canonical = [] then index else add_location uc canonical block index);
          tables = map (\<lambda>t. (sb_label t, sb_anchor t)) (rf_tables rf);
          figures = map (\<lambda>f. (sf_label f, sf_anchor f)) (rf_figures rf);
          captions = map (\<lambda>c. (c, [])) (List.map_filter (float_caption uc) (rf_captions rf));
          sections = map (\<lambda>s. (sn_label s, sn_anchor s)) (rf_sections rf)
      in fold add sections (fold add captions (fold add figures (fold add tables []))))"

definition resolve_location :: "unicode \<Rightarrow> sum_anchor \<Rightarrow> location list \<Rightarrow> location option" where
  "resolve_location uc a index =
     (let hint = label_tokens uc (an_hint a); lbl = label_tokens uc (an_label a) in
      if hint = [] \<and> lbl = [] then None
      else case find (\<lambda>l. lc_key l = hint \<or> lc_key l = lbl) index of
             Some l \<Rightarrow> Some l
           | None \<Rightarrow>
               fold (\<lambda>l best.
                   if (case best of None \<Rightarrow> True | Some b \<Rightarrow> length (lc_key l) > length (lc_key b)) \<and>
                      (contiguous_run (lc_key l) hint \<or> contiguous_run (lc_key l) lbl)
                   then Some l else best) index None)"

section \<open>The verdict\<close>

datatype sum_violation_kind = SUM_ANCHOR_MISSING | NUMERIC_MISMATCH | SCHEMA_INCOMPLETE | TRUNCATED_DRAFT | EMPTY_DRAFT

record anchor_verdict =
  av_ok :: bool
  av_violations :: "(sum_violation_kind \<times> string) list"
  av_kept :: "sum_anchor list"

definition NUMERIC_MISMATCH_THRESHOLD :: rat where "NUMERIC_MISMATCH_THRESHOLD = 2 / 5"

text \<open>The kept anchors, and the fields of those that point nowhere.\<close>

definition anchor_check :: "unicode \<Rightarrow> location list \<Rightarrow> sum_anchor list \<Rightarrow> sum_anchor list \<times> string list" where
  "anchor_check uc index anchors =
     (if index = [] then (anchors, [])
      else (List.map_filter (\<lambda>a. map_option (\<lambda>l. a\<lparr>an_label := lc_canonical l, an_block := lc_block l\<rparr>)
                                  (resolve_location uc a index)) anchors,
            map an_field (filter (\<lambda>a. resolve_location uc a index = None) anchors)))"

fun unique_chips :: "(string \<times> utext) list \<Rightarrow> sum_anchor list \<Rightarrow> sum_anchor list" where
  "unique_chips seen [] = []"
| "unique_chips seen (a # as) =
     (if (an_field a, an_label a) \<in> set seen then unique_chips seen as
      else a # unique_chips ((an_field a, an_label a) # seen) as)"

definition ungrounded_numbers :: "unicode \<Rightarrow> refined \<Rightarrow> utext list \<Rightarrow> utext list" where
  "ungrounded_numbers uc rf nums =
     filter (\<lambda>t. \<not> number_grounded uc t (source_values uc rf) (source_numbers uc rf)) nums"

definition numeric_mismatch :: "unicode \<Rightarrow> rat \<Rightarrow> refined \<Rightarrow> utext list \<Rightarrow> bool" where
  "numeric_mismatch uc threshold rf nums \<longleftrightarrow>
     nums \<noteq> [] \<and> of_nat (length (ungrounded_numbers uc rf nums)) / of_nat (length nums) > threshold"

definition validate_draft :: "unicode \<Rightarrow> rat \<Rightarrow> summary_draft \<Rightarrow> refined \<Rightarrow> anchor_verdict" where
  "validate_draft uc threshold d rf =
     (let hard =
            (if u_strip uc (sd_tldr d) = [] \<or> u_strip uc (sd_method d) = [] then [(EMPTY_DRAFT, ''tldr/method'')] else []) @
            (if sd_truncated d then [(TRUNCATED_DRAFT, ''draft'')] else []) @
            (if dget (sd_reproducibility d) ''code'' = None \<or> dget (sd_reproducibility d) ''data'' = None
             then [(SCHEMA_INCOMPLETE, ''reproducibility'')] else []) @
            (if numeric_mismatch uc threshold rf (number_tokens uc (sd_results d)) then [(NUMERIC_MISMATCH, ''results'')] else []);
          kept_soft = anchor_check uc (structural_index uc rf) (sd_anchors d);
          soft = map (\<lambda>f. (SUM_ANCHOR_MISSING, f)) (snd kept_soft)
      in \<lparr>av_ok = (hard = []), av_violations = hard @ soft, av_kept = unique_chips [] (fst kept_soft)\<rparr>)"

end
