(* ===== verification/Sum_Translate.thy ===== *)
theory Sum_Translate imports Sum_Grounding begin

text \<open>
  Structured translation, \<open>summarization/.../domain/structured_translator.py\<close>, and the rendering of a
  translation for a reader, \<open>domain/assembler.py\<close>. The chunks of a translation are run in order, which
  the concurrent run agrees with; the setters of the source, which write into the walked dictionary,
  are one pass that takes the new texts in reading order.
\<close>

section \<open>The text fields of a document\<close>

definition text_field :: "utext \<Rightarrow> utext list" where
  "text_field t = (if t = [] then [] else [t])"

fun block_fields :: "ublock \<Rightarrow> utext list" where
  "block_fields (UParagraph _ t) = text_field t"
| "block_fields (UFigure _ _ cap) = text_field (text_or_empty cap)"
| "block_fields (UTable _ _ cap _) = text_field (text_or_empty cap)"
| "block_fields (UList _ items) = concat (map text_field items)"
| "block_fields (UFormula _ _) = []"
| "block_fields (UCode _ _) = []"

fun section_fields :: "usection \<Rightarrow> utext list" where
  "section_fields (USection _ title bs ss) =
     text_field title @ concat (map block_fields bs) @ concat (map section_fields ss)"

definition iter_text_fields :: "udoc \<Rightarrow> utext list" where
  "iter_text_fields d = text_field (ud_title d) @ concat (map section_fields (ud_sections d))"

definition put_text :: "utext \<Rightarrow> utext list \<Rightarrow> utext \<times> utext list" where
  "put_text t us = (if t = [] then (t, us) else (hd us, tl us))"

fun put_texts :: "utext list \<Rightarrow> utext list \<Rightarrow> utext list \<times> utext list" where
  "put_texts [] us = ([], us)"
| "put_texts (t # ts) us =
     (case put_text t us of (t', us) \<Rightarrow> (case put_texts ts us of (ts', us) \<Rightarrow> (t' # ts', us)))"

definition put_caption :: "utext option \<Rightarrow> utext list \<Rightarrow> utext option \<times> utext list" where
  "put_caption cap us =
     (case cap of None \<Rightarrow> (None, us) | Some c \<Rightarrow> (case put_text c us of (c', us) \<Rightarrow> (Some c', us)))"

fun put_block :: "ublock \<Rightarrow> utext list \<Rightarrow> ublock \<times> utext list" where
  "put_block (UParagraph i t) us = (case put_text t us of (t, us) \<Rightarrow> (UParagraph i t, us))"
| "put_block (UFigure i lab cap) us = (case put_caption cap us of (cap, us) \<Rightarrow> (UFigure i lab cap, us))"
| "put_block (UTable i lab cap rows) us = (case put_caption cap us of (cap, us) \<Rightarrow> (UTable i lab cap rows, us))"
| "put_block (UList i items) us = (case put_texts items us of (items, us) \<Rightarrow> (UList i items, us))"
| "put_block (UFormula i latex) us = (UFormula i latex, us)"
| "put_block (UCode i t) us = (UCode i t, us)"

fun put_blocks :: "ublock list \<Rightarrow> utext list \<Rightarrow> ublock list \<times> utext list" where
  "put_blocks [] us = ([], us)"
| "put_blocks (b # bs) us =
     (case put_block b us of (b, us) \<Rightarrow> (case put_blocks bs us of (bs, us) \<Rightarrow> (b # bs, us)))"

fun put_section :: "usection \<Rightarrow> utext list \<Rightarrow> usection \<times> utext list"
  and put_sections :: "usection list \<Rightarrow> utext list \<Rightarrow> usection list \<times> utext list" where
  "put_section (USection sid title bs ss) us =
     (case put_text title us of (title, us) \<Rightarrow>
      case put_blocks bs us of (bs, us) \<Rightarrow>
      case put_sections ss us of (ss, us) \<Rightarrow> (USection sid title bs ss, us))"
| "put_sections [] us = ([], us)"
| "put_sections (s # ss) us =
     (case put_section s us of (s, us) \<Rightarrow> (case put_sections ss us of (ss, us) \<Rightarrow> (s # ss, us)))"

text \<open>\<open>project_full_text\<close>\<close>

definition part_of :: "unicode \<Rightarrow> utext \<Rightarrow> utext list" where
  "part_of uc t = text_field (u_strip uc t)"

definition space_join :: "utext list \<Rightarrow> utext" where
  "space_join ts = u_join [32] ts"

definition float_line :: "utext option \<Rightarrow> utext option \<Rightarrow> utext" where
  "float_line lab cap = space_join (text_field (text_or_empty lab) @ text_field (text_or_empty cap))"

fun block_parts :: "unicode \<Rightarrow> ublock \<Rightarrow> utext list" where
  "block_parts uc (UParagraph _ t) = part_of uc t"
| "block_parts uc (UCode _ t) = part_of uc t"
| "block_parts uc (UFormula _ latex) = part_of uc (text_or_empty latex)"
| "block_parts uc (UFigure _ lab cap) = part_of uc (float_line lab cap)"
| "block_parts uc (UTable _ lab cap rows) =
     part_of uc (float_line lab cap) @ concat (map (\<lambda>cells. part_of uc (space_join (map (u_strip uc) cells))) rows)"
| "block_parts uc (UList _ items) = concat (map (part_of uc) items)"

fun sect_parts :: "unicode \<Rightarrow> usection \<Rightarrow> utext list" where
  "sect_parts uc (USection _ title bs ss) =
     part_of uc title @ concat (map (block_parts uc) bs) @ concat (map (sect_parts uc) ss)"

definition project_full_text :: "unicode \<Rightarrow> usection list \<Rightarrow> utext" where
  "project_full_text uc ss = u_join (UNL @ UNL) (concat (map (sect_parts uc) ss))"

definition put_fields :: "unicode \<Rightarrow> udoc \<Rightarrow> utext list \<Rightarrow> udoc" where
  "put_fields uc d us =
     (case put_text (ud_title d) us of (title, us) \<Rightarrow>
      case put_sections (ud_sections d) us of (ss, us) \<Rightarrow>
        d\<lparr>ud_title := title, ud_sections := ss, ud_full_text := project_full_text uc ss\<rparr>)"

section \<open>Translation\<close>

type_synonym segment = "string \<times> utext"

record segments_result =
  gr_translations :: "(string, utext) dict"
  gr_kept :: "utext list"
  gr_truncated :: bool

type_synonym 'w segment_llm = "segment list \<Rightarrow> sum_request \<Rightarrow> glossary \<Rightarrow> ('w, segments_result) sact"

definition TRANSLATE_CHUNK_BUDGET_TOKENS :: nat where "TRANSLATE_CHUNK_BUDGET_TOKENS = 3500"
definition MAX_TOKEN_RETRIES :: nat where "MAX_TOKEN_RETRIES = 2"

definition add_chunk_segment :: "nat \<Rightarrow> segment list list \<times> segment list \<times> nat \<Rightarrow> segment \<Rightarrow> segment list list \<times> segment list \<times> nat" where
  "add_chunk_segment budget st seg =
     (case st of (done_chunks, cur, n) \<Rightarrow>
      let t = estimate_tokens (snd seg) in
      if cur \<noteq> [] \<and> n + t > budget then (done_chunks @ [cur], [seg], t) else (done_chunks, cur @ [seg], n + t))"

definition segment_chunks :: "nat \<Rightarrow> segment list \<Rightarrow> segment list list" where
  "segment_chunks budget segs =
     (case foldl (add_chunk_segment budget) ([], [], 0) segs of
        (done_chunks, cur, n) \<Rightarrow> done_chunks @ (if cur = [] then [] else [cur]))"

definition token_drops :: "unicode \<Rightarrow> segment list \<Rightarrow> (string, utext) dict \<Rightarrow> (string, nat list) dict \<Rightarrow> segment list" where
  "token_drops uc chunk translations planted =
     filter (\<lambda>seg.
         let p = (case dget planted (fst seg) of None \<Rightarrow> [] | Some p \<Rightarrow> p);
             found = found_tokens uc (case dget translations (fst seg) of None \<Rightarrow> [] | Some t \<Rightarrow> t)
         in list_ex (\<lambda>i. i \<notin> set found) p) chunk"

definition dmerge :: "('k, 'v) dict \<Rightarrow> ('k, 'v) dict \<Rightarrow> ('k, 'v) dict" where
  "dmerge l r = fold (\<lambda>(k, v). AList.update k v) r l"

type_synonym chunk_result = "(string, utext) dict \<times> utext list \<times> nat"

definition join_results :: "chunk_result \<Rightarrow> chunk_result \<Rightarrow> chunk_result" where
  "join_results l r =
     (dmerge (fst l) (fst r), fst (snd l) @ filter (\<lambda>t. t \<notin> set (fst (snd l))) (fst (snd r)), snd (snd l) + snd (snd r))"

text \<open>One chunk: halves after a cut-off or a dropped token, one segment again after a dropped token.\<close>

function translate_chunk ::
  "unicode \<Rightarrow> 'w segment_llm \<Rightarrow> (string, nat list) dict \<Rightarrow> sum_request \<Rightarrow> glossary \<Rightarrow> nat \<Rightarrow> segment list \<Rightarrow> ('w, chunk_result) sact" where
  "translate_chunk uc llm planted q g retries chunk =
     sbind (llm chunk q g) (\<lambda>res.
       let dropped = (token_drops uc chunk (gr_translations res) planted \<noteq> []) in
       if length chunk > 1 \<and> (gr_truncated res \<or> (dropped \<and> retries > 0)) then
         let mid = length chunk div 2; next_retries = (if gr_truncated res then retries else retries - 1) in
         sbind (translate_chunk uc llm planted q g next_retries (take mid chunk)) (\<lambda>l.
         sbind (translate_chunk uc llm planted q g next_retries (drop mid chunk)) (\<lambda>r. sret (join_results l r)))
       else if dropped \<and> \<not> gr_truncated res \<and> length chunk \<le> 1 \<and> retries > 0 then
         translate_chunk uc llm planted q g (retries - 1) chunk
       else sret (gr_translations res, gr_kept res, if gr_truncated res then 1 else 0))"
  by pat_completeness auto
termination
  by (relation "measures [\<lambda>(_, _, _, _, _, _, chunk). length chunk, \<lambda>(_, _, _, _, _, r, _). r]") auto

declare translate_chunk.simps [simp del]

definition fold_kept :: "utext list \<Rightarrow> utext list \<Rightarrow> utext list" where
  "fold_kept kept more_kept = foldl (\<lambda>k t. if t \<in> set k then k else k @ [t]) kept more_kept"

definition fold_results :: "chunk_result list \<Rightarrow> chunk_result" where
  "fold_results rs =
     foldl (\<lambda>acc r. (dmerge (fst acc) (fst r), fold_kept (fst (snd acc)) (fst (snd r)), snd (snd acc) + snd (snd r))) ([], [], 0) rs"

definition masked_segments :: "unicode \<Rightarrow> utext list \<Rightarrow> segment list" where
  "masked_segments uc fs =
     map (\<lambda>(i, t). (py_nat_str i, fst (mask_text uc t build_mask_table))) (zip [0..<length fs] fs)"

definition planted_by_id :: "unicode \<Rightarrow> utext list \<Rightarrow> (string, nat list) dict" where
  "planted_by_id uc fs =
     map (\<lambda>(i, t). (py_nat_str i, snd (mask_text uc t build_mask_table))) (zip [0..<length fs] fs)"

definition chosen_text :: "unicode \<Rightarrow> (string, utext) dict \<Rightarrow> nat \<times> utext \<Rightarrow> utext" where
  "chosen_text uc translations f =
     (case dget translations (py_nat_str (fst f)) of
        Some ko \<Rightarrow> if u_strip uc ko \<noteq> [] then ko else snd f
      | None \<Rightarrow> snd f)"

definition translate_doc :: "unicode \<Rightarrow> nat \<Rightarrow> 'w segment_llm \<Rightarrow> udoc \<Rightarrow> sum_request \<Rightarrow> glossary \<Rightarrow> ('w, translation_draft) sact" where
  "translate_doc uc budget llm d q g =
     (let fs = iter_text_fields d in
      sbind (map_bounded (translate_chunk uc llm (planted_by_id uc fs) q g MAX_TOKEN_RETRIES)
               (segment_chunks budget (masked_segments uc fs))) (\<lambda>rs.
        case fold_results rs of (translations, kept, unresolved) \<Rightarrow>
          if unresolved > 0 then sraise LlmUnavailable
          else sret \<lparr>td_doc = put_fields uc d (map (chosen_text uc translations) (zip [0..<length fs] fs)),
                     td_kept = kept\<rparr>))"

end
