(* ===== verification/Sum_Assembler.thy ===== *)
theory Sum_Assembler imports Sum_Translate begin

text \<open>
  The payloads of summaries and translations (\<open>to_dict\<close> in \<open>domain/models.py\<close>), the terms worth a chip
  (\<open>domain/glossary.py\<close>) and the rendering of a translation for its reader (\<open>domain/assembler.py\<close>).
  NFC normalization is the parameter \<open>nfc\<close>.
\<close>

section \<open>Payloads\<close>

record shown_anchor =
  sa_field :: string
  sa_target :: anchor_target
  sa_span :: utext
  sa_label :: utext
  sa_block :: string

record shown_summary =
  ss_tldr :: utext
  ss_contributions :: "utext list"
  ss_method :: utext
  ss_results :: utext
  ss_limitations :: utext
  ss_reproducibility :: "(string, utext) dict"
  ss_anchors :: "shown_anchor list"

record term_chip =
  tc_term :: utext
  tc_translated :: "utext option"

text \<open>A translation payload has no standard glossary until it is rendered.\<close>

datatype payload_body =
    SummaryBody shown_summary
  | TranslationBody udoc "utext list" "term_chip list option"

record payload_meta =
  pm_source :: source_kind
  pm_fallback :: "string option"

datatype sum_payload =
    OkPayload payload_body payload_meta
  | AbstainPayload string

definition show_anchor :: "sum_anchor \<Rightarrow> shown_anchor" where
  "show_anchor a = \<lparr>sa_field = an_field a, sa_target = an_target a, sa_span = an_span a, sa_label = an_label a,
     sa_block = an_block a\<rparr>"

definition show_summary :: "summary_draft \<Rightarrow> shown_summary" where
  "show_summary d = \<lparr>ss_tldr = sd_tldr d, ss_contributions = sd_contributions d, ss_method = sd_method d,
     ss_results = sd_results d, ss_limitations = sd_limitations d, ss_reproducibility = sd_reproducibility d,
     ss_anchors = map show_anchor (sd_anchors d)\<rparr>"

definition source_meta :: "source_text \<Rightarrow> payload_meta" where
  "source_meta s = \<lparr>pm_source = st_kind s, pm_fallback = (if st_fallback s = Some [] then None else st_fallback s)\<rparr>"

definition assemble_summary :: "summary_draft \<Rightarrow> source_text \<Rightarrow> sum_payload" where
  "assemble_summary d s = OkPayload (SummaryBody (show_summary d)) (source_meta s)"

definition assemble_translation :: "translation_draft \<Rightarrow> source_text \<Rightarrow> sum_payload" where
  "assemble_translation t s = OkPayload (TranslationBody (td_doc t) (td_kept t) None) (source_meta s)"

section \<open>Terms worth a chip\<close>

definition MATH_WORDS :: "utext list" where
  "MATH_WORDS = map codes
     [''alpha'', ''beta'', ''gamma'', ''delta'', ''epsilon'', ''varepsilon'', ''zeta'', ''eta'', ''theta'',
      ''vartheta'', ''iota'', ''kappa'', ''lambda'', ''mu'', ''nu'', ''xi'', ''pi'', ''varpi'', ''rho'', ''varrho'',
      ''sigma'', ''varsigma'', ''tau'', ''upsilon'', ''phi'', ''varphi'', ''chi'', ''psi'', ''omega'', ''nabla'',
      ''partial'', ''langle'', ''rangle'', ''odot'', ''oplus'', ''otimes'', ''cdot'', ''cdots'', ''ldots'', ''mid'',
      ''mathbb'', ''mathrm'', ''mathcal'', ''mathbf'', ''mathsf'', ''boldsymbol'', ''bm'', ''widehat'',
      ''widetilde'', ''hat'', ''tilde'', ''bar'', ''vec'', ''sqrt'', ''argmax'', ''argmin'', ''sum'', ''prod'',
      ''forall'', ''exists'', ''infty'', ''leftarrow'', ''rightarrow'', ''mapsto'', ''top'', ''ell'']"

definition MATH_CHARS :: "nat list" where
  "MATH_CHARS =
     [40, 41, 44, 47, 60, 61, 62, 91, 92, 93, 94, 95, 123, 124, 125, 126, 177, 183, 215, 8226, 8592, 8594, 8614,
      8706, 8711, 8712, 8719, 8721, 8727, 8730, 8776, 8800, 8804, 8805, 8853, 8855, 8857, 10216, 10217]"

text \<open>\<open>[\s\-,]+\<close>; empty parts are not looked at.\<close>

fun sub_tokens :: "unicode \<Rightarrow> utext \<Rightarrow> utext \<Rightarrow> utext list" where
  "sub_tokens uc cur [] = [cur]"
| "sub_tokens uc cur (c # s) =
     (if uc_space uc c \<or> c = 45 \<or> c = 44 then cur # sub_tokens uc [] s else sub_tokens uc (cur @ [c]) s)"

definition is_glossary_worthy :: "unicode \<Rightarrow> utext \<Rightarrow> bool" where
  "is_glossary_worthy uc t =
     (let t = u_strip uc t in
      1 < length t \<and> \<not> list_ex (\<lambda>c. c \<in> set MATH_CHARS) t \<and>
      \<not> list_ex (\<lambda>sub. sub \<noteq> [] \<and> u_lower uc sub \<in> set MATH_WORDS) (sub_tokens uc [] t))"

text \<open>\<open>[A-Za-z0-9]\<close> under \<open>IGNORECASE\<close>, on either side of the term.\<close>

definition alnum_boundary :: "unicode \<Rightarrow> nat option \<Rightarrow> bool" where
  "alnum_boundary uc c \<longleftrightarrow>
     (case c of None \<Rightarrow> True | Some c \<Rightarrow> \<not> (ascii_word (uc_fold uc c) \<and> uc_fold uc c \<noteq> 95))"

fun term_search :: "unicode \<Rightarrow> utext \<Rightarrow> nat option \<Rightarrow> utext \<Rightarrow> bool" where
  "term_search uc f prev [] = False"
| "term_search uc f prev (c # s) =
     ((alnum_boundary uc prev \<and> length f \<le> length (c # s) \<and>
       map (uc_fold uc) (take (length f) (c # s)) = map (uc_fold uc) f \<and>
       alnum_boundary uc (head_of (drop (length f) (c # s)))) \<or>
      term_search uc f (Some c) s)"

definition term_in_text :: "unicode \<Rightarrow> utext \<Rightarrow> utext \<Rightarrow> bool" where
  "term_in_text uc f s \<longleftrightarrow> f \<noteq> [] \<and> s \<noteq> [] \<and> term_search uc f None s"

definition norm_term :: "unicode \<Rightarrow> (utext \<Rightarrow> utext) \<Rightarrow> utext \<Rightarrow> utext" where
  "norm_term uc nfc t = u_lower uc (u_strip uc (nfc t))"

section \<open>Rendering\<close>

text \<open>The effective rendering: the last strong override of the term, or the seed's.\<close>

definition effective_render :: "unicode \<Rightarrow> glossary \<Rightarrow> mask_entry \<Rightarrow> utext" where
  "effective_render uc g e =
     (case find (\<lambda>m. tm_enforced m \<and> u_lower uc (tm_from m) = u_lower uc (me_from e)) (rev (gl_overrides g)) of
        Some m \<Rightarrow> tm_to m
      | None \<Rightarrow> me_seed e)"

definition keep_chip :: "unicode \<Rightarrow> glossary \<Rightarrow> mask_entry \<Rightarrow> term_chip" where
  "keep_chip uc g e =
     \<lparr>tc_term = me_from e,
      tc_translated = (if effective_render uc g e \<noteq> me_seed e then Some (effective_render uc g e) else None)\<rparr>"

definition occurring_chip :: "unicode \<Rightarrow> glossary \<Rightarrow> mask_entry \<Rightarrow> term_chip" where
  "occurring_chip uc g e =
     (if me_kind e = KEEP_AS_IS then keep_chip uc g e
      else \<lparr>tc_term = me_from e, tc_translated = Some (effective_render uc g e)\<rparr>)"

definition standard_glossary :: "unicode \<Rightarrow> glossary \<Rightarrow> nat list \<Rightarrow> utext \<Rightarrow> term_chip list" where
  "standard_glossary uc g seen full_text =
     map (occurring_chip uc g) (filter (\<lambda>e. me_index e \<in> set seen) build_mask_table) @
     map (keep_chip uc g)
       (filter (\<lambda>e. me_kind e = KEEP_AS_IS \<and> me_index e \<notin> set seen \<and> term_in_text uc (me_from e) full_text) build_mask_table)"

definition kept_strip_set :: "unicode \<Rightarrow> (utext \<Rightarrow> utext) \<Rightarrow> glossary \<Rightarrow> term_chip list \<Rightarrow> utext list" where
  "kept_strip_set uc nfc g std =
     concat (map (\<lambda>chip. norm_term uc nfc (tc_term chip) #
        map (norm_term uc nfc) (text_field (text_or_empty (tc_translated chip)))) std) @
     concat (map (\<lambda>e. [norm_term uc nfc (me_from e), norm_term uc nfc (me_seed e), norm_term uc nfc (effective_render uc g e)])
       (filter (\<lambda>e. me_kind e = MAPPING) build_mask_table))"

definition render_field :: "unicode \<Rightarrow> glossary \<Rightarrow> utext \<Rightarrow> utext" where
  "render_field uc g t = post_substitute uc (fst (render_tokens uc t build_mask_table (effective_render uc g))) g"

definition tokens_seen :: "unicode \<Rightarrow> glossary \<Rightarrow> udoc \<Rightarrow> nat list" where
  "tokens_seen uc g d =
     concat (map (\<lambda>t. snd (render_tokens uc t build_mask_table (effective_render uc g))) (iter_text_fields d))"

definition render_translation :: "unicode \<Rightarrow> (utext \<Rightarrow> utext) \<Rightarrow> sum_payload \<Rightarrow> glossary \<Rightarrow> sum_payload" where
  "render_translation uc nfc p g =
     (case p of
        OkPayload (TranslationBody d kept chips) meta \<Rightarrow>
          let out = put_fields uc d (map (render_field uc g) (iter_text_fields d));
              std = standard_glossary uc g (tokens_seen uc g d) (ud_full_text out);
              drop_terms = kept_strip_set uc nfc g std
          in OkPayload (TranslationBody out
               (filter (\<lambda>t. is_glossary_worthy uc t \<and> \<not> contains_token t \<and> norm_term uc nfc t \<notin> set drop_terms) kept)
               (Some std)) meta
      | _ \<Rightarrow> p)"

end
