(* ===== verification/Sum_Store.thy ===== *)
theory Sum_Store imports Sum_Assembler begin

text \<open>
  The two-tier store of artifacts, \<open>summarization/.../adapters/s3_redis_store.py\<close>, as a contract that
  the orchestrator relies on and the adapter provides. The clients of Redis and S3 are parameters; that
  JSON text reads back as the payload it was written from is the convention here.
\<close>

section \<open>The adapter\<close>

text \<open>Redis may not be configured; every command may fail.\<close>

record 'w tiers =
  tr_hot_get :: "(string \<Rightarrow> ('w, sum_payload option) sact) option"
  tr_hot_set :: "string \<Rightarrow> sum_payload \<Rightarrow> nat \<Rightarrow> ('w, unit) sact"
  tr_s3_get :: "string \<Rightarrow> ('w, sum_payload) sact"
  tr_s3_put :: "string \<Rightarrow> sum_payload \<Rightarrow> ('w, unit) sact"
  tr_ttl :: nat

definition backfill_hot :: "'w tiers \<Rightarrow> string \<Rightarrow> sum_payload \<Rightarrow> ('w, unit) sact" where
  "backfill_hot t rk p =
     (case tr_hot_get t of
        None \<Rightarrow> sret ()
      | Some _ \<Rightarrow> stry (tr_hot_set t rk p (tr_ttl t)) (\<lambda>_. sret ()))"

definition tiers_get :: "'w tiers \<Rightarrow> cache_key \<Rightarrow> ('w, sum_payload option) sact" where
  "tiers_get t k =
     sbind (case tr_hot_get t of None \<Rightarrow> sret None | Some hot \<Rightarrow> stry (hot (redis_key k)) (\<lambda>_. sret None)) (\<lambda>h.
       case h of
         Some p \<Rightarrow> sret (Some p)
       | None \<Rightarrow>
           sbind (stry (sbind (tr_s3_get t (object_path k)) (\<lambda>p. sret (Some p))) (\<lambda>_. sret None)) (\<lambda>obj.
             case obj of
               None \<Rightarrow> sret None
             | Some p \<Rightarrow> sbind (backfill_hot t (redis_key k) p) (\<lambda>_. sret (Some p))))"

definition tiers_put :: "'w tiers \<Rightarrow> cache_key \<Rightarrow> sum_payload \<Rightarrow> ('w, unit) sact" where
  "tiers_put t k p = sbind (tr_s3_put t (object_path k) p) (\<lambda>_. backfill_hot t (redis_key k) p)"

definition tiers_put_transient :: "'w tiers \<Rightarrow> cache_key \<Rightarrow> sum_payload \<Rightarrow> nat \<Rightarrow> ('w, unit) sact" where
  "tiers_put_transient t k p ttl =
     (case tr_hot_get t of
        None \<Rightarrow> sret ()
      | Some _ \<Rightarrow> stry (tr_hot_set t (redis_key k) p ttl) (\<lambda>_. sret ()))"

section \<open>The contract\<close>

text \<open>
  An artifact store over a world: \<open>kept w path p\<close> says that a tier of \<open>w\<close> may still hold \<open>p\<close> for the
  path. What is read was held, reading holds nothing new, and a write adds its own payload only.
\<close>

definition adds_at_most :: "('w \<Rightarrow> string \<Rightarrow> sum_payload \<Rightarrow> bool) \<Rightarrow> 'w \<Rightarrow> 'w \<Rightarrow> string \<Rightarrow> sum_payload \<Rightarrow> bool" where
  "adds_at_most kept w v path p \<longleftrightarrow> (\<forall>path' p'. kept v path' p' \<longrightarrow> kept w path' p' \<or> (path' = path \<and> p' = p))"

definition adds_nothing :: "('w \<Rightarrow> string \<Rightarrow> sum_payload \<Rightarrow> bool) \<Rightarrow> 'w \<Rightarrow> 'w \<Rightarrow> bool" where
  "adds_nothing kept w v \<longleftrightarrow> (\<forall>path p. kept v path p \<longrightarrow> kept w path p)"

text \<open>An action of another port leaves the store alone.\<close>

definition leaves_store :: "('w \<Rightarrow> string \<Rightarrow> sum_payload \<Rightarrow> bool) \<Rightarrow> ('w, 'a) sact \<Rightarrow> bool" where
  "leaves_store kept m \<longleftrightarrow> (\<forall>w. adds_nothing kept w (snd (m w)))"

locale artifact_store =
  fixes kept :: "'w \<Rightarrow> string \<Rightarrow> sum_payload \<Rightarrow> bool"
    and get :: "cache_key \<Rightarrow> ('w, sum_payload option) sact"
    and put :: "cache_key \<Rightarrow> sum_payload \<Rightarrow> ('w, unit) sact"
    and put_transient :: "cache_key \<Rightarrow> sum_payload \<Rightarrow> nat \<Rightarrow> ('w, unit) sact"
  assumes get_held: "get k w = (Inr (Some p), v) \<Longrightarrow> kept w (object_path k) p"
    and get_adds: "get k w = (r, v) \<Longrightarrow> adds_nothing kept w v"
    and put_adds: "put k p w = (r', v) \<Longrightarrow> adds_at_most kept w v (object_path k) p"
    and transient_adds: "put_transient k p n w = (r', v) \<Longrightarrow> adds_at_most kept w v (object_path k) p"
begin

text \<open>A property of what is held is kept by all operations that write payloads with the property.\<close>

definition all_held :: "(string \<Rightarrow> sum_payload \<Rightarrow> bool) \<Rightarrow> 'w \<Rightarrow> bool" where
  "all_held P w \<longleftrightarrow> (\<forall>path p. kept w path p \<longrightarrow> P path p)"

lemma keeps_get: "keeps (all_held P) (get k) (\<lambda>r. \<forall>p. r = Some p \<longrightarrow> P (object_path k) p)"
  unfolding keeps_def all_held_def
  using get_held get_adds unfolding adds_nothing_def by (metis prod.collapse)

lemma keeps_put: "P (object_path k) p \<Longrightarrow> keeps (all_held P) (put k p) (\<lambda>_. True)"
  unfolding keeps_def all_held_def
  using put_adds unfolding adds_at_most_def by (metis prod.collapse)

lemma keeps_transient: "P (object_path k) p \<Longrightarrow> keeps (all_held P) (put_transient k p n) (\<lambda>_. True)"
  unfolding keeps_def all_held_def
  using transient_adds unfolding adds_at_most_def by (metis prod.collapse)

lemma keeps_quiet: "leaves_store kept m \<Longrightarrow> keeps (all_held P) m (\<lambda>_. True)"
  unfolding keeps_def all_held_def leaves_store_def adds_nothing_def by blast

end

section \<open>The adapter keeps the contract\<close>

text \<open>
  Redis and S3 as they are documented: maps whose commands work or fail. \<open>tw_script\<close> says of each
  command, in order, whether it works; a value that has expired is a read that finds nothing.
\<close>

datatype command_fate = Works | Fails | Expired

record tier_world =
  tw_hot :: "string \<Rightarrow> sum_payload option"
  tw_s3 :: "string \<Rightarrow> sum_payload option"
  tw_script :: "command_fate list"

definition next_fate :: "'z tier_world_scheme \<Rightarrow> command_fate \<times> 'z tier_world_scheme" where
  "next_fate w = (case tw_script w of [] \<Rightarrow> (Works, w) | f # fs \<Rightarrow> (f, w\<lparr>tw_script := fs\<rparr>))"

definition world_hot_get :: "string \<Rightarrow> ('z tier_world_scheme, sum_payload option) sact" where
  "world_hot_get k w =
     (case next_fate w of
        (Works, w) \<Rightarrow> (Inr (tw_hot w k), w)
      | (Expired, w) \<Rightarrow> (Inr None, w\<lparr>tw_hot := (tw_hot w)(k := None)\<rparr>)
      | (Fails, w) \<Rightarrow> (Inl (SumOther ''redis''), w))"

definition world_hot_set :: "string \<Rightarrow> sum_payload \<Rightarrow> nat \<Rightarrow> ('z tier_world_scheme, unit) sact" where
  "world_hot_set k p ttl w =
     (case next_fate w of
        (Fails, w) \<Rightarrow> (Inl (SumOther ''redis''), w)
      | (_, w) \<Rightarrow> (Inr (), w\<lparr>tw_hot := (tw_hot w)(k \<mapsto> p)\<rparr>))"

definition world_s3_get :: "string \<Rightarrow> ('z tier_world_scheme, sum_payload) sact" where
  "world_s3_get k w =
     (case next_fate w of
        (Works, w) \<Rightarrow> (case tw_s3 w k of None \<Rightarrow> (Inl (SumOther ''NoSuchKey''), w) | Some p \<Rightarrow> (Inr p, w))
      | (_, w) \<Rightarrow> (Inl (SumOther ''s3''), w))"

definition world_s3_put :: "string \<Rightarrow> sum_payload \<Rightarrow> ('z tier_world_scheme, unit) sact" where
  "world_s3_put k p w =
     (case next_fate w of
        (Works, w) \<Rightarrow> (Inr (), w\<lparr>tw_s3 := (tw_s3 w)(k \<mapsto> p)\<rparr>)
      | (_, w) \<Rightarrow> (Inl (SumOther ''s3''), w))"

definition world_tiers :: "'z tier_world_scheme tiers" where
  "world_tiers = \<lparr>tr_hot_get = Some world_hot_get, tr_hot_set = world_hot_set, tr_s3_get = world_s3_get,
     tr_s3_put = world_s3_put, tr_ttl = 86400\<rparr>"

definition tier_holds :: "'z tier_world_scheme \<Rightarrow> string \<Rightarrow> sum_payload \<Rightarrow> bool" where
  "tier_holds w path p \<longleftrightarrow> tw_s3 w path = Some p \<or> tw_hot w (''sum:'' @ path) = Some p"

lemma next_fate_same: "next_fate w = (f, v) \<Longrightarrow> tw_hot v = tw_hot w \<and> tw_s3 v = tw_s3 w"
  by (auto simp: next_fate_def split: list.splits)

lemma redis_key_path: "redis_key k = ''sum:'' @ object_path k"
  by (simp add: redis_key_def)

text \<open>Each command: what it holds afterwards.\<close>

lemma world_hot_get_holds:
  "world_hot_get (''sum:'' @ path) w = (r, v) \<Longrightarrow> adds_nothing tier_holds w v \<and> (\<forall>p. r = Inr (Some p) \<longrightarrow> tier_holds w path p)"
  by (auto simp: world_hot_get_def adds_nothing_def tier_holds_def split: prod.splits command_fate.splits if_splits dest!: next_fate_same)

lemma world_hot_set_holds: "world_hot_set (''sum:'' @ path) p n w = (r, v) \<Longrightarrow> adds_at_most tier_holds w v path p"
  by (auto simp: world_hot_set_def adds_at_most_def tier_holds_def split: prod.splits command_fate.splits if_splits dest!: next_fate_same)

lemma world_s3_get_holds:
  "world_s3_get path w = (r, v) \<Longrightarrow> adds_nothing tier_holds w v \<and> (\<forall>p. r = Inr p \<longrightarrow> tier_holds w path p)"
  by (auto simp: world_s3_get_def adds_nothing_def tier_holds_def split: prod.splits command_fate.splits option.splits dest!: next_fate_same)

lemma world_s3_put_holds: "world_s3_put path p w = (r, v) \<Longrightarrow> adds_at_most tier_holds w v path p"
  by (auto simp: world_s3_put_def adds_at_most_def tier_holds_def split: prod.splits command_fate.splits if_splits dest!: next_fate_same)

lemma adds_trans:
  "adds_nothing kept w v \<Longrightarrow> adds_at_most kept v u path p \<Longrightarrow> adds_at_most kept w u path p"
  "adds_at_most kept w v path p \<Longrightarrow> adds_at_most kept v u path p \<Longrightarrow> adds_at_most kept w u path p"
  "adds_nothing kept w v \<Longrightarrow> adds_nothing kept v u \<Longrightarrow> adds_nothing kept w u"
  by (auto simp: adds_nothing_def adds_at_most_def)

lemma backfill_holds:
  "backfill_hot world_tiers (redis_key k) p w = (r, v) \<Longrightarrow> adds_at_most tier_holds w v (object_path k) p"
  using world_hot_set_holds
  by (auto simp: backfill_hot_def world_tiers_def stry_def sret_def redis_key_path split: prod.splits sum.splits)

interpretation summaries: artifact_store tier_holds "tiers_get world_tiers" "tiers_put world_tiers" "tiers_put_transient world_tiers"
proof
  fix k w p v r
  have get: "adds_nothing tier_holds w v \<and> (\<forall>p. r = Inr (Some p) \<longrightarrow> tier_holds w (object_path k) p)"
    if run: "tiers_get world_tiers k w = (r, v)" for r v k w
  proof -
    obtain h w1 where hot: "world_hot_get (redis_key k) w = (h, w1)" by force
    have h: "adds_nothing tier_holds w w1" "\<forall>p. h = Inr (Some p) \<longrightarrow> tier_holds w (object_path k) p"
      using world_hot_get_holds hot unfolding redis_key_path by blast+
    show ?thesis
    proof (cases "\<exists>p. h = Inr (Some p)")
      case True
      then show ?thesis using run hot h
        by (auto simp: tiers_get_def world_tiers_def sbind_def stry_def sret_def)
    next
      case False
      obtain s w2 where s3: "world_s3_get (object_path k) w1 = (s, w2)" by force
      have s: "adds_nothing tier_holds w1 w2" "\<forall>p. s = Inr p \<longrightarrow> tier_holds w1 (object_path k) p"
        using world_s3_get_holds s3 by blast+
      show ?thesis
      proof (cases s)
        case (Inl e)
        then have "r = Inr None" "v = w2" using run False hot s3
          by (auto simp: tiers_get_def world_tiers_def sbind_def stry_def sret_def split: sum.splits option.splits)
        then show ?thesis using adds_trans(3) [OF h(1) s(1)] by simp
      next
        case (Inr p)
        obtain b w3 where bf: "backfill_hot world_tiers (redis_key k) p w2 = (b, w3)" by force
        have "v = w3 \<and> (\<forall>p'. r = Inr (Some p') \<longrightarrow> p' = p)" using run False hot s3 Inr bf
          by (auto simp: tiers_get_def world_tiers_def sbind_def stry_def sret_def split: sum.splits option.splits)
        moreover have "tier_holds w (object_path k) p" using s(2) Inr h(1) by (simp add: adds_nothing_def)
        moreover have "adds_at_most tier_holds w w3 (object_path k) p"
          using adds_trans(1) [OF adds_trans(3) [OF h(1) s(1)] backfill_holds [OF bf]] .
        ultimately show ?thesis by (auto simp: adds_nothing_def adds_at_most_def)
      qed
    qed
  qed
  show "tiers_get world_tiers k w = (Inr (Some p), v) \<Longrightarrow> tier_holds w (object_path k) p" using get by blast
  show "tiers_get world_tiers k w = (r, v) \<Longrightarrow> adds_nothing tier_holds w v" for r :: "sum_exn + sum_payload option"
    using get by blast
next
  fix k p w v and r' :: "sum_exn + unit"
  assume run: "tiers_put world_tiers k p w = (r', v)"
  obtain s w1 where put: "world_s3_put (object_path k) p w = (s, w1)" by force
  show "adds_at_most tier_holds w v (object_path k) p"
  proof (cases s)
    case (Inl e)
    then show ?thesis using run put world_s3_put_holds by (auto simp: tiers_put_def world_tiers_def sbind_def)
  next
    case (Inr u)
    then have "backfill_hot world_tiers (redis_key k) p w1 = (r', v)"
      using run put by (simp add: tiers_put_def sbind_def) (simp add: world_tiers_def)
    then show ?thesis using adds_trans(2) [OF world_s3_put_holds [OF put] backfill_holds] by blast
  qed
next
  fix k p n w v and r' :: "sum_exn + unit"
  assume "tiers_put_transient world_tiers k p n w = (r', v)"
  then show "adds_at_most tier_holds w v (object_path k) p"
    using world_hot_set_holds
    by (auto simp: tiers_put_transient_def world_tiers_def stry_def sret_def redis_key_path split: prod.splits sum.splits)
qed

end
