(* ===== verification/Sum_Service.thy ===== *)
theory Sum_Service imports Sum_Store Ops_Cost begin

text \<open>
  The summarization service, \<open>summarization/.../service/orchestrator.py\<close>, the worker that runs its
  long jobs (\<open>worker.py\<close>) and the identity of a job (\<open>adapters/summary_job_dedup.py\<close>). Everything
  outside is a port over a world; metrics, whose failures the service swallows, change the world by
  their name.
\<close>

section \<open>The service\<close>

record 'w sum_ports =
  pt_get :: "cache_key \<Rightarrow> ('w, sum_payload option) sact"
  pt_put :: "cache_key \<Rightarrow> sum_payload \<Rightarrow> ('w, unit) sact"
  pt_transient :: "cache_key \<Rightarrow> sum_payload \<Rightarrow> nat \<Rightarrow> ('w, unit) sact"
  pt_summarize :: "'w summarizer"
  pt_segments :: "'w segment_llm"
  pt_budget :: "('w, pyval) sact"
  pt_build :: "(string \<Rightarrow> int \<Rightarrow> ('w, unit) sact) option"
  pt_jobs :: "(sum_request \<Rightarrow> string \<Rightarrow> ('w, unit) sact) option"
  pt_emit :: "string \<Rightarrow> 'w \<Rightarrow> 'w"

text \<open>
  What a deployment fixes. \<open>cf_other\<close> prints budget attributes that are no texts, \<open>cf_digest\<close> is the
  digest of signatures, \<open>cf_terms\<close> the glossary repository, \<open>cf_plain\<close> the refiner of plain texts.
\<close>

record sum_config =
  cf_uc :: unicode
  cf_nfc :: "utext \<Rightarrow> utext"
  cf_other :: "pyval \<Rightarrow> string"
  cf_digest :: "(utext \<times> utext) list \<Rightarrow> nat"
  cf_plain :: "utext \<Rightarrow> refined"
  cf_sources :: source_ports
  cf_terms :: "(string \<Rightarrow> string + term_mapping list) option"
  cf_model :: string
  cf_seed :: string
  cf_context_budget :: nat
  cf_input_cap :: nat
  cf_chunk_budget :: nat
  cf_overlap :: nat
  cf_translate_budget :: nat
  cf_map_reduce :: bool
  cf_translator :: bool

definition DOCMODEL_PARSER_VERSION :: string where "DOCMODEL_PARSER_VERSION = ''docmodel-parser@11''"
definition BUILD_POLL_BACKOFF_MS :: nat where "BUILD_POLL_BACKOFF_MS = 2000"
definition SUMMARY_POLL_BACKOFF_MS :: nat where "SUMMARY_POLL_BACKOFF_MS = 3000"
definition ABSTAIN_CACHE_TTL_SECONDS :: nat where "ABSTAIN_CACHE_TTL_SECONDS = 120"
definition ASYNC_GENERATION_MIN_TOKENS :: nat where "ASYNC_GENERATION_MIN_TOKENS = 6000"

text \<open>A payload that is served carries whether it came from the cache.\<close>

datatype sum_response =
    SumServed sum_payload bool
  | SumPending nat
  | SumAbstain string
  | SumCostDegraded
  | SumSourceUnavailable string

definition sum_emit :: "'w sum_ports \<Rightarrow> string \<Rightarrow> ('w, unit) sact" where
  "sum_emit p name w = (Inr (), pt_emit p name w)"

text \<open>\<open>except LlmUnavailable\<close>\<close>

definition llm_try :: "('w, 'a) sact \<Rightarrow> ('w, 'a option) sact" where
  "llm_try m = stry (sbind m (\<lambda>x. sret (Some x))) (\<lambda>e. if e = LlmUnavailable then sret None else sraise e)"

definition source_doc_parser :: "source_text \<Rightarrow> string" where
  "source_doc_parser s =
     (case st_doc s of
        None \<Rightarrow> DOCMODEL_PARSER_VERSION
      | Some d \<Rightarrow> if ud_parser d = [] then DOCMODEL_PARSER_VERSION else ud_parser d)"

definition request_signature :: "sum_config \<Rightarrow> sum_request \<Rightarrow> glossary \<Rightarrow> nat" where
  "request_signature c q g =
     (if sq_task q = SUMMARY_TASK then signature_of (cf_digest c) g else signature_of_translate (cf_uc c) (cf_digest c) g)"

definition request_key :: "sum_config \<Rightarrow> sum_request \<Rightarrow> string \<Rightarrow> glossary \<Rightarrow> string \<Rightarrow> cache_key" where
  "request_key c q user g parser =
     build_cache_key q (request_signature c q g) (cf_model c) (Some user) (cf_seed c) parser"

definition abstain_with :: "'w sum_ports \<Rightarrow> cache_key \<Rightarrow> string \<Rightarrow> bool \<Rightarrow> ('w, sum_response) sact" where
  "abstain_with p key reason allow_enqueue =
     (if allow_enqueue then sret (SumAbstain reason)
      else sbind (pt_transient p key (AbstainPayload reason) ABSTAIN_CACHE_TTL_SECONDS) (\<lambda>_. sret (SumAbstain reason)))"

definition serve_cached :: "'w sum_ports \<Rightarrow> sum_config \<Rightarrow> sum_payload \<Rightarrow> sum_request \<Rightarrow> glossary \<Rightarrow> ('w, sum_response) sact" where
  "serve_cached p c cached q g =
     sbind (sum_emit p ''u7.cache.hit'') (\<lambda>_.
       case cached of
         AbstainPayload reason \<Rightarrow> sret (SumAbstain reason)
       | OkPayload body meta \<Rightarrow>
           sret (SumServed (if sq_task q = TRANSLATE_TASK then render_translation (cf_uc c) (cf_nfc c) cached g else cached) True))"

section \<open>Summaries\<close>

text \<open>The loop over the two attempts; the argument counts those left.\<close>

fun run_summary ::
  "'w sum_ports \<Rightarrow> sum_config \<Rightarrow> 'w summarizer \<Rightarrow> cache_key \<Rightarrow> bool \<Rightarrow> sum_request \<Rightarrow> source_text \<Rightarrow> refined \<Rightarrow> glossary \<Rightarrow> nat \<Rightarrow>
     ('w, sum_response) sact" where
  "run_summary p c summarize key allow q src rf g 0 = abstain_with p key ''insufficient_grounding'' allow"
| "run_summary p c summarize key allow q src rf g (Suc n) =
     sbind (llm_try (summarize rf q g)) (\<lambda>res.
       case res of
         None \<Rightarrow>
           if n = 0 then sbind (sum_emit p ''u7.llm.unavailable'') (\<lambda>_. abstain_with p key ''generation_unavailable'' allow)
           else run_summary p c summarize key allow q src rf g n
       | Some draft \<Rightarrow>
           sbind (sum_emit p ''u7.stage_ms.generate'') (\<lambda>_.
           let v = validate_draft (cf_uc c) NUMERIC_MISMATCH_THRESHOLD draft rf in
           sbind (sum_emit p ''u7.stage_ms.gate'') (\<lambda>_.
           sbind (sum_emit p ''u7.grounding'') (\<lambda>_.
             if av_ok v then
               let result = assemble_summary (draft\<lparr>sd_anchors := av_kept v\<rparr>) src in
               sbind (pt_put p key result) (\<lambda>_.
               sbind (sum_emit p ''u7.summary.ok'') (\<lambda>_. sret (SumServed result False)))
             else if n = 0 then abstain_with p key ''insufficient_grounding'' allow
             else run_summary p c summarize key allow q src rf g n))))"

section \<open>Translations\<close>

definition wrap_plain_doc :: "utext \<Rightarrow> sum_request \<Rightarrow> udoc" where
  "wrap_plain_doc body q =
     \<lparr>ud_paper = sq_paper q, ud_version = sq_version q, ud_title = [], ud_parser = ''synthetic-plain-wrap'',
      ud_full_text = body, ud_sections = [USection ''s1'' [] [UParagraph ''s1.p1'' body] []]\<rparr>"

definition has_translated_text :: "unicode \<Rightarrow> translation_draft \<Rightarrow> udoc \<Rightarrow> bool" where
  "has_translated_text uc t d =
     list_ex (\<lambda>(out, src). u_strip uc out \<noteq> [] \<and> out \<noteq> src) (zip (iter_text_fields (td_doc t)) (iter_text_fields d))"

fun translate_attempts ::
  "'w sum_ports \<Rightarrow> sum_config \<Rightarrow> cache_key \<Rightarrow> bool \<Rightarrow> sum_request \<Rightarrow> source_text \<Rightarrow> udoc \<Rightarrow> glossary \<Rightarrow> nat \<Rightarrow>
     ('w, sum_response) sact" where
  "translate_attempts p c key allow q src d g 0 = abstain_with p key ''empty_translation'' allow"
| "translate_attempts p c key allow q src d g (Suc n) =
     sbind (llm_try (translate_doc (cf_uc c) (cf_translate_budget c) (pt_segments p) d q g)) (\<lambda>res.
       case res of
         None \<Rightarrow>
           if n = 0 then sbind (sum_emit p ''u7.llm.unavailable'') (\<lambda>_. abstain_with p key ''generation_unavailable'' allow)
           else translate_attempts p c key allow q src d g n
       | Some draft \<Rightarrow>
           if \<not> has_translated_text (cf_uc c) draft d then
             if n = 0 then sbind (sum_emit p ''u7.translate.empty'') (\<lambda>_. abstain_with p key ''empty_translation'' allow)
             else translate_attempts p c key allow q src d g n
           else
             let base = assemble_translation draft src in
             sbind (pt_put p key base) (\<lambda>_.
             sbind (sum_emit p ''u7.translate.ok'') (\<lambda>_.
               sret (SumServed (render_translation (cf_uc c) (cf_nfc c) base g) False))))"

definition run_translate ::
  "'w sum_ports \<Rightarrow> sum_config \<Rightarrow> cache_key \<Rightarrow> bool \<Rightarrow> sum_request \<Rightarrow> source_text \<Rightarrow> refined \<Rightarrow> glossary \<Rightarrow> ('w, sum_response) sact" where
  "run_translate p c key allow q src rf g =
     (if \<not> cf_translator c then abstain_with p key ''generation_unavailable'' allow
      else translate_attempts p c key allow q src
             (case st_doc src of Some d \<Rightarrow> d | None \<Rightarrow> wrap_plain_doc (rf_body rf) q) g 2)"

section \<open>The pipeline\<close>

definition map_reduce_port :: "'w sum_ports \<Rightarrow> sum_config \<Rightarrow> 'w summarizer" where
  "map_reduce_port p c = map_reduce_summarize (cf_uc c) (cf_chunk_budget c) (cf_overlap c) (pt_summarize p)"

definition enqueue_job :: "'w sum_ports \<Rightarrow> (sum_request \<Rightarrow> string \<Rightarrow> ('w, unit) sact) \<Rightarrow> sum_request \<Rightarrow> string \<Rightarrow> ('w, sum_response) sact" where
  "enqueue_job p jobs q user =
     sbind (jobs q user) (\<lambda>_. sbind (sum_emit p ''u7.job.pending'') (\<lambda>_. sret (SumPending SUMMARY_POLL_BACKOFF_MS)))"

text \<open>Steps 3 to 7: refine, route, dispatch or generate.\<close>

definition generate ::
  "'w sum_ports \<Rightarrow> sum_config \<Rightarrow> sum_request \<Rightarrow> string \<Rightarrow> bool \<Rightarrow> glossary \<Rightarrow> source_text \<Rightarrow> cache_key \<Rightarrow> ('w, sum_response) sact" where
  "generate p c q user allow g src key =
     (let rf = refine_source (cf_uc c) (cf_plain c) src;
          rt = route (cf_context_budget c) (cf_input_cap c) (rf_token_count rf);
          dispatch = (if allow then pt_jobs p else None);
          heavy = (rf_token_count rf > ASYNC_GENERATION_MIN_TOKENS \<and>
                   (sq_task q = SUMMARY_TASK \<or> (sq_task q = TRANSLATE_TASK \<and> sq_scope q = FULL_SCOPE \<and> cf_translator c)));
          here = (if sq_task q = TRANSLATE_TASK then run_translate p c key allow q src rf g
                  else run_summary p c (if rt = MAP_REDUCE then map_reduce_port p c else pt_summarize p) key allow q src rf g 2)
      in if rt = OVER_CAP \<or> (rt = MAP_REDUCE \<and> \<not> cf_map_reduce c) then sret (SumAbstain ''input_too_long'')
         else case dispatch of
                Some jobs \<Rightarrow> if rt = MAP_REDUCE \<or> heavy then enqueue_job p jobs q user else here
              | None \<Rightarrow> here)"

text \<open>The rebuild of a document of an older parser.\<close>

definition heal_source :: "'w sum_ports \<Rightarrow> sum_request \<Rightarrow> source_text \<Rightarrow> ('w, unit) sact" where
  "heal_source p q src =
     (case (pt_build p, st_doc src) of
        (Some build, Some d) \<Rightarrow>
          if ud_parser d \<noteq> DOCMODEL_PARSER_VERSION then build (sq_paper q) (sq_version q) else sret ()
      | _ \<Rightarrow> sret ())"

definition run_request :: "'w sum_ports \<Rightarrow> sum_config \<Rightarrow> sum_request \<Rightarrow> string \<Rightarrow> bool \<Rightarrow> ('w, sum_response) sact" where
  "run_request p c q user allow =
     (let g = resolve_glossary (cf_terms c) (Some user);
          key_current = request_key c q user g DOCMODEL_PARSER_VERSION
      in sbind (pt_get p key_current) (\<lambda>cached.
         case cached of
           Some x \<Rightarrow> serve_cached p c x q g
         | None \<Rightarrow>
             sbind (pt_budget p) (\<lambda>budget.
             if is_cost_degraded (cf_other c) budget
             then sbind (sum_emit p ''u7.cost.degraded'') (\<lambda>_. sret SumCostDegraded)
             else case select_source (cf_sources c) q of
               None \<Rightarrow> sret (SumSourceUnavailable ''no_full_text_or_abstract'')
             | Some src \<Rightarrow>
                 sbind (heal_source p q src) (\<lambda>_.
                 let key = request_key c q user g (source_doc_parser src) in
                 sbind (if key \<noteq> key_current then pt_get p key else sret None) (\<lambda>cached.
                   case cached of
                     Some x \<Rightarrow> serve_cached p c x q g
                   | None \<Rightarrow> generate p c q user allow g src key)))))"

section \<open>The document view and the glossary\<close>

datatype doc_lookup = DocFound udoc | DocBuilding nat | DocNone

definition lookup_doc_model :: "'w sum_ports \<Rightarrow> udoc version_reader option \<Rightarrow> string \<Rightarrow> int \<Rightarrow> ('w, doc_lookup) sact" where
  "lookup_doc_model p reader paper version =
     (case reader of
        None \<Rightarrow> sret DocNone
      | Some r \<Rightarrow>
          let found = (case vr_get r paper version of
                Some d \<Rightarrow> Some (d, version)
              | None \<Rightarrow> Option.bind (fallback_version reader paper version)
                          (\<lambda>v. map_option (\<lambda>d. (d, v)) (vr_get r paper v)))
          in (case found of
                Some (d, v) \<Rightarrow>
                  (case pt_build p of
                     Some build \<Rightarrow>
                       if ud_parser d \<noteq> DOCMODEL_PARSER_VERSION then sbind (build paper v) (\<lambda>_. sret (DocFound d)) else sret (DocFound d)
                   | None \<Rightarrow> sret (DocFound d))
              | None \<Rightarrow>
                  (case pt_build p of
                     Some build \<Rightarrow> sbind (build paper version) (\<lambda>_. sret (DocBuilding BUILD_POLL_BACKOFF_MS))
                   | None \<Rightarrow> sret DocNone)))"

record stored_asset =
  sx_id :: string
  sx_kind :: string
  sx_ordinal :: int
  sx_caption :: utext
  sx_mode :: string
  sx_object :: string
  sx_page :: "int option"

record asset_ref =
  ax_id :: string
  ax_kind :: string
  ax_ordinal :: int
  ax_caption :: utext
  ax_mode :: string
  ax_url :: string
  ax_page :: "int option"

definition list_summary_assets ::
  "(string \<Rightarrow> int \<Rightarrow> stored_asset list) option \<Rightarrow> (string \<Rightarrow> string option) \<Rightarrow> udoc version_reader option \<Rightarrow> string \<Rightarrow> int \<Rightarrow> asset_ref list option" where
  "list_summary_assets reader presign docs paper version =
     map_option (\<lambda>manifest.
       let rows = (if manifest paper version = []
                   then (case fallback_version docs paper version of None \<Rightarrow> [] | Some v \<Rightarrow> manifest paper v)
                   else manifest paper version)
       in List.map_filter (\<lambda>a. map_option (\<lambda>url.
            \<lparr>ax_id = sx_id a, ax_kind = sx_kind a, ax_ordinal = sx_ordinal a, ax_caption = sx_caption a, ax_mode = sx_mode a,
             ax_url = url, ax_page = sx_page a\<rparr>) (presign (sx_object a))) rows) reader"

text \<open>\<open>_split_s3_ref\<close>\<close>

definition split_s3_ref :: "string \<Rightarrow> (string \<times> string) option" where
  "split_s3_ref ref =
     (let rest = drop 5 ref; bucket = takeWhile (\<lambda>c. c \<noteq> CHR ''/'') rest; key = drop (length bucket + 1) rest in
      if take 5 ref \<noteq> ''s3://'' \<or> bucket = [] \<or> key = [] then None else Some (bucket, key))"

section \<open>Jobs\<close>

definition run_job :: "'w sum_ports \<Rightarrow> sum_config \<Rightarrow> sum_request \<Rightarrow> string \<Rightarrow> ('w, unit) sact" where
  "run_job p c q user = sbind (run_request p c q user False) (\<lambda>_. sret ())"

text \<open>\<open>run_worker\<close> over the messages it receives, each with its parsed request: which are acknowledged.\<close>

fun run_messages :: "'w sum_ports \<Rightarrow> sum_config \<Rightarrow> (string + sum_request \<times> string) list \<Rightarrow> 'w \<Rightarrow> bool list \<times> 'w" where
  "run_messages p c [] w = ([], w)"
| "run_messages p c (m # ms) w =
     (case m of
        Inl e \<Rightarrow> (case run_messages p c ms w of (acks, v) \<Rightarrow> (False # acks, v))
      | Inr (q, user) \<Rightarrow>
          (case run_job p c q user w of
             (Inl e, w1) \<Rightarrow> (case run_messages p c ms w1 of (acks, v) \<Rightarrow> (False # acks, v))
           | (Inr u, w1) \<Rightarrow> (case run_messages p c ms w1 of (acks, v) \<Rightarrow> (True # acks, v))))"

definition summary_job_dedup_key :: "sum_request \<Rightarrow> string \<Rightarrow> string" where
  "summary_job_dedup_key q user =
     user @ ''|'' @ sq_paper q @ ''|'' @ py_int_str (sq_version q) @ ''|'' @ task_value (sq_task q) @ ''|'' @
     persona_value (sq_persona q) @ ''|'' @ sum_scope_value (sq_scope q) @ ''|ko''"

end
