(* ===== verification/Sum_Masking_Facts.thy ===== *)
theory Sum_Masking_Facts imports Sum_Masking begin

text \<open>
  A masked text is a row of segments, characters of the source and tokens; every pass of the masking
  keeps it one, and rendering restores the source. Tokens are inert to later passes, as the source
  claims, for terms that are not themselves of the shape of a token's inside.
\<close>

section \<open>Hypotheses\<close>

text \<open>What the Unicode tables say of the characters of a token.\<close>

definition unicode_ok :: "unicode \<Rightarrow> bool" where
  "unicode_ok uc \<longleftrightarrow>
     (\<forall>d < 10. uc_digit uc (48 + d) = Some d \<and> \<not> uc_space uc (48 + d) \<and> word_char uc (48 + d)) \<and>
     uc_digit uc TCLOSE = None \<and> \<not> uc_space uc TMARK \<and> \<not> uc_space uc TCLOSE \<and> word_char uc TMARK \<and>
     (\<forall>c. uc_fold uc c = uc_fold uc TOPEN \<longleftrightarrow> c = TOPEN) \<and> (\<forall>c. uc_fold uc c = uc_fold uc TCLOSE \<longleftrightarrow> c = TCLOSE)"

definition entry_ok :: "unicode \<Rightarrow> mask_entry \<Rightarrow> bool" where
  "entry_ok uc e \<longleftrightarrow>
     TOPEN \<notin> set (me_from e) \<and> TCLOSE \<notin> set (me_from e) \<and>
     (\<forall>i. map (uc_fold uc) (me_from e) \<noteq> map (uc_fold uc) (TMARK # nat_codes i))"

definition table_ok :: "unicode \<Rightarrow> mask_entry list \<Rightarrow> bool" where
  "table_ok uc table \<longleftrightarrow> distinct (map me_index table) \<and> (\<forall>e \<in> set table. entry_ok uc e)"

definition english :: "utext \<Rightarrow> bool" where
  "english s \<longleftrightarrow> (\<forall>c \<in> set s. c \<noteq> TOPEN \<and> c \<noteq> TCLOSE \<and> \<not> hangul c)"

lemma fold_bracket:
  "unicode_ok uc \<Longrightarrow> uc_fold uc x = uc_fold uc TOPEN \<Longrightarrow> x = TOPEN"
  "unicode_ok uc \<Longrightarrow> uc_fold uc x = uc_fold uc TCLOSE \<Longrightarrow> x = TCLOSE"
  by (auto simp only: unicode_ok_def)

section \<open>Tokens are read back\<close>

lemma digit_codes: "set (nat_codes i) \<subseteq> {48..57}"
proof
  fix c assume "c \<in> set (nat_codes i)"
  then obtain ch where "ch \<in> set (py_nat_str i)" "c = of_char ch" by (auto simp: nat_codes_def codes_def)
  then show "c \<in> {48..57}" using py_nat_str_digits [of i] by (auto simp: list_all_iff py_isdigit_def Let_def)
qed

lemma digit_ok:
  assumes "unicode_ok uc" and "c \<in> set (nat_codes i)"
  shows "uc_digit uc c = Some (c - 48) \<and> \<not> uc_space uc c \<and> word_char uc c"
proof -
  have "c \<in> {48..57}" using digit_codes assms(2) by blast
  then obtain d where "c = 48 + d" "d < 10" using nat_le_iff_add by fastforce
  then show ?thesis using assms(1) by (simp add: unicode_ok_def)
qed

lemma nat_codes_ne [simp]: "nat_codes i \<noteq> []"
  by (simp add: nat_codes_def codes_def)

lemma code_value_nat:
  assumes "unicode_ok uc" shows "code_value uc (nat_codes i) = i"
proof -
  have "set s \<subseteq> set (py_nat_str i) \<Longrightarrow>
      foldl (\<lambda>a d. a * 10 + the (uc_digit uc d)) n (map of_char s) = foldl (\<lambda>a c. 10 * a + digit_value c) n s" for s n
  proof (induction s arbitrary: n)
    case (Cons c s)
    have "of_char c \<in> set (nat_codes i)" using Cons.prems by (simp add: nat_codes_def codes_def)
    then have "the (uc_digit uc (of_char c)) = digit_value c"
      using digit_ok [OF assms] by (simp add: digit_value_def)
    then show ?case using Cons by (simp add: mult.commute)
  qed simp
  from this [of "py_nat_str i" 0] show ?thesis
    using digits_value_str [of i] by (simp add: code_value_def nat_codes_def codes_def digits_value_def)
qed

lemma dropWhile_run: "\<forall>c \<in> set w. \<not> P c \<Longrightarrow> \<not> P d \<Longrightarrow> dropWhile P (w @ d # r) = w @ d # r"
  by (cases w) simp_all

lemma tok_at_token [simp]:
  assumes "unicode_ok uc" shows "tok_at uc (token_for i @ r) = Some (i, r)"
proof -
  have digits: "u_isdigit uc c" if "c \<in> set (nat_codes i)" for c
    using digit_ok [OF assms that] by (simp add: u_isdigit_def)
  have close: "\<not> u_isdigit uc TCLOSE" "\<not> uc_space uc TCLOSE" "\<not> uc_space uc TMARK"
    using assms by (simp_all add: unicode_ok_def u_isdigit_def)
  have "dropWhile (uc_space uc) (nat_codes i @ TCLOSE # r) = nat_codes i @ TCLOSE # r"
    using digit_ok [OF assms] close by (intro dropWhile_run) auto
  moreover have "takeWhile (u_isdigit uc) (nat_codes i @ TCLOSE # r) = nat_codes i"
    using digits close by (simp add: takeWhile_append2)
  moreover have "dropWhile (u_isdigit uc) (nat_codes i @ TCLOSE # r) = TCLOSE # r"
    using digits close by (simp add: dropWhile_append2)
  ultimately show ?thesis
    using close by (simp add: tok_at_def token_for_def Let_def code_value_nat [OF assms])
qed

lemma tok_at_other: "c \<noteq> TOPEN \<Longrightarrow> tok_at uc (c # s) = None"
  by (simp add: tok_at_def)

section \<open>Segments\<close>

datatype mseg = Lit nat | Tok nat

fun seg_text :: "mseg \<Rightarrow> utext" where
  "seg_text (Lit c) = [c]"
| "seg_text (Tok i) = token_for i"

definition flat :: "mseg list \<Rightarrow> utext" where
  "flat gs = concat (map seg_text gs)"

fun seg_shown :: "mask_entry list \<Rightarrow> (mask_entry \<Rightarrow> utext) \<Rightarrow> mseg \<Rightarrow> utext" where
  "seg_shown table eff (Lit c) = [c]"
| "seg_shown table eff (Tok i) = eff (the (by_index table i))"

definition shown :: "mask_entry list \<Rightarrow> (mask_entry \<Rightarrow> utext) \<Rightarrow> mseg list \<Rightarrow> utext" where
  "shown table eff gs = concat (map (seg_shown table eff) gs)"

definition tokens_of :: "mseg list \<Rightarrow> nat set" where
  "tokens_of gs = {i. Tok i \<in> set gs}"

fun seg_ok :: "mask_entry list \<Rightarrow> mseg \<Rightarrow> bool" where
  "seg_ok table (Lit c) \<longleftrightarrow> c \<noteq> TOPEN \<and> c \<noteq> TCLOSE \<and> \<not> hangul c"
| "seg_ok table (Tok i) \<longleftrightarrow> by_index table i \<noteq> None"

lemma flat_simps [simp]: "flat [] = []" "flat (g # gs) = seg_text g @ flat gs" "flat (gs @ hs) = flat gs @ flat hs"
  by (simp_all add: flat_def)

lemma shown_simps [simp]:
  "shown table eff [] = []" "shown table eff (g # gs) = seg_shown table eff g @ shown table eff gs"
  "shown table eff (gs @ hs) = shown table eff gs @ shown table eff hs"
  by (simp_all add: shown_def)

lemma tokens_simps [simp]:
  "tokens_of [] = {}" "tokens_of (Lit c # gs) = tokens_of gs" "tokens_of (Tok i # gs) = insert i (tokens_of gs)"
  by (auto simp: tokens_of_def)

text \<open>A stretch without opening brackets is one of characters.\<close>

lemma flat_prefix:
  "TOPEN \<notin> set (take n (flat gs)) \<Longrightarrow> n \<le> length (flat gs) \<Longrightarrow>
   n \<le> length gs \<and> flat (take n gs) = take n (flat gs) \<and> flat (drop n gs) = drop n (flat gs) \<and>
   shown table eff (take n gs) = take n (flat gs) \<and> tokens_of gs = tokens_of (drop n gs)"
proof (induction n arbitrary: gs)
  case (Suc n)
  show ?case
  proof (cases gs)
    case (Cons g hs)
    then obtain c where "g = Lit c" using Suc.prems(1) by (cases g) (auto simp: token_for_def)
    then show ?thesis using Suc.IH [of hs] Suc.prems by (simp add: Cons)
  qed (use Suc.prems in simp)
qed simp

section \<open>A pass of the masking\<close>

lemma not_at_bracket:
  assumes "unicode_ok uc" and "TOPEN \<notin> set term" and "TCLOSE \<notin> set term" and "c = TOPEN \<or> c = TCLOSE"
  shows "\<not> term_at uc term prev (c # s)"
proof
  assume "term_at uc term prev (c # s)"
  then obtain t ts where "term = t # ts" "uc_fold uc c = uc_fold uc t" by (cases "term") (auto simp: term_at_def)
  then show False using assms by (auto simp: unicode_ok_def)
qed

lemma pass_word_run:
  "\<forall>c \<in> set w. word_char uc c \<Longrightarrow> word_char uc p \<Longrightarrow>
   mask_pass uc term tok (Some p) (w @ r) =
     (w @ fst (mask_pass uc term tok (Some (last (p # w))) r), snd (mask_pass uc term tok (Some (last (p # w))) r))"
proof (induction w arbitrary: p)
  case (Cons c w)
  have "\<not> term_at uc term (Some p) (c # w @ r)" using Cons.prems(2) by (simp add: term_at_def boundary_def)
  then show ?case using Cons by (simp add: mask_pass.simps)
qed simp

text \<open>\<open>Tokens are inert to later passes.\<close>\<close>

lemma pass_token:
  assumes "unicode_ok uc" and "entry_ok uc e"
  shows "mask_pass uc (me_from e) tok prev (token_for i @ r) =
    (token_for i @ fst (mask_pass uc (me_from e) tok (Some TCLOSE) r), snd (mask_pass uc (me_from e) tok (Some TCLOSE) r))"
proof -
  let ?t = "me_from e" and ?w = "nat_codes i"
  have brackets: "TOPEN \<notin> set ?t" "TCLOSE \<notin> set ?t" using assms(2) by (simp_all add: entry_ok_def)
  have words: "word_char uc TMARK" "\<forall>c \<in> set ?w. word_char uc c"
    using assms(1) digit_ok [OF assms(1)] by (simp_all add: unicode_ok_def)
  have inside: "\<not> term_at uc ?t (Some TOPEN) (TMARK # ?w @ TCLOSE # r)"
  proof
    let ?s = "(TMARK # ?w) @ TCLOSE # r" and ?n = "length ?t"
    assume "term_at uc ?t (Some TOPEN) (TMARK # ?w @ TCLOSE # r)"
    then have at: "map (uc_fold uc) (take ?n ?s) = map (uc_fold uc) ?t" "boundary uc (head_of (drop ?n ?s))" "?n \<noteq> 0"
      by (simp_all add: term_at_def)
    have le: "?n \<le> length (TMARK # ?w)"
    proof (rule ccontr)
      assume "\<not> ?n \<le> length (TMARK # ?w)"
      then have "TCLOSE \<in> set (take ?n ?s)" by (cases ?t) (auto simp: take_Cons')
      then have "uc_fold uc TCLOSE \<in> set (map (uc_fold uc) ?t)" unfolding at(1) [symmetric] by simp
      then obtain x where "x \<in> set ?t" "uc_fold uc x = uc_fold uc TCLOSE" by auto
      then show False using fold_bracket(2) [OF assms(1)] brackets(2) by metis
    qed
    show False
    proof (cases "?n = length (TMARK # ?w)")
      case True
      then have "take ?n ?s = TMARK # ?w" by simp
      then show False using at(1) assms(2) by (metis entry_ok_def)
    next
      case False
      have "drop ?n ?s = drop ?n (TMARK # ?w) @ TCLOSE # r" by (simp only: drop_append) (use le in simp)
      moreover have "drop ?n (TMARK # ?w) \<noteq> []" using False le by simp
      ultimately obtain c where "head_of (drop ?n ?s) = Some c" "c \<in> set (TMARK # ?w)"
        using set_drop_subset [of ?n "TMARK # ?w"] by (cases "drop ?n (TMARK # ?w)") (auto simp: head_of_def)
      then show False using at(2) words by (auto simp: boundary_def)
    qed
  qed
  have "mask_pass uc ?t tok (Some (last (TMARK # ?w))) (TCLOSE # r) =
      (TCLOSE # fst (mask_pass uc ?t tok (Some TCLOSE) r), snd (mask_pass uc ?t tok (Some TCLOSE) r))"
    using not_at_bracket [OF assms(1) brackets] by (simp add: mask_pass.simps)
  moreover have "\<not> term_at uc ?t prev (TOPEN # TMARK # ?w @ TCLOSE # r)"
    by (rule not_at_bracket [OF assms(1) brackets]) simp
  ultimately show ?thesis
    using inside pass_word_run [OF words(2,1), of ?t tok "TCLOSE # r"] by (simp add: token_for_def mask_pass.simps)
qed

lemma fold_eq_brackets:
  assumes "unicode_ok uc" and "TOPEN \<notin> set t" and "map (uc_fold uc) s = map (uc_fold uc) t" shows "TOPEN \<notin> set s"
proof
  assume "TOPEN \<in> set s"
  then have "uc_fold uc TOPEN \<in> set (map (uc_fold uc) t)" unfolding assms(3) [symmetric] by simp
  then obtain x where "x \<in> set t" "uc_fold uc x = uc_fold uc TOPEN" by auto
  then show False using fold_bracket(1) [OF assms(1)] assms(2) by metis
qed

lemma pass_segments:
  assumes "unicode_ok uc" and "entry_ok uc e" and "by_index table (me_index e) = Some e"
  shows "list_all (seg_ok table) gs \<Longrightarrow>
    \<exists>gs' hit. mask_pass uc (me_from e) (token_for (me_index e)) prev (flat gs) = (flat gs', hit) \<and> list_all (seg_ok table) gs' \<and>
      map (uc_fold uc) (shown table me_from gs') = map (uc_fold uc) (shown table me_from gs) \<and>
      tokens_of gs' = tokens_of gs \<union> (if hit then {me_index e} else {})"
proof (induction "length gs" arbitrary: gs prev rule: less_induct)
  case less
  let ?t = "me_from e" and ?i = "me_index e"
  show ?case
  proof (cases gs)
    case Nil
    then show ?thesis by (intro exI [of _ "[]"] exI [of _ False]) (simp add: mask_pass.simps)
  next
    case (Cons g hs)
    show ?thesis
    proof (cases g)
      case (Tok j)
      obtain gs' hit where gs': "mask_pass uc ?t (token_for ?i) (Some TCLOSE) (flat hs) = (flat gs', hit)"
        "list_all (seg_ok table) gs'" "map (uc_fold uc) (shown table me_from gs') = map (uc_fold uc) (shown table me_from hs)"
        "tokens_of gs' = tokens_of hs \<union> (if hit then {?i} else {})"
        using less.hyps [of hs "Some TCLOSE"] less.prems by (auto simp: Cons)
      then show ?thesis using less.prems pass_token [OF assms(1,2)]
        by (intro exI [of _ "Tok j # gs'"] exI [of _ hit]) (auto simp: Cons Tok)
    next
      case (Lit c)
      let ?n = "length ?t"
      show ?thesis
      proof (cases "term_at uc ?t prev (c # flat hs)")
        case True
        then have at: "map (uc_fold uc) (take ?n (flat gs)) = map (uc_fold uc) ?t" "?n \<le> length (flat gs)" "0 < ?n"
          by (simp_all add: term_at_def Cons Lit)
        have "TOPEN \<notin> set (take ?n (flat gs))"
          by (rule fold_eq_brackets [OF assms(1) _ at(1)]) (use assms(2) in \<open>simp add: entry_ok_def\<close>)
        note pre = flat_prefix [OF this at(2), of table me_from]
        have all: "list_all (seg_ok table) (drop ?n gs)" using less.prems by (auto simp: list_all_iff dest: in_set_dropD)
        have "length (drop ?n gs) < length gs" using at(3) by (simp add: Cons)
        from less.hyps [OF this all, of "Some ((c # flat hs) ! (?n - 1))"]
        obtain gs' hit where gs': "mask_pass uc ?t (token_for ?i) (Some ((c # flat hs) ! (?n - 1))) (flat (drop ?n gs)) = (flat gs', hit)"
          "list_all (seg_ok table) gs'" "map (uc_fold uc) (shown table me_from gs') = map (uc_fold uc) (shown table me_from (drop ?n gs))"
          "tokens_of gs' = tokens_of (drop ?n gs) \<union> (if hit then {?i} else {})" by blast
        have "shown table me_from gs = take ?n (flat gs) @ shown table me_from (drop ?n gs)"
          using pre by (metis append_take_drop_id shown_simps(3))
        then show ?thesis
          using gs' pre assms(3) at(1) True
          by (intro exI [of _ "Tok ?i # gs'"] exI [of _ True]) (auto simp: Cons Lit mask_pass.simps)
      next
        case False
        obtain gs' hit where gs': "mask_pass uc ?t (token_for ?i) (Some c) (flat hs) = (flat gs', hit)"
          "list_all (seg_ok table) gs'" "map (uc_fold uc) (shown table me_from gs') = map (uc_fold uc) (shown table me_from hs)"
          "tokens_of gs' = tokens_of hs \<union> (if hit then {?i} else {})"
          using less.hyps [of hs "Some c"] less.prems by (auto simp: Cons)
        then show ?thesis using less.prems False
          by (intro exI [of _ "Lit c # gs'"] exI [of _ hit]) (auto simp: Cons Lit mask_pass.simps)
      qed
    qed
  qed
qed

section \<open>The whole masking\<close>

lemma find_append: "find P (xs @ ys) = (case find P xs of None \<Rightarrow> find P ys | Some x \<Rightarrow> Some x)"
  by (induction xs) simp_all

lemma by_index_own:
  "distinct (map me_index table) \<Longrightarrow> e \<in> set table \<Longrightarrow> by_index table (me_index e) = Some e"
proof (induction table)
  case (Cons d ds)
  show ?case
  proof (cases "e = d")
    case True
    then have "find (\<lambda>x. me_index x = me_index e) (rev ds) = None"
      using Cons.prems(1) by (auto simp: find_None_iff image_iff)
    then show ?thesis by (simp add: by_index_def find_append True)
  next
    case False
    then have "by_index ds (me_index e) = Some e" using Cons by simp
    then show ?thesis by (simp add: by_index_def find_append)
  qed
qed simp

definition mask_inv :: "unicode \<Rightarrow> mask_entry list \<Rightarrow> utext \<Rightarrow> utext \<times> nat list \<Rightarrow> bool" where
  "mask_inv uc table s tp \<longleftrightarrow>
     (\<exists>gs. fst tp = flat gs \<and> list_all (seg_ok table) gs \<and>
       map (uc_fold uc) (shown table me_from gs) = map (uc_fold uc) s \<and> tokens_of gs = set (snd tp))"

lemma mask_step_inv:
  assumes "unicode_ok uc" and "table_ok uc table" and "e \<in> set table" and "mask_inv uc table s tp"
  shows "mask_inv uc table s (mask_step uc e tp)"
proof -
  obtain gs where gs: "fst tp = flat gs" "list_all (seg_ok table) gs"
    "map (uc_fold uc) (shown table me_from gs) = map (uc_fold uc) s" "tokens_of gs = set (snd tp)"
    using assms(4) by (auto simp: mask_inv_def)
  have e: "entry_ok uc e" "by_index table (me_index e) = Some e"
    using assms(2,3) by (auto simp: table_ok_def intro: by_index_own)
  obtain gs' hit where gs': "mask_pass uc (me_from e) (token_for (me_index e)) None (flat gs) = (flat gs', hit)"
    "list_all (seg_ok table) gs'" "map (uc_fold uc) (shown table me_from gs') = map (uc_fold uc) (shown table me_from gs)"
    "tokens_of gs' = tokens_of gs \<union> (if hit then {me_index e} else {})"
    using pass_segments [OF assms(1) e gs(2)] by blast
  show ?thesis
  proof (cases hit)
    case True
    then show ?thesis using gs gs' by (auto simp: mask_step_def mask_inv_def intro!: exI [of _ gs'])
  next
    case False
    then show ?thesis using gs gs' by (auto simp: mask_step_def mask_inv_def intro!: exI [of _ gs])
  qed
qed

lemma mask_text_inv:
  assumes "unicode_ok uc" and "table_ok uc table" and "english s"
  shows "mask_inv uc table s (mask_text uc s table)"
proof -
  have "set es \<subseteq> set table \<Longrightarrow> mask_inv uc table s tp \<Longrightarrow> mask_inv uc table s (fold (mask_step uc) es tp)" for es tp
    by (induction es arbitrary: tp) (simp_all add: mask_step_inv [OF assms(1,2)])
  moreover have "mask_inv uc table s (s, [])"
  proof -
    have "flat (map Lit t) = t \<and> shown table me_from (map Lit t) = t \<and> tokens_of (map Lit t) = {}" for t
      by (induction t) simp_all
    then show ?thesis
      using assms(3) by (auto simp: mask_inv_def english_def list_all_iff intro!: exI [of _ "map Lit s"])
  qed
  ultimately show ?thesis by (simp add: mask_text_def)
qed

section \<open>Rendering\<close>

lemma particles_hangul: "p \<in> set PARTICLE_ALT \<Longrightarrow> p \<noteq> [] \<and> hangul (hd p)"
  by (auto simp: PARTICLE_ALT_def PARTICLE_PAIRS_def hangul_def)

lemma no_josa: "(case head_of s of None \<Rightarrow> True | Some c \<Rightarrow> \<not> hangul c) \<Longrightarrow> josa_at s = None"
proof -
  assume h: "case head_of s of None \<Rightarrow> True | Some c \<Rightarrow> \<not> hangul c"
  have "take (length p) s \<noteq> p" if "p \<in> set PARTICLE_ALT" for p
    using particles_hangul [OF that] h by (cases s; cases p) (auto simp: head_of_def)
  then show ?thesis by (auto simp: josa_at_def find_None_iff)
qed

lemma flat_head: "list_all (seg_ok table) gs \<Longrightarrow> (case head_of (flat gs) of None \<Rightarrow> True | Some c \<Rightarrow> \<not> hangul c)"
  by (cases gs; cases "hd gs") (auto simp: head_of_def token_for_def hangul_def)

lemma render_flat:
  assumes "unicode_ok uc"
  shows "list_all (seg_ok table) gs \<Longrightarrow>
    fst (render_pass uc table eff (flat gs)) = shown table eff gs \<and> set (snd (render_pass uc table eff (flat gs))) = tokens_of gs"
proof (induction gs)
  case (Cons g gs)
  show ?case
  proof (cases g)
    case (Lit c)
    then show ?thesis using Cons by (simp add: tok_at_other)
  next
    case (Tok i)
    then obtain e where e: "by_index table i = Some e" using Cons.prems by auto
    have josa: "josa_at (flat gs) = None" by (rule no_josa) (use flat_head [of table gs] Cons.prems in simp)
    obtain c w where t: "token_for i = c # w" by (simp add: token_for_def)
    have "tok_at uc (c # w @ flat gs) = Some (i, flat gs)" using tok_at_token [OF assms, of i "flat gs"] by (simp add: t)
    then show ?thesis
      using Cons e josa by (simp add: Tok t rendered_def josa_rest_def)
  qed
qed simp

lemma found_flat:
  assumes "unicode_ok uc"
  shows "list_all (seg_ok table) gs \<Longrightarrow> set (found_tokens uc (flat gs)) = tokens_of gs"
proof (induction gs)
  case (Cons g gs)
  show ?case
  proof (cases g)
    case (Tok i)
    obtain c w where t: "token_for i = c # w" by (simp add: token_for_def)
    have "tok_at uc (c # w @ flat gs) = Some (i, flat gs)" using tok_at_token [OF assms, of i "flat gs"] by (simp add: t)
    then show ?thesis using Cons by (simp add: Tok t)
  qed (use Cons in \<open>simp add: tok_at_other\<close>)
qed simp

lemma sweep_nothing: "TOPEN \<notin> set s \<Longrightarrow> sweep uc s = s"
  by (induction s) (simp_all add: residual_at_def)

lemma shown_clean:
  assumes "\<And>e. e \<in> set table \<Longrightarrow> TOPEN \<notin> set (eff e)"
  shows "list_all (seg_ok table) gs \<Longrightarrow> TOPEN \<notin> set (shown table eff gs)"
proof (induction gs)
  case (Cons g gs)
  have "e \<in> set table" if "by_index table i = Some e" for i e
    using that by (auto simp: by_index_def find_Some_iff) (metis nth_mem length_rev set_rev)
  then show ?case using Cons assms by (cases g) auto
qed simp

text \<open>
  C13. Masking and rendering are inverse up to the case of the standard terms: if the model returns a
  masked English text as it is, rendering every token as its term restores the text; the tokens that
  rendering reports, and those looked for in the model's answer, are exactly the ones planted. In
  particular a token is never broken by the masking of a later, shorter term.
\<close>

theorem mask_render_roundtrip:
  assumes "unicode_ok uc" and "table_ok uc table" and "english s"
  shows "map (uc_fold uc) (fst (render_tokens uc (fst (mask_text uc s table)) table me_from)) = map (uc_fold uc) s \<and>
    set (snd (render_tokens uc (fst (mask_text uc s table)) table me_from)) = set (snd (mask_text uc s table)) \<and>
    set (found_tokens uc (fst (mask_text uc s table))) = set (snd (mask_text uc s table))"
proof -
  obtain gs where gs: "fst (mask_text uc s table) = flat gs" "list_all (seg_ok table) gs"
    "map (uc_fold uc) (shown table me_from gs) = map (uc_fold uc) s" "tokens_of gs = set (snd (mask_text uc s table))"
    using mask_text_inv [OF assms] by (auto simp: mask_inv_def)
  have "TOPEN \<notin> set (shown table me_from gs)"
    by (rule shown_clean [OF _ gs(2)]) (use assms(2) in \<open>simp add: table_ok_def entry_ok_def\<close>)
  then show ?thesis
    using render_flat [OF assms(1) gs(2), of me_from] found_flat [OF assms(1) gs(2)] gs
    by (simp add: render_tokens_def sweep_nothing split_beta)
qed

section \<open>The seed\<close>

text \<open>The tables of a process that sees ASCII only.\<close>

definition ascii_unicode :: unicode where
  "ascii_unicode =
     \<lparr>uc_space = (\<lambda>c. c \<in> {9, 10, 11, 12, 13, 32}), uc_digit = (\<lambda>c. if 48 \<le> c \<and> c \<le> 57 then Some (c - 48) else None),
      uc_fold = (\<lambda>c. if 65 \<le> c \<and> c \<le> 90 then c + 32 else c), uc_lower = (\<lambda>c. [if 65 \<le> c \<and> c \<le> 90 then c + 32 else c]),
      uc_word = ascii_word\<rparr>"

lemma ascii_ok: "unicode_ok ascii_unicode"
  by (auto simp: unicode_ok_def ascii_unicode_def word_char_def ascii_word_def)

definition inert_term :: "utext \<Rightarrow> bool" where
  "inert_term t \<longleftrightarrow> TOPEN \<notin> set t \<and> TCLOSE \<notin> set t \<and>
     (case t of [] \<Rightarrow> True | c # s \<Rightarrow> c \<notin> {71, 103} \<or> (case s of [] \<Rightarrow> True | d # _ \<Rightarrow> d < 48 \<or> 57 < d))"

lemma inert_entry: "inert_term (me_from e) \<Longrightarrow> entry_ok ascii_unicode e"
proof -
  assume t: "inert_term (me_from e)"
  have "map (uc_fold ascii_unicode) (me_from e) \<noteq> map (uc_fold ascii_unicode) (TMARK # nat_codes i)" for i
  proof
    assume eq: "map (uc_fold ascii_unicode) (me_from e) = map (uc_fold ascii_unicode) (TMARK # nat_codes i)"
    then obtain c s where cs: "me_from e = c # s" by (cases "me_from e") auto
    then have "c \<in> {71, 103}" using eq by (auto simp: ascii_unicode_def split: if_splits)
    moreover obtain n ns where n: "nat_codes i = n # ns" by (cases "nat_codes i") auto
    moreover from this have "n \<in> {48..57}" using digit_codes [of i] by auto
    ultimately obtain d s' where s': "s = d # s'" "uc_fold ascii_unicode d = n" "48 \<le> n" "n \<le> 57"
      using eq cs by (cases s) (auto simp: ascii_unicode_def split: if_splits)
    then have "48 \<le> d \<and> d \<le> 57" by (auto simp: ascii_unicode_def split: if_splits)
    then show False using t \<open>c \<in> {71, 103}\<close> by (auto simp: inert_term_def cs s')
  qed
  then show ?thesis using t by (auto simp: entry_ok_def inert_term_def)
qed

lemma table_indices: "map me_index build_mask_table = [0..<length SEED_KEEP_AS_IS + length SEED_MAPPINGS]"
proof -
  have a: "map (me_index \<circ> (\<lambda>(i, t). \<lparr>me_index = i, me_from = t, me_kind = k, me_seed = t\<rparr>)) (zip [0..<length xs] xs) = [0..<length xs]" for xs k
    by (rule nth_equalityI) simp_all
  have b: "map (me_index \<circ> (\<lambda>(i, f, t). \<lparr>me_index = n + i, me_from = f, me_kind = k, me_seed = t\<rparr>)) (zip [0..<length xs] xs) =
      [n..<n + length xs]" for xs k n
    by (rule nth_equalityI) (simp_all add: split_beta)
  show ?thesis by (simp add: build_mask_table_def a b upt_add_eq_append [of 0] del: upt_Suc)
qed

lemma seed_terms_inert: "list_all inert_term SEED_KEEP_AS_IS" "list_all (inert_term \<circ> fst) SEED_MAPPINGS"
  by (simp_all add: SEED_KEEP_AS_IS_def SEED_MAPPINGS_def codes_def inert_term_def)

lemma seed_table_ok: "table_ok ascii_unicode build_mask_table"
proof -
  have "inert_term (me_from e)" if "e \<in> set build_mask_table" for e
    using that seed_terms_inert by (auto simp: build_mask_table_def list_all_iff dest!: set_zip_rightD)
  then show ?thesis using table_indices by (simp add: table_ok_def inert_entry)
qed

text \<open>The seed table, a sentence with a term in another case.\<close>

theorem mask_render_roundtrip_witness:
  "map (uc_fold ascii_unicode) (fst (render_tokens ascii_unicode
       (fst (mask_text ascii_unicode (codes ''a TRANSFORMER'') build_mask_table)) build_mask_table me_from)) = codes ''a transformer'' \<and>
   table_ok ascii_unicode build_mask_table"
proof -
  have "english (codes ''a TRANSFORMER'')" by (simp add: english_def codes_def hangul_def)
  moreover have "map (uc_fold ascii_unicode) (codes ''a TRANSFORMER'') = codes ''a transformer''"
    by (simp add: codes_def ascii_unicode_def)
  ultimately show ?thesis using mask_render_roundtrip [OF ascii_ok seed_table_ok] seed_table_ok by simp
qed

text \<open>The sweep is one pass: what the removal of a marker brings together is not swept.\<close>

lemma marker_survives_the_sweep:
  "fst (render_tokens ascii_unicode [TOPEN, TOPEN, TCLOSE, TCLOSE] table eff) = [TOPEN, TCLOSE]"
proof -
  have "render_pass ascii_unicode table eff [TOPEN, TOPEN, TCLOSE, TCLOSE] = ([TOPEN, TOPEN, TCLOSE, TCLOSE], [])"
    by (simp add: tok_at_def ascii_unicode_def)
  moreover have "sweep ascii_unicode [TOPEN, TOPEN, TCLOSE, TCLOSE] = [TOPEN, TCLOSE]"
    by (simp add: residual_at_def ascii_unicode_def u_isdigit_def)
  ultimately show ?thesis by (simp add: render_tokens_def)
qed

end
