(* ===== verification/Sum_Translate_Facts.thy ===== *)
theory Sum_Translate_Facts imports Sum_Translate Sum_Masking_Facts begin

text \<open>
  A translation has the structure of its source, only complete answers of the model reach it, and the
  calls it makes are bounded, however often the model is cut off or drops tokens.
\<close>

section \<open>The structure\<close>

text \<open>The shape of a document: its texts replaced by a mark of whether there is one.\<close>

definition blank :: "utext \<Rightarrow> utext" where
  "blank t = (if t = [] then [] else [0])"

fun block_shape :: "ublock \<Rightarrow> ublock" where
  "block_shape (UParagraph i t) = UParagraph i (blank t)"
| "block_shape (UFigure i lab cap) = UFigure i lab (map_option blank cap)"
| "block_shape (UTable i lab cap rows) = UTable i lab (map_option blank cap) rows"
| "block_shape (UList i items) = UList i (map blank items)"
| "block_shape (UFormula i latex) = UFormula i latex"
| "block_shape (UCode i t) = UCode i t"

fun section_shape :: "usection \<Rightarrow> usection" where
  "section_shape (USection sid title bs ss) = USection sid (blank title) (map block_shape bs) (map section_shape ss)"

definition doc_shape :: "udoc \<Rightarrow> udoc" where
  "doc_shape d = d\<lparr>ud_title := blank (ud_title d), ud_sections := map section_shape (ud_sections d), ud_full_text := []\<rparr>"

text \<open>Putting texts takes the first ones, one for each field, and leaves the rest.\<close>

definition fills :: "utext list \<Rightarrow> utext list \<Rightarrow> utext list \<Rightarrow> utext list \<Rightarrow> bool" where
  "fills fs us rest all \<longleftrightarrow> all = us @ rest \<and> length us = length fs \<and> [] \<notin> set us"

lemma fills_split:
  assumes "fills (fs @ gs) us rest all"
  obtains vs ws where "us = vs @ ws" "fills fs vs (ws @ rest) all" "fills gs ws rest (ws @ rest)"
proof
  show "us = take (length fs) us @ drop (length fs) us" by simp
  show "fills fs (take (length fs) us) (drop (length fs) us @ rest) all"
    using assms by (auto simp: fills_def dest: in_set_takeD)
  show "fills gs (drop (length fs) us) rest (drop (length fs) us @ rest)"
    using assms by (auto simp: fills_def dest: in_set_dropD)
qed

lemma put_text_fills:
  "fills (text_field t) us rest all \<Longrightarrow>
     \<exists>t'. put_text t all = (t', rest) \<and> text_field t' = us \<and> blank t' = blank t"
  by (cases us) (auto simp: fills_def text_field_def put_text_def blank_def split: if_splits)

lemma put_texts_fills:
  "fills (concat (map text_field ts)) us rest all \<Longrightarrow>
     \<exists>ts'. put_texts ts all = (ts', rest) \<and> concat (map text_field ts') = us \<and> map blank ts' = map blank ts"
proof (induction ts arbitrary: us all)
  case (Cons t ts)
  then have "fills (text_field t @ concat (map text_field ts)) us rest all" by simp
  then obtain vs ws where us: "us = vs @ ws" "fills (text_field t) vs (ws @ rest) all"
      "fills (concat (map text_field ts)) ws rest (ws @ rest)" by (rule fills_split)
  from put_text_fills [OF us(2)] Cons.IH [OF us(3)] show ?case by (auto simp: us(1))
qed (simp add: fills_def)

lemma put_caption_fills:
  "fills (text_field (text_or_empty cap)) us rest all \<Longrightarrow>
     \<exists>cap'. put_caption cap all = (cap', rest) \<and> text_field (text_or_empty cap') = us \<and> map_option blank cap' = map_option blank cap"
proof (cases cap)
  case (Some c)
  assume "fills (text_field (text_or_empty cap)) us rest all"
  then have "fills (text_field c) us rest all" by (simp add: Some text_or_empty_def)
  from put_text_fills [OF this] obtain t' where "put_text c all = (t', rest)" "text_field t' = us" "blank t' = blank c" by blast
  then show ?thesis by (intro exI [of _ "Some t'"]) (simp add: Some put_caption_def text_or_empty_def)
qed (auto simp: put_caption_def text_or_empty_def text_field_def fills_def)

lemma put_block_fills:
  "fills (block_fields b) us rest all \<Longrightarrow>
     \<exists>b'. put_block b all = (b', rest) \<and> block_fields b' = us \<and> block_shape b' = block_shape b"
proof (cases b)
  case (UParagraph i t)
  assume "fills (block_fields b) us rest all"
  then show ?thesis using put_text_fills by (fastforce simp: UParagraph)
next
  case (UFigure i lab cap)
  assume "fills (block_fields b) us rest all"
  then show ?thesis using put_caption_fills by (fastforce simp: UFigure)
next
  case (UTable i lab cap rows)
  assume "fills (block_fields b) us rest all"
  then show ?thesis using put_caption_fills by (fastforce simp: UTable)
next
  case (UList i items)
  assume "fills (block_fields b) us rest all"
  then show ?thesis using put_texts_fills by (fastforce simp: UList)
qed (auto simp: fills_def)

lemma put_blocks_fills:
  "fills (concat (map block_fields bs)) us rest all \<Longrightarrow>
     \<exists>bs'. put_blocks bs all = (bs', rest) \<and> concat (map block_fields bs') = us \<and> map block_shape bs' = map block_shape bs"
proof (induction bs arbitrary: us all)
  case (Cons b bs)
  then have "fills (block_fields b @ concat (map block_fields bs)) us rest all" by simp
  then obtain vs ws where us: "us = vs @ ws" "fills (block_fields b) vs (ws @ rest) all"
      "fills (concat (map block_fields bs)) ws rest (ws @ rest)" by (rule fills_split)
  from put_block_fills [OF us(2)] Cons.IH [OF us(3)] show ?case by (auto simp: us(1))
qed (simp add: fills_def)

lemma put_section_fills:
  "fills (section_fields s) us rest all \<Longrightarrow>
     \<exists>s'. put_section s all = (s', rest) \<and> section_fields s' = us \<and> section_shape s' = section_shape s"
  "fills (concat (map section_fields ss)) us rest all \<Longrightarrow>
     \<exists>ss'. put_sections ss all = (ss', rest) \<and> concat (map section_fields ss') = us \<and> map section_shape ss' = map section_shape ss"
proof (induction s all and ss all arbitrary: us rest and us rest rule: put_section_put_sections.induct)
  case (1 sid title bs ss all)
  from 1(2) have "fills (text_field title @ (concat (map block_fields bs) @ concat (map section_fields ss))) us rest all" by simp
  then obtain vs ws where us: "us = vs @ ws" "fills (text_field title) vs (ws @ rest) all"
      "fills (concat (map block_fields bs) @ concat (map section_fields ss)) ws rest (ws @ rest)" by (rule fills_split)
  from us(3) obtain xs ys where ws: "ws = xs @ ys" "fills (concat (map block_fields bs)) xs (ys @ rest) (ws @ rest)"
      "fills (concat (map section_fields ss)) ys rest (ys @ rest)" by (rule fills_split)
  obtain title' where title: "put_text title all = (title', ws @ rest)" "text_field title' = vs" "blank title' = blank title"
    using put_text_fills [OF us(2)] by blast
  obtain bs' where bs: "put_blocks bs (ws @ rest) = (bs', ys @ rest)" "concat (map block_fields bs') = xs"
      "map block_shape bs' = map block_shape bs" using put_blocks_fills [OF ws(2)] by blast
  obtain ss' where ss: "put_sections ss (ys @ rest) = (ss', rest)" "concat (map section_fields ss') = ys"
      "map section_shape ss' = map section_shape ss"
    using 1(1) [OF title(1) [symmetric] bs(1) [symmetric] ws(3)] by blast
  show ?case using title bs ss by (simp add: us(1) ws(1))
next
  case (2 all)
  then show ?case by (simp add: fills_def)
next
  case (3 s ss all)
  from 3(3) have "fills (section_fields s @ concat (map section_fields ss)) us rest all" by simp
  then obtain vs ws where us: "us = vs @ ws" "fills (section_fields s) vs (ws @ rest) all"
      "fills (concat (map section_fields ss)) ws rest (ws @ rest)" by (rule fills_split)
  obtain s' where s: "put_section s all = (s', ws @ rest)" "section_fields s' = vs" "section_shape s' = section_shape s"
    using 3(1) [OF us(2)] by blast
  show ?case using s 3(2) [OF s(1) [symmetric] us(3)] by (auto simp: us(1))
qed

lemma put_fields_mirror:
  assumes "length us = length (iter_text_fields d)" and "[] \<notin> set us"
  shows "iter_text_fields (put_fields uc d us) = us \<and> doc_shape (put_fields uc d us) = doc_shape d \<and>
    ud_full_text (put_fields uc d us) = project_full_text uc (ud_sections (put_fields uc d us))"
proof -
  have "fills (text_field (ud_title d) @ concat (map section_fields (ud_sections d))) us [] us"
    using assms by (simp add: fills_def iter_text_fields_def)
  then obtain vs ws where us: "us = vs @ ws" "fills (text_field (ud_title d)) vs (ws @ []) us"
      "fills (concat (map section_fields (ud_sections d))) ws [] (ws @ [])" by (rule fills_split)
  from put_text_fills [OF us(2)] put_section_fills(2) [OF us(3)] show ?thesis
    by (auto simp: put_fields_def iter_text_fields_def doc_shape_def us(1))
qed

section \<open>Chunks and their answers\<close>

lemma segment_chunks_run:
  "foldl (add_chunk_segment budget) (cs, cur, n) segs = (cs', cur', n') \<Longrightarrow> [] \<notin> set cs \<Longrightarrow>
     concat cs' @ cur' = concat cs @ cur @ segs \<and> [] \<notin> set cs'"
proof (induction segs arbitrary: cs cur n)
  case (Cons s segs)
  obtain ds e m where st: "add_chunk_segment budget (cs, cur, n) s = (ds, e, m)" by (metis prod_cases3)
  then have "concat ds @ e = concat cs @ cur @ [s]" "[] \<notin> set ds"
    using Cons.prems(2) by (auto simp: add_chunk_segment_def Let_def split: if_splits)
  moreover have "concat cs' @ cur' = concat ds @ e @ segs \<and> [] \<notin> set cs'"
    using Cons.IH [of ds e m] Cons.prems(1) st \<open>[] \<notin> set ds\<close> by simp
  ultimately show ?case by (metis append.assoc append_Cons append_Nil)
qed simp

lemma segment_chunks_cover: "concat (segment_chunks budget segs) = segs" "[] \<notin> set (segment_chunks budget segs)"
proof -
  obtain cs cur n where run: "foldl (add_chunk_segment budget) ([], [], 0) segs = (cs, cur, n)" by (metis prod_cases3)
  from segment_chunks_run [OF run] have "concat cs @ cur = segs" "[] \<notin> set cs" by simp_all
  then show "concat (segment_chunks budget segs) = segs" "[] \<notin> set (segment_chunks budget segs)"
    by (auto simp: segment_chunks_def run)
qed

text \<open>What the calls cost, in any measure of the world that one call raises by at most one.\<close>

definition one_call :: "('w \<Rightarrow> nat) \<Rightarrow> 'w segment_llm \<Rightarrow> bool" where
  "one_call cost llm \<longleftrightarrow> (\<forall>ch q g w. cost (snd (llm ch q g w)) \<le> cost w + 1)"

lemma sbind_cost:
  fixes cost :: "'w \<Rightarrow> nat"
  assumes "cost (snd (m w)) \<le> cost w + a" and "\<And>x v. cost (snd (f x v)) \<le> cost v + b"
  shows "cost (snd (sbind m f w)) \<le> cost w + (a + b)"
proof (cases "m w")
  case (Pair r v)
  show ?thesis
  proof (cases r)
    case (Inr x)
    then show ?thesis using assms(1) assms(2) [of x v] by (simp add: sbind_def Pair)
  qed (use assms(1) in \<open>simp add: sbind_def Pair\<close>)
qed

lemma sret_cost: "cost (snd (sret x w)) = cost w"
  by (simp add: sret_def)

lemma translate_chunk_cost:
  assumes llm: "one_call cost llm" and "chunk \<noteq> []"
  shows "cost (snd (translate_chunk uc llm planted q g retries chunk w)) \<le> cost w + ((retries + 2) * length chunk - 1)"
  using assms(2)
proof (induction "length chunk + retries" arbitrary: chunk retries w rule: less_induct)
  case less
  define n where "n = length chunk"
  have n: "0 < n" using less.prems by (simp add: n_def)
  define k where "k = (retries + 2) * n - 2"
  let ?next = "\<lambda>res. let dropped = (token_drops uc chunk (gr_translations res) planted \<noteq> []) in
       if length chunk > 1 \<and> (gr_truncated res \<or> (dropped \<and> retries > 0)) then
         let mid = length chunk div 2; next_retries = (if gr_truncated res then retries else retries - 1) in
         sbind (translate_chunk uc llm planted q g next_retries (take mid chunk)) (\<lambda>l.
         sbind (translate_chunk uc llm planted q g next_retries (drop mid chunk)) (\<lambda>r. sret (join_results l r)))
       else if dropped \<and> \<not> gr_truncated res \<and> length chunk \<le> 1 \<and> retries > 0 then
         translate_chunk uc llm planted q g (retries - 1) chunk
       else sret (gr_translations res, gr_kept res, if gr_truncated res then 1 else 0)"
  have split: "cost (snd (sbind (translate_chunk uc llm planted q g r (take (n div 2) chunk)) (\<lambda>l.
      sbind (translate_chunk uc llm planted q g r (drop (n div 2) chunk)) (\<lambda>x. sret (join_results l x))) v)) \<le> cost v + k"
    if "n > 1" "r \<le> retries" for r v
  proof -
    have half: "0 < n div 2" "n div 2 < n" using that by auto
    have "cost (snd (translate_chunk uc llm planted q g r (take (n div 2) chunk) v)) \<le> cost v + ((r + 2) * (n div 2) - 1)" for v
      using less.hyps [of "take (n div 2) chunk" r] half that less.prems by (auto simp: n_def)
    moreover have "cost (snd (translate_chunk uc llm planted q g r (drop (n div 2) chunk) v)) \<le> cost v + ((r + 2) * (n - n div 2) - 1)" for v
      using less.hyps [of "drop (n div 2) chunk" r] half that less.prems by (auto simp: n_def)
    ultimately have "cost (snd (sbind (translate_chunk uc llm planted q g r (take (n div 2) chunk)) (\<lambda>l.
      sbind (translate_chunk uc llm planted q g r (drop (n div 2) chunk)) (\<lambda>x. sret (join_results l x))) v))
      \<le> cost v + (((r + 2) * (n div 2) - 1) + (((r + 2) * (n - n div 2) - 1) + 0))"
      by (intro sbind_cost) (auto simp: sret_cost)
    moreover have "((r + 2) * (n div 2) - 1) + ((r + 2) * (n - n div 2) - 1) \<le> k"
    proof -
      have "(r + 2) * (n div 2) + (r + 2) * (n - n div 2) = (r + 2) * n"
        using half by (simp flip: distrib_left)
      moreover have "(r + 2) * n \<le> (retries + 2) * n" using that by simp
      moreover have "0 < (r + 2) * (n div 2)" "0 < (r + 2) * (n - n div 2)" using half by simp_all
      ultimately show ?thesis unfolding k_def by linarith
    qed
    ultimately show ?thesis by linarith
  qed
  have again: "cost (snd (translate_chunk uc llm planted q g (retries - 1) chunk v)) \<le> cost v + k" if "n = 1" "retries > 0" for v
    using less.hyps [of chunk "retries - 1" v] that less.prems by (simp add: n_def k_def)
  have "cost (snd (?next res v)) \<le> cost v + k" for res v
    using split [of retries v] split [of "retries - 1" v] again [of v] n
    by (cases "n > 1") (simp_all add: Let_def sret_cost flip: n_def)
  moreover have "cost (snd (llm chunk q g w)) \<le> cost w + 1" using llm by (simp add: one_call_def)
  ultimately have "cost (snd (sbind (llm chunk q g) ?next w)) \<le> cost w + (1 + k)" by (intro sbind_cost)
  moreover have "1 + k = (retries + 2) * length chunk - 1" using n by (cases n) (simp_all add: n_def [symmetric] k_def)
  ultimately show ?case by (subst translate_chunk.simps) simp
qed

lemma map_bounded_cost:
  fixes cost :: "'w \<Rightarrow> nat"
  assumes "\<forall>x \<in> set xs. \<forall>w. cost (snd (f x w)) \<le> cost w + c x"
  shows "cost (snd (map_bounded f xs w)) \<le> cost w + sum_list (map c xs)"
  using assms
proof (induction xs arbitrary: w)
  case Nil
  then show ?case by (simp add: sret_cost)
next
  case (Cons x xs)
  have "cost (snd (sbind (f x) (\<lambda>y. sbind (map_bounded f xs) (\<lambda>ys. sret (y # ys))) w)) \<le> cost w + (c x + (sum_list (map c xs) + 0))"
    using Cons by (intro sbind_cost) (auto simp: sret_cost)
  then show ?case by simp
qed

text \<open>
  C23. The calls of a translation are bounded by its text: whatever the model answers, cut off or with
  tokens dropped every time, or failing, a document of \<open>n\<close> translatable texts costs at most
  \<open>4 n\<close> calls of the model.
\<close>

theorem translation_calls_bounded:
  assumes "one_call cost llm"
  shows "cost (snd (translate_doc uc budget llm d q g w)) \<le> cost w + 4 * length (iter_text_fields d)"
proof -
  let ?fs = "iter_text_fields d"
  let ?chunks = "segment_chunks budget (masked_segments uc ?fs)"
  have "cost (snd (translate_chunk uc llm (planted_by_id uc ?fs) q g MAX_TOKEN_RETRIES c w)) \<le> cost w + 4 * length c"
    if "c \<in> set ?chunks" for c w
  proof -
    have "c \<noteq> []" using that segment_chunks_cover(2) [of budget "masked_segments uc ?fs"] by metis
    from translate_chunk_cost [OF assms this, of uc "planted_by_id uc ?fs" q g MAX_TOKEN_RETRIES w]
    show ?thesis by (simp add: MAX_TOKEN_RETRIES_def)
  qed
  then have "cost (snd (map_bounded (translate_chunk uc llm (planted_by_id uc ?fs) q g MAX_TOKEN_RETRIES) ?chunks w))
      \<le> cost w + sum_list (map (\<lambda>c. 4 * length c) ?chunks)" for w
    by (intro map_bounded_cost) blast
  moreover have "sum_list (map (\<lambda>c. 4 * length c) cs) = 4 * length (concat cs)" for cs :: "segment list list"
    by (induction cs) simp_all
  ultimately have run: "cost (snd (map_bounded (translate_chunk uc llm (planted_by_id uc ?fs) q g MAX_TOKEN_RETRIES) ?chunks w))
      \<le> cost w + 4 * length ?fs" for w
    by (simp add: segment_chunks_cover masked_segments_def)
  have "cost (snd (translate_doc uc budget llm d q g w)) \<le> cost w + (4 * length ?fs + 0)"
    unfolding translate_doc_def Let_def
    by (rule sbind_cost, rule run) (simp add: sraise_def sret_def split: prod.split)
  then show ?thesis by simp
qed

text \<open>A model that counts its calls and answers nothing, on one paragraph: three calls, then no change.\<close>

definition counting_llm :: "nat segment_llm" where
  "counting_llm ch q g w = (Inr \<lparr>gr_translations = [], gr_kept = [], gr_truncated = True\<rparr>, w + 1)"

definition one_title :: udoc where
  "one_title = \<lparr>ud_paper = [], ud_version = 1, ud_title = [65], ud_parser = [], ud_full_text = [], ud_sections = []\<rparr>"

definition translate_request :: sum_request where
  "translate_request = \<lparr>sq_paper = [], sq_version = 1, sq_task = TRANSLATE_TASK, sq_persona = EXPERT, sq_scope = FULL_SCOPE,
     sq_abstract = None\<rparr>"

theorem translation_calls_bounded_witness:
  "snd (translate_doc ascii_unicode 100 counting_llm one_title translate_request (resolve_glossary None None) 0) \<le> 4"
proof -
  have "one_call id counting_llm" by (simp add: one_call_def counting_llm_def)
  from translation_calls_bounded [OF this, where w = 0 and d = one_title and uc = ascii_unicode and budget = 100
      and q = translate_request and g = "resolve_glossary None None"]
  show ?thesis by (simp add: iter_text_fields_def text_field_def one_title_def)
qed

section \<open>Only complete answers\<close>

text \<open>A text that a complete answer of the model gives for an id.\<close>

definition answered :: "'w segment_llm \<Rightarrow> sum_request \<Rightarrow> glossary \<Rightarrow> string \<times> utext \<Rightarrow> bool" where
  "answered llm q g a \<longleftrightarrow> (\<exists>ch w r v. llm ch q g w = (Inr r, v) \<and> \<not> gr_truncated r \<and> a \<in> set (gr_translations r))"

lemma update_sub: "set (AList.update k v xs) \<subseteq> insert (k, v) (set xs)"
  by (induction xs) auto

lemma dmerge_sub: "set (dmerge l r) \<subseteq> set l \<union> set r"
proof (induction r arbitrary: l)
  case (Cons a r)
  then show ?case using update_sub [of "fst a" "snd a" l] by (cases a) (fastforce simp: dmerge_def)
qed (simp add: dmerge_def)

definition complete_result :: "'w segment_llm \<Rightarrow> sum_request \<Rightarrow> glossary \<Rightarrow> chunk_result \<Rightarrow> bool" where
  "complete_result llm q g r \<longleftrightarrow> (snd (snd r) = 0 \<longrightarrow> (\<forall>a \<in> set (fst r). answered llm q g a))"

lemma complete_join: "complete_result llm q g l \<Longrightarrow> complete_result llm q g r \<Longrightarrow> complete_result llm q g (join_results l r)"
  using dmerge_sub [of "fst l" "fst r"] by (auto simp: complete_result_def join_results_def)

lemma translate_chunk_complete:
  assumes "\<And>ch. keeps I (llm ch q g) (\<lambda>_. True)"
  shows "keeps I (translate_chunk uc llm planted q g retries chunk) (complete_result llm q g)"
proof (induction "length chunk + retries" arbitrary: chunk retries rule: less_induct)
  case less
  have ok: "keeps I (llm chunk q g) (\<lambda>res. \<not> gr_truncated res \<longrightarrow> (\<forall>a \<in> set (gr_translations res). answered llm q g a))"
    using assms [of chunk] unfolding keeps_def answered_def by (metis prod.collapse)
  have split: "keeps I (sbind (translate_chunk uc llm planted q g r (take (length chunk div 2) chunk)) (\<lambda>l.
      sbind (translate_chunk uc llm planted q g r (drop (length chunk div 2) chunk)) (\<lambda>x. sret (join_results l x))))
      (complete_result llm q g)" if "length chunk > 1" "r \<le> retries" for r
  proof -
    have "0 < length chunk div 2" "length chunk div 2 < length chunk" using that(1) by auto
    then have "keeps I (translate_chunk uc llm planted q g r (take (length chunk div 2) chunk)) (complete_result llm q g)"
        "keeps I (translate_chunk uc llm planted q g r (drop (length chunk div 2) chunk)) (complete_result llm q g)"
      using less [of "take (length chunk div 2) chunk" r] less [of "drop (length chunk div 2) chunk" r] that by auto
    then show ?thesis by (blast intro: keeps_sbind keeps_sret complete_join)
  qed
  have again: "keeps I (translate_chunk uc llm planted q g (retries - 1) chunk) (complete_result llm q g)" if "retries > 0"
    using less [of chunk "retries - 1"] that by simp
  show ?case
    by (subst translate_chunk.simps, rule keeps_sbind [OF ok])
      (use split [of retries] split [of "retries - 1"] again in
        \<open>auto simp: Let_def complete_result_def intro!: keeps_sret\<close>)
qed

lemma fold_results_complete:
  assumes "list_all (complete_result llm q g) rs" shows "complete_result llm q g (fold_results rs)"
proof -
  have "complete_result llm q g acc \<Longrightarrow> list_all (complete_result llm q g) rs \<Longrightarrow>
      complete_result llm q g (foldl (\<lambda>acc r. (dmerge (fst acc) (fst r), fold_kept (fst (snd acc)) (fst (snd r)), snd (snd acc) + snd (snd r))) acc rs)" for acc
  proof (induction rs arbitrary: acc)
    case (Cons r rs)
    show ?case unfolding foldl_Cons
    proof (rule Cons.IH)
      show "complete_result llm q g (dmerge (fst acc) (fst r), fold_kept (fst (snd acc)) (fst (snd r)), snd (snd acc) + snd (snd r))"
        using Cons.prems dmerge_sub [of "fst acc" "fst r"] by (auto simp: complete_result_def)
    qed (use Cons.prems in simp)
  qed simp
  from this [of "([], [], 0)"] assms show ?thesis by (simp add: fold_results_def complete_result_def)
qed

lemma chosen_text_cases:
  "chosen_text uc tr f = snd f \<or> ((py_nat_str (fst f), chosen_text uc tr f) \<in> set tr \<and> u_strip uc (chosen_text uc tr f) \<noteq> [])"
  by (auto simp: chosen_text_def dget_def dest: map_of_SomeD split: option.split)

lemma fields_ne: "[] \<notin> set (iter_text_fields d)"
proof -
  have block: "[] \<notin> set (block_fields b)" for b by (cases b) (auto simp: text_field_def)
  have "[] \<notin> set (section_fields s)" for s
    by (induction s rule: section_fields.induct) (auto simp: text_field_def block dest: block [THEN notE])
  then show ?thesis by (auto simp: iter_text_fields_def text_field_def)
qed

text \<open>A document that is another one in other words, each word the source's or answered for its place.\<close>

definition mirror_of :: "unicode \<Rightarrow> 'w segment_llm \<Rightarrow> sum_request \<Rightarrow> glossary \<Rightarrow> udoc \<Rightarrow> udoc \<Rightarrow> bool" where
  "mirror_of uc llm q g d d' \<longleftrightarrow>
     doc_shape d' = doc_shape d \<and> ud_full_text d' = project_full_text uc (ud_sections d') \<and>
     length (iter_text_fields d') = length (iter_text_fields d) \<and>
     (\<forall>n < length (iter_text_fields d). iter_text_fields d' ! n = iter_text_fields d ! n \<or>
        answered llm q g (py_nat_str n, iter_text_fields d' ! n))"

lemma chosen_mirror:
  assumes "\<forall>a \<in> set tr. answered llm q g a"
  shows "mirror_of uc llm q g d (put_fields uc d (map (chosen_text uc tr) (zip [0..<length (iter_text_fields d)] (iter_text_fields d))))"
proof -
  let ?fs = "iter_text_fields d"
  let ?us = "map (chosen_text uc tr) (zip [0..<length ?fs] ?fs)"
  have "u_strip uc [] = []" by (simp add: u_strip_def u_rstrip_def)
  then have "[] \<notin> set ?us"
    using chosen_text_cases fields_ne [of d] by (auto simp: in_set_zip) (metis nth_mem snd_conv)
  moreover have "?us ! n = ?fs ! n \<or> answered llm q g (py_nat_str n, ?us ! n)" if "n < length ?fs" for n
    using chosen_text_cases [of uc tr "(n, ?fs ! n)"] assms that by auto
  ultimately show ?thesis using put_fields_mirror [of ?us d uc] by (simp add: mirror_of_def)
qed

lemma translate_doc_keeps:
  assumes "\<And>ch. keeps I (llm ch q g) (\<lambda>_. True)"
  shows "keeps I (translate_doc uc budget llm d q g) (\<lambda>draft. mirror_of uc llm q g d (td_doc draft))"
  unfolding translate_doc_def Let_def
proof (rule keeps_sbind [OF keeps_map_bounded [OF translate_chunk_complete [of I llm q g, OF assms]]])
  fix rs assume "list_all (complete_result llm q g) rs"
  then have "complete_result llm q g (fold_results rs)" by (rule fold_results_complete)
  then show "keeps I (case fold_results rs of (translations, kept, unresolved) \<Rightarrow>
        if unresolved > 0 then sraise LlmUnavailable
        else sret \<lparr>td_doc = put_fields uc d (map (chosen_text uc translations) (zip [0..<length (iter_text_fields d)] (iter_text_fields d))),
                   td_kept = kept\<rparr>) (\<lambda>draft. mirror_of uc llm q g d (td_doc draft))"
    by (auto simp: complete_result_def split: prod.split intro!: keeps_sret keeps_sraise chosen_mirror)
qed

text \<open>
  C12. A translation that succeeds is the source document in other words: it has the same sections,
  blocks, ids, labels, table cells, formulas and code, and a text exactly where the source has one; its
  full text is the projection of its sections; and each text is either the source's or what the model
  answered for that very place in an answer that was not cut off.
\<close>

theorem translation_mirrors_source:
  assumes "translate_doc uc budget llm d q g w = (Inr draft, v)"
  shows "doc_shape (td_doc draft) = doc_shape d \<and>
    ud_full_text (td_doc draft) = project_full_text uc (ud_sections (td_doc draft)) \<and>
    length (iter_text_fields (td_doc draft)) = length (iter_text_fields d) \<and>
    (\<forall>n < length (iter_text_fields d). iter_text_fields (td_doc draft) ! n = iter_text_fields d ! n \<or>
       answered llm q g (py_nat_str n, iter_text_fields (td_doc draft) ! n))"
proof -
  have "keeps (\<lambda>_. True) (translate_doc uc budget llm d q g) (\<lambda>draft. mirror_of uc llm q g d (td_doc draft))"
    by (rule translate_doc_keeps) (simp add: keeps_def)
  from keepsD [OF this assms] show ?thesis by (simp add: mirror_of_def)
qed

text \<open>A model that answers the one segment of a title.\<close>

definition answering_llm :: "unit segment_llm" where
  "answering_llm ch q g w = (Inr \<lparr>gr_translations = [(''0'', [44032])], gr_kept = [], gr_truncated = False\<rparr>, w)"

lemma mask_one_code: "mask_text uc [c] build_mask_table = ([c], [])"
proof -
  have long: "list_all (\<lambda>e. 2 \<le> length (me_from e)) build_mask_table"
    by (simp add: build_mask_table_def SEED_KEEP_AS_IS_def SEED_MAPPINGS_def codes_def)
  have "list_all (\<lambda>e. 2 \<le> length (me_from e)) es \<Longrightarrow> fold (mask_step uc) es ([c], []) = ([c], [])" for es
  proof (induction es)
    case (Cons e es)
    then have "mask_pass uc (me_from e) (token_for (me_index e)) None [c] = ([c], False)"
      by (simp add: mask_pass.simps term_at_def)
    then show ?case using Cons by (simp add: mask_step_def)
  qed simp
  moreover have "list_all (\<lambda>e. 2 \<le> length (me_from e)) (sort_key (\<lambda>e. - int (length (me_from e))) build_mask_table)"
    using long by (simp add: list_all_iff)
  ultimately show ?thesis by (simp only: mask_text_def)
qed

theorem translation_mirrors_source_witness:
  "\<exists>draft. translate_doc ascii_unicode 100 answering_llm one_title translate_request (resolve_glossary None None) () = (Inr draft, ()) \<and>
     ud_title (td_doc draft) = [44032] \<and> doc_shape (td_doc draft) = doc_shape one_title"
proof -
  have fs: "iter_text_fields one_title = [[65]]" by (simp add: iter_text_fields_def one_title_def text_field_def)
  have zero: "py_nat_str 0 = ''0''" by (simp add: py_nat_str.simps)
  have segs: "masked_segments ascii_unicode [[65]] = [(''0'', [65])]" "planted_by_id ascii_unicode [[65]] = [(''0'', [])]"
    by (simp_all add: masked_segments_def planted_by_id_def mask_one_code zero)
  have chunks: "segment_chunks 100 [(''0'', [65])] = [[(''0'', [65])]]"
    by (simp add: segment_chunks_def add_chunk_segment_def)
  have chunk: "translate_chunk ascii_unicode answering_llm [(''0'', [])] q g r [(''0'', [65])] w = (Inr ([(''0'', [44032])], [], 0), w)" for q g r w
    by (subst translate_chunk.simps) (simp add: sbind_def sret_def answering_llm_def token_drops_def dget_def)
  have fold: "fold_results [([(''0'', [44032])], [], 0)] = ([(''0'', [44032])], [], 0)"
    by (simp add: fold_results_def dmerge_def fold_kept_def)
  have us: "map (chosen_text ascii_unicode [(''0'', [44032])]) (zip [0..<length [[65]]] [[65]]) = [[44032]]"
    by (simp add: chosen_text_def dget_def zero u_strip_def u_rstrip_def ascii_unicode_def)
  define dr where "dr = \<lparr>td_doc = put_fields ascii_unicode one_title [[44032]], td_kept = []\<rparr>"
  have run: "translate_doc ascii_unicode 100 answering_llm one_title translate_request (resolve_glossary None None) () = (Inr dr, ())"
    unfolding translate_doc_def Let_def fs segs chunks map_bounded.simps
    by (simp add: sbind_def sret_def chunk fold us [simplified] dr_def)
  moreover have "ud_title (td_doc dr) = [44032]"
    by (simp add: dr_def put_fields_def one_title_def put_text_def)
  ultimately show ?thesis using translation_mirrors_source [OF run] by blast
qed

end
