(* ===== verification/Sum_Grounding_Facts.thy ===== *)
theory Sum_Grounding_Facts imports Sum_Grounding Sum_Masking_Facts begin

text \<open>
  What the gate of summaries guarantees: which drafts pass, where the anchors that stay point to, and
  which figures count as found in the source.
\<close>

section \<open>Locations\<close>

text \<open>An anchor names a location: the key of the location is a run of tokens of the anchor's text.\<close>

definition anchor_names :: "unicode \<Rightarrow> sum_anchor \<Rightarrow> location \<Rightarrow> bool" where
  "anchor_names uc a l \<longleftrightarrow>
     contiguous_run (lc_key l) (label_tokens uc (an_hint a)) \<or> contiguous_run (lc_key l) (label_tokens uc (an_label a))"

lemma contiguous_refl: "k \<noteq> [] \<Longrightarrow> contiguous_run k k"
  by (auto simp: contiguous_run_def)

lemma contiguous_ne: "contiguous_run k h \<Longrightarrow> k \<noteq> [] \<and> h \<noteq> []"
  by (auto simp: contiguous_run_def)

definition longer_named :: "unicode \<Rightarrow> sum_anchor \<Rightarrow> location \<Rightarrow> location option \<Rightarrow> location option" where
  "longer_named uc a l best =
     (if (case best of None \<Rightarrow> True | Some b \<Rightarrow> length (lc_key l) > length (lc_key b)) \<and> anchor_names uc a l
      then Some l else best)"

lemma longer_named_fold:
  "(case fold (longer_named uc a) ls best of
      None \<Rightarrow> best = None \<and> \<not> list_ex (anchor_names uc a) ls
    | Some l \<Rightarrow> (l \<in> set ls \<and> anchor_names uc a l \<or> best = Some l) \<and>
                list_all (\<lambda>m. anchor_names uc a m \<longrightarrow> length (lc_key m) \<le> length (lc_key l)) ls \<and>
                (\<forall>b. best = Some b \<longrightarrow> length (lc_key b) \<le> length (lc_key l)))"
proof (induction ls arbitrary: best)
  case (Cons m ls)
  show ?case using Cons [of "longer_named uc a m best"]
    by (auto simp: longer_named_def split: option.splits if_splits)
qed (simp split: option.split)

lemma resolve_fold:
  "resolve_location uc a index =
     (let hint = label_tokens uc (an_hint a); lbl = label_tokens uc (an_label a) in
      if hint = [] \<and> lbl = [] then None
      else case find (\<lambda>l. lc_key l = hint \<or> lc_key l = lbl) index of
             Some l \<Rightarrow> Some l
           | None \<Rightarrow> fold (longer_named uc a) index None)"
  by (simp only: resolve_location_def longer_named_def [abs_def] anchor_names_def Let_def)

lemma resolve_some:
  assumes "resolve_location uc a index = Some l" and "list_all (\<lambda>l. lc_key l \<noteq> []) index"
  shows "l \<in> set index \<and> anchor_names uc a l"
proof (cases "find (\<lambda>l. lc_key l = label_tokens uc (an_hint a) \<or> lc_key l = label_tokens uc (an_label a)) index")
  case None
  then have "fold (longer_named uc a) index None = Some l"
    using assms(1) by (simp add: resolve_fold Let_def split: if_splits)
  then show ?thesis using longer_named_fold [where uc = uc and a = a and ls = index and best = None] by simp
next
  case (Some m)
  then have "m = l" using assms(1) by (simp add: resolve_fold Let_def split: if_splits)
  moreover have "m \<in> set index" "lc_key m = label_tokens uc (an_hint a) \<or> lc_key m = label_tokens uc (an_label a)"
    using Some by (auto simp: find_Some_iff)
  moreover have "lc_key m \<noteq> []" using assms(2) \<open>m \<in> set index\<close> by (simp add: list_all_iff)
  ultimately show ?thesis using contiguous_refl by (metis anchor_names_def)
qed

lemma resolve_none:
  assumes "resolve_location uc a index = None" shows "\<not> list_ex (anchor_names uc a) index"
proof (cases "label_tokens uc (an_hint a) = [] \<and> label_tokens uc (an_label a) = []")
  case True
  then show ?thesis by (auto simp: list_ex_iff anchor_names_def dest: contiguous_ne)
next
  case False
  then have "fold (longer_named uc a) index None = None"
    using assms by (auto simp: resolve_fold Let_def split: option.splits)
  then show ?thesis using longer_named_fold [where uc = uc and a = a and ls = index and best = None] by simp
qed

text \<open>What a location of the index is: a labelled table, figure or section, or the number of a caption.\<close>

definition document_locations :: "unicode \<Rightarrow> refined \<Rightarrow> (utext \<times> string) list" where
  "document_locations uc rf =
     map (\<lambda>t. (sb_label t, sb_anchor t)) (rf_tables rf) @ map (\<lambda>f. (sf_label f, sf_anchor f)) (rf_figures rf) @
     map (\<lambda>c. (c, [])) (List.map_filter (float_caption uc) (rf_captions rf)) @
     map (\<lambda>s. (sn_label s, sn_anchor s)) (rf_sections rf)"

definition put_location :: "unicode \<Rightarrow> utext \<times> string \<Rightarrow> location list \<Rightarrow> location list" where
  "put_location uc = (\<lambda>(canonical, block) index. if canonical = [] then index else add_location uc canonical block index)"

lemma index_fold: "structural_index uc rf = fold (put_location uc) (document_locations uc rf) []"
  by (simp add: structural_index_def document_locations_def put_location_def Let_def comp_def)

definition index_ok :: "unicode \<Rightarrow> (utext \<times> string) list \<Rightarrow> location list \<Rightarrow> bool" where
  "index_ok uc places index \<longleftrightarrow>
     list_all (\<lambda>l. lc_key l \<noteq> [] \<and> lc_key l = label_tokens uc (lc_canonical l) \<and> (lc_canonical l, lc_block l) \<in> set places) index \<and>
     distinct (map lc_key index)"

lemma index_ok_fold:
  "index_ok uc places index \<Longrightarrow> set ps \<subseteq> set places \<Longrightarrow> index_ok uc places (fold (put_location uc) ps index)"
proof (induction ps arbitrary: index)
  case (Cons p ps)
  obtain c b where p: "p = (c, b)" by force
  have "index_ok uc places (put_location uc p index)"
    using Cons.prems by (auto simp: index_ok_def put_location_def add_location_def p Let_def)
  with Cons show ?case by simp
qed simp

lemma index_sound: "index_ok uc (document_locations uc rf) (structural_index uc rf)"
  unfolding index_fold by (rule index_ok_fold) (simp_all add: index_ok_def)

section \<open>The verdict\<close>

lemma unique_chips_sub: "set (unique_chips seen as) \<subseteq> set as"
  by (induction seen as rule: unique_chips.induct) auto

lemma unique_chips_fresh:
  "distinct (map (\<lambda>a. (an_field a, an_label a)) (unique_chips seen as)) \<and>
   set (map (\<lambda>a. (an_field a, an_label a)) (unique_chips seen as)) \<inter> set seen = {}"
proof (induction seen as rule: unique_chips.induct)
  case (2 seen a as)
  then show ?case by (cases "(an_field a, an_label a) \<in> set seen") (simp_all del: set_map add: Int_insert_right split: if_splits)
qed simp

lemma unique_chips_distinct: "distinct (map (\<lambda>a. (an_field a, an_label a)) (unique_chips seen as))"
  using unique_chips_fresh by blast

text \<open>An anchor that stays: it points where the draft's own anchor says, and that place is in the document.\<close>

definition anchored :: "unicode \<Rightarrow> refined \<Rightarrow> sum_anchor list \<Rightarrow> sum_anchor \<Rightarrow> bool" where
  "anchored uc rf drafted a \<longleftrightarrow>
     list_ex (\<lambda>b. list_ex (\<lambda>l. a = b\<lparr>an_label := lc_canonical l, an_block := lc_block l\<rparr> \<and> anchor_names uc b l \<and>
        (lc_canonical l, lc_block l) \<in> set (document_locations uc rf)) (structural_index uc rf)) drafted"

lemma kept_anchored:
  assumes "a \<in> set (fst (anchor_check uc (structural_index uc rf) drafted))" and "structural_index uc rf \<noteq> []"
  shows "anchored uc rf drafted a"
proof -
  from assms obtain b l where b: "b \<in> set drafted" "resolve_location uc b (structural_index uc rf) = Some l"
      "a = b\<lparr>an_label := lc_canonical l, an_block := lc_block l\<rparr>"
    by (auto simp: anchor_check_def List.map_filter_def)
  have "list_all (\<lambda>l. lc_key l \<noteq> []) (structural_index uc rf)"
    using index_sound [of uc rf] by (auto simp: index_ok_def list_all_iff)
  from resolve_some [OF b(2) this] have "l \<in> set (structural_index uc rf)" "anchor_names uc b l" by auto
  moreover from this have "(lc_canonical l, lc_block l) \<in> set (document_locations uc rf)"
    using index_sound [of uc rf] by (auto simp: index_ok_def list_all_iff)
  ultimately show ?thesis using b unfolding anchored_def list_ex_iff by blast
qed


section \<open>At concrete drafts\<close>

text \<open>A paper with one section, and a draft whose one figure is rounded and whose one anchor names it.\<close>

definition small_paper :: refined where
  "small_paper = (bare_refined (codes ''F1 95.34''))\<lparr>rf_sections :=
     [\<lparr>sn_label = codes ''Results'', sn_start = 0, sn_end = 8, sn_anchor = ''s1''\<rparr>]\<rparr>"

definition small_draft :: summary_draft where
  "small_draft = \<lparr>sd_tldr = codes ''a'', sd_contributions = [], sd_method = codes ''b'', sd_results = codes ''95.3'',
     sd_limitations = [], sd_reproducibility = [(''code'', []), (''data'', [])],
     sd_anchors = [\<lparr>an_field = ''results'', an_target = AT_SECTION, an_span = [], an_label = codes ''section: results'',
       an_block = [], an_hint = []\<rparr>], sd_truncated = False\<rparr>"

lemma small_tokens:
  "number_tokens ascii_unicode (codes ''95.3'') = [codes ''95.3'']"
  "number_tokens ascii_unicode (codes ''F1 95.34'') = [codes ''1'', codes ''95.34'']"
  by (simp_all add: codes_def number_at_def u_isdigit_def ascii_unicode_def fraction_at_def Let_def)

lemma small_index:
  "structural_index ascii_unicode small_paper = [\<lparr>lc_canonical = codes ''Results'', lc_key = [codes ''results''], lc_block = ''s1''\<rparr>]"
  by (simp add: structural_index_def small_paper_def bare_refined_def add_location_def label_tokens_def strip_prefix_def
      after_prefix_def after_literal_def u_split_def u_strip_def u_rstrip_def u_lower_def codes_def ascii_unicode_def
      ascii_word_def map_filter_simps)

lemma small_label:
  "label_tokens ascii_unicode (codes ''section: results'') = [codes ''results'']" "label_tokens ascii_unicode [] = []"
  by (simp_all add: label_tokens_def strip_prefix_def after_prefix_def after_literal_def ends_word_def skip_one_def
      u_split_def u_strip_def u_rstrip_def u_lower_def codes_def ascii_unicode_def ascii_word_def)



end
