(* ===== verification/Sum_Input_Facts.thy ===== *)
theory Sum_Input_Facts imports Sum_Input Sum_Masking_Facts begin

text \<open>
  What the map step of a long summary is given, and what separates the artifacts of different
  readers: the chunks cover the body within the budget, and the keys of the stores keep requests
  and private glossaries apart.
\<close>

section \<open>The pieces of the body\<close>

lemma slices_cover: "sorted ps \<Longrightarrow> ps \<noteq> [] \<Longrightarrow> concat (slices s ps) = drop (hd ps) s"
proof (induction s ps rule: slices.induct)
  case (3 s a b ps)
  have "take (b - a) (drop a s) @ drop b s = drop a s"
    using append_take_drop_id [of "b - a" "drop a s"] 3(2) by simp
  then show ?case using 3 by simp
qed simp_all

lemma concat_filter_ne: "concat (filter (\<lambda>p. p \<noteq> []) ps) = concat ps"
  by (induction ps) auto

lemma pieces_cover: "concat (section_pieces rf) = rf_body rf"
proof -
  define ps where "ps = sort (remdups (filter (\<lambda>a. a \<le> length (rf_body rf)) (map sn_start (rf_sections rf))))"
  show ?thesis
  proof (cases "ps = []")
    case False
    have "concat (slices (rf_body rf) ps) = drop (hd ps) (rf_body rf)" using False by (simp add: slices_cover ps_def)
    then show ?thesis using False by (simp add: section_pieces_def ps_def [symmetric] Let_def concat_filter_ne)
  qed (simp add: section_pieces_def ps_def [symmetric] Let_def)
qed

lemma windows_cover: "0 < n \<Longrightarrow> concat (windows n s) = s"
  by (induction n s rule: windows.induct) (subst windows.simps, simp)

lemma windows_size: "t \<in> set (windows n s) \<Longrightarrow> length t \<le> n \<and> t \<noteq> []"
proof (induction n s rule: windows.induct)
  case (1 n s)
  then show ?case using windows.simps [of n s] by (auto split: if_splits)
qed

definition segments_of :: "nat \<Rightarrow> refined \<Rightarrow> utext list" where
  "segments_of budget rf = concat (map (fit_piece budget) (section_pieces rf))"

lemma fit_cover: "0 < budget \<Longrightarrow> concat (fit_piece budget t) = t"
  by (simp add: fit_piece_def Let_def windows_cover CHARS_PER_TOKEN_def)

lemma segments_cover:
  assumes "0 < budget" shows "concat (segments_of budget rf) = rf_body rf"
proof -
  have "concat (concat (map (fit_piece budget) ps)) = concat ps" for ps
    using assms by (induction ps) (simp_all add: fit_cover)
  then show ?thesis by (simp add: segments_of_def pieces_cover)
qed

lemma segment_size: "t \<in> set (segments_of budget rf) \<Longrightarrow> length t \<le> budget * 4"
  by (auto simp: segments_of_def fit_piece_def Let_def CHARS_PER_TOKEN_def dest: windows_size split: if_splits)

lemma pieces_ne: "rf_body rf \<noteq> [] \<Longrightarrow> [] \<notin> set (section_pieces rf)"
  by (auto simp: section_pieces_def Let_def)

lemma segments_ne: "rf_body rf \<noteq> [] \<Longrightarrow> [] \<notin> set (segments_of budget rf)"
  using pieces_ne [of rf]
  by (auto simp: segments_of_def fit_piece_def Let_def dest: windows_size split: if_splits)

section \<open>The chunks\<close>

text \<open>The chunk texts of a row of fresh parts: each carries the overlap of the chunk before it.\<close>

fun carried :: "nat \<Rightarrow> utext \<Rightarrow> utext list \<Rightarrow> utext list" where
  "carried ov prev [] = []"
| "carried ov prev (f # fs) = (overlap_tail ov prev @ f) # carried ov (overlap_tail ov prev @ f) fs"

lemma carried_snoc:
  "carried ov prev (fs @ [f]) = carried ov prev fs @ [overlap_tail ov (last (prev # carried ov prev fs)) @ f]"
  by (induction fs arbitrary: prev) auto

lemma overlap_tail_Nil [simp]: "overlap_tail ov [] = []"
  by (simp add: overlap_tail_def)

text \<open>The invariant of the loop over the segments.\<close>

definition chunking :: "nat \<Rightarrow> nat \<Rightarrow> utext list \<Rightarrow> utext list \<times> utext \<Rightarrow> utext list \<Rightarrow> utext \<Rightarrow> bool" where
  "chunking budget ov segs cc fs f \<longleftrightarrow>
     carried ov [] (fs @ [f]) = fst cc @ [snd cc] \<and> length (fst cc) = length fs \<and>
     concat fs @ f = concat segs \<and> [] \<notin> set fs \<and> (segs \<noteq> [] \<longrightarrow> f \<noteq> []) \<and>
     (\<forall>c \<in> set (fst cc @ [snd cc]). length c \<le> budget * 4 + max ov 6)"

lemma chunking_step:
  assumes inv: "chunking budget ov segs cc fs f" and seg: "length s \<le> budget * 4" "s \<noteq> []"
  shows "\<exists>fs f. chunking budget ov (segs @ [s]) (add_segment budget ov cc s) fs f"
proof (cases "snd cc \<noteq> [] \<and> estimate_tokens (snd cc) + estimate_tokens s > budget")
  case True
  then have step: "add_segment budget ov cc s = (fst cc @ [snd cc], overlap_tail ov (snd cc) @ s)"
    by (cases cc) (auto simp: add_segment_def)
  have "f \<noteq> []" if "segs = []"
    using inv that True by (cases fs) (auto simp: chunking_def)
  then have "f \<noteq> []" using inv by (auto simp: chunking_def)
  moreover have "carried ov [] ((fs @ [f]) @ [s]) = (fst cc @ [snd cc]) @ [overlap_tail ov (snd cc) @ s]"
    using inv by (subst carried_snoc) (simp add: chunking_def)
  moreover have "length (overlap_tail ov (snd cc) @ s) \<le> budget * 4 + max ov 6"
    using seg by (auto simp: overlap_tail_def)
  ultimately have "chunking budget ov (segs @ [s]) (add_segment budget ov cc s) (fs @ [f]) s"
    using inv seg by (auto simp: chunking_def step)
  then show ?thesis by blast
next
  case False
  then have step: "add_segment budget ov cc s = (fst cc, snd cc @ s)"
    by (cases cc) (auto simp: add_segment_def)
  have cur: "snd cc = overlap_tail ov (last ([] # carried ov [] fs)) @ f" "fst cc = carried ov [] fs"
    using inv by (auto simp: chunking_def carried_snoc)
  have "length (snd cc @ s) \<le> budget * 4 + max ov 6"
    using False seg by (auto simp: estimate_tokens_def CHARS_PER_TOKEN_def)
  then have "chunking budget ov (segs @ [s]) (add_segment budget ov cc s) fs (f @ s)"
    using inv seg by (auto simp: chunking_def step carried_snoc cur simp flip: cur)
  then show ?thesis by blast
qed

lemma chunking_run:
  assumes "\<forall>s \<in> set segs. length s \<le> budget * 4 \<and> s \<noteq> []"
  shows "\<exists>fs f. chunking budget ov segs (foldl (add_segment budget ov) ([], []) segs) fs f"
  using assms
proof (induction segs rule: rev_induct)
  case Nil
  have "chunking budget ov [] ([], []) [] []" by (simp add: chunking_def overlap_tail_def)
  then show ?case by auto
next
  case (snoc s segs)
  then obtain fs f where "chunking budget ov segs (foldl (add_segment budget ov) ([], []) segs) fs f" by auto
  from chunking_step [OF this, of s] show ?case using snoc.prems by simp
qed

lemma u_strip_Nil:
  assumes "u_strip uc s = []" and "c \<in> set s"
  shows "uc_space uc c"
proof -
  have "c \<in> set (takeWhile (uc_space uc) (rev s) @ dropWhile (uc_space uc) (rev s))" using assms(2) by simp
  then have "c \<in> set (takeWhile (uc_space uc) (rev s)) \<or> c \<in> set (u_rstrip uc s)"
    by (simp only: set_append Un_iff u_rstrip_def set_rev)
  then show ?thesis using assms(1) by (auto simp: u_strip_def dest: set_takeWhileD)
qed

text \<open>
  C21. The chunks of a long summary: whatever the sections say, with a positive budget the chunks are
  consecutive fresh parts of the body, in order and none of them empty, each with the tail of the
  chunk before it in front; together the parts are the whole body but for an end of white space, so
  no sentence is lost to the map step; and no chunk is longer than the budget, in characters, plus
  the overlap (or six characters, what the rounding of the estimate hides).
\<close>

theorem chunks_cover_within_budget:
  assumes "0 < budget"
  shows "\<exists>fresh rest. chunk_texts uc budget overlap rf = carried overlap [] fresh \<and>
    rf_body rf = concat fresh @ rest \<and> list_all (uc_space uc) rest \<and> [] \<notin> set fresh \<and>
    list_all (\<lambda>c. length c \<le> budget * CHARS_PER_TOKEN + max overlap 6) (chunk_texts uc budget overlap rf)"
proof (cases "rf_body rf = []")
  case True
  have "concat ss = [] \<Longrightarrow> foldl (add_segment budget overlap) ([], []) ss = ([], [])" for ss :: "utext list"
    by (induction ss) (auto simp: add_segment_def)
  then have "chunk_texts uc budget overlap rf = []"
    using segments_cover [OF assms, of rf] True
    by (simp add: chunk_texts_def segments_of_def u_strip_def u_rstrip_def)
  with True show ?thesis by (intro exI [of _ "[]"]) simp
next
  case False
  define cc where "cc = foldl (add_segment budget overlap) ([], []) (segments_of budget rf)"
  have "\<forall>s \<in> set (segments_of budget rf). length s \<le> budget * 4 \<and> s \<noteq> []"
    using segment_size segments_ne [OF False, of budget] by metis
  from chunking_run [OF this] obtain fs f where inv: "chunking budget overlap (segments_of budget rf) cc fs f"
    unfolding cc_def by blast
  have body: "rf_body rf = concat fs @ f" using inv segments_cover [OF assms] by (simp add: chunking_def)
  have chunks: "chunk_texts uc budget overlap rf = fst cc @ (if u_strip uc (snd cc) = [] then [] else [snd cc])"
    by (simp add: chunk_texts_def cc_def segments_of_def split: prod.split)
  have size: "\<forall>c \<in> set (fst cc @ [snd cc]). length c \<le> budget * CHARS_PER_TOKEN + max overlap 6"
    using inv by (simp add: chunking_def CHARS_PER_TOKEN_def)
  have split: "fst cc = carried overlap [] fs" "snd cc = overlap_tail overlap (last ([] # fst cc)) @ f"
    using inv by (auto simp: chunking_def carried_snoc)
  have fresh: "[] \<notin> set fs" "f \<noteq> []"
    using inv False segments_cover [OF assms, of rf] by (auto simp: chunking_def)
  show ?thesis
  proof (cases "u_strip uc (snd cc) = []")
    case True
    have "list_all (uc_space uc) f" using u_strip_Nil [OF True] split(2) by (simp add: list_all_iff)
    with True show ?thesis using chunks size split(1) body fresh
      by (intro exI [of _ fs] exI [of _ f]) (simp add: list_all_iff)
  next
    case False
    have "carried overlap [] (fs @ [f]) = fst cc @ [snd cc]" using inv by (simp add: chunking_def)
    with False show ?thesis using chunks size body fresh
      by (intro exI [of _ "fs @ [f]"] exI [of _ "[]"]) (simp add: list_all_iff)
  qed
qed

text \<open>Chunks of a body of two sections, the second longer than the budget, with an overlap of two.\<close>

theorem chunks_cover_within_budget_witness:
  "\<exists>fresh rest. [[65, 66], [65, 66, 67, 68, 69, 70], [69, 70, 71, 32]] = carried 2 [] fresh \<and>
    [65, 66, 67, 68, 69, 70, 71, 32] = concat fresh @ rest \<and> list_all (uc_space ascii_unicode) rest"
proof -
  define rf where "rf = (bare_refined [65, 66, 67, 68, 69, 70, 71, 32])\<lparr>rf_sections :=
    [\<lparr>sn_label = [], sn_start = 0, sn_end = 1, sn_anchor = []\<rparr>, \<lparr>sn_label = [], sn_start = 2, sn_end = 3, sn_anchor = []\<rparr>]\<rparr>"
  have "section_pieces rf = [[65, 66], [67, 68, 69, 70, 71, 32]]"
    by (simp add: rf_def section_pieces_def bare_refined_def)
  then have "chunk_texts ascii_unicode 1 2 rf = [[65, 66], [65, 66, 67, 68, 69, 70], [69, 70, 71, 32]]"
    by (simp add: chunk_texts_def fit_piece_def CHARS_PER_TOKEN_def windows.simps add_segment_def estimate_tokens_def
        overlap_tail_def u_strip_def u_rstrip_def ascii_unicode_def)
  then show ?thesis using chunks_cover_within_budget [of 1 ascii_unicode 2 rf] by (auto simp: rf_def bare_refined_def)
qed

section \<open>The keys\<close>

lemma first_split: "a @ c # s = b @ c # t \<Longrightarrow> c \<notin> set a \<Longrightarrow> c \<notin> set b \<Longrightarrow> a = b \<and> s = t"
proof (induction a arbitrary: b)
  case Nil
  then show ?case by (cases b) auto
next
  case (Cons x a)
  then show ?case by (cases b) auto
qed

lemma last_split:
  assumes "a @ c # s = b @ c # t" and "c \<notin> set s" and "c \<notin> set t"
  shows "a = b \<and> s = t"
proof -
  have "rev s @ c # rev a = rev t @ c # rev b" using arg_cong [OF assms(1), of rev] by simp
  then show ?thesis using first_split [of "rev s" c "rev a" "rev t" "rev b"] assms(2,3) by simp
qed

lemma digits_only:
  assumes "c \<in> set (py_nat_str n)" shows "c \<noteq> CHR ''_'' \<and> c \<noteq> CHR ''/'' \<and> c \<noteq> CHR ''-''"
proof -
  have "py_isdigit c" using assms py_nat_str_digits [of n] by (simp add: list_all_iff)
  then show ?thesis by (auto simp: py_isdigit_def Let_def)
qed

lemma int_str_inj: "py_int_str i = py_int_str j \<Longrightarrow> i = j"
proof -
  assume eq: "py_int_str i = py_int_str j"
  have no: "CHR ''-'' # a \<noteq> py_nat_str n" for a n
    using digits_only [of "CHR ''-''" n] by (metis list.set_intros(1))
  show ?thesis
    using eq no no [symmetric] by (auto simp: py_int_str_def py_nat_str_inj split: if_splits)
qed

lemma int_str_slash: "CHR ''/'' \<notin> set (py_int_str i)"
  using digits_only by (auto simp: py_int_str_def)

definition key_tail :: "cache_key \<Rightarrow> string" where
  "key_tail k = opt_segment ''_s'' (cy_seed k) @ ''_'' @ cy_model k @ ''_'' @ cy_prompt k @
     opt_segment ''_d'' (cy_docmodel k) @ ''.json''"

definition key_mid :: "cache_key \<Rightarrow> string" where
  "key_mid k = opt_segment ''_u'' (case cy_owner k of None \<Rightarrow> [] | Some u \<Rightarrow> u) @ key_tail k"

definition key_name :: "cache_key \<Rightarrow> string" where
  "key_name k = task_value (cy_task k) @ ''_ko_'' @ sum_scope_value (cy_scope k) @ ''_'' @ persona_value (cy_persona k) @
     ''_g'' @ py_nat_str (cy_glossary k) @ key_mid k"

lemma object_path_parts:
  "object_path k = (''summaries/'' @ cy_paper k @ CHR ''/'' # CHR ''v'' # py_int_str (cy_version k)) @ CHR ''/'' # key_name k"
  by (simp add: object_path_def key_name_def key_mid_def key_tail_def)

text \<open>What a deployment puts into a key: texts without a slash, and account ids without an underscore.\<close>

definition plain_segments :: "string \<Rightarrow> string \<Rightarrow> string \<Rightarrow> string \<Rightarrow> bool" where
  "plain_segments model user seed parser \<longleftrightarrow>
     CHR ''/'' \<notin> set (model @ user @ seed @ docmodel_generation parser) \<and> CHR ''_'' \<notin> set user \<and> user \<noteq> []"

lemma key_name_slash:
  assumes "plain_segments model user seed parser"
  shows "CHR ''/'' \<notin> set (key_name (build_cache_key q g model (Some user) seed parser))"
  using assms digits_only [of "CHR ''/''" g]
  by (cases "sq_task q"; cases "sq_scope q"; cases "sq_persona q")
    (auto simp: key_name_def key_mid_def key_tail_def build_cache_key_def plain_segments_def opt_segment_def
      PROMPT_VER_def TRANSLATE_FORMAT_VER_def Let_def)

lemma key_name_split:
  assumes "key_name k = key_name k'"
  shows "cy_task k = cy_task k' \<and> cy_scope k = cy_scope k' \<and> cy_persona k = cy_persona k' \<and>
    py_nat_str (cy_glossary k) @ key_mid k = py_nat_str (cy_glossary k') @ key_mid k'"
  using assms unfolding key_name_def
  by (cases "cy_task k"; cases "cy_task k'"; cases "cy_scope k"; cases "cy_scope k'"; cases "cy_persona k";
      cases "cy_persona k'") simp_all

lemma key_mid_owner:
  assumes "cy_owner k = Some u" and "u \<noteq> []"
  shows "\<exists>X. key_mid k = CHR ''_'' # CHR ''u'' # u @ CHR ''_'' # X"
  using assms by (auto simp: key_mid_def key_tail_def opt_segment_def)

lemma key_mid_mark: "\<exists>X. key_mid k = CHR ''_'' # X"
  by (auto simp: key_mid_def key_tail_def opt_segment_def)

lemma object_path_apart:
  assumes "object_path (build_cache_key q g model (Some user) seed parser)
         = object_path (build_cache_key q' g' model' (Some user') seed' parser')"
    and "plain_segments model user seed parser" and "plain_segments model' user' seed' parser'"
  shows "sq_paper q = sq_paper q' \<and> sq_version q = sq_version q' \<and> sq_task q = sq_task q' \<and> g = g' \<and>
    (if sq_task q = SUMMARY_TASK then sq_persona q = sq_persona q' else sq_scope q = sq_scope q') \<and>
    (g = 0 \<or> user = user')"
proof -
  define k where "k = build_cache_key q g model (Some user) seed parser"
  define k' where "k' = build_cache_key q' g' model' (Some user') seed' parser'"
  have flat: "CHR ''/'' \<notin> set (key_name k)" "CHR ''/'' \<notin> set (key_name k')"
    using key_name_slash assms(2,3) by (auto simp: k_def k'_def)
  have path: "object_path k = object_path k'" using assms(1) by (simp add: k_def k'_def)
  note dir = last_split [OF path [unfolded object_path_parts] flat]
  then have "cy_paper k @ CHR ''/'' # CHR ''v'' # py_int_str (cy_version k) = cy_paper k' @ CHR ''/'' # CHR ''v'' # py_int_str (cy_version k')"
    by simp
  from last_split [OF this] have who: "cy_paper k = cy_paper k'" "cy_version k = cy_version k'"
    using int_str_slash int_str_inj by auto
  note name = key_name_split [OF conjunct2 [OF dir]]
  obtain X X' where mid: "key_mid k = CHR ''_'' # X" "key_mid k' = CHR ''_'' # X'" using key_mid_mark by metis
  have rest: "py_nat_str (cy_glossary k) = py_nat_str (cy_glossary k') \<and> X = X'"
    using first_split [of "py_nat_str (cy_glossary k)" "CHR ''_''" X "py_nat_str (cy_glossary k')" X'] name mid digits_only
    by auto
  then have g: "g = g'" by (simp add: py_nat_str_inj k_def k'_def build_cache_key_def Let_def)
  have "user = user'" if "g > 0"
  proof -
    have "cy_owner k = Some user" "cy_owner k' = Some user'" using that g by (simp_all add: k_def k'_def build_cache_key_def Let_def)
    then obtain Y Y' where "key_mid k = CHR ''_'' # CHR ''u'' # user @ CHR ''_'' # Y"
        "key_mid k' = CHR ''_'' # CHR ''u'' # user' @ CHR ''_'' # Y'"
      using key_mid_owner assms(2,3) unfolding plain_segments_def by metis
    then have "user @ CHR ''_'' # Y = user' @ CHR ''_'' # Y'" using rest mid by simp
    then show ?thesis using first_split assms(2,3) unfolding plain_segments_def by metis
  qed
  then show ?thesis using who name g by (auto simp: k_def k'_def build_cache_key_def Let_def split: if_splits)
qed



section \<open>Substitution is not idempotent\<close>

text \<open>A term whose replacement begins with it grows at every reading.\<close>

lemma post_substitute_repeats:
  "post_substitute ascii_unicode (post_substitute ascii_unicode [97] g) g \<noteq> post_substitute ascii_unicode [97] g"
  if "gl_overrides g = [\<lparr>tm_from = [97], tm_to = [97, 98], tm_enforced = False\<rparr>]"
  by (simp add: post_substitute_def that ascii_unicode_def ascii_word_def)

end
