(* ===== verification/Sum_Service_Facts.thy ===== *)
theory Sum_Service_Facts imports Sum_Service Sum_Translate_Facts Sum_Grounding_Facts Sum_Input_Facts begin

text \<open>
  What the service serves: summaries that passed the gate against the source of the very request, and
  translations that mirror it, through any runs over a store that only gives back what was put.
\<close>

section \<open>What is served\<close>

text \<open>A summary of the request's source that passed the gate, with the anchors the gate kept.\<close>

definition validated_summary :: "sum_config \<Rightarrow> sum_request \<Rightarrow> shown_summary \<Rightarrow> payload_meta \<Rightarrow> bool" where
  "validated_summary c q s m \<longleftrightarrow>
     (\<exists>src draft. select_source (cf_sources c) q = Some src \<and> m = source_meta src \<and>
        (let v = validate_draft (cf_uc c) NUMERIC_MISMATCH_THRESHOLD draft (refine_source (cf_uc c) (cf_plain c) src)
         in av_ok v \<and> s = show_summary (draft\<lparr>sd_anchors := av_kept v\<rparr>)))"

definition translated_doc :: "sum_config \<Rightarrow> sum_request \<Rightarrow> source_text \<Rightarrow> udoc" where
  "translated_doc c q src =
     (case st_doc src of Some d \<Rightarrow> d | None \<Rightarrow> wrap_plain_doc (rf_body (refine_source (cf_uc c) (cf_plain c) src)) q)"

text \<open>A translation of the request's source: it mirrors the source, and some text of it differs.\<close>

definition translated_source :: "sum_config \<Rightarrow> 'w segment_llm \<Rightarrow> sum_request \<Rightarrow> glossary \<Rightarrow> udoc \<Rightarrow> utext list \<Rightarrow> payload_meta \<Rightarrow> bool" where
  "translated_source c llm q g d' kept m \<longleftrightarrow>
     (\<exists>src. select_source (cf_sources c) q = Some src \<and> m = source_meta src \<and>
        mirror_of (cf_uc c) llm q g (translated_doc c q src) d' \<and>
        has_translated_text (cf_uc c) \<lparr>td_doc = d', td_kept = kept\<rparr> (translated_doc c q src))"

definition made_for :: "sum_config \<Rightarrow> 'w segment_llm \<Rightarrow> sum_request \<Rightarrow> glossary \<Rightarrow> sum_payload \<Rightarrow> bool" where
  "made_for c llm q g p \<longleftrightarrow>
     (case p of
        AbstainPayload _ \<Rightarrow> True
      | OkPayload (SummaryBody s) m \<Rightarrow> sq_task q = SUMMARY_TASK \<and> validated_summary c q s m
      | OkPayload (TranslationBody d kept chips) m \<Rightarrow>
          sq_task q = TRANSLATE_TASK \<and> chips = None \<and> translated_source c llm q g d kept m)"

text \<open>What a store may hold at a path: a payload made for a request whose key has that path.\<close>

definition made_by :: "sum_config \<Rightarrow> 'w segment_llm \<Rightarrow> string \<Rightarrow> sum_payload \<Rightarrow> bool" where
  "made_by c llm path p \<longleftrightarrow>
     (\<exists>q user parser. plain_segments (cf_model c) user (cf_seed c) parser \<and>
        path = object_path (request_key c q user (resolve_glossary (cf_terms c) (Some user)) parser) \<and>
        made_for c llm q (resolve_glossary (cf_terms c) (Some user)) p)"

text \<open>The texts a deployment puts into the keys of this request.\<close>

definition tidy :: "sum_config \<Rightarrow> sum_request \<Rightarrow> string \<Rightarrow> bool" where
  "tidy c q user \<longleftrightarrow>
     plain_segments (cf_model c) user (cf_seed c) DOCMODEL_PARSER_VERSION \<and>
     (\<forall>src. select_source (cf_sources c) q = Some src \<longrightarrow> plain_segments (cf_model c) user (cf_seed c) (source_doc_parser src))"

definition same_artifact :: "sum_request \<Rightarrow> sum_request \<Rightarrow> bool" where
  "same_artifact q q' \<longleftrightarrow>
     sq_paper q = sq_paper q' \<and> sq_version q = sq_version q' \<and> sq_task q = sq_task q' \<and>
     (if sq_task q = SUMMARY_TASK then sq_persona q = sq_persona q' else sq_scope q = sq_scope q')"

text \<open>The answer to a request of a user.\<close>

definition faithful :: "sum_config \<Rightarrow> 'w segment_llm \<Rightarrow> sum_request \<Rightarrow> string \<Rightarrow> sum_response \<Rightarrow> bool" where
  "faithful c llm q user resp \<longleftrightarrow>
     (case resp of
        SumServed p cached \<Rightarrow>
          (\<exists>q' g'. same_artifact q q' \<and>
             (case sq_task q of
                SUMMARY_TASK \<Rightarrow> (\<exists>s m. p = OkPayload (SummaryBody s) m \<and> validated_summary c q' s m)
              | TRANSLATE_TASK \<Rightarrow>
                  (\<exists>d kept m. p = render_translation (cf_uc c) (cf_nfc c) (OkPayload (TranslationBody d kept None) m)
                                    (resolve_glossary (cf_terms c) (Some user)) \<and>
                     translated_source c llm q' g' d kept m)))
      | _ \<Rightarrow> True)"

text \<open>The ports that are not the store leave it alone.\<close>

definition quiet_ports :: "('w \<Rightarrow> string \<Rightarrow> sum_payload \<Rightarrow> bool) \<Rightarrow> 'w sum_ports \<Rightarrow> bool" where
  "quiet_ports kept p \<longleftrightarrow>
     (\<forall>rf q g. leaves_store kept (pt_summarize p rf q g)) \<and> (\<forall>ch q g. leaves_store kept (pt_segments p ch q g)) \<and>
     leaves_store kept (pt_budget p) \<and> (\<forall>build paper v. pt_build p = Some build \<longrightarrow> leaves_store kept (build paper v)) \<and>
     (\<forall>jobs q user. pt_jobs p = Some jobs \<longrightarrow> leaves_store kept (jobs q user)) \<and> (\<forall>n. leaves_store kept (sum_emit p n))"

lemma same_path_same_artifact:
  assumes "object_path (request_key c q user g parser) = object_path (request_key c q' user' g' parser')"
    and "plain_segments (cf_model c) user (cf_seed c) parser" and "plain_segments (cf_model c) user' (cf_seed c) parser'"
  shows "same_artifact q q'"
  using object_path_apart [OF assms [unfolded request_key_def]] by (auto simp: same_artifact_def)

lemma keeps_llm_try:
  "keeps I m R \<Longrightarrow> keeps I (llm_try m) (\<lambda>r. \<forall>x. r = Some x \<longrightarrow> R x)"
  unfolding llm_try_def
  by (rule keeps_stry) (auto intro!: keeps_sbind keeps_sret keeps_sraise elim: keeps_mono)

lemma faithful_plain [simp]:
  "faithful c llm q user (SumAbstain r)" "faithful c llm q user (SumPending n)" "faithful c llm q user SumCostDegraded"
  "faithful c llm q user (SumSourceUnavailable r)"
  by (simp_all add: faithful_def)

lemma same_artifact_refl [simp]: "same_artifact q q"
  by (simp add: same_artifact_def)

lemma faithful_summary:
  "same_artifact q q' \<Longrightarrow> sq_task q = SUMMARY_TASK \<Longrightarrow> validated_summary c q' s m \<Longrightarrow>
     faithful c llm q user (SumServed (OkPayload (SummaryBody s) m) b)"
  unfolding faithful_def by simp blast

lemma faithful_translation:
  "same_artifact q q' \<Longrightarrow> sq_task q = TRANSLATE_TASK \<Longrightarrow> translated_source c llm q' g' d kept m \<Longrightarrow>
     faithful c llm q user (SumServed (render_translation (cf_uc c) (cf_nfc c) (OkPayload (TranslationBody d kept None) m)
       (resolve_glossary (cf_terms c) (Some user))) b)"
  unfolding faithful_def by simp blast

text \<open>Requests and jobs one after another: the answers, or what they raised.\<close>

fun run_all :: "'w sum_ports \<Rightarrow> sum_config \<Rightarrow> (sum_request \<times> string \<times> bool) list \<Rightarrow> 'w \<Rightarrow> (sum_exn + sum_response) list" where
  "run_all p c [] w = []"
| "run_all p c ((q, user, allow) # rs) w =
     (case run_request p c q user allow w of (r, v) \<Rightarrow> r # run_all p c rs v)"

section \<open>The service over a store\<close>

context artifact_store
begin

definition over_store :: "'w sum_ports \<Rightarrow> bool" where
  "over_store p \<longleftrightarrow> pt_get p = get \<and> pt_put p = put \<and> pt_transient p = put_transient \<and> quiet_ports kept p"

abbreviation sound_store :: "sum_config \<Rightarrow> 'w sum_ports \<Rightarrow> 'w \<Rightarrow> bool" where
  "sound_store c p \<equiv> all_held (made_by c (pt_segments p))"

lemma keeps_ports:
  assumes "over_store p"
  shows "keeps (sound_store c p) (pt_summarize p rf q g) (\<lambda>_. True)" and "keeps (sound_store c p) (pt_segments p ch q g) (\<lambda>_. True)"
    and "keeps (sound_store c p) (pt_budget p) (\<lambda>_. True)" and "keeps (sound_store c p) (sum_emit p n) (\<lambda>_. True)"
    and "pt_build p = Some build \<Longrightarrow> keeps (sound_store c p) (build paper v) (\<lambda>_. True)"
    and "pt_jobs p = Some jobs \<Longrightarrow> keeps (sound_store c p) (jobs q user) (\<lambda>_. True)"
  using assms by (auto simp: over_store_def quiet_ports_def intro!: keeps_quiet)

lemma keeps_map_reduce:
  assumes "over_store p" shows "keeps (sound_store c p) (map_reduce_port p c rf q g) (\<lambda>_. True)"
proof -
  have "keeps (sound_store c p) (map_bounded (\<lambda>x. pt_summarize p x q g) xs) (\<lambda>_. True)" for xs
    by (rule keeps_mono [OF keeps_map_bounded [OF keeps_ports(1) [OF assms]]]) simp
  then show ?thesis using keeps_ports(1) [OF assms]
    by (auto simp: map_reduce_port_def map_reduce_summarize_def Let_def intro!: keeps_sbind [where R = "\<lambda>_. True"])
qed

lemma keeps_abstain:
  assumes "over_store p" and "plain_segments (cf_model c) user (cf_seed c) parser"
  shows "keeps (sound_store c p) (abstain_with p (request_key c q user (resolve_glossary (cf_terms c) (Some user)) parser) reason allow)
    (faithful c (pt_segments p) q' user')"
proof -
  have "made_by c (pt_segments p) (object_path (request_key c q user (resolve_glossary (cf_terms c) (Some user)) parser)) (AbstainPayload reason)"
    using assms(2) unfolding made_by_def made_for_def by auto
  then have "keeps (sound_store c p) (put_transient (request_key c q user (resolve_glossary (cf_terms c) (Some user)) parser)
      (AbstainPayload reason) ABSTAIN_CACHE_TTL_SECONDS) (\<lambda>_. True)"
    by (rule keeps_transient)
  then show ?thesis using assms(1)
    by (auto simp: abstain_with_def over_store_def intro!: keeps_sret keeps_sbind [where R = "\<lambda>_. True"])
qed

lemma keeps_serve:
  assumes "over_store p" and "made_by c (pt_segments p) (object_path (request_key c q user g parser)) x"
    and "plain_segments (cf_model c) user (cf_seed c) parser" and g: "g = resolve_glossary (cf_terms c) (Some user)"
  shows "keeps (sound_store c p) (serve_cached p c x q g) (faithful c (pt_segments p) q user)"
proof -
  obtain q' user' parser' where made: "plain_segments (cf_model c) user' (cf_seed c) parser'"
      "object_path (request_key c q user g parser) =
       object_path (request_key c q' user' (resolve_glossary (cf_terms c) (Some user')) parser')"
      "made_for c (pt_segments p) q' (resolve_glossary (cf_terms c) (Some user')) x"
    using assms(2) unfolding made_by_def by blast
  have same: "same_artifact q q'" by (rule same_path_same_artifact [OF made(2) assms(3) made(1)])
  then have task: "sq_task q' = sq_task q" by (simp add: same_artifact_def)
  have "faithful c (pt_segments p) q user
      (SumServed (if sq_task q = TRANSLATE_TASK then render_translation (cf_uc c) (cf_nfc c) x g else x) True)"
    if "x = OkPayload body m" for body m
    using made(3) same task that unfolding made_for_def g
    by (cases "sq_task q"; cases body) (auto intro: faithful_summary faithful_translation)
  then show ?thesis unfolding serve_cached_def
    by (intro keeps_sbind [OF keeps_ports(4) [OF assms(1)]]) (auto intro!: keeps_sret split: sum_payload.split)
qed

lemma keeps_run_summary:
  assumes over: "over_store p" and plain: "plain_segments (cf_model c) user (cf_seed c) parser"
    and g: "g = resolve_glossary (cf_terms c) (Some user)" and src: "select_source (cf_sources c) q = Some src"
    and rf: "rf = refine_source (cf_uc c) (cf_plain c) src" and task: "sq_task q = SUMMARY_TASK"
    and gen: "keeps (sound_store c p) (summarize rf q g) (\<lambda>_. True)"
  shows "keeps (sound_store c p) (run_summary p c summarize (request_key c q user g parser) allow q src rf g n) (faithful c (pt_segments p) q user)"
proof (induction n)
  case 0
  then show ?case using keeps_abstain [OF over plain] by (simp add: g)
next
  case (Suc n)
  let ?key = "request_key c q user g parser"
  have serve: "keeps (sound_store c p) (pt_put p ?key x) (\<lambda>_. True)" "faithful c (pt_segments p) q user (SumServed x False)"
    if "x = assemble_summary (d\<lparr>sd_anchors := av_kept v\<rparr>) src" "v = validate_draft (cf_uc c) NUMERIC_MISMATCH_THRESHOLD d rf" "av_ok v" for x d v
  proof -
    have ok: "validated_summary c q (show_summary (d\<lparr>sd_anchors := av_kept v\<rparr>)) (source_meta src)"
      unfolding validated_summary_def using src that by (auto simp: Let_def rf)
    then have "made_by c (pt_segments p) (object_path ?key) x"
      using plain task unfolding made_by_def made_for_def that(1) assemble_summary_def g by auto
    then show "keeps (sound_store c p) (pt_put p ?key x) (\<lambda>_. True)" using over keeps_put by (simp add: over_store_def)
    show "faithful c (pt_segments p) q user (SumServed x False)"
      unfolding that(1) assemble_summary_def by (rule faithful_summary [OF same_artifact_refl task ok])
  qed
  have abst: "keeps (sound_store c p) (abstain_with p ?key r allow) (faithful c (pt_segments p) q user)" for r
    using keeps_abstain [OF over plain] by (simp add: g)
  note emit = keeps_ports(4) [OF over]
  show ?case unfolding run_summary.simps
  proof (rule keeps_sbind [OF keeps_llm_try [OF gen]])
    fix res
    show "keeps (sound_store c p) (case res of
         None \<Rightarrow>
           if n = 0 then sbind (sum_emit p ''u7.llm.unavailable'') (\<lambda>_. abstain_with p ?key ''generation_unavailable'' allow)
           else run_summary p c summarize ?key allow q src rf g n
       | Some draft \<Rightarrow>
           sbind (sum_emit p ''u7.stage_ms.generate'') (\<lambda>_.
           let v = validate_draft (cf_uc c) NUMERIC_MISMATCH_THRESHOLD draft rf in
           sbind (sum_emit p ''u7.stage_ms.gate'') (\<lambda>_.
           sbind (sum_emit p ''u7.grounding'') (\<lambda>_.
             if av_ok v then
               let result = assemble_summary (draft\<lparr>sd_anchors := av_kept v\<rparr>) src in
               sbind (pt_put p ?key result) (\<lambda>_.
               sbind (sum_emit p ''u7.summary.ok'') (\<lambda>_. sret (SumServed result False)))
             else if n = 0 then abstain_with p ?key ''insufficient_grounding'' allow
             else run_summary p c summarize ?key allow q src rf g n)))) (faithful c (pt_segments p) q user)"
      using Suc abst serve
      by (auto simp: Let_def split: option.split intro!: keeps_sbind [OF emit] keeps_sret keeps_sbind [where R = "\<lambda>_. True" and m = "pt_put p _ _"])
  qed
qed

lemma keeps_translate_attempts:
  assumes over: "over_store p" and plain: "plain_segments (cf_model c) user (cf_seed c) parser"
    and g: "g = resolve_glossary (cf_terms c) (Some user)" and src: "select_source (cf_sources c) q = Some src"
    and d: "d = translated_doc c q src" and task: "sq_task q = TRANSLATE_TASK"
  shows "keeps (sound_store c p) (translate_attempts p c (request_key c q user g parser) allow q src d g n) (faithful c (pt_segments p) q user)"
proof (induction n)
  case 0
  then show ?case using keeps_abstain [OF over plain] by (simp add: g)
next
  case (Suc n)
  let ?key = "request_key c q user g parser"
  have serve: "keeps (sound_store c p) (pt_put p ?key (assemble_translation t src)) (\<lambda>_. True)"
      "faithful c (pt_segments p) q user (SumServed (render_translation (cf_uc c) (cf_nfc c) (assemble_translation t src) g) False)"
    if "mirror_of (cf_uc c) (pt_segments p) q g d (td_doc t)" "has_translated_text (cf_uc c) t d" for t
  proof -
    have "has_translated_text (cf_uc c) \<lparr>td_doc = td_doc t, td_kept = td_kept t\<rparr> d" using that(2) by (simp add: has_translated_text_def)
    then have ok: "translated_source c (pt_segments p) q g (td_doc t) (td_kept t) (source_meta src)"
      unfolding translated_source_def using src that(1) by (auto simp: d)
    then have "made_by c (pt_segments p) (object_path ?key) (assemble_translation t src)"
      using plain task unfolding made_by_def made_for_def assemble_translation_def g by auto
    then show "keeps (sound_store c p) (pt_put p ?key (assemble_translation t src)) (\<lambda>_. True)"
      using over keeps_put by (simp add: over_store_def)
    show "faithful c (pt_segments p) q user (SumServed (render_translation (cf_uc c) (cf_nfc c) (assemble_translation t src) g) False)"
      unfolding assemble_translation_def g by (rule faithful_translation [OF same_artifact_refl task ok [unfolded g]])
  qed
  have abst: "keeps (sound_store c p) (abstain_with p ?key r allow) (faithful c (pt_segments p) q user)" for r
    using keeps_abstain [OF over plain] by (simp add: g)
  note emit = keeps_ports(4) [OF over]
  have gen: "keeps (sound_store c p) (translate_doc (cf_uc c) (cf_translate_budget c) (pt_segments p) d q g)
      (\<lambda>t. mirror_of (cf_uc c) (pt_segments p) q g d (td_doc t))"
    by (rule translate_doc_keeps) (rule keeps_ports(2) [OF over])
  show ?case unfolding translate_attempts.simps
  proof (rule keeps_sbind [OF keeps_llm_try [OF gen]])
    fix res :: "translation_draft option"
    assume "\<forall>t. res = Some t \<longrightarrow> mirror_of (cf_uc c) (pt_segments p) q g d (td_doc t)"
    then show "keeps (sound_store c p) (case res of
         None \<Rightarrow>
           if n = 0 then sbind (sum_emit p ''u7.llm.unavailable'') (\<lambda>_. abstain_with p ?key ''generation_unavailable'' allow)
           else translate_attempts p c ?key allow q src d g n
       | Some draft \<Rightarrow>
           if \<not> has_translated_text (cf_uc c) draft d then
             if n = 0 then sbind (sum_emit p ''u7.translate.empty'') (\<lambda>_. abstain_with p ?key ''empty_translation'' allow)
             else translate_attempts p c ?key allow q src d g n
           else
             let base = assemble_translation draft src in
             sbind (pt_put p ?key base) (\<lambda>_.
             sbind (sum_emit p ''u7.translate.ok'') (\<lambda>_.
               sret (SumServed (render_translation (cf_uc c) (cf_nfc c) base g) False)))) (faithful c (pt_segments p) q user)"
      using Suc abst serve
      by (auto simp: Let_def split: option.split intro!: keeps_sbind [OF emit] keeps_sret keeps_sbind [where R = "\<lambda>_. True" and m = "pt_put p _ _"])
  qed
qed

lemma keeps_generate:
  assumes over: "over_store p" and plain: "plain_segments (cf_model c) user (cf_seed c) parser"
    and g: "g = resolve_glossary (cf_terms c) (Some user)" and src: "select_source (cf_sources c) q = Some src"
  shows "keeps (sound_store c p) (generate p c q user allow g src (request_key c q user g parser)) (faithful c (pt_segments p) q user)"
proof -
  let ?rf = "refine_source (cf_uc c) (cf_plain c) src"
  let ?key = "request_key c q user g parser"
  have translate: "keeps (sound_store c p) (run_translate p c ?key allow q src ?rf g) (faithful c (pt_segments p) q user)" if "sq_task q = TRANSLATE_TASK"
    using keeps_translate_attempts [OF over plain g src _ that, unfolded translated_doc_def, OF refl]
      keeps_abstain [OF over plain, of q] by (simp add: run_translate_def g)
  have summary: "keeps (sound_store c p) (run_summary p c f ?key allow q src ?rf g 2) (faithful c (pt_segments p) q user)"
    if "sq_task q = SUMMARY_TASK" "f = pt_summarize p \<or> f = map_reduce_port p c" for f
  proof (rule keeps_run_summary [OF over plain g src refl that(1)])
    show "keeps (sound_store c p) (f ?rf q g) (\<lambda>_. True)" using that(2) keeps_ports(1) [OF over] keeps_map_reduce [OF over] by auto
  qed
  have job: "keeps (sound_store c p) (enqueue_job p jobs q user) (faithful c (pt_segments p) q user)" if "pt_jobs p = Some jobs" for jobs
    unfolding enqueue_job_def
    by (rule keeps_sbind [OF keeps_ports(6) [OF over that]], rule keeps_sbind [OF keeps_ports(4) [OF over]]) (simp add: keeps_sret)
  show ?thesis
    using translate summary job
    by (cases "sq_task q") (auto simp: generate_def Let_def keeps_sret split: option.split if_splits)
qed

lemma keeps_heal:
  assumes "over_store p" shows "keeps (sound_store c p) (heal_source p q src) (\<lambda>_. True)"
  using keeps_ports(5) [OF assms] by (auto simp: heal_source_def keeps_sret split: option.split)

lemma keeps_run_request:
  assumes over: "over_store p" and tidy: "tidy c q user"
  shows "keeps (sound_store c p) (run_request p c q user allow) (faithful c (pt_segments p) q user)"
proof -
  define g where "g = resolve_glossary (cf_terms c) (Some user)"
  let ?now = "request_key c q user g DOCMODEL_PARSER_VERSION"
  have now: "plain_segments (cf_model c) user (cf_seed c) DOCMODEL_PARSER_VERSION" using tidy by (simp add: tidy_def)
  have read: "keeps (sound_store c p) (pt_get p k) (\<lambda>r. \<forall>x. r = Some x \<longrightarrow> made_by c (pt_segments p) (object_path k) x)" for k
    using over keeps_get by (simp add: over_store_def)
  have rest: "keeps (sound_store c p) (sbind (heal_source p q src) (\<lambda>_.
       let key = request_key c q user g (source_doc_parser src) in
       sbind (if key \<noteq> ?now then pt_get p key else sret None) (\<lambda>cached.
         case cached of Some x \<Rightarrow> serve_cached p c x q g | None \<Rightarrow> generate p c q user allow g src key)))
      (faithful c (pt_segments p) q user)" if src: "select_source (cf_sources c) q = Some src" for src
  proof -
    have plain: "plain_segments (cf_model c) user (cf_seed c) (source_doc_parser src)" using tidy src by (simp add: tidy_def)
    let ?key = "request_key c q user g (source_doc_parser src)"
    have look: "keeps (sound_store c p) (if ?key \<noteq> ?now then pt_get p ?key else sret None)
        (\<lambda>r. \<forall>x. r = Some x \<longrightarrow> made_by c (pt_segments p) (object_path ?key) x)"
      using read by (simp add: keeps_sret)
    show ?thesis unfolding Let_def
      by (rule keeps_sbind [OF keeps_heal [OF over]], rule keeps_sbind [OF look])
        (auto split: option.split intro: keeps_generate [OF over plain g_def src] keeps_serve [OF over _ plain g_def])
  qed
  show ?thesis unfolding run_request_def Let_def g_def [symmetric]
  proof (rule keeps_sbind [OF read])
    fix cached assume hit: "\<forall>x. cached = Some x \<longrightarrow> made_by c (pt_segments p) (object_path ?now) x"
    have miss: "keeps (sound_store c p) (sbind (pt_budget p) (\<lambda>budget.
        if is_cost_degraded (cf_other c) budget
        then sbind (sum_emit p ''u7.cost.degraded'') (\<lambda>_. sret SumCostDegraded)
        else case select_source (cf_sources c) q of
          None \<Rightarrow> sret (SumSourceUnavailable ''no_full_text_or_abstract'')
        | Some src \<Rightarrow>
            sbind (heal_source p q src) (\<lambda>_.
              sbind (if request_key c q user g (source_doc_parser src) \<noteq> ?now then pt_get p (request_key c q user g (source_doc_parser src)) else sret None)
                (\<lambda>cached. case cached of Some x \<Rightarrow> serve_cached p c x q g
                  | None \<Rightarrow> generate p c q user allow g src (request_key c q user g (source_doc_parser src))))))
        (faithful c (pt_segments p) q user)"
      using rest unfolding Let_def
      by (intro keeps_sbind [OF keeps_ports(3) [OF over]])
        (auto split: option.split intro!: keeps_sbind [OF keeps_ports(4) [OF over]] keeps_sret)
    show "keeps (sound_store c p) (case cached of
           Some x \<Rightarrow> serve_cached p c x q g
         | None \<Rightarrow>
             sbind (pt_budget p) (\<lambda>budget.
             if is_cost_degraded (cf_other c) budget
             then sbind (sum_emit p ''u7.cost.degraded'') (\<lambda>_. sret SumCostDegraded)
             else case select_source (cf_sources c) q of
               None \<Rightarrow> sret (SumSourceUnavailable ''no_full_text_or_abstract'')
             | Some src \<Rightarrow>
                 sbind (heal_source p q src) (\<lambda>_.
                 sbind (if request_key c q user g (source_doc_parser src) \<noteq> ?now then pt_get p (request_key c q user g (source_doc_parser src)) else sret None)
                 (\<lambda>cached. case cached of Some x \<Rightarrow> serve_cached p c x q g
                   | None \<Rightarrow> generate p c q user allow g src (request_key c q user g (source_doc_parser src))))))
        (faithful c (pt_segments p) q user)"
      using miss hit keeps_serve [OF over _ now g_def] by (cases cached) simp_all
  qed
qed

lemma run_all_faithful:
  assumes "over_store p" and "sound_store c p w" and "list_all (\<lambda>(q, user, allow). tidy c q user) rs"
  shows "list_all2 (\<lambda>(q, user, allow) r. \<forall>resp. r = Inr resp \<longrightarrow> faithful c (pt_segments p) q user resp) rs (run_all p c rs w)"
  using assms(2,3)
proof (induction rs arbitrary: w)
  case (Cons a rs)
  obtain q user allow where a: "a = (q, user, allow)" by (cases a) auto
  obtain r v where run: "run_request p c q user allow w = (r, v)" by force
  have "tidy c q user" using Cons.prems(2) by (simp add: a)
  from keeps_run_request [OF assms(1) this, of allow] Cons.prems(1) run
  have "sound_store c p v" "\<forall>resp. r = Inr resp \<longrightarrow> faithful c (pt_segments p) q user resp" by (auto simp: keeps_def)
  then show ?case using Cons.IH [of v] Cons.prems(2) by (simp add: a run)
qed simp

end

section \<open>Healing a version that is not there\<close>

text \<open>
  A request for a version that is not stored is served from the latest stored one; the rebuild it
  triggers is for the requested version all the same, so the stored document stays as it is.
\<close>

lemma heal_asks_for_absent_version:
  assumes "sq_version q = 2" and "sq_task q = SUMMARY_TASK" and "pt_build p = Some (\<lambda>paper v w. (Inr (), w @ [v]))"
    and "cf_sources c = \<lparr>sp_full_text = full, sp_abstract = None,
           sp_docs = Some \<lparr>vr_get = (\<lambda>_ v. if v = 1 then Some d else None), vr_latest = Some (\<lambda>_. Some 1)\<rparr>\<rparr>"
    and "ud_parser d = ''docmodel-parser@10''"
  shows "\<exists>src. select_source (cf_sources c) q = Some src \<and> st_doc src = Some d \<and> heal_source p q src [] = (Inr (), [2])"
  using assms
  by (simp add: select_source_def stored_doc_def fallback_version_def Let_def heal_source_def DOCMODEL_PARSER_VERSION_def)

section \<open>Over Redis and S3\<close>

text \<open>
  C4. What the service serves is faithful. Take any run of requests and background jobs of any users,
  over Redis and S3 that start empty and may fail or expire at any command, with any language model,
  queues and cost guard. Every summary served, fresh or cached, is a draft that passed the grounding
  gate against the refined source of a request for the same paper, version and persona, with exactly
  the anchors the gate kept; every translation served is the rendering, with the glossary of its own
  reader, of a document that mirrors the source of a request for the same paper, version and scope.
\<close>

theorem served_is_faithful:
  fixes p :: "'z tier_world_scheme sum_ports"
  assumes "pt_get p = tiers_get world_tiers" and "pt_put p = tiers_put world_tiers"
    and "pt_transient p = tiers_put_transient world_tiers" and "quiet_ports tier_holds p"
    and "tw_hot w = Map.empty" and "tw_s3 w = Map.empty" and "list_all (\<lambda>(q, user, allow). tidy c q user) rs"
  shows "list_all2 (\<lambda>(q, user, allow) r. \<forall>resp. r = Inr resp \<longrightarrow> faithful c (pt_segments p) q user resp) rs (run_all p c rs w)"
proof (rule summaries.run_all_faithful)
  show "summaries.over_store p" using assms(1-4) by (simp add: summaries.over_store_def)
  show "summaries.all_held (made_by c (pt_segments p)) w" using assms(5,6) by (simp add: summaries.all_held_def tier_holds_def)
qed (rule assms(7))

text \<open>A deployment whose model always answers the small draft, and one paper with an abstract.\<close>

definition small_ports :: "tier_world sum_ports" where
  "small_ports = \<lparr>pt_get = tiers_get world_tiers, pt_put = tiers_put world_tiers, pt_transient = tiers_put_transient world_tiers,
     pt_summarize = (\<lambda>_ _ _. sret small_draft), pt_segments = (\<lambda>_ _ _. sraise LlmUnavailable), pt_budget = sret (PObj []),
     pt_build = None, pt_jobs = None, pt_emit = (\<lambda>_ w. w)\<rparr>"

definition small_config :: sum_config where
  "small_config = \<lparr>cf_uc = ascii_unicode, cf_nfc = id, cf_other = (\<lambda>_. []), cf_digest = length, cf_plain = (\<lambda>_. small_paper),
     cf_sources = \<lparr>sp_full_text = (\<lambda>_ _. None), sp_abstract = None, sp_docs = None\<rparr>, cf_terms = None, cf_model = ''m'', cf_seed = [],
     cf_context_budget = 40000, cf_input_cap = 120000, cf_chunk_budget = 30000, cf_overlap = 2000, cf_translate_budget = 3500,
     cf_map_reduce = True, cf_translator = True\<rparr>"

definition small_request :: sum_request where
  "small_request = \<lparr>sq_paper = ''p'', sq_version = 1, sq_task = SUMMARY_TASK, sq_persona = EXPERT, sq_scope = FULL_SCOPE,
     sq_abstract = Some (codes ''F1 95.34'')\<rparr>"

definition empty_tiers :: tier_world where
  "empty_tiers = \<lparr>tw_hot = Map.empty, tw_s3 = Map.empty, tw_script = []\<rparr>"

theorem served_is_faithful_witness:
  "list_all2 (\<lambda>(q, user, allow) r. \<not> (\<exists>resp. r = Inr resp \<and> \<not> faithful small_config (pt_segments small_ports) q user resp))
     [(small_request, ''u'', True), (small_request, ''u'', False)]
     (run_all small_ports small_config [(small_request, ''u'', True), (small_request, ''u'', False)] empty_tiers)"
proof -
  have "quiet_ports tier_holds small_ports"
    by (simp add: quiet_ports_def small_ports_def leaves_store_def adds_nothing_def sret_def sraise_def sum_emit_def)
  moreover have "tidy small_config small_request ''u''"
    by (auto simp: tidy_def plain_segments_def docmodel_generation_def small_config_def small_request_def DOCMODEL_PARSER_VERSION_def
        select_source_def Let_def stored_doc_def stored_text_def fallback_version_def filled_text_def abstract_of_def source_doc_parser_def
        split: if_splits option.splits)
  ultimately show ?thesis
    using served_is_faithful [where p = small_ports and c = small_config and w = empty_tiers
        and rs = "[(small_request, ''u'', True), (small_request, ''u'', False)]"]
    by (simp add: small_ports_def empty_tiers_def list_all2_conv_all_nth case_prod_unfold)
qed

end
