(* ===== verification/Sum_Echo_Facts.thy ===== *)
theory Sum_Echo_Facts imports Sum_Service Sum_Translate_Facts begin

text \<open>
  The check that a translation is one, \<open>_has_translated_text\<close>, compares with the unmasked source, but
  what the model is given, and may echo, is the masked text: an echo passes, is stored, and is rendered
  back to the English source.
\<close>

definition t5_entry :: mask_entry where
  "t5_entry = \<lparr>me_index = 3, me_from = [84, 53], me_kind = KEEP_AS_IS, me_seed = [84, 53]\<rparr>"

lemma t5_steps:
  "list_all (\<lambda>e. e = t5_entry \<or>
     (mask_pass ascii_unicode (me_from e) (token_for (me_index e)) None [84, 53] = ([84, 53], False) \<and>
      mask_pass ascii_unicode (me_from e) (token_for (me_index e)) None [TOPEN, TMARK, 51, TCLOSE] = ([TOPEN, TMARK, 51, TCLOSE], False)))
   build_mask_table"
  by (simp add: build_mask_table_def SEED_KEEP_AS_IS_def SEED_MAPPINGS_def codes_def t5_entry_def mask_pass.simps term_at_def
      ascii_unicode_def boundary_def head_of_def)

lemma t5_step: "mask_step ascii_unicode t5_entry ([84, 53], []) = ([TOPEN, TMARK, 51, TCLOSE], [3])"
  by (simp add: mask_step_def t5_entry_def mask_pass.simps term_at_def boundary_def head_of_def token_for_def nat_codes_def codes_def
      py_nat_str.simps digit_char_def ascii_unicode_def)

lemma mask_t5: "mask_text ascii_unicode [84, 53] build_mask_table = ([TOPEN, TMARK, 51, TCLOSE], [3])"
proof -
  let ?tok = "[TOPEN, TMARK, 51, TCLOSE]"
  define quiet_entry where "quiet_entry = (\<lambda>e. mask_step ascii_unicode e ([84, 53], []) = ([84, 53], []) \<and>
    mask_step ascii_unicode e (?tok, [3]) = (?tok, [3]))"
  have "list_all (\<lambda>e. e = t5_entry \<or> quiet_entry e) build_mask_table"
    using t5_steps by (auto simp: quiet_entry_def list_all_iff mask_step_def)
  then have entries: "\<forall>e \<in> set (sort_key (\<lambda>e. - int (length (me_from e))) build_mask_table). e = t5_entry \<or> quiet_entry e"
    by (simp add: list_all_iff)
  have before: "\<forall>e \<in> set es. quiet_entry e \<Longrightarrow> fold (mask_step ascii_unicode) es ([84, 53], []) = ([84, 53], [])" for es
    by (induction es) (auto simp: quiet_entry_def)
  have after: "\<forall>e \<in> set es. quiet_entry e \<Longrightarrow> fold (mask_step ascii_unicode) es (?tok, [3]) = (?tok, [3])" for es
    by (induction es) (auto simp: quiet_entry_def)
  let ?s = "sort_key (\<lambda>e. - int (length (me_from e))) build_mask_table"
  have "t5_entry \<in> set ?s" by (simp add: t5_entry_def build_mask_table_def SEED_KEEP_AS_IS_def SEED_MAPPINGS_def codes_def)
  then obtain es fs where s: "?s = es @ t5_entry # fs" by (metis split_list)
  have "distinct ?s"
    using seed_table_ok by (simp add: table_ok_def distinct_map)
  then have "t5_entry \<notin> set es \<union> set fs" unfolding s by simp
  moreover have "e = t5_entry \<or> quiet_entry e" if "e \<in> set es \<union> set fs" for e using entries that unfolding s by simp
  ultimately have "\<forall>e \<in> set es. quiet_entry e" "\<forall>e \<in> set fs. quiet_entry e" by blast+
  then have "fold (mask_step ascii_unicode) ?s ([84, 53], []) = (?tok, [3])"
    unfolding s using before after t5_step by simp
  then show ?thesis by (simp add: mask_text_def)
qed

text \<open>A model that gives back what it is given.\<close>

definition echo_llm :: "unit segment_llm" where
  "echo_llm ch q g w = (Inr \<lparr>gr_translations = ch, gr_kept = [], gr_truncated = False\<rparr>, w)"

definition t5_title :: udoc where
  "t5_title = \<lparr>ud_paper = [], ud_version = 1, ud_title = [84, 53], ud_parser = [], ud_full_text = [], ud_sections = []\<rparr>"


end
