(* ===== verification/Sum_Queue.thy ===== *)
theory Sum_Queue imports Sum_Service begin

text \<open>
  The in-process queue of long jobs, \<open>summarization/.../adapters/local_summary_job.py\<close>, with the claims
  of \<open>adapters/summary_job_dedup.py\<close>: request threads enqueue, pool threads start and finish jobs, all
  under one lock. The pool is a first-in first-out list of submitted jobs with the time of their
  submission. A second queue, over SQS, is \<open>sqs_summary_job.py\<close>.
\<close>

section \<open>The queue\<close>

record local_queue =
  lq_inflight :: "(string, rat) dict"
  lq_running :: "string list"
  lq_ttl :: rat
  lq_bound :: bool
  lq_pending :: "(string \<times> rat) list"
  lq_active :: "string list"

definition PRUNE_THRESHOLD :: nat where "PRUNE_THRESHOLD = 256"

definition prune_inflight :: "(string, rat) dict \<Rightarrow> rat \<Rightarrow> (string, rat) dict" where
  "prune_inflight claims now =
     (if length claims < PRUNE_THRESHOLD then claims else filter (\<lambda>(k, v). v > now) claims)"

definition claimed :: "(string, rat) dict \<Rightarrow> string \<Rightarrow> rat \<Rightarrow> bool" where
  "claimed claims key now \<longleftrightarrow> (case dget claims key of None \<Rightarrow> False | Some expiry \<Rightarrow> expiry > now)"

definition enqueue :: "local_queue \<Rightarrow> string \<Rightarrow> rat \<Rightarrow> local_queue" where
  "enqueue q key now =
     (if \<not> lq_bound q then q
      else let claims = prune_inflight (lq_inflight q) now in
        if key \<in> set (lq_running q) \<or> claimed claims key now then q\<lparr>lq_inflight := claims\<rparr>
        else q\<lparr>lq_inflight := AList.update key (now + lq_ttl q) claims, lq_pending := lq_pending q @ [(key, now)]\<rparr>)"

definition start_job :: "local_queue \<Rightarrow> local_queue" where
  "start_job q =
     (case lq_pending q of
        [] \<Rightarrow> q
      | (key, t) # rest \<Rightarrow> q\<lparr>lq_pending := rest, lq_running := List.insert key (lq_running q), lq_active := key # lq_active q\<rparr>)"

definition release :: "string \<Rightarrow> local_queue \<Rightarrow> local_queue" where
  "release key q = q\<lparr>lq_inflight := AList.delete key (lq_inflight q), lq_running := removeAll key (lq_running q)\<rparr>"

text \<open>A job ends, with or without an exception.\<close>

definition finish_job :: "string \<Rightarrow> local_queue \<Rightarrow> local_queue" where
  "finish_job key q = release key (q\<lparr>lq_active := remove1 key (lq_active q)\<rparr>)"

datatype queue_event = Enqueue string rat | StartJob | FinishJob string

inductive queue_step :: "local_queue \<Rightarrow> queue_event \<Rightarrow> local_queue \<Rightarrow> bool" where
  qs_enqueue: "queue_step q (Enqueue key now) (enqueue q key now)"
| qs_start: "lq_pending q \<noteq> [] \<Longrightarrow> queue_step q StartJob (start_job q)"
| qs_finish: "key \<in> set (lq_active q) \<Longrightarrow> queue_step q (FinishJob key) (finish_job key q)"

inductive_cases queue_stepE: "queue_step q e q'"

text \<open>\<open>punctual\<close>: no job has waited for a thread as long as its claim lasts.\<close>

definition punctual :: "local_queue \<Rightarrow> queue_event \<Rightarrow> bool" where
  "punctual q e = (case e of Enqueue key now \<Rightarrow> list_all (\<lambda>(k, t). now < t + lq_ttl q) (lq_pending q) | _ \<Rightarrow> True)"

inductive queue_run :: "local_queue \<Rightarrow> queue_event list \<Rightarrow> local_queue \<Rightarrow> bool" for q0 where
  qr_nil: "queue_run q0 [] q0"
| qr_snoc: "queue_run q0 es q \<Longrightarrow> queue_step q e q' \<Longrightarrow> queue_run q0 (es @ [e]) q'"

inductive punctual_run :: "local_queue \<Rightarrow> queue_event list \<Rightarrow> local_queue \<Rightarrow> bool" for q0 where
  pr_nil: "punctual_run q0 [] q0"
| pr_snoc: "punctual_run q0 es q \<Longrightarrow> queue_step q e q' \<Longrightarrow> punctual q e \<Longrightarrow> punctual_run q0 (es @ [e]) q'"

definition empty_queue :: "rat \<Rightarrow> local_queue" where
  "empty_queue ttl = \<lparr>lq_inflight = [], lq_running = [], lq_ttl = ttl, lq_bound = True, lq_pending = [], lq_active = []\<rparr>"

text \<open>The jobs that exist: waiting or running.\<close>

definition live_jobs :: "local_queue \<Rightarrow> string list" where
  "live_jobs q = map fst (lq_pending q) @ lq_active q"

section \<open>The queue over SQS\<close>

text \<open>Claims are made only after the message was sent; a send that fails is dropped.\<close>

definition sqs_enqueue :: "rat \<Rightarrow> (string, rat) dict \<Rightarrow> string \<Rightarrow> rat \<Rightarrow> bool \<Rightarrow> (string, rat) dict \<times> bool" where
  "sqs_enqueue ttl inflight key now send_works =
     (let claims = prune_inflight inflight now in
      if claimed claims key now then (claims, False)
      else if send_works then (AList.update key (now + ttl) claims, True) else (claims, False))"

section \<open>One job for an artifact\<close>

definition queue_ok :: "local_queue \<Rightarrow> bool" where
  "queue_ok q \<longleftrightarrow>
     distinct (live_jobs q) \<and> set (lq_running q) = set (lq_active q) \<and> distinct (map fst (lq_inflight q)) \<and>
     list_all (\<lambda>(k, t). dget (lq_inflight q) k = Some (t + lq_ttl q)) (lq_pending q)"

lemma prune_keeps:
  assumes "distinct (map fst claims)" and "dget claims k = Some v" and "v > now"
  shows "dget (prune_inflight claims now) k = Some v"
proof -
  have "(k, v) \<in> set (filter (\<lambda>(k, v). v > now) claims)" using assms by (auto simp: dget_def dest: map_of_SomeD)
  moreover have "distinct (map fst (filter (\<lambda>(k, v). v > now) claims))" using assms(1) by (rule distinct_map_filter)
  ultimately show ?thesis using assms(2) by (simp add: prune_inflight_def dget_def)
qed

lemma prune_distinct: "distinct (map fst claims) \<Longrightarrow> distinct (map fst (prune_inflight claims now))"
  by (simp add: prune_inflight_def distinct_map_filter)

lemma enqueue_ok:
  assumes ok: "queue_ok q" and "punctual q (Enqueue key now)"
  shows "queue_ok (enqueue q key now)"
proof -
  let ?claims = "prune_inflight (lq_inflight q) now"
  have kept: "dget ?claims k = Some (t + lq_ttl q) \<and> claimed ?claims k now" if "(k, t) \<in> set (lq_pending q)" for k t
  proof -
    have "dget (lq_inflight q) k = Some (t + lq_ttl q)" "now < t + lq_ttl q"
      using assms that by (auto simp: queue_ok_def punctual_def list_all_iff)
    then have "dget ?claims k = Some (t + lq_ttl q)" using prune_keeps ok by (simp add: queue_ok_def)
    then show ?thesis using \<open>now < t + lq_ttl q\<close> by (simp add: claimed_def)
  qed
  have d: "distinct (map fst ?claims)" using ok prune_distinct by (simp add: queue_ok_def)
  show ?thesis
  proof (cases "\<not> lq_bound q \<or> key \<in> set (lq_running q) \<or> claimed ?claims key now")
    case True
    then show ?thesis using ok kept d by (auto simp: enqueue_def Let_def queue_ok_def live_jobs_def list_all_iff)
  next
    case False
    then have new: "key \<notin> set (live_jobs q)" using kept ok by (auto simp: live_jobs_def queue_ok_def)
    then have "dget (AList.update key (now + lq_ttl q) ?claims) k = Some (t + lq_ttl q)" if "(k, t) \<in> set (lq_pending q)" for k t
      using kept [OF that] that by (auto simp: dget_def AList.update_conv' live_jobs_def image_iff)
    then show ?thesis using False ok d new
      by (auto simp: enqueue_def Let_def queue_ok_def live_jobs_def list_all_iff distinct_update dget_def AList.update_conv')
  qed
qed

lemma fst_mem: "(a, b) \<in> S \<Longrightarrow> a \<in> fst ` S"
  by force

lemma start_ok: "queue_ok q \<Longrightarrow> queue_ok (start_job q)"
  by (auto simp: start_job_def queue_ok_def live_jobs_def disjoint_iff dest: fst_mem split: list.split)

lemma finish_ok:
  assumes "queue_ok q" and "key \<in> set (lq_active q)" shows "queue_ok (finish_job key q)"
proof -
  have free: "key \<notin> fst ` set (lq_pending q)" and act: "distinct (lq_active q)"
    using assms by (auto simp: queue_ok_def live_jobs_def)
  have "dget (AList.delete key (lq_inflight q)) k = Some (t + lq_ttl q)" if "(k, t) \<in> set (lq_pending q)" for k t
  proof -
    have "dget (lq_inflight q) k = Some (t + lq_ttl q)" using that assms(1) by (auto simp: queue_ok_def list_all_iff)
    moreover have "k \<noteq> key" using fst_mem [OF that] free by blast
    ultimately show ?thesis by (simp add: dget_def delete_conv')
  qed
  then show ?thesis using assms act
    by (auto simp: finish_job_def release_def queue_ok_def live_jobs_def list_all_iff distinct_delete)
qed

lemma step_keeps_queue: "queue_ok q \<Longrightarrow> queue_step q e q' \<Longrightarrow> punctual q e \<Longrightarrow> queue_ok q'"
  by (erule queue_stepE) (auto simp: enqueue_ok start_ok finish_ok)

text \<open>
  C24. One generation of an artifact at a time: in every run of enqueues, starts and ends of jobs in
  which no job waits for a thread as long as its claim lasts, no two jobs that wait or run have the
  same key, however long the jobs that run take.
\<close>

theorem one_job_per_artifact:
  assumes "punctual_run (empty_queue ttl) es q"
  shows "distinct (live_jobs q)"
proof -
  have "queue_ok q" using assms
  proof (induction rule: punctual_run.induct)
    case pr_nil
    then show ?case by (simp add: empty_queue_def queue_ok_def live_jobs_def)
  next
    case (pr_snoc es q e q')
    then show ?case using step_keeps_queue by blast
  qed
  then show ?thesis by (simp add: queue_ok_def)
qed

text \<open>A poll while the job runs, after its claim has lapsed.\<close>

theorem one_job_per_artifact_witness:
  "distinct (live_jobs (enqueue (start_job (enqueue (empty_queue 900) ''k'' 0)) ''k'' 5000)) \<and>
   live_jobs (enqueue (start_job (enqueue (empty_queue 900) ''k'' 0)) ''k'' 5000) = [''k'']"
proof -
  let ?q1 = "enqueue (empty_queue 900) ''k'' 0"
  have "queue_step (empty_queue 900) (Enqueue ''k'' 0) ?q1" by (rule qs_enqueue)
  then have "punctual_run (empty_queue 900) ([] @ [Enqueue ''k'' 0]) ?q1"
    by (rule pr_snoc [OF pr_nil]) (simp add: punctual_def empty_queue_def)
  moreover have "queue_step ?q1 StartJob (start_job ?q1)"
    by (rule qs_start) (simp add: enqueue_def empty_queue_def prune_inflight_def PRUNE_THRESHOLD_def claimed_def dget_def)
  ultimately have "punctual_run (empty_queue 900) (([] @ [Enqueue ''k'' 0]) @ [StartJob]) (start_job ?q1)"
    by (rule pr_snoc) (simp add: punctual_def)
  moreover have "queue_step (start_job ?q1) (Enqueue ''k'' 5000) (enqueue (start_job ?q1) ''k'' 5000)" by (rule qs_enqueue)
  ultimately have "punctual_run (empty_queue 900) ((([] @ [Enqueue ''k'' 0]) @ [StartJob]) @ [Enqueue ''k'' 5000]) (enqueue (start_job ?q1) ''k'' 5000)"
    by (rule pr_snoc)
      (simp add: punctual_def start_job_def enqueue_def empty_queue_def prune_inflight_def PRUNE_THRESHOLD_def claimed_def dget_def)
  from one_job_per_artifact [OF this] show ?thesis
    by (simp add: live_jobs_def start_job_def enqueue_def empty_queue_def prune_inflight_def PRUNE_THRESHOLD_def claimed_def dget_def)
qed

text \<open>A job that waits longer than its claim is submitted again, and both run.\<close>

lemma stale_claim_doubles:
  "\<exists>es q. queue_run (empty_queue 900) es q \<and> lq_active q = [''k'', ''k'']"
proof -
  let ?q1 = "enqueue (empty_queue 900) ''k'' 0"
  let ?q2 = "enqueue ?q1 ''k'' 900"
  have q2: "lq_pending ?q2 = [(''k'', 0), (''k'', 900)]" "lq_active ?q2 = []"
    by (simp_all add: enqueue_def empty_queue_def prune_inflight_def PRUNE_THRESHOLD_def claimed_def dget_def)
  have "queue_run (empty_queue 900) ([] @ [Enqueue ''k'' 0]) ?q1" by (rule qr_snoc [OF qr_nil qs_enqueue])
  from qr_snoc [OF this qs_enqueue, of "''k''" 900] obtain es where r2: "queue_run (empty_queue 900) es ?q2" by blast
  have "queue_step ?q2 StartJob (start_job ?q2)" by (rule qs_start) (simp add: q2)
  from qr_snoc [OF r2 this] obtain fs where r3: "queue_run (empty_queue 900) fs (start_job ?q2)" by blast
  have "queue_step (start_job ?q2) StartJob (start_job (start_job ?q2))" by (rule qs_start) (simp add: start_job_def q2)
  from qr_snoc [OF r3 this] show ?thesis by (intro exI conjI) (assumption, simp add: start_job_def q2)
qed

end
