(* ===== verification/Nov_Models.thy ===== *)
theory Nov_Models imports Py_Value Py_Number Py_Action begin

text \<open>
  The novelty agent's data: the states of a job and its allowed transitions, jobs, artifacts, traces
  and chat messages (\<open>domain/models.py\<close>), the three budgets (\<open>domain/budget.py\<close>), the tool registry
  (\<open>ports/tools.py\<close>), queued jobs (\<open>ports/queue.py\<close>) and the activity feed (\<open>domain/projection.py\<close>).

  Sentences the code writes in Korean are constructors with their holes: the notes of an
  observation and the canned replies of the agent.
\<close>

section \<open>Jobs\<close>

datatype job_state =
  J_RECEIVED | J_INVESTIGATING | J_REPORTING | J_COMPLETED | J_PARTIAL | J_FAILED | J_CANCELLED

fun job_state_value :: "job_state \<Rightarrow> string" where
  "job_state_value J_RECEIVED = ''received''"
| "job_state_value J_INVESTIGATING = ''investigating''"
| "job_state_value J_REPORTING = ''reporting''"
| "job_state_value J_COMPLETED = ''completed''"
| "job_state_value J_PARTIAL = ''partial''"
| "job_state_value J_FAILED = ''failed''"
| "job_state_value J_CANCELLED = ''cancelled''"

definition TERMINAL_STATES :: "job_state list" where
  "TERMINAL_STATES = [J_COMPLETED, J_PARTIAL, J_FAILED, J_CANCELLED]"

definition ON_DEMAND_ELIGIBLE_STATES :: "job_state list" where
  "ON_DEMAND_ELIGIBLE_STATES = [J_COMPLETED, J_PARTIAL]"

fun ALLOWED_TRANSITIONS :: "job_state \<Rightarrow> job_state list" where
  "ALLOWED_TRANSITIONS J_RECEIVED = [J_INVESTIGATING, J_CANCELLED, J_FAILED]"
| "ALLOWED_TRANSITIONS J_INVESTIGATING = [J_REPORTING, J_PARTIAL, J_CANCELLED, J_FAILED]"
| "ALLOWED_TRANSITIONS J_REPORTING = [J_COMPLETED, J_PARTIAL, J_CANCELLED, J_FAILED]"
| "ALLOWED_TRANSITIONS _ = []"

datatype nov_exn =
    InvalidTransition string
  | KeyMissing string
  | DuplicateTraceSeq string
  | TraceUnavailable
  | NovOther string

fun nov_exn_text :: "nov_exn \<Rightarrow> string" where
  "nov_exn_text (InvalidTransition s) = s"
| "nov_exn_text (KeyMissing s) = s"
| "nov_exn_text (DuplicateTraceSeq s) = s"
| "nov_exn_text TraceUnavailable = []"
| "nov_exn_text (NovOther s) = s"

definition validate_transition :: "job_state \<Rightarrow> job_state \<Rightarrow> nov_exn + unit" where
  "validate_transition cur target =
     (if cur = target then Inr ()
      else if cur \<in> set TERMINAL_STATES then Inl (InvalidTransition (''job is terminal: '' @ job_state_value cur))
      else if target \<notin> set (ALLOWED_TRANSITIONS cur)
        then Inl (InvalidTransition (''invalid transition: '' @ job_state_value cur @ '' -> '' @ job_state_value target))
      else Inr ())"

datatype loop_end = E_ARTIFACTS_COMPLETE | E_BUDGET_EXHAUSTED | E_CANCELLED | E_FATAL_ERROR

datatype step_outcome = T_OK | T_ERROR | T_REJECTED | T_DENIED

datatype artifact_kind = K_EVIDENCE | K_SIMILAR | K_GAP | K_EXTERNAL | K_CANDIDATES | K_PLAN

fun kind_value :: "artifact_kind \<Rightarrow> string" where
  "kind_value K_EVIDENCE = ''evidence''"
| "kind_value K_SIMILAR = ''similar_works''"
| "kind_value K_GAP = ''gap_analysis''"
| "kind_value K_EXTERNAL = ''external_findings''"
| "kind_value K_CANDIDATES = ''novelty_candidates''"
| "kind_value K_PLAN = ''experiment_plan''"

definition ARTIFACT_KINDS :: "artifact_kind list" where
  "ARTIFACT_KINDS = [K_EVIDENCE, K_SIMILAR, K_GAP, K_EXTERNAL, K_CANDIDATES, K_PLAN]"

definition REQUIRED_ARTIFACT_KINDS :: "artifact_kind list" where
  "REQUIRED_ARTIFACT_KINDS = [K_EVIDENCE, K_SIMILAR, K_GAP]"

text \<open>\<open>ArtifactKind(raw)\<close>; \<open>None\<close> is its \<open>ValueError\<close>.\<close>

definition kind_of_value :: "string \<Rightarrow> artifact_kind option" where
  "kind_of_value raw = find (\<lambda>k. kind_value k = raw) ARTIFACT_KINDS"

datatype input_type = NATURAL_LANGUAGE | MANUSCRIPT

record manuscript_ref =
  mr_file :: string
  mr_content_type :: string
  mr_object_key :: "string option"
  mr_paper :: "string option"
  mr_record_ref :: "string option"

record nov_request =
  nq_input :: input_type
  nq_topic :: string
  nq_manuscript :: "manuscript_ref option"

text \<open>The checks of \<open>NoveltyJobRequest\<close> on its own fields; \<open>None\<close> is a validation error.\<close>

definition make_request :: "input_type \<Rightarrow> string \<Rightarrow> manuscript_ref option \<Rightarrow> nov_request option" where
  "make_request inp topic ms =
     (if length topic < 3 \<or> length topic > 2000 \<or> length (py_strip topic) < 3 then None
      else if inp = MANUSCRIPT \<and> ms = None then None
      else Some \<lparr>nq_input = inp, nq_topic = py_strip topic, nq_manuscript = ms\<rparr>)"

section \<open>Budgets\<close>

record nov_consumed =
  nc_iterations :: int
  nc_total :: int
  nc_calls :: "(string, int) dict"
  nc_cost :: rat

definition nothing_consumed :: nov_consumed where
  "nothing_consumed = \<lparr>nc_iterations = 0, nc_total = 0, nc_calls = [], nc_cost = 0\<rparr>"

record nov_budget =
  nb_max_iterations :: int
  nb_max_total :: int
  nb_caps :: "(string, int) dict"
  nb_groups :: "(string, string) dict"
  nb_cost_limit :: rat
  nb_consumed :: nov_consumed

datatype nov_denial = D_ITERATIONS | D_TOOL_CALLS | D_TOOL_CAP | D_COST

fun nov_denial_value :: "nov_denial \<Rightarrow> string" where
  "nov_denial_value D_ITERATIONS = ''iterations_exhausted''"
| "nov_denial_value D_TOOL_CALLS = ''tool_calls_exhausted''"
| "nov_denial_value D_TOOL_CAP = ''tool_cap_exhausted''"
| "nov_denial_value D_COST = ''cost_exhausted''"

definition out_of :: "string \<Rightarrow> int \<Rightarrow> int \<Rightarrow> string" where
  "out_of what a b = what @ '' '' @ py_int_str a @ ''/'' @ py_int_str b"

text \<open>The rules return the denial with its detail, and the budget they leave.\<close>

definition start_iteration :: "nov_budget \<Rightarrow> (nov_denial \<times> string) option \<times> nov_budget" where
  "start_iteration b =
     (let c = nb_consumed b in
      if nc_iterations c \<ge> nb_max_iterations b
      then (Some (D_ITERATIONS, out_of ''iterations'' (nc_iterations c) (nb_max_iterations b)), b)
      else (None, b\<lparr>nb_consumed := c\<lparr>nc_iterations := nc_iterations c + 1\<rparr>\<rparr>))"

definition cost_exhausted :: "nov_budget \<Rightarrow> bool" where
  "cost_exhausted b \<longleftrightarrow> nc_cost (nb_consumed b) \<ge> nb_cost_limit b"

definition group_used :: "nov_budget \<Rightarrow> string \<Rightarrow> int" where
  "group_used b g = sum_list (map snd (filter (\<lambda>tc. dget (nb_groups b) (fst tc) = Some g) (nc_calls (nb_consumed b))))"

definition calls_of :: "nov_consumed \<Rightarrow> string \<Rightarrow> int" where
  "calls_of c tool = (case dget (nc_calls c) tool of Some n \<Rightarrow> n | None \<Rightarrow> 0)"

definition consume_call :: "nov_budget \<Rightarrow> string \<Rightarrow> (nov_denial \<times> string) option \<times> nov_budget" where
  "consume_call b tool =
     (let c = nb_consumed b;
          capped = (case dget (nb_groups b) tool of
                      None \<Rightarrow> None
                    | Some g \<Rightarrow> (case dget (nb_caps b) g of
                                  None \<Rightarrow> None
                                | Some cap \<Rightarrow> if group_used b g \<ge> cap then Some (out_of g (group_used b g) cap) else None)) in
      if nc_total c \<ge> nb_max_total b then (Some (D_TOOL_CALLS, out_of ''tool calls'' (nc_total c) (nb_max_total b)), b)
      else case capped of
        Some detail \<Rightarrow> (Some (D_TOOL_CAP, detail), b)
      | None \<Rightarrow>
          if cost_exhausted b
          then (Some (D_COST, ''cost '' @ py_fixed 4 (nc_cost c) @ ''/'' @ py_fixed 4 (nb_cost_limit b) @ '' USD''), b)
          else (None, b\<lparr>nb_consumed := c\<lparr>nc_total := nc_total c + 1,
                                          nc_calls := dset tool (calls_of c tool + 1) (nc_calls c)\<rparr>\<rparr>))"

definition add_cost :: "rat \<Rightarrow> nov_budget \<Rightarrow> nov_exn + nov_budget" where
  "add_cost cost b =
     (if cost < 0 then Inl (NovOther ''cost_usd must be non-negative'')
      else Inr (b\<lparr>nb_consumed := (nb_consumed b)\<lparr>nc_cost := nc_cost (nb_consumed b) + cost\<rparr>\<rparr>))"

record nov_run =
  nr_budget :: nov_budget
  nr_reason :: "loop_end option"
  nr_started :: "rat option"
  nr_ended :: "rat option"

record nov_job =
  nj_id :: string
  nj_owner :: string
  nj_request :: nov_request
  nj_state :: job_state
  nj_run :: "nov_run option"
  nj_degraded :: "(string, string) dict"
  nj_cancel :: bool
  nj_error :: "string option"
  nj_created :: rat
  nj_updated :: rat
  nj_completed :: "rat option"

section \<open>Artifacts, traces and messages\<close>

type_synonym payload = "(string \<times> pyval) list"

record artifact =
  ar_id :: string
  ar_job :: string
  ar_owner :: string
  ar_kind :: artifact_kind
  ar_payload :: payload
  ar_created :: rat

record tool_trace =
  tt_job :: string
  tt_seq :: int
  tt_tool :: string
  tt_args :: string
  tt_note :: "string option"
  tt_result :: string
  tt_outcome :: step_outcome
  tt_cost :: "rat option"
  tt_started :: rat
  tt_finished :: rat

text \<open>What \<open>ToolCallRecord\<close> validates; a record it refuses cannot be built.\<close>

definition trace_ok :: "tool_trace \<Rightarrow> bool" where
  "trace_ok t \<longleftrightarrow> 1 \<le> tt_seq t \<and> 1 \<le> length (tt_tool t) \<and> length (tt_tool t) \<le> 64 \<and> length (tt_args t) \<le> 2000 \<and>
     (case tt_note t of Some n \<Rightarrow> length n \<le> 2000 | None \<Rightarrow> True) \<and> length (tt_result t) \<le> 2000 \<and>
     (case tt_cost t of Some x \<Rightarrow> 0 \<le> x | None \<Rightarrow> True)"

datatype chat_role = BY_USER | BY_AGENT
datatype chat_kind = C_STEERING | C_ON_DEMAND | C_REPLY | C_NOTICE

datatype chat_text =
    Typed string
  | BudgetGone
  | NotUnderstood
  | TraceLost
  | TurnProblem
  | SavedReply artifact_kind
  | GateRefused string
  | StepsGone
  | OnDemandUnavailable
  | LateSteering

record chat_message =
  cm_id :: string
  cm_job :: string
  cm_owner :: string
  cm_role :: chat_role
  cm_kind :: chat_kind
  cm_content :: chat_text
  cm_artifact :: "string option"
  cm_reply_to :: "string option"
  cm_created :: rat

fun typed_text :: "chat_text \<Rightarrow> string" where
  "typed_text (Typed s) = s"
| "typed_text _ = []"

text \<open>\<open>content[:12000]\<close> under \<open>min_length=1\<close>; the canned sentences are short and not empty.\<close>

fun fit_content :: "chat_text \<Rightarrow> chat_text option" where
  "fit_content (Typed s) = (if s = [] then None else Some (Typed (take 12000 s)))"
| "fit_content t = Some t"

datatype export_status = X_NOT_REQUESTED | X_PREVIEW_READY | X_APPROVED | X_EXPORTING | X_EXPORTED | X_FAILED

record notion_export =
  ne_id :: string
  ne_job :: string
  ne_owner :: string
  ne_status :: export_status
  ne_preview :: "string option"
  ne_page :: "string option"
  ne_approved :: "rat option"
  ne_exported :: "rat option"
  ne_error :: "string option"
  ne_created :: rat
  ne_updated :: rat

record notion_connection =
  nn_owner :: string
  nn_token :: string
  nn_page :: string
  nn_created :: rat
  nn_updated :: rat

section \<open>Tools\<close>

definition TOOL_FORM_EVIDENCE :: string where "TOOL_FORM_EVIDENCE = ''form_evidence''"
definition TOOL_SAVE_ARTIFACT :: string where "TOOL_SAVE_ARTIFACT = ''save_artifact''"

definition NOV_LOOP_TOOLS :: "string list" where
  "NOV_LOOP_TOOLS = [''corpus_search'', TOOL_FORM_EVIDENCE, ''github_search'', ''dataset_search'', ''view_figure'', TOOL_SAVE_ARTIFACT]"

record nov_image =
  im_media :: string
  im_data :: string
  im_asset :: string

record nov_result =
  rs_ok :: bool
  rs_content :: payload
  rs_summary :: string
  rs_refs :: "string list"
  rs_cost :: "rat option"
  rs_error :: "string option"
  rs_rejection :: "string option"
  rs_images :: "nov_image list"

definition failed_call :: "string \<Rightarrow> nov_result" where
  "failed_call err = \<lparr>rs_ok = False, rs_content = [], rs_summary = [], rs_refs = [], rs_cost = None, rs_error = Some err,
     rs_rejection = None, rs_images = []\<rparr>"

text \<open>A tool: its arguments, the owner and the job.\<close>

type_synonym 'w nov_tool = "payload \<Rightarrow> string \<Rightarrow> string \<Rightarrow> (nov_exn, 'w, nov_result) act"

record 'w tool_registry =
  tg_allowed :: "string list"
  tg_tools :: "(string, 'w nov_tool) dict"

definition new_registry :: "string list option \<Rightarrow> string + 'w tool_registry" where
  "new_registry names =
     (let allowed = (case names of Some ns \<Rightarrow> ns | None \<Rightarrow> NOV_LOOP_TOOLS) in
      if \<exists>n \<in> set allowed. contains_str ''notion'' (py_lower n) then Inl ''notion tools may never be allowlisted''
      else Inr \<lparr>tg_allowed = allowed, tg_tools = []\<rparr>)"

definition add_tool :: "string \<Rightarrow> 'w nov_tool \<Rightarrow> 'w tool_registry \<Rightarrow> string + 'w tool_registry" where
  "add_tool name tool r =
     (if name \<notin> set (tg_allowed r) then Inl (''tool may not join the loop registry: '' @ name)
      else if name \<in> set (dkeys (tg_tools r)) then Inl (''duplicate tool: '' @ name)
      else Inr (r\<lparr>tg_tools := dset name tool (tg_tools r)\<rparr>))"

section \<open>Queued jobs\<close>

record queued_job =
  qj_job :: string
  qj_owner :: string
  qj_receipt :: "string option"
  qj_kind :: string
  qj_message :: "string option"

definition KIND_LOOP :: string where "KIND_LOOP = ''loop''"
definition KIND_TURN :: string where "KIND_TURN = ''turn''"

definition to_payload :: "queued_job \<Rightarrow> payload" where
  "to_payload j =
     [(''job_id'', PStr (qj_job j)), (''owner_id'', PStr (qj_owner j))] @
     (if qj_kind j \<noteq> KIND_LOOP then [(''kind'', PStr (qj_kind j))] else []) @
     (case qj_message j of Some m \<Rightarrow> [(''message_id'', PStr m)] | None \<Rightarrow> [])"

text \<open>\<open>str(value)\<close> of a value that is not a text is left open; a missing key raises (\<open>None\<close>).\<close>

definition from_payload :: "(pyval \<Rightarrow> string) \<Rightarrow> payload \<Rightarrow> string option \<Rightarrow> queued_job option" where
  "from_payload other d receipt =
     (case (dget d ''job_id'', dget d ''owner_id'') of
        (Some j, Some w) \<Rightarrow>
          Some \<lparr>qj_job = py_str other j, qj_owner = py_str other w, qj_receipt = receipt,
                qj_kind = py_str other (py_or (pget d ''kind'') (PStr KIND_LOOP)),
                qj_message = (case pget d ''message_id'' of PNone \<Rightarrow> None | v \<Rightarrow> Some (py_str other v))\<rparr>
      | _ \<Rightarrow> None)"

section \<open>The activity feed\<close>

datatype feed_phrase = ToolPhrase string | OtherPhrase | GatePhrase | BudgetPhrase | RetryPhrase feed_phrase

record feed_item =
  fi_seq :: int
  fi_text :: feed_phrase
  fi_tool :: string
  fi_query :: string
  fi_at :: rat

definition feed_phrase_of :: "tool_trace \<Rightarrow> feed_phrase" where
  "feed_phrase_of t =
     (let base = (if tt_tool t \<in> set NOV_LOOP_TOOLS then ToolPhrase (tt_tool t) else OtherPhrase) in
      case tt_outcome t of
        T_OK \<Rightarrow> base
      | T_REJECTED \<Rightarrow> GatePhrase
      | T_DENIED \<Rightarrow> BudgetPhrase
      | T_ERROR \<Rightarrow> RetryPhrase base)"

definition project_feed :: "tool_trace list \<Rightarrow> feed_item list" where
  "project_feed ts =
     map (\<lambda>t. \<lparr>fi_seq = tt_seq t, fi_text = feed_phrase_of t, fi_tool = tt_tool t,
               fi_query = take 200 (tt_args t), fi_at = tt_finished t\<rparr>) ts"

end
