(* ===== verification/Nov_Gate.thy ===== *)
theory Nov_Gate imports Nov_Models begin

text \<open>
  The gate every artifact passes before it is stored (\<open>domain/gate.py\<close>). Payloads are untyped JSON;
  the payload models of \<open>domain/models.py\<close> and of the shared contract are checks of their declared
  fields. What the validation library does beyond that is a parameter: which texts it reads as an
  integer, what it reads as a boolean or an instant, and how it words an error. The details of a
  rejection stop before the advice the code appends to some of them.
\<close>

section \<open>Validation\<close>

record validation =
  vl_int_text :: "string \<Rightarrow> bool"
  vl_bool :: "pyval \<Rightarrow> bool"
  vl_instant :: "pyval \<Rightarrow> bool"
  vl_error :: "artifact_kind \<Rightarrow> payload \<Rightarrow> string"

text \<open>A text within bounds; a field that must be there, and one with a default.\<close>

definition text_in :: "nat \<Rightarrow> nat option \<Rightarrow> pyval \<Rightarrow> bool" where
  "text_in lo hi v = (case v of PStr s \<Rightarrow> lo \<le> length s \<and> (case hi of None \<Rightarrow> True | Some h \<Rightarrow> length s \<le> h) | _ \<Rightarrow> False)"

definition is_text :: "pyval \<Rightarrow> bool" where
  "is_text = text_in 0 None"

definition text_or_none :: "pyval \<Rightarrow> bool" where
  "text_or_none v \<longleftrightarrow> v = PNone \<or> is_text v"

definition one_of :: "string list \<Rightarrow> pyval \<Rightarrow> bool" where
  "one_of ss v = (case v of PStr s \<Rightarrow> s \<in> set ss | _ \<Rightarrow> False)"

definition integer_in :: "validation \<Rightarrow> pyval \<Rightarrow> bool" where
  "integer_in vl v = (case v of PInt n \<Rightarrow> True | PBool b \<Rightarrow> True | PFloat x \<Rightarrow> snd (quotient_of x) = 1 | PStr s \<Rightarrow> vl_int_text vl s | _ \<Rightarrow> False)"

definition must :: "payload \<Rightarrow> string \<Rightarrow> (pyval \<Rightarrow> bool) \<Rightarrow> bool" where
  "must d key p = (case dget d key of Some v \<Rightarrow> p v | None \<Rightarrow> False)"

definition may :: "payload \<Rightarrow> string \<Rightarrow> (pyval \<Rightarrow> bool) \<Rightarrow> bool" where
  "may d key p = (case dget d key of Some v \<Rightarrow> p v | None \<Rightarrow> True)"

definition none_or :: "(pyval \<Rightarrow> bool) \<Rightarrow> pyval \<Rightarrow> bool" where
  "none_or p v \<longleftrightarrow> v = PNone \<or> p v"

definition only_keys :: "payload \<Rightarrow> string list \<Rightarrow> bool" where
  "only_keys d keys \<longleftrightarrow> list_all (\<lambda>kv. fst kv \<in> set keys) d"

definition dict_of :: "pyval \<Rightarrow> payload option" where
  "dict_of v = (case v of PDict d \<Rightarrow> Some d | _ \<Rightarrow> None)"

definition json_text :: "pyval \<Rightarrow> string" where
  "json_text v = (case v of PStr s \<Rightarrow> s | _ \<Rightarrow> [])"

fun all_some :: "'a option list \<Rightarrow> 'a list option" where
  "all_some [] = Some []"
| "all_some (None # _) = None"
| "all_some (Some x # xs) = map_option ((#) x) (all_some xs)"

definition list_of :: "(pyval \<Rightarrow> 'a option) \<Rightarrow> pyval \<Rightarrow> 'a list option" where
  "list_of f v = (case v of PSeq xs \<Rightarrow> all_some (map f xs) | _ \<Rightarrow> None)"

definition check :: "bool \<Rightarrow> 'a \<Rightarrow> 'a option" where
  "check b x = (if b then Some x else None)"

text \<open>A list that may be left out, also by \<open>null\<close> (\<open>ArtifactPayloadModel\<close>).\<close>

definition list_field :: "(pyval \<Rightarrow> 'a option) \<Rightarrow> payload \<Rightarrow> string \<Rightarrow> 'a list option" where
  "list_field f d key = (case dget d key of None \<Rightarrow> Some [] | Some PNone \<Rightarrow> Some [] | Some v \<Rightarrow> list_of f v)"

text \<open>A list that must be there, with at least one element.\<close>

definition full_list :: "(pyval \<Rightarrow> 'a option) \<Rightarrow> payload \<Rightarrow> string \<Rightarrow> 'a list option" where
  "full_list f d key =
     (case Option.bind (dget d key) (list_of f) of Some (x # xs) \<Rightarrow> Some (x # xs) | _ \<Rightarrow> None)"

definition a_text :: "pyval \<Rightarrow> string option" where
  "a_text v = check (is_text v) (json_text v)"

section \<open>The payload models\<close>

text \<open>\<open>SourceRef\<close>: the gate reads its \<open>recordRef\<close>.\<close>

definition source_ref_of :: "pyval \<Rightarrow> string option" where
  "source_ref_of v = Option.bind (dict_of v) (\<lambda>d.
     check (only_keys d [''paperId'', ''recordRef'', ''namespace'', ''title'', ''anchor'', ''quote'', ''anchorType'', ''sourceScope''] \<and>
            must d ''paperId'' is_text \<and> must d ''recordRef'' is_text \<and>
            may d ''namespace'' (none_or (one_of [''arxiv'', ''doi'', ''userdoc'', ''attachment''])) \<and>
            may d ''title'' text_or_none \<and> may d ''anchor'' text_or_none \<and> may d ''quote'' text_or_none \<and>
            may d ''anchorType'' (none_or (one_of [''paragraph'', ''list'', ''code'', ''table'', ''figure'', ''formula''])) \<and>
            may d ''sourceScope'' (none_or (one_of [''fulltext'', ''abstract'', ''figure''])))
           (json_text (pget d ''recordRef'')))"

definition evidence_item_ok :: "pyval \<Rightarrow> bool" where
  "evidence_item_ok v = (case dict_of v of None \<Rightarrow> False | Some d \<Rightarrow>
     only_keys d [''statement'', ''supporting'', ''conflicting''] \<and> must d ''statement'' is_text \<and>
     must d ''supporting'' (\<lambda>x. list_of source_ref_of x \<noteq> None) \<and> must d ''conflicting'' (\<lambda>x. list_of source_ref_of x \<noteq> None))"

definition coverage_ok :: "validation \<Rightarrow> pyval \<Rightarrow> bool" where
  "coverage_ok vl v = (case dict_of v of None \<Rightarrow> False | Some d \<Rightarrow>
     only_keys d [''paperCount'', ''queryUsed'', ''examined'', ''candidates'', ''stoppedReason'', ''liveLookupDegraded''] \<and>
     must d ''paperCount'' (integer_in vl) \<and> may d ''queryUsed'' text_or_none \<and>
     may d ''examined'' (none_or (integer_in vl)) \<and> may d ''candidates'' (none_or (integer_in vl)) \<and>
     may d ''stoppedReason'' (none_or (one_of [''sufficient'', ''budget_exhausted'', ''partial_failure'', ''cancelled''])) \<and>
     may d ''liveLookupDegraded'' (none_or (vl_bool vl)))"

record evidence_snapshot =
  sp_state :: string
  sp_claims :: nat
  sp_abstain :: string

definition snapshot_of :: "validation \<Rightarrow> payload \<Rightarrow> evidence_snapshot option" where
  "snapshot_of vl d =
     Option.bind (list_field (\<lambda>v. check (evidence_item_ok v) ()) d ''claims'') (\<lambda>claims.
       check (must d ''state'' (one_of [''ok'', ''abstain'']) \<and> may d ''coverage'' (none_or (coverage_ok vl)) \<and>
              may d ''abstain_reason'' text_or_none)
             \<lparr>sp_state = json_text (pget d ''state''), sp_claims = length claims,
              sp_abstain = json_text (pget d ''abstain_reason'')\<rparr>)"

record similar_row =
  sw_title :: string
  sw_refs :: "string list"
  sw_supported :: bool

definition similar_of :: "pyval \<Rightarrow> similar_row option" where
  "similar_of v = Option.bind (dict_of v) (\<lambda>d. Option.bind (list_field source_ref_of d ''source_refs'') (\<lambda>refs.
     check (may d ''artifact_id'' is_text \<and> must d ''artifact_type'' (text_in 1 (Some 64)) \<and> must d ''title'' (text_in 1 (Some 500)) \<and>
            list_all (\<lambda>f. may d f text_or_none)
              [''problem_definition'', ''method'', ''dataset'', ''result'', ''limitation'', ''overlap_with_user_idea'', ''confidence''] \<and>
            may d ''evidence_status'' (one_of [''supported'', ''unsupported'', ''abstained'']))
           \<lparr>sw_title = json_text (pget d ''title''), sw_refs = refs,
            sw_supported = (pget d ''evidence_status'' = PStr ''supported'')\<rparr>))"

record gap_row =
  gp_area :: string
  gp_open :: bool
  gp_refs :: "string list"
  gp_scope :: string

definition gap_of :: "pyval \<Rightarrow> gap_row option" where
  "gap_of v = Option.bind (dict_of v) (\<lambda>d. Option.bind (list_field source_ref_of d ''source_refs'') (\<lambda>refs.
     Option.bind (list_field a_text d ''related_similar_work_ids'') (\<lambda>related.
     check (may d ''gap_id'' is_text \<and> must d ''area'' (text_in 1 (Some 500)) \<and>
            must d ''status'' (one_of [''well_covered'', ''partially_covered'', ''open_gap'']) \<and>
            must d ''rationale'' (text_in 1 None) \<and> may d ''searched_scope_note'' text_or_none)
           \<lparr>gp_area = json_text (pget d ''area''), gp_open = (pget d ''status'' = PStr ''open_gap''), gp_refs = refs,
            gp_scope = json_text (pget d ''searched_scope_note'')\<rparr>)))"

definition finding_of :: "validation \<Rightarrow> pyval \<Rightarrow> string option" where
  "finding_of vl v = Option.bind (dict_of v) (\<lambda>d. Option.bind (list_field a_text d ''metrics'') (\<lambda>metrics.
     check (must d ''source_type'' (one_of [''github'', ''dataset'']) \<and> must d ''canonical_id'' (text_in 1 (Some 512)) \<and>
            must d ''title'' (text_in 1 (Some 500)) \<and> must d ''url'' (text_in 1 (Some 1000)) \<and>
            may d ''license'' text_or_none \<and> may d ''task'' text_or_none \<and> may d ''baseline_or_code_hint'' text_or_none \<and>
            may d ''normalized_at'' (vl_instant vl))
           (json_text (pget d ''title''))))"

record candidate_row =
  cr_angle :: string
  cr_supporting :: "string list"
  cr_conflicting :: "string list"

definition candidate_of :: "pyval \<Rightarrow> candidate_row option" where
  "candidate_of v = Option.bind (dict_of v) (\<lambda>d. Option.bind (list_field source_ref_of d ''supporting_refs'') (\<lambda>sup.
     Option.bind (list_field source_ref_of d ''conflicting_refs'') (\<lambda>con.
     check (may d ''candidate_id'' is_text \<and> must d ''angle'' (text_in 1 None) \<and> must d ''rationale'' (text_in 1 None) \<and>
            may d ''feasibility_notes'' text_or_none \<and> must d ''excluded_claims'' (text_in 1 None))
           \<lparr>cr_angle = json_text (pget d ''angle''), cr_supporting = sup, cr_conflicting = con\<rparr>)))"

text \<open>\<open>ExperimentPlan\<close>: of its lists only the references are read.\<close>

definition plan_of :: "payload \<Rightarrow> string list option" where
  "plan_of d = Option.bind (full_list source_ref_of d ''source_refs'') (\<lambda>refs.
     check (must d ''hypothesis'' (text_in 1 None) \<and> must d ''novelty_angle'' (text_in 1 None) \<and>
            list_all (\<lambda>f. full_list a_text d f \<noteq> None)
              [''baselines'', ''datasets'', ''metrics'', ''procedure'', ''risks'', ''resources''])
           refs)"

section \<open>Keys and references anywhere in a payload\<close>

definition FORBIDDEN_CLAIM_KEYS :: "string list" where
  "FORBIDDEN_CLAIM_KEYS = [''novelty_score'', ''noveltyScore'', ''novelty_certainty'', ''noveltyCertainty'',
     ''publishability'', ''publishability_verdict'']"

fun first_some :: "'a option list \<Rightarrow> 'a option" where
  "first_some [] = None"
| "first_some (None # xs) = first_some xs"
| "first_some (Some x # xs) = Some x"

lemma first_some_cong [fundef_cong]:
  "xs = ys \<Longrightarrow> (\<And>y. y \<in> set ys \<Longrightarrow> f y = g y) \<Longrightarrow> first_some (map f xs) = first_some (map g ys)"
  by (simp cong: map_cong)

lemma dict_child_smaller [termination_simp]:
  "kv \<in> set d \<Longrightarrow> size (snd kv) < Suc (size_list (size_prod (\<lambda>_. 0) size) d)"
  by (cases kv) (auto simp: less_Suc_eq_le intro!: size_list_estimation')

fun find_forbidden_key :: "pyval \<Rightarrow> string option" where
  "find_forbidden_key (PDict d) =
     first_some (map (\<lambda>kv. if fst kv \<in> set FORBIDDEN_CLAIM_KEYS then Some (fst kv) else find_forbidden_key (snd kv)) d)"
| "find_forbidden_key (PSeq xs) = first_some (map find_forbidden_key xs)"
| "find_forbidden_key _ = None"

text \<open>\<open>collect_record_refs\<close>, which reads the references back from stored payloads.\<close>

fun collect_record_refs :: "pyval \<Rightarrow> string list" where
  "collect_record_refs (PDict d) =
     (case dget d ''recordRef'' of Some (PStr r) \<Rightarrow> if r = [] then [] else [r] | _ \<Rightarrow> []) @
     concat (map (\<lambda>kv. collect_record_refs (snd kv)) d)"
| "collect_record_refs (PSeq xs) = concat (map collect_record_refs xs)"
| "collect_record_refs _ = []"

section \<open>The gate\<close>

datatype gate_reason =
  G_INVALID_SHAPE | G_EMPTY_ARTIFACT | G_MISSING_SOURCE_REFS | G_UNKNOWN_SOURCE_REF | G_MISSING_SCOPE_NOTE |
  G_FORBIDDEN_CLAIM | G_UNSUPPORTED_KIND

fun gate_reason_value :: "gate_reason \<Rightarrow> string" where
  "gate_reason_value G_INVALID_SHAPE = ''invalid_shape''"
| "gate_reason_value G_EMPTY_ARTIFACT = ''empty_artifact''"
| "gate_reason_value G_MISSING_SOURCE_REFS = ''missing_source_refs''"
| "gate_reason_value G_UNKNOWN_SOURCE_REF = ''unknown_source_ref''"
| "gate_reason_value G_MISSING_SCOPE_NOTE = ''missing_scope_note''"
| "gate_reason_value G_FORBIDDEN_CLAIM = ''forbidden_claim''"
| "gate_reason_value G_UNSUPPORTED_KIND = ''unsupported_kind''"

datatype gate_rejection = GateRejection (gr_reason: gate_reason) (gr_detail: string)

definition ITEMS_CONTAINER_KINDS :: "artifact_kind list" where
  "ITEMS_CONTAINER_KINDS = [K_SIMILAR, K_GAP, K_EXTERNAL, K_CANDIDATES]"

definition items_of :: "payload \<Rightarrow> pyval list" where
  "items_of d = (case dget d ''items'' of Some (PSeq xs) \<Rightarrow> xs | _ \<Rightarrow> [])"

definition filled_list :: "pyval \<Rightarrow> bool" where
  "filled_list v = (case v of PSeq (x # xs) \<Rightarrow> True | _ \<Rightarrow> False)"

definition DQ :: string where "DQ = [CHR 0x22]"

fun join_with :: "string \<Rightarrow> string list \<Rightarrow> string" where
  "join_with sep [] = []"
| "join_with sep [s] = s"
| "join_with sep (s # ss) = s @ sep @ join_with sep ss"

definition items_shape_error :: "payload \<Rightarrow> string option" where
  "items_shape_error d =
     (case dget d ''items'' of
        Some (PSeq xs) \<Rightarrow> None
      | _ \<Rightarrow>
          (let arrays = map fst (filter (\<lambda>kv. filled_list (snd kv)) d) in
           if arrays = [] then None
           else Some (''items must be the top-level array key; found '' @
                      join_with '', '' (map (\<lambda>k. DQ @ take 60 k @ DQ) (take 5 arrays)) @ '' instead'')))"

definition check_refs_known :: "string list \<Rightarrow> string list \<Rightarrow> gate_rejection option" where
  "check_refs_known refs known =
     (case find (\<lambda>r. r \<notin> set known) refs of
        None \<Rightarrow> None
      | Some r \<Rightarrow> Some (GateRejection G_UNKNOWN_SOURCE_REF (''recordRef not in job evidence set: '' @ take 120 r)))"

definition check_snapshot :: "evidence_snapshot \<Rightarrow> gate_rejection option" where
  "check_snapshot s =
     (if sp_state s = ''ok'' \<and> sp_claims s = 0 then Some (GateRejection G_EMPTY_ARTIFACT ''ok evidence without claims'')
      else if sp_state s = ''abstain'' \<and> sp_abstain s = []
        then Some (GateRejection G_INVALID_SHAPE ''abstain evidence without abstain_reason'')
      else None)"

definition check_similar_row :: "string list \<Rightarrow> similar_row \<Rightarrow> gate_rejection option" where
  "check_similar_row known row =
     (if sw_supported row \<and> sw_refs row = []
      then Some (GateRejection G_MISSING_SOURCE_REFS (''supported row without source_refs: '' @ take 80 (sw_title row)))
      else check_refs_known (sw_refs row) known)"

definition check_gap_row :: "string list \<Rightarrow> gap_row \<Rightarrow> gate_rejection option" where
  "check_gap_row known row =
     (if gp_refs row = []
      then Some (GateRejection G_MISSING_SOURCE_REFS (''gap item without source_refs: '' @ take 80 (gp_area row)))
      else case check_refs_known (gp_refs row) known of
        Some e \<Rightarrow> Some e
      | None \<Rightarrow>
          if gp_open row \<and> py_strip (gp_scope row) = []
          then Some (GateRejection G_MISSING_SCOPE_NOTE (''open_gap without searched_scope_note: '' @ take 80 (gp_area row)))
          else None)"

definition check_candidate_row :: "string list \<Rightarrow> candidate_row \<Rightarrow> gate_rejection option" where
  "check_candidate_row known row =
     (if cr_supporting row = []
      then Some (GateRejection G_MISSING_SOURCE_REFS (''candidate without supporting_refs: '' @ take 80 (cr_angle row)))
      else check_refs_known (cr_supporting row) known)"

text \<open>The rows in order: the first that is refused decides.\<close>

definition check_rows :: "string \<Rightarrow> ('a \<Rightarrow> gate_rejection option) \<Rightarrow> 'a list \<Rightarrow> gate_rejection option" where
  "check_rows nothing f rows =
     (if rows = [] then Some (GateRejection G_EMPTY_ARTIFACT nothing) else first_some (map f rows))"

definition evaluate_artifact :: "validation \<Rightarrow> artifact_kind \<Rightarrow> payload \<Rightarrow> string list \<Rightarrow> gate_rejection option" where
  "evaluate_artifact vl kind d known =
     (let shape = (if kind \<in> set ITEMS_CONTAINER_KINDS then items_shape_error d else None) in
      case find_forbidden_key (PDict d) of
        Some key \<Rightarrow> Some (GateRejection G_FORBIDDEN_CLAIM (''forbidden claim key: '' @ key))
      | None \<Rightarrow>
          (case shape of
             Some e \<Rightarrow> Some (GateRejection G_INVALID_SHAPE e)
           | None \<Rightarrow>
               (case kind of
                  K_EVIDENCE \<Rightarrow> (case snapshot_of vl d of
                      None \<Rightarrow> Some (GateRejection G_INVALID_SHAPE (vl_error vl kind d)) | Some s \<Rightarrow> check_snapshot s)
                | K_SIMILAR \<Rightarrow> (case all_some (map similar_of (items_of d)) of
                      None \<Rightarrow> Some (GateRejection G_INVALID_SHAPE (vl_error vl kind d))
                    | Some rows \<Rightarrow> check_rows ''similar works table is empty'' (check_similar_row known) rows)
                | K_GAP \<Rightarrow> (case list_field gap_of d ''items'' of
                      None \<Rightarrow> Some (GateRejection G_INVALID_SHAPE (vl_error vl kind d))
                    | Some rows \<Rightarrow> check_rows ''gap analysis is empty'' (check_gap_row known) rows)
                | K_EXTERNAL \<Rightarrow> (case all_some (map (finding_of vl) (items_of d)) of
                      None \<Rightarrow> Some (GateRejection G_INVALID_SHAPE (vl_error vl kind d))
                    | Some rows \<Rightarrow> check_rows ''external findings empty'' (\<lambda>_. None) rows)
                | K_CANDIDATES \<Rightarrow> (case all_some (map candidate_of (items_of d)) of
                      None \<Rightarrow> Some (GateRejection G_INVALID_SHAPE (vl_error vl kind d))
                    | Some rows \<Rightarrow> check_rows ''candidates empty'' (check_candidate_row known) rows)
                | K_PLAN \<Rightarrow> (case plan_of d of
                      None \<Rightarrow> Some (GateRejection G_INVALID_SHAPE (vl_error vl kind d))
                    | Some refs \<Rightarrow> check_refs_known refs known))))"

end
