(* ===== verification/Nov_Store.thy ===== *)
theory Nov_Store imports Nov_Models begin

text \<open>
  The in-memory store and queue of the novelty agent (\<open>adapters/memory.py\<close>), the store the tests and
  a deployment without a database run on, and the contract the agent relies on: whoever
  else works on the store between two calls, artifacts and messages only appear by being saved,
  a job leaves a terminal state only by being deleted, and only the agent completes one.
\<close>

section \<open>The store\<close>

record nov_db =
  db_jobs :: "(string, nov_job) dict"
  db_artifacts :: "(string \<times> artifact_kind, artifact) dict"
  db_trace :: "(string, tool_trace list) dict"
  db_messages :: "(string, chat_message list) dict"
  db_exports :: "(string, notion_export) dict"
  db_connections :: "(string, notion_connection) dict"

definition dlist :: "('k, 'a list) dict \<Rightarrow> 'k \<Rightarrow> 'a list" where
  "dlist d k = (case dget d k of Some xs \<Rightarrow> xs | None \<Rightarrow> [])"

definition owned_job :: "string \<Rightarrow> string \<Rightarrow> nov_db \<Rightarrow> nov_job option" where
  "owned_job owner jid db = (case dget (db_jobs db) jid of Some j \<Rightarrow> if nj_owner j = owner then Some j else None | None \<Rightarrow> None)"

definition create_job :: "nov_job \<Rightarrow> nov_db \<Rightarrow> nov_db" where
  "create_job j db = db\<lparr>db_jobs := dset (nj_id j) j (db_jobs db)\<rparr>"

text \<open>The newest first, the identifier breaking ties; an unknown cursor raises.\<close>

definition job_newer :: "nov_job \<Rightarrow> nov_job \<Rightarrow> bool" where
  "job_newer a b \<longleftrightarrow> nj_created b < nj_created a \<or> (nj_created a = nj_created b \<and> nj_id b \<le> nj_id a)"

fun insert_job :: "nov_job \<Rightarrow> nov_job list \<Rightarrow> nov_job list" where
  "insert_job j [] = [j]"
| "insert_job j (k # ks) = (if job_newer j k then j # k # ks else k # insert_job j ks)"

definition after_cursor :: "('a \<Rightarrow> string) \<Rightarrow> string option \<Rightarrow> 'a list \<Rightarrow> nov_exn + 'a list" where
  "after_cursor key cursor xs =
     (case cursor of
        None \<Rightarrow> Inr xs
      | Some c \<Rightarrow>
          if c \<notin> set (map key xs) then Inl (KeyMissing (''unknown cursor: '' @ c))
          else Inr (drop 1 (dropWhile (\<lambda>x. key x \<noteq> c) xs)))"

definition list_jobs :: "string \<Rightarrow> string option \<Rightarrow> nat \<Rightarrow> nov_db \<Rightarrow> nov_exn + nov_job list" where
  "list_jobs owner cursor k db =
     (case after_cursor nj_id cursor (foldr insert_job (filter (\<lambda>j. nj_owner j = owner) (map snd (db_jobs db))) []) of
        Inl e \<Rightarrow> Inl e | Inr js \<Rightarrow> Inr (take k js))"

text \<open>Cancellation is a latch, and the first terminal state stays.\<close>

definition update_job :: "nov_job \<Rightarrow> nov_db \<Rightarrow> nov_exn + nov_db" where
  "update_job j db =
     (case dget (db_jobs db) (nj_id j) of
        None \<Rightarrow> Inl (KeyMissing (nj_id j))
      | Some old \<Rightarrow>
          if nj_state old \<in> set TERMINAL_STATES \<and> nj_state j \<noteq> nj_state old
          then Inl (InvalidTransition (''job is terminal: '' @ job_state_value (nj_state old)))
          else Inr (db\<lparr>db_jobs := dset (nj_id j) (j\<lparr>nj_cancel := nj_cancel j \<or> nj_cancel old\<rparr>) (db_jobs db)\<rparr>))"

definition delete_job :: "string \<Rightarrow> string \<Rightarrow> nov_db \<Rightarrow> bool \<times> nov_db" where
  "delete_job owner jid db =
     (case owned_job owner jid db of
        None \<Rightarrow> (False, db)
      | Some j \<Rightarrow>
          (True, db\<lparr>db_jobs := ddel jid (db_jobs db),
                    db_artifacts := filter (\<lambda>kv. fst (fst kv) \<noteq> jid) (db_artifacts db),
                    db_trace := ddel jid (db_trace db),
                    db_messages := ddel jid (db_messages db),
                    db_exports := ddel jid (db_exports db)\<rparr>))"

definition delete_all_jobs :: "string \<Rightarrow> nov_db \<Rightarrow> nat \<times> nov_db" where
  "delete_all_jobs owner db =
     (let ids = map nj_id (filter (\<lambda>j. nj_owner j = owner) (map snd (db_jobs db)))
      in fold (\<lambda>jid (n, d). let (gone, d') = delete_job owner jid d in (if gone then n + 1 else n, d')) ids (0, db))"

definition request_cancel :: "string \<Rightarrow> string \<Rightarrow> nov_db \<Rightarrow> bool \<times> nov_db" where
  "request_cancel owner jid db =
     (case owned_job owner jid db of
        None \<Rightarrow> (False, db)
      | Some j \<Rightarrow> (True, db\<lparr>db_jobs := dset jid (j\<lparr>nj_cancel := True\<rparr>) (db_jobs db)\<rparr>))"

definition is_cancel_requested :: "string \<Rightarrow> nov_db \<Rightarrow> bool" where
  "is_cancel_requested jid db = (case dget (db_jobs db) jid of Some j \<Rightarrow> nj_cancel j | None \<Rightarrow> False)"

definition list_stale_active :: "rat \<Rightarrow> nat \<Rightarrow> nov_db \<Rightarrow> nov_job list" where
  "list_stale_active before k db =
     take k (sort_key nj_updated (filter (\<lambda>j. nj_state j \<in> {J_RECEIVED, J_INVESTIGATING, J_REPORTING} \<and> nj_updated j < before)
       (map snd (db_jobs db))))"

text \<open>One artifact for each kind of a job, which keeps its identifier when it is saved again.\<close>

definition save_artifact :: "artifact \<Rightarrow> nov_db \<Rightarrow> string \<times> nov_db" where
  "save_artifact r db =
     (let key = (ar_job r, ar_kind r);
          stored = (case dget (db_artifacts db) key of Some old \<Rightarrow> r\<lparr>ar_id := ar_id old\<rparr> | None \<Rightarrow> r)
      in (ar_id stored, db\<lparr>db_artifacts := dset key stored (db_artifacts db)\<rparr>))"

definition list_artifacts :: "string \<Rightarrow> string \<Rightarrow> nov_db \<Rightarrow> artifact list" where
  "list_artifacts owner jid db =
     (if owned_job owner jid db = None then []
      else sort_key ar_created (map snd (filter (\<lambda>kv. fst (fst kv) = jid) (db_artifacts db))))"

definition next_trace_seq :: "string \<Rightarrow> nov_db \<Rightarrow> int" where
  "next_trace_seq jid db = (let ts = dlist (db_trace db) jid in if ts = [] then 1 else tt_seq (last ts) + 1)"

definition append_trace :: "tool_trace \<Rightarrow> nov_db \<Rightarrow> nov_exn + nov_db" where
  "append_trace t db =
     (let ts = dlist (db_trace db) (tt_job t) in
      if \<exists>u \<in> set ts. tt_seq u = tt_seq t then Inl (DuplicateTraceSeq (tt_job t @ '':'' @ py_int_str (tt_seq t)))
      else Inr (db\<lparr>db_trace := dset (tt_job t) (sort_key tt_seq (ts @ [t])) (db_trace db)\<rparr>))"

definition list_trace :: "string \<Rightarrow> string \<Rightarrow> int \<Rightarrow> nat \<Rightarrow> nov_db \<Rightarrow> tool_trace list" where
  "list_trace owner jid after_seq k db =
     (if owned_job owner jid db = None then []
      else take k (filter (\<lambda>t. tt_seq t > after_seq) (dlist (db_trace db) jid)))"

definition append_message :: "chat_message \<Rightarrow> nov_db \<Rightarrow> nov_db" where
  "append_message m db = db\<lparr>db_messages := dset (cm_job m) (dlist (db_messages db) (cm_job m) @ [m]) (db_messages db)\<rparr>"

definition get_message :: "string \<Rightarrow> string \<Rightarrow> string \<Rightarrow> nov_db \<Rightarrow> chat_message option" where
  "get_message owner jid mid db = find (\<lambda>m. cm_id m = mid \<and> cm_owner m = owner) (dlist (db_messages db) jid)"

definition list_messages :: "string \<Rightarrow> string \<Rightarrow> string option \<Rightarrow> nat \<Rightarrow> nov_db \<Rightarrow> nov_exn + chat_message list" where
  "list_messages owner jid cursor k db =
     (case after_cursor cm_id cursor (dlist (db_messages db) jid) of
        Inl e \<Rightarrow> Inl e
      | Inr ms \<Rightarrow> Inr (if owned_job owner jid db = None then [] else take k ms))"

definition get_export :: "string \<Rightarrow> string \<Rightarrow> nov_db \<Rightarrow> notion_export option" where
  "get_export owner jid db = (case dget (db_exports db) jid of Some x \<Rightarrow> if ne_owner x = owner then Some x else None | None \<Rightarrow> None)"

definition save_export :: "notion_export \<Rightarrow> nov_db \<Rightarrow> nov_db" where
  "save_export x db = db\<lparr>db_exports := dset (ne_job x) x (db_exports db)\<rparr>"

definition save_notion_connection :: "notion_connection \<Rightarrow> nov_db \<Rightarrow> nov_db" where
  "save_notion_connection c db = db\<lparr>db_connections := dset (nn_owner c) c (db_connections db)\<rparr>"

definition delete_notion_connection :: "string \<Rightarrow> nov_db \<Rightarrow> nov_db" where
  "delete_notion_connection owner db = db\<lparr>db_connections := ddel owner (db_connections db)\<rparr>"

section \<open>The store as the agent sees it\<close>

text \<open>
  The calls the agent makes. Each may raise, before or after it has taken effect. A clock and a
  source of fresh identifiers come with them.
\<close>

type_synonym ('w, 'a) nact = "(nov_exn, 'w, 'a) act"

record 'w nov_store =
  ns_update :: "nov_job \<Rightarrow> ('w, unit) nact"
  ns_job :: "string \<Rightarrow> ('w, nov_job option) nact"
  ns_cancelled :: "string \<Rightarrow> ('w, bool) nact"
  ns_save :: "artifact \<Rightarrow> ('w, string) nact"
  ns_artifacts :: "string \<Rightarrow> string \<Rightarrow> ('w, artifact list) nact"
  ns_next_seq :: "string \<Rightarrow> ('w, int) nact"
  ns_trace :: "tool_trace \<Rightarrow> ('w, unit) nact"
  ns_say :: "chat_message \<Rightarrow> ('w, unit) nact"
  ns_message :: "string \<Rightarrow> string \<Rightarrow> string \<Rightarrow> ('w, chat_message option) nact"
  ns_messages :: "string \<Rightarrow> string \<Rightarrow> string option \<Rightarrow> nat \<Rightarrow> ('w, chat_message list) nact"
  ns_stale :: "rat \<Rightarrow> nat \<Rightarrow> ('w, nov_job list) nact"
  ns_now :: "'w \<Rightarrow> rat \<times> 'w"
  ns_uuid :: "'w \<Rightarrow> string \<times> 'w"

section \<open>The contract\<close>

text \<open>What a step of anybody else may do to the data, and what a step of the agent may add.\<close>

definition job_state_in :: "nov_db \<Rightarrow> string \<Rightarrow> job_state option" where
  "job_state_in db jid = map_option nj_state (dget (db_jobs db) jid)"

definition kinds_in :: "nov_db \<Rightarrow> string \<Rightarrow> artifact_kind set" where
  "kinds_in db jid = {k. dget (db_artifacts db) (jid, k) \<noteq> None}"

definition stored_in :: "nov_db \<Rightarrow> artifact set" where
  "stored_in db = snd ` set (db_artifacts db)"

definition traces_in :: "nov_db \<Rightarrow> string \<Rightarrow> nat" where
  "traces_in db jid = length (dlist (db_trace db) jid)"

definition same_content :: "artifact \<Rightarrow> artifact \<Rightarrow> bool" where
  "same_content q r \<longleftrightarrow> ar_job q = ar_job r \<and> ar_kind q = ar_kind r \<and> ar_payload q = ar_payload r"

text \<open>
  From \<open>a\<close> to \<open>b\<close>: a job that is there was there before; it stays in a terminal state; it is completed
  only if the step may complete it; its kinds of artifacts and its traces only grow; and every
  artifact is an old one or one of \<open>fresh\<close>.
\<close>

definition job_moves :: "string set \<Rightarrow> nov_db \<Rightarrow> nov_db \<Rightarrow> string \<Rightarrow> bool" where
  "job_moves completed a b jid \<longleftrightarrow>
     (case job_state_in b jid of
        None \<Rightarrow> True
      | Some s \<Rightarrow>
          (case job_state_in a jid of
             None \<Rightarrow> False
           | Some t \<Rightarrow>
               (t \<in> set TERMINAL_STATES \<longrightarrow> s = t) \<and> (s = J_COMPLETED \<longrightarrow> t = J_COMPLETED \<or> jid \<in> completed) \<and>
               kinds_in a jid \<subseteq> kinds_in b jid \<and> traces_in a jid \<le> traces_in b jid))"

definition moves :: "string set \<Rightarrow> artifact set \<Rightarrow> nov_db \<Rightarrow> nov_db \<Rightarrow> bool" where
  "moves completed fresh a b \<longleftrightarrow>
     (\<forall>jid. job_moves completed a b jid) \<and>
     (\<forall>r \<in> stored_in b. \<exists>q \<in> stored_in a \<union> fresh. same_content q r)"

lemma job_moves_grow:
  "job_moves c a b jid \<Longrightarrow> job_state_in b jid \<noteq> None \<Longrightarrow>
     job_state_in a jid \<noteq> None \<and> kinds_in a jid \<subseteq> kinds_in b jid \<and> traces_in a jid \<le> traces_in b jid"
  by (auto simp: job_moves_def split: option.splits)

lemma job_moves_refl: "job_moves c a a jid"
  by (simp add: job_moves_def split: option.split)

lemma job_moves_trans: "job_moves c a b jid \<Longrightarrow> job_moves d b e jid \<Longrightarrow> job_moves (c \<union> d) a e jid"
  by (auto simp: job_moves_def split: option.splits)

lemma job_moves_mono: "job_moves c a b jid \<Longrightarrow> c \<subseteq> d \<Longrightarrow> job_moves d a b jid"
  by (auto simp: job_moves_def split: option.splits)

lemma same_refl [simp]: "same_content q q"
  by (simp add: same_content_def)

lemma moves_refl: "moves c f a a"
  unfolding moves_def using job_moves_refl same_refl by blast

lemma moves_trans: "moves c f a b \<Longrightarrow> moves d g b e \<Longrightarrow> moves (c \<union> d) (f \<union> g) a e"
proof -
  assume m: "moves c f a b" "moves d g b e"
  have "\<exists>q \<in> stored_in a \<union> (f \<union> g). same_content q r" if r: "r \<in> stored_in e" for r
  proof -
    obtain q where q: "q \<in> stored_in b \<union> g" "same_content q r" using m(2) r by (auto simp: moves_def)
    show ?thesis
    proof (cases "q \<in> g")
      case False
      then obtain p where "p \<in> stored_in a \<union> f" "same_content p q" using m(1) q(1) by (auto simp: moves_def)
      then show ?thesis using q(2) by (auto simp: same_content_def)
    qed (use q(2) in auto)
  qed
  then show ?thesis using m by (auto simp: moves_def intro: job_moves_trans)
qed

lemma moves_mono: "moves c f a b \<Longrightarrow> c \<subseteq> d \<Longrightarrow> f \<subseteq> g \<Longrightarrow> moves d g a b"
  unfolding moves_def by (blast intro: job_moves_mono)

lemma moves_step: "moves c f a b \<Longrightarrow> moves {} {} b e \<Longrightarrow> moves c f a e"
  using moves_trans by fastforce

text \<open>
  The contract of a store over a world: \<open>view\<close> reads the data out of the world, \<open>ok\<close> is its invariant.
\<close>

locale novelty_store =
  fixes st :: "'w nov_store" and view :: "'w \<Rightarrow> nov_db" and ok :: "'w \<Rightarrow> bool"
  assumes keeps_ok: "ok w \<Longrightarrow> ok (snd (ns_update st j w)) \<and> ok (snd (ns_job st jid w)) \<and> ok (snd (ns_cancelled st jid w)) \<and>
      ok (snd (ns_save st r w)) \<and> ok (snd (ns_artifacts st ow jid w)) \<and> ok (snd (ns_next_seq st jid w)) \<and>
      ok (snd (ns_trace st t w)) \<and> ok (snd (ns_say st m w)) \<and> ok (snd (ns_message st ow jid mid w)) \<and>
      ok (snd (ns_messages st ow jid cur n w)) \<and> ok (snd (ns_stale st tm n w)) \<and> ok (snd (ns_now st w)) \<and> ok (snd (ns_uuid st w))"
    and reads_move: "ok w \<Longrightarrow> moves {} {} (view w) (view (snd (ns_job st jid w))) \<and>
      moves {} {} (view w) (view (snd (ns_cancelled st jid w))) \<and> moves {} {} (view w) (view (snd (ns_artifacts st ow jid w))) \<and>
      moves {} {} (view w) (view (snd (ns_next_seq st jid w))) \<and> moves {} {} (view w) (view (snd (ns_say st m w))) \<and>
      moves {} {} (view w) (view (snd (ns_message st ow jid mid w))) \<and> moves {} {} (view w) (view (snd (ns_messages st ow jid cur n w))) \<and>
      moves {} {} (view w) (view (snd (ns_stale st tm n w))) \<and> moves {} {} (view w) (view (snd (ns_now st w))) \<and>
      moves {} {} (view w) (view (snd (ns_uuid st w))) \<and> moves {} {} (view w) (view (snd (ns_trace st t w)))"
    and update_moves: "ok w \<Longrightarrow> moves (if nj_state j = J_COMPLETED then {nj_id j} else {}) {} (view w) (view (snd (ns_update st j w)))"
    and save_moves: "ok w \<Longrightarrow> moves {} {r} (view w) (view (snd (ns_save st r w)))"
    and save_saves: "ok w \<Longrightarrow> ns_save st r w = (Inr i, w') \<Longrightarrow> ar_kind r \<in> kinds_in (view w') (ar_job r)"
    and artifacts_stored: "ok w \<Longrightarrow> ns_artifacts st ow jid w = (Inr rs, w') \<Longrightarrow> q \<in> set rs \<Longrightarrow>
      q \<in> stored_in (view w') \<and> ar_job q = jid \<and> ar_kind q \<in> kinds_in (view w') jid"
    and trace_traces: "ok w \<Longrightarrow> ns_trace st t w = (Inr (), w') \<Longrightarrow>
      job_state_in (view w') (tt_job t) = None \<or> traces_in (view w) (tt_job t) < traces_in (view w') (tt_job t)"

section \<open>The in-memory store among others\<close>

text \<open>
  Before each command something else may happen: nothing, a lost connection (before the command or
  after it), the owner cancelling, deleting or writing, or the sweep failing a job. The plan lists
  it; a world may have more parts.
\<close>

datatype outside =
    Nothing
  | LosesCommand
  | LosesAnswer
  | OwnerCancels string string
  | OwnerDeletes string string
  | OwnerWrites chat_message
  | SweepFails string string rat

record nov_world =
  nw_db :: nov_db
  nw_plan :: "outside list"
  nw_time :: rat
  nw_ids :: nat

text \<open>\<open>_mark_failed\<close> of another worker.\<close>

definition failed_job :: "string \<Rightarrow> rat \<Rightarrow> nov_job \<Rightarrow> nov_job" where
  "failed_job reason tm j = j\<lparr>nj_state := J_FAILED, nj_error := Some reason,
     nj_run := map_option (\<lambda>r. r\<lparr>nr_reason := Some E_FATAL_ERROR, nr_ended := Some tm\<rparr>) (nj_run j),
     nj_updated := tm, nj_completed := Some tm\<rparr>"

definition swept_db :: "string \<Rightarrow> string \<Rightarrow> rat \<Rightarrow> nov_db \<Rightarrow> nov_db" where
  "swept_db jid reason tm db =
     (case dget (db_jobs db) jid of
        None \<Rightarrow> db
      | Some j \<Rightarrow> if nj_state j \<in> set TERMINAL_STATES then db
                  else (case update_job (failed_job reason tm j) db of Inl e \<Rightarrow> db | Inr d \<Rightarrow> d))"

definition outside_step :: "outside \<Rightarrow> nov_db \<Rightarrow> nov_db" where
  "outside_step e db =
     (case e of
        OwnerCancels ow jid \<Rightarrow> snd (request_cancel ow jid db)
      | OwnerDeletes ow jid \<Rightarrow> snd (delete_job ow jid db)
      | OwnerWrites m \<Rightarrow> append_message m db
      | SweepFails jid reason tm \<Rightarrow> swept_db jid reason tm db
      | _ \<Rightarrow> db)"

definition store_command :: "(nov_db \<Rightarrow> (nov_exn + 'a) \<times> nov_db) \<Rightarrow> ('z nov_world_scheme, 'a) nact" where
  "store_command f w =
     (let e = (case nw_plan w of [] \<Rightarrow> Nothing | e # es \<Rightarrow> e);
          db = outside_step e (nw_db w);
          w = w\<lparr>nw_plan := drop 1 (nw_plan w), nw_db := db\<rparr>
      in if e = LosesCommand then (Inl (NovOther ''connection lost''), w)
         else case f db of (r, db') \<Rightarrow>
           (if e = LosesAnswer then Inl (NovOther ''connection lost'') else r, w\<lparr>nw_db := db'\<rparr>))"

definition store_read :: "(nov_db \<Rightarrow> nov_exn + 'a) \<Rightarrow> nov_db \<Rightarrow> (nov_exn + 'a) \<times> nov_db" where
  "store_read f db = (f db, db)"

definition store_write :: "(nov_db \<Rightarrow> nov_exn + nov_db) \<Rightarrow> nov_db \<Rightarrow> (nov_exn + unit) \<times> nov_db" where
  "store_write f db = (case f db of Inl e \<Rightarrow> (Inl e, db) | Inr d \<Rightarrow> (Inr (), d))"

definition memory_store :: "'z nov_world_scheme nov_store" where
  "memory_store = \<lparr>
     ns_update = (\<lambda>j. store_command (store_write (update_job j))),
     ns_job = (\<lambda>jid. store_command (store_read (\<lambda>db. Inr (dget (db_jobs db) jid)))),
     ns_cancelled = (\<lambda>jid. store_command (store_read (\<lambda>db. Inr (is_cancel_requested jid db)))),
     ns_save = (\<lambda>r. store_command (\<lambda>db. case save_artifact r db of (i, d) \<Rightarrow> (Inr i, d))),
     ns_artifacts = (\<lambda>ow jid. store_command (store_read (\<lambda>db. Inr (list_artifacts ow jid db)))),
     ns_next_seq = (\<lambda>jid. store_command (store_read (\<lambda>db. Inr (next_trace_seq jid db)))),
     ns_trace = (\<lambda>t. store_command (store_write (append_trace t))),
     ns_say = (\<lambda>m. store_command (store_write (\<lambda>db. Inr (append_message m db)))),
     ns_message = (\<lambda>ow jid mid. store_command (store_read (\<lambda>db. Inr (get_message ow jid mid db)))),
     ns_messages = (\<lambda>ow jid cur k. store_command (store_read (list_messages ow jid cur k))),
     ns_stale = (\<lambda>tm k. store_command (store_read (\<lambda>db. Inr (list_stale_active tm k db)))),
     ns_now = (\<lambda>w. (nw_time w, w\<lparr>nw_time := nw_time w + 1\<rparr>)),
     ns_uuid = (\<lambda>w. (''id-'' @ py_nat_str (nw_ids w), w\<lparr>nw_ids := nw_ids w + 1\<rparr>))\<rparr>"

section \<open>The in-memory store keeps the contract\<close>

definition keyed :: "nov_db \<Rightarrow> bool" where
  "keyed db \<longleftrightarrow> (\<forall>kr \<in> set (db_artifacts db). fst kr = (ar_job (snd kr), ar_kind (snd kr)))"

lemma dset_entries: "set (dset k v d) \<subseteq> insert (k, v) (set d)"
  by (induction d) (auto simp: dset_def)

lemma movesI: "(\<And>jid. job_moves c a b jid) \<Longrightarrow> stored_in b \<subseteq> stored_in a \<Longrightarrow> moves c f a b"
  unfolding moves_def using same_refl by blast

lemma same_jobs_move:
  assumes "\<And>jid. job_state_in b jid = job_state_in a jid" and "db_artifacts b = db_artifacts a" and "db_trace b = db_trace a"
  shows "moves {} {} a b"
  by (rule movesI) (use assms in \<open>auto simp: job_moves_def kinds_in_def traces_in_def stored_in_def split: option.split\<close>)

lemma cancel_moves: "moves {} {} db (snd (request_cancel ow jid db)) \<and> (keyed db \<longrightarrow> keyed (snd (request_cancel ow jid db)))"
  by (auto simp: request_cancel_def owned_job_def job_state_in_def dict_simps moves_refl keyed_def
      split: option.split if_splits intro!: same_jobs_move)

lemma say_moves: "moves {} {} db (append_message m db) \<and> (keyed db \<longrightarrow> keyed (append_message m db))"
  by (auto simp: append_message_def job_state_in_def keyed_def intro!: same_jobs_move)

lemma dget_filter_job: "j \<noteq> jid \<Longrightarrow> dget (filter (\<lambda>kv. fst (fst kv) \<noteq> jid) d) (j, k) = dget d (j, k)"
  by (induction d) (auto simp: dict_simps)

lemma delete_moves: "moves {} {} db (snd (delete_job ow jid db)) \<and> (keyed db \<longrightarrow> keyed (snd (delete_job ow jid db)))"
proof (cases "owned_job ow jid db")
  case None
  then show ?thesis by (simp add: delete_job_def moves_refl)
next
  case (Some j)
  let ?b = "snd (delete_job ow jid db)"
  have "job_moves {} db ?b k" for k
    by (cases "k = jid")
      (auto simp: job_moves_def delete_job_def Some job_state_in_def kinds_in_def traces_in_def dlist_def dict_simps dget_filter_job
        split: option.split)
  moreover have "stored_in ?b \<subseteq> stored_in db" by (auto simp: delete_job_def Some stored_in_def)
  ultimately have "moves {} {} db ?b" by (rule movesI)
  then show ?thesis by (auto simp: keyed_def delete_job_def Some)
qed

lemma update_job_moves:
  "moves (if nj_state j = J_COMPLETED then {nj_id j} else {}) {} db (snd (store_write (update_job j) db)) \<and>
   (keyed db \<longrightarrow> keyed (snd (store_write (update_job j) db)))"
proof (cases "update_job j db")
  case (Inl e)
  then show ?thesis by (simp add: store_write_def moves_refl)
next
  case (Inr b)
  then have b: "db_artifacts b = db_artifacts db" "db_trace b = db_trace db"
    and s: "job_moves (if nj_state j = J_COMPLETED then {nj_id j} else {}) db b k" for k
    by (auto simp: update_job_def job_moves_def job_state_in_def kinds_in_def traces_in_def dict_simps
        split: option.splits if_splits)
  have "moves (if nj_state j = J_COMPLETED then {nj_id j} else {}) {} db b"
    by (rule movesI [OF s]) (simp add: stored_in_def b)
  then show ?thesis by (simp add: store_write_def Inr keyed_def b)
qed

lemma swept_moves: "moves {} {} db (swept_db jid reason tm db) \<and> (keyed db \<longrightarrow> keyed (swept_db jid reason tm db))"
proof -
  have "nj_state (failed_job reason tm j) \<noteq> J_COMPLETED" for j by (simp add: failed_job_def)
  then show ?thesis using update_job_moves [of "failed_job reason tm j" db for j]
    by (auto simp: swept_db_def store_write_def moves_refl split: option.split sum.split) (metis sum.simps snd_conv)+
qed

lemma outside_moves: "moves {} {} db (outside_step e db) \<and> (keyed db \<longrightarrow> keyed (outside_step e db))"
  by (cases e) (simp_all add: outside_step_def moves_refl cancel_moves delete_moves say_moves swept_moves)

lemma save_artifact_moves:
  "moves {} {r} db (snd (save_artifact r db)) \<and> (keyed db \<longrightarrow> keyed (snd (save_artifact r db))) \<and>
   ar_kind r \<in> kinds_in (snd (save_artifact r db)) (ar_job r)"
proof -
  obtain i where i: "snd (save_artifact r db) =
      db\<lparr>db_artifacts := dset (ar_job r, ar_kind r) (r\<lparr>ar_id := i\<rparr>) (db_artifacts db)\<rparr>"
  proof (cases "dget (db_artifacts db) (ar_job r, ar_kind r)")
    case None
    have "r\<lparr>ar_id := ar_id r\<rparr> = r" by simp
    with None that [of "ar_id r"] show thesis by (simp add: save_artifact_def Let_def)
  next
    case (Some old)
    with that [of "ar_id old"] show thesis by (simp add: save_artifact_def Let_def)
  qed
  have s: "set (db_artifacts (snd (save_artifact r db))) \<subseteq> insert ((ar_job r, ar_kind r), r\<lparr>ar_id := i\<rparr>) (set (db_artifacts db))"
    using dset_entries by (fastforce simp: i)
  have "job_moves {} db (snd (save_artifact r db)) k" for k
    by (auto simp: i job_moves_def job_state_in_def kinds_in_def traces_in_def dict_simps split: option.split)
  moreover have "\<exists>q \<in> stored_in db \<union> {r}. same_content q x" if x: "x \<in> stored_in (snd (save_artifact r db))" for x
  proof -
    have "x = r\<lparr>ar_id := i\<rparr> \<or> x \<in> stored_in db" using x s by (auto simp: stored_in_def)
    then show ?thesis using same_refl by (auto simp: same_content_def)
  qed
  moreover have "keyed db \<longrightarrow> keyed (snd (save_artifact r db))" using s by (auto simp: keyed_def)
  moreover have "ar_kind r \<in> kinds_in (snd (save_artifact r db)) (ar_job r)" by (simp add: i kinds_in_def dict_simps)
  ultimately show ?thesis by (simp add: moves_def)
qed

lemma append_trace_moves:
  "moves {} {} db (snd (store_write (append_trace t) db)) \<and> (keyed db \<longrightarrow> keyed (snd (store_write (append_trace t) db))) \<and>
   (fst (store_write (append_trace t) db) = Inr () \<longrightarrow>
      traces_in (snd (store_write (append_trace t) db)) (tt_job t) = Suc (traces_in db (tt_job t)))"
proof (cases "append_trace t db")
  case (Inl e)
  then show ?thesis by (simp add: store_write_def moves_refl)
next
  case (Inr b)
  then have b: "b = db\<lparr>db_trace := dset (tt_job t) (sort_key tt_seq (dlist (db_trace db) (tt_job t) @ [t])) (db_trace db)\<rparr>"
    by (auto simp: append_trace_def Let_def split: if_splits)
  have "job_moves {} db b k" for k
    by (auto simp: b job_moves_def job_state_in_def kinds_in_def traces_in_def dlist_def dict_simps split: option.split)
  then have "moves {} {} db b" by (rule movesI) (simp add: b stored_in_def)
  then show ?thesis by (simp add: store_write_def Inr keyed_def) (simp add: b traces_in_def dlist_def dict_simps)
qed

lemma command_moves:
  assumes f: "\<And>db. moves c g db (snd (f db)) \<and> (keyed db \<longrightarrow> keyed (snd (f db)))" and ok: "keyed (nw_db w)"
  shows "moves c g (nw_db w) (nw_db (snd (store_command f w))) \<and> keyed (nw_db (snd (store_command f w)))"
proof -
  define e where "e = (case nw_plan w of [] \<Rightarrow> Nothing | e # es \<Rightarrow> e)"
  let ?db = "outside_step e (nw_db w)"
  have o: "moves {} {} (nw_db w) ?db" "keyed ?db" using outside_moves ok by auto
  have both: "moves c g (nw_db w) (snd (f ?db))" using moves_trans [OF o(1)] f by fastforce
  have first: "moves c g (nw_db w) ?db" using o(1) by (rule moves_mono) auto
  obtain r d where r: "f ?db = (r, d)" by force
  show ?thesis using both first o(2) f [of ?db] r by (cases "e = LosesCommand") (auto simp: store_command_def Let_def simp flip: e_def)
qed

lemma command_result:
  assumes "store_command f w = (Inr x, w')"
  obtains e where "f (outside_step e (nw_db w)) = (Inr x, nw_db w')"
  using assms by (auto simp: store_command_def Let_def split: if_splits prod.splits)

lemma read_moves: "moves {} {} db (snd (store_read f db)) \<and> (keyed db \<longrightarrow> keyed (snd (store_read f db)))"
  by (simp add: store_read_def moves_refl)

lemma read_command:
  "keyed (nw_db w) \<Longrightarrow> moves {} {} (nw_db w) (nw_db (snd (store_command (store_read f) w))) \<and>
     keyed (nw_db (snd (store_command (store_read f) w)))"
  by (rule command_moves [OF read_moves])

lemma say_command:
  "keyed (nw_db w) \<Longrightarrow> moves {} {} (nw_db w) (nw_db (snd (store_command (store_write (\<lambda>d. Inr (append_message m d))) w))) \<and>
     keyed (nw_db (snd (store_command (store_write (\<lambda>d. Inr (append_message m d))) w)))"
  by (rule command_moves) (simp_all add: store_write_def say_moves)

lemma save_command: "moves {} {r} db (snd (case save_artifact r db of (i, d) \<Rightarrow> (Inr i, d))) \<and>
    (keyed db \<longrightarrow> keyed (snd (case save_artifact r db of (i, d) \<Rightarrow> (Inr i, d))))"
  using save_artifact_moves by (simp split: prod.split) (metis snd_conv)

lemma listed_artifacts:
  "keyed db \<Longrightarrow> q \<in> set (list_artifacts ow jid db) \<Longrightarrow> q \<in> stored_in db \<and> ar_job q = jid \<and> ar_kind q \<in> kinds_in db jid"
  by (auto simp: list_artifacts_def keyed_def stored_in_def kinds_in_def dget_None_iff dkeys_def split: if_splits) force+

interpretation memory: novelty_store memory_store nw_db "\<lambda>w. keyed (nw_db w)"
proof unfold_locales
  fix w :: "'z nov_world_scheme" and j jid r ow t m mid cur n tm i rs q w'
  assume ok: "keyed (nw_db w)"
  note all = read_command [OF ok] say_command [OF ok] command_moves [OF save_command ok, of r] command_moves [OF update_job_moves ok, of j]
  have tr: "moves {} {} (nw_db w) (nw_db (snd (store_command (store_write (append_trace t)) w))) \<and>
      keyed (nw_db (snd (store_command (store_write (append_trace t)) w)))" for t
    by (rule command_moves [OF _ ok]) (simp add: append_trace_moves)
  show "keyed (nw_db (snd (ns_update memory_store j w))) \<and> keyed (nw_db (snd (ns_job memory_store jid w))) \<and>
      keyed (nw_db (snd (ns_cancelled memory_store jid w))) \<and> keyed (nw_db (snd (ns_save memory_store r w))) \<and>
      keyed (nw_db (snd (ns_artifacts memory_store ow jid w))) \<and> keyed (nw_db (snd (ns_next_seq memory_store jid w))) \<and>
      keyed (nw_db (snd (ns_trace memory_store t w))) \<and> keyed (nw_db (snd (ns_say memory_store m w))) \<and>
      keyed (nw_db (snd (ns_message memory_store ow jid mid w))) \<and> keyed (nw_db (snd (ns_messages memory_store ow jid cur n w))) \<and>
      keyed (nw_db (snd (ns_stale memory_store tm n w))) \<and> keyed (nw_db (snd (ns_now memory_store w))) \<and>
      keyed (nw_db (snd (ns_uuid memory_store w)))"
    by (simp add: memory_store_def all tr ok)
  show "moves {} {} (nw_db w) (nw_db (snd (ns_job memory_store jid w))) \<and>
      moves {} {} (nw_db w) (nw_db (snd (ns_cancelled memory_store jid w))) \<and>
      moves {} {} (nw_db w) (nw_db (snd (ns_artifacts memory_store ow jid w))) \<and>
      moves {} {} (nw_db w) (nw_db (snd (ns_next_seq memory_store jid w))) \<and>
      moves {} {} (nw_db w) (nw_db (snd (ns_say memory_store m w))) \<and>
      moves {} {} (nw_db w) (nw_db (snd (ns_message memory_store ow jid mid w))) \<and>
      moves {} {} (nw_db w) (nw_db (snd (ns_messages memory_store ow jid cur n w))) \<and>
      moves {} {} (nw_db w) (nw_db (snd (ns_stale memory_store tm n w))) \<and>
      moves {} {} (nw_db w) (nw_db (snd (ns_now memory_store w))) \<and>
      moves {} {} (nw_db w) (nw_db (snd (ns_uuid memory_store w))) \<and>
      moves {} {} (nw_db w) (nw_db (snd (ns_trace memory_store t w)))"
    by (simp add: memory_store_def moves_refl all tr)
  show "moves (if nj_state j = J_COMPLETED then {nj_id j} else {}) {} (nw_db w) (nw_db (snd (ns_update memory_store j w)))"
    by (simp add: memory_store_def all)
  show "moves {} {r} (nw_db w) (nw_db (snd (ns_save memory_store r w)))" by (simp add: memory_store_def all)
  show "ar_kind r \<in> kinds_in (nw_db w') (ar_job r)" if "ns_save memory_store r w = (Inr i, w')"
  proof -
    have "store_command (\<lambda>db. case save_artifact r db of (i, d) \<Rightarrow> (Inr i, d)) w = (Inr i, w')"
      using that by (simp add: memory_store_def)
    then obtain e where "(case save_artifact r (outside_step e (nw_db w)) of (i, d) \<Rightarrow> (Inr i, d)) = (Inr i :: nov_exn + string, nw_db w')"
      by (rule command_result)
    then have "snd (save_artifact r (outside_step e (nw_db w))) = nw_db w'" by (auto split: prod.splits)
    then show ?thesis using save_artifact_moves [of r "outside_step e (nw_db w)"] by simp
  qed
  show "q \<in> stored_in (nw_db w') \<and> ar_job q = jid \<and> ar_kind q \<in> kinds_in (nw_db w') jid"
    if run: "ns_artifacts memory_store ow jid w = (Inr rs, w')" and q: "q \<in> set rs"
  proof -
    obtain e where e: "store_read (\<lambda>db. Inr (list_artifacts ow jid db)) (outside_step e (nw_db w)) = (Inr rs, nw_db w')"
      using run by (auto simp: memory_store_def elim: command_result)
    have "keyed (outside_step e (nw_db w))" using outside_moves ok by blast
    then show ?thesis using e q listed_artifacts by (auto simp: store_read_def)
  qed
  show "job_state_in (nw_db w') (tt_job t) = None \<or> traces_in (nw_db w) (tt_job t) < traces_in (nw_db w') (tt_job t)"
    if run: "ns_trace memory_store t w = (Inr (), w')"
  proof -
    obtain e where e: "store_write (append_trace t) (outside_step e (nw_db w)) = (Inr (), nw_db w')"
      using run by (auto simp: memory_store_def elim: command_result)
    have "job_moves {} (nw_db w) (outside_step e (nw_db w)) (tt_job t)" using outside_moves by (simp add: moves_def)
    moreover have "job_moves {} (outside_step e (nw_db w)) (nw_db w') (tt_job t)"
      using append_trace_moves [of "outside_step e (nw_db w)" t] e by (simp add: moves_def)
    moreover have "traces_in (nw_db w') (tt_job t) = Suc (traces_in (outside_step e (nw_db w)) (tt_job t))"
      using append_trace_moves [of "outside_step e (nw_db w)" t] e by simp
    ultimately show ?thesis by (metis job_moves_grow less_Suc_eq_le)
  qed
qed

end
