(* ===== verification/Nov_Step.thy ===== *)
theory Nov_Step imports Nov_Gate Nov_Store begin

text \<open>
  One step of the agent, shared by the autonomous loop and the chat turn (\<open>domain/agent_step.py\<close>,
  \<open>ports/llm.py\<close>): the context of a run, steering, the observation, the execution of a tool under the
  budget, the only way to store an artifact, and the decision trace.

  The agent changes its own objects (the job and the context) and the world behind its ports; all
  of them are its state. The language model and the tools are actions on the world. \<open>json.dumps\<close> and
  \<open>str\<close> of a value that is not a text are parameters.
\<close>

section \<open>Ports and context\<close>

datatype nov_note =
    N_Resumed "artifact_kind list"
  | N_Steering nat
  | N_ToolCap string
  | N_Refused "artifact_kind list"
  | N_Abstained
  | N_EvidenceMalformed
  | N_EvidenceRejected gate_reason
  | N_SavedThisTurn

record result_view =
  rv_seq :: nat
  rv_tool :: string
  rv_ok :: bool
  rv_content :: payload
  rv_error :: "string option"
  rv_images :: "nov_image list"
  rv_args :: string

record nov_context =
  cx_refs :: "string list"
  cx_results :: "result_view list"
  cx_notes :: "nov_note list"
  cx_saved :: "artifact_kind list"
  cx_trace_failures :: nat
  cx_tool_failures :: "(string, nat) dict"
  cx_seq :: nat
  cx_steering :: "string list"
  cx_cursor :: "string option"
  cx_last :: "(artifact_kind \<times> string) option"

definition empty_context :: nov_context where
  "empty_context = \<lparr>cx_refs = [], cx_results = [], cx_notes = [], cx_saved = [], cx_trace_failures = 0,
     cx_tool_failures = [], cx_seq = 0, cx_steering = [], cx_cursor = None, cx_last = None\<rparr>"

datatype agent_mode = LOOP_MODE | TURN_MODE

record nov_observation =
  nob_topic :: string
  nob_input :: input_type
  nob_results :: "result_view list"
  nob_saved :: "artifact_kind list"
  nob_missing :: "artifact_kind list"
  nob_iterations :: int
  nob_calls :: int
  nob_cost :: rat
  nob_notes :: "nov_note list"
  nob_steering :: "string list"
  nob_mode :: agent_mode
  nob_request :: "chat_text option"

datatype nov_proposal =
    Call (pr_tool: string) (pr_args: payload) (pr_note: "string option")
  | EndProposal (pr_reason: "string option")

record nov_decision =
  dc_proposal :: nov_proposal
  dc_cost :: "rat option"

record 'w nov_deps =
  nd_store :: "'w nov_store"
  nd_decide :: "nov_observation \<Rightarrow> string list \<Rightarrow> ('w, nov_decision) nact"
  nd_registry :: "'w tool_registry"
  nd_dumps :: "pyval \<Rightarrow> string"
  nd_str :: "pyval \<Rightarrow> string"
  nd_validation :: validation

record 'w agent =
  ag_job :: nov_job
  ag_cx :: nov_context
  ag_world :: 'w

text \<open>An action of the world, as one of the agent; the clock and the identifiers do not raise.\<close>

definition on_world :: "('w, 'a) nact \<Rightarrow> ('w agent, 'a) nact" where
  "on_world m s = (case m (ag_world s) of (r, w) \<Rightarrow> (r, s\<lparr>ag_world := w\<rparr>))"

definition draw :: "('w \<Rightarrow> 'a \<times> 'w) \<Rightarrow> ('w agent, 'a) nact" where
  "draw f s = (case f (ag_world s) of (x, w) \<Rightarrow> (Inr x, s\<lparr>ag_world := w\<rparr>))"

definition set_job :: "(nov_job \<Rightarrow> nov_job) \<Rightarrow> ('w agent, unit) nact" where
  "set_job f = smod (\<lambda>s. s\<lparr>ag_job := f (ag_job s)\<rparr>)"

definition set_cx :: "(nov_context \<Rightarrow> nov_context) \<Rightarrow> ('w agent, unit) nact" where
  "set_cx f = smod (\<lambda>s. s\<lparr>ag_cx := f (ag_cx s)\<rparr>)"

definition note_down :: "nov_note \<Rightarrow> ('w agent, unit) nact" where
  "note_down n = set_cx (\<lambda>c. c\<lparr>cx_notes := cx_notes c @ [n]\<rparr>)"

definition from_job :: "(nov_job \<Rightarrow> ('w agent, 'a) nact) \<Rightarrow> ('w agent, 'a) nact" where
  "from_job f = sbind (sget ag_job) f"

definition from_cx :: "(nov_context \<Rightarrow> ('w agent, 'a) nact) \<Rightarrow> ('w agent, 'a) nact" where
  "from_cx f = sbind (sget ag_cx) f"

definition last_n :: "nat \<Rightarrow> 'a list \<Rightarrow> 'a list" where
  "last_n n xs = drop (length xs - n) xs"

section \<open>The budget inside the job\<close>

definition job_budget :: "nov_job \<Rightarrow> nov_budget option" where
  "job_budget j = map_option nr_budget (nj_run j)"

definition put_budget :: "nov_budget \<Rightarrow> nov_job \<Rightarrow> nov_job" where
  "put_budget b j = j\<lparr>nj_run := map_option (\<lambda>r. r\<lparr>nr_budget := b\<rparr>) (nj_run j)\<rparr>"

definition with_budget :: "(nov_budget \<Rightarrow> ('w agent, 'a) nact) \<Rightarrow> ('w agent, 'a) nact" where
  "with_budget f = from_job (\<lambda>j. case job_budget j of None \<Rightarrow> sraise (NovOther ''no loop_run'') | Some b \<Rightarrow> f b)"

text \<open>Run a rule of the budget on the job's budget.\<close>

definition budget_rule :: "(nov_budget \<Rightarrow> 'a \<times> nov_budget) \<Rightarrow> ('w agent, 'a) nact" where
  "budget_rule f = with_budget (\<lambda>b. sbind (set_job (put_budget (snd (f b)))) (\<lambda>_. sret (fst (f b))))"

definition charge :: "rat option \<Rightarrow> ('w agent, unit) nact" where
  "charge cost =
     (case cost of
        None \<Rightarrow> sret ()
      | Some x \<Rightarrow>
          if x = 0 then sret ()
          else with_budget (\<lambda>b. case add_cost x b of Inl e \<Rightarrow> sraise e | Inr b' \<Rightarrow> set_job (put_budget b')))"

section \<open>The context\<close>

definition STEERING_WINDOW :: nat where "STEERING_WINDOW = 3"
definition STEERING_MAX_CHARS :: nat where "STEERING_MAX_CHARS = 400"
definition STEERING_FETCH_LIMIT :: nat where "STEERING_FETCH_LIMIT = 20"
definition RECENT_RESULTS_WINDOW :: nat where "RECENT_RESULTS_WINDOW = 6"
definition TRACE_FAILURE_HALT_AFTER :: nat where "TRACE_FAILURE_HALT_AFTER = 2"
definition TOOL_DEGRADED_AFTER :: nat where "TOOL_DEGRADED_AFTER = 2"

definition read_steering :: "chat_message list \<Rightarrow> ('w agent, nat) nact" where
  "read_steering ms =
     (if ms = [] then sret 0
      else let fresh = map (\<lambda>m. take STEERING_MAX_CHARS (typed_text (cm_content m))) (filter (\<lambda>m. cm_role m = BY_USER) ms) in
        sbind (set_cx (\<lambda>c. c\<lparr>cx_cursor := Some (cm_id (last ms))\<rparr>)) (\<lambda>_.
          if fresh = [] then sret 0
          else sbind (set_cx (\<lambda>c. c\<lparr>cx_steering := last_n STEERING_WINDOW (cx_steering c @ fresh)\<rparr>)) (\<lambda>_.
               sbind (note_down (N_Steering (length fresh))) (\<lambda>_. sret (length fresh)))))"

definition drain_steering :: "'w nov_deps \<Rightarrow> ('w agent, nat) nact" where
  "drain_steering d = from_job (\<lambda>j. from_cx (\<lambda>c.
     sbind (stry (sbind (on_world (ns_messages (nd_store d) (nj_owner j) (nj_id j) (cx_cursor c) STEERING_FETCH_LIMIT)) (\<lambda>ms. sret (Some ms)))
                 (\<lambda>e. case e of
                        KeyMissing k \<Rightarrow> sbind (set_cx (\<lambda>c. c\<lparr>cx_cursor := None\<rparr>)) (\<lambda>_. sret None)
                      | _ \<Rightarrow> sret None))
           (\<lambda>got. case got of None \<Rightarrow> sret 0 | Some ms \<Rightarrow> read_steering ms)))"

text \<open>The context of the saved artifacts and of the manuscript.\<close>

definition add_record :: "artifact \<Rightarrow> nov_context \<Rightarrow> nov_context" where
  "add_record r c = c\<lparr>cx_saved := List.insert (ar_kind r) (cx_saved c),
     cx_refs := cx_refs c @ collect_record_refs (PDict (ar_payload r))\<rparr>"

definition manuscript_refs :: "nov_job \<Rightarrow> string list" where
  "manuscript_refs j =
     (case Option.bind (nq_manuscript (nj_request j)) mr_record_ref of None \<Rightarrow> [] | Some r \<Rightarrow> if r = [] then [] else [r])"

definition seeded_context :: "nov_job \<Rightarrow> artifact list \<Rightarrow> nov_context" where
  "seeded_context j rs =
     (let c = fold add_record rs empty_context; c = c\<lparr>cx_refs := cx_refs c @ manuscript_refs j\<rparr>
      in if cx_saved c = [] then c else c\<lparr>cx_notes := cx_notes c @ [N_Resumed (cx_saved c)]\<rparr>)"

definition seed_context :: "'w nov_deps \<Rightarrow> artifact list option \<Rightarrow> bool \<Rightarrow> ('w agent, unit) nact" where
  "seed_context d given inherit_steering = from_job (\<lambda>j.
     sbind (case given of Some rs \<Rightarrow> sret rs | None \<Rightarrow> on_world (ns_artifacts (nd_store d) (nj_owner j) (nj_id j))) (\<lambda>rs.
     sbind (set_cx (\<lambda>_. seeded_context j rs)) (\<lambda>_.
     if inherit_steering then sbind (drain_steering d) (\<lambda>_. sret ()) else sret ())))"

definition consume_images :: "('w agent, unit) nact" where
  "consume_images = set_cx (\<lambda>c. c\<lparr>cx_results := map (\<lambda>v. v\<lparr>rv_images := []\<rparr>) (cx_results c)\<rparr>)"

definition build_observation ::
  "nov_job \<Rightarrow> nov_budget \<Rightarrow> nov_context \<Rightarrow> artifact_kind list \<Rightarrow> agent_mode \<Rightarrow> chat_text option \<Rightarrow> nov_observation" where
  "build_observation j b c missing md request =
     \<lparr>nob_topic = nq_topic (nj_request j), nob_input = nq_input (nj_request j), nob_results = cx_results c, nob_saved = cx_saved c,
      nob_missing = missing, nob_iterations = nb_max_iterations b - nc_iterations (nb_consumed b),
      nob_calls = nb_max_total b - nc_total (nb_consumed b), nob_cost = max (nb_cost_limit b - nc_cost (nb_consumed b)) 0,
      nob_notes = last_n 4 (cx_notes c), nob_steering = cx_steering c, nob_mode = md, nob_request = request\<rparr>"

text \<open>Best effort: a message that cannot be built or stored is dropped.\<close>

definition append_agent_message ::
  "'w nov_deps \<Rightarrow> chat_text \<Rightarrow> chat_kind \<Rightarrow> string option \<Rightarrow> string option \<Rightarrow> ('w agent, unit) nact" where
  "append_agent_message d content kind ref reply_to = from_job (\<lambda>j.
     stry (case fit_content content of
             None \<Rightarrow> sraise (NovOther ''validation'')
           | Some t \<Rightarrow>
               sbind (draw (ns_uuid (nd_store d))) (\<lambda>i. sbind (draw (ns_now (nd_store d))) (\<lambda>tm.
                 on_world (ns_say (nd_store d)
                   \<lparr>cm_id = i, cm_job = nj_id j, cm_owner = nj_owner j, cm_role = BY_AGENT, cm_kind = kind, cm_content = t,
                    cm_artifact = ref, cm_reply_to = reply_to, cm_created = tm\<rparr>))))
          (\<lambda>e. sret ()))"

definition persist_progress :: "'w nov_deps \<Rightarrow> ('w agent, unit) nact" where
  "persist_progress d =
     sbind (draw (ns_now (nd_store d))) (\<lambda>tm. sbind (set_job (\<lambda>j. j\<lparr>nj_updated := tm\<rparr>)) (\<lambda>_.
       from_job (\<lambda>j. stry (on_world (ns_update (nd_store d) j)) (\<lambda>e. sret ()))))"

section \<open>The trace\<close>

definition ELLIPSIS :: string where "ELLIPSIS = [CHR 0x85]"

definition summarize_arg :: "(pyval \<Rightarrow> string) \<Rightarrow> string \<times> pyval \<Rightarrow> string" where
  "summarize_arg dumps kv =
     (let t = (case snd kv of PStr s \<Rightarrow> s | v \<Rightarrow> dumps v)
      in fst kv @ ''='' @ (if length t > 120 then take 120 t @ ELLIPSIS else t))"

definition summarize_call :: "(pyval \<Rightarrow> string) \<Rightarrow> payload \<Rightarrow> string" where
  "summarize_call dumps args = take 2000 (join_with '', '' (map (summarize_arg dumps) (take 8 args)))"

definition try_trace :: "'w nov_deps \<Rightarrow> (int \<Rightarrow> tool_trace) \<Rightarrow> ('w agent, bool) nact" where
  "try_trace d mk = from_job (\<lambda>j.
     stry (sbind (on_world (ns_next_seq (nd_store d) (nj_id j))) (\<lambda>seq.
             if trace_ok (mk seq)
             then sbind (on_world (ns_trace (nd_store d) (mk seq))) (\<lambda>_.
                  sbind (set_cx (\<lambda>c. c\<lparr>cx_trace_failures := 0\<rparr>)) (\<lambda>_. sret True))
             else sraise (NovOther ''validation'')))
          (\<lambda>e. sret False))"

definition record_trace ::
  "'w nov_deps \<Rightarrow> string \<Rightarrow> string option \<Rightarrow> string \<Rightarrow> string \<Rightarrow> step_outcome \<Rightarrow> rat \<Rightarrow> rat option \<Rightarrow> ('w agent, unit) nact" where
  "record_trace d tool remark args result outc started cost = from_job (\<lambda>j.
     sbind (draw (ns_now (nd_store d))) (\<lambda>tm.
     let mk = (\<lambda>seq. \<lparr>tt_job = nj_id j, tt_seq = seq, tt_tool = tool, tt_args = args,
                     tt_note = (case remark of Some [] \<Rightarrow> None | n \<Rightarrow> n), tt_result = take 2000 result,
                     tt_outcome = outc, tt_cost = cost, tt_started = started, tt_finished = tm\<rparr>) in
     sbind (try_trace d mk) (\<lambda>first. if first then sret () else
     sbind (try_trace d mk) (\<lambda>second. if second then sret () else
     sbind (set_cx (\<lambda>c. c\<lparr>cx_trace_failures := cx_trace_failures c + 1\<rparr>)) (\<lambda>_.
     from_cx (\<lambda>c. if cx_trace_failures c \<ge> TRACE_FAILURE_HALT_AFTER then sraise TraceUnavailable else sret ()))))))"

section \<open>Storing\<close>

definition store_kind :: "'w nov_deps \<Rightarrow> artifact_kind \<Rightarrow> payload \<Rightarrow> ('w agent, unit) nact" where
  "store_kind d kind p = from_job (\<lambda>j.
     sbind (draw (ns_uuid (nd_store d))) (\<lambda>i. sbind (draw (ns_now (nd_store d))) (\<lambda>tm.
     sbind (on_world (ns_save (nd_store d)
        \<lparr>ar_id = i, ar_job = nj_id j, ar_owner = nj_owner j, ar_kind = kind, ar_payload = p, ar_created = tm\<rparr>)) (\<lambda>aid.
     set_cx (\<lambda>c. c\<lparr>cx_saved := List.insert kind (cx_saved c), cx_last := Some (kind, aid)\<rparr>)))))"

definition refused_result :: "payload \<Rightarrow> string \<Rightarrow> string \<Rightarrow> gate_reason \<Rightarrow> nov_result" where
  "refused_result content detail summary why =
     (failed_call (''rejected_by_gate: '' @ gate_reason_value why @ '': '' @ detail))
       \<lparr>rs_content := content, rs_summary := summary, rs_rejection := Some (gate_reason_value why)\<rparr>"

definition execute_save :: "'w nov_deps \<Rightarrow> payload \<Rightarrow> ('w agent, nov_result) nact" where
  "execute_save d args = from_cx (\<lambda>c.
     let raw = (case dget args ''kind'' of None \<Rightarrow> [] | Some v \<Rightarrow> py_str (nd_str d) v) in
     case kind_of_value raw of
       None \<Rightarrow> sret (refused_result [] (take 40 raw) [] G_UNSUPPORTED_KIND)
     | Some kind \<Rightarrow>
         (case dget args ''payload'' of
            Some (PDict p) \<Rightarrow>
              (case evaluate_artifact (nd_validation d) kind p (cx_refs c) of
                 Some e \<Rightarrow>
                   sret (refused_result
                     [(''rejected'', PDict [(''reason'', PStr (gate_reason_value (gr_reason e))), (''detail'', PStr (gr_detail e))])]
                     (gr_detail e) (''save rejected: '' @ gate_reason_value (gr_reason e) @ '': '' @ gr_detail e) (gr_reason e))
               | None \<Rightarrow>
                   sbind (store_kind d kind p) (\<lambda>_.
                     sret \<lparr>rs_ok = True, rs_content = [(''saved'', PStr (kind_value kind))], rs_summary = ''saved '' @ kind_value kind,
                           rs_refs = [], rs_cost = None, rs_error = None, rs_rejection = None, rs_images = []\<rparr>))
          | _ \<Rightarrow> sret (refused_result [] ''payload must be object'' [] G_INVALID_SHAPE)))"

definition auto_save_evidence :: "'w nov_deps \<Rightarrow> nov_result \<Rightarrow> ('w agent, string) nact" where
  "auto_save_evidence d res = from_cx (\<lambda>c.
     case dget (rs_content res) ''evidence'' of
       Some (PDict snapshot) \<Rightarrow>
         (case evaluate_artifact (nd_validation d) K_EVIDENCE snapshot (cx_refs c) of
            Some e \<Rightarrow> sbind (note_down (N_EvidenceRejected (gr_reason e))) (\<lambda>_.
              sret (''evidence auto-save rejected: '' @ gate_reason_value (gr_reason e)))
          | None \<Rightarrow> sbind (store_kind d K_EVIDENCE snapshot) (\<lambda>_. sret ''evidence saved''))
     | _ \<Rightarrow> sbind (note_down N_EvidenceMalformed) (\<lambda>_. sret ''evidence auto-save skipped: malformed content''))"

fun nov_exn_name :: "nov_exn \<Rightarrow> string" where
  "nov_exn_name (InvalidTransition _) = ''InvalidTransitionError''"
| "nov_exn_name (KeyMissing _) = ''KeyError''"
| "nov_exn_name (DuplicateTraceSeq _) = ''DuplicateTraceSeqError''"
| "nov_exn_name TraceUnavailable = ''TraceUnavailable''"
| "nov_exn_name (NovOther _) = ''Exception''"

definition strip_joint :: "string \<Rightarrow> string" where
  "strip_joint s = lstrip_by (\<lambda>c. c \<in> set ''; '') (rstrip_by (\<lambda>c. c \<in> set ''; '') s)"

definition finish_tool :: "'w nov_deps \<Rightarrow> string \<Rightarrow> nov_result \<Rightarrow> ('w agent, nov_result) nact" where
  "finish_tool d tool res =
     sbind (set_cx (\<lambda>c. c\<lparr>cx_refs := cx_refs c @ rs_refs res\<rparr>)) (\<lambda>_.
     if tool = TOOL_FORM_EVIDENCE \<and> rs_ok res
     then sbind (auto_save_evidence d res) (\<lambda>remark. sret (res\<lparr>rs_summary := strip_joint (rs_summary res @ ''; '' @ remark)\<rparr>))
     else sret res)"

definition execute_tool :: "'w nov_deps \<Rightarrow> string \<Rightarrow> payload \<Rightarrow> ('w agent, nov_result) nact" where
  "execute_tool d tool args = from_job (\<lambda>j.
     case dget (tg_tools (nd_registry d)) tool of
       None \<Rightarrow> sret (failed_call (''unknown tool: '' @ tool))
     | Some t \<Rightarrow>
         sbind (stry (sbind (on_world (t args (nj_owner j) (nj_id j))) (\<lambda>res. sret (Inr res)))
                     (\<lambda>e. sret (Inl (take 500 (nov_exn_name e @ '': '' @ nov_exn_text e)))))
               (\<lambda>got. case got of Inl err \<Rightarrow> sret (failed_call err) | Inr res \<Rightarrow> finish_tool d tool res))"

section \<open>The step\<close>

datatype step_result = S_CONTINUE | S_BUDGET_EXHAUSTED

definition push_view :: "string \<Rightarrow> string \<Rightarrow> nov_result \<Rightarrow> nov_context \<Rightarrow> nov_context" where
  "push_view tool args res c =
     c\<lparr>cx_seq := cx_seq c + 1,
       cx_results := last_n RECENT_RESULTS_WINDOW (cx_results c @
         [\<lparr>rv_seq = cx_seq c + 1, rv_tool = tool, rv_ok = rs_ok res, rv_content = rs_content res, rv_error = rs_error res,
           rv_images = rs_images res, rv_args = args\<rparr>])\<rparr>"

definition error_or :: "string \<Rightarrow> string option \<Rightarrow> string" where
  "error_or other err = (case err of None \<Rightarrow> other | Some e \<Rightarrow> if e = [] then other else e)"

definition failures_of :: "nov_context \<Rightarrow> string \<Rightarrow> nat" where
  "failures_of c tool = (case dget (cx_tool_failures c) tool of Some n \<Rightarrow> n | None \<Rightarrow> 0)"

text \<open>Bookkeeping of the outcome: consecutive failures of a tool degrade it.\<close>

definition settle_outcome :: "string \<Rightarrow> nov_result \<Rightarrow> ('w agent, step_outcome) nact" where
  "settle_outcome tool res =
     (if rs_ok res then sbind (set_cx (\<lambda>c. c\<lparr>cx_tool_failures := ddel tool (cx_tool_failures c)\<rparr>)) (\<lambda>_. sret T_OK)
      else if rs_rejection res \<noteq> None then sret T_REJECTED
      else sbind (set_cx (\<lambda>c. c\<lparr>cx_tool_failures := dset tool (failures_of c tool + 1) (cx_tool_failures c)\<rparr>)) (\<lambda>_.
           from_cx (\<lambda>c.
             if failures_of c tool \<ge> TOOL_DEGRADED_AFTER
             then sbind (set_job (\<lambda>j. j\<lparr>nj_degraded := dset tool (take 200 (error_or ''repeated failure'' (rs_error res))) (nj_degraded j)\<rparr>))
                        (\<lambda>_. sret T_ERROR)
             else sret T_ERROR)))"

definition summary_of_result :: "nov_result \<Rightarrow> string" where
  "summary_of_result res = (if rs_summary res \<noteq> [] then rs_summary res else take 500 (error_or [] (rs_error res)))"

definition after_execution :: "'w nov_deps \<Rightarrow> string \<Rightarrow> string option \<Rightarrow> string \<Rightarrow> rat \<Rightarrow> nov_result \<Rightarrow> ('w agent, step_result) nact" where
  "after_execution d tool remark args started res =
     sbind (charge (rs_cost res)) (\<lambda>_.
     sbind (set_cx (push_view tool args res)) (\<lambda>_.
     sbind (settle_outcome tool res) (\<lambda>outc.
     sbind (record_trace d tool remark args (summary_of_result res) outc started (rs_cost res)) (\<lambda>_. sret S_CONTINUE))))"

definition after_denial :: "'w nov_deps \<Rightarrow> string \<Rightarrow> string option \<Rightarrow> string \<Rightarrow> rat \<Rightarrow> nov_denial \<times> string \<Rightarrow> ('w agent, step_result) nact" where
  "after_denial d tool remark args started denial =
     sbind (record_trace d tool remark args (''budget denied: '' @ nov_denial_value (fst denial) @ '': '' @ snd denial) T_DENIED started None) (\<lambda>_.
     if fst denial = D_TOOL_CAP then sbind (note_down (N_ToolCap (snd denial))) (\<lambda>_. sret S_CONTINUE)
     else sret S_BUDGET_EXHAUSTED)"

definition execute_step :: "'w nov_deps \<Rightarrow> string \<Rightarrow> payload \<Rightarrow> string option \<Rightarrow> ('w agent, step_result) nact" where
  "execute_step d tool args remark =
     sbind (draw (ns_now (nd_store d))) (\<lambda>started.
     let summary = summarize_call (nd_dumps d) args in
     sbind (budget_rule (\<lambda>b. consume_call b tool)) (\<lambda>denied.
     case denied of
       Some denial \<Rightarrow> after_denial d tool remark summary started denial
     | None \<Rightarrow>
         sbind (if tool = TOOL_SAVE_ARTIFACT then execute_save d args else execute_tool d tool args)
               (after_execution d tool remark summary started)))"

end
