(* ===== verification/Nov_Loop.thy ===== *)
theory Nov_Loop imports Nov_Step begin

text \<open>
  The autonomous loop of a job (\<open>domain/loop.py\<close>) and the chat turn of a finished one
  (\<open>domain/turn.py\<close>, with \<open>fit_result_content\<close> of \<open>ports/llm.py\<close>). The loop is \<open>while True\<close>: it runs on
  fuel, \<open>None\<close> being that it has not returned yet; \<open>loop_returns\<close> of \<open>Nov_Loop_Facts\<close> shows how much
  fuel is enough. The turn has a bounded number of steps.
\<close>

section \<open>The loop\<close>

record loop_outcome =
  lo_reason :: loop_end
  lo_state :: job_state
  lo_detail :: "string option"

definition ended :: "loop_end \<Rightarrow> job_state \<Rightarrow> string option \<Rightarrow> loop_outcome" where
  "ended reason target detail = \<lparr>lo_reason = reason, lo_state = target, lo_detail = detail\<rparr>"

definition budget_exhausted :: loop_outcome where
  "budget_exhausted = ended E_BUDGET_EXHAUSTED J_PARTIAL None"

definition missing_kinds :: "nov_context \<Rightarrow> artifact_kind list" where
  "missing_kinds c = filter (\<lambda>k. k \<notin> set (cx_saved c)) REQUIRED_ARTIFACT_KINDS"

definition required_complete :: "nov_context \<Rightarrow> bool" where
  "required_complete c \<longleftrightarrow> list_all (\<lambda>k. k \<in> set (cx_saved c)) REQUIRED_ARTIFACT_KINDS"

definition transition :: "'w nov_deps \<Rightarrow> job_state \<Rightarrow> bool \<Rightarrow> ('w agent, unit) nact" where
  "transition d target terminal = from_job (\<lambda>j.
     case validate_transition (nj_state j) target of
       Inl e \<Rightarrow> sraise e
     | Inr u \<Rightarrow>
         sbind (draw (ns_now (nd_store d))) (\<lambda>tm.
         sbind (set_job (\<lambda>j. j\<lparr>nj_state := target, nj_updated := tm\<rparr>)) (\<lambda>_.
         sbind (if terminal then sbind (draw (ns_now (nd_store d))) (\<lambda>tm. set_job (\<lambda>j. j\<lparr>nj_completed := Some tm\<rparr>)) else sret ()) (\<lambda>_.
         from_job (\<lambda>j. on_world (ns_update (nd_store d) j))))))"

definition loop_tools :: "'w nov_deps \<Rightarrow> string list" where
  "loop_tools d = dkeys (tg_tools (nd_registry d)) @ [TOOL_SAVE_ARTIFACT]"

text \<open>Evidence first: \<open>None\<close> goes on.\<close>

definition note_abstention :: "('w agent, unit) nact" where
  "note_abstention = from_cx (\<lambda>c.
     case rev (cx_results c) of
       [] \<Rightarrow> sret ()
     | v # vs \<Rightarrow>
         (case (if rv_ok v then dget (rv_content v) ''evidence'' else None) of
            Some (PDict ev) \<Rightarrow> if pget ev ''state'' = PStr ''abstain'' then note_down N_Abstained else sret ()
          | _ \<Rightarrow> sret ()))"

definition forced_form_evidence :: "'w nov_deps \<Rightarrow> ('w agent, loop_outcome option) nact" where
  "forced_form_evidence d = from_job (\<lambda>j.
     sbind (on_world (ns_cancelled (nd_store d) (nj_id j))) (\<lambda>cancelled.
     if cancelled then sret (Some (ended E_CANCELLED J_CANCELLED None))
     else if dget (tg_tools (nd_registry d)) TOOL_FORM_EVIDENCE = None
       then sret (Some (ended E_FATAL_ERROR J_FAILED (Some ''evidence tool unavailable for natural-language job'')))
     else
       sbind (execute_step d TOOL_FORM_EVIDENCE [(''topic'', PStr (nq_topic (nj_request j)))] (Some ''Evidence First'')) (\<lambda>r.
       if r = S_BUDGET_EXHAUSTED then sret (Some budget_exhausted)
       else sbind note_abstention (\<lambda>_. sret None))))"

text \<open>Observe and decide: the images are shown once, the decision is charged.\<close>

definition decide_next ::
  "'w nov_deps \<Rightarrow> string list \<Rightarrow> (nov_context \<Rightarrow> artifact_kind list) \<Rightarrow> agent_mode \<Rightarrow> chat_text option \<Rightarrow> ('w agent, nov_proposal) nact" where
  "decide_next d tools missing md request = from_job (\<lambda>j. from_cx (\<lambda>c. with_budget (\<lambda>b.
     sbind (on_world (nd_decide d (build_observation j b c (missing c) md request) tools)) (\<lambda>dec.
     sbind consume_images (\<lambda>_.
     sbind (charge (dc_cost dec)) (\<lambda>_. sret (dc_proposal dec)))))))"

definition refuse_termination :: "'w nov_deps \<Rightarrow> ('w agent, loop_outcome option) nact" where
  "refuse_termination d = from_cx (\<lambda>c.
     if required_complete c then sret (Some (ended E_ARTIFACTS_COMPLETE J_COMPLETED None))
     else sbind (note_down (N_Refused (missing_kinds c))) (\<lambda>_. sbind (persist_progress d) (\<lambda>_. sret None)))"

definition act_on :: "'w nov_deps \<Rightarrow> string \<Rightarrow> payload \<Rightarrow> string option \<Rightarrow> ('w agent, loop_outcome option) nact" where
  "act_on d tool args remark =
     sbind (execute_step d tool args remark) (\<lambda>r.
     sbind (persist_progress d) (\<lambda>_.
     if r = S_BUDGET_EXHAUSTED then sret (Some budget_exhausted)
     else from_cx (\<lambda>c. if required_complete c then sret (Some (ended E_ARTIFACTS_COMPLETE J_COMPLETED None)) else sret None)))"

definition loop_round :: "'w nov_deps \<Rightarrow> ('w agent, loop_outcome option) nact" where
  "loop_round d = from_job (\<lambda>j.
     sbind (on_world (ns_cancelled (nd_store d) (nj_id j))) (\<lambda>cancelled.
     if cancelled then sret (Some (ended E_CANCELLED J_CANCELLED None)) else
     sbind (budget_rule start_iteration) (\<lambda>denied.
     if denied \<noteq> None then sret (Some budget_exhausted) else
     sbind (drain_steering d) (\<lambda>_.
     sbind (decide_next d (loop_tools d) missing_kinds LOOP_MODE None) (\<lambda>p.
     case p of
       EndProposal why \<Rightarrow> refuse_termination d
     | Call tool args remark \<Rightarrow> act_on d tool args remark)))))"

fun loop_rounds :: "'w nov_deps \<Rightarrow> nat \<Rightarrow> ('w agent, loop_outcome option) nact" where
  "loop_rounds d 0 = sret None"
| "loop_rounds d (Suc n) =
     sbind (loop_round d) (\<lambda>r. case r of Some out \<Rightarrow> sret (Some out) | None \<Rightarrow> loop_rounds d n)"

definition needs_evidence :: "nov_job \<Rightarrow> nov_context \<Rightarrow> bool" where
  "needs_evidence j c \<longleftrightarrow> nq_input (nj_request j) = NATURAL_LANGUAGE \<and> K_EVIDENCE \<notin> set (cx_saved c)"

definition drive :: "'w nov_deps \<Rightarrow> nat \<Rightarrow> ('w agent, loop_outcome option) nact" where
  "drive d fuel = with_budget (\<lambda>b. from_job (\<lambda>j. from_cx (\<lambda>c.
     if needs_evidence j c
     then sbind (forced_form_evidence d) (\<lambda>r. sbind (persist_progress d) (\<lambda>_.
            case r of Some out \<Rightarrow> sret (Some out) | None \<Rightarrow> loop_rounds d fuel))
     else loop_rounds d fuel)))"

definition notice_unconsumed_steering :: "'w nov_deps \<Rightarrow> ('w agent, unit) nact" where
  "notice_unconsumed_steering d =
     sbind (drain_steering d) (\<lambda>n. if n = 0 then sret () else append_agent_message d LateSteering C_NOTICE None None)"

definition record_end :: "'w nov_deps \<Rightarrow> loop_outcome \<Rightarrow> ('w agent, unit) nact" where
  "record_end d out =
     sbind (draw (ns_now (nd_store d))) (\<lambda>tm.
     sbind (set_job (\<lambda>j. j\<lparr>nj_run := map_option (\<lambda>r. r\<lparr>nr_reason := Some (lo_reason out), nr_ended := Some tm\<rparr>) (nj_run j),
         nj_error := (case lo_detail out of Some t \<Rightarrow> if t \<noteq> [] \<and> lo_state out = J_FAILED then Some t else nj_error j | None \<Rightarrow> nj_error j)\<rparr>)) (\<lambda>_.
     stry (sbind (from_job (\<lambda>j. if lo_state out = J_COMPLETED \<and> nj_state j = J_INVESTIGATING then transition d J_REPORTING False else sret ()))
                 (\<lambda>_. transition d (lo_state out) True))
          (\<lambda>e. sret ())))"

definition run_loop_job :: "'w nov_deps \<Rightarrow> nat \<Rightarrow> ('w agent, loop_outcome option) nact" where
  "run_loop_job d fuel = from_job (\<lambda>j.
     if nj_run j = None then sraise (NovOther ''job.loop_run must be allocated before run_loop'') else
     sbind (seed_context d None True) (\<lambda>_.
     sbind (draw (ns_now (nd_store d))) (\<lambda>tm.
     sbind (set_job (\<lambda>j. j\<lparr>nj_run := map_option (\<lambda>r. r\<lparr>nr_started := Some (case nr_started r of Some t \<Rightarrow> t | None \<Rightarrow> tm)\<rparr>) (nj_run j)\<rparr>)) (\<lambda>_.
     sbind (transition d J_INVESTIGATING False) (\<lambda>_.
     sbind (stry (drive d fuel)
                 (\<lambda>e. sret (Some (ended E_FATAL_ERROR J_FAILED
                        (Some (if e = TraceUnavailable then ''decision trace unavailable'' else take 500 (nov_exn_text e))))))) (\<lambda>out.
     case out of
       None \<Rightarrow> sret None
     | Some res \<Rightarrow> sbind (record_end d res) (\<lambda>_. sbind (notice_unconsumed_steering d) (\<lambda>_. sret (Some res)))))))))"

section \<open>Fitting a payload into a prompt\<close>

text \<open>The longest list of a payload, at the top or one level down; the first of equal ones.\<close>

fun longest_in :: "('k \<times> nat) list \<Rightarrow> 'k option \<times> nat \<Rightarrow> 'k option \<times> nat" where
  "longest_in [] best = best"
| "longest_in ((k, n) # ks) best = longest_in ks (if n > snd best then (Some k, n) else best)"

definition list_places :: "payload \<Rightarrow> (string list \<times> nat) list" where
  "list_places d = concat (map (\<lambda>kv. case snd kv of
       PSeq xs \<Rightarrow> [([fst kv], length xs)]
     | PDict e \<Rightarrow> concat (map (\<lambda>lv. case snd lv of PSeq xs \<Rightarrow> [([fst kv, fst lv], length xs)] | _ \<Rightarrow> []) e)
     | _ \<Rightarrow> []) d)"

definition longest_list_path :: "payload \<Rightarrow> string list option" where
  "longest_list_path d = fst (longest_in (list_places d) (None, 0))"

definition seq_of :: "pyval \<Rightarrow> pyval list" where
  "seq_of v = (case v of PSeq xs \<Rightarrow> xs | _ \<Rightarrow> [])"

definition list_at :: "payload \<Rightarrow> string list \<Rightarrow> pyval list" where
  "list_at d path = (case path of
      [k] \<Rightarrow> seq_of (pget d k)
    | [k, l] \<Rightarrow> (case pget d k of PDict e \<Rightarrow> seq_of (pget e l) | _ \<Rightarrow> [])
    | _ \<Rightarrow> [])"

definition with_list_at :: "payload \<Rightarrow> string list \<Rightarrow> pyval list \<Rightarrow> payload" where
  "with_list_at d path kept = (case path of
      [k] \<Rightarrow> dset k (PSeq kept) d
    | [k, l] \<Rightarrow> (case pget d k of PDict e \<Rightarrow> dset k (PDict (dset l (PSeq kept) e)) d | _ \<Rightarrow> d)
    | _ \<Rightarrow> d)"

definition trimmed_at :: "payload \<Rightarrow> string list \<Rightarrow> nat \<Rightarrow> payload" where
  "trimmed_at d path keep =
     dset ''omitted'' (PDict [(''field'', PStr (join_with ''.'' path)), (''count'', PInt (int (length (list_at d path)) - int keep))])
       (with_list_at d path (take keep (list_at d path)))"

text \<open>From one less than all of the items down to a single one.\<close>

fun fit_items :: "(payload \<Rightarrow> string) \<Rightarrow> nat \<Rightarrow> payload \<Rightarrow> string list \<Rightarrow> nat \<Rightarrow> payload option" where
  "fit_items dump limit d path 0 = None"
| "fit_items dump limit d path (Suc keep) =
     (if length (dump (trimmed_at d path (Suc keep))) \<le> limit then Some (trimmed_at d path (Suc keep))
      else fit_items dump limit d path keep)"

definition cut_text :: "string \<Rightarrow> nat \<Rightarrow> payload" where
  "cut_text t n = [(''truncated'', PStr (take n t))]"

function cut_length :: "(payload \<Rightarrow> string) \<Rightarrow> nat \<Rightarrow> string \<Rightarrow> nat \<Rightarrow> nat" where
  "cut_length dump limit t n =
     (if n = 0 \<or> length (dump (cut_text t n)) \<le> limit then n
      else cut_length dump limit t (n - max 1 (length (dump (cut_text t n)) - limit)))"
  by pat_completeness auto
termination
  by (relation "measure (\<lambda>(_, _, _, n). n)") auto

declare cut_length.simps [simp del]

definition fit_result_content :: "(payload \<Rightarrow> string) \<Rightarrow> payload \<Rightarrow> nat \<Rightarrow> payload" where
  "fit_result_content dump d limit =
     (if length (dump d) \<le> limit then d
      else case (case longest_list_path d of None \<Rightarrow> None
                 | Some path \<Rightarrow> fit_items dump limit d path (length (list_at d path) - 1)) of
             Some e \<Rightarrow> e
           | None \<Rightarrow> cut_text (dump d) (cut_length dump limit (dump d) limit))"

section \<open>The chat turn\<close>

definition TOOL_REPLY :: string where "TOOL_REPLY = ''reply''"
definition ARTIFACT_PAYLOAD_MAX_CHARS :: nat where "ARTIFACT_PAYLOAD_MAX_CHARS = 3000"

definition artifact_view :: "'w nov_deps \<Rightarrow> nat \<Rightarrow> artifact \<Rightarrow> result_view" where
  "artifact_view d n r = \<lparr>rv_seq = n, rv_tool = ''saved_artifact:'' @ kind_value (ar_kind r), rv_ok = True,
     rv_content = fit_result_content (\<lambda>p. nd_dumps d (PDict p)) (ar_payload r) ARTIFACT_PAYLOAD_MAX_CHARS,
     rv_error = None, rv_images = [], rv_args = []\<rparr>"

definition show_kind :: "'w nov_deps \<Rightarrow> artifact list \<Rightarrow> artifact_kind \<Rightarrow> nov_context \<Rightarrow> nov_context" where
  "show_kind d rs k c =
     (case filter (\<lambda>r. ar_kind r = k) rs of
        [] \<Rightarrow> c
      | r # more_rs \<Rightarrow> c\<lparr>cx_seq := cx_seq c + 1, cx_results := cx_results c @ [artifact_view d (cx_seq c + 1) (last (r # more_rs))]\<rparr>)"

definition seed_artifacts_as_evidence :: "'w nov_deps \<Rightarrow> artifact list \<Rightarrow> ('w agent, unit) nact" where
  "seed_artifacts_as_evidence d rs = set_cx (fold (show_kind d rs) [K_SIMILAR, K_GAP, K_EVIDENCE])"

record turn_outcome =
  tn_reply :: chat_text
  tn_artifact :: "string option"
  tn_kind :: "artifact_kind option"

definition finish_turn ::
  "'w nov_deps \<Rightarrow> chat_message \<Rightarrow> chat_text \<Rightarrow> chat_kind \<Rightarrow> (artifact_kind \<times> string) option \<Rightarrow> ('w agent, turn_outcome) nact" where
  "finish_turn d m reply kind saved =
     sbind (append_agent_message d reply kind (map_option snd saved) (Some (cm_id m))) (\<lambda>_.
       sret \<lparr>tn_reply = reply, tn_artifact = map_option snd saved, tn_kind = map_option fst saved\<rparr>)"

definition reply_or :: "string \<Rightarrow> chat_text" where
  "reply_or t = (if t = [] then NotUnderstood else Typed t)"

text \<open>The word after the first colon of a rejection.\<close>

definition rejection_word :: "string \<Rightarrow> string" where
  "rejection_word err = py_strip (takeWhile (\<lambda>c. c \<noteq> CHR '':'') (drop 1 (dropWhile (\<lambda>c. c \<noteq> CHR '':'') err)))"

definition exhausted_reply :: "nov_context \<Rightarrow> chat_text" where
  "exhausted_reply c =
     (case filter (\<lambda>v. \<not> rv_ok v \<and> (case rv_error v of Some e \<Rightarrow> starts_with ''rejected_by_gate'' e | None \<Rightarrow> False)) (rev (cx_results c)) of
        [] \<Rightarrow> StepsGone
      | v # vs \<Rightarrow> GateRefused (rejection_word (case rv_error v of Some e \<Rightarrow> e | None \<Rightarrow> [])))"

definition turn_tools :: "'w nov_deps \<Rightarrow> string list" where
  "turn_tools d = loop_tools d @ [TOOL_REPLY]"

definition reply_content :: "'w nov_deps \<Rightarrow> payload \<Rightarrow> string" where
  "reply_content d args = py_strip (py_str (nd_str d) (py_or (pget args ''content'') (PStr [])))"

text \<open>After a step: was the requested artifact saved?\<close>

definition note_saved :: "string \<Rightarrow> (artifact_kind \<times> string) option \<Rightarrow> ('w agent, (artifact_kind \<times> string) option) nact" where
  "note_saved tool before = from_cx (\<lambda>c.
     if tool = TOOL_SAVE_ARTIFACT \<and> cx_last c \<noteq> None \<and> cx_last c \<noteq> before
     then sbind (note_down N_SavedThisTurn) (\<lambda>_. sret (cx_last c)) else sret None)"

text \<open>The end of a turn without an answer of the model.\<close>

definition turn_without_reply :: "'w nov_deps \<Rightarrow> chat_message \<Rightarrow> (artifact_kind \<times> string) option \<Rightarrow> ('w agent, turn_outcome) nact" where
  "turn_without_reply d m requested = from_cx (\<lambda>c.
     case requested of
       Some (k, i) \<Rightarrow> finish_turn d m (SavedReply k) C_REPLY requested
     | None \<Rightarrow> finish_turn d m (exhausted_reply c) C_NOTICE None)"

fun turn_steps ::
  "'w nov_deps \<Rightarrow> chat_message \<Rightarrow> nat \<Rightarrow> bool \<Rightarrow> (artifact_kind \<times> string) option \<Rightarrow> ('w agent, turn_outcome) nact" where
  "turn_steps d m 0 begun requested = turn_without_reply d m requested"
| "turn_steps d m (Suc n) begun requested =
     sbind (if begun then budget_rule start_iteration else sret None) (\<lambda>denied.
     if denied \<noteq> None then turn_without_reply d m requested else
     sbind (decide_next d (turn_tools d) (\<lambda>_. []) TURN_MODE (Some (cm_content m))) (\<lambda>p.
     case p of
       EndProposal why \<Rightarrow> finish_turn d m (reply_or (error_or [] why)) C_REPLY requested
     | Call tool args remark \<Rightarrow>
         if tool = TOOL_REPLY then finish_turn d m (reply_or (reply_content d args)) C_REPLY requested
         else if requested \<noteq> None then turn_without_reply d m requested
         else from_cx (\<lambda>c.
           sbind (execute_step d tool args remark) (\<lambda>r.
           if r = S_BUDGET_EXHAUSTED then turn_without_reply d m requested
           else sbind (note_saved tool (cx_last c)) (\<lambda>saved. turn_steps d m n True saved)))))"

definition run_turn :: "'w nov_deps \<Rightarrow> chat_message \<Rightarrow> nat \<Rightarrow> ('w agent, turn_outcome) nact" where
  "run_turn d m max_steps = from_job (\<lambda>j.
     sbind (on_world (ns_artifacts (nd_store d) (nj_owner j) (nj_id j))) (\<lambda>rs.
     sbind (seed_context d (Some rs) False) (\<lambda>_.
     sbind (seed_artifacts_as_evidence d rs) (\<lambda>_.
     sbind (if nj_run j = None then sret True else sbind (budget_rule start_iteration) (\<lambda>denied. sret (denied \<noteq> None))) (\<lambda>refused.
     if refused then finish_turn d m BudgetGone C_NOTICE None
     else sbind (stry (turn_steps d m max_steps False None)
                      (\<lambda>e. finish_turn d m (if e = TraceUnavailable then TraceLost else TurnProblem) C_NOTICE None)) (\<lambda>out.
          sbind (persist_progress d) (\<lambda>_. sret out)))))))"

end
