(* ===== verification/Nov_Worker.thy ===== *)
theory Nov_Worker imports Nov_Loop begin

text \<open>
  The worker (\<open>worker.py\<close>) and its queues: the in-memory queue with its leases
  (\<open>adapters/memory.py\<close>) and the Redis queue (\<open>adapters/queue_redis.py\<close>). The thread that renews a
  lease while a job runs is not modelled; metrics, which are best effort, are left out.
\<close>

section \<open>The in-memory queue and its leases\<close>

record memory_queue =
  mq_queue :: "queued_job list"
  mq_locks :: "(string, rat) dict"

definition mem_enqueue :: "queued_job \<Rightarrow> memory_queue \<Rightarrow> memory_queue" where
  "mem_enqueue j q = q\<lparr>mq_queue := mq_queue q @ [j]\<rparr>"

definition mem_consume :: "memory_queue \<Rightarrow> queued_job option \<times> memory_queue" where
  "mem_consume q = (case mq_queue q of [] \<Rightarrow> (None, q) | j # js \<Rightarrow> (Some j, q\<lparr>mq_queue := js\<rparr>))"

definition mem_nack :: "queued_job \<Rightarrow> memory_queue \<Rightarrow> memory_queue" where
  "mem_nack j q = q\<lparr>mq_queue := mq_queue q @ [j]\<rparr>"

definition mem_acquire :: "rat \<Rightarrow> string \<Rightarrow> rat \<Rightarrow> memory_queue \<Rightarrow> bool \<times> memory_queue" where
  "mem_acquire now jid ttl q =
     (case dget (mq_locks q) jid of
        Some expiry \<Rightarrow> if expiry > now then (False, q) else (True, q\<lparr>mq_locks := dset jid (now + ttl) (mq_locks q)\<rparr>)
      | None \<Rightarrow> (True, q\<lparr>mq_locks := dset jid (now + ttl) (mq_locks q)\<rparr>))"

definition mem_renew :: "rat \<Rightarrow> string \<Rightarrow> rat \<Rightarrow> memory_queue \<Rightarrow> bool \<times> memory_queue" where
  "mem_renew now jid ttl q =
     (if dget (mq_locks q) jid = None then (False, q) else (True, q\<lparr>mq_locks := dset jid (now + ttl) (mq_locks q)\<rparr>))"

definition mem_release :: "string \<Rightarrow> memory_queue \<Rightarrow> memory_queue" where
  "mem_release jid q = q\<lparr>mq_locks := ddel jid (mq_locks q)\<rparr>"

section \<open>The Redis queue\<close>

text \<open>Lists with their left end first; texts are JSON, written and read by parameters.\<close>

record redis_queue =
  rq_queue :: "string list"
  rq_processing :: "string list"

definition redis_enqueue :: "(payload \<Rightarrow> string) \<Rightarrow> queued_job \<Rightarrow> redis_queue \<Rightarrow> redis_queue" where
  "redis_enqueue enc j q = q\<lparr>rq_queue := enc (to_payload j) # rq_queue q\<rparr>"

definition redis_consume ::
  "(pyval \<Rightarrow> string) \<Rightarrow> (string \<Rightarrow> payload option) \<Rightarrow> redis_queue \<Rightarrow> queued_job option \<times> redis_queue" where
  "redis_consume other dec q =
     (if rq_queue q = [] then (None, q)
      else let raw = last (rq_queue q); q' = q\<lparr>rq_queue := butlast (rq_queue q), rq_processing := raw # rq_processing q\<rparr> in
        case Option.bind (dec raw) (\<lambda>p. from_payload other p (Some raw)) of
          Some j \<Rightarrow> (Some j, q')
        | None \<Rightarrow> (None, q'\<lparr>rq_processing := remove1 raw (rq_processing q')\<rparr>))"

definition redis_ack :: "queued_job \<Rightarrow> redis_queue \<Rightarrow> redis_queue" where
  "redis_ack j q = (case qj_receipt j of None \<Rightarrow> q | Some r \<Rightarrow> q\<lparr>rq_processing := remove1 r (rq_processing q)\<rparr>)"

definition redis_nack :: "queued_job \<Rightarrow> redis_queue \<Rightarrow> redis_queue" where
  "redis_nack j q =
     (case qj_receipt j of
        None \<Rightarrow> q
      | Some r \<Rightarrow>
          if r \<in> set (rq_processing q)
          then q\<lparr>rq_processing := remove1 r (rq_processing q), rq_queue := r # rq_queue q\<rparr> else q)"

function recover_processing :: "redis_queue \<Rightarrow> nat \<times> redis_queue" where
  "recover_processing q =
     (if rq_processing q = [] then (0, q)
      else case recover_processing (q\<lparr>rq_queue := last (rq_processing q) # rq_queue q, rq_processing := butlast (rq_processing q)\<rparr>) of
        (n, q') \<Rightarrow> (n + 1, q'))"
  by pat_completeness auto
termination
  by (relation "measure (length \<circ> rq_processing)") auto

declare recover_processing.simps [simp del]

section \<open>The worker\<close>

record 'w queue_port =
  qp_consume :: "('w, queued_job option) nact"
  qp_ack :: "queued_job \<Rightarrow> ('w, unit) nact"
  qp_nack :: "queued_job \<Rightarrow> ('w, unit) nact"
  qp_acquire :: "string \<Rightarrow> ('w, bool) nact"
  qp_release :: "string \<Rightarrow> ('w, unit) nact"
  qp_sleep :: "rat \<Rightarrow> ('w, unit) nact"

record 'w worker_deps =
  wd_agent :: "'w nov_deps"
  wd_queue :: "'w queue_port"
  wd_budget :: nov_budget
  wd_turn_steps :: nat
  wd_stale_after :: rat

record 'w nov_worker =
  wr_world :: 'w
  wr_idle :: nat
  wr_contention :: "(string, nat) dict"
  wr_consume_failures :: nat

definition world :: "('w, 'a) nact \<Rightarrow> ('w nov_worker, 'a) nact" where
  "world m s = (case m (wr_world s) of (r, w) \<Rightarrow> (r, s\<lparr>wr_world := w\<rparr>))"

text \<open>Run the agent on a job; \<open>finally\<close>: the cleanup also runs when the body raises, and its own exception wins.\<close>

definition with_agent :: "nov_job \<Rightarrow> ('w agent, 'a) nact \<Rightarrow> ('w, 'a) nact" where
  "with_agent j m w = (case m \<lparr>ag_job = j, ag_cx = empty_context, ag_world = w\<rparr> of (r, s) \<Rightarrow> (r, ag_world s))"

definition finally_do :: "('w, 'a) nact \<Rightarrow> ('w, unit) nact \<Rightarrow> ('w, 'a) nact" where
  "finally_do m f =
     sbind (stry (sbind m (\<lambda>x. sret (Inr x))) (\<lambda>e. sret (Inl e))) (\<lambda>r.
     sbind f (\<lambda>_. case r of Inl e \<Rightarrow> sraise e | Inr x \<Rightarrow> sret x))"

definition CONTENTION_BACKOFF_MAX_S :: rat where "CONTENTION_BACKOFF_MAX_S = 30"
definition CONSUME_ERROR_BACKOFF_MAX_S :: rat where "CONSUME_ERROR_BACKOFF_MAX_S = 30"
definition STALE_SWEEP_EVERY_N_IDLE :: nat where "STALE_SWEEP_EVERY_N_IDLE = 12"
definition REPLY_SCAN_LIMIT :: nat where "REPLY_SCAN_LIMIT = 50"

definition worker_backoff :: "nat \<Rightarrow> rat \<Rightarrow> rat" where
  "worker_backoff attempt cap = min (2 ^ min (attempt - 1) 20) cap"

definition contention_of :: "'w nov_worker \<Rightarrow> string \<Rightarrow> nat" where
  "contention_of s jid = (case dget (wr_contention s) jid of Some n \<Rightarrow> n | None \<Rightarrow> 0)"

definition acquire_or_backoff :: "'w worker_deps \<Rightarrow> queued_job \<Rightarrow> ('w nov_worker, bool) nact" where
  "acquire_or_backoff d m =
     sbind (world (qp_acquire (wd_queue d) (qj_job m))) (\<lambda>got.
     if got then sbind (smod (\<lambda>s. s\<lparr>wr_contention := ddel (qj_job m) (wr_contention s)\<rparr>)) (\<lambda>_. sret True)
     else
       sbind (world (qp_nack (wd_queue d) m)) (\<lambda>_.
       sbind (smod (\<lambda>s. s\<lparr>wr_contention := dset (qj_job m) (contention_of s (qj_job m) + 1) (wr_contention s)\<rparr>)) (\<lambda>_.
       sbind (sget (\<lambda>s. contention_of s (qj_job m))) (\<lambda>n.
       sbind (world (qp_sleep (wd_queue d) (worker_backoff n CONTENTION_BACKOFF_MAX_S))) (\<lambda>_. sret False)))))"

definition cancelled_job :: "rat \<Rightarrow> rat \<Rightarrow> rat \<Rightarrow> nov_job \<Rightarrow> nov_job" where
  "cancelled_job t1 t2 t3 j = j\<lparr>nj_state := J_CANCELLED,
     nj_run := map_option (\<lambda>r. r\<lparr>nr_reason := Some E_CANCELLED, nr_ended := Some t1\<rparr>) (nj_run j),
     nj_updated := t2, nj_completed := Some t3\<rparr>"

definition tick :: "'w nov_store \<Rightarrow> ('w, rat) nact" where
  "tick st w = (case ns_now st w of (t, v) \<Rightarrow> (Inr t, v))"

definition finalize_cancelled :: "'w nov_store \<Rightarrow> nov_job \<Rightarrow> ('w, unit) nact" where
  "finalize_cancelled st j =
     (case validate_transition (nj_state j) J_CANCELLED of
        Inl e \<Rightarrow> sraise e
      | Inr u \<Rightarrow> sbind (tick st) (\<lambda>t1. sbind (tick st) (\<lambda>t2. sbind (tick st) (\<lambda>t3. ns_update st (cancelled_job t1 t2 t3 j)))))"

definition mark_failed :: "'w nov_store \<Rightarrow> string \<Rightarrow> string \<Rightarrow> ('w, unit) nact" where
  "mark_failed st jid reason =
     sbind (ns_job st jid) (\<lambda>got.
     case got of
       None \<Rightarrow> sret ()
     | Some j \<Rightarrow>
         if nj_state j \<in> set TERMINAL_STATES then sret ()
         else sbind (tick st) (\<lambda>t. ns_update st (failed_job reason t j)))"

definition allocated :: "'w worker_deps \<Rightarrow> nov_job \<Rightarrow> nov_job" where
  "allocated d j = (if nj_run j = None
     then j\<lparr>nj_run := Some \<lparr>nr_budget = wd_budget d, nr_reason = None, nr_started = None, nr_ended = None\<rparr>\<rparr> else j)"

text \<open>A job under its lease; \<open>fuel\<close> is that of the loop.\<close>

definition run_queued_job :: "'w worker_deps \<Rightarrow> nat \<Rightarrow> queued_job \<Rightarrow> nov_job \<Rightarrow> ('w, unit) nact" where
  "run_queued_job d fuel m j =
     (let st = nd_store (wd_agent d) in
      finally_do
        (stry (if nj_cancel j then sbind (finalize_cancelled st j) (\<lambda>_. qp_ack (wd_queue d) m)
               else sbind (with_agent (allocated d j) (run_loop_job (wd_agent d) fuel)) (\<lambda>out. qp_ack (wd_queue d) m))
              (\<lambda>e. sbind (mark_failed st (qj_job m) ''worker crashed while running the loop'') (\<lambda>_. qp_ack (wd_queue d) m)))
        (qp_release (wd_queue d) (qj_job m)))"

definition answers :: "string \<Rightarrow> chat_message \<Rightarrow> bool" where
  "answers mid x \<longleftrightarrow> cm_role x = BY_AGENT \<and> cm_reply_to x = Some mid"

definition turn_request :: "'w nov_store \<Rightarrow> nov_job \<Rightarrow> queued_job \<Rightarrow> ('w, chat_message option) nact" where
  "turn_request st j m =
     (case qj_message m of
        None \<Rightarrow> sret None
      | Some mid \<Rightarrow>
          sbind (ns_message st (nj_owner j) (nj_id j) mid) (\<lambda>target.
          if target = None then sret None
          else stry (sbind (ns_messages st (nj_owner j) (nj_id j) (Some mid) REPLY_SCAN_LIMIT) (\<lambda>ms.
                       sret (if list_ex (answers mid) ms then None else target)))
                    (\<lambda>e. case e of KeyMissing k \<Rightarrow> sret None | _ \<Rightarrow> sraise e)))"

definition run_turn_job :: "'w worker_deps \<Rightarrow> queued_job \<Rightarrow> nov_job \<Rightarrow> chat_message \<Rightarrow> ('w, unit) nact" where
  "run_turn_job d m j request =
     finally_do
       (stry (sbind (with_agent j (run_turn (wd_agent d) request (wd_turn_steps d))) (\<lambda>out. qp_ack (wd_queue d) m))
             (\<lambda>e. sbind (with_agent j (append_agent_message (wd_agent d) TurnProblem C_NOTICE None (Some (cm_id request))))
                        (\<lambda>_. qp_ack (wd_queue d) m)))
       (qp_release (wd_queue d) (qj_job m))"

definition process_turn :: "'w worker_deps \<Rightarrow> queued_job \<Rightarrow> nov_job \<Rightarrow> ('w nov_worker, unit) nact" where
  "process_turn d m j =
     (if nj_state j \<notin> set ON_DEMAND_ELIGIBLE_STATES \<or> nj_run j = None
      then world (sbind (with_agent j (append_agent_message (wd_agent d) OnDemandUnavailable C_NOTICE None None)) (\<lambda>_. qp_ack (wd_queue d) m))
      else
        sbind (world (turn_request (nd_store (wd_agent d)) j m)) (\<lambda>request.
        case request of
          None \<Rightarrow> world (qp_ack (wd_queue d) m)
        | Some r \<Rightarrow>
            sbind (acquire_or_backoff d m) (\<lambda>got. if got then world (run_turn_job d m j r) else sret ())))"

definition process_message :: "'w worker_deps \<Rightarrow> nat \<Rightarrow> queued_job \<Rightarrow> ('w nov_worker, unit) nact" where
  "process_message d fuel m =
     sbind (world (ns_job (nd_store (wd_agent d)) (qj_job m))) (\<lambda>found.
     case found of
       None \<Rightarrow> world (qp_ack (wd_queue d) m)
     | Some j \<Rightarrow>
         if qj_kind m = KIND_TURN then process_turn d m j
         else if nj_state j \<in> set TERMINAL_STATES then world (qp_ack (wd_queue d) m)
         else sbind (acquire_or_backoff d m) (\<lambda>got. if got then world (run_queued_job d fuel m j) else sret ()))"

definition stale_reason :: "nov_job \<Rightarrow> string" where
  "stale_reason j = (if nj_state j = J_RECEIVED then ''stale job, never picked up (queue message lost)''
     else ''stale job, worker lease expired'')"

fun sweep_jobs :: "'w worker_deps \<Rightarrow> nov_job list \<Rightarrow> ('w, nat) nact" where
  "sweep_jobs d [] = sret 0"
| "sweep_jobs d (j # js) =
     sbind (qp_acquire (wd_queue d) (nj_id j)) (\<lambda>got.
     if got
     then sbind (finally_do (mark_failed (nd_store (wd_agent d)) (nj_id j) (stale_reason j)) (qp_release (wd_queue d) (nj_id j))) (\<lambda>_.
          sbind (sweep_jobs d js) (\<lambda>n. sret (n + 1)))
     else sweep_jobs d js)"

definition sweep_stale_jobs :: "'w worker_deps \<Rightarrow> ('w, nat) nact" where
  "sweep_stale_jobs d =
     sbind (tick (nd_store (wd_agent d))) (\<lambda>t.
     sbind (ns_stale (nd_store (wd_agent d)) (t - wd_stale_after d) 20) (sweep_jobs d))"

definition consume_next :: "'w worker_deps \<Rightarrow> ('w nov_worker, nov_exn + queued_job option) nact" where
  "consume_next d = stry (sbind (world (qp_consume (wd_queue d))) (\<lambda>m. sret (Inr m))) (\<lambda>e. sret (Inl e))"

text \<open>One pass of \<open>run_worker\<close>.\<close>

definition worker_round :: "'w worker_deps \<Rightarrow> nat \<Rightarrow> ('w nov_worker, unit) nact" where
  "worker_round d fuel =
     sbind (consume_next d) (\<lambda>got.
     case got of
       Inl e \<Rightarrow>
         sbind (smod (\<lambda>s. s\<lparr>wr_consume_failures := wr_consume_failures s + 1\<rparr>)) (\<lambda>_.
         sbind (sget wr_consume_failures) (\<lambda>n. world (qp_sleep (wd_queue d) (worker_backoff n CONSUME_ERROR_BACKOFF_MAX_S))))
     | Inr None \<Rightarrow>
         sbind (smod (\<lambda>s. s\<lparr>wr_consume_failures := 0, wr_idle := wr_idle s + 1\<rparr>)) (\<lambda>_.
         sbind (sget wr_idle) (\<lambda>n.
         if n \<ge> STALE_SWEEP_EVERY_N_IDLE
         then sbind (smod (\<lambda>s. s\<lparr>wr_idle := 0\<rparr>)) (\<lambda>_. sbind (world (sweep_stale_jobs d)) (\<lambda>_. sret ()))
         else sret ()))
     | Inr (Some m) \<Rightarrow>
         sbind (smod (\<lambda>s. s\<lparr>wr_consume_failures := 0, wr_idle := 0\<rparr>)) (\<lambda>_. process_message d fuel m))"

fun worker_rounds :: "'w worker_deps \<Rightarrow> nat \<Rightarrow> nat \<Rightarrow> ('w nov_worker, unit) nact" where
  "worker_rounds d fuel 0 = sret ()"
| "worker_rounds d fuel (Suc n) = sbind (worker_round d fuel) (\<lambda>_. worker_rounds d fuel n)"

end
