(* ===== verification/Spec2Isabelle.thy ===== *)
theory Spec2Isabelle
  imports Search_Space Search_Contract Ops_Grounding Ops_Health Ingest_Refinement Ingest_Resilience
    Ingest_Chunk_Sets Ingest_Stats Gate_Limit_Facts Gate_Quota_Facts Acct_Bypass_Facts
    Gate_Http_Facts Evid_Turn_Facts Sum_Service_Facts Sum_Echo_Facts Sum_Queue Nov_Worker
begin

text \<open>
  A verification development of DocSuri, a search, ingestion and operations platform for research
  papers (Python, the directories \<open>backend\<close>, \<open>ingestion\<close>, \<open>ops\<close> and \<open>shared\<close> of the repository).

  \<^bold>\<open>How the program fits together.\<close> The ingestion worker (U1) fetches papers, deduplicates them
  against a control plane, splits them into chunks and writes index records. Discovery (U2) validates
  and embeds a query, reads the vector and the lexical index, fuses, reranks and boosts the results
  and assembles cards. Operations (U6) own the grounding gate every response passes, the cost guard
  whose state degrades search, the incident detectors over the telemetry all units emit, and the
  health checks. One circuit breaker class is shared by discovery and ingestion. The gateway wraps
  every request: a blanket rate limit, the session of the accounts module turned into a principal,
  headers and metrics. The evidence agent (U11) runs one turn as a graph of steps in which a language
  model picks tools; what it extracts enters the answer only through a fabrication gate, and a
  judgement written over it only through machine checks. Summarization (U7) reads a paper's document,
  has a model summarize or translate it, lets a summary pass its own grounding gate and a translation
  mirror the document, and keeps both in a store shared by all readers, with each reader's glossary
  applied when a translation is read.

  \<^bold>\<open>Which theory models what.\<close>
  \<^item> \<open>DS_Prelude\<close>: results with effects, dictionaries, slices, stable sorting; \<open>Py_Text\<close>: the part of
    \<open>str\<close> in use; \<open>Py_Value\<close>: duck-typed values.
  \<^item> \<open>Circuit_Breaker\<close>: \<open>shared/.../resilience.py\<close>, \<open>CircuitBreaker\<close> and \<open>CircuitPermit\<close>. The fields of
    the object are the record \<open>circuit_breaker\<close>; each method is a function from the state and the
    instant the clock shows. Interface \<open>admission_gate\<close>.
  \<^item> \<open>Search_Models\<close>, \<open>Search_Query\<close>, \<open>Search_Retrieval\<close>, \<open>Search_Ranking\<close>, \<open>Search_Assembly\<close>: the
    \<open>domain\<close> package of discovery, file by file. \<open>Search_Embedding\<close>, \<open>Search_Space\<close>: the embedding
    path (cache over circuit over provider; interface \<open>query_embedder\<close>, interpreted three times) and
    the space guard. \<open>Search_Service\<close>: \<open>SearchOrchestrationService\<close> and the gateway seam;
    \<open>Search_Contract\<close>: its contract.
  \<^item> \<open>Ops_Grounding\<close>, \<open>Ops_Cost\<close> (interface \<open>seen_set\<close>), \<open>Ops_Detectors\<close>, \<open>Ops_Incidents\<close>,
    \<open>Ops_Health\<close>: the modules of \<open>ops/src/docsuri_ops\<close>.
  \<^item> \<open>Ingest_Domain\<close>: the \<open>domain\<close> package of ingestion and \<open>http_limits.py\<close>; \<open>Ingest_Ledger\<close> and
    \<open>Ingest_Control\<close>: the two control planes (\<open>adapters/local.py\<close>, \<open>adapters/postgres.py\<close>);
    \<open>Ingest_Refinement\<close>: their common specification (interface \<open>control_plane\<close>, interpreted on both);
    \<open>Ingest_Resilience\<close>: \<open>resilience.py\<close>; \<open>Ingest_Chunking\<close> and \<open>Ingest_Chunk_Facts\<close>: chunking;
    \<open>Ingest_Stats\<close>: payloads.
  \<^item> \<open>Gate_Limits\<close>, \<open>Gate_Limit_Facts\<close>, \<open>Gate_Quota_Facts\<close>: \<open>middleware/rate_limit.py\<close> and
    \<open>agent_quota.py\<close> (interface \<open>window_limiter\<close>, the Redis commands as a port); \<open>Gate_Http\<close>,
    \<open>Gate_Http_Facts\<close>: \<open>middleware/gateway.py\<close>, \<open>auth.py\<close>, \<open>security_headers.py\<close>.
  \<^item> \<open>Acct_Sessions\<close>, \<open>Acct_Store\<close>, \<open>Acct_Auth\<close>, \<open>Acct_Accounts\<close>, \<open>Acct_Endpoints\<close>: the accounts module
    from its tables up to its endpoints, each a transaction that is committed or rolled back; the
    theories \<open>Acct_..._Facts\<close> hold what is proved of them.
  \<^item> \<open>Evid_Gate\<close> (\<open>evidence/domain/projection.py\<close>, \<open>gate.py\<close>), \<open>Evid_Answer\<close> (\<open>answer_checks.py\<close>,
    \<open>assembler.py\<close>), \<open>Evid_Loop\<close> (\<open>budget.py\<close>, \<open>models.py\<close>, \<open>loop.py\<close>, the extraction tool);
    \<open>Py_Number\<close>: the number formats these print. \<open>Evid_Gate_Facts\<close>, \<open>Evid_Loop_Facts\<close>,
    \<open>Evid_Turn_Facts\<close>: soundness and completeness of the gate, soundness of a checked answer, and the
    invariants of a turn.
  \<^item> \<open>Sum_Masking\<close>, \<open>Sum_Models\<close>, \<open>Sum_Input\<close>, \<open>Sum_Grounding\<close>, \<open>Sum_Translate\<close>, \<open>Sum_Assembler\<close>: the
    \<open>domain\<close> package of summarization, from the masking of terms to the rendering of a translation;
    \<open>Sum_Store\<close>: \<open>adapters/s3_redis_store.py\<close> (interface \<open>artifact_store\<close>, interpreted over Redis and S3
    whose commands may fail); \<open>Sum_Service\<close>: \<open>service/orchestrator.py\<close> and \<open>worker.py\<close>; \<open>Sum_Queue\<close>:
    the job queues. \<open>Sum_..._Facts\<close> hold what is proved of them; language model, queues and cost guard
    are ports over a world of their own.
  \<^item> The novelty agent (\<open>src/backend/modules/novelty\<close>). \<open>Nov_Models\<close>: job states, budgets, artifacts,
    traces, messages, the registry. \<open>Nov_Gate\<close>: \<open>evaluate_artifact\<close>, the gate of artifacts, over
    untyped JSON. \<open>Nov_Store\<close>: the in-memory store, and the contract of a store as the locale
    \<open>novelty_store\<close>, interpreted on it with owners, sweeps and lost connections between its commands.
    \<open>Nov_Step\<close>: one step of the agent: steering, observation, tool call, saving and trace.
    \<open>Nov_Loop\<close>: the autonomous loop and the chat turn. \<open>Nov_Worker\<close>: message processing, leases,
    the sweep and the queues.
  \<^item> This theory: what holds only of compositions, search under the real gate and ingestion's index
    statistics under the health check.

  \<^bold>\<open>What the lemmas show.\<close> The state invariants of the breaker, the dedup window, the token bucket
  and the ledger; the exact behaviour of each pure stage (fusion, reranking, boosting, assembly, the
  gate, detectors, dedup decisions) on every branch; which failures escape a pipeline and which are
  absorbed; that both control planes implement one specification; round trips of identifiers and
  payloads; and termination, or its failure, of the loops. Of the accounts: that no endpoint raises a
  role, that a session needs credentials and outlives neither of its bounds, that a reset link works
  once, what a purge removes. Of an evidence turn: that it finishes within the graph's limit and its
  budgets and shows nothing unchecked. Of summarization: that, over a store that starts empty, every
  summary served passed the gate against its own paper and every translation mirrors its document,
  that masking and rendering are inverse, what chunks cover, what keys keep apart, how many calls a
  translation costs and that one artifact is generated once at a time. Where the code falls short of what it
  means to do, the theorem states what it does, and the manifest records a finding.

  \<^bold>\<open>Bounds and fuel.\<close> No definition runs on fuel chosen by hand: loops that need not end are partial
  functions into \<open>option\<close> (\<open>split_loop\<close>), or take the number of passes as an argument that a theorem
  bounds (\<open>acquire_loop\<close>). The steps of an evidence turn are bounded by the source's own recursion
  limit; running out of it is a result of its own (\<open>GraphRecursionError\<close>), which a theorem excludes.
  The loop of a novelty job is \<open>while True\<close> and runs on fuel (\<open>loop_rounds\<close>).

  \<^bold>\<open>Conventions.\<close> Clocks, jitter and random choices are arguments. Floats are rationals, so rounding,
  infinities and NaN are not modelled. Texts are over the code points below 256, except in
  summarization, where they are lists of code points and the Unicode tables are a parameter; what needs a Unicode
  table or a hash (NFC, SHA-256, \<open>isoformat\<close>) is a parameter with the documented fact it is used for
  as a named hypothesis. Exceptions are values of a sum type. Coroutines are modelled as the sequence
  of their awaited calls, locks as atomicity of one operation.

  \<^bold>\<open>Not modelled.\<close> HTTP, AWS, SQL drivers and file I/O (the sources only call them), doc-model parsing
  and asset extraction over third-party parser objects, the web frontend, infrastructure code and
  development tools; of summarization the HTTP routes, the prompt texts, the model adapter and the
  regular expressions of its plain-text refiner; of the novelty agent the HTTP routes, the SQL
  store, the adapters of its tools and of the model, and the thread that renews a lease; and the
  library and personalization modules, and the service shell around an evidence turn.
\<close>

section \<open>Search under the grounding gate\<close>

text \<open>
  What U6 reads of an index record and of the ranked results U2 hands to the gate: the identifying
  attributes of the record, and one item per candidate under \<open>ranked\<close>.
\<close>

definition record_value :: "index_record \<Rightarrow> pyval" where
  "record_value r =
     PObj [(''arxivId'', PStr (ir_arxivId r)), (''paperId'', PStr (paperId r)),
           (''arxivUrl'', PStr (ir_arxivUrl r))]"

definition ranked_value :: "ranked_results \<Rightarrow> pyval" where
  "ranked_value rr =
     PObj [(''ranked'', PSeq (map (\<lambda>c. PObj [(''record'', record_value (cand_record c))]) (ranked rr)))]"

definition gate_hook :: "(pyval \<Rightarrow> string) \<Rightarrow> grounding_input \<Rightarrow> search_exn + string" where
  "gate_hook other gi =
     (case enforce other (ranked_value (candidate_response gi)) (map record_value (retrieved_records gi)) of
        Inl e \<Rightarrow> Inl (OtherError e)
      | Inr d \<Rightarrow> Inr (verdict d))"

lemma record_fields:
  "get_field (record_value r) ''arxivId'' = PStr (ir_arxivId r)"
  "get_field (record_value r) ''paperId'' = PStr (paperId r)"
  "get_field (record_value r) ''arxivUrl'' = PStr (ir_arxivUrl r)"
  by (simp_all add: record_value_def get_field_def pget_def dict_simps)

text \<open>A candidate with a paper id is referenced by one of the ids of its own record.\<close>

lemma own_reference:
  assumes "paperId r \<noteq> []"
  shows "\<exists>ref. candidate_reference other (PObj [(''record'', record_value r)]) = Some ref \<and> ref \<noteq> [] \<and>
    normalize_identifier ref \<in> set (ids_of_record other (record_value r))"
  using assms
  by (cases "ir_arxivId r = []")
     (simp_all add: candidate_reference_def ids_of_record_def id_attrs_def record_fields py_str_def
        get_field_def [of "PObj [(''record'', record_value r)]"] pget_def dict_simps Let_def,
      simp_all add: record_value_def)

lemma ranked_items:
  "candidate_items (ranked_value rr) =
     Some (map (\<lambda>c. PObj [(''record'', record_value (cand_record c))]) (ranked rr))"
  by (simp add: candidate_items_def ranked_value_def get_field_def pget_def dict_simps item_attrs_def)

lemma gate_verdict:
  assumes "\<forall>c \<in> set (ranked rr). paperId (cand_record c) \<noteq> []"
  shows "gate_hook other (to_grounding_input rr) =
    Inr (if ranked rr = [] then ''abstain'' else ''pass'')"
proof (cases "ranked rr = []")
  case True
  then show ?thesis
    by (simp add: gate_hook_def enforce_def ranked_items to_grounding_input_def decide_def record_ids_def)
next
  case False
  define ids where "ids = record_ids other (map record_value (map cand_record (ranked rr)))"
  define refs where "refs = map (candidate_reference other)
    (map (\<lambda>c. PObj [(''record'', record_value (cand_record c))]) (ranked rr))"
  have own: "\<exists>ref. candidate_reference other (PObj [(''record'', record_value (cand_record c))]) = Some ref \<and>
      ref \<noteq> [] \<and> normalize_identifier ref \<in> set ids" if "c \<in> set (ranked rr)" for c
    using own_reference [of "cand_record c" other] assms that
    by (auto simp: ids_def record_ids_def)
  have none: "\<forall>r \<in> set refs. check_reference ids r = None"
    using own by (fastforce simp: refs_def check_reference_def)
  have "ids \<noteq> []" using own False by (metis empty_iff empty_set last_in_set)
  moreover have "list_ex (\<lambda>r. \<not> bad_reference r) refs"
  proof -
    obtain c where "c \<in> set (ranked rr)" using False by (meson last_in_set)
    moreover from this obtain ref where
      "candidate_reference other (PObj [(''record'', record_value (cand_record c))]) = Some ref"
      and "ref \<noteq> []"
      using own [of c] by blast
    ultimately show ?thesis
      by (auto simp: refs_def list_ex_iff bad_reference_def intro!: bexI [of _ c])
  qed
  moreover have "List.map_filter (check_reference ids) refs = []"
    using none by (simp add: map_filter_Nil)
  ultimately have "verdict (decide ids refs) = ''pass''" by (simp add: decide_def)
  then show ?thesis using False
    by (simp add: gate_hook_def enforce_def ranked_items to_grounding_input_def ids_def refs_def o_def)
qed

lemma pending_input:
  assumes "fst (plan_and_retrieve env req ctx) = Inr (Pending p)"
  shows "gp_input p = to_grounding_input (gp_ranked p)"
proof -
  have v: "vr_ok (validate_query (env_nfc env) (sr_query req))"
    using assms by (rule contrapos_pp) (simp add: plan_and_retrieve_def Let_def eff_simps)
  obtain stage where "Pending p = Response empty_page \<or> fst (grounding_stage env req ctx stage) = Inr (Pending p)"
    using plan_cases [OF v assms] by blast
  then have "fst (grounding_stage env req ctx stage) = Inr (Pending p)" by simp
  from grounding_stage_Inr [OF this] show ?thesis by auto
qed

lemma finalize_returns: "\<exists>response. fst (finalize env p verd) = Inr response"
  by (auto simp: finalize_def emit_grounding_health_def publish_def emit_metric_def Let_def eff_simps split: sum.split)

lemma run_search_returns:
  assumes "fst (plan_and_retrieve env req ctx) = Inr (Pending p)" and "hook (gp_input p) = Inr verd"
  shows "\<exists>response. fst (run_search env hook req ctx) = Inr response"
proof -
  obtain out where plan: "plan_and_retrieve env req ctx = (Inr (Pending p), out)"
    using assms(1) by (metis prod.collapse)
  obtain response where fin: "fst (finalize env p verd) = Inr response" using finalize_returns by blast
  show ?thesis by (simp add: run_search_def plan assms(2) fin ebind_def lift_res_def split_def)
qed



section \<open>Index statistics under the health check\<close>

text \<open>
  The index statistics that ingestion publishes are never read as healthy: the check looks for
  the last write at the top of the public projection, where ingestion nests it under its metrics, so
  with those statistics wired in the deep check is unhealthy, whatever the dependencies answer.
\<close>

theorem index_stats_never_healthy:
  assumes "first_reader (sp_readers p) [''get_index_stats'', ''index_stats'', ''stats''] =
    Some (Inr (stats_value isofmt s))"
  shows "\<exists>h. deep_check cv fromiso now age deps (Some p) = Inr h \<and> hs_status h = ''unhealthy''"
proof -
  have "stats_field (stats_value isofmt s) ''last_write_timestamp'' = PNone"
    by (simp add: stats_field_def stats_value_def to_public_internal_dict_def pget_def dict_simps)
  then have "\<exists>h. check_index_stats cv fromiso now age p = Inr h \<and> ih_status h = ''unhealthy''"
    using assms by (simp add: check_index_stats_def read_index_stats_def parse_datetime_def Let_def)
  then show ?thesis by (auto simp: deep_check_def Let_def)
qed

definition fresh_stats :: index_stats where
  "fresh_stats = \<lparr>is_status = ''healthy'', is_timestamp = 100, is_index_name = ''papers'',
     is_total_documents = 3, is_vector_count = 3, is_last_write = Some 100, is_dependencies = []\<rparr>"

theorem index_stats_never_healthy_witness:
  "\<exists>h. deep_check demo_conversions demo_fromiso 100 60 []
       (Some \<lparr>sp_readers = [(''get_index_stats'', Inr (stats_value demo_iso fresh_stats))], sp_self = PNone\<rparr>) = Inr h \<and>
     hs_status h = ''unhealthy''"
  by (rule index_stats_never_healthy [where s = fresh_stats and isofmt = demo_iso]) (simp add: dict_simps)

end
